(* ===== verification/Prelude.thy ===== *)
theory Prelude
  imports Main "HOL-Library.Word"
begin

unbundle bit_operations_syntax

text \<open>
  Shared vocabulary of the development: the machine integers of \<open>include/lldp.h\<close>
  (\<open>u8\<close>, \<open>u16\<close>, \<open>u32\<close>), the result type of code that can fail the C abstract machine
  (a null dereference, an access outside a block or to a freed one, a failed \<open>assert\<close>), byte buffers with
  checked reads and writes, and the big-endian 16-bit fields every TLV and Ethernet header
  uses.  The collections \<open>res_simps\<close> and \<open>byte_simps\<close> carry the component proofs.
\<close>

named_theorems res_simps \<open>unfolding of the fault monad\<close>
named_theorems byte_simps \<open>big-endian fields and buffers\<close>

type_synonym u8 = "8 word"
type_synonym u16 = "16 word"
type_synonym u32 = "32 word"
type_synonym bytes = "u8 list"

subsection \<open>Code that may leave the defined behaviour of C\<close>

datatype fault = Null_Deref | Out_Of_Bounds | Assert_Failed | Use_After_Free

type_synonym 'a res = "fault + 'a"

definition bindR :: "'a res \<Rightarrow> ('a \<Rightarrow> 'b res) \<Rightarrow> 'b res" where
  "bindR m f = (case m of Inl e \<Rightarrow> Inl e | Inr x \<Rightarrow> f x)"

lemma bindR_Inl [simp, res_simps]: "bindR (Inl e) f = Inl e"
  by (simp add: bindR_def)

lemma bindR_Inr [simp, res_simps]: "bindR (Inr x) f = f x"
  by (simp add: bindR_def)

lemma bindR_eq_Inr [res_simps]: "bindR m f = Inr y \<longleftrightarrow> (\<exists>x. m = Inr x \<and> f x = Inr y)"
  by (cases m) simp_all

lemma bindR_eq_Inl [res_simps]:
  "bindR m f = Inl e \<longleftrightarrow> m = Inl e \<or> (\<exists>x. m = Inr x \<and> f x = Inl e)"
  by (cases m) simp_all

lemma bindR_InrE:
  assumes "bindR m f = Inr y"
  obtains x where "m = Inr x" "f x = Inr y"
  using assms by (auto simp: bindR_eq_Inr)

lemma bindR_cong [fundef_cong]:
  "m = m' \<Longrightarrow> (\<And>x. m' = Inr x \<Longrightarrow> f x = f' x) \<Longrightarrow> bindR m f = bindR m' f'"
  by (cases m') simp_all

lemma bindR_assoc: "bindR (bindR m f) g = bindR m (\<lambda>x. bindR (f x) g)"
  by (cases m) simp_all

definition assertR :: "bool \<Rightarrow> unit res" where
  "assertR b = (if b then Inr () else Inl Assert_Failed)"

lemma assertR_True [simp]: "assertR True = Inr ()"
  by (simp add: assertR_def)

lemma assertR_eq_Inr [simp]: "assertR b = Inr u \<longleftrightarrow> b"
  by (simp add: assertR_def)

definition derefR :: "'a option \<Rightarrow> 'a res" where
  "derefR p = (case p of None \<Rightarrow> Inl Null_Deref | Some x \<Rightarrow> Inr x)"

lemma derefR_simps [simp]: "derefR (Some x) = Inr x" "derefR None = Inl Null_Deref"
  by (simp_all add: derefR_def)

lemma derefR_eq_Inr [res_simps]: "derefR p = Inr x \<longleftrightarrow> p = Some x"
  by (cases p) simp_all

text \<open>Sequencing of code that may also fail to return (\<open>None\<close>).\<close>

definition bindO :: "'a res option \<Rightarrow> ('a \<Rightarrow> 'b res option) \<Rightarrow> 'b res option" where
  "bindO m f = (case m of None \<Rightarrow> None | Some (Inl e) \<Rightarrow> Some (Inl e) | Some (Inr x) \<Rightarrow> f x)"

lemma bindO_simps [simp]: "bindO None f = None" "bindO (Some (Inl e)) f = Some (Inl e)"
  "bindO (Some (Inr x)) f = f x"
  by (simp_all add: bindO_def)

lemma bindO_InrE:
  assumes "bindO m f = Some (Inr y)"
  obtains x where "m = Some (Inr x)" "f x = Some (Inr y)"
  using assms by (auto simp: bindO_def split: option.splits sum.splits)

subsection \<open>Big-endian fields\<close>

definition be16 :: "u8 \<Rightarrow> u8 \<Rightarrow> u16" where
  "be16 hi lo = push_bit 8 (ucast hi) OR ucast lo"

definition hi8 :: "u16 \<Rightarrow> u8" where
  "hi8 w = ucast (drop_bit 8 w)"

definition lo8 :: "u16 \<Rightarrow> u8" where
  "lo8 w = ucast w"

lemma be16_hi_lo [simp, byte_simps]: "be16 (hi8 w) (lo8 w) = w"
  unfolding be16_def hi8_def lo8_def
  by (rule bit_word_eqI) (auto simp: bit_simps)

lemma hi8_be16 [simp, byte_simps]: "hi8 (be16 h l) = h"
  unfolding be16_def hi8_def
  by (rule bit_word_eqI) (auto simp: bit_simps dest: bit_imp_le_length)

lemma lo8_be16 [simp, byte_simps]: "lo8 (be16 h l) = l"
  unfolding be16_def lo8_def
  by (rule bit_word_eqI) (auto simp: bit_simps)

definition be16_bytes :: "u16 \<Rightarrow> bytes" where
  "be16_bytes w = [hi8 w, lo8 w]"

lemma length_be16_bytes [simp]: "length (be16_bytes w) = 2"
  by (simp add: be16_bytes_def)

subsection \<open>Blocks of memory\<close>

text \<open>
  A block is the list of its bytes.  A read or a write of \<open>n\<close> bytes at an offset is defined
  only when it lies inside the block.
\<close>

definition read_bytes :: "bytes \<Rightarrow> nat \<Rightarrow> nat \<Rightarrow> bytes res" where
  "read_bytes buf off n =
     (if off + n \<le> length buf then Inr (take n (drop off buf)) else Inl Out_Of_Bounds)"

definition write_bytes :: "bytes \<Rightarrow> nat \<Rightarrow> bytes \<Rightarrow> bytes res" where
  "write_bytes buf off bs =
     (if off + length bs \<le> length buf
      then Inr (take off buf @ bs @ drop (off + length bs) buf) else Inl Out_Of_Bounds)"

definition read_be16 :: "bytes \<Rightarrow> nat \<Rightarrow> u16 res" where
  "read_be16 buf off =
     (if off + 2 \<le> length buf then Inr (be16 (buf ! off) (buf ! Suc off)) else Inl Out_Of_Bounds)"

lemma read_bytes_Inr [res_simps]:
  "read_bytes buf off n = Inr bs \<longleftrightarrow> off + n \<le> length buf \<and> bs = take n (drop off buf)"
  by (auto simp: read_bytes_def)

lemma write_bytes_Inr [res_simps]:
  "write_bytes buf off bs = Inr buf' \<longleftrightarrow>
     off + length bs \<le> length buf \<and> buf' = take off buf @ bs @ drop (off + length bs) buf"
  by (auto simp: write_bytes_def)

lemma write_bytes_length:
  "write_bytes buf off bs = Inr buf' \<Longrightarrow> length buf' = length buf"
  by (auto simp: write_bytes_Inr)

lemma read_after_write:
  "write_bytes buf off bs = Inr buf' \<Longrightarrow> read_bytes buf' off (length bs) = Inr bs"
  by (auto simp: write_bytes_Inr read_bytes_def)

lemma read_be16_at [byte_simps]:
  "off = length pre \<Longrightarrow> read_be16 (pre @ h # l # rest) off = Inr (be16 h l)"
  by (simp add: read_be16_def nth_append)

lemma read_bytes_at [byte_simps]:
  "off = length pre \<Longrightarrow> n = length bs \<Longrightarrow> read_bytes (pre @ bs @ rest) off n = Inr bs"
  by (simp add: read_bytes_def)

subsection \<open>C strings\<close>

text \<open>
  A C string is the list of its characters before the terminating zero;
  \<open>strncmp (a, b, n) == 0\<close> compares at most \<open>n\<close> of them.
\<close>

definition strn_eq :: "nat \<Rightarrow> string \<Rightarrow> string \<Rightarrow> bool" where
  "strn_eq n a b \<longleftrightarrow> take n a = take n b"

lemma strn_eq_refl [simp]: "strn_eq n a a"
  by (simp add: strn_eq_def)

lemma strn_eq_sym: "strn_eq n a b \<Longrightarrow> strn_eq n b a"
  by (simp add: strn_eq_def)

abbreviation (input) IFNAMSIZ :: nat where
  "IFNAMSIZ \<equiv> 16"

subsection \<open>Searching a list\<close>

fun find_index :: "('a \<Rightarrow> bool) \<Rightarrow> 'a list \<Rightarrow> nat option" where
  "find_index P [] = None"
| "find_index P (x # xs) = (if P x then Some 0 else map_option Suc (find_index P xs))"

lemma find_index_Some:
  "find_index P xs = Some i \<Longrightarrow> i < length xs \<and> P (xs ! i) \<and> (\<forall>j < i. \<not> P (xs ! j))"
proof (induction xs arbitrary: i)
  case (Cons x xs)
  then show ?case by (auto split: if_splits simp: less_Suc_eq_0_disj)
qed simp

lemma find_index_None: "find_index P xs = None \<longleftrightarrow> (\<forall>x \<in> set xs. \<not> P x)"
  by (induction xs) auto

lemma find_index_update:
  "find_index P xs = Some i \<Longrightarrow> P y \<Longrightarrow> find_index P (xs[i := y]) = Some i"
  by (induction xs arbitrary: i) (auto split: if_splits)

lemma find_index_update_other:
  "i < length xs \<Longrightarrow> P y = P (xs ! i) \<Longrightarrow> find_index P (xs[i := y]) = find_index P xs"
proof (induction xs arbitrary: i)
  case (Cons x xs)
  then show ?case by (cases i) auto
qed simp

subsection \<open>Words\<close>

lemma unat_pos_iff: "0 < unat w \<longleftrightarrow> w \<noteq> 0" for w :: "'a::len word"
  by (simp add: unat_gt_0)

lemma take_bit_word_small: "unat w < 2 ^ n \<Longrightarrow> take_bit n w = w" for w :: "'a::len word"
  by (simp add: word_unat_eq_iff unsigned_take_bit_eq take_bit_nat_eq_self)

lemma unat_u16_less: "unat w < 65536" for w :: u16
  by (rule order_less_le_trans [OF unsigned_less]) simp

lemma unat_dec: "w \<noteq> 0 \<Longrightarrow> unat (w - 1) = unat w - 1" for w :: "'a::len word"
  by (simp add: unat_minus_one)

end
