(* ===== verification/Tlv.thy ===== *)
theory Tlv
  imports Prelude
begin

text \<open>
  Type-length-value elements: \<open>src/lldp_tlv.c\<close> and the structures of
  \<open>src/include/lldp_tlv.h\<close>.  A packed TLV is a 16-bit header (7 bits of type, 9 bits of
  length, big endian) and the information string.  The allocator is a parameter: the
  argument \<open>ok\<close> of the operations says whether a request for a number of bytes succeeds.
\<close>

named_theorems tlv_defs \<open>definitions of the TLV operations\<close>

subsection \<open>Data\<close>

record unpacked_tlv =
  tlv_type :: u8
  tlv_length :: u16
  tlv_info :: "bytes option"

record packed_tlv =
  ptlv_size :: u16
  ptlv_tlv :: "bytes option"

abbreviation (input) END_OF_LLDPDU_TLV :: u8 where "END_OF_LLDPDU_TLV \<equiv> 0"
abbreviation (input) CHASSIS_ID_TLV :: u8 where "CHASSIS_ID_TLV \<equiv> 1"
abbreviation (input) PORT_ID_TLV :: u8 where "PORT_ID_TLV \<equiv> 2"
abbreviation (input) TIME_TO_LIVE_TLV :: u8 where "TIME_TO_LIVE_TLV \<equiv> 3"
abbreviation (input) ORG_SPECIFIC_TLV :: u8 where "ORG_SPECIFIC_TLV \<equiv> 127"

abbreviation (input) TLV_OK :: int where "TLV_OK \<equiv> 0"
abbreviation (input) TLV_ERR :: int where "TLV_ERR \<equiv> 1"
abbreviation (input) SUBTYPE_INVALID :: int where "SUBTYPE_INVALID \<equiv> 2"

text \<open>Block sizes requested from the allocator (LP64 layout of the two structures).\<close>

abbreviation (input) sizeof_packed_tlv :: nat where "sizeof_packed_tlv \<equiv> 16"
abbreviation (input) sizeof_unpacked_tlv :: nat where "sizeof_unpacked_tlv \<equiv> 16"

type_synonym allocator = "nat \<Rightarrow> bool"

subsection \<open>Operations\<close>

definition tlv_ok :: "unpacked_tlv option \<Rightarrow> bool" where
  "tlv_ok t = (case t of None \<Rightarrow> False
     | Some tlv \<Rightarrow> \<not> (tlv_length tlv = 0 \<and> tlv_type tlv \<noteq> 0))"

definition tlv_header :: "u8 \<Rightarrow> u16 \<Rightarrow> u16" where
  "tlv_header ty len = push_bit 9 (ucast ty) OR (len AND 0x01ff)"

definition pack_tlv :: "allocator \<Rightarrow> unpacked_tlv option \<Rightarrow> packed_tlv option res" where
  "pack_tlv ok t =
     (if \<not> tlv_ok t then Inr None
      else bindR (derefR t) (\<lambda>tlv.
        let tl = tlv_header (tlv_type tlv) (tlv_length tlv);
            size = tlv_length tlv + 2
        in if \<not> ok sizeof_packed_tlv then Inr None
           else if \<not> ok (unat size) then Inr None
           else bindR (write_bytes (replicate (unat size) 0) 0 (be16_bytes tl)) (\<lambda>buf.
             if tlv_length tlv = 0 then Inr (Some \<lparr>ptlv_size = size, ptlv_tlv = Some buf\<rparr>)
             else bindR (derefR (tlv_info tlv)) (\<lambda>info.
               bindR (read_bytes info 0 (unat (tlv_length tlv))) (\<lambda>bs.
               bindR (write_bytes buf 2 bs) (\<lambda>buf'.
                 Inr (Some \<lparr>ptlv_size = size, ptlv_tlv = Some buf'\<rparr>)))))))"

definition pack_tlv_after ::
  "allocator \<Rightarrow> unpacked_tlv option \<Rightarrow> packed_tlv \<Rightarrow> int \<Rightarrow> (int \<times> packed_tlv) res" where
  "pack_tlv_after ok t mtlv len =
     (if t = None then Inr (0, mtlv)
      else if \<not> tlv_ok t then Inr (- 1, mtlv)
      else bindR (pack_tlv ok t) (\<lambda>r. case r of None \<Rightarrow> Inr (- 1, mtlv)
        | Some p \<Rightarrow>
          if uint (ptlv_size p) + uint (ptlv_size mtlv) > len then Inr (- 1, mtlv)
          else bindR (derefR (ptlv_tlv p)) (\<lambda>src.
            bindR (read_bytes src 0 (unat (ptlv_size p))) (\<lambda>bs.
            bindR (derefR (ptlv_tlv mtlv)) (\<lambda>dst.
            bindR (write_bytes dst (unat (ptlv_size mtlv)) bs) (\<lambda>dst'.
              Inr (0, mtlv\<lparr>ptlv_size := ptlv_size mtlv + ptlv_size p,
                          ptlv_tlv := Some dst'\<rparr>)))))))"

definition unpack_tlv :: "allocator \<Rightarrow> packed_tlv option \<Rightarrow> unpacked_tlv option res" where
  "unpack_tlv ok t = (case t of None \<Rightarrow> Inr None
     | Some p \<Rightarrow> bindR (derefR (ptlv_tlv p)) (\<lambda>buf.
         bindR (read_be16 buf 0) (\<lambda>tl.
           if \<not> ok sizeof_unpacked_tlv then Inr None
           else let len = tl AND 0x01ff in
             if \<not> ok (unat len) then Inr None
             else bindR (read_bytes buf 2 (unat len)) (\<lambda>info.
               Inr (Some \<lparr>tlv_type = ucast (drop_bit 9 tl), tlv_length = len,
                          tlv_info = Some info\<rparr>)))))"

definition create_ptlv :: "allocator \<Rightarrow> packed_tlv option" where
  "create_ptlv ok =
     (if ok sizeof_packed_tlv then Some \<lparr>ptlv_size = 0, ptlv_tlv = None\<rparr> else None)"

definition create_tlv :: "allocator \<Rightarrow> unpacked_tlv option" where
  "create_tlv ok =
     (if ok sizeof_unpacked_tlv
      then Some \<lparr>tlv_type = 0, tlv_length = 0, tlv_info = None\<rparr> else None)"

definition bld_end_tlv :: "allocator \<Rightarrow> unpacked_tlv option" where
  "bld_end_tlv ok = map_option (\<lambda>tlv. tlv\<lparr>tlv_type := END_OF_LLDPDU_TLV, tlv_length := 0,
                                            tlv_info := None\<rparr>) (create_tlv ok)"

definition pack_end_tlv :: "allocator \<Rightarrow> packed_tlv option res" where
  "pack_end_tlv ok = pack_tlv ok (bld_end_tlv ok)"

definition TLVSIZE :: "unpacked_tlv option \<Rightarrow> nat" where
  "TLVSIZE t = (case t of None \<Rightarrow> 0 | Some tlv \<Rightarrow> 2 + unat (tlv_length tlv))"

definition TLVID :: "u32 \<Rightarrow> u32 \<Rightarrow> u32" where
  "TLVID oui sub = (push_bit 8 oui AND 0xfffff00) OR (sub AND 0xff)"

lemmas tlv_op_defs [tlv_defs] =
  tlv_ok_def pack_tlv_def pack_tlv_after_def unpack_tlv_def create_ptlv_def create_tlv_def
  bld_end_tlv_def pack_end_tlv_def TLVSIZE_def Let_def

subsection \<open>The header field\<close>

lemma mask9: "(0x01ff :: u16) = mask 9"
  by (simp add: mask_eq_exp_minus_1)

lemma tlv_header_length [simp]: "tlv_header ty len AND 0x01ff = len AND 0x01ff"
  unfolding tlv_header_def mask9
  by (rule bit_word_eqI) (auto simp: bit_simps)

lemma tlv_header_type:
  assumes "ty < 128"
  shows "ucast (drop_bit 9 (tlv_header ty len)) = ty"
proof -
  from assms have "take_bit 7 ty = ty"
    by (simp add: take_bit_word_small word_less_nat_alt)
  then have "bit ty n \<Longrightarrow> n < 7" for n
    by (metis bit_take_bit_iff)
  then show ?thesis
    unfolding tlv_header_def mask9
    by (intro bit_word_eqI) (auto simp: bit_simps)
qed

lemma and_1ff_small: "len < 512 \<Longrightarrow> len AND 0x01ff = len" for len :: u16
  unfolding mask9 take_bit_eq_mask [symmetric]
  by (simp add: take_bit_word_small word_less_nat_alt)

lemma and_1ff_bound: "unat (w AND 0x01ff) < 512" for w :: u16
proof -
  have "unat (w AND 0x01ff) \<le> unat (0x01ff :: u16)"
    by (rule word_and_le1 [THEN word_le_nat_alt [THEN iffD1]])
  then show ?thesis by simp
qed

subsection \<open>Encoding and its inverse\<close>

text \<open>The wire image of a TLV, and the TLVs that have one.\<close>

definition tlv_encode :: "u8 \<Rightarrow> bytes \<Rightarrow> bytes" where
  "tlv_encode ty bs = be16_bytes (tlv_header ty (of_nat (length bs))) @ bs"

definition wf_tlv :: "unpacked_tlv \<Rightarrow> bool" where
  "wf_tlv t \<longleftrightarrow> tlv_type t < 128 \<and> unat (tlv_length t) < 512
     \<and> (tlv_length t = 0 \<longrightarrow> tlv_type t = 0)
     \<and> (case tlv_info t of None \<Rightarrow> tlv_length t = 0
        | Some bs \<Rightarrow> length bs = unat (tlv_length t))"

definition tlv_payload :: "unpacked_tlv \<Rightarrow> bytes" where
  "tlv_payload t = (case tlv_info t of None \<Rightarrow> [] | Some bs \<Rightarrow> bs)"

lemma length_tlv_encode [simp]: "length (tlv_encode ty bs) = 2 + length bs"
  by (simp add: tlv_encode_def)

lemma wf_tlv_payload: "wf_tlv t \<Longrightarrow> length (tlv_payload t) = unat (tlv_length t)"
  by (auto simp: wf_tlv_def tlv_payload_def split: option.splits)

lemma wf_tlv_of_nat: "wf_tlv t \<Longrightarrow> of_nat (length (tlv_payload t)) = tlv_length t"
  by (simp add: wf_tlv_payload)

lemma wf_tlv_size: "wf_tlv t \<Longrightarrow> unat (tlv_length t + 2) = unat (tlv_length t) + 2"
  by (subst unat_word_ariths) (auto simp: wf_tlv_def)

lemma pack_tlv_wf:
  assumes wf: "wf_tlv t" and ok: "ok sizeof_packed_tlv" "ok (unat (tlv_length t) + 2)"
  shows "pack_tlv ok (Some t) = Inr (Some \<lparr>ptlv_size = tlv_length t + 2,
           ptlv_tlv = Some (tlv_encode (tlv_type t) (tlv_payload t))\<rparr>)"
proof -
  have len: "unat (tlv_length t + 2) = Suc (Suc (unat (tlv_length t)))"
    using wf by (simp add: wf_tlv_size)
  have tok: "tlv_ok (Some t)"
    using wf by (auto simp: tlv_ok_def wf_tlv_def)
  show ?thesis
  proof (cases "tlv_length t = 0")
    case True
    with wf have "tlv_payload t = []"
      by (simp add: wf_tlv_payload flip: length_0_conv)
    with True tok ok len show ?thesis
      by (simp add: pack_tlv_def tlv_encode_def write_bytes_def be16_bytes_def numeral_2_eq_2)
  next
    case False
    with wf obtain bs where bs: "tlv_info t = Some bs" "length bs = unat (tlv_length t)"
      by (auto simp: wf_tlv_def split: option.splits)
    then have "of_nat (length bs) = tlv_length t" by simp
    with False bs tok ok len show ?thesis
      by (simp add: pack_tlv_def tlv_encode_def tlv_payload_def write_bytes_def read_bytes_def
          be16_bytes_def numeral_2_eq_2)
  qed
qed

lemma pack_tlv_null: "\<not> tlv_ok t \<Longrightarrow> pack_tlv ok t = Inr None"
  by (simp add: pack_tlv_def)

lemma pack_end_tlv_eq:
  assumes "ok 16" "ok 2"
  shows "pack_end_tlv ok = Inr (Some \<lparr>ptlv_size = 2, ptlv_tlv = Some [0, 0]\<rparr>)"
proof -
  from assms(2) have "ok (Suc (Suc 0))" by (simp add: numeral_2_eq_2)
  then show ?thesis
    using assms pack_tlv_wf [of "\<lparr>tlv_type = 0, tlv_length = 0, tlv_info = None\<rparr>" ok]
    by (simp add: wf_tlv_def pack_end_tlv_def bld_end_tlv_def create_tlv_def tlv_encode_def
        tlv_payload_def tlv_header_def be16_bytes_def hi8_def lo8_def)
qed

lemma unpack_encoded:
  assumes "ty < 128" "length bs < 512" "ok sizeof_unpacked_tlv" "ok (length bs)"
  shows "unpack_tlv ok (Some \<lparr>ptlv_size = n, ptlv_tlv = Some (tlv_encode ty bs @ rest)\<rparr>)
       = Inr (Some \<lparr>tlv_type = ty, tlv_length = of_nat (length bs), tlv_info = Some bs\<rparr>)"
proof -
  let ?len = "of_nat (length bs) :: u16"
  have small: "unat ?len = length bs" using assms(2) by (simp add: unat_of_nat)
  then have len: "?len AND 0x01ff = ?len"
    using assms(2) by (intro and_1ff_small) (simp add: word_less_nat_alt)
  have "read_be16 (tlv_encode ty bs @ rest) 0 = Inr (tlv_header ty ?len)"
    by (simp add: read_be16_def tlv_encode_def be16_bytes_def)
  moreover have "read_bytes (tlv_encode ty bs @ rest) 2 (length bs) = Inr bs"
    by (simp add: read_bytes_def tlv_encode_def be16_bytes_def)
  ultimately show ?thesis
    using assms len small by (simp add: unpack_tlv_def tlv_header_type Let_def)
qed

text \<open>Packing never leaves the block it allocates.\<close>

lemma pack_tlv_safe:
  assumes "tlv_length t \<noteq> 0 \<Longrightarrow> \<exists>bs. tlv_info t = Some bs \<and> unat (tlv_length t) \<le> length bs"
    and "unat (tlv_length t) < 65534"
  shows "\<exists>r. pack_tlv ok (Some t) = Inr r"
proof -
  have "unat (tlv_length t + 2) = unat (tlv_length t) + 2"
    using assms(2) by (subst unat_word_ariths) simp
  then show ?thesis
    using assms(1)
    by (cases "tlv_length t = 0")
      (auto simp: pack_tlv_def Let_def write_bytes_def read_bytes_def be16_bytes_def min_def)
qed

subsection \<open>Appending to a packed block\<close>

definition mtlv_used :: "packed_tlv \<Rightarrow> bytes" where
  "mtlv_used m = (case ptlv_tlv m of None \<Rightarrow> [] | Some buf \<Rightarrow> take (unat (ptlv_size m)) buf)"

lemma pack_tlv_after_fits:
  assumes wf: "wf_tlv t" and ok: "ok sizeof_packed_tlv" "ok (unat (tlv_length t) + 2)"
    and buf: "ptlv_tlv m = Some buf" "length buf = n" "n < 65536"
    and fits: "unat (ptlv_size m) + unat (tlv_length t) + 2 \<le> n"
  shows "\<exists>m'. pack_tlv_after ok (Some t) m (int n) = Inr (0, m')
       \<and> unat (ptlv_size m') = unat (ptlv_size m) + unat (tlv_length t) + 2
       \<and> (\<exists>buf'. ptlv_tlv m' = Some buf' \<and> length buf' = n)
       \<and> mtlv_used m' = mtlv_used m @ tlv_encode (tlv_type t) (tlv_payload t)"
proof -
  let ?enc = "tlv_encode (tlv_type t) (tlv_payload t)"
  have tok: "tlv_ok (Some t)" using wf by (auto simp: tlv_ok_def wf_tlv_def)
  have len: "length ?enc = unat (tlv_length t + 2)" "unat (tlv_length t + 2) = unat (tlv_length t) + 2"
    using wf by (simp_all add: wf_tlv_payload wf_tlv_size)
  have size: "unat (ptlv_size m + (tlv_length t + 2)) = unat (ptlv_size m) + unat (tlv_length t) + 2"
    using fits buf(3) by (simp add: unat_word_ariths(1) [of "ptlv_size m"] len(2))
  have int_le: "\<not> int n < uint (tlv_length t + 2) + uint (ptlv_size m)"
    unfolding uint_nat using fits len(2) by linarith
  define buf' where "buf' = take (unat (ptlv_size m)) buf @ ?enc
      @ drop (unat (ptlv_size m) + length ?enc) buf"
  have "write_bytes buf (unat (ptlv_size m)) ?enc = Inr buf'"
    using fits buf len by (simp add: write_bytes_def buf'_def)
  moreover have "read_bytes ?enc 0 (unat (tlv_length t + 2)) = Inr ?enc"
    using len by (simp add: read_bytes_def)
  ultimately have eq: "pack_tlv_after ok (Some t) m (int n)
      = Inr (0, m\<lparr>ptlv_size := ptlv_size m + (tlv_length t + 2), ptlv_tlv := Some buf'\<rparr>)"
    using tok int_le buf pack_tlv_wf [OF wf ok] by (simp add: pack_tlv_after_def)
  have "length buf' = n" using fits buf len by (simp add: buf'_def)
  moreover have "take (unat (ptlv_size m) + unat (tlv_length t) + 2) buf'
      = take (unat (ptlv_size m)) buf @ ?enc"
    using fits buf len by (simp add: buf'_def)
  ultimately show ?thesis
    using eq size buf by (simp add: mtlv_used_def)
qed

lemma pack_tlv_after_none [simp]: "pack_tlv_after ok None m n = Inr (0, m)"
  by (simp add: pack_tlv_after_def)

lemma pack_tlv_after_bound:
  assumes "pack_tlv_after ok t m n = Inr (rc, m')" and "uint (ptlv_size m) \<le> n" and "n < 65536"
  shows "uint (ptlv_size m') \<le> n"
proof -
  have "uint (a + b) \<le> n" if "uint a + uint b \<le> n" for a b :: u16
    using that assms(3) by (simp add: uint_word_ariths(1) uint_add_lem)
  with assms show ?thesis
    by (auto simp: pack_tlv_after_def res_simps add.commute split: if_splits option.splits)
qed

end
