(* ===== verification/Agent_Types.thy ===== *)
theory Agent_Types
  imports Tlv
begin

text \<open>
  The data shared by the LLDP core: ports and agents (\<open>src/lldp/ports.h\<close>,
  \<open>src/lldp/agent.h\<close>, \<open>src/lldp/mibdata.h\<close>), the states of the three state machines
  (\<open>src/lldp/states.h\<close>), the layer-2 access structure (\<open>src/lldp/l2_packet_linux.c\<close>) and
  the table of protocol modules (\<open>src/include/lldp_mod.h\<close>).  A pointer that may be null
  is an option; the 16-bit counters are words.
\<close>

subsection \<open>State machine states\<close>

datatype timer_state = TX_TIMER_BEGIN | TX_TIMER_INITIALIZE | TX_TIMER_IDLE | TX_TIMER_EXPIRES
  | TX_TICK | SIGNAL_TX | TX_FAST_START

datatype tx_state = TX_LLDP_INITIALIZE | TX_IDLE | TX_SHUTDOWN_FRAME | TX_INFO_FRAME

datatype rx_state = LLDP_WAIT_PORT_OPERATIONAL | DELETE_AGED_INFO | RX_LLDP_INITIALIZE
  | RX_WAIT_FOR_FRAME | RX_FRAME | DELETE_INFO | UPDATE_INFO

subsection \<open>Agents\<close>

datatype agent_type = NEAREST_BRIDGE | NEAREST_NONTPMR_BRIDGE | NEAREST_CUSTOMER_BRIDGE

abbreviation (input) disabled :: int where "disabled \<equiv> 0"
abbreviation (input) enabledTxOnly :: int where "enabledTxOnly \<equiv> 1"
abbreviation (input) enabledRxOnly :: int where "enabledRxOnly \<equiv> 2"
abbreviation (input) enabledRxTx :: int where "enabledRxTx \<equiv> 3"

record agenttimers =
  timers_state :: timer_state
  reinitDelay :: u16
  msgTxHold :: u16
  msgTxInterval :: u16
  msgFastTx :: u16
  txFastInit :: u16
  txTTR :: u16
  txShutdownWhile :: u16
  txCredit :: u16
  txMaxCredit :: u16
  txTick :: bool
  tooManyNghbrsTimer :: u16
  rxTTL :: u16
  lastrxTTL :: u16

record agenttx =
  frameout :: "bytes option"
  sizeout :: u32
  txstate :: tx_state
  localChange :: bool
  txTTL :: u16
  txNow :: bool
  txFast :: u16

record agentstats =
  statsFramesOutTotal :: u32
  statsAgeoutsTotal :: u32
  statsFramesDiscardedTotal :: u32
  statsFramesInErrorsTotal :: u32
  statsFramesInTotal :: u32
  statsTLVsDiscardedTotal :: u32
  statsTLVsUnrecognizedTotal :: u32

record rxmanifest =
  man_chassis :: "unpacked_tlv option"
  man_portid :: "unpacked_tlv option"
  man_ttl :: "unpacked_tlv option"
  man_portdesc :: "unpacked_tlv option"
  man_sysname :: "unpacked_tlv option"
  man_sysdesc :: "unpacked_tlv option"
  man_syscap :: "unpacked_tlv option"
  man_mgmtadd :: "unpacked_tlv option"

record agentrx =
  framein :: "bytes option"
  sizein :: u16
  rxstate :: rx_state
  badFrame :: bool
  rcvFrame :: bool
  rxInfoAge :: bool
  remoteChange :: bool
  tooManyNghbrs :: bool
  dupTlvs :: u8
  dcbx_st :: u8
  newNeighbor :: bool
  manifest :: "rxmanifest option"

record msap =
  length1 :: u16
  msap1 :: "bytes option"
  length2 :: u16
  msap2 :: "bytes option"

record lldp_agent =
  adminStatus :: int
  mac_addr :: bytes
  rx :: agentrx
  tx :: agenttx
  stats :: agentstats
  timers :: agenttimers
  rxChanges :: bool
  lldpdu :: u16
  msap_info :: msap
  agenttype :: agent_type

subsection \<open>Layer 2 access and ports\<close>

text \<open>
  \<open>l2_sent\<close> is the history of the packets handed to \<open>send\<close>: the first \<open>len\<close> bytes of the
  buffer, or \<open>None\<close> for a null buffer, with which \<open>send\<close> fails.
\<close>

record l2_packet_data =
  l2_ifname :: string
  perm_mac_addr :: bytes
  curr_mac_addr :: bytes
  san_mac_addr :: bytes
  remote_mac_addr :: bytes
  l2_sent :: "bytes option list"

record port =
  ifindex :: int
  hw_resetting :: u8
  portEnabled :: bool
  prevPortEnabled :: bool
  bond_master :: bool
  dormantDelay :: u16
  agent_head :: "lldp_agent list"
  l2 :: l2_packet_data
  ifname :: string

abbreviation (input) ETH_ALEN :: nat where "ETH_ALEN \<equiv> 6"
abbreviation (input) ETH_HLEN :: nat where "ETH_HLEN \<equiv> 14"
abbreviation (input) ETH_ZLEN :: nat where "ETH_ZLEN \<equiv> 60"
abbreviation (input) ETH_DATA_LEN :: nat where "ETH_DATA_LEN \<equiv> 1500"
abbreviation (input) ETH_FRAME_LEN :: nat where "ETH_FRAME_LEN \<equiv> 1514"
abbreviation (input) ETH_MIN_DATA_LEN :: nat where "ETH_MIN_DATA_LEN \<equiv> 46"
abbreviation (input) ETH_P_LLDP :: u16 where "ETH_P_LLDP \<equiv> 0x88cc"

abbreviation (input) DEFAULT_TX_HOLD :: u16 where "DEFAULT_TX_HOLD \<equiv> 4"
abbreviation (input) DEFAULT_TX_INTERVAL :: u16 where "DEFAULT_TX_INTERVAL \<equiv> 30"
abbreviation (input) FAST_TX_INTERVAL :: u16 where "FAST_TX_INTERVAL \<equiv> 1"
abbreviation (input) TX_FAST_INIT :: u16 where "TX_FAST_INIT \<equiv> 4"
abbreviation (input) REINIT_DELAY :: u16 where "REINIT_DELAY \<equiv> 2"
abbreviation (input) TX_CREDIT_MAX :: u16 where "TX_CREDIT_MAX \<equiv> 5"
abbreviation (input) DORMANT_DELAY :: u16 where "DORMANT_DELAY \<equiv> 15"

definition port_find_by_ifindex :: "port list \<Rightarrow> int \<Rightarrow> nat option" where
  "port_find_by_ifindex ps i = find_index (\<lambda>p. ifindex p = i) ps"

subsection \<open>Protocol modules\<close>

text \<open>
  The table of callbacks of a module.  The callbacks read the port and the agent they are
  called for and work on the data of the modules, of type \<open>'m\<close>.  A received TLV and the
  deletion of the remote information may change the agent as well.
\<close>

record 'm lldp_mod_ops =
  lldp_mod_gettlv :: "(port \<Rightarrow> lldp_agent \<Rightarrow> 'm \<Rightarrow> (packed_tlv option \<times> 'm) res) option"
  lldp_mod_rchange ::
    "(port \<Rightarrow> lldp_agent \<Rightarrow> unpacked_tlv \<Rightarrow> 'm \<Rightarrow> (int \<times> lldp_agent \<times> 'm) res) option"
  lldp_mod_mibdelete :: "(port \<Rightarrow> lldp_agent \<Rightarrow> 'm \<Rightarrow> (lldp_agent \<times> 'm) res) option"
  lldp_mod_timer :: "(port \<Rightarrow> lldp_agent \<Rightarrow> 'm \<Rightarrow> (lldp_agent \<times> 'm) res) option"

record 'm lldp_module =
  mod_id :: int
  mod_ops :: "'m lldp_mod_ops option"

definition find_module_by_id :: "'m lldp_module list \<Rightarrow> int \<Rightarrow> 'm lldp_module option" where
  "find_module_by_id head i = find (\<lambda>m. mod_id m = i) head"

subsection \<open>Environment\<close>

text \<open>
  What the daemon reads from the system and the configuration file: the allocator, the
  integer settings (\<open>get_config_setting\<close>, \<open>None\<close> when the setting is missing), the index of
  an interface (\<open>get_ifidx\<close>), whether an interface runs DCB, and the source address that a
  bond prescribes to one of its slaves.  The core is called with this environment, the table
  of modules and the list of ports.
\<close>

record env =
  malloc_ok :: allocator
  cfg_int :: "string \<Rightarrow> agent_type \<Rightarrow> string \<Rightarrow> int option"
  get_ifidx :: "string \<Rightarrow> int"
  check_port_dcb_mode :: "string \<Rightarrow> bool"
  get_src_mac_from_bond :: "port \<Rightarrow> string \<Rightarrow> bytes option"
  is_bond :: "string \<Rightarrow> bool"

record 'm core =
  core_env :: env
  lldp_head :: "'m lldp_module list"
  porthead :: "port list"

end
