(* ===== verification/Modules.thy ===== *)
theory Modules
  imports Agent_Types
begin

text \<open>
  The contract between the LLDP core and the protocol modules it calls through
  \<open>struct lldp_mod_ops\<close> (\<open>src/include/lldp_mod.h\<close>): the transmit callback delivers a
  sequence of well-formed TLVs and keeps the modules' invariant, and the receive, delete and
  timer callbacks leave the variables of the core state machines alone.
\<close>

subsection \<open>Sequences of TLVs on the wire\<close>

fun tlv_concat :: "(u8 \<times> bytes) list \<Rightarrow> bytes" where
  "tlv_concat [] = []"
| "tlv_concat ((ty, bs) # ts) = tlv_encode ty bs @ tlv_concat ts"

definition wf_seq :: "(u8 \<times> bytes) list \<Rightarrow> bool" where
  "wf_seq ts \<longleftrightarrow> (\<forall>(ty, bs) \<in> set ts. ty < 128 \<and> length bs < 512 \<and> bs \<noteq> [])"

lemma tlv_concat_append [simp]: "tlv_concat (xs @ ys) = tlv_concat xs @ tlv_concat ys"
  by (induction xs rule: tlv_concat.induct) simp_all

lemma wf_seq_simps [simp]:
  "wf_seq []" "wf_seq ((ty, bs) # ts) \<longleftrightarrow> ty < 128 \<and> length bs < 512 \<and> bs \<noteq> [] \<and> wf_seq ts"
  "wf_seq (xs @ ys) \<longleftrightarrow> wf_seq xs \<and> wf_seq ys"
  by (auto simp: wf_seq_def)

definition ptlv_carries :: "packed_tlv \<Rightarrow> (u8 \<times> bytes) list \<Rightarrow> bool" where
  "ptlv_carries t ts \<longleftrightarrow> (\<exists>buf. ptlv_tlv t = Some buf \<and> unat (ptlv_size t) \<le> length buf
     \<and> take (unat (ptlv_size t)) buf = tlv_concat ts)"

lemma ptlv_carries_length: "ptlv_carries t ts \<Longrightarrow> length (tlv_concat ts) = unat (ptlv_size t)"
  unfolding ptlv_carries_def by (metis length_take min.absorb2)

subsection \<open>What a callback may change of an agent\<close>

text \<open>
  The part of an agent the callbacks must not touch: everything but the duplicate-TLV and
  DCBX subtype notes, the local-change request, \<open>rxChanges\<close> and the set of received TLVs.
\<close>

definition core_view :: "lldp_agent \<Rightarrow> lldp_agent" where
  "core_view a = a\<lparr>rx := (rx a)\<lparr>dupTlvs := 0, dcbx_st := 0\<rparr>,
     tx := (tx a)\<lparr>localChange := False, txFast := 0\<rparr>, rxChanges := False, lldpdu := 0\<rparr>"

definition mod_agree :: "lldp_agent \<Rightarrow> lldp_agent \<Rightarrow> bool" where
  "mod_agree a a' \<longleftrightarrow> core_view a' = core_view a"

lemma mod_agree_refl [simp]: "mod_agree a a"
  by (simp add: mod_agree_def)

lemma mod_agree_trans: "mod_agree a b \<Longrightarrow> mod_agree b d \<Longrightarrow> mod_agree a d"
  by (simp add: mod_agree_def)

lemma core_view_sel:
    "framein (rx (core_view a)) = framein (rx a)" "sizein (rx (core_view a)) = sizein (rx a)"
    "rxstate (rx (core_view a)) = rxstate (rx a)" "rcvFrame (rx (core_view a)) = rcvFrame (rx a)"
    "rxInfoAge (rx (core_view a)) = rxInfoAge (rx a)"
    "badFrame (rx (core_view a)) = badFrame (rx a)"
    "manifest (rx (core_view a)) = manifest (rx a)"
    "tooManyNghbrs (rx (core_view a)) = tooManyNghbrs (rx a)"
    "newNeighbor (rx (core_view a)) = newNeighbor (rx a)"
    "remoteChange (rx (core_view a)) = remoteChange (rx a)" "timers (core_view a) = timers a"
    "stats (core_view a) = stats a" "adminStatus (core_view a) = adminStatus a"
    "msap_info (core_view a) = msap_info a" "agenttype (core_view a) = agenttype a"
    "mac_addr (core_view a) = mac_addr a" "txstate (tx (core_view a)) = txstate (tx a)"
    "txNow (tx (core_view a)) = txNow (tx a)" "frameout (tx (core_view a)) = frameout (tx a)"
    "sizeout (tx (core_view a)) = sizeout (tx a)" "txTTL (tx (core_view a)) = txTTL (tx a)"
  by (simp_all add: core_view_def)

lemma mod_agree_fields:
  assumes "mod_agree a a'"
  shows
    "framein (rx a') = framein (rx a)" "sizein (rx a') = sizein (rx a)"
    "rxstate (rx a') = rxstate (rx a)" "rcvFrame (rx a') = rcvFrame (rx a)"
    "rxInfoAge (rx a') = rxInfoAge (rx a)" "badFrame (rx a') = badFrame (rx a)"
    "manifest (rx a') = manifest (rx a)" "tooManyNghbrs (rx a') = tooManyNghbrs (rx a)"
    "newNeighbor (rx a') = newNeighbor (rx a)" "remoteChange (rx a') = remoteChange (rx a)"
    "timers a' = timers a" "stats a' = stats a" "adminStatus a' = adminStatus a"
    "msap_info a' = msap_info a" "agenttype a' = agenttype a" "mac_addr a' = mac_addr a"
    "txstate (tx a') = txstate (tx a)" "txNow (tx a') = txNow (tx a)"
    "frameout (tx a') = frameout (tx a)" "sizeout (tx a') = sizeout (tx a)"
    "txTTL (tx a') = txTTL (tx a)"
  using assms unfolding mod_agree_def by (metis core_view_sel)+

text \<open>The request for a transmission that a module makes (\<open>somethingChangedLocal\<close>).\<close>

definition somethingChanged :: "lldp_agent \<Rightarrow> lldp_agent" where
  "somethingChanged a = tx_update (\<lambda>t. t\<lparr>localChange := True, txFast := txFastInit (timers a)\<rparr>) a"

lemma mod_agree_somethingChanged [simp]: "mod_agree a (somethingChanged a)"
  by (simp add: mod_agree_def core_view_def somethingChanged_def)

subsection \<open>The contract\<close>

text \<open>
  \<open>emits m ts\<close> says that the TLV sequence \<open>ts\<close> is one the module may put into a frame,
  \<open>inv\<close> is the invariant of the modules' data.
\<close>

locale lldp_modules =
  fixes mods :: "'m lldp_module list"
    and inv :: "'m \<Rightarrow> bool"
    and emits :: "'m lldp_module \<Rightarrow> (u8 \<times> bytes) list \<Rightarrow> bool"
  assumes gettlv_ok: "\<And>m ops f p a w. m \<in> set mods \<Longrightarrow> mod_ops m = Some ops \<Longrightarrow>
      lldp_mod_gettlv ops = Some f \<Longrightarrow> inv w \<Longrightarrow>
      \<exists>r w'. f p a w = Inr (r, w') \<and> inv w'
        \<and> (\<forall>t. r = Some t \<longrightarrow> (\<exists>ts. emits m ts \<and> wf_seq ts \<and> ptlv_carries t ts))"
    and rchange_agree: "\<And>m ops f p a t w e a' w'. m \<in> set mods \<Longrightarrow> mod_ops m = Some ops \<Longrightarrow>
      lldp_mod_rchange ops = Some f \<Longrightarrow> inv w \<Longrightarrow> f p a t w = Inr (e, a', w') \<Longrightarrow>
      mod_agree a a' \<and> inv w'"
    and mibdelete_ok: "\<And>m ops f p a w. m \<in> set mods \<Longrightarrow> mod_ops m = Some ops \<Longrightarrow>
      lldp_mod_mibdelete ops = Some f \<Longrightarrow> inv w \<Longrightarrow>
      \<exists>a' w'. f p a w = Inr (a', w') \<and> mod_agree a a' \<and> inv w'"
    and timer_ok: "\<And>m ops f p a w. m \<in> set mods \<Longrightarrow> mod_ops m = Some ops \<Longrightarrow>
      lldp_mod_timer ops = Some f \<Longrightarrow> inv w \<Longrightarrow>
      \<exists>a' w'. f p a w = Inr (a', w') \<and> mod_agree a a' \<and> inv w'"

fun emits_list :: "('m lldp_module \<Rightarrow> (u8 \<times> bytes) list \<Rightarrow> bool) \<Rightarrow> 'm lldp_module list \<Rightarrow>
    (u8 \<times> bytes) list \<Rightarrow> bool" where
  "emits_list em [] ts = (ts = [])"
| "emits_list em (m # ms) ts =
     (\<exists>t1 t2. ts = t1 @ t2 \<and> (t1 = [] \<or> em m t1) \<and> emits_list em ms t2)"

end
