(* ===== verification/Tx_Frame.thy ===== *)
theory Tx_Frame
  imports Modules
begin

text \<open>
  The transmit side of \<open>src/lldp/tx.c\<close> below its state machine: construction of the
  information and of the shutdown LLDPDU, initialisation of the transmit variables, and
  the hand-over of a frame to layer 2 (\<open>src/lldp/l2_packet_linux.c\<close>).
\<close>

named_theorems frame_defs \<open>definitions of the frame construction\<close>

subsection \<open>Configuration keys\<close>

definition hexdigit :: "nat \<Rightarrow> char" where
  "hexdigit n = ''0123456789abcdef'' ! n"

definition hex08 :: "u32 \<Rightarrow> string" where
  "hex08 w = map (\<lambda>i. hexdigit (unat (drop_bit (4 * i) w AND 15))) [7, 6, 5, 4, 3, 2, 1, 0]"

definition tlv_arg_path :: "u32 \<Rightarrow> string \<Rightarrow> string" where
  "tlv_arg_path tlvid arg = ''tlvid'' @ hex08 tlvid @ ''.'' @ arg"

subsection \<open>Layer 2\<close>

definition is_san_mac :: "bytes \<Rightarrow> bool" where
  "is_san_mac addr = (\<exists>b \<in> set (take ETH_ALEN addr). b \<noteq> 0xff)"

fun bond_src_mac :: "env \<Rightarrow> port list \<Rightarrow> string \<Rightarrow> bytes option" where
  "bond_src_mac e [] name = None"
| "bond_src_mac e (bp # ps) name =
     (if bond_master bp
      then (case get_src_mac_from_bond e bp name of
              Some addr \<Rightarrow> Some addr | None \<Rightarrow> bond_src_mac e ps name)
      else bond_src_mac e ps name)"

definition l2_packet_get_own_src_addr :: "env \<Rightarrow> port list \<Rightarrow> l2_packet_data \<Rightarrow> bytes" where
  "l2_packet_get_own_src_addr e ports l =
     (if is_san_mac (san_mac_addr l) then san_mac_addr l
      else (case bond_src_mac e ports (l2_ifname l) of
              Some addr \<Rightarrow> addr | None \<Rightarrow> curr_mac_addr l))"

definition l2_packet_send :: "l2_packet_data \<Rightarrow> bytes option \<Rightarrow> nat \<Rightarrow> l2_packet_data res" where
  "l2_packet_send l buf len = (case buf of
       None \<Rightarrow> Inr (l\<lparr>l2_sent := l2_sent l @ [None]\<rparr>)
     | Some b \<Rightarrow> bindR (read_bytes b 0 len) (\<lambda>pkt.
         Inr (l\<lparr>l2_sent := l2_sent l @ [Some pkt]\<rparr>)))"

subsection \<open>Information LLDPDU\<close>

definition eth_header :: "bytes \<Rightarrow> bytes \<Rightarrow> bytes" where
  "eth_header dst src = dst @ src @ be16_bytes ETH_P_LLDP"

text \<open>
  The common start of the two constructors: drop the old frame, allocate and clear a frame
  buffer, write the Ethernet header.  \<open>None\<close> when the allocation fails.
\<close>

definition start_frame :: "'m core \<Rightarrow> port \<Rightarrow> lldp_agent \<Rightarrow> lldp_agent option res" where
  "start_frame c p a =
     (if \<not> malloc_ok (core_env c) ETH_FRAME_LEN then Inr None
      else bindR (write_bytes (replicate ETH_FRAME_LEN 0) 0
                    (eth_header (mac_addr a)
                       (l2_packet_get_own_src_addr (core_env c) (porthead c) (l2 p)))) (\<lambda>buf.
             Inr (Some (tx_update (\<lambda>t. t\<lparr>frameout := Some buf\<rparr>) a))))"

definition put_tlv :: "lldp_agent \<Rightarrow> u32 \<Rightarrow> packed_tlv \<Rightarrow> lldp_agent res" where
  "put_tlv a off t = bindR (derefR (ptlv_tlv t)) (\<lambda>src.
     bindR (read_bytes src 0 (unat (ptlv_size t))) (\<lambda>bs.
     bindR (derefR (frameout (tx a))) (\<lambda>buf.
     bindR (write_bytes buf (unat off) bs) (\<lambda>buf'.
       Inr (tx_update (\<lambda>x. x\<lparr>frameout := Some buf'\<rparr>) a)))))"

text \<open>
  The loop over the modules.  The result carries the agent, \<open>fb_offset\<close> and \<open>datasize\<close>, or
  \<open>None\<close> for the jump to the label \<open>error\<close>.
\<close>

fun pack_modules :: "port \<Rightarrow> 'm lldp_module list \<Rightarrow> lldp_agent \<times> u32 \<times> u32 \<Rightarrow> 'm \<Rightarrow>
    ((lldp_agent \<times> u32 \<times> u32) option \<times> 'm) res" where
  "pack_modules p [] st w = Inr (Some st, w)"
| "pack_modules p (np # nps) (a, off, ds) w =
     (case Option.bind (mod_ops np) lldp_mod_gettlv of
        None \<Rightarrow> pack_modules p nps (a, off, ds) w
      | Some gettlv \<Rightarrow> bindR (gettlv p a w) (\<lambda>(pt, w').
          case pt of
            None \<Rightarrow> pack_modules p nps (a, off, ds) w'
          | Some t \<Rightarrow>
              if ucast (ptlv_size t) + off > (of_nat ETH_DATA_LEN :: u32) then Inr (None, w')
              else bindR (put_tlv a off t) (\<lambda>a'.
                pack_modules p nps
                  (a', off + ucast (ptlv_size t), ds + ucast (ptlv_size t)) w')))"

definition frame_error :: "lldp_agent \<Rightarrow> lldp_agent" where
  "frame_error a = tx_update (\<lambda>t. t\<lparr>frameout := None\<rparr>) a"

definition finish_frame :: "allocator \<Rightarrow> lldp_agent \<times> u32 \<times> u32 \<Rightarrow> (bool \<times> lldp_agent) res" where
  "finish_frame ok st = (case st of (a, off, ds) \<Rightarrow>
     bindR (pack_end_tlv ok) (\<lambda>r. case r of
       None \<Rightarrow> Inr (False, frame_error a)
     | Some t \<Rightarrow>
         if ucast (ptlv_size t) + off > (of_nat ETH_DATA_LEN :: u32)
         then Inr (False, frame_error a)
         else bindR (put_tlv a off t) (\<lambda>a'.
           let off' = off + ucast (ptlv_size t); ds' = ds + ucast (ptlv_size t) in
           Inr (True, tx_update (\<lambda>x. x\<lparr>sizeout :=
             (if ds' < of_nat ETH_MIN_DATA_LEN then of_nat ETH_ZLEN else off')\<rparr>) a'))))"

definition mibConstrInfoLLDPDU ::
  "'m core \<Rightarrow> port \<Rightarrow> lldp_agent \<Rightarrow> 'm \<Rightarrow> (bool \<times> lldp_agent \<times> 'm) res" where
  "mibConstrInfoLLDPDU c p a w =
     bindR (start_frame c p (frame_error a)) (\<lambda>r. case r of
       None \<Rightarrow> Inr (False, frame_error a, w)
     | Some a1 \<Rightarrow>
         bindR (pack_modules p (lldp_head c) (a1, of_nat ETH_HLEN, 0) w) (\<lambda>(st, w').
           case st of
             None \<Rightarrow> Inr (False, frame_error a1, w')
           | Some s \<Rightarrow> bindR (finish_frame (malloc_ok (core_env c)) s) (\<lambda>(b, a2).
               Inr (b, a2, w'))))"

subsection \<open>Shutdown LLDPDU\<close>

abbreviation (input) LLDP_MOD_MAND :: int where "LLDP_MOD_MAND \<equiv> 1"

definition zero_ttl :: "packed_tlv \<Rightarrow> packed_tlv res" where
  "zero_ttl t = bindR (derefR (ptlv_tlv t)) (\<lambda>buf.
     if unat (ptlv_size t) < 2 then Inl Out_Of_Bounds
     else bindR (write_bytes buf (unat (ptlv_size t) - 2) [0, 0]) (\<lambda>buf'.
       Inr (t\<lparr>ptlv_tlv := Some buf'\<rparr>)))"

definition mibConstrShutdownLLDPDU ::
  "'m core \<Rightarrow> port \<Rightarrow> lldp_agent \<Rightarrow> 'm \<Rightarrow> (bool \<times> lldp_agent \<times> 'm) res" where
  "mibConstrShutdownLLDPDU c p a w =
     bindR (start_frame c p (frame_error a)) (\<lambda>r. case r of
       None \<Rightarrow> Inr (False, frame_error a, w)
     | Some a1 \<Rightarrow>
       (case Option.bind (find_module_by_id (lldp_head c) LLDP_MOD_MAND)
               (\<lambda>np. Option.bind (mod_ops np) lldp_mod_gettlv) of
          None \<Rightarrow> Inr (False, frame_error a1, w)
        | Some gettlv \<Rightarrow> bindR (gettlv p a1 w) (\<lambda>(pt, w').
            let finish = (\<lambda>st. bindR (finish_frame (malloc_ok (core_env c)) st)
                                 (\<lambda>(b, a2). Inr (b, a2, w')))
            in case pt of
                 None \<Rightarrow> finish (a1, of_nat ETH_HLEN, 0)
               | Some t \<Rightarrow>
                   if ucast (ptlv_size t) + of_nat ETH_HLEN > (of_nat ETH_DATA_LEN :: u32)
                   then Inr (False, frame_error a1, w')
                   else bindR (zero_ttl t) (\<lambda>t'. bindR (put_tlv a1 (of_nat ETH_HLEN) t') (\<lambda>a2.
                     finish (a2, of_nat ETH_HLEN + ucast (ptlv_size t'),
                             ucast (ptlv_size t')))))))"

subsection \<open>Initialisation and transmission\<close>

definition get_ttl_init_val :: "env \<Rightarrow> string \<Rightarrow> lldp_agent \<Rightarrow> u16" where
  "get_ttl_init_val e name a =
     (case cfg_int e name (agenttype a) (tlv_arg_path (TLVID 0 3) ''value'') of
        None \<Rightarrow> DEFAULT_TX_HOLD * DEFAULT_TX_INTERVAL
      | Some v \<Rightarrow> word_of_int v)"

definition txInitializeLLDP :: "env \<Rightarrow> port \<Rightarrow> lldp_agent \<Rightarrow> lldp_agent" where
  "txInitializeLLDP e p a = a\<lparr>
     tx := (tx a)\<lparr>frameout := None, txstate := TX_LLDP_INITIALIZE, localChange := False,
                  txTTL := get_ttl_init_val e (ifname p) a\<rparr>,
     stats := (stats a)\<lparr>statsFramesOutTotal := 0\<rparr>,
     timers := (timers a)\<lparr>reinitDelay := REINIT_DELAY, msgTxHold := DEFAULT_TX_HOLD,
                          msgTxInterval := DEFAULT_TX_INTERVAL, msgFastTx := FAST_TX_INTERVAL\<rparr>,
     msap_info := \<lparr>length1 = 0, msap1 = None, length2 = 0, msap2 = None\<rparr>,
     lldpdu := 0\<rparr>"

definition txInitializeTimers :: "lldp_agent \<Rightarrow> lldp_agent" where
  "txInitializeTimers a = a\<lparr>
     timers := (timers a)\<lparr>txTick := False, txTTR := 0, txShutdownWhile := 0,
                          txMaxCredit := TX_CREDIT_MAX, txCredit := TX_CREDIT_MAX,
                          txFastInit := TX_FAST_INIT, timers_state := TX_TIMER_BEGIN\<rparr>,
     tx := (tx a)\<lparr>txNow := False, localChange := False, txFast := 0\<rparr>,
     rx := (rx a)\<lparr>newNeighbor := False\<rparr>\<rparr>"

definition txFrame :: "port \<Rightarrow> lldp_agent \<Rightarrow> (port \<times> lldp_agent) res" where
  "txFrame p a = bindR (l2_packet_send (l2 p) (frameout (tx a)) (unat (sizeout (tx a)))) (\<lambda>l.
     Inr (p\<lparr>l2 := l\<rparr>,
          stats_update (\<lambda>s. s\<lparr>statsFramesOutTotal := statsFramesOutTotal s + 1\<rparr>) a))"

lemmas frame_op_defs [frame_defs] =
  start_frame_def put_tlv_def frame_error_def finish_frame_def mibConstrInfoLLDPDU_def
  mibConstrShutdownLLDPDU_def zero_ttl_def txFrame_def l2_packet_send_def

subsection \<open>Writing TLVs into the frame buffer\<close>

definition set_frame :: "bytes \<Rightarrow> lldp_agent \<Rightarrow> lldp_agent" where
  "set_frame buf a = tx_update (\<lambda>t. t\<lparr>frameout := Some buf\<rparr>) a"

lemma frameout_set_frame [simp]: "frameout (tx (set_frame buf a)) = Some buf"
  by (simp add: set_frame_def)

lemma set_frame_set_frame [simp]: "set_frame b (set_frame b' a) = set_frame b a"
  by (simp add: set_frame_def)

definition overlay :: "bytes \<Rightarrow> nat \<Rightarrow> bytes \<Rightarrow> bytes" where
  "overlay buf n bs = take n buf @ bs @ drop (n + length bs) buf"

lemma length_overlay [simp]: "n + length bs \<le> length buf \<Longrightarrow> length (overlay buf n bs) = length buf"
  by (simp add: overlay_def)

lemma overlay_overlay [simp]:
  "n + length xs + length ys \<le> length buf \<Longrightarrow>
   overlay (overlay buf n xs) (n + length xs) ys = overlay buf n (xs @ ys)"
  by (simp add: overlay_def ac_simps)

lemma overlay_Nil [simp]: "overlay buf n [] = buf"
  by (simp add: overlay_def)

lemma put_tlv_carries:
  assumes "ptlv_carries t ts" and "length buf = ETH_FRAME_LEN" and "n + unat (ptlv_size t) \<le> ETH_FRAME_LEN"
  shows "put_tlv (set_frame buf a) (of_nat n) t = Inr (set_frame (overlay buf n (tlv_concat ts)) a)"
proof -
  from assms(1) obtain b where b: "ptlv_tlv t = Some b" "unat (ptlv_size t) \<le> length b"
      "take (unat (ptlv_size t)) b = tlv_concat ts"
    by (auto simp: ptlv_carries_def)
  have "unat (of_nat n :: u32) = n"
    using assms(3) by (simp add: unat_of_nat)
  with b assms ptlv_carries_length [OF assms(1)] show ?thesis
    by (simp add: put_tlv_def read_bytes_def write_bytes_def overlay_def set_frame_def)
qed

lemma u32_fits:
  assumes "n \<le> ETH_FRAME_LEN"
  shows "ucast (w :: u16) + of_nat n > (1500 :: u32) \<longleftrightarrow> unat w + n > 1500"
proof -
  from assms unat_u16_less [of w] have "unat (of_nat (unat w + n) :: u32) = unat w + n"
    by (simp only: unat_of_nat) simp
  then show ?thesis by (simp add: word_less_nat_alt)
qed

lemma frame_error_set_frame [simp]: "frame_error (set_frame buf a) = frame_error a"
  by (simp add: frame_error_def set_frame_def)

lemma frame_error_frame_error [simp]: "frame_error (frame_error a) = frame_error a"
  by (simp add: frame_error_def)

definition set_out :: "bytes \<Rightarrow> u32 \<Rightarrow> lldp_agent \<Rightarrow> lldp_agent" where
  "set_out buf n a = tx_update (\<lambda>t. t\<lparr>frameout := Some buf, sizeout := n\<rparr>) a"

lemma set_out_frame_error [simp]: "set_out b n (frame_error a) = set_out b n a"
  by (simp add: set_out_def frame_error_def)

text \<open>The bytes of a frame: header, TLVs, End TLV, and zeros up to the buffer's end.\<close>

definition lldp_frame :: "bytes \<Rightarrow> (u8 \<times> bytes) list \<Rightarrow> bytes" where
  "lldp_frame hdr ts = hdr @ tlv_concat ts @ [0, 0]
     @ replicate (ETH_FRAME_LEN - length hdr - length (tlv_concat ts) - 2) 0"

definition lldp_frame_size :: "(u8 \<times> bytes) list \<Rightarrow> nat" where
  "lldp_frame_size ts = (if length (tlv_concat ts) + 2 < ETH_MIN_DATA_LEN then ETH_ZLEN
     else ETH_HLEN + length (tlv_concat ts) + 2)"

lemma finish_frame_spec:
  assumes ok: "ok 16" "ok 2" and buf: "length buf = ETH_FRAME_LEN" and n: "n \<le> ETH_DATA_LEN" "d \<le> n"
  shows "finish_frame ok (set_frame buf a, of_nat n, of_nat d)
    = (if n + 2 > ETH_DATA_LEN then Inr (False, frame_error a)
       else Inr (True, set_out (overlay buf n [0, 0])
              (of_nat (if d + 2 < ETH_MIN_DATA_LEN then ETH_ZLEN else n + 2)) a))"
proof -
  let ?t = "\<lparr>ptlv_size = 2, ptlv_tlv = Some [0, 0]\<rparr> :: packed_tlv"
  have t: "ptlv_carries ?t [(0, [])]"
    by (simp add: ptlv_carries_def tlv_encode_def tlv_header_def be16_bytes_def hi8_def lo8_def)
  have e: "tlv_encode 0 [] = [0, 0]"
    by (simp add: tlv_encode_def tlv_header_def be16_bytes_def hi8_def lo8_def)
  have gt: "(2 :: u32) + of_nat n > 1500 \<longleftrightarrow> n + 2 > 1500"
    using u32_fits [of n 2] n by simp
  have d2: "unat (of_nat (d + 2) :: u32) = d + 2" using n by (simp only: unat_of_nat) simp
  have c46: "unat (46 :: u32) = 46" by simp
  have "of_nat (d + 2) < (46 :: u32) \<longleftrightarrow> d + 2 < 46"
    unfolding word_less_nat_alt d2 c46 ..
  then have lt: "of_nat d + 2 < (46 :: u32) \<longleftrightarrow> d + 2 < 46" by (simp add: add.commute)
  show ?thesis
    using n pack_end_tlv_eq [OF ok] put_tlv_carries [OF t buf, of n a]
    by (simp add: finish_frame_def gt lt e Let_def)
      (simp add: set_out_def set_frame_def comp_def add.commute)
qed

lemma start_frame_spec:
  assumes "malloc_ok (core_env c) ETH_FRAME_LEN"
    and "hdr = eth_header (mac_addr a) (l2_packet_get_own_src_addr (core_env c) (porthead c) (l2 p))"
    and "length hdr = ETH_HLEN"
  shows "start_frame c p (frame_error a)
       = Inr (Some (set_frame (hdr @ replicate (ETH_FRAME_LEN - ETH_HLEN) 0) a))"
  using assms
  by (simp add: start_frame_def write_bytes_def set_frame_def frame_error_def)

lemma overlay_frame:
  "length hdr = 14 \<Longrightarrow> length bs + 2 \<le> 1500 \<Longrightarrow>
   overlay (overlay (hdr @ replicate 1500 0) 14 bs) (14 + length bs) [0, 0]
   = hdr @ bs @ [0, 0] @ replicate (1498 - length bs) 0"
  by (subst overlay_overlay) (simp_all add: overlay_def)

context lldp_modules
begin

text \<open>
  The module loop either gives up because a TLV does not fit, or leaves in the buffer, from
  the old offset on, the sequence of TLVs the modules emitted.
\<close>

lemma pack_modules_spec:
  assumes "set nps \<subseteq> set mods" and "inv w" and "length buf = ETH_FRAME_LEN" and "n \<le> ETH_DATA_LEN"
  shows "(\<exists>w'. pack_modules p nps (set_frame buf a, of_nat n, of_nat d) w = Inr (None, w') \<and> inv w')
    \<or> (\<exists>ts w'. pack_modules p nps (set_frame buf a, of_nat n, of_nat d) w
          = Inr (Some (set_frame (overlay buf n (tlv_concat ts)) a,
                       of_nat (n + length (tlv_concat ts)), of_nat (d + length (tlv_concat ts))), w')
        \<and> emits_list emits nps ts \<and> wf_seq ts \<and> n + length (tlv_concat ts) \<le> ETH_DATA_LEN \<and> inv w')"
  using assms
proof (induction nps arbitrary: w buf n d)
  case Nil
  then show ?case by (intro disjI2 exI [of _ "[]"] exI [of _ w]) simp
next
  case (Cons np nps)
  note IH = Cons.IH and prems = Cons.prems
  show ?case
  proof (cases "Option.bind (mod_ops np) lldp_mod_gettlv")
    case None
    with IH [OF _ prems(2-4)] prems(1) show ?thesis
      by (fastforce simp del: tlv_concat.simps)
  next
    case (Some f)
    then obtain ops where ops: "mod_ops np = Some ops" "lldp_mod_gettlv ops = Some f"
      by (auto simp: bind_eq_Some_conv)
    have "np \<in> set mods" using prems(1) by simp
    then obtain r w1 where f: "f p (set_frame buf a) w = Inr (r, w1)" and w1: "inv w1"
      and r: "\<And>t. r = Some t \<Longrightarrow> \<exists>ts. emits np ts \<and> wf_seq ts \<and> ptlv_carries t ts"
      using gettlv_ok [OF _ ops prems(2)] by metis
    show ?thesis
    proof (cases r)
      case None
      with IH [OF _ w1 prems(3,4), of d] prems(1) Some f show ?thesis by fastforce
    next
      case (Some t)
      with r obtain ts where ts: "emits np ts" "wf_seq ts" and t: "ptlv_carries t ts" by blast
      note tlen = ptlv_carries_length [OF t]
      show ?thesis
      proof (cases "unat (ptlv_size t) + n > 1500")
        case True
        with \<open>r = Some t\<close> f w1 \<open>Option.bind _ _ = Some f\<close> prems(4) show ?thesis
          by (simp add: u32_fits)
      next
        case False
        let ?b = "overlay buf n (tlv_concat ts)" and ?n = "n + unat (ptlv_size t)"
          and ?d = "d + unat (ptlv_size t)"
        have step: "pack_modules p (np # nps) (set_frame buf a, of_nat n, of_nat d) w
            = pack_modules p nps (set_frame ?b a, of_nat ?n, of_nat ?d) w1"
          using False f \<open>r = Some t\<close> \<open>Option.bind _ _ = Some f\<close> prems(3,4)
          by (simp add: u32_fits put_tlv_carries [OF t])
        have "length ?b = ETH_FRAME_LEN" using False prems(3) tlen by simp
        from IH [OF _ w1 this, of ?n ?d] False prems(1)
        consider w' where "pack_modules p nps (set_frame ?b a, of_nat ?n, of_nat ?d) w1 = Inr (None, w')"
            "inv w'"
          | us w' where "pack_modules p nps (set_frame ?b a, of_nat ?n, of_nat ?d) w1
            = Inr (Some (set_frame (overlay ?b ?n (tlv_concat us)) a,
                  of_nat (?n + length (tlv_concat us)), of_nat (?d + length (tlv_concat us))), w')"
            "emits_list emits nps us" "wf_seq us" "?n + length (tlv_concat us) \<le> 1500" "inv w'"
          by auto
        then show ?thesis
        proof cases
          case 1
          with step show ?thesis by auto
        next
          case 2
          have "overlay ?b ?n (tlv_concat us) = overlay buf n (tlv_concat (ts @ us))"
            using 2(4) prems(3) tlen overlay_overlay [of n "tlv_concat ts" "tlv_concat us" buf] by simp
          with 2 step ts tlen show ?thesis
            by (intro disjI2 exI [of _ "ts @ us"] exI [of _ w'])
              (auto simp: add.assoc)
        qed
      qed
    qed
  qed
qed

lemma mibConstrInfoLLDPDU_spec:
  assumes head: "lldp_head c = mods" and "inv w"
    and ok: "malloc_ok (core_env c) ETH_FRAME_LEN" "malloc_ok (core_env c) 16" "malloc_ok (core_env c) 2"
    and hdr: "hdr = eth_header (mac_addr a) (l2_packet_get_own_src_addr (core_env c) (porthead c) (l2 p))"
      "length hdr = ETH_HLEN"
  shows "(\<exists>w'. mibConstrInfoLLDPDU c p a w = Inr (False, frame_error a, w') \<and> inv w')
    \<or> (\<exists>ts w'. mibConstrInfoLLDPDU c p a w
          = Inr (True, set_out (lldp_frame hdr ts) (of_nat (lldp_frame_size ts)) a, w')
        \<and> emits_list emits mods ts \<and> wf_seq ts \<and> lldp_frame_size ts \<le> ETH_DATA_LEN \<and> inv w')"
proof -
  let ?b0 = "hdr @ replicate (ETH_FRAME_LEN - ETH_HLEN) 0"
  have len: "length ?b0 = ETH_FRAME_LEN" using hdr(2) by simp
  note start = start_frame_spec [OF ok(1) hdr]
  from pack_modules_spec [OF order_refl \<open>inv w\<close> len, of 14 p a 0]
  consider w' where "pack_modules p mods (set_frame ?b0 a, of_nat 14, of_nat 0) w = Inr (None, w')" "inv w'"
    | ts w' where "pack_modules p mods (set_frame ?b0 a, of_nat 14, of_nat 0) w
        = Inr (Some (set_frame (overlay ?b0 14 (tlv_concat ts)) a,
             of_nat (14 + length (tlv_concat ts)), of_nat (length (tlv_concat ts))), w')"
      "emits_list emits mods ts" "wf_seq ts" "14 + length (tlv_concat ts) \<le> 1500" "inv w'"
    by auto
  then show ?thesis
  proof cases
    case 1
    then show ?thesis using start head by (simp add: mibConstrInfoLLDPDU_def)
  next
    case 2
    let ?L = "length (tlv_concat ts)"
    have "length (overlay ?b0 14 (tlv_concat ts)) = ETH_FRAME_LEN" using 2(4) hdr(2) by simp
    note fin = finish_frame_spec [OF ok(2,3) this, of "14 + ?L" ?L a]
    show ?thesis
    proof (cases "14 + ?L + 2 > 1500")
      case True
      then show ?thesis using 2 fin start head by (simp add: mibConstrInfoLLDPDU_def)
    next
      case False
      have "overlay (overlay ?b0 14 (tlv_concat ts)) (14 + ?L) [0, 0] = lldp_frame hdr ts"
        using overlay_frame [OF hdr(2), of "tlv_concat ts"] False hdr(2) by (simp add: lldp_frame_def)
      with False 2 fin start head show ?thesis
        by (intro disjI2 exI [of _ ts] exI [of _ w'])
          (simp add: mibConstrInfoLLDPDU_def lldp_frame_size_def)
    qed
  qed
qed

end

subsection \<open>The shutdown frame\<close>

lemma tlv_encode_last2:
  "length bs = 2 \<Longrightarrow> tlv_concat (ts @ [(ty, bs)]) = tlv_concat ts @ be16_bytes (tlv_header ty 2) @ bs"
  by (simp add: tlv_encode_def)

lemma zero_ttl_carries:
  assumes "ptlv_carries t (ts @ [(3, bs)])" and "length bs = 2"
  shows "\<exists>t'. zero_ttl t = Inr t' \<and> ptlv_size t' = ptlv_size t
     \<and> ptlv_carries t' (ts @ [(3, [0, 0])])"
proof -
  from assms(1) obtain buf where buf: "ptlv_tlv t = Some buf" "unat (ptlv_size t) \<le> length buf"
      "take (unat (ptlv_size t)) buf = tlv_concat (ts @ [(3, bs)])"
    by (auto simp: ptlv_carries_def)
  let ?k = "length (tlv_concat ts) + 2" and ?pre = "tlv_concat ts @ be16_bytes (tlv_header 3 2)"
  have size: "unat (ptlv_size t) = ?k + 2"
    using ptlv_carries_length [OF assms(1)] assms(2) by simp
  define rest where "rest = drop (?k + 2) buf"
  have "buf = take (?k + 2) buf @ rest" by (simp add: rest_def)
  also have "take (?k + 2) buf = ?pre @ bs"
    using buf(3) size tlv_encode_last2 [OF assms(2)] by simp
  finally have split: "buf = ?pre @ bs @ rest" by simp
  have "write_bytes buf ?k [0, 0] = Inr (?pre @ [0, 0] @ rest)"
    unfolding split using assms(2) by (simp add: write_bytes_def)
  then show ?thesis
    using buf(1) size tlv_encode_last2 [of "[0, 0]" ts 3]
    by (simp add: zero_ttl_def ptlv_carries_def)
qed

lemma mibConstrShutdownLLDPDU_spec:
  assumes ok: "malloc_ok (core_env c) ETH_FRAME_LEN" "malloc_ok (core_env c) 16" "malloc_ok (core_env c) 2"
    and hdr: "hdr = eth_header (mac_addr a) (l2_packet_get_own_src_addr (core_env c) (porthead c) (l2 p))"
      "length hdr = ETH_HLEN"
    and mand: "find_module_by_id (lldp_head c) LLDP_MOD_MAND = Some m" "mod_ops m = Some ops"
      "lldp_mod_gettlv ops = Some f"
    and f: "f p (set_frame (hdr @ replicate (ETH_FRAME_LEN - ETH_HLEN) 0) a) w = Inr (Some t, w')"
    and t: "ptlv_carries t (ts @ [(3, bs)])" "length bs = 2"
    and fits: "ETH_HLEN + unat (ptlv_size t) + 2 \<le> ETH_DATA_LEN"
  shows "mibConstrShutdownLLDPDU c p a w
       = Inr (True, set_out (lldp_frame hdr (ts @ [(3, [0, 0])]))
                (of_nat (lldp_frame_size (ts @ [(3, [0, 0])]))) a, w')"
proof -
  let ?b0 = "hdr @ replicate (ETH_FRAME_LEN - ETH_HLEN) 0" and ?us = "ts @ [(3, [0, 0])]"
  obtain t' where t': "zero_ttl t = Inr t'" "ptlv_size t' = ptlv_size t" "ptlv_carries t' ?us"
    using zero_ttl_carries [OF t] by blast
  let ?L = "length (tlv_concat ?us)"
  have L: "unat (ptlv_size t) = ?L" using ptlv_carries_length [OF t'(3)] t'(2) by simp
  have len: "length ?b0 = ETH_FRAME_LEN" using hdr(2) by simp
  have gt: "\<not> ucast (ptlv_size t) + 14 > (1500 :: u32)"
    using u32_fits [of 14 "ptlv_size t"] fits by simp
  have u: "(ucast (ptlv_size t) :: u32) = of_nat ?L"
    using L by (metis of_nat_unat)
  have put: "put_tlv (set_frame ?b0 a) 14 t' = Inr (set_frame (overlay ?b0 14 (tlv_concat ?us)) a)"
    using put_tlv_carries [OF t'(3) len, of 14 a] fits t'(2) by simp
  have len': "length (overlay ?b0 14 (tlv_concat ?us)) = ETH_FRAME_LEN"
    using fits L len by simp
  have fin: "finish_frame (malloc_ok (core_env c))
      (set_frame (overlay ?b0 14 (tlv_concat ?us)) a, of_nat (14 + ?L), of_nat ?L)
    = Inr (True, set_out (lldp_frame hdr ?us) (of_nat (lldp_frame_size ?us)) a)"
    using finish_frame_spec [OF ok(2,3) len', of "14 + ?L" ?L a] fits L
      overlay_frame [OF hdr(2), of "tlv_concat ?us"] hdr(2)
    by (simp add: lldp_frame_def lldp_frame_size_def)
  have "14 + ucast (ptlv_size t) = (of_nat (14 + ?L) :: u32)" using u by simp
  then show ?thesis
    using start_frame_spec [OF ok(1) hdr] mand f gt t'(1,2) put fin u
    by (simp add: mibConstrShutdownLLDPDU_def Let_def)
qed

end
