(* ===== verification/Tx.thy ===== *)
theory Tx
  imports Tx_Frame
begin

text \<open>
  The transmit state machine of \<open>src/lldp/tx.c\<close>: \<open>set_tx_state\<close>, \<open>tx_change_state\<close> with its
  assertions, the per-state actions and the loop \<open>run_tx_sm\<close>.  The loop is a partial
  function whose value \<open>None\<close> means that it does not return; \<open>run_tx_sm_returns\<close> excludes it.
\<close>

named_theorems tx_defs \<open>definitions of the transmit state machine\<close>

subsection \<open>Transitions\<close>

definition tx_change_state :: "port \<Rightarrow> lldp_agent \<Rightarrow> tx_state \<Rightarrow> lldp_agent res" where
  "tx_change_state p a newstate =
     (let st = txstate (tx a) in
      bindR (case newstate of
          TX_LLDP_INITIALIZE \<Rightarrow>
            (if st \<noteq> TX_SHUTDOWN_FRAME \<and> portEnabled p then assertR (portEnabled p) else Inr ())
        | TX_IDLE \<Rightarrow>
            (if \<not> (st = TX_LLDP_INITIALIZE \<or> st = TX_INFO_FRAME)
             then bindR (assertR (st = TX_LLDP_INITIALIZE)) (\<lambda>_. assertR (st = TX_INFO_FRAME))
             else Inr ())
        | TX_SHUTDOWN_FRAME \<Rightarrow> assertR (st = TX_IDLE)
        | TX_INFO_FRAME \<Rightarrow> assertR (st = TX_IDLE))
        (\<lambda>_. Inr (tx_update (\<lambda>t. t\<lparr>txstate := newstate\<rparr>) a)))"

definition tx_admin_on :: "lldp_agent \<Rightarrow> bool" where
  "tx_admin_on a \<longleftrightarrow> adminStatus a = enabledRxTx \<or> adminStatus a = enabledTxOnly"

definition tx_admin_off :: "lldp_agent \<Rightarrow> bool" where
  "tx_admin_off a \<longleftrightarrow> adminStatus a = disabled \<or> adminStatus a = enabledRxOnly"

definition set_tx_state :: "port \<Rightarrow> lldp_agent \<Rightarrow> (bool \<times> port \<times> lldp_agent) res" where
  "set_tx_state p a =
     bindR (if \<not> portEnabled p \<and> prevPortEnabled p
            then tx_change_state p a TX_LLDP_INITIALIZE else Inr a) (\<lambda>a1.
     let p1 = p\<lparr>prevPortEnabled := portEnabled p\<rparr>;
         goto = (\<lambda>s. bindR (tx_change_state p1 a1 s) (\<lambda>a2. Inr (True, p1, a2)));
         stay = Inr (False, p1, a1)
     in case txstate (tx a1) of
          TX_LLDP_INITIALIZE \<Rightarrow> if portEnabled p1 \<and> tx_admin_on a1 then goto TX_IDLE else stay
        | TX_IDLE \<Rightarrow>
            if tx_admin_off a1 then goto TX_SHUTDOWN_FRAME
            else if txNow (tx a1) \<and> txCredit (timers a1) > 0 then goto TX_INFO_FRAME
            else stay
        | TX_SHUTDOWN_FRAME \<Rightarrow>
            if txShutdownWhile (timers a1) = 0 then goto TX_LLDP_INITIALIZE else stay
        | TX_INFO_FRAME \<Rightarrow> goto TX_IDLE)"

subsection \<open>Actions\<close>

definition process_tx_shutdown_frame ::
  "'m core \<Rightarrow> port \<Rightarrow> lldp_agent \<Rightarrow> 'm \<Rightarrow> (port \<times> lldp_agent \<times> 'm) res" where
  "process_tx_shutdown_frame c p a w =
     (if txShutdownWhile (timers a) = 0
      then bindR (mibConstrShutdownLLDPDU c p a w) (\<lambda>(b, a1, w1).
        bindR (if b then txFrame p a1 else Inr (p, a1)) (\<lambda>(p2, a2).
          Inr (p2, timers_update (\<lambda>t. t\<lparr>txShutdownWhile := reinitDelay t\<rparr>) a2, w1)))
      else Inr (p, a, w))"

definition process_tx_info_frame ::
  "'m core \<Rightarrow> port \<Rightarrow> lldp_agent \<Rightarrow> 'm \<Rightarrow> (port \<times> lldp_agent \<times> 'm) res" where
  "process_tx_info_frame c p a w =
     bindR (mibConstrInfoLLDPDU c p a w) (\<lambda>(b, a1, w1).
     bindR (txFrame p a1) (\<lambda>(p2, a2).
       Inr (p2, a2\<lparr>timers := (timers a2)\<lparr>txCredit :=
                     (if txCredit (timers a2) > 0 then txCredit (timers a2) - 1
                      else txCredit (timers a2))\<rparr>,
                   tx := (tx a2)\<lparr>txNow := False\<rparr>\<rparr>, w1)))"

definition tx_action :: "'m core \<Rightarrow> port \<Rightarrow> lldp_agent \<Rightarrow> 'm \<Rightarrow> (port \<times> lldp_agent \<times> 'm) res" where
  "tx_action c p a w = (case txstate (tx a) of
       TX_LLDP_INITIALIZE \<Rightarrow> Inr (p, txInitializeLLDP (core_env c) p a, w)
     | TX_IDLE \<Rightarrow> Inr (p, a, w)
     | TX_SHUTDOWN_FRAME \<Rightarrow> process_tx_shutdown_frame c p a w
     | TX_INFO_FRAME \<Rightarrow> process_tx_info_frame c p a w)"

partial_function (option) tx_loop ::
  "'m core \<Rightarrow> port \<Rightarrow> lldp_agent \<Rightarrow> 'm \<Rightarrow> (port \<times> lldp_agent \<times> 'm) res option" where
  "tx_loop c p a w = (case tx_action c p a w of
       Inl e \<Rightarrow> Some (Inl e)
     | Inr (p1, a1, w1) \<Rightarrow> (case set_tx_state p1 a1 of
         Inl e \<Rightarrow> Some (Inl e)
       | Inr (b, p2, a2) \<Rightarrow> if b then tx_loop c p2 a2 w1 else Some (Inr (p2, a2, w1))))"

definition run_tx_sm ::
  "'m core \<Rightarrow> port \<Rightarrow> lldp_agent \<Rightarrow> 'm \<Rightarrow> (port \<times> lldp_agent \<times> 'm) res option" where
  "run_tx_sm c p a w = (case set_tx_state p a of
       Inl e \<Rightarrow> Some (Inl e)
     | Inr (_, p1, a1) \<Rightarrow> tx_loop c p1 a1 w)"

lemmas tx_sm_defs [tx_defs] =
  tx_change_state_def set_tx_state_def tx_admin_on_def tx_admin_off_def Let_def

subsection \<open>No assertion fails\<close>

text \<open>
  The transitions \<open>set_tx_state\<close> takes are all ones \<open>tx_change_state\<close> accepts: the abstract
  machine below is what it computes.
\<close>

definition tx_next :: "port \<Rightarrow> lldp_agent \<Rightarrow> bool \<times> tx_state" where
  "tx_next p a =
     (let st = (if \<not> portEnabled p \<and> prevPortEnabled p then TX_LLDP_INITIALIZE else txstate (tx a))
      in case st of
          TX_LLDP_INITIALIZE \<Rightarrow> if portEnabled p \<and> tx_admin_on a then (True, TX_IDLE) else (False, st)
        | TX_IDLE \<Rightarrow> if tx_admin_off a then (True, TX_SHUTDOWN_FRAME)
            else if txNow (tx a) \<and> txCredit (timers a) > 0 then (True, TX_INFO_FRAME) else (False, st)
        | TX_SHUTDOWN_FRAME \<Rightarrow>
            if txShutdownWhile (timers a) = 0 then (True, TX_LLDP_INITIALIZE) else (False, st)
        | TX_INFO_FRAME \<Rightarrow> (True, TX_IDLE))"

abbreviation set_txstate :: "tx_state \<Rightarrow> lldp_agent \<Rightarrow> lldp_agent" where
  "set_txstate s a \<equiv> tx_update (\<lambda>t. t\<lparr>txstate := s\<rparr>) a"

lemma set_txstate_same [simp]: "txstate (tx a) = s \<Longrightarrow> set_txstate s a = a"
  by simp

lemma set_tx_state_next:
  "set_tx_state p a = Inr (fst (tx_next p a), p\<lparr>prevPortEnabled := portEnabled p\<rparr>,
                           set_txstate (snd (tx_next p a)) a)"
  by (cases "txstate (tx a)"; cases "\<not> portEnabled p \<and> prevPortEnabled p")
    (auto simp: tx_sm_defs tx_next_def comp_def)

subsection \<open>Frame construction touches nothing but the frame\<close>

definition no_frame :: "lldp_agent \<Rightarrow> lldp_agent" where
  "no_frame a = tx_update (\<lambda>t. t\<lparr>frameout := None, sizeout := 0\<rparr>) a"

lemma no_frame_upd [simp]:
  "no_frame (frame_error a) = no_frame a" "no_frame (set_frame b a) = no_frame a"
  "no_frame (set_out b n a) = no_frame a"
  "no_frame (tx_update (frameout_update f) a) = no_frame a"
  "no_frame (tx_update (sizeout_update g) a) = no_frame a"
  by (simp_all add: no_frame_def frame_error_def set_frame_def set_out_def comp_def)

lemma put_tlv_no_frame: "put_tlv a off t = Inr a' \<Longrightarrow> no_frame a' = no_frame a"
  by (auto simp: put_tlv_def elim!: bindR_InrE)

lemma pack_modules_no_frame:
  "pack_modules p nps (a, off, ds) w = Inr (Some (a', off', ds'), w') \<Longrightarrow> no_frame a' = no_frame a"
proof (induction nps arbitrary: a off ds w)
  case Nil
  then show ?case by simp
next
  case (Cons np nps)
  then show ?case
    by (auto dest!: put_tlv_no_frame elim!: bindR_InrE split: option.splits if_splits)
qed

lemma start_frame_no_frame: "start_frame c p a = Inr (Some a') \<Longrightarrow> no_frame a' = no_frame a"
  by (auto simp: start_frame_def elim!: bindR_InrE split: if_splits)

lemma finish_frame_no_frame:
  "finish_frame ok (a, off, ds) = Inr (b, a') \<Longrightarrow> no_frame a' = no_frame a"
  by (auto simp: finish_frame_def Let_def elim!: bindR_InrE dest!: put_tlv_no_frame
      split: option.splits if_splits)

lemma mibConstrInfoLLDPDU_no_frame:
  assumes "mibConstrInfoLLDPDU c p a w = Inr (b, a', w')"
  shows "no_frame a' = no_frame a"
  using assms
  by (auto simp: mibConstrInfoLLDPDU_def elim!: bindR_InrE split: option.splits
      dest!: start_frame_no_frame pack_modules_no_frame finish_frame_no_frame)

lemma mibConstrShutdownLLDPDU_no_frame:
  assumes "mibConstrShutdownLLDPDU c p a w = Inr (b, a', w')"
  shows "no_frame a' = no_frame a"
  using assms
  by (auto simp: mibConstrShutdownLLDPDU_def Let_def elim!: bindR_InrE split: option.splits if_splits
      dest!: start_frame_no_frame put_tlv_no_frame finish_frame_no_frame)

lemma no_frame_sel:
  "txstate (tx (no_frame a)) = txstate (tx a)" "txNow (tx (no_frame a)) = txNow (tx a)"
  "timers (no_frame a) = timers a" "adminStatus (no_frame a) = adminStatus a"
  "rx (no_frame a) = rx a" "stats (no_frame a) = stats a" "mac_addr (no_frame a) = mac_addr a"
  "agenttype (no_frame a) = agenttype a" "txFast (tx (no_frame a)) = txFast (tx a)"
  "localChange (tx (no_frame a)) = localChange (tx a)"
  by (simp_all add: no_frame_def)

lemma no_frame_fields:
  assumes "no_frame a' = no_frame a"
  shows "txstate (tx a') = txstate (tx a)" "txNow (tx a') = txNow (tx a)" "timers a' = timers a"
    "adminStatus a' = adminStatus a" "rx a' = rx a" "stats a' = stats a" "mac_addr a' = mac_addr a"
    "agenttype a' = agenttype a" "txFast (tx a') = txFast (tx a)"
    "localChange (tx a') = localChange (tx a)"
  using assms by (metis no_frame_sel)+

lemma txFrame_fields:
  assumes "txFrame p a = Inr (p', a')"
  shows "a' = stats_update (\<lambda>s. s\<lparr>statsFramesOutTotal := statsFramesOutTotal s + 1\<rparr>) a"
    "\<exists>x. p' = p\<lparr>l2 := (l2 p)\<lparr>l2_sent := l2_sent (l2 p) @ [x]\<rparr>\<rparr>"
  using assms by (auto simp: txFrame_def l2_packet_send_def elim!: bindR_InrE split: option.splits)

subsection \<open>What one round of the loop does\<close>

text \<open>A summary of the action of each state, over the variables the transitions look at.\<close>

lemma process_tx_info_frameE:
  assumes "process_tx_info_frame c p a w = Inr (p1, a1, w1)"
  obtains b a0 a2 where "mibConstrInfoLLDPDU c p a w = Inr (b, a0, w1)" "txFrame p a0 = Inr (p1, a2)"
    "a1 = a2\<lparr>timers := (timers a2)\<lparr>txCredit :=
            (if txCredit (timers a2) > 0 then txCredit (timers a2) - 1 else txCredit (timers a2))\<rparr>,
          tx := (tx a2)\<lparr>txNow := False\<rparr>\<rparr>"
  using assms by (auto simp: process_tx_info_frame_def elim!: bindR_InrE)

lemma process_tx_shutdown_frameE:
  assumes "process_tx_shutdown_frame c p a w = Inr (p1, a1, w1)" "txShutdownWhile (timers a) = 0"
  obtains b a0 a2 where "mibConstrShutdownLLDPDU c p a w = Inr (b, a0, w1)"
    "(if b then txFrame p a0 else Inr (p, a0)) = Inr (p1, a2)"
    "a1 = timers_update (\<lambda>t. t\<lparr>txShutdownWhile := reinitDelay t\<rparr>) a2"
  using assms by (auto simp: process_tx_shutdown_frame_def elim!: bindR_InrE)

definition sent_more :: "port \<Rightarrow> bytes option list \<Rightarrow> port" where
  "sent_more p xs = p\<lparr>l2 := (l2 p)\<lparr>l2_sent := l2_sent (l2 p) @ xs\<rparr>\<rparr>"

lemma sent_more_simps [simp]: "sent_more p [] = p" "portEnabled (sent_more p xs) = portEnabled p"
  "prevPortEnabled (sent_more p xs) = prevPortEnabled p" "ifname (sent_more p xs) = ifname p"
  "l2_sent (l2 (sent_more p xs)) = l2_sent (l2 p) @ xs"
  by (simp_all add: sent_more_def)

lemma txFrame_sent:
  "txFrame p a = Inr (p', a') \<Longrightarrow> \<exists>x. p' = sent_more p [x]"
  by (auto simp: sent_more_def dest: txFrame_fields(2))

lemma process_tx_shutdown_frame_port:
  assumes "process_tx_shutdown_frame c p a w = Inr (p1, a1, w1)"
  shows "\<exists>xs. p1 = sent_more p xs \<and> length xs \<le> 1"
proof (cases "txShutdownWhile (timers a) = 0")
  case True
  from assms True obtain b a0 a2 where t: "(if b then txFrame p a0 else Inr (p, a0)) = Inr (p1, a2)"
    by (rule process_tx_shutdown_frameE)
  show ?thesis
  proof (cases b)
    case True
    with t obtain x where "p1 = sent_more p [x]" by (auto dest: txFrame_sent)
    then show ?thesis by (intro exI [of _ "[x]"]) simp
  qed (use t in \<open>auto intro: exI [of _ "[]"]\<close>)
qed (use assms in \<open>auto simp: process_tx_shutdown_frame_def intro: exI [of _ "[]"]\<close>)

lemma tx_action_port:
  assumes "tx_action c p a w = Inr (p1, a1, w1)"
  shows "\<exists>xs. p1 = sent_more p xs \<and> length xs \<le> 1
    \<and> (txstate (tx a) = TX_LLDP_INITIALIZE \<or> txstate (tx a) = TX_IDLE \<longrightarrow> xs = [])"
proof (cases "txstate (tx a)")
  case TX_SHUTDOWN_FRAME
  with assms have "process_tx_shutdown_frame c p a w = Inr (p1, a1, w1)"
    by (simp add: tx_action_def)
  then show ?thesis
    using TX_SHUTDOWN_FRAME process_tx_shutdown_frame_port by fastforce
next
  case TX_INFO_FRAME
  with assms show ?thesis
    by (force simp: tx_action_def elim!: process_tx_info_frameE dest: txFrame_sent)
qed (use assms in \<open>auto simp: tx_action_def intro: exI [of _ "[]"]\<close>)

lemma process_tx_info_frame_agent:
  assumes "process_tx_info_frame c p a w = Inr (p1, a1, w1)"
  shows "adminStatus a1 = adminStatus a" "txstate (tx a1) = txstate (tx a)" "\<not> txNow (tx a1)"
    "timers a1 = (timers a)\<lparr>txCredit :=
       (if txCredit (timers a) > 0 then txCredit (timers a) - 1 else txCredit (timers a))\<rparr>"
    "rx a1 = rx a"
proof -
  from assms obtain b a0 a2 where i: "mibConstrInfoLLDPDU c p a w = Inr (b, a0, w1)"
    and t: "txFrame p a0 = Inr (p1, a2)" and a1: "a1 = a2\<lparr>timers := (timers a2)\<lparr>txCredit :=
        (if txCredit (timers a2) > 0 then txCredit (timers a2) - 1 else txCredit (timers a2))\<rparr>,
      tx := (tx a2)\<lparr>txNow := False\<rparr>\<rparr>"
    by (rule process_tx_info_frameE)
  note f = no_frame_fields [OF mibConstrInfoLLDPDU_no_frame [OF i]] txFrame_fields(1) [OF t]
  show "adminStatus a1 = adminStatus a" "txstate (tx a1) = txstate (tx a)" "\<not> txNow (tx a1)"
    "timers a1 = (timers a)\<lparr>txCredit :=
       (if txCredit (timers a) > 0 then txCredit (timers a) - 1 else txCredit (timers a))\<rparr>"
    "rx a1 = rx a"
    unfolding a1 by (simp_all add: f)
qed

lemma process_tx_shutdown_frame_agent:
  assumes "process_tx_shutdown_frame c p a w = Inr (p1, a1, w1)"
  shows "adminStatus a1 = adminStatus a \<and> txstate (tx a1) = txstate (tx a)
    \<and> txNow (tx a1) = txNow (tx a) \<and> rx a1 = rx a
    \<and> timers a1 = (if txShutdownWhile (timers a) = 0
        then (timers a)\<lparr>txShutdownWhile := reinitDelay (timers a)\<rparr> else timers a)"
proof (cases "txShutdownWhile (timers a) = 0")
  case True
  from assms True obtain b a0 a2 where i: "mibConstrShutdownLLDPDU c p a w = Inr (b, a0, w1)"
    and t: "(if b then txFrame p a0 else Inr (p, a0)) = Inr (p1, a2)"
    and a1: "a1 = timers_update (\<lambda>t. t\<lparr>txShutdownWhile := reinitDelay t\<rparr>) a2"
    by (rule process_tx_shutdown_frameE)
  note f = no_frame_fields [OF mibConstrShutdownLLDPDU_no_frame [OF i]]
  from t have "a2 = a0 \<or> a2 = stats_update (\<lambda>s. s\<lparr>statsFramesOutTotal := statsFramesOutTotal s + 1\<rparr>) a0"
    by (auto split: if_splits dest: txFrame_fields(1))
  with True f show ?thesis unfolding a1 by auto
qed (use assms in \<open>simp add: process_tx_shutdown_frame_def\<close>)

lemma tx_action_agent:
  assumes "tx_action c p a w = Inr (p1, a1, w1)"
  shows "adminStatus a1 = adminStatus a" "txstate (tx a1) = txstate (tx a)"
    "txNow (tx a1) = (txNow (tx a) \<and> txstate (tx a) \<noteq> TX_INFO_FRAME)"
    "rx a1 = rx a"
  using assms
  by (cases "txstate (tx a)"; auto simp: tx_action_def txInitializeLLDP_def
      dest: process_tx_info_frame_agent(1,2,3,5) process_tx_shutdown_frame_agent)+

subsection \<open>The loop returns\<close>

text \<open>
  Every round that asks for another one lowers the rank: the machine walks down to the state
  its administrative status and its pending request allow.
\<close>

fun tx_rank_of :: "bool \<Rightarrow> tx_state \<Rightarrow> bool \<Rightarrow> nat" where
  "tx_rank_of on TX_SHUTDOWN_FRAME now = (if on then 5 else 2)"
| "tx_rank_of on TX_LLDP_INITIALIZE now = (if on then 4 else 1)"
| "tx_rank_of on TX_IDLE now = (if on then (if now then 3 else 1) else (if now then 5 else 3))"
| "tx_rank_of on TX_INFO_FRAME now = (if on then 2 else 4)"

definition tx_rank :: "lldp_agent \<Rightarrow> nat" where
  "tx_rank a = tx_rank_of (tx_admin_on a) (txstate (tx a)) (txNow (tx a))"

lemma tx_admin_exclusive: "tx_admin_off a \<Longrightarrow> \<not> tx_admin_on a"
  by (auto simp: tx_admin_on_def tx_admin_off_def)

abbreviation seen :: "port \<Rightarrow> port" where
  "seen p \<equiv> p\<lparr>prevPortEnabled := portEnabled p\<rparr>"

definition settled :: "port \<Rightarrow> bool" where
  "settled p \<longleftrightarrow> prevPortEnabled p = portEnabled p"

lemma settled_seen [simp]: "settled (seen p)"
  by (simp add: settled_def)

lemma seen_settled: "settled p \<Longrightarrow> seen p = p"
  by (simp add: settled_def)

lemma tx_round_rank:
  assumes act: "tx_action c p a w = Inr (p1, a1, w1)" and "settled p" and "fst (tx_next p1 a1)"
  shows "tx_rank (set_txstate (snd (tx_next p1 a1)) a1) < tx_rank a"
proof -
  from tx_action_port [OF act] obtain xs where p1: "p1 = sent_more p xs" by blast
  have on: "tx_admin_on (set_txstate s a1) = tx_admin_on a" "tx_admin_off (set_txstate s a1) = tx_admin_off a"
    "tx_admin_on a1 = tx_admin_on a" "tx_admin_off a1 = tx_admin_off a" for s
    by (simp_all add: tx_admin_on_def tx_admin_off_def tx_action_agent(1) [OF act])
  show ?thesis
    using assms(2,3) tx_action_agent(2,3) [OF act] tx_admin_exclusive [of a]
    by (cases "txstate (tx a)")
      (auto simp: tx_next_def tx_rank_def p1 settled_def on Let_def split: if_splits)
qed

lemma tx_next_settled:
  "settled p \<Longrightarrow> \<not> fst (tx_next p a) \<Longrightarrow> snd (tx_next p a) = txstate (tx a)"
  by (cases "txstate (tx a)") (auto simp: tx_next_def settled_def Let_def split: if_splits)

text \<open>
  The rule for the loop: an invariant kept by every round holds of the result, and the
  machine has no transition left there.
\<close>

lemma tx_loop_rule:
  assumes "I p a w" and "settled p"
    and step: "\<And>p a w p1 a1 w1. I p a w \<Longrightarrow> settled p \<Longrightarrow> tx_action c p a w = Inr (p1, a1, w1) \<Longrightarrow>
      I p1 (set_txstate (snd (tx_next p1 a1)) a1) w1"
  shows "(\<exists>e p0 a0 w0. tx_loop c p a w = Some (Inl e) \<and> I p0 a0 w0 \<and> tx_action c p0 a0 w0 = Inl e)
    \<or> (\<exists>p' a' w'. tx_loop c p a w = Some (Inr (p', a', w')) \<and> I p' a' w' \<and> settled p'
          \<and> \<not> fst (tx_next p' a'))"
  using assms(1,2)
proof (induction "tx_rank a" arbitrary: p a w rule: less_induct)
  case less
  show ?case
  proof (cases "tx_action c p a w")
    case (Inl e)
    then have "tx_loop c p a w = Some (Inl e)" by (subst tx_loop.simps) simp
    with less.prems Inl show ?thesis by blast
  next
    case (Inr r)
    then obtain p1 a1 w1 where act: "tx_action c p a w = Inr (p1, a1, w1)"
      by (metis prod_cases3)
    obtain xs where "p1 = sent_more p xs" using tx_action_port [OF act] by blast
    then have p1: "settled p1" using less.prems(2) by (simp add: settled_def)
    let ?a2 = "set_txstate (snd (tx_next p1 a1)) a1"
    have I: "I p1 ?a2 w1" by (rule step [OF less.prems act])
    show ?thesis
    proof (cases "fst (tx_next p1 a1)")
      case True
      then have "tx_loop c p a w = tx_loop c p1 ?a2 w1"
        by (subst tx_loop.simps) (simp add: act set_tx_state_next seen_settled [OF p1])
      moreover have "tx_rank ?a2 < tx_rank a"
        by (rule tx_round_rank [OF act less.prems(2) True])
      ultimately show ?thesis using less.hyps [OF _ I p1] by simp
    next
      case False
      then have "?a2 = a1" by (simp add: tx_next_settled [OF p1])
      moreover from False have "tx_loop c p a w = Some (Inr (p1, ?a2, w1))"
        by (subst tx_loop.simps) (simp add: act set_tx_state_next seen_settled [OF p1])
      ultimately show ?thesis using I p1 False by auto
    qed
  qed
qed

lemma run_tx_sm_loop:
  "run_tx_sm c p a w = tx_loop c (seen p) (set_txstate (snd (tx_next p a)) a) w"
  by (simp add: run_tx_sm_def set_tx_state_next)

lemma run_tx_sm_returns: "\<exists>r. run_tx_sm c p a w = Some r"
  using tx_loop_rule [where I = "\<lambda>_ _ _. True"] unfolding run_tx_sm_loop
  by (metis settled_seen)

text \<open>The result of a run is stable: no further transition is enabled.\<close>

lemma run_tx_sm_stable:
  assumes "run_tx_sm c p a w = Some (Inr (p', a', w'))"
  shows "set_tx_state p' a' = Inr (False, p', a')"
proof -
  have "settled p' \<and> \<not> fst (tx_next p' a')"
    using tx_loop_rule [of "\<lambda>_ _ _. True" "seen p" "set_txstate (snd (tx_next p a)) a" w c] assms
    unfolding run_tx_sm_loop by auto
  then show ?thesis
    by (simp add: set_tx_state_next seen_settled tx_next_settled)
qed

end
