(* ===== verification/Tx_Timers.thy ===== *)
theory Tx_Timers
  imports Tx
begin

text \<open>
  The transmit timer state machine of \<open>src/lldp/tx.c\<close>: \<open>update_tx_timers\<close>,
  \<open>set_tx_timers_state\<close>, and the loop \<open>run_tx_timers_sm\<close>, which turns a local change, an expired
  transmit interval, a new neighbour or a clock tick into a request to transmit and into
  transmit credit.
\<close>

subsection \<open>Operations\<close>

definition update_tx_timers :: "lldp_agent \<Rightarrow> lldp_agent" where
  "update_tx_timers a = timers_update (\<lambda>t. t\<lparr>
     txTTR := (if txTTR t \<noteq> 0 then txTTR t - 1 else txTTR t), txTick := True\<rparr>) a"

definition tx_timer_change_state :: "lldp_agent \<Rightarrow> timer_state \<Rightarrow> lldp_agent" where
  "tx_timer_change_state a newstate = timers_update (\<lambda>t. t\<lparr>timers_state := newstate\<rparr>) a"

definition set_tx_timers_state :: "port \<Rightarrow> lldp_agent \<Rightarrow> bool \<times> lldp_agent" where
  "set_tx_timers_state p a0 =
     (let a = (if timers_state (timers a0) = TX_TIMER_BEGIN \<or> \<not> portEnabled p \<or> tx_admin_off a0
               then tx_timer_change_state a0 TX_TIMER_INITIALIZE else a0);
          goto = (\<lambda>s. (True, tx_timer_change_state a s))
      in case timers_state (timers a) of
           TX_TIMER_INITIALIZE \<Rightarrow>
             if portEnabled p \<and> tx_admin_on a then goto TX_TIMER_IDLE else (False, a)
         | TX_TIMER_IDLE \<Rightarrow>
             if localChange (tx a) then goto SIGNAL_TX
             else if txTTR (timers a) = 0 then goto TX_TIMER_EXPIRES
             else if newNeighbor (rx a) then goto TX_FAST_START
             else if txTick (timers a) then goto TX_TICK
             else (False, a)
         | TX_TIMER_EXPIRES \<Rightarrow> goto SIGNAL_TX
         | SIGNAL_TX \<Rightarrow> goto TX_TIMER_IDLE
         | TX_TICK \<Rightarrow> goto TX_TIMER_IDLE
         | TX_FAST_START \<Rightarrow> goto TX_TIMER_EXPIRES
         | TX_TIMER_BEGIN \<Rightarrow> (False, a))"

definition tx_timers_action :: "lldp_agent \<Rightarrow> lldp_agent" where
  "tx_timers_action a = (case timers_state (timers a) of
       TX_TIMER_INITIALIZE \<Rightarrow> txInitializeTimers a
     | TX_TIMER_IDLE \<Rightarrow> a
     | TX_TIMER_EXPIRES \<Rightarrow>
         tx_update (\<lambda>t. t\<lparr>txFast := (if txFast t \<noteq> 0 then txFast t - 1 else txFast t)\<rparr>) a
     | TX_TICK \<Rightarrow> timers_update (\<lambda>t. t\<lparr>txTick := False, txCredit :=
         (if txCredit t < txMaxCredit t then txCredit t + 1 else txCredit t)\<rparr>) a
     | SIGNAL_TX \<Rightarrow> a\<lparr>tx := (tx a)\<lparr>txNow := True, localChange := False\<rparr>,
         timers := (timers a)\<lparr>txTTR :=
           (if txFast (tx a) \<noteq> 0 then msgFastTx (timers a) else msgTxInterval (timers a))\<rparr>\<rparr>
     | TX_FAST_START \<Rightarrow> a\<lparr>rx := (rx a)\<lparr>newNeighbor := False\<rparr>,
         tx := (tx a)\<lparr>txFast :=
           (if txFast (tx a) = 0 then txFastInit (timers a) else txFast (tx a))\<rparr>\<rparr>
     | TX_TIMER_BEGIN \<Rightarrow> a)"

partial_function (option) tx_timers_loop :: "port \<Rightarrow> lldp_agent \<Rightarrow> lldp_agent option" where
  "tx_timers_loop p a =
     (case set_tx_timers_state p (tx_timers_action a) of
        (b, a') \<Rightarrow> if b then tx_timers_loop p a' else Some a')"

definition run_tx_timers_sm :: "port \<Rightarrow> lldp_agent \<Rightarrow> lldp_agent option" where
  "run_tx_timers_sm p a = tx_timers_loop p (snd (set_tx_timers_state p a))"

lemmas tx_timers_defs [tx_defs] =
  tx_timer_change_state_def set_tx_timers_state_def tx_timers_action_def txInitializeTimers_def

subsection \<open>Transitions\<close>

text \<open>\<open>set_tx_timers_state\<close> only chooses the next state, from a few flags.\<close>

definition timers_next :: "port \<Rightarrow> lldp_agent \<Rightarrow> bool \<times> timer_state" where
  "timers_next p a =
     (if timers_state (timers a) = TX_TIMER_BEGIN \<or> timers_state (timers a) = TX_TIMER_INITIALIZE
         \<or> \<not> portEnabled p \<or> tx_admin_off a
      then (if portEnabled p \<and> tx_admin_on a then (True, TX_TIMER_IDLE) else (False, TX_TIMER_INITIALIZE))
      else case timers_state (timers a) of
          TX_TIMER_IDLE \<Rightarrow>
            if localChange (tx a) then (True, SIGNAL_TX)
            else if txTTR (timers a) = 0 then (True, TX_TIMER_EXPIRES)
            else if newNeighbor (rx a) then (True, TX_FAST_START)
            else if txTick (timers a) then (True, TX_TICK) else (False, TX_TIMER_IDLE)
        | TX_TIMER_EXPIRES \<Rightarrow> (True, SIGNAL_TX)
        | TX_FAST_START \<Rightarrow> (True, TX_TIMER_EXPIRES)
        | _ \<Rightarrow> (True, TX_TIMER_IDLE))"

abbreviation set_timers_state :: "timer_state \<Rightarrow> lldp_agent \<Rightarrow> lldp_agent" where
  "set_timers_state s a \<equiv> timers_update (\<lambda>t. t\<lparr>timers_state := s\<rparr>) a"

lemma set_timers_state_same: "timers_state (timers a) = s \<Longrightarrow> set_timers_state s a = a"
  by simp

lemma set_tx_timers_next:
  "set_tx_timers_state p a = (fst (timers_next p a), set_timers_state (snd (timers_next p a)) a)"
  by (cases "timers_state (timers a)"; cases "portEnabled p"; cases "tx_admin_off a")
    (auto simp: set_tx_timers_state_def tx_timer_change_state_def timers_next_def Let_def comp_def
      tx_admin_on_def tx_admin_off_def)

subsection \<open>The loop returns\<close>

definition timers_live :: "lldp_agent \<Rightarrow> bool" where
  "timers_live a \<longleftrightarrow> msgTxInterval (timers a) \<noteq> 0 \<and> msgFastTx (timers a) \<noteq> 0"

fun timers_rank_of :: "timer_state \<Rightarrow> bool \<Rightarrow> bool \<Rightarrow> bool \<Rightarrow> bool \<Rightarrow> nat" where
  "timers_rank_of TX_TIMER_BEGIN L Z N T = 7"
| "timers_rank_of TX_TIMER_INITIALIZE L Z N T = 6"
| "timers_rank_of TX_TIMER_IDLE L Z N T = 5 * of_bool L + 5 * of_bool Z + 7 * of_bool N + 2 * of_bool T"
| "timers_rank_of TX_TIMER_EXPIRES L Z N T = 7 * of_bool N + 2 * of_bool T + 2"
| "timers_rank_of SIGNAL_TX L Z N T = 7 * of_bool N + 2 * of_bool T + 1"
| "timers_rank_of TX_FAST_START L Z N T = 2 * of_bool T + 3"
| "timers_rank_of TX_TICK L Z N T = 5 * of_bool L + 5 * of_bool Z + 7 * of_bool N + 1"

definition timers_rank :: "lldp_agent \<Rightarrow> nat" where
  "timers_rank a = timers_rank_of (timers_state (timers a)) (localChange (tx a))
     (txTTR (timers a) = 0) (newNeighbor (rx a)) (txTick (timers a))"

lemma tx_timers_action_fields:
  "timers_live (tx_timers_action a) = timers_live a"
  "adminStatus (tx_timers_action a) = adminStatus a"
  "timers_state (timers (tx_timers_action a)) = (if timers_state (timers a) = TX_TIMER_INITIALIZE
     then TX_TIMER_BEGIN else timers_state (timers a))"
  by (cases "timers_state (timers a)"; simp add: tx_timers_action_def txInitializeTimers_def
      timers_live_def)+

lemma timers_next_rank:
  assumes live: "timers_live a" and "timers_state (timers a) \<noteq> TX_TIMER_BEGIN"
    and nxt: "timers_next p (tx_timers_action a) = (True, s)"
  shows "timers_rank (set_timers_state s (tx_timers_action a)) < timers_rank a \<and> s \<noteq> TX_TIMER_BEGIN"
proof (cases "portEnabled p \<and> \<not> tx_admin_off a \<or> timers_state (timers a) = TX_TIMER_INITIALIZE")
  case False
  then show ?thesis
    using nxt by (auto simp: timers_next_def tx_admin_on_def tx_admin_off_def
        tx_timers_action_fields split: if_splits)
next
  case True
  have off: "tx_admin_off (tx_timers_action a) = tx_admin_off a"
    by (simp add: tx_admin_off_def tx_timers_action_fields)
  show ?thesis
  proof (cases "timers_state (timers a)")
    case TX_TIMER_IDLE
    with True nxt show ?thesis
      by (auto simp: timers_next_def tx_timers_action_def timers_rank_def split: if_splits)
  next
    case TX_TIMER_INITIALIZE
    with nxt show ?thesis
      by (auto simp: timers_next_def tx_timers_action_def txInitializeTimers_def timers_rank_def
          split: if_splits)
  qed (use assms True off in \<open>auto simp: timers_next_def tx_timers_action_def timers_rank_def
      timers_live_def\<close>)
qed

text \<open>
  The rule for the loop: with the transmit intervals set, it returns, and an invariant kept
  by every round holds of the result.
\<close>

lemma tx_timers_loop_rule:
  assumes "I a" and "timers_live a" and "timers_state (timers a) \<noteq> TX_TIMER_BEGIN"
    and step: "\<And>a b s. I a \<Longrightarrow> timers_live a \<Longrightarrow> timers_state (timers a) \<noteq> TX_TIMER_BEGIN \<Longrightarrow>
      timers_next p (tx_timers_action a) = (b, s) \<Longrightarrow>
      (if b then I (set_timers_state s (tx_timers_action a)) else R (set_timers_state s (tx_timers_action a)))"
  shows "\<exists>a'. tx_timers_loop p a = Some a' \<and> R a'"
  using assms(1-3)
proof (induction "timers_rank a" arbitrary: a rule: less_induct)
  case less
  obtain b s where round: "timers_next p (tx_timers_action a) = (b, s)"
    by (metis surj_pair)
  let ?a = "set_timers_state s (tx_timers_action a)"
  note IR = step [OF less.prems round]
  show ?case
  proof (cases b)
    case True
    with round have "tx_timers_loop p a = tx_timers_loop p ?a"
      by (subst tx_timers_loop.simps) (simp add: set_tx_timers_next)
    moreover have "timers_rank ?a < timers_rank a \<and> s \<noteq> TX_TIMER_BEGIN"
      using timers_next_rank [OF less.prems(2,3), of p s] round True by simp
    moreover have "timers_live ?a"
      using less.prems(2) tx_timers_action_fields(1) [of a] by (simp add: timers_live_def)
    ultimately show ?thesis using less.hyps [of ?a] IR True by simp
  next
    case False
    with round IR show ?thesis by (subst tx_timers_loop.simps) (simp add: set_tx_timers_next)
  qed
qed

lemma run_tx_timers_sm_rule:
  assumes "I (set_timers_state (snd (timers_next p a)) a)" and "timers_live a"
    and "\<And>a b s. I a \<Longrightarrow> timers_live a \<Longrightarrow> timers_state (timers a) \<noteq> TX_TIMER_BEGIN \<Longrightarrow>
      timers_next p (tx_timers_action a) = (b, s) \<Longrightarrow>
      (if b then I (set_timers_state s (tx_timers_action a)) else R (set_timers_state s (tx_timers_action a)))"
  shows "\<exists>a'. run_tx_timers_sm p a = Some a' \<and> R a'"
proof -
  have "snd (timers_next p a) \<noteq> TX_TIMER_BEGIN"
    by (cases "timers_state (timers a)") (auto simp: timers_next_def)
  then show ?thesis
    unfolding run_tx_timers_sm_def set_tx_timers_next
    using assms by (intro tx_timers_loop_rule [where I = I]) (auto simp: timers_live_def)
qed

subsection \<open>Results of a run\<close>

lemma run_tx_timers_sm_returns: "timers_live a \<Longrightarrow> \<exists>a'. run_tx_timers_sm p a = Some a'"
  using run_tx_timers_sm_rule [where I = "\<lambda>_. True" and R = "\<lambda>_. True"] by auto

text \<open>
  On an enabled port with transmission administratively on, a run of an initialised machine
  ends idle with every trigger consumed; a due transmission has become a request; one tick
  gives at most one unit of credit; and the variables of the shutdown handshake are not
  touched.
\<close>

definition timers_ready :: "port \<Rightarrow> lldp_agent \<Rightarrow> bool" where
  "timers_ready p a \<longleftrightarrow> portEnabled p \<and> tx_admin_on a
     \<and> timers_state (timers a) \<noteq> TX_TIMER_BEGIN \<and> timers_state (timers a) \<noteq> TX_TIMER_INITIALIZE"

definition tx_due :: "lldp_agent \<Rightarrow> bool" where
  "tx_due a \<longleftrightarrow> txNow (tx a) \<or> localChange (tx a) \<or> txTTR (timers a) = 0
     \<or> timers_state (timers a) = TX_TIMER_EXPIRES \<or> timers_state (timers a) = SIGNAL_TX"

definition timers_quiet :: "lldp_agent \<Rightarrow> bool" where
  "timers_quiet a \<longleftrightarrow> timers_state (timers a) = TX_TIMER_IDLE \<and> \<not> localChange (tx a)
     \<and> txTTR (timers a) \<noteq> 0 \<and> \<not> newNeighbor (rx a) \<and> \<not> txTick (timers a)"

lemma ready_next:
  assumes "timers_ready p a"
  shows "timers_ready p (set_timers_state (snd (timers_next p (tx_timers_action a))) (tx_timers_action a))"
proof -
  have "tx_admin_on (tx_timers_action a)" "\<not> tx_admin_off (tx_timers_action a)"
    using assms tx_admin_exclusive [of "tx_timers_action a"]
    by (auto simp: timers_ready_def tx_admin_on_def tx_timers_action_fields)
  then show ?thesis
    using assms by (cases "timers_state (timers a)")
      (auto simp: timers_ready_def timers_next_def tx_timers_action_fields tx_admin_on_def)
qed

lemma ready_stop:
  assumes "timers_ready p a" and "timers_next p (tx_timers_action a) = (False, s)"
  shows "timers_quiet (set_timers_state s (tx_timers_action a))"
proof -
  have "tx_admin_on (tx_timers_action a)" "\<not> tx_admin_off (tx_timers_action a)"
    using assms tx_admin_exclusive [of "tx_timers_action a"]
    by (auto simp: timers_ready_def tx_admin_on_def tx_timers_action_fields)
  then show ?thesis
    using assms by (cases "timers_state (timers a)")
      (auto simp: timers_ready_def timers_next_def tx_timers_action_fields timers_quiet_def
        split: if_splits)
qed

lemma due_next:
  assumes "timers_ready p a" "timers_live a" "tx_due a"
  shows "tx_due (set_timers_state (snd (timers_next p (tx_timers_action a))) (tx_timers_action a))"
proof -
  have "\<not> tx_admin_off (tx_timers_action a)"
    using assms tx_admin_exclusive [of "tx_timers_action a"]
    by (auto simp: timers_ready_def tx_admin_on_def tx_timers_action_fields)
  then show ?thesis
    using assms by (cases "timers_state (timers a)")
      (auto simp: timers_ready_def timers_next_def tx_timers_action_def tx_due_def)
qed

text \<open>What the actions outside initialisation leave of the credit and shutdown variables.\<close>

definition tick_credit :: "lldp_agent \<Rightarrow> u16" where
  "tick_credit a = (if txTick (timers a) \<and> txCredit (timers a) < txMaxCredit (timers a)
     then txCredit (timers a) + 1 else txCredit (timers a))"

definition tick_frame :: "lldp_agent \<Rightarrow> lldp_agent \<Rightarrow> bool" where
  "tick_frame a a' \<longleftrightarrow> adminStatus a' = adminStatus a \<and> txstate (tx a') = txstate (tx a)
     \<and> txShutdownWhile (timers a') = txShutdownWhile (timers a)
     \<and> reinitDelay (timers a') = reinitDelay (timers a)
     \<and> txMaxCredit (timers a') = txMaxCredit (timers a)
     \<and> msgTxInterval (timers a') = msgTxInterval (timers a)
     \<and> msgFastTx (timers a') = msgFastTx (timers a)
     \<and> txFastInit (timers a') = txFastInit (timers a)
     \<and> (txTick (timers a') \<and> txCredit (timers a') = txCredit (timers a) \<and> txTick (timers a)
        \<or> \<not> txTick (timers a') \<and> txCredit (timers a') = tick_credit a)"

lemma tick_frame_refl: "tick_frame a (set_timers_state s a)"
  by (auto simp: tick_frame_def tick_credit_def)

lemma tick_frame_action:
  assumes "timers_ready p b" and "timers_state (timers b) = TX_TICK \<longrightarrow> txTick (timers b)"
    and "tick_frame a b"
  shows "tick_frame a (set_timers_state s (tx_timers_action b))"
  using assms by (cases "timers_state (timers b)")
    (auto simp: timers_ready_def tx_timers_action_def tick_frame_def tick_credit_def)

lemma tick_state_next:
  assumes "timers_ready p a"
  shows "snd (timers_next p (tx_timers_action a)) = TX_TICK \<longrightarrow> txTick (timers (tx_timers_action a))"
  using assms by (cases "timers_state (timers a)")
    (auto simp: timers_next_def timers_ready_def tx_timers_action_fields split: if_splits)

lemma run_tx_timers_sm_ready:
  assumes "timers_ready p a" "timers_live a" "timers_state (timers a) = TX_TIMER_IDLE"
  shows "\<exists>a'. run_tx_timers_sm p a = Some a' \<and> timers_quiet a' \<and> tick_frame a a'
     \<and> (tx_due a \<longrightarrow> txNow (tx a'))"
proof -
  let ?I = "\<lambda>b. timers_ready p b \<and> tick_frame a b \<and> (tx_due a \<longrightarrow> tx_due b)
      \<and> (timers_state (timers b) = TX_TICK \<longrightarrow> txTick (timers b))"
  have idle: "tx_timers_action a = a" using assms(3) by (simp add: tx_timers_action_def)
  have "?I (set_timers_state (snd (timers_next p a)) a)"
    using ready_next [OF assms(1)] due_next [OF assms(1,2)] tick_frame_refl tick_state_next [OF assms(1)]
    by (simp add: idle)
  moreover have "if b then ?I (set_timers_state s (tx_timers_action x))
      else timers_quiet (set_timers_state s (tx_timers_action x)) \<and> tick_frame a (set_timers_state s (tx_timers_action x))
        \<and> (tx_due a \<longrightarrow> tx_due (set_timers_state s (tx_timers_action x)))"
    if "?I x" "timers_live x" "timers_next p (tx_timers_action x) = (b, s)" for x b s
    using that ready_next [of p x] due_next [of p x] tick_state_next [of p x] ready_stop [of p x s]
      tick_frame_action [of p x a s] by auto
  ultimately obtain a' where "run_tx_timers_sm p a = Some a'" "timers_quiet a'" "tick_frame a a'"
      "tx_due a \<longrightarrow> tx_due a'"
    using run_tx_timers_sm_rule [where I = ?I and p = p and a = a and R = "\<lambda>x. timers_quiet x
        \<and> tick_frame a x \<and> (tx_due a \<longrightarrow> tx_due x)"] assms(2) by blast
  then show ?thesis by (auto simp: tx_due_def timers_quiet_def)
qed

end
