(* ===== verification/Rx.thy ===== *)
theory Rx
  imports Tx_Timers
begin

text \<open>
  The receive side, \<open>src/lldp/rx.c\<close>: acceptance of a frame, the walk over its TLVs with the
  checks of \<open>rxProcessFrame\<close>, deletion of the remote information, the receive state machine
  and the ageing timers.  A read outside the received frame is the fault \<open>Out_Of_Bounds\<close>.
  The lifetime of heap blocks is not modelled.
\<close>

subsection \<open>Deleting the remote information\<close>

fun mibdelete_modules :: "port \<Rightarrow> 'm lldp_module list \<Rightarrow> lldp_agent \<Rightarrow> 'm \<Rightarrow> (lldp_agent \<times> 'm) res" where
  "mibdelete_modules p [] a w = Inr (a, w)"
| "mibdelete_modules p (np # nps) a w =
     (case Option.bind (mod_ops np) lldp_mod_mibdelete of
        None \<Rightarrow> mibdelete_modules p nps a w
      | Some f \<Rightarrow> bindR (f p a w) (\<lambda>(a', w'). mibdelete_modules p nps a' w'))"

definition clear_msap :: "lldp_agent \<Rightarrow> lldp_agent" where
  "clear_msap a = a\<lparr>msap_info := \<lparr>length1 = 0, msap1 = None, length2 = 0, msap2 = None\<rparr>\<rparr>"

definition mibDeleteObjects :: "'m core \<Rightarrow> port \<Rightarrow> lldp_agent \<Rightarrow> 'm \<Rightarrow> (lldp_agent \<times> 'm) res" where
  "mibDeleteObjects c p a w =
     bindR (mibdelete_modules p (lldp_head c) a w) (\<lambda>(a', w'). Inr (clear_msap a', w'))"

definition rxInitializeLLDP :: "'m core \<Rightarrow> port \<Rightarrow> lldp_agent \<Rightarrow> 'm \<Rightarrow> (lldp_agent \<times> 'm) res" where
  "rxInitializeLLDP c p a w =
     mibDeleteObjects c p (rx_update (\<lambda>r. r\<lparr>rcvFrame := False, badFrame := False,
       tooManyNghbrs := False, rxInfoAge := False, framein := None, sizein := 0\<rparr>) a) w"

subsection \<open>The walk over the TLVs\<close>

abbreviation (input) sizeof_rxmanifest :: nat where "sizeof_rxmanifest \<equiv> 64"

definition empty_manifest :: rxmanifest where
  "empty_manifest = \<lparr>man_chassis = None, man_portid = None, man_ttl = None, man_portdesc = None,
     man_sysname = None, man_sysdesc = None, man_syscap = None, man_mgmtadd = None\<rparr>"

record rx_locals =
  l_tlv_cnt :: u16
  l_tlv_offset :: u16
  l_frame_error :: u8
  l_msap_compare_1 :: bool
  l_msap_compare_2 :: bool
  l_good_neighbor :: bool

definition l_error :: "rx_locals \<Rightarrow> rx_locals" where
  "l_error l = l\<lparr>l_frame_error := l_frame_error l + 1\<rparr>"

definition store_tlv :: "u16 \<Rightarrow> (rxmanifest \<Rightarrow> rxmanifest) \<Rightarrow> lldp_agent \<Rightarrow> lldp_agent" where
  "store_tlv flag f a = a\<lparr>lldpdu := lldpdu a OR flag,
     rx := (rx a)\<lparr>manifest := map_option f (manifest (rx a))\<rparr>\<rparr>"

definition mem_same :: "nat \<Rightarrow> bytes option \<Rightarrow> bytes \<Rightarrow> bool" where
  "mem_same n x y \<longleftrightarrow> (case x of None \<Rightarrow> False | Some b \<Rightarrow> take n b = take n y)"

text \<open>
  The blocks for the chassis ID, the port ID and the time to live.  The boolean says whether
  the code jumps to the label \<open>out\<close>.  When the copy of an identifier cannot be allocated, the
  TLV is freed although the manifest holds it, and \<open>clear_manifest\<close> frees it again: the fault
  \<open>Use_After_Free\<close>.
\<close>

definition rx_chassis :: "allocator \<Rightarrow> unpacked_tlv \<Rightarrow> rx_locals \<Rightarrow> lldp_agent \<Rightarrow>
    (bool \<times> rx_locals \<times> lldp_agent) res" where
  "rx_chassis ok tlv l a =
     (if lldpdu a AND 0x0002 \<noteq> 0 then Inr (True, l_error l, a)
      else let a1 = store_tlv 0x0002 (\<lambda>m. m\<lparr>man_chassis := Some tlv\<rparr>) a in
        case msap1 (msap_info a1) of
          None \<Rightarrow>
            let a2 = msap_info_update (\<lambda>m. m\<lparr>length1 := tlv_length tlv\<rparr>) a1 in
            if \<not> ok (unat (tlv_length tlv)) then Inl Use_After_Free
            else Inr (False, l, msap_info_update (\<lambda>m. m\<lparr>msap1 := tlv_info tlv\<rparr>) a2)
        | Some m \<Rightarrow>
            Inr (False, l\<lparr>l_msap_compare_1 := l_msap_compare_1 l
               \<or> tlv_length tlv = length1 (msap_info a1)
                  \<and> mem_same (unat (tlv_length tlv)) (tlv_info tlv) m\<rparr>, a1))"

definition rx_portid :: "allocator \<Rightarrow> unpacked_tlv \<Rightarrow> rx_locals \<Rightarrow> lldp_agent \<Rightarrow>
    (bool \<times> rx_locals \<times> lldp_agent) res" where
  "rx_portid ok tlv l a =
     (if lldpdu a AND 0x0004 \<noteq> 0 then Inr (True, l_error l, a)
      else let a1 = store_tlv 0x0004 (\<lambda>m. m\<lparr>man_portid := Some tlv\<rparr>) a in
        case msap2 (msap_info a1) of
          None \<Rightarrow>
            let a2 = msap_info_update (\<lambda>m. m\<lparr>length2 := tlv_length tlv\<rparr>) a1 in
            if \<not> ok (unat (tlv_length tlv)) then Inl Use_After_Free
            else Inr (False, l, rx_update (\<lambda>r. r\<lparr>newNeighbor := True\<rparr>)
                   (msap_info_update (\<lambda>m. m\<lparr>msap2 := tlv_info tlv\<rparr>) a2))
        | Some m \<Rightarrow>
            let cmp2 = (l_msap_compare_2 l \<or> tlv_length tlv = length2 (msap_info a1)
                  \<and> mem_same (unat (tlv_length tlv)) (tlv_info tlv) m)
            in if l_msap_compare_1 l \<and> cmp2
               then Inr (False, l\<lparr>l_msap_compare_1 := False, l_msap_compare_2 := False,
                              l_good_neighbor := True\<rparr>, a1)
               else Inr (False, l\<lparr>l_msap_compare_2 := cmp2\<rparr>,
                     rx_update (\<lambda>r. r\<lparr>tooManyNghbrs := True, newNeighbor := True\<rparr>) a1))"

definition rx_ttl :: "unpacked_tlv \<Rightarrow> rx_locals \<Rightarrow> lldp_agent \<Rightarrow>
    (bool \<times> rx_locals \<times> lldp_agent) res" where
  "rx_ttl tlv l a =
     (if lldpdu a AND 0x0008 \<noteq> 0 then Inr (True, l_error l, a)
      else let a1 = store_tlv 0x0008 (\<lambda>m. m\<lparr>man_ttl := Some tlv\<rparr>) a in
        bindR (derefR (tlv_info tlv)) (\<lambda>info. bindR (read_be16 info 0) (\<lambda>ttl.
          if tooManyNghbrs (rx a1) \<and> \<not> l_good_neighbor l
          then Inr (False, l\<lparr>l_msap_compare_1 := False, l_msap_compare_2 := False\<rparr>,
                timers_update (\<lambda>t. t\<lparr>tooManyNghbrsTimer := max ttl (tooManyNghbrsTimer t)\<rparr>) a1)
          else Inr (False, l\<lparr>l_good_neighbor := False\<rparr>,
                timers_update (\<lambda>t. t\<lparr>rxTTL := ttl, lastrxTTL := ttl\<rparr>) a1))))"

text \<open>All the blocks that look at the type of the TLV, and whether one of them stored it.\<close>

definition rx_core_tlv :: "allocator \<Rightarrow> unpacked_tlv \<Rightarrow> rx_locals \<Rightarrow> lldp_agent \<Rightarrow>
    (bool \<times> bool \<times> rx_locals \<times> lldp_agent) res" where
  "rx_core_tlv ok tlv l a =
     (let stored = (\<lambda>(out, l', a'). Inr (out, True, l', a'));
          keep = (\<lambda>flag f. Inr (False, True, l, store_tlv flag f a))
      in if tlv_type tlv = 1 then bindR (rx_chassis ok tlv l a) stored
         else if tlv_type tlv = 2 then bindR (rx_portid ok tlv l a) stored
         else if tlv_type tlv = 3 then bindR (rx_ttl tlv l a) stored
         else if tlv_type tlv = 4 then keep 0x0010 (\<lambda>m. m\<lparr>man_portdesc := Some tlv\<rparr>)
         else if tlv_type tlv = 5 then keep 0x0020 (\<lambda>m. m\<lparr>man_sysname := Some tlv\<rparr>)
         else if tlv_type tlv = 6 then keep 0x0040 (\<lambda>m. m\<lparr>man_sysdesc := Some tlv\<rparr>)
         else if tlv_type tlv = 7 then keep 0x0080 (\<lambda>m. m\<lparr>man_syscap := Some tlv\<rparr>)
         else if tlv_type tlv = 8 then keep 0x0100 (\<lambda>m. m\<lparr>man_mgmtadd := Some tlv\<rparr>)
         else Inr (False, False, l, a))"

text \<open>
  The callbacks of the modules.  The first boolean of the result says that a module returned
  \<open>TLV_ERR\<close>, the second that the TLV has been stored.
\<close>

fun rchange_modules :: "port \<Rightarrow> 'm lldp_module list \<Rightarrow> unpacked_tlv \<Rightarrow> bool \<Rightarrow> lldp_agent \<Rightarrow> 'm \<Rightarrow>
    (bool \<times> bool \<times> lldp_agent \<times> 'm) res" where
  "rchange_modules p [] tlv stored a w = Inr (False, stored, a, w)"
| "rchange_modules p (np # nps) tlv stored a w =
     (case Option.bind (mod_ops np) lldp_mod_rchange of
        None \<Rightarrow> rchange_modules p nps tlv stored a w
      | Some f \<Rightarrow> bindR (f p a tlv w) (\<lambda>(err, a', w').
          if err = 0 then rchange_modules p nps tlv True a' w'
          else if err = TLV_ERR then Inr (True, stored, a', w')
          else rchange_modules p nps tlv stored a' w'))"

text \<open>
  One round of the loop; the boolean of the result says whether there is another one.
  \<open>rx_deliver\<close> is its second half, from the TLV just allocated to the loop's condition.
  A TLV a module rejects is freed; if the manifest holds it as well, it is freed twice.
\<close>

definition rx_deliver :: "'m core \<Rightarrow> port \<Rightarrow> unpacked_tlv \<Rightarrow> rx_locals \<Rightarrow> lldp_agent \<Rightarrow> 'm \<Rightarrow>
    (bool \<times> rx_locals \<times> lldp_agent \<times> 'm) res" where
  "rx_deliver c p tlv l a w =
     bindR (rx_core_tlv (malloc_ok (core_env c)) tlv l a) (\<lambda>(jump, stored, l2, a2).
       if jump then Inr (False, l2, a2, w)
       else bindR (rchange_modules p (lldp_head c) tlv stored a2 w) (\<lambda>(err, stored', a3, w3).
         if err then (if 1 \<le> tlv_type tlv \<and> tlv_type tlv \<le> 8 then Inl Use_After_Free
                      else Inr (False, l_error l2, a3, w3))
         else Inr (tlv_type tlv \<noteq> 0, l2,
           if stored' then a3
           else stats_update (\<lambda>s. s\<lparr>statsTLVsUnrecognizedTotal :=
                  statsTLVsUnrecognizedTotal s + 1\<rparr>) a3, w3)))"

definition rx_tlv :: "'m core \<Rightarrow> port \<Rightarrow> rx_locals \<Rightarrow> lldp_agent \<Rightarrow> 'm \<Rightarrow>
    (bool \<times> rx_locals \<times> lldp_agent \<times> 'm) res" where
  "rx_tlv c p l0 a w =
     (let ok = malloc_ok (core_env c);
          l = l0\<lparr>l_tlv_cnt := l_tlv_cnt l0 + 1\<rparr>;
          cnt = l_tlv_cnt l; off = l_tlv_offset l;
          out = (\<lambda>l'. Inr (False, l', a, w))
      in if off > sizein (rx a) then out (l_error l)
      else bindR (derefR (framein (rx a))) (\<lambda>buf.
        bindR (read_be16 buf (unat off)) (\<lambda>head.
        let len = head AND 0x01ff; ty = ucast (drop_bit 9 head) :: u8
        in if cnt \<le> 3 \<and> cnt \<noteq> ucast ty then out (l_error l)
        else if cnt > 3 \<and> (ty = 1 \<or> ty = 2 \<or> ty = 3) then out (l_error l)
        else if ty = TIME_TO_LIVE_TLV \<and> len \<noteq> 2 then out (l_error l)
        else if off + len > sizein (rx a) then out (l_error l)
        else case create_tlv ok of
          None \<Rightarrow> out l
        | Some t0 \<Rightarrow>
            if len = 0 \<and> tlv_type t0 \<noteq> 0 then out l
            else if \<not> ok (unat len) then out l
            else bindR (read_bytes buf (unat off + 2) (unat len)) (\<lambda>info.
              rx_deliver c p \<lparr>tlv_type = ty, tlv_length = len, tlv_info = Some info\<rparr>
                (l\<lparr>l_tlv_offset := off + (2 + len)\<rparr>) a w))))"

partial_function (option) rx_tlv_loop :: "'m core \<Rightarrow> port \<Rightarrow> rx_locals \<Rightarrow> lldp_agent \<Rightarrow> 'm \<Rightarrow>
    (rx_locals \<times> lldp_agent \<times> 'm) res option" where
  "rx_tlv_loop c p l a w = (case rx_tlv c p l a w of
       Inl e \<Rightarrow> Some (Inl e)
     | Inr (again, l', a', w') \<Rightarrow>
         if again then rx_tlv_loop c p l' a' w' else Some (Inr (l', a', w')))"

definition clear_manifest :: "lldp_agent \<Rightarrow> lldp_agent res" where
  "clear_manifest a = bindR (derefR (manifest (rx a))) (\<lambda>_.
     Inr (rx_update (\<lambda>r. r\<lparr>manifest := None\<rparr>) a))"

definition get_remote_peer_mac_addr :: "port \<Rightarrow> lldp_agent \<Rightarrow> port res" where
  "get_remote_peer_mac_addr p a = bindR (derefR (framein (rx a))) (\<lambda>buf.
     bindR (read_bytes buf ETH_ALEN ETH_ALEN) (\<lambda>addr.
       Inr (p\<lparr>l2 := (l2 p)\<lparr>remote_mac_addr := addr\<rparr>\<rparr>)))"

definition init_locals :: rx_locals where
  "init_locals = \<lparr>l_tlv_cnt = 0, l_tlv_offset = of_nat ETH_HLEN, l_frame_error = 0,
     l_msap_compare_1 = False, l_msap_compare_2 = False, l_good_neighbor = False\<rparr>"

definition rx_discard :: "rx_locals \<Rightarrow> lldp_agent \<Rightarrow> lldp_agent" where
  "rx_discard l a = (if l_frame_error l \<noteq> 0
     then a\<lparr>stats := (stats a)\<lparr>statsFramesDiscardedTotal := statsFramesDiscardedTotal (stats a) + 1,
              statsFramesInErrorsTotal := statsFramesInErrorsTotal (stats a) + 1\<rparr>,
            rx := (rx a)\<lparr>badFrame := True\<rparr>\<rparr>
     else a)"

definition rxProcessFrame :: "'m core \<Rightarrow> port \<Rightarrow> lldp_agent \<Rightarrow> 'm \<Rightarrow>
    (port \<times> lldp_agent \<times> 'm) res option" where
  "rxProcessFrame c p a w =
     (if framein (rx a) = None \<or> sizein (rx a) = 0 then Some (Inl Assert_Failed)
      else let a0 = a\<lparr>lldpdu := 0, rx := (rx a)\<lparr>dupTlvs := 0, dcbx_st := 0\<rparr>\<rparr> in
        if \<not> malloc_ok (core_env c) sizeof_rxmanifest
        then Some (Inr (p, rx_update (\<lambda>r. r\<lparr>manifest := None\<rparr>) a0, w))
        else let a1 = rx_update (\<lambda>r. r\<lparr>manifest := Some empty_manifest\<rparr>) a0 in
          case get_remote_peer_mac_addr p a1 of
            Inl e \<Rightarrow> Some (Inl e)
          | Inr p1 \<Rightarrow> map_option (\<lambda>r. bindR r (\<lambda>(l, a2, w2).
              bindR (clear_manifest ((rx_discard l a2)\<lparr>lldpdu := 0\<rparr>)) (\<lambda>a3. Inr (p1, a3, w2))))
              (rx_tlv_loop c p1 init_locals a1 w))"

subsection \<open>The receive state machine\<close>

definition rx_change_state :: "lldp_agent \<Rightarrow> rx_state \<Rightarrow> lldp_agent res" where
  "rx_change_state a newstate =
     (let st = rxstate (rx a) in
      bindR (case newstate of
          LLDP_WAIT_PORT_OPERATIONAL \<Rightarrow> Inr ()
        | RX_LLDP_INITIALIZE \<Rightarrow> assertR (st = LLDP_WAIT_PORT_OPERATIONAL \<or> st = RX_WAIT_FOR_FRAME)
        | DELETE_AGED_INFO \<Rightarrow> assertR (st = LLDP_WAIT_PORT_OPERATIONAL)
        | RX_WAIT_FOR_FRAME \<Rightarrow>
            (if \<not> (st = RX_LLDP_INITIALIZE \<or> st = DELETE_INFO \<or> st = UPDATE_INFO \<or> st = RX_FRAME)
             then bindR (assertR (st \<noteq> RX_LLDP_INITIALIZE)) (\<lambda>_. bindR (assertR (st \<noteq> DELETE_INFO)) (\<lambda>_.
                  bindR (assertR (st \<noteq> UPDATE_INFO)) (\<lambda>_. assertR (st \<noteq> RX_FRAME))))
             else Inr ())
        | RX_FRAME \<Rightarrow> assertR (st = RX_WAIT_FOR_FRAME)
        | DELETE_INFO \<Rightarrow>
            (if \<not> (st = RX_WAIT_FOR_FRAME \<or> st = RX_FRAME)
             then bindR (assertR (st = RX_WAIT_FOR_FRAME)) (\<lambda>_. assertR (st = RX_FRAME))
             else Inr ())
        | UPDATE_INFO \<Rightarrow> assertR (st = RX_FRAME))
        (\<lambda>_. Inr (rx_update (\<lambda>r. r\<lparr>rxstate := newstate\<rparr>) a)))"

definition rx_admin_on :: "lldp_agent \<Rightarrow> bool" where
  "rx_admin_on a \<longleftrightarrow> adminStatus a = enabledRxTx \<or> adminStatus a = enabledRxOnly"

definition rx_admin_off :: "lldp_agent \<Rightarrow> bool" where
  "rx_admin_off a \<longleftrightarrow> adminStatus a = disabled \<or> adminStatus a = enabledTxOnly"

definition set_rx_state :: "port \<Rightarrow> lldp_agent \<Rightarrow> (bool \<times> lldp_agent) res" where
  "set_rx_state p a0 =
     bindR (if \<not> rxInfoAge (rx a0) \<and> \<not> portEnabled p
            then rx_change_state a0 LLDP_WAIT_PORT_OPERATIONAL else Inr a0) (\<lambda>a.
     let goto = (\<lambda>s. bindR (rx_change_state a s) (\<lambda>a'. Inr (True, a')));
         stay = Inr (False, a)
     in case rxstate (rx a) of
          LLDP_WAIT_PORT_OPERATIONAL \<Rightarrow>
            if rxInfoAge (rx a) then goto DELETE_AGED_INFO
            else if portEnabled p then goto RX_LLDP_INITIALIZE else stay
        | DELETE_AGED_INFO \<Rightarrow> goto LLDP_WAIT_PORT_OPERATIONAL
        | RX_LLDP_INITIALIZE \<Rightarrow> if rx_admin_on a then goto RX_WAIT_FOR_FRAME else stay
        | RX_WAIT_FOR_FRAME \<Rightarrow>
            if rx_admin_off a then goto RX_LLDP_INITIALIZE
            else if rxInfoAge (rx a) then goto DELETE_INFO
            else if rcvFrame (rx a) then goto RX_FRAME else stay
        | DELETE_INFO \<Rightarrow> goto RX_WAIT_FOR_FRAME
        | RX_FRAME \<Rightarrow>
            if rxTTL (timers a) = 0 then goto DELETE_INFO
            else if rxTTL (timers a) \<noteq> 0 \<and> rxChanges a then goto UPDATE_INFO
            else goto RX_WAIT_FOR_FRAME
        | UPDATE_INFO \<Rightarrow> goto RX_WAIT_FOR_FRAME)"

definition process_delete_aged_info :: "'m core \<Rightarrow> port \<Rightarrow> lldp_agent \<Rightarrow> 'm \<Rightarrow> (lldp_agent \<times> 'm) res" where
  "process_delete_aged_info c p a w = bindR (mibDeleteObjects c p a w) (\<lambda>(a', w').
     Inr (rx_update (\<lambda>r. r\<lparr>rxInfoAge := False, remoteChange := True\<rparr>) a', w'))"

definition process_rx_lldp_initialize :: "'m core \<Rightarrow> port \<Rightarrow> lldp_agent \<Rightarrow> 'm \<Rightarrow> (lldp_agent \<times> 'm) res" where
  "process_rx_lldp_initialize c p a w = bindR (rxInitializeLLDP c p a w) (\<lambda>(a', w').
     Inr (rx_update (\<lambda>r. r\<lparr>rcvFrame := False\<rparr>) a', w'))"

definition process_wait_for_frame :: "lldp_agent \<Rightarrow> lldp_agent" where
  "process_wait_for_frame a = rx_update (\<lambda>r. r\<lparr>badFrame := False, rxInfoAge := False\<rparr>) a"

definition process_rx_frame :: "'m core \<Rightarrow> port \<Rightarrow> lldp_agent \<Rightarrow> 'm \<Rightarrow>
    (port \<times> lldp_agent \<times> 'm) res option" where
  "process_rx_frame c p a w =
     rxProcessFrame c p (a\<lparr>rx := (rx a)\<lparr>remoteChange := False, rcvFrame := False\<rparr>,
                          rxChanges := False\<rparr>) w"

definition process_delete_info :: "'m core \<Rightarrow> port \<Rightarrow> lldp_agent \<Rightarrow> 'm \<Rightarrow> (lldp_agent \<times> 'm) res" where
  "process_delete_info c p a w = bindR (mibDeleteObjects c p a w) (\<lambda>(a', w').
     Inr (rx_update (\<lambda>r. r\<lparr>framein := None, sizein := 0, remoteChange := True\<rparr>) a', w'))"

definition process_update_info :: "lldp_agent \<Rightarrow> lldp_agent" where
  "process_update_info a = rx_update (\<lambda>r. r\<lparr>remoteChange := True\<rparr>) a"

definition rx_action :: "'m core \<Rightarrow> port \<Rightarrow> lldp_agent \<Rightarrow> 'm \<Rightarrow> (port \<times> lldp_agent \<times> 'm) res option" where
  "rx_action c p a w =
     (let here = (\<lambda>r. Some (bindR r (\<lambda>(a', w'). Inr (p, a', w'))))
      in case rxstate (rx a) of
           LLDP_WAIT_PORT_OPERATIONAL \<Rightarrow> Some (Inr (p, a, w))
         | DELETE_AGED_INFO \<Rightarrow> here (process_delete_aged_info c p a w)
         | RX_LLDP_INITIALIZE \<Rightarrow> here (process_rx_lldp_initialize c p a w)
         | RX_WAIT_FOR_FRAME \<Rightarrow> Some (Inr (p, process_wait_for_frame a, w))
         | RX_FRAME \<Rightarrow> process_rx_frame c p a w
         | DELETE_INFO \<Rightarrow> here (process_delete_info c p a w)
         | UPDATE_INFO \<Rightarrow> Some (Inr (p, process_update_info a, w)))"

partial_function (option) rx_loop ::
  "'m core \<Rightarrow> port \<Rightarrow> lldp_agent \<Rightarrow> 'm \<Rightarrow> (port \<times> lldp_agent \<times> 'm) res option" where
  "rx_loop c p a w = Option.bind (rx_action c p a w) (\<lambda>r. case r of
       Inl e \<Rightarrow> Some (Inl e)
     | Inr (p1, a1, w1) \<Rightarrow> (case set_rx_state p1 a1 of
         Inl e \<Rightarrow> Some (Inl e)
       | Inr (b, a2) \<Rightarrow> if b then rx_loop c p1 a2 w1 else Some (Inr (p1, a2, w1))))"

definition run_rx_sm ::
  "'m core \<Rightarrow> port \<Rightarrow> lldp_agent \<Rightarrow> 'm \<Rightarrow> (port \<times> lldp_agent \<times> 'm) res option" where
  "run_rx_sm c p a w = (case set_rx_state p a of
       Inl e \<Rightarrow> Some (Inl e)
     | Inr (_, a1) \<Rightarrow> rx_loop c p a1 w)"

definition update_rx_timers :: "lldp_agent \<Rightarrow> lldp_agent" where
  "update_rx_timers a0 =
     (let a1 = (if rxTTL (timers a0) \<noteq> 0
          then let a = timers_update (\<lambda>t. t\<lparr>rxTTL := rxTTL t - 1\<rparr>) a0 in
            if rxTTL (timers a) = 0
            then let a' = rx_update (\<lambda>r. r\<lparr>rxInfoAge := True\<rparr>) a in
              if tooManyNghbrsTimer (timers a') \<noteq> 0
              then a'\<lparr>timers := (timers a')\<lparr>tooManyNghbrsTimer := 0\<rparr>,
                      rx := (rx a')\<lparr>tooManyNghbrs := False\<rparr>\<rparr>
              else a'
            else a
          else a0)
      in if tooManyNghbrsTimer (timers a1) \<noteq> 0
         then let a2 = timers_update (\<lambda>t. t\<lparr>tooManyNghbrsTimer := tooManyNghbrsTimer t - 1\<rparr>) a1 in
           if tooManyNghbrsTimer (timers a2) = 0
           then rx_update (\<lambda>r. r\<lparr>tooManyNghbrs := False\<rparr>) a2 else a2
         else a1)"

subsection \<open>Reception of a frame\<close>

datatype rx_verdict = Refreshed nat | Wrong_Ethertype | Matched nat | No_Agent

fun rx_walk :: "nat \<Rightarrow> bytes \<Rightarrow> lldp_agent list \<Rightarrow> rx_verdict res" where
  "rx_walk i buf [] = Inr No_Agent"
| "rx_walk i buf (a # as) =
     (if (case framein (rx a) of None \<Rightarrow> False
            | Some f \<Rightarrow> unat (sizein (rx a)) = length buf \<and> take (length buf) f = buf)
      then Inr (Refreshed i)
      else bindR (read_be16 buf 12) (\<lambda>proto.
        if proto \<noteq> ETH_P_LLDP then Inr Wrong_Ethertype
        else bindR (read_bytes buf 0 ETH_ALEN) (\<lambda>dest.
          if dest = mac_addr a then Inr (Matched i) else rx_walk (Suc i) buf as)))"

definition rxReceiveFrame :: "'m core \<Rightarrow> port \<Rightarrow> bytes \<Rightarrow> 'm \<Rightarrow> (port \<times> 'm) res option" where
  "rxReceiveFrame c p buf w =
     (if buf = [] then Some (Inr (p, w))
      else case rx_walk 0 buf (agent_head p) of
        Inl e \<Rightarrow> Some (Inl e)
      | Inr No_Agent \<Rightarrow> Some (Inr (p, w))
      | Inr Wrong_Ethertype \<Rightarrow> Some (Inr (p, w))
      | Inr (Refreshed i) \<Rightarrow>
          let a = agent_head p ! i;
              a' = a\<lparr>timers := (timers a)\<lparr>rxTTL := lastrxTTL (timers a)\<rparr>,
                     stats := (stats a)\<lparr>statsFramesInTotal := statsFramesInTotal (stats a) + 1\<rparr>\<rparr>
          in Some (Inr (p\<lparr>agent_head := (agent_head p)[i := a']\<rparr>, w))
      | Inr (Matched i) \<Rightarrow>
          let a = agent_head p ! i in
          if rx_admin_off a then Some (Inr (p, w))
          else let a1 = rx_update (\<lambda>r. r\<lparr>sizein := of_nat (length buf), framein :=
                 (if malloc_ok (core_env c) (length buf) then Some buf else None)\<rparr>) a in
            if framein (rx a1) = None
            then Some (Inr (p\<lparr>agent_head := (agent_head p)[i := a1]\<rparr>, w))
            else let a2 = a1\<lparr>stats := (stats a1)\<lparr>statsFramesInTotal := statsFramesInTotal (stats a1) + 1\<rparr>,
                             rx := (rx a1)\<lparr>rcvFrame := True\<rparr>\<rparr> in
              map_option (\<lambda>r. bindR r (\<lambda>(p', a', w').
                Inr (p'\<lparr>agent_head := (agent_head p')[i := a']\<rparr>, w')))
                (run_rx_sm c p a2 w))"

lemmas rx_sm_defs = rx_change_state_def set_rx_state_def rx_admin_on_def rx_admin_off_def Let_def

end
