(* ===== verification/Rx_Walk.thy ===== *)
theory Rx_Walk
  imports Rx
begin

text \<open>
  Correctness of the walk over a received frame (\<open>rxProcessFrame\<close>): it returns, it touches
  only the receive bookkeeping, it stays within two bytes of the frame, and on a well-formed
  LLDPDU it delivers exactly the TLVs of the frame, in order.
\<close>

subsection \<open>What the walk may change\<close>

definition rx_view :: "lldp_agent \<Rightarrow> lldp_agent" where
  "rx_view a = (core_view a)\<lparr>
     rx := (rx (core_view a))\<lparr>newNeighbor := False, tooManyNghbrs := False,
       manifest := map_option (\<lambda>_. empty_manifest) (manifest (rx a))\<rparr>,
     timers := (timers a)\<lparr>rxTTL := 0, lastrxTTL := 0, tooManyNghbrsTimer := 0\<rparr>,
     msap_info := \<lparr>length1 = 0, msap1 = None, length2 = 0, msap2 = None\<rparr>,
     stats := (stats a)\<lparr>statsTLVsUnrecognizedTotal := 0\<rparr>\<rparr>"

definition rx_agree :: "lldp_agent \<Rightarrow> lldp_agent \<Rightarrow> bool" where
  "rx_agree a a' \<longleftrightarrow> rx_view a' = rx_view a"

lemma rx_agree_refl [simp]: "rx_agree a a"
  by (simp add: rx_agree_def)

lemma rx_agree_trans: "rx_agree a b \<Longrightarrow> rx_agree b d \<Longrightarrow> rx_agree a d"
  by (simp add: rx_agree_def)

lemma mod_rx_agree: "mod_agree a a' \<Longrightarrow> rx_agree a a'"
proof -
  have "rx_view a = rx_view (core_view a)" for a
    by (simp add: rx_view_def core_view_def)
  then show "mod_agree a a' \<Longrightarrow> rx_agree a a'"
    unfolding mod_agree_def rx_agree_def by metis
qed

text \<open>The timers of the transmit side.\<close>

definition tx_clock :: "lldp_agent \<Rightarrow> agenttimers" where
  "tx_clock a = (timers a)\<lparr>rxTTL := 0, lastrxTTL := 0, tooManyNghbrsTimer := 0\<rparr>"

lemma rx_view_sel:
  "framein (rx (rx_view a)) = framein (rx a)" "sizein (rx (rx_view a)) = sizein (rx a)"
  "rxstate (rx (rx_view a)) = rxstate (rx a)" "rcvFrame (rx (rx_view a)) = rcvFrame (rx a)"
  "rxInfoAge (rx (rx_view a)) = rxInfoAge (rx a)" "badFrame (rx (rx_view a)) = badFrame (rx a)"
  "adminStatus (rx_view a) = adminStatus a" "mac_addr (rx_view a) = mac_addr a"
  "agenttype (rx_view a) = agenttype a" "txstate (tx (rx_view a)) = txstate (tx a)"
  "txNow (tx (rx_view a)) = txNow (tx a)"
  "manifest (rx (rx_view a)) = None \<longleftrightarrow> manifest (rx a) = None" "timers (rx_view a) = tx_clock a"
  by (simp_all add: rx_view_def core_view_def tx_clock_def)

lemma rx_agree_fields:
  assumes "rx_agree a a'"
  shows "framein (rx a') = framein (rx a)" "sizein (rx a') = sizein (rx a)"
    "rxstate (rx a') = rxstate (rx a)" "rcvFrame (rx a') = rcvFrame (rx a)"
    "rxInfoAge (rx a') = rxInfoAge (rx a)" "badFrame (rx a') = badFrame (rx a)"
    "adminStatus a' = adminStatus a" "mac_addr a' = mac_addr a" "agenttype a' = agenttype a"
    "txstate (tx a') = txstate (tx a)" "txNow (tx a') = txNow (tx a)"
    "manifest (rx a') = None \<longleftrightarrow> manifest (rx a) = None" "tx_clock a' = tx_clock a"
  using assms unfolding rx_agree_def by (metis rx_view_sel)+

lemma store_tlv_agree [simp]: "rx_agree a (store_tlv flag f a)"
  by (simp add: rx_agree_def rx_view_def core_view_def store_tlv_def option.map_comp comp_def)

lemma msap_agree [simp]: "rx_agree a b \<Longrightarrow> rx_agree a (msap_info_update f b)"
  by (simp add: rx_agree_def rx_view_def core_view_def)

lemma newNeighbor_agree [simp]:
  "rx_agree a b \<Longrightarrow> rx_agree a (rx_update (newNeighbor_update f) b)"
  "rx_agree a b \<Longrightarrow> rx_agree a (rx_update (\<lambda>r. r\<lparr>tooManyNghbrs := t, newNeighbor := n\<rparr>) b)"
  by (simp_all add: rx_agree_def rx_view_def core_view_def)

lemma timers_agree [simp]:
  "rx_agree a b \<Longrightarrow> rx_agree a (timers_update (\<lambda>t. t\<lparr>tooManyNghbrsTimer := g t\<rparr>) b)"
  "rx_agree a b \<Longrightarrow> rx_agree a (timers_update (\<lambda>t. t\<lparr>rxTTL := x, lastrxTTL := y\<rparr>) b)"
  by (simp_all add: rx_agree_def rx_view_def core_view_def)

lemma stats_agree [simp]:
  "rx_agree a b \<Longrightarrow> rx_agree a (stats_update (\<lambda>s. s\<lparr>statsTLVsUnrecognizedTotal := g s\<rparr>) b)"
  by (simp add: rx_agree_def rx_view_def core_view_def)

lemma rx_chassis_agree: "rx_chassis ok t l a = Inr (j, l', a') \<Longrightarrow> rx_agree a a' \<and> l_tlv_offset l' = l_tlv_offset l \<and> l_tlv_cnt l' = l_tlv_cnt l"
  by (auto simp: rx_chassis_def Let_def l_error_def split: if_splits option.splits)

lemma rx_portid_agree: "rx_portid ok t l a = Inr (j, l', a') \<Longrightarrow> rx_agree a a' \<and> l_tlv_offset l' = l_tlv_offset l \<and> l_tlv_cnt l' = l_tlv_cnt l"
  by (auto simp: rx_portid_def Let_def l_error_def split: if_splits option.splits)

lemma rx_ttl_agree: "rx_ttl t l a = Inr (j, l', a') \<Longrightarrow> rx_agree a a' \<and> l_tlv_offset l' = l_tlv_offset l \<and> l_tlv_cnt l' = l_tlv_cnt l"
  by (auto simp: rx_ttl_def Let_def l_error_def elim!: bindR_InrE split: if_splits)

lemma rx_core_tlv_agree:
  assumes "rx_core_tlv ok t l a = Inr (j, s, l', a')"
  shows "rx_agree a a' \<and> l_tlv_offset l' = l_tlv_offset l \<and> l_tlv_cnt l' = l_tlv_cnt l"
proof -
  consider "rx_chassis ok t l a = Inr (j, l', a')" | "rx_portid ok t l a = Inr (j, l', a')"
    | "rx_ttl t l a = Inr (j, l', a')" | flag f where "l' = l" "a' = store_tlv flag f a"
    | "l' = l" "a' = a"
    using assms unfolding rx_core_tlv_def Let_def
    by (auto elim!: bindR_InrE split: if_splits prod.splits)
  then show ?thesis
    by cases (auto dest: rx_chassis_agree rx_portid_agree rx_ttl_agree)
qed

subsection \<open>The walk returns\<close>

lemma l_error_sel [simp]: "l_tlv_offset (l_error l) = l_tlv_offset l" "l_tlv_cnt (l_error l) = l_tlv_cnt l"
  by (simp_all add: l_error_def)

lemma rx_tlv_cases:
  assumes "rx_tlv c p l a w = Inr (b, l', a', w')"
  obtains (out) "\<not> b" "a' = a" "w' = w"
  | (deliver) tlv info l1 where "rx_deliver c p tlv l1 a w = Inr (b, l', a', w')"
      "l_tlv_cnt l1 = l_tlv_cnt l + 1" "l_tlv_offset l1 = l_tlv_offset l + (2 + tlv_length tlv)"
      "l_tlv_offset l \<le> sizein (rx a)" "l_tlv_offset l + tlv_length tlv \<le> sizein (rx a)"
      "unat (tlv_length tlv) < 512" "tlv_info tlv = Some info" "length info = unat (tlv_length tlv)"
  using assms unfolding rx_tlv_def Let_def
  by (auto elim!: bindR_InrE split: if_splits option.splits
      simp: and_1ff_bound read_bytes_Inr not_less)

lemma offset_step:
  assumes "unat (off :: u16) \<le> n" "n \<le> 65000" "unat len < 512"
  shows "unat (off + (2 + len)) = unat off + 2 + unat len"
proof -
  have "unat (2 + len) = 2 + unat len" using assms by (subst unat_word_ariths) simp
  then show ?thesis using assms by (subst unat_word_ariths) simp
qed

definition rx_sized :: "lldp_agent \<Rightarrow> bool" where
  "rx_sized a \<longleftrightarrow> unat (sizein (rx a)) \<le> 65000"

lemma rx_agree_sized: "rx_agree a a' \<Longrightarrow> rx_sized a' = rx_sized a"
  by (simp add: rx_sized_def rx_agree_fields)

abbreviation count_unrecognized :: "lldp_agent \<Rightarrow> lldp_agent" where
  "count_unrecognized a \<equiv> stats_update (\<lambda>s. s\<lparr>statsTLVsUnrecognizedTotal :=
     statsTLVsUnrecognizedTotal s + 1\<rparr>) a"

lemma rx_deliver_cases:
  assumes "rx_deliver c p t l a w = Inr (b, l', a', w')"
  obtains (jump) s where "rx_core_tlv (malloc_ok (core_env c)) t l a = Inr (True, s, l', a')" "\<not> b" "w' = w"
  | (modules) s l2 a2 err st a3 where
      "rx_core_tlv (malloc_ok (core_env c)) t l a = Inr (False, s, l2, a2)"
      "rchange_modules p (lldp_head c) t s a2 w = Inr (err, st, a3, w')"
      "l' = (if err then l_error l2 else l2)" "b = (\<not> err \<and> tlv_type t \<noteq> 0)"
      "a' = (if err \<or> st then a3 else count_unrecognized a3)"
proof -
  from assms obtain j s l2 a2 where core: "rx_core_tlv (malloc_ok (core_env c)) t l a = Inr (j, s, l2, a2)"
    by (cases "rx_core_tlv (malloc_ok (core_env c)) t l a") (auto simp: rx_deliver_def)
  show thesis
  proof (cases j)
    case True
    with core assms jump show thesis by (simp add: rx_deliver_def)
  next
    case False
    with core assms obtain err st a3 w3 where m: "rchange_modules p (lldp_head c) t s a2 w = Inr (err, st, a3, w3)"
      by (cases "rchange_modules p (lldp_head c) t s a2 w") (auto simp: rx_deliver_def)
    with core False assms modules show thesis by (cases err) (auto simp: rx_deliver_def split: if_splits)
  qed
qed

context lldp_modules
begin

lemma rchange_modules_agree:
  assumes "set nps \<subseteq> set mods" "inv w" "rchange_modules p nps t s a w = Inr (e, s', a', w')"
  shows "mod_agree a a' \<and> inv w'"
  using assms
proof (induction nps arbitrary: s a w)
  case Nil
  then show ?case by simp
next
  case (Cons np nps)
  show ?case
  proof (cases "Option.bind (mod_ops np) lldp_mod_rchange")
    case None
    with Cons show ?thesis by simp
  next
    case (Some f)
    then obtain ops where ops: "mod_ops np = Some ops" "lldp_mod_rchange ops = Some f"
      by (auto simp: bind_eq_Some_conv)
    from Cons.prems(3) Some obtain err a1 w1 where f: "f p a t w = Inr (err, a1, w1)"
      and rest: "(if err = 0 then rchange_modules p nps t True a1 w1
          else if err = TLV_ERR then Inr (True, s, a1, w1) else rchange_modules p nps t s a1 w1)
        = Inr (e, s', a', w')"
      by (auto elim!: bindR_InrE)
    have "mod_agree a a1 \<and> inv w1"
      using rchange_agree [OF _ ops _ f] Cons.prems(1,2) by simp
    with rest Cons.IH [of w1] Cons.prems(1) show ?thesis
      by (auto split: if_splits intro: mod_agree_trans)
  qed
qed

lemma rx_deliver_agree:
  assumes "lldp_head c = mods" "inv w" "rx_deliver c p t l a w = Inr (b, l', a', w')"
  shows "rx_agree a a' \<and> inv w' \<and> l_tlv_offset l' = l_tlv_offset l \<and> l_tlv_cnt l' = l_tlv_cnt l"
  using assms(3)
proof (cases rule: rx_deliver_cases)
  case (jump s)
  with rx_core_tlv_agree [OF jump(1)] assms(2) show ?thesis by simp
next
  case (modules s l2 a2 err st a3)
  have "mod_agree a2 a3" "inv w'"
    using rchange_modules_agree [OF order_refl assms(2)] modules(2) assms(1) by auto
  moreover have "rx_agree a a3"
    using rx_core_tlv_agree [OF modules(1)] mod_rx_agree [OF calculation(1)] rx_agree_trans by blast
  ultimately show ?thesis
    using modules(3,5) rx_core_tlv_agree [OF modules(1)] by simp
qed

lemma rx_tlv_agree:
  assumes "lldp_head c = mods" "inv w" "rx_tlv c p l a w = Inr (b, l', a', w')"
  shows "rx_agree a a' \<and> inv w'"
  using assms(3)
proof (cases rule: rx_tlv_cases)
  case (deliver tlv info l1)
  then show ?thesis using rx_deliver_agree [OF assms(1,2)] by blast
qed (use assms in simp)

lemma rx_tlv_again:
  assumes "lldp_head c = mods" "inv w" "rx_tlv c p l a w = Inr (True, l', a', w')" "rx_sized a"
  shows "unat (l_tlv_offset l) \<le> unat (sizein (rx a))
    \<and> unat (l_tlv_offset l) + 2 \<le> unat (l_tlv_offset l')"
  using assms(3)
proof (cases rule: rx_tlv_cases)
  case (deliver tlv info l1)
  have "l_tlv_offset l' = l_tlv_offset l + (2 + tlv_length tlv)"
    using rx_deliver_agree [OF assms(1,2) deliver(1)] deliver by simp
  then show ?thesis
    using offset_step [of "l_tlv_offset l" _ "tlv_length tlv"] deliver(4,6) assms(4)
    by (auto simp: rx_sized_def word_le_nat_alt)
qed simp

lemma rx_tlv_loop_rule:
  assumes "lldp_head c = mods" "inv w" "rx_sized a"
    and "I l a w"
    and step: "\<And>l a w b l' a' w'. I l a w \<Longrightarrow> inv w \<Longrightarrow> rx_sized a \<Longrightarrow>
       rx_tlv c p l a w = Inr (b, l', a', w') \<Longrightarrow> I l' a' w'"
  shows "(\<exists>e l0 a0 w0. rx_tlv_loop c p l a w = Some (Inl e) \<and> I l0 a0 w0 \<and> inv w0 \<and> rx_sized a0
            \<and> rx_tlv c p l0 a0 w0 = Inl e)
    \<or> (\<exists>l' a' w'. rx_tlv_loop c p l a w = Some (Inr (l', a', w')) \<and> I l' a' w' \<and> rx_agree a a' \<and> inv w')"
  using assms(2-4)
proof (induction "unat (sizein (rx a)) + 3 - unat (l_tlv_offset l)" arbitrary: l a w rule: less_induct)
  case less
  show ?case
  proof (cases "rx_tlv c p l a w")
    case (Inl e)
    then have "rx_tlv_loop c p l a w = Some (Inl e)" by (subst rx_tlv_loop.simps) simp
    with less.prems Inl show ?thesis by blast
  next
    case (Inr r)
    then obtain b l1 a1 w1 where r: "rx_tlv c p l a w = Inr (b, l1, a1, w1)"
      by (metis prod_cases4)
    note I1 = step [OF less.prems(3,1,2) r]
    have ag: "rx_agree a a1" "inv w1" using rx_tlv_agree [OF assms(1) less.prems(1) r] by simp_all
    then have sz: "rx_sized a1" "sizein (rx a1) = sizein (rx a)"
      using less.prems(2) rx_agree_sized rx_agree_fields(2) by blast+
    show ?thesis
    proof (cases b)
      case False
      with r have "rx_tlv_loop c p l a w = Some (Inr (l1, a1, w1))"
        by (subst rx_tlv_loop.simps) simp
      with I1 ag show ?thesis by blast
    next
      case True
      with r have eq: "rx_tlv_loop c p l a w = rx_tlv_loop c p l1 a1 w1"
        by (subst rx_tlv_loop.simps) simp
      have "unat (sizein (rx a1)) + 3 - unat (l_tlv_offset l1)
          < unat (sizein (rx a)) + 3 - unat (l_tlv_offset l)"
        using rx_tlv_again [OF assms(1) less.prems(1), of p l a l1 a1 w1] r True less.prems(2) sz by auto
      from less.hyps [OF this ag(2) sz(1) I1] show ?thesis
        unfolding eq using rx_agree_trans [OF ag(1)] by blast
    qed
  qed
qed

lemma rx_tlv_loop_returns:
  assumes "lldp_head c = mods" "inv w" "rx_sized a"
  shows "\<exists>r. rx_tlv_loop c p l a w = Some r"
  using rx_tlv_loop_rule [OF assms, of "\<lambda>_ _ _. True"] by auto

end

subsection \<open>The walk delivers the TLVs of the frame\<close>

definition wire_tlv :: "u8 \<Rightarrow> bytes \<Rightarrow> unpacked_tlv" where
  "wire_tlv ty bs = \<lparr>tlv_type = ty, tlv_length = of_nat (length bs), tlv_info = Some bs\<rparr>"

definition advance :: "bytes \<Rightarrow> rx_locals \<Rightarrow> rx_locals" where
  "advance bs l = l\<lparr>l_tlv_cnt := l_tlv_cnt l + 1,
     l_tlv_offset := l_tlv_offset l + (2 + of_nat (length bs))\<rparr>"

text \<open>The abstract receiver: the TLVs of an LLDPDU, as a list, delivered one after the other.\<close>

fun rx_items :: "'m core \<Rightarrow> port \<Rightarrow> (u8 \<times> bytes) list \<Rightarrow> rx_locals \<Rightarrow> lldp_agent \<Rightarrow> 'm \<Rightarrow>
    (rx_locals \<times> lldp_agent \<times> 'm) res" where
  "rx_items c p [] l a w = Inr (l, a, w)"
| "rx_items c p ((ty, bs) # ts) l a w =
     bindR (rx_deliver c p (wire_tlv ty bs) (advance bs l) a w) (\<lambda>(b, l', a', w').
       if b then rx_items c p ts l' a' w' else Inr (l', a', w'))"

text \<open>
  The order 802.1AB asks for: chassis ID, port ID and time to live in the first three places
  and nowhere else, \<open>n\<close> being the number of TLVs before.
\<close>

fun lldpdu_order :: "nat \<Rightarrow> (u8 \<times> bytes) list \<Rightarrow> bool" where
  "lldpdu_order n [] = True"
| "lldpdu_order n ((ty, bs) # ts) =
     (0 < ty \<and> ty < 128 \<and> length bs < 512 \<and> (ty = 3 \<longrightarrow> length bs = 2)
      \<and> (if n < 3 then ty = of_nat (Suc n) else 3 < ty) \<and> lldpdu_order (Suc n) ts)"

definition wf_lldpdu :: "(u8 \<times> bytes) list \<Rightarrow> bool" where
  "wf_lldpdu ts \<longleftrightarrow> 3 \<le> length ts \<and> lldpdu_order 0 ts"

lemma tlv_count_bound: "2 * length ts \<le> length (tlv_concat ts)"
  by (induction ts rule: tlv_concat.induct) simp_all

lemma rx_tlv_wire:
  assumes buf: "framein (rx a) = Some (pre @ tlv_encode ty bs @ rest)"
    and off: "unat (l_tlv_offset l) = length pre"
    and sz: "length pre + 2 + length bs \<le> unat (sizein (rx a))"
      "unat (sizein (rx a)) \<le> length (pre @ tlv_encode ty bs @ rest)"
    and cnt: "unat (l_tlv_cnt l) = n" "n < 60000"
    and ty: "ty < 128" "length bs < 512" "ty = 3 \<longrightarrow> length bs = 2"
      "if n < 3 then ty = of_nat (Suc n) else ty \<noteq> 1 \<and> ty \<noteq> 2 \<and> ty \<noteq> 3"
    and ok: "malloc_ok (core_env c) 16" "malloc_ok (core_env c) (length bs)"
  shows "rx_tlv c p l a w = rx_deliver c p (wire_tlv ty bs) (advance bs l) a w"
proof -
  let ?len = "of_nat (length bs) :: u16"
  have small: "unat ?len = length bs" using ty(2) by (simp add: unat_of_nat)
  then have len: "?len AND 0x01ff = ?len"
    using ty(2) by (intro and_1ff_small) (simp add: word_less_nat_alt)
  have head: "read_be16 (pre @ tlv_encode ty bs @ rest) (unat (l_tlv_offset l)) = Inr (tlv_header ty ?len)"
    using off by (simp add: tlv_encode_def be16_bytes_def byte_simps)
  have info: "read_bytes (pre @ tlv_encode ty bs @ rest) (unat (l_tlv_offset l) + 2) (length bs) = Inr bs"
    using off by (simp add: read_bytes_def tlv_encode_def)
  have "unat (l_tlv_offset l + ?len) = length pre + length bs"
    using off small sz unat_u16_less [of "sizein (rx a)"] by (subst unat_word_ariths) simp
  then have o2: "\<not> sizein (rx a) < l_tlv_offset l" "\<not> sizein (rx a) < l_tlv_offset l + ?len"
    using off sz by (simp_all add: word_less_nat_alt)
  have c1: "unat (l_tlv_cnt l + 1) = Suc n" using cnt by (subst unat_word_ariths) simp
  have c2: "\<not> (l_tlv_cnt l + 1 \<le> 3 \<and> l_tlv_cnt l + 1 \<noteq> ucast ty)"
  proof (cases "n < 3")
    case True
    then have "n = 0 \<or> n = 1 \<or> n = 2" by auto
    then have "unat (ucast ty :: u16) = Suc n" using ty(4) by auto
    with c1 show ?thesis by (simp add: word_unat_eq_iff)
  qed (use c1 in \<open>simp add: word_le_nat_alt\<close>)
  have c3: "\<not> (3 < l_tlv_cnt l + 1 \<and> (ty = 1 \<or> ty = 2 \<or> ty = 3))"
    using c1 ty(4) by (auto simp: word_less_nat_alt)
  have c4: "\<not> (ty = 3 \<and> ?len \<noteq> 2)" using ty(3) by auto
  show ?thesis
    using buf head info o2 ok small
    by (simp add: rx_tlv_def Let_def len tlv_header_type [OF ty(1)] create_tlv_def wire_tlv_def
        advance_def comp_def if_not_P [OF c2] if_not_P [OF c3] if_not_P [OF c4])
qed

context lldp_modules
begin

lemma rx_tlv_loop_items:
  assumes c: "lldp_head c = mods" "malloc_ok (core_env c) 16" "\<And>n. n < 512 \<Longrightarrow> malloc_ok (core_env c) n"
    and w: "inv w"
    and buf: "framein (rx a) = Some (pre @ tlv_concat ts @ [0, 0] @ rest)"
    and sz: "unat (sizein (rx a)) = length (pre @ tlv_concat ts @ [0, 0] @ rest)" "rx_sized a"
    and off: "unat (l_tlv_offset l) = length pre"
    and cnt: "unat (l_tlv_cnt l) = n" "2 * n \<le> length pre" "3 \<le> n + length ts"
    and ord: "lldpdu_order n ts"
  shows "rx_tlv_loop c p l a w = Some (rx_items c p (ts @ [(0, [])]) l a w)"
  using assms
proof (induction ts arbitrary: pre l a w n)
  case Nil
  have "n < 60000" using Nil.prems by (simp add: rx_sized_def)
  moreover have "tlv_encode 0 [] = [0, 0]"
    by (simp add: tlv_encode_def tlv_header_def be16_bytes_def hi8_def lo8_def)
  ultimately have "rx_tlv c p l a w = rx_deliver c p (wire_tlv 0 []) (advance [] l) a w"
    using Nil.prems by (intro rx_tlv_wire [where pre = pre and rest = rest and n = n]) auto
  then show ?case
    by (subst rx_tlv_loop.simps)
      (auto simp: wire_tlv_def bindR_def split: sum.splits elim!: rx_deliver_cases)
next
  case (Cons t ts)
  obtain ty bs where t: "t = (ty, bs)" by (cases t)
  note prems = Cons.prems [unfolded t]
  have pre: "pre @ tlv_concat ((ty, bs) # ts) @ [0, 0] @ rest
      = (pre @ tlv_encode ty bs) @ tlv_concat ts @ [0, 0] @ rest" by simp
  have big: "n < 60000" using prems by (simp add: rx_sized_def)
  have ty: "0 < ty" "ty < 128" "length bs < 512" "ty = 3 \<longrightarrow> length bs = 2"
    "if n < 3 then ty = of_nat (Suc n) else ty \<noteq> 1 \<and> ty \<noteq> 2 \<and> ty \<noteq> 3"
    "lldpdu_order (Suc n) ts"
    using prems(12) by (auto split: if_splits)
  have one: "rx_tlv c p l a w = rx_deliver c p (wire_tlv ty bs) (advance bs l) a w"
    using prems big ty
    by (intro rx_tlv_wire [where pre = pre and rest = "tlv_concat ts @ [0, 0] @ rest" and n = n]) auto
  show ?case
  proof (cases "rx_deliver c p (wire_tlv ty bs) (advance bs l) a w")
    case (Inl e)
    then show ?thesis by (subst rx_tlv_loop.simps) (simp add: one t)
  next
    case (Inr r)
    then obtain b l1 a1 w1 where r: "rx_deliver c p (wire_tlv ty bs) (advance bs l) a w = Inr (b, l1, a1, w1)"
      by (metis prod_cases4)
    note ag = rx_deliver_agree [OF c(1) prems(4) r]
    show ?thesis
    proof (cases b)
      case False
      with r show ?thesis by (subst rx_tlv_loop.simps) (simp add: one t)
    next
      case True
      have l1: "unat (l_tlv_offset l1) = length (pre @ tlv_encode ty bs)" "unat (l_tlv_cnt l1) = Suc n"
      proof -
        have "unat (of_nat (length bs) :: u16) = length bs" using ty(3) by (simp add: unat_of_nat)
        then show "unat (l_tlv_offset l1) = length (pre @ tlv_encode ty bs)"
          using ag prems offset_step [of "l_tlv_offset l" "unat (sizein (rx a))" "of_nat (length bs)"] ty(3)
          by (simp add: advance_def rx_sized_def)
        show "unat (l_tlv_cnt l1) = Suc n"
          using ag prems(9) big unat_word_ariths(1) [of "l_tlv_cnt l" 1] by (simp add: advance_def)
      qed
      have "rx_tlv_loop c p l1 a1 w1 = Some (rx_items c p (ts @ [(0, [])]) l1 a1 w1)"
        using ag prems ty l1 rx_agree_sized [of a a1] rx_agree_fields(1,2) [of a a1]
        by (intro Cons.IH [where pre = "pre @ tlv_encode ty bs" and n = "Suc n"]) auto
      then show ?thesis
        using r True by (subst rx_tlv_loop.simps) (simp add: one t)
    qed
  qed
qed

end

subsection \<open>Processing a well-formed frame\<close>

lemma lldpdu_order_tail:
  "lldpdu_order (Suc (Suc (Suc n))) ts \<Longrightarrow> \<forall>(ty, bs) \<in> set ts. ty \<notin> {1, 2, 3}"
  by (induction ts arbitrary: n rule: tlv_concat.induct) auto

text \<open>
  The receive part of the contract: a module leaves TLVs that are not organisationally
  specific to the core, and handles the TLVs it accepts without leaving the defined behaviour.
\<close>

locale lldp_rx_modules = lldp_modules +
  fixes accepts :: "unpacked_tlv \<Rightarrow> bool"
  assumes rchange_basic: "\<And>m ops f p a t w. m \<in> set mods \<Longrightarrow> mod_ops m = Some ops \<Longrightarrow>
      lldp_mod_rchange ops = Some f \<Longrightarrow> inv w \<Longrightarrow> tlv_type t \<noteq> ORG_SPECIFIC_TLV \<Longrightarrow>
      \<exists>e. f p a t w = Inr (e, a, w) \<and> e \<noteq> TLV_ERR"
    and rchange_total: "\<And>m ops f p a t w. m \<in> set mods \<Longrightarrow> mod_ops m = Some ops \<Longrightarrow>
      lldp_mod_rchange ops = Some f \<Longrightarrow> inv w \<Longrightarrow> accepts t \<Longrightarrow> \<exists>r. f p a t w = Inr r"

text \<open>The TLVs after the third do not touch the neighbour's identity or the timers.\<close>

definition rx_tail_agree :: "lldp_agent \<Rightarrow> lldp_agent \<Rightarrow> bool" where
  "rx_tail_agree a a' \<longleftrightarrow> timers a' = timers a \<and> msap_info a' = msap_info a
     \<and> newNeighbor (rx a') = newNeighbor (rx a) \<and> tooManyNghbrs (rx a') = tooManyNghbrs (rx a)"

lemma rx_core_tlv_tail:
  assumes "tlv_type t \<notin> {1, 2, 3}"
  shows "\<exists>s a'. rx_core_tlv ok t l a = Inr (False, s, l, a') \<and> rx_tail_agree a a'"
  using assms by (auto simp: rx_core_tlv_def rx_tail_agree_def store_tlv_def Let_def)

context lldp_rx_modules
begin

lemma rchange_modules_basic:
  assumes "set nps \<subseteq> set mods" "inv w" "tlv_type t \<noteq> ORG_SPECIFIC_TLV"
  shows "\<exists>s'. rchange_modules p nps t s a w = Inr (False, s', a, w) \<and> (s \<longrightarrow> s')"
  using assms(1)
proof (induction nps arbitrary: s)
  case (Cons np nps)
  show ?case
  proof (cases "Option.bind (mod_ops np) lldp_mod_rchange")
    case None
    with Cons show ?thesis by simp
  next
    case (Some f)
    then obtain ops where "mod_ops np = Some ops" "lldp_mod_rchange ops = Some f"
      by (auto simp: bind_eq_Some_conv)
    then obtain e where "f p a t w = Inr (e, a, w)" "e \<noteq> TLV_ERR"
      using rchange_basic [of np] Cons.prems assms(2,3) by force
    with Some Cons.IH [of True] Cons.IH [of s] Cons.prems show ?thesis by auto
  qed
qed simp

lemma rchange_modules_total:
  assumes "set nps \<subseteq> set mods" "inv w" "accepts t"
  shows "\<exists>r. rchange_modules p nps t s a w = Inr r"
  using assms
proof (induction nps arbitrary: s a w)
  case (Cons np nps)
  show ?case
  proof (cases "Option.bind (mod_ops np) lldp_mod_rchange")
    case None
    with Cons show ?thesis by simp
  next
    case (Some f)
    then obtain ops where ops: "mod_ops np = Some ops" "lldp_mod_rchange ops = Some f"
      by (auto simp: bind_eq_Some_conv)
    then obtain e a1 w1 where f: "f p a t w = Inr (e, a1, w1)"
      using rchange_total [of np ops f w t p a] Cons.prems by force
    have "inv w1" using rchange_agree [OF _ ops _ f] Cons.prems by simp
    with Some f Cons.IH [of w1] Cons.prems show ?thesis by auto
  qed
qed auto

lemma rx_deliver_core:
  assumes "lldp_head c = mods" "inv w" "tlv_type t \<noteq> ORG_SPECIFIC_TLV" "tlv_type t \<noteq> 0"
    and "rx_core_tlv (malloc_ok (core_env c)) t l a = Inr (False, True, l1, a2)"
  shows "rx_deliver c p t l a w = Inr (True, l1, a2, w)"
  using rchange_modules_basic [OF order_refl assms(2,3), of p True a2] assms
  by (auto simp: rx_deliver_def)

lemma rx_deliver_tail:
  assumes "lldp_head c = mods" "inv w" "tlv_type t \<notin> {1, 2, 3}"
    and "accepts t \<or> tlv_type t \<noteq> ORG_SPECIFIC_TLV"
  shows "\<exists>b l' a' w'. rx_deliver c p t l a w = Inr (b, l', a', w') \<and> rx_tail_agree a a'"
proof -
  obtain s a2 where core: "rx_core_tlv (malloc_ok (core_env c)) t l a = Inr (False, s, l, a2)"
    and a2: "rx_tail_agree a a2"
    using rx_core_tlv_tail [OF assms(3)] by blast
  obtain err st a3 w3 where m: "rchange_modules p mods t s a2 w = Inr (err, st, a3, w3)"
    using rchange_modules_total [OF order_refl assms(2)] rchange_modules_basic [OF order_refl assms(2)]
      assms(4) by (metis prod_cases4)
  have err: "\<not> (err \<and> tlv_type t \<le> 8)"
  proof
    assume e: "err \<and> tlv_type t \<le> 8"
    then have "tlv_type t \<noteq> ORG_SPECIFIC_TLV" by auto
    from rchange_modules_basic [OF order_refl assms(2) this, of p s a2] m e show False by auto
  qed
  have "mod_agree a2 a3" using rchange_modules_agree [OF order_refl assms(2) m] by simp
  then have "rx_tail_agree a a3"
    using a2 by (simp add: rx_tail_agree_def mod_agree_fields)
  then show ?thesis
    using core m assms(1) err by (auto simp: rx_deliver_def rx_tail_agree_def)
qed

lemma rx_items_tail:
  assumes "lldp_head c = mods" "inv w"
    and "\<forall>(ty, bs) \<in> set ts. ty \<notin> {1, 2, 3} \<and> (accepts (wire_tlv ty bs) \<or> ty \<noteq> ORG_SPECIFIC_TLV)"
  shows "\<exists>l' a' w'. rx_items c p ts l a w = Inr (l', a', w') \<and> rx_tail_agree a a' \<and> rx_agree a a' \<and> inv w'"
  using assms(2,3)
proof (induction ts arbitrary: l a w)
  case Nil
  then show ?case by (simp add: rx_tail_agree_def)
next
  case (Cons t ts)
  obtain ty bs where t: "t = (ty, bs)" by (cases t)
  from rx_deliver_tail [OF assms(1) Cons.prems(1), of "wire_tlv ty bs" p "advance bs l" a] Cons.prems(2) t
  obtain b l1 a1 w1 where d: "rx_deliver c p (wire_tlv ty bs) (advance bs l) a w = Inr (b, l1, a1, w1)"
    and tail: "rx_tail_agree a a1" by (auto simp: wire_tlv_def)
  note ag = rx_deliver_agree [OF assms(1) Cons.prems(1) d]
  from Cons.IH [of w1 l1 a1] ag Cons.prems(2)
  obtain l2 a2 w2 where "rx_items c p ts l1 a1 w1 = Inr (l2, a2, w2)" "rx_tail_agree a1 a2"
    "rx_agree a1 a2" "inv w2" by auto
  with d ag tail show ?case
    by (cases b) (auto simp: t rx_tail_agree_def intro: rx_agree_trans)
qed

lemma rx_mandatory:
  assumes "lldp_head c = mods" "inv w" and ok: "ok = malloc_ok (core_env c)"
    and "rx_core_tlv ok (wire_tlv 1 cid) (advance cid l) a = Inr (False, True, l1, a1)"
    and "rx_core_tlv ok (wire_tlv 2 pid) (advance pid l1) a1 = Inr (False, True, l3, a2)"
    and "rx_core_tlv ok (wire_tlv 3 ttl) (advance ttl l3) a2 = Inr (False, True, l4, a3)"
  shows "rx_items c p ((1, cid) # (2, pid) # (3, ttl) # ts) l a w = rx_items c p ts l4 a3 w"
proof -
  have "rx_deliver c p (wire_tlv ty bs) (advance bs l') a' w = Inr (True, l'', a'', w)"
    if "rx_core_tlv ok (wire_tlv ty bs) (advance bs l') a' = Inr (False, True, l'', a'')"
      "ty \<in> {1, 2, 3}" for ty bs l' a' l'' a''
    using that ok by (intro rx_deliver_core [OF assms(1,2)]) (auto simp: wire_tlv_def)
  with assms(4-6) show ?thesis by simp
qed

end

text \<open>
  What the three mandatory TLVs do, for the first neighbour, for the neighbour already known,
  and for another one while there is room for one only.
\<close>

definition set_ttl :: "u16 \<Rightarrow> lldp_agent \<Rightarrow> lldp_agent" where
  "set_ttl ttl a = timers_update (\<lambda>t. t\<lparr>rxTTL := ttl, lastrxTTL := ttl\<rparr>) a"

definition crowd :: "u16 \<Rightarrow> lldp_agent \<Rightarrow> lldp_agent" where
  "crowd ttl a = timers_update (\<lambda>t. t\<lparr>tooManyNghbrsTimer := max ttl (tooManyNghbrsTimer t)\<rparr>) a"

definition admit :: "bytes \<Rightarrow> bytes \<Rightarrow> u16 \<Rightarrow> lldp_agent \<Rightarrow> lldp_agent" where
  "admit cid pid ttl a =
     (if msap1 (msap_info a) = None
      then (if tooManyNghbrs (rx a) then crowd ttl else set_ttl ttl)
             (a\<lparr>msap_info := \<lparr>length1 = of_nat (length cid), msap1 = Some cid,
                             length2 = of_nat (length pid), msap2 = Some pid\<rparr>,
                rx := (rx a)\<lparr>newNeighbor := True\<rparr>\<rparr>)
      else if msap1 (msap_info a) = Some cid \<and> msap2 (msap_info a) = Some pid then set_ttl ttl a
      else crowd ttl (a\<lparr>rx := (rx a)\<lparr>tooManyNghbrs := True, newNeighbor := True\<rparr>\<rparr>))"

definition msap_wf :: "msap \<Rightarrow> bool" where
  "msap_wf m \<longleftrightarrow> (case (msap1 m, msap2 m) of
       (None, None) \<Rightarrow> True
     | (Some x, Some y) \<Rightarrow> length x < 512 \<and> length1 m = of_nat (length x)
         \<and> length y < 512 \<and> length2 m = of_nat (length y)
     | _ \<Rightarrow> False)"

lemma of_nat_u16_eq: "m < 512 \<Longrightarrow> n < 512 \<Longrightarrow> (of_nat m :: u16) = of_nat n \<longleftrightarrow> m = n"
  by (simp add: word_unat_eq_iff unat_of_nat)

lemma mem_same_iff:
  assumes "length x < 512" "length y < 512"
  shows "(of_nat (length x) :: u16) = of_nat (length y) \<and> mem_same (unat (of_nat (length x) :: u16)) (Some x) y
     \<longleftrightarrow> y = x"
  using assms by (auto simp: of_nat_u16_eq mem_same_def unat_of_nat)

lemma rx_core_mandatory:
  assumes ok: "\<And>n. n < 512 \<Longrightarrow> ok n"
    and "lldpdu a = 0" "length cid < 512" "length pid < 512" "msap_wf (msap_info a)"
    and l: "\<not> l_msap_compare_1 l" "\<not> l_msap_compare_2 l" "\<not> l_good_neighbor l"
  shows "\<exists>l1 a1 l3 a2 l4 a3.
      rx_core_tlv ok (wire_tlv 1 cid) (advance cid l) a = Inr (False, True, l1, a1)
    \<and> rx_core_tlv ok (wire_tlv 2 pid) (advance pid l1) a1 = Inr (False, True, l3, a2)
    \<and> rx_core_tlv ok (wire_tlv 3 [h, lo]) (advance [h, lo] l3) a2 = Inr (False, True, l4, a3)
    \<and> rx_tail_agree (admit cid pid (be16 h lo) a) a3 \<and> l_frame_error l4 = l_frame_error l"
proof -
  have okc: "ok (unat (of_nat (length cid) :: u16))" "ok (unat (of_nat (length pid) :: u16))"
    using assms by (simp_all add: unat_of_nat)
  note defs = rx_core_tlv_def rx_chassis_def rx_portid_def rx_ttl_def wire_tlv_def advance_def
    store_tlv_def Let_def admit_def set_ttl_def crowd_def rx_tail_agree_def read_be16_def
  show ?thesis
  proof (cases "msap1 (msap_info a)")
    case None
    then have "msap2 (msap_info a) = None" using assms(5) by (auto simp: msap_wf_def split: option.splits)
    with None show ?thesis using assms(2) l okc by (simp add: defs)
  next
    case (Some x)
    then obtain y where y: "msap2 (msap_info a) = Some y" "length x < 512" "length y < 512"
        "length1 (msap_info a) = of_nat (length x)" "length2 (msap_info a) = of_nat (length y)"
      using assms(5) by (auto simp: msap_wf_def split: option.splits)
    note m = mem_same_iff [OF assms(3) y(2)] mem_same_iff [OF assms(4) y(3)]
    show ?thesis using Some y assms(2) l okc m by (cases "x = cid"; cases "y = pid") (auto simp: defs)
  qed
qed

context lldp_rx_modules
begin

text \<open>Processing a well-formed frame, from the assertion to the clearing of the manifest.\<close>

lemma rxProcessFrame_wf:
  assumes c: "lldp_head c = mods" "\<And>n. n < 512 \<Longrightarrow> malloc_ok (core_env c) n" and w: "inv w"
    and buf: "framein (rx a) = Some (hdr @ tlv_concat ((1, cid) # (2, pid) # (3, [h, lo]) # ts) @ [0, 0] @ rest)"
      "length hdr = ETH_HLEN"
    and sz: "unat (sizein (rx a)) = length (hdr @ tlv_concat ((1, cid) # (2, pid) # (3, [h, lo]) # ts) @ [0, 0] @ rest)"
      "rx_sized a"
    and ts: "length cid < 512" "length pid < 512" "lldpdu_order 3 ts"
      "\<forall>(ty, bs) \<in> set ts. accepts (wire_tlv ty bs) \<or> ty \<noteq> ORG_SPECIFIC_TLV"
    and m: "msap_wf (msap_info a)"
  shows "\<exists>p' a' w'. rxProcessFrame c p a w = Some (Inr (p', a', w')) \<and> inv w'
     \<and> rx_tail_agree (admit cid pid (be16 h lo) a) a'
     \<and> p' = p\<lparr>l2 := (l2 p)\<lparr>remote_mac_addr := take ETH_ALEN (drop ETH_ALEN hdr)\<rparr>\<rparr>
     \<and> framein (rx a') = framein (rx a) \<and> sizein (rx a') = sizein (rx a) \<and> manifest (rx a') = None
     \<and> rxstate (rx a') = rxstate (rx a) \<and> rcvFrame (rx a') = rcvFrame (rx a)
     \<and> rxInfoAge (rx a') = rxInfoAge (rx a) \<and> adminStatus a' = adminStatus a"
proof -
  let ?ts = "(1, cid) # (2, pid) # (3, [h, lo]) # ts"
  let ?buf = "hdr @ tlv_concat ?ts @ [0, 0] @ rest"
  define a1 where "a1 = a\<lparr>lldpdu := 0, rx := (rx a)\<lparr>dupTlvs := 0, dcbx_st := 0,
      manifest := Some empty_manifest\<rparr>\<rparr>"
  define p1 where "p1 = p\<lparr>l2 := (l2 p)\<lparr>remote_mac_addr := take ETH_ALEN (drop ETH_ALEN hdr)\<rparr>\<rparr>"
  have peer: "get_remote_peer_mac_addr p a1 = Inr p1"
    using buf by (simp add: get_remote_peer_mac_addr_def a1_def p1_def read_bytes_def)
  have three: "lldpdu_order (Suc (Suc (Suc 0))) ts" using ts(3) by (simp add: numeral_3_eq_3)
  then have ordr: "lldpdu_order 0 ?ts" using ts by simp
  have loop: "rx_tlv_loop c p1 init_locals a1 w = Some (rx_items c p1 (?ts @ [(0, [])]) init_locals a1 w)"
    using c w buf sz ordr
    by (intro rx_tlv_loop_items [where pre = hdr and n = 0 and rest = rest])
      (simp_all add: a1_def init_locals_def rx_sized_def del: tlv_concat.simps lldpdu_order.simps)
  obtain l1 b1 l3 b2 l4 b3 where core:
      "rx_core_tlv (malloc_ok (core_env c)) (wire_tlv 1 cid) (advance cid init_locals) a1 = Inr (False, True, l1, b1)"
      "rx_core_tlv (malloc_ok (core_env c)) (wire_tlv 2 pid) (advance pid l1) b1 = Inr (False, True, l3, b2)"
      "rx_core_tlv (malloc_ok (core_env c)) (wire_tlv 3 [h, lo]) (advance [h, lo] l3) b2 = Inr (False, True, l4, b3)"
    and tail: "rx_tail_agree (admit cid pid (be16 h lo) a1) b3"
    using rx_core_mandatory [of "malloc_ok (core_env c)" a1 cid pid init_locals h lo] c(2) ts m
    by (auto simp: a1_def init_locals_def)
  have "rx_agree a1 b3"
    using core [THEN rx_core_tlv_agree] rx_agree_trans by blast
  moreover have "\<forall>(ty, bs) \<in> set (ts @ [(0, [])]). ty \<notin> {1, 2, 3} \<and> (accepts (wire_tlv ty bs) \<or> ty \<noteq> ORG_SPECIFIC_TLV)"
    using ts(4) lldpdu_order_tail [OF three] by auto
  from rx_items_tail [OF c(1) w this, of p1 l4 b3]
  obtain l5 b4 w4 where items: "rx_items c p1 (ts @ [(0, [])]) l4 b3 w = Inr (l5, b4, w4)"
    and b4: "rx_tail_agree b3 b4" "rx_agree b3 b4" "inv w4" by auto
  ultimately have ag: "rx_agree a1 b4" using rx_agree_trans by blast
  have res: "rx_tlv_loop c p1 init_locals a1 w = Some (Inr (l5, b4, w4))"
    using loop rx_mandatory [OF c(1) w refl core, of p1 "ts @ [(0, [])]"] items by simp
  have man: "manifest (rx b4) \<noteq> None" using rx_agree_fields(12) [OF ag] by (simp add: a1_def)
  define a' where "a' = rx_update (\<lambda>r. r\<lparr>manifest := None\<rparr>) ((rx_discard l5 b4)\<lparr>lldpdu := 0\<rparr>)"
  have "clear_manifest ((rx_discard l5 b4)\<lparr>lldpdu := 0\<rparr>) = Inr a'"
    using man by (auto simp: clear_manifest_def rx_discard_def a'_def)
  moreover have "malloc_ok (core_env c) sizeof_rxmanifest" using c(2) by simp
  moreover have "sizein (rx a) \<noteq> 0" using sz(1) buf(2) by auto
  ultimately have "rxProcessFrame c p a w = Some (Inr (p1, a', w4))"
    using buf(1) peer res by (simp add: rxProcessFrame_def Let_def a1_def comp_def)
  moreover have "rx_tail_agree (admit cid pid (be16 h lo) a) a'"
    using tail b4(1) by (auto simp: rx_tail_agree_def a'_def rx_discard_def a1_def admit_def set_ttl_def
        crowd_def)
  ultimately show ?thesis
    using b4(3) rx_agree_fields [OF ag] by (auto simp: a'_def rx_discard_def a1_def p1_def)
qed

end

end
