(* ===== verification/Rx_Machine.thy ===== *)
theory Rx_Machine
  imports Rx_Walk
begin

text \<open>
  The receive state machine (\<open>run_rx_sm\<close> of \<open>src/lldp/rx.c\<close>): none of its assertions fails,
  every run returns in a state without an enabled transition, and what a run does with a
  shutdown frame and with aged information.
\<close>

subsection \<open>Transitions\<close>

definition rx_next :: "port \<Rightarrow> lldp_agent \<Rightarrow> bool \<times> rx_state" where
  "rx_next p a =
     (let st = (if \<not> rxInfoAge (rx a) \<and> \<not> portEnabled p then LLDP_WAIT_PORT_OPERATIONAL else rxstate (rx a))
      in case st of
          LLDP_WAIT_PORT_OPERATIONAL \<Rightarrow>
            if rxInfoAge (rx a) then (True, DELETE_AGED_INFO)
            else if portEnabled p then (True, RX_LLDP_INITIALIZE) else (False, st)
        | DELETE_AGED_INFO \<Rightarrow> (True, LLDP_WAIT_PORT_OPERATIONAL)
        | RX_LLDP_INITIALIZE \<Rightarrow> if rx_admin_on a then (True, RX_WAIT_FOR_FRAME) else (False, st)
        | RX_WAIT_FOR_FRAME \<Rightarrow>
            if rx_admin_off a then (True, RX_LLDP_INITIALIZE)
            else if rxInfoAge (rx a) then (True, DELETE_INFO)
            else if rcvFrame (rx a) then (True, RX_FRAME) else (False, st)
        | RX_FRAME \<Rightarrow> (True, if rxTTL (timers a) = 0 then DELETE_INFO
            else if rxChanges a then UPDATE_INFO else RX_WAIT_FOR_FRAME)
        | DELETE_INFO \<Rightarrow> (True, RX_WAIT_FOR_FRAME)
        | UPDATE_INFO \<Rightarrow> (True, RX_WAIT_FOR_FRAME))"

abbreviation set_rxstate :: "rx_state \<Rightarrow> lldp_agent \<Rightarrow> lldp_agent" where
  "set_rxstate s a \<equiv> rx_update (\<lambda>r. r\<lparr>rxstate := s\<rparr>) a"

lemma set_rx_state_next:
  "set_rx_state p a = Inr (fst (rx_next p a), set_rxstate (snd (rx_next p a)) a)"
  by (cases "rxstate (rx a)"; cases "\<not> rxInfoAge (rx a) \<and> \<not> portEnabled p")
    (auto simp: rx_sm_defs rx_next_def comp_def)

lemma rx_admin_exclusive: "rx_admin_off a \<Longrightarrow> \<not> rx_admin_on a"
  by (auto simp: rx_admin_on_def rx_admin_off_def)

subsection \<open>Frame of the actions\<close>

definition rx_acted :: "lldp_agent \<Rightarrow> lldp_agent \<Rightarrow> bool" where
  "rx_acted a a1 \<longleftrightarrow> adminStatus a1 = adminStatus a \<and> rxstate (rx a1) = rxstate (rx a)
     \<and> rcvFrame (rx a1) = (rcvFrame (rx a) \<and> rxstate (rx a) \<notin> {RX_LLDP_INITIALIZE, RX_FRAME})
     \<and> rxInfoAge (rx a1) = (rxInfoAge (rx a)
          \<and> rxstate (rx a) \<notin> {DELETE_AGED_INFO, RX_LLDP_INITIALIZE, RX_WAIT_FOR_FRAME})
     \<and> (rx_sized a \<longrightarrow> rx_sized a1) \<and> mac_addr a1 = mac_addr a \<and> agenttype a1 = agenttype a
     \<and> tx_clock a1 = tx_clock a \<and> txstate (tx a1) = txstate (tx a) \<and> txNow (tx a1) = txNow (tx a)"

lemma get_remote_peer_mac_addr_port:
  "get_remote_peer_mac_addr p a = Inr p' \<Longrightarrow> \<exists>m. p' = p\<lparr>l2 := (l2 p)\<lparr>remote_mac_addr := m\<rparr>\<rparr>"
  by (auto simp: get_remote_peer_mac_addr_def elim!: bindR_InrE)

definition same_port :: "port \<Rightarrow> port \<Rightarrow> bool" where
  "same_port p p' \<longleftrightarrow> (\<exists>m. p' = p\<lparr>l2 := (l2 p)\<lparr>remote_mac_addr := m\<rparr>\<rparr>)"

lemma same_port_refl [simp]: "same_port p p"
  unfolding same_port_def by (rule exI [of _ "remote_mac_addr (l2 p)"]) simp

lemma same_port_trans: "same_port p q \<Longrightarrow> same_port q r \<Longrightarrow> same_port p r"
  by (auto simp: same_port_def)

lemma same_port_fields:
  "same_port p p' \<Longrightarrow> portEnabled p' = portEnabled p \<and> agent_head p' = agent_head p
     \<and> ifname p' = ifname p \<and> ifindex p' = ifindex p \<and> prevPortEnabled p' = prevPortEnabled p"
  by (auto simp: same_port_def)

definition rx_kept :: "lldp_agent \<Rightarrow> lldp_agent \<Rightarrow> bool" where
  "rx_kept a a' \<longleftrightarrow> adminStatus a' = adminStatus a \<and> (rx_sized a \<longrightarrow> rx_sized a')
     \<and> mac_addr a' = mac_addr a \<and> agenttype a' = agenttype a \<and> tx_clock a' = tx_clock a
     \<and> txstate (tx a') = txstate (tx a) \<and> txNow (tx a') = txNow (tx a)"

context lldp_modules
begin

lemma mibdelete_modules_agree:
  assumes "set nps \<subseteq> set mods" "inv w"
  shows "\<exists>a' w'. mibdelete_modules p nps a w = Inr (a', w') \<and> mod_agree a a' \<and> inv w'"
  using assms
proof (induction nps arbitrary: a w)
  case (Cons np nps)
  show ?case
  proof (cases "Option.bind (mod_ops np) lldp_mod_mibdelete")
    case None
    with Cons show ?thesis by simp
  next
    case (Some f)
    then obtain ops where ops: "mod_ops np = Some ops" "lldp_mod_mibdelete ops = Some f"
      by (auto simp: bind_eq_Some_conv)
    obtain a1 w1 where f: "f p a w = Inr (a1, w1)" "mod_agree a a1" "inv w1"
      using mibdelete_ok [OF _ ops, of w p a] Cons.prems by auto
    with Cons.IH [of w1 a1] Cons.prems Some mod_agree_trans show ?thesis by auto
  qed
qed simp

lemma mibDeleteObjects_ok:
  assumes "lldp_head c = mods" "inv w"
  shows "\<exists>a' w'. mibDeleteObjects c p a w = Inr (clear_msap a', w') \<and> mod_agree a a' \<and> inv w'"
  using mibdelete_modules_agree [OF order_refl assms(2), of p a] assms(1)
  by (auto simp: mibDeleteObjects_def)

lemma rxProcessFrame_frame:
  assumes "lldp_head c = mods" "inv w" "rx_sized a"
  shows "(\<exists>e. rxProcessFrame c p a w = Some (Inl e))
    \<or> (\<exists>p' a' w'. rxProcessFrame c p a w = Some (Inr (p', a', w')) \<and> inv w' \<and> same_port p p'
        \<and> framein (rx a') = framein (rx a) \<and> sizein (rx a') = sizein (rx a)
        \<and> rxstate (rx a') = rxstate (rx a) \<and> rcvFrame (rx a') = rcvFrame (rx a)
        \<and> rxInfoAge (rx a') = rxInfoAge (rx a) \<and> adminStatus a' = adminStatus a
        \<and> mac_addr a' = mac_addr a \<and> agenttype a' = agenttype a \<and> tx_clock a' = tx_clock a
        \<and> txstate (tx a') = txstate (tx a) \<and> txNow (tx a') = txNow (tx a))"
proof (cases "framein (rx a) = None \<or> sizein (rx a) = 0 \<or> \<not> malloc_ok (core_env c) sizeof_rxmanifest")
  case True
  then show ?thesis using assms(2) by (auto simp: rxProcessFrame_def Let_def tx_clock_def)
next
  case False
  define a1 where "a1 = a\<lparr>lldpdu := 0, rx := (rx a)\<lparr>dupTlvs := 0, dcbx_st := 0,
      manifest := Some empty_manifest\<rparr>\<rparr>"
  show ?thesis
  proof (cases "get_remote_peer_mac_addr p a1")
    case (Inl e)
    with False show ?thesis by (auto simp: rxProcessFrame_def Let_def a1_def comp_def)
  next
    case (Inr p1)
    have "rx_sized a1" using assms(3) by (simp add: rx_sized_def a1_def)
    from rx_tlv_loop_rule [OF assms(1,2) this, of "\<lambda>_ _ _. True" init_locals p1]
    consider e where "rx_tlv_loop c p1 init_locals a1 w = Some (Inl e)"
      | l b w' where "rx_tlv_loop c p1 init_locals a1 w = Some (Inr (l, b, w'))" "rx_agree a1 b" "inv w'"
      by auto
    then show ?thesis
    proof cases
      case 1
      with Inr False show ?thesis by (auto simp: rxProcessFrame_def Let_def a1_def comp_def)
    next
      case 2
      have "manifest (rx b) \<noteq> None" using rx_agree_fields(12) [OF 2(2)] by (simp add: a1_def)
      then have "clear_manifest ((rx_discard l b)\<lparr>lldpdu := 0\<rparr>)
          = Inr (rx_update (\<lambda>r. r\<lparr>manifest := None\<rparr>) ((rx_discard l b)\<lparr>lldpdu := 0\<rparr>))"
        by (auto simp: clear_manifest_def rx_discard_def)
      moreover have "same_port p p1"
        using get_remote_peer_mac_addr_port [OF Inr] by (simp add: same_port_def)
      ultimately show ?thesis
        using Inr False 2 rx_agree_fields [OF 2(2)]
        by (auto simp: rxProcessFrame_def Let_def a1_def comp_def rx_discard_def tx_clock_def)
    qed
  qed
qed

lemma rx_action_frame:
  assumes "lldp_head c = mods" "inv w" "rx_sized a"
  shows "(\<exists>e. rx_action c p a w = Some (Inl e) \<and> rxstate (rx a) = RX_FRAME)
    \<or> (\<exists>p1 a1 w1. rx_action c p a w = Some (Inr (p1, a1, w1)) \<and> inv w1 \<and> same_port p p1 \<and> rx_acted a a1)"
proof (cases "rxstate (rx a)")
  case RX_FRAME
  let ?a = "a\<lparr>rx := (rx a)\<lparr>remoteChange := False, rcvFrame := False\<rparr>, rxChanges := False\<rparr>"
  have "rx_sized ?a" using assms(3) by (simp add: rx_sized_def)
  from rxProcessFrame_frame [OF assms(1,2) this, of p] RX_FRAME show ?thesis
    by (auto simp: rx_action_def process_rx_frame_def rx_acted_def rx_sized_def tx_clock_def)
next
  case DELETE_AGED_INFO
  obtain a' w' where "mibDeleteObjects c p a w = Inr (clear_msap a', w')" "mod_agree a a'" "inv w'"
    using mibDeleteObjects_ok [OF assms(1,2)] by blast
  with DELETE_AGED_INFO show ?thesis
    by (simp add: rx_action_def process_delete_aged_info_def rx_acted_def clear_msap_def
        mod_agree_fields rx_sized_def tx_clock_def)
next
  case DELETE_INFO
  obtain a' w' where "mibDeleteObjects c p a w = Inr (clear_msap a', w')" "mod_agree a a'" "inv w'"
    using mibDeleteObjects_ok [OF assms(1,2)] by blast
  with DELETE_INFO show ?thesis
    by (simp add: rx_action_def process_delete_info_def rx_acted_def clear_msap_def
        mod_agree_fields rx_sized_def tx_clock_def)
next
  case RX_LLDP_INITIALIZE
  let ?a = "rx_update (\<lambda>r. r\<lparr>rcvFrame := False, badFrame := False, tooManyNghbrs := False,
      rxInfoAge := False, framein := None, sizein := 0\<rparr>) a"
  obtain a' w' where "mibDeleteObjects c p ?a w = Inr (clear_msap a', w')" "mod_agree ?a a'" "inv w'"
    using mibDeleteObjects_ok [OF assms(1,2)] by blast
  with RX_LLDP_INITIALIZE show ?thesis
    by (simp add: rx_action_def process_rx_lldp_initialize_def rxInitializeLLDP_def rx_acted_def
        clear_msap_def mod_agree_fields rx_sized_def tx_clock_def)
qed (use assms(2) in \<open>simp_all add: rx_action_def rx_acted_def process_wait_for_frame_def
    process_update_info_def rx_sized_def tx_clock_def\<close>)

end

subsection \<open>The loop returns\<close>

fun rx_rank_of :: "bool \<Rightarrow> rx_state \<Rightarrow> bool \<Rightarrow> bool \<Rightarrow> nat" where
  "rx_rank_of off LLDP_WAIT_PORT_OPERATIONAL rcv age = (if age then 7 else 5)"
| "rx_rank_of off DELETE_AGED_INFO rcv age = 6"
| "rx_rank_of off RX_LLDP_INITIALIZE rcv age = 4"
| "rx_rank_of off RX_WAIT_FOR_FRAME rcv age = (if off then 5 else if rcv then 4 else 1)"
| "rx_rank_of off RX_FRAME rcv age = (if off then 7 else 3)"
| "rx_rank_of off DELETE_INFO rcv age = (if off then 6 else if rcv then 5 else 2)"
| "rx_rank_of off UPDATE_INFO rcv age = (if off then 6 else if rcv then 5 else 2)"

definition rx_rank :: "lldp_agent \<Rightarrow> nat" where
  "rx_rank a = rx_rank_of (rx_admin_off a) (rxstate (rx a)) (rcvFrame (rx a)) (rxInfoAge (rx a))"

lemma rx_round_rank:
  assumes "rx_acted a a1" and "fst (rx_next p a1)"
  shows "rx_rank (set_rxstate (snd (rx_next p a1)) a1) < rx_rank a"
proof -
  have on: "rx_admin_on (set_rxstate s a1) = rx_admin_on a" "rx_admin_off (set_rxstate s a1) = rx_admin_off a"
    "rx_admin_on a1 = rx_admin_on a" "rx_admin_off a1 = rx_admin_off a" for s
    using assms(1) by (simp_all add: rx_admin_on_def rx_admin_off_def rx_acted_def)
  show ?thesis
    using assms rx_admin_exclusive [of a]
    by (cases "rxstate (rx a)")
      (auto simp: rx_next_def rx_rank_def rx_acted_def on Let_def split: if_splits)
qed

lemma rx_next_stop:
  "\<not> fst (rx_next p a) \<Longrightarrow> fst (rx_next p (set_rxstate (snd (rx_next p a)) a)) = False"
  by (cases "rxstate (rx a)"; auto simp: rx_next_def Let_def rx_admin_on_def rx_admin_off_def split: if_splits)

lemma rx_next_stop_state:
  "\<not> fst (rx_next p a) \<Longrightarrow> snd (rx_next p (set_rxstate (snd (rx_next p a)) a)) = snd (rx_next p a)"
  by (cases "rxstate (rx a)"; auto simp: rx_next_def Let_def rx_admin_on_def rx_admin_off_def split: if_splits)

text \<open>
  Between two calls a received frame is pending only while the port is down.  Under this
  condition a run does not process a frame, and so does not fault.
\<close>

definition rx_quiet :: "lldp_agent \<Rightarrow> bool" where
  "rx_quiet a \<longleftrightarrow> (rcvFrame (rx a) \<longrightarrow> rxstate (rx a) = LLDP_WAIT_PORT_OPERATIONAL)
     \<and> rxstate (rx a) \<in> {LLDP_WAIT_PORT_OPERATIONAL, RX_LLDP_INITIALIZE, RX_WAIT_FOR_FRAME}"

definition rx_no_frame :: "lldp_agent \<Rightarrow> bool" where
  "rx_no_frame a \<longleftrightarrow> rxstate (rx a) \<noteq> RX_FRAME \<and> (rcvFrame (rx a) \<longrightarrow>
     rxstate (rx a) \<in> {LLDP_WAIT_PORT_OPERATIONAL, DELETE_AGED_INFO, RX_LLDP_INITIALIZE})"

lemma rx_quiet_start: "rx_quiet a \<Longrightarrow> rx_no_frame (set_rxstate (snd (rx_next p a)) a)"
  by (cases "rxstate (rx a)") (auto simp: rx_quiet_def rx_no_frame_def rx_next_def)

lemma rx_stop_quiet: "rx_acted a a1 \<Longrightarrow> rx_next p a1 = (False, s) \<Longrightarrow> rx_quiet (set_rxstate s a1)"
  by (cases "rxstate (rx a)") (auto simp: rx_acted_def rx_next_def rx_quiet_def Let_def split: if_splits)

lemma rx_kept_acted: "rx_kept a b \<Longrightarrow> rx_acted b b1 \<Longrightarrow> rx_kept a (set_rxstate s b1)"
  by (auto simp: rx_acted_def rx_kept_def tx_clock_def rx_sized_def)

lemma rx_quiet_step:
  assumes "rx_no_frame a" "rx_acted a a1" "rx_next p a1 = (b, s)"
  shows "if b then rx_no_frame (set_rxstate s a1) else rx_quiet (set_rxstate s a1)"
  using assms by (cases "rxstate (rx a)")
    (auto simp: rx_no_frame_def rx_acted_def rx_next_def rx_quiet_def split: if_splits)

context lldp_modules
begin

text \<open>
  The rule for the loop: \<open>I\<close> is kept by a round that asks for another one, \<open>R\<close> holds after the
  last round.
\<close>

lemma rx_loop_rule_final:
  assumes "lldp_head c = mods" "inv w" "rx_sized a" "I p a w"
    and step: "\<And>p a w p1 a1 w1 b s. I p a w \<Longrightarrow> inv w \<Longrightarrow> rx_sized a \<Longrightarrow>
      rx_action c p a w = Some (Inr (p1, a1, w1)) \<Longrightarrow> rx_acted a a1 \<Longrightarrow> same_port p p1 \<Longrightarrow> rx_next p1 a1 = (b, s) \<Longrightarrow>
      (if b then I p1 (set_rxstate s a1) w1 else R p1 (set_rxstate s a1) w1)"
  shows "(\<exists>e p0 a0 w0. rx_loop c p a w = Some (Inl e) \<and> I p0 a0 w0 \<and> rxstate (rx a0) = RX_FRAME
            \<and> rx_action c p0 a0 w0 = Some (Inl e))
    \<or> (\<exists>p' a' w'. rx_loop c p a w = Some (Inr (p', a', w')) \<and> R p' a' w' \<and> inv w' \<and> rx_sized a'
          \<and> same_port p p' \<and> \<not> fst (rx_next p' a') \<and> snd (rx_next p' a') = rxstate (rx a'))"
  using assms(2-4)
proof (induction "rx_rank a" arbitrary: p a w rule: less_induct)
  case less
  from rx_action_frame [OF assms(1) less.prems(1,2), of p]
  consider e where "rx_action c p a w = Some (Inl e)" "rxstate (rx a) = RX_FRAME"
    | p1 a1 w1 where "rx_action c p a w = Some (Inr (p1, a1, w1))" "inv w1" "same_port p p1" "rx_acted a a1"
    by blast
  then show ?case
  proof cases
    case 1
    then have "rx_loop c p a w = Some (Inl e)" by (subst rx_loop.simps) simp
    with 1 less.prems show ?thesis by blast
  next
    case 2
    obtain b s where nxt: "rx_next p1 a1 = (b, s)" by fastforce
    let ?a2 = "set_rxstate s a1"
    note IR = step [OF less.prems(3,1,2) 2(1,4,3) nxt]
    have sz: "rx_sized ?a2" using 2(4) less.prems(2) by (simp add: rx_acted_def rx_sized_def)
    show ?thesis
    proof (cases b)
      case True
      then have "rx_loop c p a w = rx_loop c p1 ?a2 w1"
        using 2(1) by (subst rx_loop.simps) (simp add: set_rx_state_next nxt)
      moreover have "rx_rank ?a2 < rx_rank a" using rx_round_rank [OF 2(4), of p1] True by (simp add: nxt)
      moreover have "I p1 ?a2 w1" using IR True by simp
      ultimately show ?thesis using less.hyps [OF _ 2(2) sz] same_port_trans [OF 2(3)] by fastforce
    next
      case False
      then have "rx_loop c p a w = Some (Inr (p1, ?a2, w1))"
        using 2(1) by (subst rx_loop.simps) (simp add: set_rx_state_next nxt)
      with IR sz 2 False rx_next_stop [of p1 a1] rx_next_stop_state [of p1 a1] show ?thesis by (simp add: nxt)
    qed
  qed
qed

lemma rx_loop_rule:
  assumes "lldp_head c = mods" "inv w" "rx_sized a" "I p a w"
    and step: "\<And>p a w p1 a1 w1. I p a w \<Longrightarrow> inv w \<Longrightarrow> rx_sized a \<Longrightarrow>
      rx_action c p a w = Some (Inr (p1, a1, w1)) \<Longrightarrow> I p1 (set_rxstate (snd (rx_next p1 a1)) a1) w1"
  shows "(\<exists>e p0 a0 w0. rx_loop c p a w = Some (Inl e) \<and> I p0 a0 w0 \<and> rxstate (rx a0) = RX_FRAME
            \<and> rx_action c p0 a0 w0 = Some (Inl e))
    \<or> (\<exists>p' a' w'. rx_loop c p a w = Some (Inr (p', a', w')) \<and> I p' a' w' \<and> inv w' \<and> rx_sized a'
          \<and> same_port p p' \<and> \<not> fst (rx_next p' a') \<and> snd (rx_next p' a') = rxstate (rx a'))"
  using assms(4) by (rule rx_loop_rule_final [OF assms(1-3)]) (metis step snd_conv)

lemma run_rx_sm_loop: "run_rx_sm c p a w = rx_loop c p (set_rxstate (snd (rx_next p a)) a) w"
  by (simp add: run_rx_sm_def set_rx_state_next)

text \<open>
  Every run returns, and unless the processing of a received frame faults it ends in a state
  from which no transition is enabled, with the transmit side untouched.
\<close>

lemma run_rx_sm_stable:
  assumes "lldp_head c = mods" "inv w" "rx_sized a"
  shows "(\<exists>e. run_rx_sm c p a w = Some (Inl e))
    \<or> (\<exists>p' a' w'. run_rx_sm c p a w = Some (Inr (p', a', w')) \<and> inv w' \<and> same_port p p'
         \<and> set_rx_state p' a' = Inr (False, a') \<and> rx_kept a a')"
proof -
  let ?a = "set_rxstate (snd (rx_next p a)) a"
  have "rx_sized ?a" "rx_kept a ?a" using assms(3) by (simp_all add: rx_sized_def rx_kept_def tx_clock_def)
  moreover have "rx_kept a (set_rxstate (snd (rx_next p2 a2)) a2)"
    if "rx_kept a a1" "inv w1" "rx_sized a1" "rx_action c p1 a1 w1 = Some (Inr (p2, a2, w2))" for p1 a1 w1 p2 a2 w2
    using rx_action_frame [OF assms(1) that(2,3), of p1] that(1,4)
    by (auto simp: rx_acted_def rx_kept_def tx_clock_def rx_sized_def)
  ultimately consider e where "rx_loop c p ?a w = Some (Inl e)"
    | p' a' w' where "rx_loop c p ?a w = Some (Inr (p', a', w'))" "rx_kept a a'" "inv w'" "same_port p p'"
        "\<not> fst (rx_next p' a')" "snd (rx_next p' a') = rxstate (rx a')"
    using rx_loop_rule [OF assms(1,2), of ?a "\<lambda>_ b _. rx_kept a b" p] by blast
  then show ?thesis
    unfolding run_rx_sm_loop by cases (auto simp: set_rx_state_next)
qed

text \<open>Whatever the start, a run that returns without a fault ends in such a state.\<close>

lemma run_rx_sm_ends:
  assumes "lldp_head c = mods" "inv w" "rx_sized a"
  shows "(\<exists>e. run_rx_sm c p a w = Some (Inl e))
    \<or> (\<exists>p' a' w'. run_rx_sm c p a w = Some (Inr (p', a', w')) \<and> inv w' \<and> same_port p p'
         \<and> rx_quiet a' \<and> rx_kept a a' \<and> rx_sized a')"
proof -
  let ?a = "set_rxstate (snd (rx_next p a)) a"
  have sz: "rx_sized ?a" and start: "rx_kept a ?a"
    using assms(3) by (simp_all add: rx_sized_def rx_kept_def tx_clock_def)
  have "(\<exists>e p0 a0 w0. rx_loop c p ?a w = Some (Inl e) \<and> rx_kept a a0
            \<and> rxstate (rx a0) = RX_FRAME \<and> rx_action c p0 a0 w0 = Some (Inl e))
    \<or> (\<exists>p' a' w'. rx_loop c p ?a w = Some (Inr (p', a', w')) \<and> (rx_quiet a' \<and> rx_kept a a') \<and> inv w'
          \<and> rx_sized a' \<and> same_port p p' \<and> \<not> fst (rx_next p' a') \<and> snd (rx_next p' a') = rxstate (rx a'))"
    using start
  proof (rule rx_loop_rule_final [OF assms(1,2) sz])
    fix q d v q1 d1 v1 b s
    assume "rx_kept a d" "rx_acted d d1" "rx_next q1 d1 = (b, s)"
    then show "if b then rx_kept a (set_rxstate s d1)
        else rx_quiet (set_rxstate s d1) \<and> rx_kept a (set_rxstate s d1)"
      using rx_stop_quiet [of d d1 q1 s] rx_kept_acted by auto
  qed
  then show ?thesis unfolding run_rx_sm_loop by auto
qed

lemma run_rx_sm_quiet:
  assumes "lldp_head c = mods" "inv w" "rx_sized a" "rx_quiet a"
  shows "\<exists>p' a' w'. run_rx_sm c p a w = Some (Inr (p', a', w')) \<and> inv w' \<and> same_port p p'
     \<and> rx_quiet a' \<and> rx_kept a a' \<and> rx_sized a'"
proof -
  let ?a = "set_rxstate (snd (rx_next p a)) a"
  have sz: "rx_sized ?a" using assms(3) by (simp add: rx_sized_def)
  have start: "rx_no_frame ?a \<and> rx_kept a ?a"
    using rx_quiet_start [OF assms(4)] by (simp add: rx_kept_def rx_sized_def tx_clock_def)
  have "(\<exists>e p0 a0 w0. rx_loop c p ?a w = Some (Inl e) \<and> (rx_no_frame a0 \<and> rx_kept a a0)
            \<and> rxstate (rx a0) = RX_FRAME \<and> rx_action c p0 a0 w0 = Some (Inl e))
    \<or> (\<exists>p' a' w'. rx_loop c p ?a w = Some (Inr (p', a', w')) \<and> (rx_quiet a' \<and> rx_kept a a') \<and> inv w'
          \<and> rx_sized a' \<and> same_port p p' \<and> \<not> fst (rx_next p' a') \<and> snd (rx_next p' a') = rxstate (rx a'))"
    using start
  proof (rule rx_loop_rule_final [OF assms(1,2) sz])
    fix q d v q1 d1 v1 b s
    assume "rx_no_frame d \<and> rx_kept a d" "rx_acted d d1" "rx_next q1 d1 = (b, s)"
    then show "if b then rx_no_frame (set_rxstate s d1) \<and> rx_kept a (set_rxstate s d1)
        else rx_quiet (set_rxstate s d1) \<and> rx_kept a (set_rxstate s d1)"
      using rx_quiet_step [of d d1 q1 b s] rx_kept_acted [of a d d1 s] by (cases b) simp_all
  qed
  then show ?thesis unfolding run_rx_sm_loop by (auto simp: rx_no_frame_def)
qed

end

subsection \<open>Deleting, updating and waiting\<close>

lemma rx_loop_wait:
  assumes "rxstate (rx a) = RX_WAIT_FOR_FRAME" "portEnabled p" "rx_admin_on a" "\<not> rcvFrame (rx a)"
  shows "rx_loop c p a w = Some (Inr (p, process_wait_for_frame a, w))"
proof -
  have off: "\<not> rx_admin_off a" using rx_admin_exclusive assms(3) by blast
  then have "rx_next p (process_wait_for_frame a) = (False, RX_WAIT_FOR_FRAME)"
    using assms by (simp add: rx_next_def process_wait_for_frame_def rx_admin_off_def)
  moreover have "set_rxstate RX_WAIT_FOR_FRAME (process_wait_for_frame a) = process_wait_for_frame a"
    using assms(1) by (simp add: process_wait_for_frame_def)
  ultimately show ?thesis
    using assms(1) by (subst rx_loop.simps) (simp add: rx_action_def set_rx_state_next)
qed

text \<open>The state of an agent whose remote information has been deleted.\<close>

definition forgotten :: "lldp_agent \<Rightarrow> bool" where
  "forgotten a \<longleftrightarrow> rxstate (rx a) = RX_WAIT_FOR_FRAME \<and> framein (rx a) = None \<and> sizein (rx a) = 0
     \<and> msap_info a = \<lparr>length1 = 0, msap1 = None, length2 = 0, msap2 = None\<rparr>
     \<and> remoteChange (rx a) \<and> \<not> rxInfoAge (rx a) \<and> \<not> rcvFrame (rx a)"

context lldp_modules
begin

lemma rx_loop_delete:
  assumes "lldp_head c = mods" "inv w" "rxstate (rx a) = DELETE_INFO" "portEnabled p" "rx_admin_on a"
    "\<not> rcvFrame (rx a)"
  shows "\<exists>a' w'. rx_loop c p a w = Some (Inr (p, a', w')) \<and> forgotten a' \<and> timers a' = timers a \<and> inv w'"
proof -
  obtain b w' where b: "mibDeleteObjects c p a w = Inr (clear_msap b, w')" "mod_agree a b" "inv w'"
    using mibDeleteObjects_ok [OF assms(1,2)] by blast
  let ?b = "rx_update (\<lambda>r. r\<lparr>framein := None, sizein := 0, remoteChange := True\<rparr>) (clear_msap b)"
  have f: "rxstate (rx ?b) = DELETE_INFO" "\<not> rcvFrame (rx ?b)" "adminStatus ?b = adminStatus a"
    using mod_agree_fields [OF b(2)] assms by (simp_all add: clear_msap_def)
  then have nxt: "rx_next p ?b = (True, RX_WAIT_FOR_FRAME)" using assms(4) by (simp add: rx_next_def)
  have "rx_loop c p a w = rx_loop c p (set_rxstate RX_WAIT_FOR_FRAME ?b) w'"
    using assms(3) b(1) nxt
    by (subst rx_loop.simps) (simp add: rx_action_def process_delete_info_def set_rx_state_next comp_def)
  also have "\<dots> = Some (Inr (p, process_wait_for_frame (set_rxstate RX_WAIT_FOR_FRAME ?b), w'))"
    using f assms(4,5) by (intro rx_loop_wait) (simp_all add: rx_admin_on_def)
  finally show ?thesis
    using b f mod_agree_fields(4,11) [OF b(2)]
    by (simp add: forgotten_def process_wait_for_frame_def clear_msap_def)
qed

text \<open>Aged information is deleted.\<close>

lemma run_rx_sm_aged:
  assumes "lldp_head c = mods" "inv w" "rxstate (rx a) = RX_WAIT_FOR_FRAME" "portEnabled p" "rx_admin_on a"
    "\<not> rcvFrame (rx a)" "rxInfoAge (rx a)"
  shows "\<exists>a' w'. run_rx_sm c p a w = Some (Inr (p, a', w')) \<and> forgotten a' \<and> timers a' = timers a \<and> inv w'"
proof -
  have "snd (rx_next p a) = DELETE_INFO"
    using assms rx_admin_exclusive [of a] by (auto simp: rx_next_def)
  then show ?thesis
    unfolding run_rx_sm_loop
    using rx_loop_delete [OF assms(1,2), of "set_rxstate DELETE_INFO a" p] assms
    by (simp add: rx_admin_on_def)
qed

end

context lldp_rx_modules
begin

text \<open>
  A well-formed frame with time to live 0 from the known neighbour, or from the first one,
  deletes the remote information; with another time to live the machine waits again and the
  neighbour is alive for that time.
\<close>

lemma run_rx_sm_frame:
  assumes c: "lldp_head c = mods" "\<And>n. n < 512 \<Longrightarrow> malloc_ok (core_env c) n" and w: "inv w"
    and st: "rxstate (rx a) = RX_WAIT_FOR_FRAME" "portEnabled p" "rx_admin_on a" "rcvFrame (rx a)"
      "\<not> rxInfoAge (rx a)"
    and buf: "framein (rx a) = Some (hdr @ tlv_concat ((1, cid) # (2, pid) # (3, [h, lo]) # ts) @ [0, 0] @ rest)"
      "length hdr = ETH_HLEN"
    and sz: "unat (sizein (rx a)) = length (hdr @ tlv_concat ((1, cid) # (2, pid) # (3, [h, lo]) # ts) @ [0, 0] @ rest)"
      "rx_sized a"
    and ts: "length cid < 512" "length pid < 512" "lldpdu_order 3 ts"
      "\<forall>(ty, bs) \<in> set ts. accepts (wire_tlv ty bs) \<or> ty \<noteq> ORG_SPECIFIC_TLV"
    and m: "msap_wf (msap_info a)"
    and known: "msap1 (msap_info a) = None \<and> \<not> tooManyNghbrs (rx a)
      \<or> msap1 (msap_info a) = Some cid \<and> msap2 (msap_info a) = Some pid"
  shows "\<exists>p' a' w'. run_rx_sm c p a w = Some (Inr (p', a', w')) \<and> inv w' \<and> same_port p p'
     \<and> rxTTL (timers a') = be16 h lo
     \<and> (if be16 h lo = 0 then forgotten a'
        else rxstate (rx a') = RX_WAIT_FOR_FRAME \<and> \<not> rcvFrame (rx a') \<and> framein (rx a') = framein (rx a)
          \<and> msap1 (msap_info a') = Some cid \<and> msap2 (msap_info a') = Some pid)"
proof -
  let ?a = "set_rxstate RX_FRAME a"
  let ?b = "a\<lparr>rx := (rx a)\<lparr>rxstate := RX_FRAME, remoteChange := False, rcvFrame := False\<rparr>, rxChanges := False\<rparr>"
  have off: "\<not> rx_admin_off a" using st(3) rx_admin_exclusive by blast
  have start: "run_rx_sm c p a w = rx_loop c p ?a w"
    using st off by (simp add: run_rx_sm_loop rx_next_def)
  obtain p1 a1 w1 where pf: "rxProcessFrame c p ?b w = Some (Inr (p1, a1, w1))" and w1: "inv w1"
    and tail: "rx_tail_agree (admit cid pid (be16 h lo) ?b) a1"
    and p1: "p1 = p\<lparr>l2 := (l2 p)\<lparr>remote_mac_addr := take ETH_ALEN (drop ETH_ALEN hdr)\<rparr>\<rparr>"
    and a1: "framein (rx a1) = framein (rx a)" "rxstate (rx a1) = RX_FRAME" "\<not> rcvFrame (rx a1)"
      "\<not> rxInfoAge (rx a1)" "adminStatus a1 = adminStatus a"
    using rxProcessFrame_wf [OF c w, of ?b hdr cid pid h lo ts rest p] buf sz ts m st
    by (auto simp: rx_sized_def)
  have sp: "same_port p p1" and en: "portEnabled p1" using p1 st(2) by (auto simp: same_port_def)
  have ttl: "rxTTL (timers a1) = be16 h lo" "msap1 (msap_info a1) = Some cid" "msap2 (msap_info a1) = Some pid"
    using tail known by (auto simp: rx_tail_agree_def admit_def set_ttl_def)
  define s where "s = (if be16 h lo = 0 then DELETE_INFO else if rxChanges a1 then UPDATE_INFO else RX_WAIT_FOR_FRAME)"
  have "rx_next p1 a1 = (True, s)" using a1 en ttl by (simp add: rx_next_def s_def)
  then have one: "run_rx_sm c p a w = rx_loop c p1 (set_rxstate s a1) w1"
    unfolding start using pf
    by (subst rx_loop.simps) (simp add: rx_action_def process_rx_frame_def set_rx_state_next comp_def)
  have on: "rx_admin_on a1" using st(3) a1 by (simp add: rx_admin_on_def)
  show ?thesis
  proof (cases "be16 h lo = 0")
    case True
    with rx_loop_delete [OF c(1) w1, of "set_rxstate s a1" p1] one a1 en on sp ttl show ?thesis
      by (auto simp: s_def rx_admin_on_def)
  next
    case False
    define d where "d = (if s = UPDATE_INFO then rx_update (\<lambda>r. r\<lparr>remoteChange := True\<rparr>) a1 else a1)"
    have "run_rx_sm c p a w = rx_loop c p1 (set_rxstate RX_WAIT_FOR_FRAME d) w1"
    proof (cases "s = UPDATE_INFO")
      case True
      then have "rx_next p1 (process_update_info (set_rxstate UPDATE_INFO a1)) = (True, RX_WAIT_FOR_FRAME)"
        using en by (simp add: rx_next_def process_update_info_def)
      with True show ?thesis
        unfolding one by (subst rx_loop.simps)
          (simp add: rx_action_def set_rx_state_next d_def process_update_info_def comp_def)
    qed (use False one in \<open>auto simp: s_def d_def split: if_splits\<close>)
    also have "\<dots> = Some (Inr (p1, process_wait_for_frame (set_rxstate RX_WAIT_FOR_FRAME d), w1))"
      using a1 en on by (intro rx_loop_wait) (simp_all add: d_def rx_admin_on_def)
    finally show ?thesis
      using False w1 sp ttl a1 by (simp add: process_wait_for_frame_def d_def)
  qed
qed

end

subsection \<open>Ageing\<close>

lemma update_rx_timers_ttl:
  "rxTTL (timers (update_rx_timers a)) = (if rxTTL (timers a) = 0 then 0 else rxTTL (timers a) - 1)"
  "rxInfoAge (rx (update_rx_timers a)) = (rxInfoAge (rx a) \<or> rxTTL (timers a) = 1)"
  by (auto simp: update_rx_timers_def Let_def)

lemma update_rx_timers_iter:
  "unat (rxTTL (timers ((update_rx_timers ^^ n) a))) = unat (rxTTL (timers a)) - n
   \<and> rxInfoAge (rx ((update_rx_timers ^^ n) a))
      = (rxInfoAge (rx a) \<or> 0 < rxTTL (timers a) \<and> unat (rxTTL (timers a)) \<le> n)"
proof (induction n)
  case 0
  show ?case by (simp add: word_gt_0 unat_eq_0)
next
  case (Suc n)
  let ?t = "rxTTL (timers ((update_rx_timers ^^ n) a))"
  have one: "?t = 1 \<longleftrightarrow> unat (rxTTL (timers a)) = Suc n"
    using Suc.IH by (auto simp: word_unat_eq_iff)
  have "unat (if ?t = 0 then 0 else ?t - 1) = unat (rxTTL (timers a)) - Suc n"
    using Suc.IH by (auto simp: unat_dec)
  then show ?case
    using Suc.IH one by (auto simp: update_rx_timers_ttl word_gt_0 unat_eq_0 le_Suc_eq)
qed

lemma update_rx_timers_frame:
  "rxstate (rx (update_rx_timers a)) = rxstate (rx a)" "rcvFrame (rx (update_rx_timers a)) = rcvFrame (rx a)"
  "framein (rx (update_rx_timers a)) = framein (rx a)" "sizein (rx (update_rx_timers a)) = sizein (rx a)"
  "adminStatus (update_rx_timers a) = adminStatus a" "tx (update_rx_timers a) = tx a"
  "msap_info (update_rx_timers a) = msap_info a" "newNeighbor (rx (update_rx_timers a)) = newNeighbor (rx a)"
  "agenttype (update_rx_timers a) = agenttype a" "mac_addr (update_rx_timers a) = mac_addr a"
  by (simp_all add: update_rx_timers_def Let_def)

subsection \<open>Frames that are refused\<close>

lemma ucast_u8_eq_1: "(1 :: u16) = ucast (x :: u8) \<longleftrightarrow> x = 1"
proof
  assume "(1 :: u16) = ucast x"
  then have "ucast (ucast x :: u16) = (1 :: u8)" by (metis unsigned_1)
  then show "x = 1" by (simp add: unsigned_ucast_eq take_bit_word_eq_self)
qed simp

lemma rx_tlv_not_chassis:
  assumes "l_tlv_cnt l = 0" "l_tlv_offset l \<le> sizein (rx a)" "framein (rx a) = Some buf"
    and "read_be16 buf (unat (l_tlv_offset l)) = Inr head" "ucast (drop_bit 9 head) \<noteq> (1 :: u8)"
  shows "rx_tlv c p l a w = Inr (False, l_error (l\<lparr>l_tlv_cnt := 1\<rparr>), a, w)"
  using assms by (simp add: rx_tlv_def Let_def ucast_u8_eq_1 not_less)

lemma rxProcessFrame_not_chassis:
  assumes "framein (rx a) = Some buf" "unat (sizein (rx a)) = length buf" "16 \<le> length buf"
    and "malloc_ok (core_env c) 64" "read_be16 buf ETH_HLEN = Inr head" "ucast (drop_bit 9 head) \<noteq> (1 :: u8)"
  shows "\<exists>p' a'. rxProcessFrame c p a w = Some (Inr (p', a', w)) \<and> badFrame (rx a')
     \<and> statsFramesDiscardedTotal (stats a') = statsFramesDiscardedTotal (stats a) + 1
     \<and> statsFramesInErrorsTotal (stats a') = statsFramesInErrorsTotal (stats a) + 1
     \<and> msap_info a' = msap_info a \<and> timers a' = timers a \<and> manifest (rx a') = None"
proof -
  let ?a = "a\<lparr>lldpdu := 0, rx := (rx a)\<lparr>dupTlvs := 0, dcbx_st := 0, manifest := Some empty_manifest\<rparr>\<rparr>"
  have "sizein (rx a) \<noteq> 0" using assms(2,3) by auto
  moreover have "14 \<le> sizein (rx a)" using assms(2,3) by (simp add: word_le_nat_alt)
  then have "rx_tlv c q init_locals ?a w = Inr (False, l_error (init_locals\<lparr>l_tlv_cnt := 1\<rparr>), ?a, w)" for q
    using assms by (intro rx_tlv_not_chassis [where buf = buf and head = head]) (simp_all add: init_locals_def)
  then have "rx_tlv_loop c q init_locals ?a w = Some (Inr (l_error (init_locals\<lparr>l_tlv_cnt := 1\<rparr>), ?a, w))" for q
    by (simp add: rx_tlv_loop.simps)
  moreover have "get_remote_peer_mac_addr p ?a = Inr (p\<lparr>l2 := (l2 p)\<lparr>remote_mac_addr := take 6 (drop 6 buf)\<rparr>\<rparr>)"
    using assms(1,3) by (simp add: get_remote_peer_mac_addr_def read_bytes_def)
  ultimately show ?thesis
    using assms(1,4) by (simp add: rxProcessFrame_def Let_def comp_def clear_manifest_def rx_discard_def l_error_def init_locals_def)
qed

lemma rxProcessFrame_header_only:
  assumes "framein (rx a) = Some buf" "unat (sizein (rx a)) = length buf" "length buf = 14 \<or> length buf = 15"
    and "malloc_ok (core_env c) 64"
  shows "rxProcessFrame c p a w = Some (Inl Out_Of_Bounds)"
proof -
  let ?a = "a\<lparr>lldpdu := 0, rx := (rx a)\<lparr>dupTlvs := 0, dcbx_st := 0, manifest := Some empty_manifest\<rparr>\<rparr>"
  have "sizein (rx a) \<noteq> 0" using assms(2,3) by auto
  moreover have "14 \<le> sizein (rx a)" using assms(2,3) by (auto simp: word_le_nat_alt)
  then have "rx_tlv c q init_locals ?a w = Inl Out_Of_Bounds" for q
    using assms(1,3) by (auto simp: rx_tlv_def Let_def not_less init_locals_def read_be16_def)
  then have "rx_tlv_loop c q init_locals ?a w = Some (Inl Out_Of_Bounds)" for q
    by (simp add: rx_tlv_loop.simps)
  moreover have "get_remote_peer_mac_addr p ?a = Inr (p\<lparr>l2 := (l2 p)\<lparr>remote_mac_addr := take 6 (drop 6 buf)\<rparr>\<rparr>)"
    using assms(1,3) by (auto simp: get_remote_peer_mac_addr_def read_bytes_def)
  ultimately show ?thesis
    using assms(1,4) by (simp add: rxProcessFrame_def Let_def comp_def)
qed

end
