(* ===== verification/Eloop.thy ===== *)
theory Eloop
  imports Prelude "HOL-Library.Multiset"
begin

text \<open>
  The event loop, \<open>src/eloop.c\<close>: the ordered list of timeouts, the tables of sockets, the
  signals, and one round of \<open>eloop_run\<close>.  A handler is a name of type \<open>'h\<close>; what it does when
  called, to the loop and to the rest of the program (of type \<open>'s\<close>), is a parameter of the
  operations that call handlers.  The clock and \<open>select\<close> are parameters as well.
\<close>

subsection \<open>Time\<close>

datatype os_time = OS_Time (sec: int) (usec: int)

definition os_time_before :: "os_time \<Rightarrow> os_time \<Rightarrow> bool" where
  "os_time_before a b \<longleftrightarrow> sec a < sec b \<or> sec a = sec b \<and> usec a < usec b"

definition os_time_sub :: "os_time \<Rightarrow> os_time \<Rightarrow> os_time" where
  "os_time_sub a b =
     (let s = sec a - sec b; u = usec a - usec b
      in if u < 0 then OS_Time (s - 1) (u + 1000000) else OS_Time s u)"

instantiation os_time :: linorder
begin

definition less_os_time :: "os_time \<Rightarrow> os_time \<Rightarrow> bool" where
  "less_os_time a b = os_time_before a b"

definition less_eq_os_time :: "os_time \<Rightarrow> os_time \<Rightarrow> bool" where
  "less_eq_os_time a b = (\<not> os_time_before b a)"

instance
proof
  fix x y z :: os_time
  show "x < y \<longleftrightarrow> x \<le> y \<and> \<not> y \<le> x"
    by (auto simp: less_os_time_def less_eq_os_time_def os_time_before_def)
  show "x \<le> x" by (simp add: less_eq_os_time_def os_time_before_def)
  show "x \<le> y \<Longrightarrow> y \<le> z \<Longrightarrow> x \<le> z"
    by (auto simp: less_eq_os_time_def os_time_before_def)
  show "x \<le> y \<Longrightarrow> y \<le> x \<Longrightarrow> x = y"
    by (cases x; cases y) (auto simp: less_eq_os_time_def os_time_before_def)
  show "x \<le> y \<or> y \<le> x"
    by (auto simp: less_eq_os_time_def os_time_before_def)
qed

end

text \<open>The loop that brings the microseconds below a million.\<close>

function norm_usec :: "int \<Rightarrow> int \<Rightarrow> os_time" where
  "norm_usec s u = (if u \<ge> 1000000 then norm_usec (s + 1) (u - 1000000) else OS_Time s u)"
  by pat_completeness auto

termination norm_usec
  by (relation "measure (\<lambda>(s, u). nat u)") auto

declare norm_usec.simps [simp del]

subsection \<open>State\<close>

type_synonym ptr = nat

abbreviation (input) ELOOP_ALL_CTX :: ptr where "ELOOP_ALL_CTX \<equiv> 2 ^ 64 - 1"

datatype eloop_event_type = EVENT_TYPE_READ | EVENT_TYPE_WRITE | EVENT_TYPE_EXCEPTION

record 'h eloop_sock =
  es_sock :: int
  es_eloop_data :: ptr
  es_user_data :: ptr
  es_handler :: 'h

record 'h eloop_timeout =
  et_time :: os_time
  et_eloop_data :: ptr
  et_user_data :: ptr
  et_handler :: 'h

record 'h eloop_signal =
  sg_sig :: int
  sg_user_data :: ptr
  sg_handler :: 'h
  sg_signaled :: nat

text \<open>
  \<open>table\<close> is the allocated block: \<open>realloc\<close> gives it one entry more than \<open>sock_count\<close>, and removal
  leaves its size alone.
\<close>

record 'h eloop_sock_table =
  sock_count :: nat
  table :: "'h eloop_sock list"
  changed :: bool

record 'h eloop_data =
  user_data :: ptr
  max_sock :: int
  readers :: "'h eloop_sock_table"
  writers :: "'h eloop_sock_table"
  exceptions :: "'h eloop_sock_table"
  timeout :: "'h eloop_timeout list"
  signals :: "'h eloop_signal list"
  signaled :: nat
  pending_terminate :: bool
  terminate :: bool

abbreviation (input) SIGHUP :: int where "SIGHUP \<equiv> 1"
abbreviation (input) SIGINT :: int where "SIGINT \<equiv> 2"
abbreviation (input) SIGTERM :: int where "SIGTERM \<equiv> 15"
abbreviation (input) ENOMEM :: int where "ENOMEM \<equiv> 12"

abbreviation (input) sizeof_eloop_sock :: nat where "sizeof_eloop_sock \<equiv> 32"
abbreviation (input) sizeof_eloop_timeout :: nat where "sizeof_eloop_timeout \<equiv> 48"
abbreviation (input) sizeof_eloop_signal :: nat where "sizeof_eloop_signal \<equiv> 32"

definition empty_table :: "'h eloop_sock_table" where
  "empty_table = \<lparr>sock_count = 0, table = [], changed = False\<rparr>"

definition eloop_init :: "ptr \<Rightarrow> 'h eloop_data" where
  "eloop_init ud = \<lparr>user_data = ud, max_sock = 0, readers = empty_table, writers = empty_table,
     exceptions = empty_table, timeout = [], signals = [], signaled = 0,
     pending_terminate = False, terminate = False\<rparr>"

subsection \<open>Sockets\<close>

definition eloop_get_sock_table :: "'h eloop_data \<Rightarrow> eloop_event_type \<Rightarrow> 'h eloop_sock_table" where
  "eloop_get_sock_table e ty = (case ty of EVENT_TYPE_READ \<Rightarrow> readers e
     | EVENT_TYPE_WRITE \<Rightarrow> writers e | EVENT_TYPE_EXCEPTION \<Rightarrow> exceptions e)"

definition put_sock_table :: "eloop_event_type \<Rightarrow> 'h eloop_sock_table \<Rightarrow> 'h eloop_data \<Rightarrow> 'h eloop_data" where
  "put_sock_table ty t e = (case ty of EVENT_TYPE_READ \<Rightarrow> e\<lparr>readers := t\<rparr>
     | EVENT_TYPE_WRITE \<Rightarrow> e\<lparr>writers := t\<rparr> | EVENT_TYPE_EXCEPTION \<Rightarrow> e\<lparr>exceptions := t\<rparr>)"

definition eloop_sock_table_add_sock ::
  "(nat \<Rightarrow> bool) \<Rightarrow> 'h eloop_sock_table \<Rightarrow> int \<Rightarrow> 'h \<Rightarrow> ptr \<Rightarrow> ptr \<Rightarrow> (int \<times> 'h eloop_sock_table)" where
  "eloop_sock_table_add_sock ok t s h ed ud =
     (if \<not> ok ((sock_count t + 1) * sizeof_eloop_sock) then (- ENOMEM, t)
      else (0, \<lparr>sock_count = sock_count t + 1, table = take (sock_count t) (table t)
                  @ [\<lparr>es_sock = s, es_eloop_data = ed, es_user_data = ud, es_handler = h\<rparr>],
                changed = True\<rparr>))"

fun find_sock :: "int \<Rightarrow> 'h eloop_sock list \<Rightarrow> nat" where
  "find_sock s [] = 0"
| "find_sock s (x # xs) = (if es_sock x = s then 0 else Suc (find_sock s xs))"

definition eloop_sock_table_remove_sock :: "'h eloop_sock_table \<Rightarrow> int \<Rightarrow> 'h eloop_sock_table" where
  "eloop_sock_table_remove_sock t s =
     (if table t = [] \<or> sock_count t = 0 then t
      else let i = find_sock s (take (sock_count t) (table t)) in
        if i = sock_count t then t
        else \<lparr>sock_count = sock_count t - 1,
              table = (if i \<noteq> sock_count t - 1
                then take i (table t) @ take (sock_count t - i - 1) (drop (i + 1) (table t))
                       @ drop (sock_count t - 1) (table t)
                else table t),
              changed = True\<rparr>)"

definition eloop_sock_table_set_fds :: "'h eloop_sock_table \<Rightarrow> int set" where
  "eloop_sock_table_set_fds t = es_sock ` set (take (sock_count t) (table t))"

text \<open>
  Dispatch: \<open>call\<close> is the effect of a socket handler.  The table is read again in every round,
  since the handler may have changed it.
\<close>

partial_function (option) dispatch_loop ::
  "('h \<Rightarrow> int \<Rightarrow> ptr \<Rightarrow> ptr \<Rightarrow> 'h eloop_data \<times> 's \<Rightarrow> 'h eloop_data \<times> 's) \<Rightarrow> eloop_event_type \<Rightarrow> int set \<Rightarrow> nat \<Rightarrow>
   'h eloop_data \<times> 's \<Rightarrow> ('h eloop_data \<times> 's) res option" where
  "dispatch_loop call ty fds i st =
     (let t = eloop_get_sock_table (fst st) ty in
      if i < sock_count t
      then (if i < length (table t)
            then (let x = table t ! i in
                  if es_sock x \<in> fds
                  then (let st' = call (es_handler x) (es_sock x) (es_eloop_data x) (es_user_data x) st in
                        if changed (eloop_get_sock_table (fst st') ty) then Some (Inr st')
                        else dispatch_loop call ty fds (Suc i) st')
                  else dispatch_loop call ty fds (Suc i) st)
            else Some (Inl Out_Of_Bounds))
      else Some (Inr st))"

definition eloop_sock_table_dispatch ::
  "('h \<Rightarrow> int \<Rightarrow> ptr \<Rightarrow> ptr \<Rightarrow> 'h eloop_data \<times> 's \<Rightarrow> 'h eloop_data \<times> 's) \<Rightarrow> eloop_event_type \<Rightarrow> int set \<Rightarrow>
   'h eloop_data \<times> 's \<Rightarrow> ('h eloop_data \<times> 's) res option" where
  "eloop_sock_table_dispatch call ty fds st =
     (let t = eloop_get_sock_table (fst st) ty in
      if table t = [] then Some (Inr st)
      else dispatch_loop call ty fds 0 (put_sock_table ty (t\<lparr>changed := False\<rparr>) (fst st), snd st))"

text \<open>The sockets closed when a table is destroyed.\<close>

fun destroy_loop :: "'h eloop_sock list \<Rightarrow> nat \<Rightarrow> int list res" where
  "destroy_loop xs 0 = Inr []"
| "destroy_loop xs (Suc tc) =
     (if Suc tc < length xs
      then bindR (destroy_loop xs tc) (\<lambda>cs. Inr (es_sock (xs ! Suc tc) # cs))
      else Inl Out_Of_Bounds)"

definition eloop_sock_table_destroy :: "'h eloop_sock_table \<Rightarrow> int list res" where
  "eloop_sock_table_destroy t = destroy_loop (table t) (sock_count t)"

definition eloop_register_sock :: "(nat \<Rightarrow> bool) \<Rightarrow> int \<Rightarrow> eloop_event_type \<Rightarrow> 'h \<Rightarrow> ptr \<Rightarrow> ptr \<Rightarrow>
    'h eloop_data \<Rightarrow> int \<times> 'h eloop_data" where
  "eloop_register_sock ok s ty h ed ud e =
     (case eloop_sock_table_add_sock ok (eloop_get_sock_table e ty) s h ed ud of
        (rc, t) \<Rightarrow> (rc, if rc = 0 then (put_sock_table ty t e)\<lparr>max_sock := max (max_sock e) s\<rparr> else e))"

definition eloop_unregister_sock :: "int \<Rightarrow> eloop_event_type \<Rightarrow> 'h eloop_data \<Rightarrow> 'h eloop_data" where
  "eloop_unregister_sock s ty e =
     put_sock_table ty (eloop_sock_table_remove_sock (eloop_get_sock_table e ty) s) e"

definition eloop_register_read_sock :: "(nat \<Rightarrow> bool) \<Rightarrow> int \<Rightarrow> 'h \<Rightarrow> ptr \<Rightarrow> ptr \<Rightarrow>
    'h eloop_data \<Rightarrow> int \<times> 'h eloop_data" where
  "eloop_register_read_sock ok s h ed ud e = eloop_register_sock ok s EVENT_TYPE_READ h ed ud e"

definition eloop_unregister_read_sock :: "int \<Rightarrow> 'h eloop_data \<Rightarrow> 'h eloop_data" where
  "eloop_unregister_read_sock s e = eloop_unregister_sock s EVENT_TYPE_READ e"

subsection \<open>Timeouts\<close>

fun insert_timeout :: "'h eloop_timeout \<Rightarrow> 'h eloop_timeout list \<Rightarrow> 'h eloop_timeout list" where
  "insert_timeout t [] = [t]"
| "insert_timeout t (x # xs) =
     (if os_time_before (et_time t) (et_time x) then t # x # xs else x # insert_timeout t xs)"

definition eloop_register_timeout :: "(nat \<Rightarrow> bool) \<Rightarrow> os_time \<Rightarrow> nat \<Rightarrow> nat \<Rightarrow> 'h \<Rightarrow> ptr \<Rightarrow> ptr \<Rightarrow>
    'h eloop_data \<Rightarrow> int \<times> 'h eloop_data" where
  "eloop_register_timeout ok now secs usecs h ed ud e =
     (if \<not> ok sizeof_eloop_timeout then (- 1, e)
      else (0, e\<lparr>timeout := insert_timeout
        \<lparr>et_time = norm_usec (sec now + int secs) (usec now + int usecs),
         et_eloop_data = ed, et_user_data = ud, et_handler = h\<rparr> (timeout e)\<rparr>))"

definition timeout_matches :: "'h \<Rightarrow> ptr \<Rightarrow> ptr \<Rightarrow> 'h eloop_timeout \<Rightarrow> bool" where
  "timeout_matches h ed ud t \<longleftrightarrow> et_handler t = h
     \<and> (et_eloop_data t = ed \<or> ed = ELOOP_ALL_CTX) \<and> (et_user_data t = ud \<or> ud = ELOOP_ALL_CTX)"

fun cancel_timeouts :: "'h \<Rightarrow> ptr \<Rightarrow> ptr \<Rightarrow> 'h eloop_timeout list \<Rightarrow> int \<times> 'h eloop_timeout list" where
  "cancel_timeouts h ed ud [] = (0, [])"
| "cancel_timeouts h ed ud (t # ts) =
     (case cancel_timeouts h ed ud ts of (removed, ts') \<Rightarrow>
        if timeout_matches h ed ud t then (removed + 1, ts') else (removed, t # ts'))"

definition eloop_cancel_timeout :: "'h \<Rightarrow> ptr \<Rightarrow> ptr \<Rightarrow> 'h eloop_data \<Rightarrow> int \<times> 'h eloop_data" where
  "eloop_cancel_timeout h ed ud e =
     (case cancel_timeouts h ed ud (timeout e) of (removed, ts) \<Rightarrow> (removed, e\<lparr>timeout := ts\<rparr>))"

subsection \<open>Signals\<close>

fun mark_signal :: "int \<Rightarrow> 'h eloop_signal list \<Rightarrow> 'h eloop_signal list" where
  "mark_signal s [] = []"
| "mark_signal s (x # xs) =
     (if sg_sig x = s then x\<lparr>sg_signaled := sg_signaled x + 1\<rparr> # xs else x # mark_signal s xs)"

definition eloop_handle_signal :: "int \<Rightarrow> 'h eloop_data \<Rightarrow> 'h eloop_data" where
  "eloop_handle_signal s e = e\<lparr>
     pending_terminate := (pending_terminate e \<or> s = SIGINT \<or> s = SIGTERM),
     signaled := signaled e + 1, signals := mark_signal s (signals e)\<rparr>"

text \<open>The loop over the signals; the handler is called after its flag is cleared.\<close>

partial_function (option) signals_loop ::
  "('h \<Rightarrow> int \<Rightarrow> ptr \<Rightarrow> ptr \<Rightarrow> 'h eloop_data \<times> 's \<Rightarrow> 'h eloop_data \<times> 's) \<Rightarrow> nat \<Rightarrow>
   'h eloop_data \<times> 's \<Rightarrow> ('h eloop_data \<times> 's) option" where
  "signals_loop call i st =
     (let e = fst st in
      if i < length (signals e)
      then (let x = signals e ! i in
            if sg_signaled x \<noteq> 0
            then signals_loop call (Suc i) (call (sg_handler x) (sg_sig x) (user_data e) (sg_user_data x)
                   (e\<lparr>signals := (signals e)[i := x\<lparr>sg_signaled := 0\<rparr>]\<rparr>, snd st))
            else signals_loop call (Suc i) st)
      else Some st)"

definition eloop_process_pending_signals ::
  "('h \<Rightarrow> int \<Rightarrow> ptr \<Rightarrow> ptr \<Rightarrow> 'h eloop_data \<times> 's \<Rightarrow> 'h eloop_data \<times> 's) \<Rightarrow>
   'h eloop_data \<times> 's \<Rightarrow> ('h eloop_data \<times> 's) option" where
  "eloop_process_pending_signals call st =
     (if signaled (fst st) = 0 then Some st
      else signals_loop call 0 ((fst st)\<lparr>signaled := 0, pending_terminate := False\<rparr>, snd st))"

definition eloop_register_signal :: "(nat \<Rightarrow> bool) \<Rightarrow> int \<Rightarrow> 'h \<Rightarrow> ptr \<Rightarrow> 'h eloop_data \<Rightarrow> int \<times> 'h eloop_data" where
  "eloop_register_signal ok s h ud e =
     (if \<not> ok ((length (signals e) + 1) * sizeof_eloop_signal) then (- 1, e)
      else (0, e\<lparr>signals := signals e
        @ [\<lparr>sg_sig = s, sg_user_data = ud, sg_handler = h, sg_signaled = 0\<rparr>]\<rparr>))"

definition eloop_register_signal_terminate :: "(nat \<Rightarrow> bool) \<Rightarrow> 'h \<Rightarrow> ptr \<Rightarrow> 'h eloop_data \<Rightarrow> int \<times> 'h eloop_data" where
  "eloop_register_signal_terminate ok h ud e =
     (case eloop_register_signal ok SIGINT h ud e of (ret, e1) \<Rightarrow>
        if ret = 0 then eloop_register_signal ok SIGTERM h ud e1 else (ret, e1))"

definition eloop_register_signal_reconfig :: "(nat \<Rightarrow> bool) \<Rightarrow> 'h \<Rightarrow> ptr \<Rightarrow> 'h eloop_data \<Rightarrow> int \<times> 'h eloop_data" where
  "eloop_register_signal_reconfig ok h ud e = eloop_register_signal ok SIGHUP h ud e"

subsection \<open>The loop\<close>

text \<open>
  What the system answers in one round: the time before and after \<open>select\<close>, the outcome of
  \<open>select\<close> (its result, whether the error is one the loop survives, the ready sockets), and
  the signals delivered meanwhile.  The effects of the three kinds of handlers are the
  remaining parameters.
\<close>

record sys_round =
  now_before :: os_time
  now_after :: os_time
  sel_res :: int
  sel_fatal :: bool
  sel_ready :: "eloop_event_type \<Rightarrow> int set"
  sel_signals :: "int list"

record ('h, 's) handlers =
  on_timeout :: "'h \<Rightarrow> ptr \<Rightarrow> ptr \<Rightarrow> 'h eloop_data \<times> 's \<Rightarrow> 'h eloop_data \<times> 's"
  on_sock :: "'h \<Rightarrow> int \<Rightarrow> ptr \<Rightarrow> ptr \<Rightarrow> 'h eloop_data \<times> 's \<Rightarrow> 'h eloop_data \<times> 's"
  on_signal :: "'h \<Rightarrow> int \<Rightarrow> ptr \<Rightarrow> ptr \<Rightarrow> 'h eloop_data \<times> 's \<Rightarrow> 'h eloop_data \<times> 's"

definition eloop_live :: "'h eloop_data \<Rightarrow> bool" where
  "eloop_live e \<longleftrightarrow> \<not> terminate e \<and> (timeout e \<noteq> [] \<or> 0 < sock_count (readers e)
     \<or> 0 < sock_count (writers e) \<or> 0 < sock_count (exceptions e))"

text \<open>The time \<open>select\<close> may sleep; \<open>None\<close> is the null pointer, which waits for ever.\<close>

definition select_timeout :: "os_time \<Rightarrow> 'h eloop_data \<Rightarrow> os_time option" where
  "select_timeout now e = (case timeout e of [] \<Rightarrow> None
     | t # _ \<Rightarrow> Some (if os_time_before now (et_time t) then os_time_sub (et_time t) now else OS_Time 0 0))"

definition fire_timeout :: "('h, 's) handlers \<Rightarrow> os_time \<Rightarrow> 'h eloop_data \<times> 's \<Rightarrow> 'h eloop_data \<times> 's" where
  "fire_timeout hs now st = (case timeout (fst st) of [] \<Rightarrow> st
     | t # ts \<Rightarrow> if os_time_before now (et_time t) then st
         else on_timeout hs (et_handler t) (et_eloop_data t) (et_user_data t)
                ((fst st)\<lparr>timeout := ts\<rparr>, snd st))"

text \<open>
  One round of the loop of \<open>eloop_run\<close>.  The boolean says that the loop is left through the
  label \<open>out\<close>.
\<close>

definition eloop_round :: "('h, 's) handlers \<Rightarrow> sys_round \<Rightarrow> 'h eloop_data \<times> 's \<Rightarrow>
    (bool \<times> 'h eloop_data \<times> 's) res option" where
  "eloop_round hs r st0 =
     (let st = (fold eloop_handle_signal (sel_signals r) (fst st0), snd st0) in
      if sel_res r < 0 \<and> sel_fatal r then Some (Inr (True, st))
      else case eloop_process_pending_signals (on_signal hs) st of
        None \<Rightarrow> None
      | Some st1 \<Rightarrow>
          let st2 = fire_timeout hs (now_after r) st1 in
          if sel_res r \<le> 0 then Some (Inr (False, st2))
          else bindO (eloop_sock_table_dispatch (on_sock hs) EVENT_TYPE_READ (sel_ready r EVENT_TYPE_READ) st2) (\<lambda>st3.
               bindO (eloop_sock_table_dispatch (on_sock hs) EVENT_TYPE_WRITE (sel_ready r EVENT_TYPE_WRITE) st3) (\<lambda>st4.
               bindO (eloop_sock_table_dispatch (on_sock hs) EVENT_TYPE_EXCEPTION (sel_ready r EVENT_TYPE_EXCEPTION) st4) (\<lambda>st5.
                 Some (Inr (False, st5))))))"

definition eloop_terminate :: "'h eloop_data \<Rightarrow> 'h eloop_data" where
  "eloop_terminate e = e\<lparr>terminate := True\<rparr>"

definition eloop_destroy :: "'h eloop_data \<Rightarrow> int list res" where
  "eloop_destroy e = bindR (eloop_sock_table_destroy (readers e)) (\<lambda>rs.
     bindR (eloop_sock_table_destroy (writers e)) (\<lambda>ws.
     bindR (eloop_sock_table_destroy (exceptions e)) (\<lambda>xs. Inr (rs @ ws @ xs))))"

definition eloop_terminated :: "'h eloop_data \<Rightarrow> bool" where
  "eloop_terminated e = terminate e"

subsection \<open>Time arithmetic\<close>

definition usecs_of :: "os_time \<Rightarrow> int" where
  "usecs_of t = sec t * 1000000 + usec t"

definition time_norm :: "os_time \<Rightarrow> bool" where
  "time_norm t \<longleftrightarrow> 0 \<le> usec t \<and> usec t < 1000000"

lemma norm_usec_spec:
  "0 \<le> u \<Longrightarrow> time_norm (norm_usec s u) \<and> usecs_of (norm_usec s u) = s * 1000000 + u"
  by (induction s u rule: norm_usec.induct)
    (subst norm_usec.simps, auto simp: time_norm_def usecs_of_def norm_usec.simps)

lemma os_time_sub_spec:
  assumes "time_norm a" "time_norm b"
  shows "time_norm (os_time_sub a b)" "usecs_of (os_time_sub a b) = usecs_of a - usecs_of b"
  using assms by (auto simp: os_time_sub_def time_norm_def usecs_of_def Let_def)

lemma before_usecs:
  "time_norm a \<Longrightarrow> time_norm b \<Longrightarrow> os_time_before a b \<longleftrightarrow> usecs_of a < usecs_of b"
  by (auto simp: os_time_before_def time_norm_def usecs_of_def)

subsection \<open>The queue of timeouts\<close>

text \<open>
  What the loop relies on: the queue keeps every timeout until it is cancelled, and its first
  element is due no later than any other.
\<close>

locale timer_queue =
  fixes due :: "'t \<Rightarrow> os_time" and ins :: "'t \<Rightarrow> 't list \<Rightarrow> 't list"
    and del :: "('t \<Rightarrow> bool) \<Rightarrow> 't list \<Rightarrow> 't list" and ok :: "'t list \<Rightarrow> bool"
  assumes ok_empty: "ok []"
    and ok_ins: "ok q \<Longrightarrow> ok (ins t q)"
    and mset_ins: "mset (ins t q) = add_mset t (mset q)"
    and ok_del: "ok q \<Longrightarrow> ok (del P q)"
    and del_filter: "del P q = filter (\<lambda>t. \<not> P t) q"
    and ok_tail: "ok (t # q) \<Longrightarrow> ok q"
    and head_first: "ok (t # q) \<Longrightarrow> u \<in> set q \<Longrightarrow> due t \<le> due u"
begin

lemma ok_inserts: "ok q \<Longrightarrow> ok (fold ins ts q)"
  by (induction ts arbitrary: q) (simp_all add: ok_ins)

lemma set_ins: "set (ins t q) = insert t (set q)"
  by (metis mset_ins set_mset_add_mset_insert set_mset_mset)

lemma earliest: "ok (t # q) \<Longrightarrow> u \<in> set (t # q) \<Longrightarrow> due t \<le> due u"
  using head_first by auto

lemma ins_del: "\<not> (\<exists>u \<in> set q. P u) \<Longrightarrow> P t \<Longrightarrow> mset (del P (ins t q)) = mset q"
proof -
  assume *: "\<not> (\<exists>u \<in> set q. P u)" "P t"
  have "mset (del P (ins t q)) = filter_mset (\<lambda>u. \<not> P u) (mset (ins t q))"
    by (simp add: del_filter)
  also have "\<dots> = filter_mset (\<lambda>u. \<not> P u) (mset q)" using *(2) by (simp add: mset_ins)
  also have "\<dots> = mset q" using *(1) by (auto simp: filter_mset_eq_conv)
  finally show ?thesis .
qed

end

definition timeouts_sorted :: "'h eloop_timeout list \<Rightarrow> bool" where
  "timeouts_sorted ts \<longleftrightarrow> sorted (map et_time ts)"

lemma insert_timeout_split:
  "insert_timeout t ts = takeWhile (\<lambda>x. \<not> os_time_before (et_time t) (et_time x)) ts
     @ t # dropWhile (\<lambda>x. \<not> os_time_before (et_time t) (et_time x)) ts"
  by (induction ts) simp_all

lemma mset_insert_timeout: "mset (insert_timeout t ts) = add_mset t (mset ts)"
  by (induction ts) simp_all

lemma set_insert_timeout: "set (insert_timeout t ts) = insert t (set ts)"
  by (metis mset_insert_timeout set_mset_add_mset_insert set_mset_mset)

lemma insert_timeout_sorted: "timeouts_sorted ts \<Longrightarrow> timeouts_sorted (insert_timeout t ts)"
  by (induction ts)
    (auto simp: timeouts_sorted_def set_insert_timeout simp flip: less_os_time_def)

lemma cancel_timeouts_filter:
  "cancel_timeouts h ed ud ts = (int (length (filter (timeout_matches h ed ud) ts)),
     filter (\<lambda>t. \<not> timeout_matches h ed ud t) ts)"
  by (induction ts) auto

interpretation tq: timer_queue et_time insert_timeout "\<lambda>P. filter (\<lambda>t. \<not> P t)" timeouts_sorted
  by unfold_locales
    (auto simp: insert_timeout_sorted [unfolded timeouts_sorted_def] mset_insert_timeout
      timeouts_sorted_def sorted_filter)

subsection \<open>Socket tables\<close>

definition table_ok :: "'h eloop_sock_table \<Rightarrow> bool" where
  "table_ok t \<longleftrightarrow> sock_count t \<le> length (table t)"

definition socks :: "'h eloop_sock_table \<Rightarrow> 'h eloop_sock list" where
  "socks t = take (sock_count t) (table t)"

lemma length_socks: "table_ok t \<Longrightarrow> length (socks t) = sock_count t"
  by (simp add: table_ok_def socks_def)

fun remove_first :: "int \<Rightarrow> 'h eloop_sock list \<Rightarrow> 'h eloop_sock list" where
  "remove_first s [] = []"
| "remove_first s (x # xs) = (if es_sock x = s then xs else x # remove_first s xs)"

lemma find_sock_le: "find_sock s xs \<le> length xs"
  by (induction xs) simp_all

lemma find_sock_none: "find_sock s xs = length xs \<Longrightarrow> remove_first s xs = xs"
  by (induction xs) (auto split: if_splits)

lemma find_sock_some:
  "find_sock s xs < length xs \<Longrightarrow>
     remove_first s xs = take (find_sock s xs) xs @ drop (Suc (find_sock s xs)) xs"
  by (induction xs) (auto split: if_splits)

lemma add_sock_spec:
  assumes "table_ok t" "eloop_sock_table_add_sock ok t s h ed ud = (0, t')"
  shows "table_ok t'" "socks t' = socks t @ [\<lparr>es_sock = s, es_eloop_data = ed, es_user_data = ud, es_handler = h\<rparr>]"
    "changed t'"
  using assms by (auto simp: eloop_sock_table_add_sock_def table_ok_def socks_def split: if_splits)

lemma remove_sock_spec:
  assumes "table_ok t"
  shows "table_ok (eloop_sock_table_remove_sock t s)
    \<and> socks (eloop_sock_table_remove_sock t s) = remove_first s (socks t)"
proof (cases "sock_count t = 0")
  case True
  then show ?thesis using assms by (simp add: eloop_sock_table_remove_sock_def socks_def table_ok_def)
next
  case False
  define n where "n = sock_count t"
  define i where "i = find_sock s (take n (table t))"
  have len: "length (take n (table t)) = n" "n \<le> length (table t)" "table t \<noteq> []" "0 < n"
    using assms False by (auto simp: table_ok_def n_def)
  have "i \<le> n" using find_sock_le [of s "take n (table t)"] len by (simp add: i_def)
  show ?thesis
  proof (cases "i = n")
    case True
    then have "remove_first s (take n (table t)) = take n (table t)"
      using find_sock_none [of s "take n (table t)"] len by (simp add: i_def)
    with True assms False len show ?thesis
      by (simp add: eloop_sock_table_remove_sock_def socks_def table_ok_def flip: n_def i_def)
  next
    case False
    then have lt: "i < n" using \<open>i \<le> n\<close> by simp
    then have rm: "remove_first s (take n (table t)) = take i (table t) @ take (n - Suc i) (drop (Suc i) (table t))"
      using find_sock_some [of s "take n (table t)"] len by (simp add: i_def drop_take min_def)
    show ?thesis
      using lt len rm \<open>i \<noteq> n\<close>
      by (auto simp: eloop_sock_table_remove_sock_def socks_def table_ok_def Let_def simp flip: n_def i_def)
  qed
qed

subsection \<open>Invariant of the loop\<close>

definition table_bounded :: "int \<Rightarrow> 'h eloop_sock_table \<Rightarrow> bool" where
  "table_bounded m t \<longleftrightarrow> (\<forall>x \<in> set (socks t). es_sock x \<le> m)"

definition eloop_inv :: "'h eloop_data \<Rightarrow> bool" where
  "eloop_inv e \<longleftrightarrow> timeouts_sorted (timeout e)
     \<and> (\<forall>ty. table_ok (eloop_get_sock_table e ty) \<and> table_bounded (max_sock e) (eloop_get_sock_table e ty))"

lemma get_put_table [simp]:
  "eloop_get_sock_table (put_sock_table ty t e) ty' = (if ty' = ty then t else eloop_get_sock_table e ty')"
  "timeout (put_sock_table ty t e) = timeout e" "max_sock (put_sock_table ty t e) = max_sock e"
  "signals (put_sock_table ty t e) = signals e"
  by (cases ty; cases ty'; simp add: eloop_get_sock_table_def put_sock_table_def)+

lemma get_table_upd [simp]:
  "eloop_get_sock_table (e\<lparr>timeout := ts\<rparr>) ty = eloop_get_sock_table e ty"
  "eloop_get_sock_table (e\<lparr>signals := sg\<rparr>) ty = eloop_get_sock_table e ty"
  "eloop_get_sock_table (e\<lparr>signaled := n\<rparr>) ty = eloop_get_sock_table e ty"
  "eloop_get_sock_table (e\<lparr>pending_terminate := b\<rparr>) ty = eloop_get_sock_table e ty"
  "eloop_get_sock_table (e\<lparr>max_sock := m\<rparr>) ty = eloop_get_sock_table e ty"
  "eloop_get_sock_table (e\<lparr>terminate := b\<rparr>) ty = eloop_get_sock_table e ty"
  by (cases ty; simp add: eloop_get_sock_table_def)+

lemma remove_first_subset: "set (remove_first s xs) \<subseteq> set xs"
  by (induction xs) auto

lemma get_table_init [simp]: "eloop_get_sock_table (eloop_init ud) ty = empty_table"
  by (cases ty) (simp_all add: eloop_get_sock_table_def eloop_init_def)

lemma timeout_init [simp]: "timeout (eloop_init ud) = []"
  by (simp add: eloop_init_def)

lemma eloop_inv_init: "eloop_inv (eloop_init ud)"
  by (simp add: eloop_inv_def timeouts_sorted_def table_ok_def table_bounded_def socks_def empty_table_def)

lemma eloop_inv_register_timeout:
  "eloop_inv e \<Longrightarrow> eloop_inv (snd (eloop_register_timeout ok now s u h ed ud e))"
  by (simp add: eloop_register_timeout_def eloop_inv_def tq.ok_ins)

lemma eloop_inv_cancel_timeout:
  "eloop_inv e \<Longrightarrow> eloop_inv (snd (eloop_cancel_timeout h ed ud e))"
  using tq.ok_del [of "timeout e" "timeout_matches h ed ud"]
  by (simp add: eloop_cancel_timeout_def cancel_timeouts_filter eloop_inv_def)

lemma eloop_inv_register_sock:
  assumes "eloop_inv e"
  shows "eloop_inv (snd (eloop_register_sock ok s ty h ed ud e))"
proof -
  let ?t = "eloop_get_sock_table e ty"
  obtain rc t where add: "eloop_sock_table_add_sock ok ?t s h ed ud = (rc, t)" by fastforce
  show ?thesis
  proof (cases "rc = 0")
    case True
    have ok: "table_ok ?t" using assms by (simp add: eloop_inv_def)
    note spec = add_sock_spec [OF ok add [unfolded True]]
    have "table_bounded (max (max_sock e) s) t"
      using assms spec(2) by (auto simp: eloop_inv_def table_bounded_def le_max_iff_disj)
    moreover have "table_bounded (max (max_sock e) s) (eloop_get_sock_table e ty')" for ty'
      using assms by (fastforce simp: eloop_inv_def table_bounded_def)
    ultimately show ?thesis
      using assms spec(1) add True by (simp add: eloop_register_sock_def eloop_inv_def)
  qed (use assms add in \<open>simp add: eloop_register_sock_def\<close>)
qed

lemma eloop_inv_unregister_sock:
  assumes "eloop_inv e"
  shows "eloop_inv (eloop_unregister_sock s ty e)"
proof -
  have ok: "table_ok (eloop_get_sock_table e ty)" using assms by (simp add: eloop_inv_def)
  show ?thesis
    using assms remove_sock_spec [OF ok, of s] remove_first_subset [of s "socks (eloop_get_sock_table e ty)"]
    by (auto simp: eloop_unregister_sock_def eloop_inv_def table_bounded_def)
qed

lemma eloop_inv_signals:
  "eloop_inv e \<Longrightarrow> eloop_inv (eloop_handle_signal s e)"
  "eloop_inv e \<Longrightarrow> eloop_inv (snd (eloop_register_signal ok s h ud e))"
  "eloop_inv e \<Longrightarrow> eloop_inv (eloop_terminate e)"
  by (simp_all add: eloop_inv_def eloop_handle_signal_def eloop_register_signal_def eloop_terminate_def)

lemma eloop_inv_fold_signals: "eloop_inv e \<Longrightarrow> eloop_inv (fold eloop_handle_signal ss e)"
  by (induction ss arbitrary: e) (simp_all add: eloop_inv_signals)

lemmas eloop_inv_intros =
  eloop_inv_init eloop_inv_register_timeout eloop_inv_cancel_timeout eloop_inv_register_sock
  eloop_inv_unregister_sock eloop_inv_signals

subsection \<open>Rounds\<close>

text \<open>
  The contract of the handlers: they use the loop through its operations, so they keep its
  invariant; they do not clear the flag that a table has changed, and they do not shrink the
  list of signals.
\<close>

locale eloop_handlers =
  fixes hs :: "('h, 's) handlers" and good :: "'s \<Rightarrow> bool"
  assumes timeout_keeps: "\<And>h ed ud e s. eloop_inv e \<Longrightarrow> good s \<Longrightarrow>
      eloop_inv (fst (on_timeout hs h ed ud (e, s))) \<and> good (snd (on_timeout hs h ed ud (e, s)))"
    and sock_keeps: "\<And>h k ed ud e s. eloop_inv e \<Longrightarrow> good s \<Longrightarrow>
      eloop_inv (fst (on_sock hs h k ed ud (e, s))) \<and> good (snd (on_sock hs h k ed ud (e, s)))"
    and signal_keeps: "\<And>h k ed ud e s. eloop_inv e \<Longrightarrow> good s \<Longrightarrow>
      eloop_inv (fst (on_signal hs h k ed ud (e, s))) \<and> good (snd (on_signal hs h k ed ud (e, s)))"
    and sock_changes: "\<And>h k ed ud e s ty. changed (eloop_get_sock_table (fst (on_sock hs h k ed ud (e, s))) ty)
      \<or> sock_count (eloop_get_sock_table (fst (on_sock hs h k ed ud (e, s))) ty)
          = sock_count (eloop_get_sock_table e ty)"
    and signal_table: "\<And>h k ed ud e s. length (signals (fst (on_signal hs h k ed ud (e, s)))) = length (signals e)"
begin

lemma dispatch_loop_ok:
  assumes "eloop_inv e" "good s"
  shows "\<exists>e' s'. dispatch_loop (on_sock hs) ty fds i (e, s) = Some (Inr (e', s')) \<and> eloop_inv e' \<and> good s'"
  using assms
proof (induction "sock_count (eloop_get_sock_table e ty) - i" arbitrary: i e s rule: less_induct)
  case less
  let ?t = "eloop_get_sock_table e ty"
  have len: "sock_count ?t \<le> length (table ?t)"
    using less.prems(1) by (simp add: eloop_inv_def table_ok_def)
  show ?case
  proof (cases "i < sock_count ?t")
    case False
    then show ?thesis using less.prems by (subst dispatch_loop.simps) simp
  next
    case True
    let ?x = "table ?t ! i"
    obtain e1 s1 where call: "on_sock hs (es_handler ?x) (es_sock ?x) (es_eloop_data ?x) (es_user_data ?x) (e, s) = (e1, s1)"
      by fastforce
    have keep: "eloop_inv e1" "good s1"
      using sock_keeps [OF less.prems, of "es_handler ?x" "es_sock ?x" "es_eloop_data ?x" "es_user_data ?x"] call
      by simp_all
    have cnt: "changed (eloop_get_sock_table e1 ty) \<or> sock_count (eloop_get_sock_table e1 ty) = sock_count ?t"
      using sock_changes [of "es_handler ?x" "es_sock ?x" "es_eloop_data ?x" "es_user_data ?x" e s ty] call by simp
    show ?thesis
    proof (cases "es_sock ?x \<in> fds \<and> changed (eloop_get_sock_table e1 ty)")
      case stop: True
      with True len call keep show ?thesis by (subst dispatch_loop.simps) (simp add: Let_def)
    next
      case False
      define st where "st = (if es_sock ?x \<in> fds then (e1, s1) else (e, s))"
      have "dispatch_loop (on_sock hs) ty fds i (e, s) = dispatch_loop (on_sock hs) ty fds (Suc i) st"
        using True len call False by (subst dispatch_loop.simps) (auto simp: Let_def st_def)
      moreover have "sock_count (eloop_get_sock_table (fst st) ty) = sock_count ?t" "eloop_inv (fst st)" "good (snd st)"
        using False cnt keep less.prems by (auto simp: st_def)
      ultimately show ?thesis
        using less.hyps [of "fst st" "Suc i" "snd st"] True by auto
    qed
  qed
qed

lemma dispatch_ok:
  assumes "eloop_inv e" "good s"
  shows "\<exists>e' s'. eloop_sock_table_dispatch (on_sock hs) ty fds (e, s) = Some (Inr (e', s')) \<and> eloop_inv e' \<and> good s'"
proof -
  let ?t = "eloop_get_sock_table e ty"
  have "eloop_inv (put_sock_table ty (?t\<lparr>changed := False\<rparr>) e)"
    using assms(1) by (auto simp: eloop_inv_def table_ok_def table_bounded_def socks_def)
  from dispatch_loop_ok [OF this assms(2), of ty fds 0] assms show ?thesis
    by (simp add: eloop_sock_table_dispatch_def Let_def)
qed

lemma signals_loop_ok:
  assumes "eloop_inv e" "good s"
  shows "\<exists>e' s'. signals_loop (on_signal hs) i (e, s) = Some (e', s') \<and> eloop_inv e' \<and> good s'"
  using assms
proof (induction "length (signals e) - i" arbitrary: i e s rule: less_induct)
  case less
  show ?case
  proof (cases "i < length (signals e)")
    case False
    then show ?thesis using less.prems by (subst signals_loop.simps) simp
  next
    case True
    let ?x = "signals e ! i"
    let ?e = "e\<lparr>signals := (signals e)[i := ?x\<lparr>sg_signaled := 0\<rparr>]\<rparr>"
    define st where "st = (if sg_signaled ?x \<noteq> 0
      then on_signal hs (sg_handler ?x) (sg_sig ?x) (user_data e) (sg_user_data ?x) (?e, s) else (e, s))"
    have "eloop_inv ?e" using less.prems(1) by (simp add: eloop_inv_def)
    then have st: "eloop_inv (fst st)" "good (snd st)" "length (signals (fst st)) = length (signals e)"
      using signal_keeps [of ?e s "sg_handler ?x" "sg_sig ?x" "user_data e" "sg_user_data ?x"] less.prems
        signal_table [of "sg_handler ?x" "sg_sig ?x" "user_data e" "sg_user_data ?x" ?e s]
      by (auto simp: st_def)
    have "signals_loop (on_signal hs) i (e, s) = signals_loop (on_signal hs) (Suc i) st"
      using True by (subst signals_loop.simps) (simp add: Let_def st_def)
    then show ?thesis using less.hyps [of "fst st" "Suc i" "snd st"] st True by simp
  qed
qed

lemma fire_timeout_ok:
  assumes "eloop_inv e" "good s"
  shows "eloop_inv (fst (fire_timeout hs now (e, s)))" "good (snd (fire_timeout hs now (e, s)))"
proof -
  have "eloop_inv (e\<lparr>timeout := ts\<rparr>)" if "timeout e = t # ts" for t ts
    using assms(1) that tq.ok_tail [of t ts] by (simp add: eloop_inv_def)
  then show "eloop_inv (fst (fire_timeout hs now (e, s)))" "good (snd (fire_timeout hs now (e, s)))"
    using assms timeout_keeps by (auto simp: fire_timeout_def split: list.split)
qed

lemma eloop_round_ok:
  assumes "eloop_inv e" "good s"
  shows "\<exists>b e' s'. eloop_round hs r (e, s) = Some (Inr (b, e', s')) \<and> eloop_inv e' \<and> good s'"
proof -
  let ?e = "fold eloop_handle_signal (sel_signals r) e"
  have e0: "eloop_inv ?e" using eloop_inv_fold_signals [OF assms(1)] .
  have "\<exists>e1 s1. eloop_process_pending_signals (on_signal hs) (?e, s) = Some (e1, s1) \<and> eloop_inv e1 \<and> good s1"
    using signals_loop_ok [of "?e\<lparr>signaled := 0, pending_terminate := False\<rparr>" s 0] e0 assms(2)
    by (auto simp: eloop_process_pending_signals_def eloop_inv_def)
  then obtain e1 s1 where sig: "eloop_process_pending_signals (on_signal hs) (?e, s) = Some (e1, s1)"
    "eloop_inv e1" "good s1" by blast
  obtain e2 s2 where fire: "fire_timeout hs (now_after r) (e1, s1) = (e2, s2)" by fastforce
  have i2: "eloop_inv e2" "good s2" using fire_timeout_ok [OF sig(2,3), of "now_after r"] fire by simp_all
  obtain e3 s3 where d3: "eloop_sock_table_dispatch (on_sock hs) EVENT_TYPE_READ (sel_ready r EVENT_TYPE_READ) (e2, s2)
      = Some (Inr (e3, s3))" "eloop_inv e3" "good s3" using dispatch_ok [OF i2] by blast
  obtain e4 s4 where d4: "eloop_sock_table_dispatch (on_sock hs) EVENT_TYPE_WRITE (sel_ready r EVENT_TYPE_WRITE) (e3, s3)
      = Some (Inr (e4, s4))" "eloop_inv e4" "good s4" using dispatch_ok [OF d3(2,3)] by blast
  obtain e5 s5 where d5: "eloop_sock_table_dispatch (on_sock hs) EVENT_TYPE_EXCEPTION (sel_ready r EVENT_TYPE_EXCEPTION) (e4, s4)
      = Some (Inr (e5, s5))" "eloop_inv e5" "good s5" using dispatch_ok [OF d4(2,3)] by blast
  show ?thesis
    using e0 assms(2) sig fire i2 d3 d4 d5 by (auto simp: eloop_round_def Let_def)
qed

end

text \<open>The states \<open>eloop_run\<close> goes through, for any answers of the system.\<close>

inductive eloop_reach :: "('h, 's) handlers \<Rightarrow> 'h eloop_data \<times> 's \<Rightarrow> 'h eloop_data \<times> 's \<Rightarrow> bool"
  for hs :: "('h, 's) handlers" and st0 :: "'h eloop_data \<times> 's" where
  start: "eloop_reach hs st0 st0"
| round: "eloop_reach hs st0 st \<Longrightarrow> eloop_live (fst st) \<Longrightarrow>
    eloop_round hs r st = Some (Inr (b, st')) \<Longrightarrow> eloop_reach hs st0 st'"

context eloop_handlers
begin

lemma eloop_reach_inv:
  assumes "eloop_reach hs st0 st" "eloop_inv (fst st0)" "good (snd st0)"
  shows "eloop_inv (fst st) \<and> good (snd st)"
  using assms(1)
proof (induction rule: eloop_reach.induct)
  case start
  then show ?case using assms(2,3) by simp
next
  case (round st r b st')
  then show ?case using eloop_round_ok [of "fst st" "snd st" r] by (cases st) auto
qed

end

end
