(* ===== verification/Agent.thy ===== *)
theory Agent
  imports Rx_Machine Eloop
begin

text \<open>
  Agents and ports: \<open>src/lldp/agent.c\<close> (creation, the one-second timer, the clean-up),
  \<open>src/lldp/ports.c\<close> (the commands and the list of ports) and \<open>somethingChangedLocal\<close> of
  \<open>src/lldp_tlv.c\<close>.  The list of ports is \<open>porthead\<close> of the core.  While the agents of a port
  are processed the port record that is passed along carries the port's own variables; its
  list of agents is put back together at the end of the loop.
\<close>

subsection \<open>Looking up ports and agents\<close>

definition lldp_agent_find_by_type :: "'m core \<Rightarrow> string \<Rightarrow> agent_type \<Rightarrow> (nat \<times> nat) option" where
  "lldp_agent_find_by_type c name ty =
     (case port_find_by_ifindex (porthead c) (get_ifidx (core_env c) name) of
        None \<Rightarrow> None
      | Some i \<Rightarrow> map_option (Pair i) (find_index (\<lambda>a. agenttype a = ty) (agent_head (porthead c ! i))))"

definition agent_at :: "'m core \<Rightarrow> nat \<times> nat \<Rightarrow> lldp_agent" where
  "agent_at c ij = agent_head (porthead c ! fst ij) ! snd ij"

definition put_agent :: "nat \<times> nat \<Rightarrow> lldp_agent \<Rightarrow> 'm core \<Rightarrow> 'm core" where
  "put_agent ij a c = c\<lparr>porthead := (porthead c)[fst ij :=
     (porthead c ! fst ij)\<lparr>agent_head := (agent_head (porthead c ! fst ij))[snd ij := a]\<rparr>]\<rparr>"

definition put_port :: "nat \<Rightarrow> port \<Rightarrow> 'm core \<Rightarrow> 'm core" where
  "put_port i p c = c\<lparr>porthead := (porthead c)[i := p]\<rparr>"

text \<open>Write back the variables of a port, but not its list of agents.\<close>

definition put_port_vars :: "nat \<Rightarrow> port \<Rightarrow> 'm core \<Rightarrow> 'm core" where
  "put_port_vars i p c = put_port i (p\<lparr>agent_head := agent_head (porthead c ! i)\<rparr>) c"

definition agent_type2section :: "int \<Rightarrow> string" where
  "agent_type2section t = (if t > 0 \<and> t < 3
     then (if t = 1 then ''nearest_nontpmr_bridge'' else ''nearest_customer_bridge'')
     else ''lldp'')"

definition somethingChangedLocal :: "'m core \<Rightarrow> string \<Rightarrow> agent_type \<Rightarrow> 'm core" where
  "somethingChangedLocal c name ty = (case lldp_agent_find_by_type c name ty of
       None \<Rightarrow> c | Some ij \<Rightarrow> put_agent ij (somethingChanged (agent_at c ij)) c)"

definition mand_update_ttl :: "'m core \<Rightarrow> string \<Rightarrow> u16 \<Rightarrow> 'm core" where
  "mand_update_ttl c name ttl_val =
     (case port_find_by_ifindex (porthead c) (get_ifidx (core_env c) name) of
        None \<Rightarrow> c
      | Some i \<Rightarrow> put_port i ((porthead c ! i)\<lparr>agent_head := map (\<lambda>a. tx_update (\<lambda>t. t\<lparr>txTTL := ttl_val,
          localChange := True, txFast := txFastInit (timers a)\<rparr>) a) (agent_head (porthead c ! i))\<rparr>) c)"

subsection \<open>Creating agents\<close>

definition agent_groupmacs :: "agent_type \<Rightarrow> bytes" where
  "agent_groupmacs ty = (case ty of
       NEAREST_BRIDGE \<Rightarrow> [0x01, 0x80, 0xc2, 0x00, 0x00, 0x0e]
     | NEAREST_NONTPMR_BRIDGE \<Rightarrow> [0x01, 0x80, 0xc2, 0x00, 0x00, 0x03]
     | NEAREST_CUSTOMER_BRIDGE \<Rightarrow> [0x01, 0x80, 0xc2, 0x00, 0x00, 0x00])"

definition zero_agent :: lldp_agent where
  "zero_agent = \<lparr>adminStatus = 0, mac_addr = replicate ETH_ALEN 0,
     rx = \<lparr>framein = None, sizein = 0, rxstate = LLDP_WAIT_PORT_OPERATIONAL, badFrame = False,
           rcvFrame = False, rxInfoAge = False, remoteChange = False, tooManyNghbrs = False,
           dupTlvs = 0, dcbx_st = 0, newNeighbor = False, manifest = None\<rparr>,
     tx = \<lparr>frameout = None, sizeout = 0, txstate = TX_LLDP_INITIALIZE, localChange = False,
           txTTL = 0, txNow = False, txFast = 0\<rparr>,
     stats = \<lparr>statsFramesOutTotal = 0, statsAgeoutsTotal = 0, statsFramesDiscardedTotal = 0,
              statsFramesInErrorsTotal = 0, statsFramesInTotal = 0, statsTLVsDiscardedTotal = 0,
              statsTLVsUnrecognizedTotal = 0\<rparr>,
     timers = \<lparr>timers_state = TX_TIMER_BEGIN, reinitDelay = 0, msgTxHold = 0, msgTxInterval = 0,
               msgFastTx = 0, txFastInit = 0, txTTR = 0, txShutdownWhile = 0, txCredit = 0,
               txMaxCredit = 0, txTick = False, tooManyNghbrsTimer = 0, rxTTL = 0, lastrxTTL = 0\<rparr>,
     rxChanges = False, lldpdu = 0,
     msap_info = \<lparr>length1 = 0, msap1 = None, length2 = 0, msap2 = None\<rparr>,
     agenttype = NEAREST_BRIDGE\<rparr>"

definition lldp_init_agent :: "'m core \<Rightarrow> port \<Rightarrow> agent_type \<Rightarrow> 'm \<Rightarrow> (lldp_agent \<times> 'm) res" where
  "lldp_init_agent c p ty w =
     (let a = zero_agent\<lparr>mac_addr := agent_groupmacs ty,
            tx := (tx zero_agent)\<lparr>txstate := TX_LLDP_INITIALIZE\<rparr>,
            rx := (rx zero_agent)\<lparr>rxstate := LLDP_WAIT_PORT_OPERATIONAL\<rparr>, agenttype := ty,
            adminStatus := (case cfg_int (core_env c) (ifname p) ty ''adminStatus'' of
                              None \<Rightarrow> disabled | Some v \<Rightarrow> v)\<rparr>
      in bindR (rxInitializeLLDP c p a w) (\<lambda>(a1, w1).
           Inr (txInitializeLLDP (core_env c) p (txInitializeTimers a1), w1)))"

abbreviation (input) sizeof_lldp_agent :: nat where "sizeof_lldp_agent \<equiv> 248"

definition lldp_add_agent :: "'m core \<Rightarrow> string \<Rightarrow> agent_type \<Rightarrow> 'm \<Rightarrow> (int \<times> 'm core \<times> 'm) res" where
  "lldp_add_agent c name ty w =
     (case port_find_by_ifindex (porthead c) (get_ifidx (core_env c) name) of
        None \<Rightarrow> Inr (- 1, c, w)
      | Some i \<Rightarrow>
          let p = porthead c ! i in
          if \<exists>a \<in> set (agent_head p). agenttype a = ty then Inr (- 1, c, w)
          else if \<not> malloc_ok (core_env c) sizeof_lldp_agent then Inr (- 1, c, w)
          else bindR (lldp_init_agent c p ty w) (\<lambda>(a, w').
            Inr (0, put_port i (p\<lparr>agent_head := a # agent_head p\<rparr>) c, w')))"

subsection \<open>The timer\<close>

fun foreach_agent :: "(port \<Rightarrow> lldp_agent \<Rightarrow> 'm \<Rightarrow> (port \<times> lldp_agent \<times> 'm) res option) \<Rightarrow>
    port \<Rightarrow> lldp_agent list \<Rightarrow> 'm \<Rightarrow> (port \<times> lldp_agent list \<times> 'm) res option" where
  "foreach_agent f p [] w = Some (Inr (p, [], w))"
| "foreach_agent f p (a # as) w = bindO (f p a w) (\<lambda>(p1, a1, w1).
     bindO (foreach_agent f p1 as w1) (\<lambda>(p2, as2, w2). Some (Inr (p2, a1 # as2, w2))))"

definition each_agent :: "(port \<Rightarrow> lldp_agent \<Rightarrow> 'm \<Rightarrow> (port \<times> lldp_agent \<times> 'm) res option) \<Rightarrow>
    port \<Rightarrow> 'm \<Rightarrow> (port \<times> 'm) res option" where
  "each_agent f p w = bindO (foreach_agent f p (agent_head p) w) (\<lambda>(p1, as1, w1).
     Some (Inr (p1\<lparr>agent_head := as1\<rparr>, w1)))"

fun timer_modules :: "port \<Rightarrow> 'm lldp_module list \<Rightarrow> lldp_agent \<Rightarrow> 'm \<Rightarrow> (lldp_agent \<times> 'm) res" where
  "timer_modules p [] a w = Inr (a, w)"
| "timer_modules p (np # nps) a w =
     (case Option.bind (mod_ops np) lldp_mod_timer of
        None \<Rightarrow> timer_modules p nps a w
      | Some f \<Rightarrow> bindR (f p a w) (\<lambda>(a', w'). timer_modules p nps a' w'))"

definition timer_agent :: "'m core \<Rightarrow> port \<Rightarrow> lldp_agent \<Rightarrow> 'm \<Rightarrow> (port \<times> lldp_agent \<times> 'm) res option" where
  "timer_agent c p a w =
     (case run_tx_timers_sm p (update_tx_timers a) of
        None \<Rightarrow> None
      | Some a1 \<Rightarrow> bindO (run_tx_sm c p a1 w) (\<lambda>(p2, a2, w2).
          bindO (run_rx_sm c p2 a2 w2) (\<lambda>(p3, a3, w3).
            Some (bindR (timer_modules p3 (lldp_head c) (update_rx_timers a3) w3) (\<lambda>(a4, w4).
              Inr (p3, a4, w4))))))"

fun timer_ports :: "'m core \<Rightarrow> port list \<Rightarrow> 'm \<Rightarrow> (port list \<times> 'm) res option" where
  "timer_ports c [] w = Some (Inr ([], w))"
| "timer_ports c (p # ps) w = bindO (each_agent (timer_agent c) p w) (\<lambda>(p1, w1).
     let p2 = (if dormantDelay p1 \<noteq> 0 then p1\<lparr>dormantDelay := dormantDelay p1 - 1\<rparr> else p1)
     in bindO (timer_ports c ps w1) (\<lambda>(ps2, w2). Some (Inr (p2 # ps2, w2))))"

text \<open>The handlers of the daemon the event loop knows by name.\<close>

datatype lldpad_handler = timer_handler | l2_packet_receive_handler | eloop_terminate_handler

definition timer :: "os_time \<Rightarrow> 'm core \<Rightarrow> 'm \<Rightarrow> lldpad_handler eloop_data \<Rightarrow>
    ('m core \<times> 'm \<times> lldpad_handler eloop_data) res option" where
  "timer now c w e = bindO (timer_ports c (porthead c) w) (\<lambda>(ps, w').
     Some (Inr (c\<lparr>porthead := ps\<rparr>, w',
       snd (eloop_register_timeout (malloc_ok (core_env c)) now 1 0 timer_handler 0 0 e))))"

definition start_lldp_agents :: "env \<Rightarrow> os_time \<Rightarrow> lldpad_handler eloop_data \<Rightarrow> int \<times> lldpad_handler eloop_data" where
  "start_lldp_agents en now e =
     (1, snd (eloop_register_timeout (malloc_ok en) now 1 0 timer_handler 0 0 e))"

definition stop_lldp_agents :: "lldpad_handler eloop_data \<Rightarrow> lldpad_handler eloop_data" where
  "stop_lldp_agents e = snd (eloop_cancel_timeout timer_handler 0 0 e)"

definition port_needs_shutdown :: "env \<Rightarrow> port \<Rightarrow> bool" where
  "port_needs_shutdown e p \<longleftrightarrow> \<not> check_port_dcb_mode e (ifname p)"

fun clean_ports :: "'m core \<Rightarrow> port list \<Rightarrow> 'm \<Rightarrow> (port list \<times> 'm) res option" where
  "clean_ports c [] w = Some (Inr ([], w))"
| "clean_ports c (p # ps) w =
     bindO (if port_needs_shutdown (core_env c) p
            then each_agent (\<lambda>p a w. Some (process_tx_shutdown_frame c p a w)) p w
            else Some (Inr (p, w))) (\<lambda>(p1, w1).
       bindO (clean_ports c ps w1) (\<lambda>(ps2, w2). Some (Inr (p1 # ps2, w2))))"

definition clean_lldp_agents :: "'m core \<Rightarrow> 'm \<Rightarrow> ('m core \<times> 'm) res option" where
  "clean_lldp_agents c w = bindO (clean_ports c (porthead c) w) (\<lambda>(ps, w').
     Some (Inr (c\<lparr>porthead := ps\<rparr>, w')))"

end
