(* ===== verification/Ports.thy ===== *)
theory Ports
  imports Agent
begin

text \<open>
  The port commands of \<open>src/lldp/ports.c\<close>: statistics and TLV queries, administrative status,
  link state, hardware reset, and the list of ports itself.  Opening a layer-2 socket
  (\<open>l2_packet_init\<close>) is a parameter of \<open>add_port\<close>; the netlink call \<open>set_linkmode\<close> of
  \<open>remove_port\<close> acts on the kernel only.
\<close>

subsection \<open>Queries\<close>

datatype cmd_status = cmd_success | cmd_failed | cmd_device_not_found | cmd_agent_not_found | cmd_invalid
  | cmd_bad_params | cmd_peer_not_present | cmd_ctrl_vers_not_compatible | cmd_not_capable
  | cmd_not_applicable | cmd_no_access | cmd_agent_not_supported | cmd_max_status

definition get_lldp_agent_statistics :: "'m core \<Rightarrow> string \<Rightarrow> agent_type \<Rightarrow> cmd_status \<times> agentstats option" where
  "get_lldp_agent_statistics c name ty = (case lldp_agent_find_by_type c name ty of
       None \<Rightarrow> (cmd_agent_not_found, None)
     | Some ij \<Rightarrow> (cmd_success, Some (stats (agent_at c ij))))"

text \<open>
  The size is computed in unsigned arithmetic and stored in an \<open>int\<close>, which is negative for a
  frame shorter than an Ethernet header.
\<close>

definition tlvs_of_frame :: "bytes option \<Rightarrow> u32 \<Rightarrow> (cmd_status \<times> int \<times> bytes) res" where
  "tlvs_of_frame frame sz = (case frame of
       None \<Rightarrow> Inr (cmd_success, 0, [])
     | Some buf \<Rightarrow> let n = sint (sz - of_nat ETH_HLEN) in
         if n < 0 then Inr (cmd_invalid, n, [])
         else bindR (read_bytes buf ETH_HLEN (nat n)) (\<lambda>bs. Inr (cmd_success, n, bs)))"

definition get_local_tlvs :: "'m core \<Rightarrow> string \<Rightarrow> agent_type \<Rightarrow> (cmd_status \<times> int \<times> bytes) res" where
  "get_local_tlvs c name ty = (case lldp_agent_find_by_type c name ty of
       None \<Rightarrow> Inr (cmd_agent_not_found, 0, [])
     | Some ij \<Rightarrow> let a = agent_at c ij in tlvs_of_frame (frameout (tx a)) (sizeout (tx a)))"

definition get_neighbor_tlvs :: "'m core \<Rightarrow> string \<Rightarrow> agent_type \<Rightarrow> (cmd_status \<times> int \<times> bytes) res" where
  "get_neighbor_tlvs c name ty = (case lldp_agent_find_by_type c name ty of
       None \<Rightarrow> Inr (cmd_agent_not_found, 0, [])
     | Some ij \<Rightarrow> let a = agent_at c ij in tlvs_of_frame (framein (rx a)) (ucast (sizein (rx a))))"

definition get_lldp_agent_admin :: "'m core \<Rightarrow> string \<Rightarrow> agent_type \<Rightarrow> int" where
  "get_lldp_agent_admin c name ty = (case lldp_agent_find_by_type c name ty of
       None \<Rightarrow> disabled | Some ij \<Rightarrow> adminStatus (agent_at c ij))"

subsection \<open>Administrative status and link state\<close>

definition run_agent_sms :: "'m core \<Rightarrow> port \<Rightarrow> lldp_agent \<Rightarrow> 'm \<Rightarrow> (port \<times> lldp_agent \<times> 'm) res option" where
  "run_agent_sms c p a w = bindO (run_tx_sm c p a w) (\<lambda>(p1, a1, w1). run_rx_sm c p1 a1 w1)"

definition set_lldp_agent_admin :: "'m core \<Rightarrow> string \<Rightarrow> agent_type \<Rightarrow> int \<Rightarrow> 'm \<Rightarrow> ('m core \<times> 'm) res option" where
  "set_lldp_agent_admin c name ty admin w =
     (let ifidx = get_ifidx (core_env c) name in
      if ifidx = 0 then Some (Inr (c, w))
      else case port_find_by_ifindex (porthead c) ifidx of
        None \<Rightarrow> Some (Inr (c, w))
      | Some i \<Rightarrow>
          (case lldp_agent_find_by_type c (ifname (porthead c ! i)) ty of
             None \<Rightarrow> Some (Inr (c, w))
           | Some ij \<Rightarrow>
               let p0 = porthead c ! i;
                   c1 = (if \<not> strn_eq IFNAMSIZ (ifname p0) name
                         then put_port i (p0\<lparr>ifname := take IFNAMSIZ name\<rparr>) c else c)
               in if adminStatus (agent_at c1 ij) = admin then Some (Inr (c1, w))
                  else let c2 = put_agent ij ((agent_at c1 ij)\<lparr>adminStatus := admin\<rparr>) c1;
                           c3 = somethingChangedLocal c2 (ifname (porthead c2 ! i)) ty
                       in bindO (run_agent_sms c3 (porthead c3 ! i) (agent_at c3 ij) w) (\<lambda>(p', a', w').
                            Some (Inr (put_agent ij a' (put_port_vars i p' c3), w')))))"

definition set_lldp_port_enable :: "'m core \<Rightarrow> string \<Rightarrow> int \<Rightarrow> 'm \<Rightarrow> ('m core \<times> 'm) res option" where
  "set_lldp_port_enable c name enable w =
     (case port_find_by_ifindex (porthead c) (get_ifidx (core_env c) name) of
        None \<Rightarrow> Some (Inr (c, w))
      | Some i \<Rightarrow>
          let p = (porthead c ! i)\<lparr>portEnabled := (of_int enable :: u8) \<noteq> 0\<rparr>;
              p1 = (if enable = 0
                    then p\<lparr>agent_head := map (rx_update (\<lambda>r. r\<lparr>rxInfoAge := False\<rparr>)) (agent_head p)\<rparr>
                    else p);
              c1 = put_port i p1 c
          in bindO (each_agent (run_agent_sms c1) p1 w) (\<lambda>(p2, w2). Some (Inr (put_port i p2 c1, w2))))"

definition set_port_oper_delay :: "'m core \<Rightarrow> string \<Rightarrow> 'm core" where
  "set_port_oper_delay c name =
     (case port_find_by_ifindex (porthead c) (get_ifidx (core_env c) name) of
        None \<Rightarrow> c | Some i \<Rightarrow> put_port i ((porthead c ! i)\<lparr>dormantDelay := DORMANT_DELAY\<rparr>) c)"

definition set_port_hw_resetting :: "'m core \<Rightarrow> string \<Rightarrow> int \<Rightarrow> int \<times> 'm core" where
  "set_port_hw_resetting c name resetting =
     (case port_find_by_ifindex (porthead c) (get_ifidx (core_env c) name) of
        None \<Rightarrow> (- 1, c)
      | Some i \<Rightarrow> (uint (of_int resetting :: u8), put_port i ((porthead c ! i)\<lparr>hw_resetting := of_int resetting\<rparr>) c))"

definition get_port_hw_resetting :: "'m core \<Rightarrow> string \<Rightarrow> int" where
  "get_port_hw_resetting c name =
     (case port_find_by_ifindex (porthead c) (get_ifidx (core_env c) name) of
        None \<Rightarrow> 0 | Some i \<Rightarrow> uint (hw_resetting (porthead c ! i)))"

definition reinit_agent :: "'m core \<Rightarrow> port \<Rightarrow> lldp_agent \<Rightarrow> 'm \<Rightarrow> (port \<times> lldp_agent \<times> 'm) res" where
  "reinit_agent c p a w =
     (let a1 = a\<lparr>tx := (tx a)\<lparr>txstate := TX_LLDP_INITIALIZE\<rparr>,
            rx := (rx a)\<lparr>rxstate := LLDP_WAIT_PORT_OPERATIONAL\<rparr>,
            msap_info := \<lparr>length1 = 0, msap1 = None, length2 = 0, msap2 = None\<rparr>,
            lldpdu := 0, timers := (timers a)\<lparr>timers_state := TX_TIMER_BEGIN\<rparr>\<rparr>
      in bindR (rxInitializeLLDP c p a1 w) (\<lambda>(a2, w2).
           Inr (p, txInitializeLLDP (core_env c) p (txInitializeTimers a2), w2)))"

definition reinit_port :: "'m core \<Rightarrow> string \<Rightarrow> 'm \<Rightarrow> (int \<times> 'm core \<times> 'm) res option" where
  "reinit_port c name w =
     (case port_find_by_ifindex (porthead c) (get_ifidx (core_env c) name) of
        None \<Rightarrow> Some (Inr (- 1, c, w))
      | Some i \<Rightarrow>
          let p = (porthead c ! i)\<lparr>hw_resetting := 0, portEnabled := False,
                                   dormantDelay := DORMANT_DELAY\<rparr>;
              c1 = put_port i p c
          in bindO (each_agent (\<lambda>p a w. Some (reinit_agent c1 p a w)) p w) (\<lambda>(p2, w2).
               Some (Inr (0, put_port i p2 c1, w2))))"

subsection \<open>The list of ports\<close>

abbreviation (input) sizeof_port :: nat where "sizeof_port \<equiv> 64"

definition add_port :: "(string \<Rightarrow> l2_packet_data option) \<Rightarrow> 'm core \<Rightarrow> int \<Rightarrow> string \<Rightarrow> bool \<times> 'm core" where
  "add_port l2_packet_init c ifidx name =
     (if \<exists>p \<in> set (porthead c). ifindex p = ifidx then (False, c)
      else if \<not> malloc_ok (core_env c) sizeof_port then (False, c)
      else let name' = take IFNAMSIZ name in
        case l2_packet_init name' of
          None \<Rightarrow> (False, c)
        | Some l \<Rightarrow> (True, c\<lparr>porthead :=
            \<lparr>ifindex = ifidx, hw_resetting = 0, portEnabled = False, prevPortEnabled = False,
             bond_master = is_bond (core_env c) name, dormantDelay = DORMANT_DELAY,
             agent_head = [], l2 = l, ifname = name'\<rparr> # porthead c\<rparr>))"

fun unlink_port :: "string \<Rightarrow> port list \<Rightarrow> port list option" where
  "unlink_port name [] = None"
| "unlink_port name (p # ps) =
     (if strn_eq IFNAMSIZ name (ifname p) then Some ps else map_option (Cons p) (unlink_port name ps))"

definition remove_port :: "'m core \<Rightarrow> string \<Rightarrow> int \<times> 'm core" where
  "remove_port c name = (case unlink_port name (porthead c) of
       None \<Rightarrow> (- 1, c) | Some ps \<Rightarrow> (0, c\<lparr>porthead := ps\<rparr>))"

end
