(* ===== verification/Shm.thy ===== *)
theory Shm
  imports Prelude
begin

text \<open>
  The state kept in shared memory across restarts, \<open>src/lldpad_shm.c\<close> and
  \<open>src/include/lldpad_shm.h\<close>: a table of at most 36 interfaces with their chassis ID, port ID
  and DCBX state.  The upper 16 bits of \<open>num_entries\<close> hold the version of the layout; a
  version-0 table is converted in place on first use.  \<open>None\<close> for the whole segment stands for
  a failure of \<open>shm_open\<close>, \<open>ftruncate\<close> or \<open>mmap\<close>.
\<close>

subsection \<open>Layout\<close>

record dcbx_state =
  SeqNo :: u32
  AckNo :: u32
  FCoEenable :: bool
  iSCSIenable :: bool
  FIPenable :: bool

record lldpad_shm_entry =
  shm_ifname :: string
  shm_chassisid :: bytes
  shm_chassisid_len :: int
  shm_portid :: bytes
  shm_portid_len :: int
  shm_st :: dcbx_state
  shm_dcbx_mode :: u8

abbreviation (input) SHM_CHASSISID_LEN :: nat where "SHM_CHASSISID_LEN \<equiv> 32"
abbreviation (input) SHM_PORTID_LEN :: nat where "SHM_PORTID_LEN \<equiv> 32"
abbreviation (input) MAX_LLDPAD_SHM_ENTRIES :: nat where "MAX_LLDPAD_SHM_ENTRIES \<equiv> 36"
abbreviation (input) SHM_NUM_ENT_MASK :: u32 where "SHM_NUM_ENT_MASK \<equiv> 0xffff"
abbreviation (input) SHM_VER_MASK :: u32 where "SHM_VER_MASK \<equiv> 0xffff0000"

text \<open>
  The entries are read in the layout of the table's version.  \<open>shm_rest\<close> is what the memory
  behind the converted entries of a version-0 table reads as in the new layout.
\<close>

record lldpad_shm_tbl =
  shm_pid :: int
  shm_num_entries :: u32
  shm_ent :: "lldpad_shm_entry list"
  shm_rest :: "lldpad_shm_entry list"

definition zero_state :: dcbx_state where
  "zero_state = \<lparr>SeqNo = 0, AckNo = 0, FCoEenable = False, iSCSIenable = False, FIPenable = False\<rparr>"

definition shm_num :: "lldpad_shm_tbl \<Rightarrow> nat" where
  "shm_num t = unat (shm_num_entries t AND SHM_NUM_ENT_MASK)"

definition shm_version :: "lldpad_shm_tbl \<Rightarrow> nat" where
  "shm_version t = unat (drop_bit 16 (shm_num_entries t AND SHM_VER_MASK))"

subsection \<open>Operations\<close>

definition lldpad_shm_ver0_to_ver1 :: "lldpad_shm_tbl \<Rightarrow> nat \<Rightarrow> lldpad_shm_tbl" where
  "lldpad_shm_ver0_to_ver1 t num_old =
     (let n = (if num_old > MAX_LLDPAD_SHM_ENTRIES then MAX_LLDPAD_SHM_ENTRIES else num_old)
      in t\<lparr>shm_num_entries := (of_nat n AND SHM_NUM_ENT_MASK) OR push_bit 16 1,
           shm_ent := map (\<lambda>e. e\<lparr>shm_dcbx_mode := 0\<rparr>) (take n (shm_ent t)) @ drop n (shm_rest t)\<rparr>)"

definition shm_attach :: "lldpad_shm_tbl \<Rightarrow> lldpad_shm_tbl" where
  "shm_attach t = (if shm_version t = 0 then lldpad_shm_ver0_to_ver1 t (shm_num t) else t)"

fun find_entry :: "string \<Rightarrow> lldpad_shm_entry list \<Rightarrow> nat" where
  "find_entry name [] = 0"
| "find_entry name (e # es) = (if shm_ifname e = name then 0 else Suc (find_entry name es))"

definition shm_find :: "lldpad_shm_tbl \<Rightarrow> string \<Rightarrow> nat" where
  "shm_find t name = find_entry name (take (shm_num t) (shm_ent t))"

definition lldpad_shm_get_msap :: "lldpad_shm_tbl option \<Rightarrow> string \<Rightarrow> u8 \<Rightarrow>
    (bytes option \<times> lldpad_shm_tbl option) res" where
  "lldpad_shm_get_msap shm name ty = (case shm of None \<Rightarrow> Inr (None, None)
     | Some t0 \<Rightarrow>
         let t = shm_attach t0 in
         if shm_num t > MAX_LLDPAD_SHM_ENTRIES then Inr (None, Some t)
         else let i = shm_find t name in
           if i = unat (shm_num_entries t) then Inr (None, Some t)
           else if ty \<noteq> 1 \<and> ty \<noteq> 2 then Inr (None, Some t)
           else if i \<ge> length (shm_ent t) then Inl Out_Of_Bounds
           else let e = shm_ent t ! i;
                    p = (if ty = 1 then shm_chassisid e else shm_portid e);
                    len = (if ty = 1 then shm_chassisid_len e else shm_portid_len e)
                in if len = 0 then Inr (None, Some t)
                   else if len < 0 then Inl Out_Of_Bounds
                   else bindR (read_bytes p 0 (nat len)) (\<lambda>bs. Inr (Some bs, Some t)))"

definition new_name :: "nat \<Rightarrow> string \<Rightarrow> lldpad_shm_tbl \<Rightarrow> lldpad_shm_tbl" where
  "new_name i name t = t\<lparr>shm_num_entries := shm_num_entries t + 1,
     shm_ent := (shm_ent t)[i := (shm_ent t ! i)\<lparr>shm_ifname := take IFNAMSIZ name\<rparr>]\<rparr>"

definition lldpad_shm_set_msap :: "lldpad_shm_tbl option \<Rightarrow> string \<Rightarrow> u8 \<Rightarrow> bytes \<Rightarrow>
    int \<times> lldpad_shm_tbl option" where
  "lldpad_shm_set_msap shm name ty info = (case shm of None \<Rightarrow> (0, None)
     | Some t0 \<Rightarrow>
         let t = shm_attach t0; n = shm_num t in
         if n > MAX_LLDPAD_SHM_ENTRIES then (0, Some t)
         else let i = shm_find t name in
           if i < MAX_LLDPAD_SHM_ENTRIES
           then let e = shm_ent t ! i;
                    pad = info @ replicate (32 - length info) 0;
                    done = (\<lambda>e'. let t' = t\<lparr>shm_ent := (shm_ent t)[i := e']\<rparr>
                              in (1, Some (if i = n then new_name i name t' else t')))
                in if ty = 1 \<and> length info \<le> SHM_CHASSISID_LEN
                   then done (e\<lparr>shm_chassisid := pad, shm_chassisid_len := int (length info)\<rparr>)
                   else if ty = 2 \<and> length info \<le> SHM_PORTID_LEN
                   then done (e\<lparr>shm_portid := pad, shm_portid_len := int (length info)\<rparr>)
                   else (0, Some t)
           else (0, Some t))"

definition dcbx_modes :: "string \<Rightarrow> lldpad_shm_entry list \<Rightarrow> int" where
  "dcbx_modes name es = fold (\<lambda>e r. if shm_ifname e = name \<and> (shm_dcbx_mode e = 1 \<or> shm_dcbx_mode e = 2)
     then uint (shm_dcbx_mode e) else r) es 0"

definition lldpad_shm_get_dcbx :: "lldpad_shm_tbl option \<Rightarrow> string \<Rightarrow> int" where
  "lldpad_shm_get_dcbx shm name = (case shm of None \<Rightarrow> 0
     | Some t \<Rightarrow> if shm_version t = 0 then 0
         else if shm_num t > MAX_LLDPAD_SHM_ENTRIES then 0
         else dcbx_modes name (take (shm_num t) (shm_ent t)))"

definition lldpad_shm_set_dcbx :: "lldpad_shm_tbl option \<Rightarrow> string \<Rightarrow> u8 \<Rightarrow> int \<times> lldpad_shm_tbl option" where
  "lldpad_shm_set_dcbx shm name mode = (case shm of None \<Rightarrow> (0, None)
     | Some t0 \<Rightarrow>
         let t = shm_attach t0; n = shm_num t in
         if n > MAX_LLDPAD_SHM_ENTRIES then (0, Some t)
         else if mode \<noteq> 0 \<and> mode \<noteq> 1 \<and> mode \<noteq> 2 then (0, Some t)
         else let i = shm_find t name in
           if i < n then (1, Some (t\<lparr>shm_ent := (shm_ent t)[i := (shm_ent t ! i)\<lparr>shm_dcbx_mode := mode\<rparr>]\<rparr>))
           else if i < MAX_LLDPAD_SHM_ENTRIES
           then (1, Some (t\<lparr>shm_num_entries := shm_num_entries t + 1, shm_ent := (shm_ent t)[i :=
                  \<lparr>shm_ifname = take IFNAMSIZ name, shm_chassisid = replicate SHM_CHASSISID_LEN 0,
                   shm_chassisid_len = 0, shm_portid = replicate SHM_PORTID_LEN 0, shm_portid_len = 0,
                   shm_st = zero_state, shm_dcbx_mode = mode\<rparr>]\<rparr>))
           else (0, Some t))"

definition lldpad_shm_getpid :: "lldpad_shm_tbl option \<Rightarrow> int \<times> lldpad_shm_tbl option" where
  "lldpad_shm_getpid shm = (case shm of None \<Rightarrow> (- 1, None)
     | Some t \<Rightarrow> (shm_pid t, Some (shm_attach t)))"

definition lldpad_shm_setpid :: "lldpad_shm_tbl option \<Rightarrow> int \<Rightarrow> int \<times> lldpad_shm_tbl option" where
  "lldpad_shm_setpid shm pid = (case shm of None \<Rightarrow> (0, None)
     | Some t \<Rightarrow> (1, Some ((shm_attach t)\<lparr>shm_pid := pid\<rparr>)))"

definition clear_dcbx_state :: "lldpad_shm_tbl option \<Rightarrow> int \<times> lldpad_shm_tbl option" where
  "clear_dcbx_state shm = (case shm of None \<Rightarrow> (0, None)
     | Some t0 \<Rightarrow> let t = shm_attach t0; n = shm_num t in
         if n > MAX_LLDPAD_SHM_ENTRIES then (1, Some t)
         else (1, Some (t\<lparr>shm_ent := map (\<lambda>e. if shm_ifname e \<noteq> [] then e\<lparr>shm_st := zero_state\<rparr> else e)
                 (take n (shm_ent t)) @ drop n (shm_ent t)\<rparr>)))"

definition set_dcbx_state :: "lldpad_shm_tbl option \<Rightarrow> string \<Rightarrow> dcbx_state \<Rightarrow> int \<times> lldpad_shm_tbl option" where
  "set_dcbx_state shm name st = (case shm of None \<Rightarrow> (0, None)
     | Some t0 \<Rightarrow> let t = shm_attach t0; n = shm_num t in
         if n > MAX_LLDPAD_SHM_ENTRIES then (0, Some t)
         else let i = shm_find t name in
           if i < MAX_LLDPAD_SHM_ENTRIES
           then let t' = (if i = n then new_name i name t else t)
                in (1, Some (t'\<lparr>shm_ent := (shm_ent t')[i := (shm_ent t' ! i)\<lparr>shm_st := st\<rparr>]\<rparr>))
           else (0, Some t))"

definition get_dcbx_state :: "lldpad_shm_tbl option \<Rightarrow> string \<Rightarrow> dcbx_state option \<times> lldpad_shm_tbl option" where
  "get_dcbx_state shm name = (case shm of None \<Rightarrow> (None, None)
     | Some t0 \<Rightarrow> let t = shm_attach t0; n = shm_num t in
         if n > MAX_LLDPAD_SHM_ENTRIES then (None, Some t)
         else let i = shm_find t name in
           if i < n then (Some (shm_st (shm_ent t ! i)),
                          Some (t\<lparr>shm_ent := (shm_ent t)[i := (shm_ent t ! i)\<lparr>shm_st := zero_state\<rparr>]\<rparr>))
           else (None, Some t))"

subsection \<open>The entry counter\<close>

lemma and_ffff: "unat (w AND 0xffff) = unat w mod 65536" for w :: u32
proof -
  have "(0xffff :: u32) = mask 16" by (simp add: mask_eq_exp_minus_1)
  then have "w AND 0xffff = take_bit 16 w" by (simp only: take_bit_eq_mask)
  then show ?thesis by (simp only: unsigned_take_bit_eq) (simp add: take_bit_eq_mod)
qed

lemma ver_bits: "unat (drop_bit 16 w AND 0xffff) = unat w div 65536" for w :: u32
proof -
  have "unat w < 65536 * 65536" using unsigned_less [of w] by simp
  then have "unat w div 65536 < 65536" by (simp add: less_mult_imp_div_less)
  then show ?thesis unfolding and_ffff by (simp only: unat_drop_bit_eq) (simp add: drop_bit_eq_div)
qed

lemma shm_num_eq: "shm_num t = unat (shm_num_entries t) mod 65536"
  by (simp add: shm_num_def and_ffff)

lemma shm_version_eq: "shm_version t = unat (shm_num_entries t) div 65536"
  by (simp add: shm_version_def ver_bits)

lemma low_high_add: "(a AND mask 16) OR push_bit 16 b = (a AND mask 16) + push_bit 16 b" for a b :: u32
  by (rule disjunctive_add [symmetric]) (auto simp: bit_simps)

lemma unat_push16: "n < 65536 \<Longrightarrow> unat ((of_nat n AND 0xffff) OR push_bit 16 1 :: u32) = n + 65536"
proof -
  assume n: "n < 65536"
  have m: "(0xffff :: u32) = mask 16" by (simp add: mask_eq_exp_minus_1)
  have "(of_nat n AND 0xffff) OR push_bit 16 1 = (of_nat n AND 0xffff) + (65536 :: u32)"
    unfolding m low_high_add by (simp add: push_bit_eq_mult)
  moreover have "unat (of_nat n AND 0xffff :: u32) = n"
    using n by (simp only: and_ffff) (simp add: unat_of_nat)
  ultimately show ?thesis using n by (simp only: unat_word_ariths) simp
qed

lemma incr_num:
  assumes "unat (w :: u32) = n + 65536" "n < 65535"
  shows "unat (w + 1) = Suc n + 65536"
  using assms by (simp add: unat_word_ariths)

subsection \<open>Well-formed tables\<close>

definition entry_wf :: "lldpad_shm_entry \<Rightarrow> bool" where
  "entry_wf e \<longleftrightarrow> length (shm_chassisid e) = SHM_CHASSISID_LEN \<and> 0 \<le> shm_chassisid_len e
     \<and> shm_chassisid_len e \<le> 32 \<and> length (shm_portid e) = SHM_PORTID_LEN
     \<and> 0 \<le> shm_portid_len e \<and> shm_portid_len e \<le> 32"

text \<open>A table of the current version, as every operation leaves it.\<close>

definition tbl_wf :: "lldpad_shm_tbl \<Rightarrow> bool" where
  "tbl_wf t \<longleftrightarrow> (\<exists>n \<le> MAX_LLDPAD_SHM_ENTRIES. unat (shm_num_entries t) = n + 65536)
     \<and> length (shm_ent t) = MAX_LLDPAD_SHM_ENTRIES \<and> (\<forall>e \<in> set (shm_ent t). entry_wf e)"

lemma tbl_wf_num: "tbl_wf t \<Longrightarrow> unat (shm_num_entries t) = shm_num t + 65536 \<and> shm_num t \<le> 36 \<and> shm_version t = 1"
  by (auto simp: tbl_wf_def shm_num_eq shm_version_eq)

lemma tbl_wf_bounds:
  assumes "tbl_wf t"
  shows "length (shm_ent t) = 36" "shm_num t \<le> 36" "e \<in> set (shm_ent t) \<Longrightarrow> entry_wf e"
  using assms tbl_wf_num [OF assms] by (auto simp: tbl_wf_def)

lemma tbl_wf_I:
  assumes "unat (shm_num_entries t) = n + 65536" "n \<le> 36" "length (shm_ent t) = 36"
    "\<And>e. e \<in> set (shm_ent t) \<Longrightarrow> entry_wf e"
  shows "tbl_wf t"
  using assms by (auto simp: tbl_wf_def)

lemma tbl_wf_attach: "tbl_wf t \<Longrightarrow> shm_attach t = t"
  using tbl_wf_num [of t] by (simp add: shm_attach_def)

lemma find_entry_le: "find_entry name es \<le> length es"
  by (induction es) simp_all

lemma find_entry_hit: "find_entry name es < length es \<Longrightarrow> shm_ifname (es ! find_entry name es) = name"
  by (induction es) (auto split: if_splits)

lemma find_entry_append: "find_entry name es = length es \<Longrightarrow> find_entry name (es @ fs) = length es + find_entry name fs"
  by (induction es) (auto split: if_splits)

lemma find_entry_same_names:
  "map shm_ifname es = map shm_ifname fs \<Longrightarrow> find_entry name es = find_entry name fs"
proof (induction es arbitrary: fs)
  case (Cons e es)
  then show ?case by (cases fs) auto
qed simp

lemma shm_find_le: "tbl_wf t \<Longrightarrow> shm_find t name \<le> shm_num t"
  using find_entry_le [of name "take (shm_num t) (shm_ent t)"] tbl_wf_bounds [of t]
  by (simp add: shm_find_def)

text \<open>
  The entry of an interface after it has been stored, or created behind the last one: it is
  found again, the table stays well-formed and no other entry changes.
\<close>

definition put_entry :: "lldpad_shm_tbl \<Rightarrow> string \<Rightarrow> lldpad_shm_entry \<Rightarrow> lldpad_shm_tbl" where
  "put_entry t name e = (let i = shm_find t name; t' = t\<lparr>shm_ent := (shm_ent t)[i := e]\<rparr>
     in if i = shm_num t then new_name i name t' else t')"

lemma put_entry_props:
  assumes wf: "tbl_wf t" and i: "shm_find t name < MAX_LLDPAD_SHM_ENTRIES" and e: "entry_wf e"
    and nm: "shm_find t name < shm_num t \<Longrightarrow> shm_ifname e = name" and len: "length name \<le> 16"
  shows "tbl_wf (put_entry t name e)"
    and "shm_find (put_entry t name e) name = shm_find t name"
    and "shm_ent (put_entry t name e) ! shm_find t name = e\<lparr>shm_ifname := name\<rparr>"
    and "shm_num (put_entry t name e) = max (shm_num t) (Suc (shm_find t name))"
proof -
  let ?i = "shm_find t name" and ?n = "shm_num t"
  note n = tbl_wf_bounds(2) [OF wf] and lenE = tbl_wf_bounds(1) [OF wf]
  have cnt0: "unat (shm_num_entries t) = ?n + 65536" using tbl_wf_num [OF wf] by simp
  have "?i \<le> ?n" by (rule shm_find_le [OF wf])
  have ewf: "entry_wf (e\<lparr>shm_ifname := x\<rparr>)" for x using e by (simp add: entry_wf_def)
  define t' where "t' = put_entry t name e"
  consider (old) "?i < ?n" | (new) "?i = ?n" using \<open>?i \<le> ?n\<close> by linarith
  then have "tbl_wf t' \<and> shm_find t' name = ?i \<and> shm_ent t' ! ?i = e\<lparr>shm_ifname := name\<rparr>
      \<and> shm_num t' = max ?n (Suc ?i)"
  proof cases
    case old
    have t': "t' = t\<lparr>shm_ent := (shm_ent t)[?i := e]\<rparr>" using old by (simp add: t'_def put_entry_def)
    have num: "shm_num t' = ?n" by (simp add: t' shm_num_def)
    have "tbl_wf t'"
      using set_update_subset_insert [of "shm_ent t" ?i e] tbl_wf_bounds(3) [OF wf] e lenE n cnt0
      by (intro tbl_wf_I [of _ ?n]) (auto simp: t')
    moreover have "map shm_ifname (take ?n (shm_ent t')) = map shm_ifname (take ?n (shm_ent t))"
    proof -
      have "(map shm_ifname (shm_ent t)) ! ?i = name"
        using find_entry_hit [of name "take ?n (shm_ent t)"] old i lenE n by (simp add: shm_find_def)
      then have "map shm_ifname ((shm_ent t)[?i := e]) = map shm_ifname (shm_ent t)"
        using nm [OF old] by (metis list_update_id map_update)
      then show ?thesis by (simp add: t' take_map [symmetric])
    qed
    then have "shm_find t' name = ?i" unfolding shm_find_def num by (rule find_entry_same_names)
    moreover have "shm_ent t' ! ?i = e\<lparr>shm_ifname := name\<rparr>"
      using nm [OF old] i lenE by (simp add: t')
    ultimately show ?thesis using num old by simp
  next
    case new
    let ?e = "e\<lparr>shm_ifname := name\<rparr>"
    have t': "shm_num_entries t' = shm_num_entries t + 1" "shm_ent t' = (shm_ent t)[?i := ?e]"
      using new i lenE len by (simp_all add: t'_def put_entry_def new_name_def)
    have cnt: "unat (shm_num_entries t') = Suc ?n + 65536" unfolding t'(1) by (rule incr_num [OF cnt0]) (use n in simp)
    have num: "shm_num t' = Suc ?n"
      unfolding shm_num_eq [of t'] cnt mod_add_self2 by (rule mod_less) (use n in simp)
    have "tbl_wf t'"
      using set_update_subset_insert [of "shm_ent t" ?i ?e] tbl_wf_bounds(3) [OF wf] ewf [of name] lenE new i cnt
      by (intro tbl_wf_I [of _ "Suc ?n"]) (auto simp: t'(2))
    moreover have "take (Suc ?n) (shm_ent t') = take ?n (shm_ent t) @ [?e]"
      using new i lenE by (simp add: t' take_Suc_conv_app_nth)
    then have "shm_find t' name = ?i"
      using find_entry_append [of name "take ?n (shm_ent t)" "[?e]"] new n lenE
      unfolding shm_find_def num by simp
    moreover have "shm_ent t' ! ?i = ?e" using i lenE by (simp add: t')
    ultimately show ?thesis using num new by simp
  qed
  then show "tbl_wf (put_entry t name e)" "shm_find (put_entry t name e) name = shm_find t name"
    "shm_ent (put_entry t name e) ! shm_find t name = e\<lparr>shm_ifname := name\<rparr>"
    "shm_num (put_entry t name e) = max (shm_num t) (Suc (shm_find t name))"
    by (simp_all add: t'_def)
qed

lemma pad_take: "length info \<le> 32 \<Longrightarrow> take (length info) (info @ replicate k 0) = info"
  by simp

lemma set_msap_put:
  assumes "tbl_wf t" "lldpad_shm_set_msap (Some t) name ty info = (1, shm')"
  shows "shm_find t name < 36 \<and> length info \<le> 32 \<and> (ty = 1 \<or> ty = 2)
    \<and> shm' = Some (put_entry t name (if ty = 1
        then (shm_ent t ! shm_find t name)\<lparr>shm_chassisid := info @ replicate (32 - length info) 0,
               shm_chassisid_len := int (length info)\<rparr>
        else (shm_ent t ! shm_find t name)\<lparr>shm_portid := info @ replicate (32 - length info) 0,
               shm_portid_len := int (length info)\<rparr>))"
  using assms tbl_wf_bounds(2) [OF assms(1)]
  by (auto simp: lldpad_shm_set_msap_def tbl_wf_attach put_entry_def Let_def split: if_splits)

text \<open>What has been stored is read back.\<close>

lemma set_get_msap:
  assumes wf: "tbl_wf t" and set: "lldpad_shm_set_msap (Some t) name ty info = (1, Some t')"
    and len: "length name \<le> 16" and info: "info \<noteq> []"
  shows "tbl_wf t' \<and> lldpad_shm_get_msap (Some t') name ty = Inr (Some info, Some t')"
proof -
  let ?i = "shm_find t name"
  let ?e = "if ty = 1
        then (shm_ent t ! ?i)\<lparr>shm_chassisid := info @ replicate (32 - length info) 0,
               shm_chassisid_len := int (length info)\<rparr>
        else (shm_ent t ! ?i)\<lparr>shm_portid := info @ replicate (32 - length info) 0,
               shm_portid_len := int (length info)\<rparr>"
  from set_msap_put [OF wf set] have p: "?i < 36" "length info \<le> 32" "ty = 1 \<or> ty = 2"
    and t': "t' = put_entry t name ?e" by auto
  have ent: "entry_wf (shm_ent t ! ?i)" "entry_wf ?e"
    using tbl_wf_bounds(1,3) [OF wf] p by (auto simp: entry_wf_def)
  have nm: "shm_ifname ?e = name" if "?i < shm_num t"
    using find_entry_hit [of name "take (shm_num t) (shm_ent t)"] that tbl_wf_bounds [OF wf]
    by (auto simp: shm_find_def)
  note pp = put_entry_props [OF wf p(1) ent(2) nm len, folded t']
  note b = tbl_wf_bounds(1,2) [OF pp(1)]
  have "?i \<noteq> unat (shm_num_entries t')" using tbl_wf_num [OF pp(1)] p(1) by simp
  then show ?thesis
    using pp(1,2,3) p info b
    by (auto simp: lldpad_shm_get_msap_def tbl_wf_attach Let_def read_bytes_def)
qed

text \<open>
  The search for an unknown interface ends at the number of entries, but is compared with the
  counter word, whose upper half holds the version: the entry behind the last one is read.
\<close>

lemma get_msap_unknown:
  assumes wf: "tbl_wf t" and "shm_find t name = shm_num t" "ty = 1 \<or> ty = 2"
  shows "shm_num t = 36 \<Longrightarrow> lldpad_shm_get_msap (Some t) name ty = Inl Out_Of_Bounds"
    and "shm_num t < 36 \<Longrightarrow> shm_chassisid_len (shm_ent t ! shm_num t) > 0 \<Longrightarrow> \<exists>bs. lldpad_shm_get_msap (Some t) name 1 = Inr (Some bs, Some t)"
proof -
  have ne: "shm_num t \<noteq> unat (shm_num_entries t)" using tbl_wf_num [OF wf] by simp
  note b = tbl_wf_bounds(1) [OF wf]
  show "shm_num t = 36 \<Longrightarrow> lldpad_shm_get_msap (Some t) name ty = Inl Out_Of_Bounds"
    using assms(2,3) ne b by (auto simp: lldpad_shm_get_msap_def tbl_wf_attach [OF wf] Let_def)
  assume n: "shm_num t < 36" "shm_chassisid_len (shm_ent t ! shm_num t) > 0"
  then have "entry_wf (shm_ent t ! shm_num t)" using tbl_wf_bounds(3) [OF wf] b by simp
  then show "\<exists>bs. lldpad_shm_get_msap (Some t) name 1 = Inr (Some bs, Some t)"
    using n assms(2) ne b
    by (auto simp: lldpad_shm_get_msap_def tbl_wf_attach [OF wf] Let_def read_bytes_def entry_wf_def)
qed

lemma attach_wf:
  assumes "shm_version t = 0" "length (shm_ent t) = 38" "length (shm_rest t) = 36"
    "\<forall>e \<in> set (shm_ent t) \<union> set (shm_rest t). entry_wf e"
  shows "tbl_wf (shm_attach t)"
proof -
  define n where "n = min (shm_num t) 36"
  have "(if shm_num t > 36 then 36 else shm_num t) = n" by (auto simp: n_def)
  then have a: "shm_attach t = t\<lparr>shm_num_entries := (of_nat n AND 0xffff) OR push_bit 16 1,
      shm_ent := map (\<lambda>e. e\<lparr>shm_dcbx_mode := 0\<rparr>) (take n (shm_ent t)) @ drop n (shm_rest t)\<rparr>"
    using assms(1) by (simp only: shm_attach_def lldpad_shm_ver0_to_ver1_def Let_def if_True simp_thms)
  have "unat ((of_nat n AND 0xffff) OR push_bit 16 1 :: u32) = n + 65536"
    by (rule unat_push16) (simp add: n_def)
  moreover have "n \<le> 36" by (simp add: n_def)
  ultimately show ?thesis
    unfolding a using assms(2-4)
    by (intro tbl_wf_I [of _ n]) (auto simp: entry_wf_def dest: in_set_takeD in_set_dropD)
qed

subsection \<open>Reading without leaving the table\<close>

text \<open>An interface that has an entry, or a table with room for it.\<close>

definition shm_ready :: "string \<Rightarrow> lldpad_shm_tbl option \<Rightarrow> bool" where
  "shm_ready name shm \<longleftrightarrow> (case shm of None \<Rightarrow> True
     | Some t \<Rightarrow> tbl_wf t \<and> shm_find t name < MAX_LLDPAD_SHM_ENTRIES)"

lemma get_msap_ready:
  assumes "shm_ready name shm" "ty = 1 \<or> ty = 2"
  shows "\<exists>r. lldpad_shm_get_msap shm name ty = Inr (r, shm) \<and> (\<forall>bs. r = Some bs \<longrightarrow> bs \<noteq> [] \<and> length bs \<le> 32)"
proof (cases shm)
  case None
  then show ?thesis by (simp add: lldpad_shm_get_msap_def)
next
  case (Some t)
  with assms(1) have t: "tbl_wf t" "shm_find t name < 36" by (simp_all add: shm_ready_def)
  note b = tbl_wf_bounds(1,2) [OF t(1)]
  let ?e = "shm_ent t ! shm_find t name"
  have "entry_wf ?e" using tbl_wf_bounds(3) [OF t(1)] t(2) b by simp
  then have e: "length (shm_chassisid ?e) = 32" "0 \<le> shm_chassisid_len ?e" "shm_chassisid_len ?e \<le> 32"
    "length (shm_portid ?e) = 32" "0 \<le> shm_portid_len ?e" "shm_portid_len ?e \<le> 32"
    by (simp_all add: entry_wf_def)
  show ?thesis
    using assms(2) t(2) b e
    by (auto simp: lldpad_shm_get_msap_def Some tbl_wf_attach [OF t(1)] Let_def read_bytes_def)
qed

lemma set_msap_ready:
  assumes "shm_ready name shm" "length name \<le> 16"
  shows "shm_ready name (snd (lldpad_shm_set_msap shm name ty info))"
proof (cases shm)
  case None
  then show ?thesis by (simp add: lldpad_shm_set_msap_def shm_ready_def)
next
  case (Some t)
  with assms(1) have t: "tbl_wf t" "shm_find t name < 36" by (simp_all add: shm_ready_def)
  obtain rc shm' where r: "lldpad_shm_set_msap (Some t) name ty info = (rc, shm')" by fastforce
  then consider "rc = 1" | "shm' = Some t"
    by (auto simp: lldpad_shm_set_msap_def tbl_wf_attach [OF t(1)] Let_def split: if_splits)
  then show ?thesis
  proof cases
    case 2
    then show ?thesis using r t Some by (simp add: shm_ready_def)
  next
    case 1
    let ?e = "if ty = 1
        then (shm_ent t ! shm_find t name)\<lparr>shm_chassisid := info @ replicate (32 - length info) 0,
               shm_chassisid_len := int (length info)\<rparr>
        else (shm_ent t ! shm_find t name)\<lparr>shm_portid := info @ replicate (32 - length info) 0,
               shm_portid_len := int (length info)\<rparr>"
    from set_msap_put [OF t(1) r [unfolded 1]] have len: "length info \<le> 32"
      and s: "shm' = Some (put_entry t name ?e)" by auto
    have ent: "entry_wf ?e"
      using tbl_wf_bounds(1,3) [OF t(1)] t(2) len by (auto simp: entry_wf_def)
    have nm: "shm_ifname ?e = name" if "shm_find t name < shm_num t"
      using find_entry_hit [of name "take (shm_num t) (shm_ent t)"] that tbl_wf_bounds [OF t(1)]
      by (auto simp: shm_find_def)
    show ?thesis
      using put_entry_props(1,2) [OF t(1) t(2) ent nm assms(2)] r s t(2) Some by (simp add: shm_ready_def)
  qed
qed

end
