(* ===== verification/Mand.thy ===== *)
theory Mand
  imports Tx_Frame Shm
begin

text \<open>
  The mandatory TLVs, \<open>src/lldp_mand.c\<close>: chassis ID, port ID, time to live and end, built from
  the interface's addresses, the configuration and the shared memory, kept per interface and
  agent, and packed for every frame.  Addresses, LLDP-MED settings and the presence of an
  interface in the list of ports come in through the record \<open>host\<close>, which also carries the
  string settings of the configuration file.
\<close>

subsection \<open>State\<close>

record mand_data =
  md_ifname :: string
  md_agenttype :: agent_type
  md_chassis :: "unpacked_tlv option"
  md_portid :: "unpacked_tlv option"
  md_ttl :: "unpacked_tlv option"
  md_ttl_freed :: bool
  md_end :: "unpacked_tlv option"
  rebuild_chassis :: bool
  rebuild_portid :: bool
  read_shm :: bool

text \<open>
  \<open>md_ttl_freed\<close> says that \<open>md_ttl\<close> is a dangling pointer.  \<open>mand_cfg\<close> is the history of the
  values written back to the configuration file.
\<close>

record mand_world =
  mand_head :: "mand_data list"
  mand_shm :: "lldpad_shm_tbl option"
  mand_cfg :: "(string \<times> agent_type \<times> u32 \<times> bytes) list"

record host =
  get_mac :: "string \<Rightarrow> bytes"
  get_ipaddr :: "string \<Rightarrow> bytes option"
  get_ipaddr6 :: "string \<Rightarrow> bytes option"
  is_tlv_txenabled :: "string \<Rightarrow> agent_type \<Rightarrow> u32 \<Rightarrow> bool"
  get_med_devtype :: "string \<Rightarrow> agent_type \<Rightarrow> int"
  port_known :: "int \<Rightarrow> bool"
  cfg_str :: "string \<Rightarrow> agent_type \<Rightarrow> string \<Rightarrow> string option"

abbreviation (input) EPERM :: int where "EPERM \<equiv> 1"
abbreviation (input) EEXIST :: int where "EEXIST \<equiv> 17"
abbreviation (input) EINVAL :: int where "EINVAL \<equiv> 22"
abbreviation (input) SIZE_MAX :: nat where "SIZE_MAX \<equiv> 2 ^ 64 - 1"
abbreviation (input) OUI_TIA_TR41 :: u32 where "OUI_TIA_TR41 \<equiv> 0x0012bb"
abbreviation (input) sizeof_mand_data :: nat where "sizeof_mand_data \<equiv> 80"

definition mand_key :: "string \<Rightarrow> agent_type \<Rightarrow> mand_data \<Rightarrow> bool" where
  "mand_key name ty md \<longleftrightarrow> strn_eq IFNAMSIZ name (md_ifname md) \<and> ty = md_agenttype md"

definition mand_data :: "mand_world \<Rightarrow> string \<Rightarrow> agent_type \<Rightarrow> nat option" where
  "mand_data w name ty = find_index (mand_key name ty) (mand_head w)"

definition put_md :: "nat \<Rightarrow> mand_data \<Rightarrow> mand_world \<Rightarrow> mand_world" where
  "put_md i md w = w\<lparr>mand_head := (mand_head w)[i := md]\<rparr>"

subsection \<open>Contents of the identifiers\<close>

definition is_valid_mac :: "bytes \<Rightarrow> bool" where
  "is_valid_mac mac \<longleftrightarrow> \<not> (\<forall>b \<in> set (take 6 mac). b = 0) \<and> \<not> (\<forall>b \<in> set (take 6 mac). b = 0xff)"

definition name_bytes :: "string \<Rightarrow> bytes" where
  "name_bytes name = map of_char name"

text \<open>
  The structures \<open>tlv_info_chassis\<close> and \<open>tlv_info_portid\<close> have 256 bytes, cleared beforehand:
  the subtype, then the identifier.  A builder gives the leading bytes and the length, of type
  \<open>size_t\<close>, so that the error value \<open>-1\<close> is \<open>SIZE_MAX\<close>.
\<close>

definition mand_bld_mac_chassis :: "host \<Rightarrow> mand_data \<Rightarrow> bytes \<times> nat" where
  "mand_bld_mac_chassis h md = (let mac = get_mac h (md_ifname md) in
     ((if is_valid_mac mac then 4 else 0) # mac, 7))"

definition mand_bld_ip_chassis :: "host \<Rightarrow> mand_data \<Rightarrow> bytes \<times> nat" where
  "mand_bld_ip_chassis h md = (case get_ipaddr h (md_ifname md) of
       Some ip \<Rightarrow> (5 # 1 # ip, 1 + 4 + 1)
     | None \<Rightarrow> (case get_ipaddr6 h (md_ifname md) of
         Some ip \<Rightarrow> (5 # 2 # ip, 1 + 16 + 1)
       | None \<Rightarrow> ([], SIZE_MAX)))"

definition mand_bld_ifname_chassis :: "mand_data \<Rightarrow> bytes \<times> nat" where
  "mand_bld_ifname_chassis md =
     (6 # name_bytes (take IFNAMSIZ (md_ifname md)), length (md_ifname md) + 1)"

definition mand_subtype :: "env \<Rightarrow> mand_data \<Rightarrow> lldp_agent \<Rightarrow> u32 \<Rightarrow> int" where
  "mand_subtype e md a ty =
     (case cfg_int e (md_ifname md) (agenttype a) (tlv_arg_path (TLVID 0 ty) ''subtype'') of
        None \<Rightarrow> 0 | Some v \<Rightarrow> v)"

definition chassis_content :: "env \<Rightarrow> host \<Rightarrow> mand_data \<Rightarrow> lldp_agent \<Rightarrow> bytes \<times> nat" where
  "chassis_content e h md a =
     (let ip_or = (\<lambda>other. let r = mand_bld_ip_chassis h md in if snd r > 0 then r else other) in
      if \<not> is_tlv_txenabled h (md_ifname md) (agenttype a) (TLVID OUI_TIA_TR41 0)
      then let subtype = mand_subtype e md a 1 in
        if subtype = 6 then mand_bld_ifname_chassis md
        else if subtype = 5 then ip_or (mand_bld_mac_chassis h md)
        else mand_bld_mac_chassis h md
      else let devtype = get_med_devtype h (md_ifname md) (agenttype a) in
        if devtype = 1 \<or> devtype = 2 \<or> devtype = 3 then ip_or (mand_bld_ifname_chassis md)
        else mand_bld_ifname_chassis md)"

definition portid_content :: "env \<Rightarrow> host \<Rightarrow> mand_data \<Rightarrow> lldp_agent \<Rightarrow> bytes \<times> nat" where
  "portid_content e h md a =
     (let name = md_ifname md; devtype = get_med_devtype h name (agenttype a);
          subtype = (if 1 \<le> devtype \<and> devtype \<le> 4
                        \<and> is_tlv_txenabled h name (agenttype a) (TLVID OUI_TIA_TR41 0)
                     then 3 else mand_subtype e md a 2);
          by_name = (5 # name_bytes (take IFNAMSIZ name), length name + 1);
          by_ip = (case get_ipaddr h name of
              Some ip \<Rightarrow> (4 # 1 # ip, 1 + 4 + 1)
            | None \<Rightarrow> (case get_ipaddr6 h name of
                Some ip \<Rightarrow> (4 # 2 # ip, 1 + 16 + 1) | None \<Rightarrow> by_name));
          mac = get_mac h name
      in if subtype = 5 then by_name
         else if subtype = 4 then by_ip
         else if is_valid_mac mac then (3 # mac, 7) else by_ip)"

subsection \<open>Building the TLVs\<close>

text \<open>
  The common tail of the two builders, from the label \<open>bld_tlv\<close>: allocate the TLV, copy
  its information, write it back to shared memory and to the configuration.
\<close>

definition mand_bld_id :: "env \<Rightarrow> string \<Rightarrow> lldp_agent \<Rightarrow> u8 \<Rightarrow> bytes \<times> nat \<Rightarrow> mand_world \<Rightarrow>
    (unpacked_tlv option \<times> mand_world) res" where
  "mand_bld_id e name a ty cl w = (case cl of (content, len) \<Rightarrow>
     if create_tlv (malloc_ok e) = None then Inr (None, w)
     else if \<not> malloc_ok e len then Inr (None, w)
     else bindR (read_bytes (content @ replicate (256 - length content) 0) 0 (unat (of_nat len :: u16))) (\<lambda>info.
       Inr (Some \<lparr>tlv_type = ty, tlv_length = of_nat len, tlv_info = Some info\<rparr>,
            w\<lparr>mand_shm := (if agenttype a = NEAREST_BRIDGE
                             then snd (lldpad_shm_set_msap (mand_shm w) name ty info) else mand_shm w),
              mand_cfg := mand_cfg w @ [(name, agenttype a, TLVID 0 (ucast ty), info)]\<rparr>)))"

definition mand_content :: "(bytes \<times> nat) \<Rightarrow> mand_data \<Rightarrow> lldp_agent \<Rightarrow> u8 \<Rightarrow> mand_world \<Rightarrow>
    ((bytes \<times> nat) \<times> mand_world) res" where
  "mand_content built md a ty w =
     (if \<not> read_shm md \<and> agenttype a = NEAREST_BRIDGE
      then bindR (lldpad_shm_get_msap (mand_shm w) (md_ifname md) ty) (\<lambda>(r, shm').
        Inr (case r of Some bs \<Rightarrow> (bs, length bs) | None \<Rightarrow> built, w\<lparr>mand_shm := shm'\<rparr>))
      else Inr (built, w))"

definition mand_bld_chassis_tlv :: "env \<Rightarrow> host \<Rightarrow> mand_data \<Rightarrow> lldp_agent \<Rightarrow> mand_world \<Rightarrow>
    (int \<times> mand_data \<times> mand_world) res" where
  "mand_bld_chassis_tlv e h md a w =
     (if \<not> rebuild_chassis md \<and> md_chassis md \<noteq> None then Inr (0, md, w)
      else let md1 = md\<lparr>rebuild_chassis := True, md_chassis := None\<rparr> in
        bindR (mand_content (chassis_content e h md1 a) md1 a 1 w) (\<lambda>(cl, w1).
        bindR (mand_bld_id e (md_ifname md) a CHASSIS_ID_TLV cl w1) (\<lambda>(r, w2).
          case r of None \<Rightarrow> Inr (EINVAL, md1, w2)
          | Some t \<Rightarrow> Inr (0, md1\<lparr>md_chassis := Some t, rebuild_chassis := False\<rparr>, w2))))"

definition mand_bld_portid_tlv :: "env \<Rightarrow> host \<Rightarrow> mand_data \<Rightarrow> lldp_agent \<Rightarrow> mand_world \<Rightarrow>
    (int \<times> mand_data \<times> mand_world) res" where
  "mand_bld_portid_tlv e h md a w =
     (if \<not> rebuild_portid md \<and> md_portid md \<noteq> None then Inr (0, md, w)
      else let md1 = md\<lparr>rebuild_portid := True, md_portid := None\<rparr> in
        bindR (mand_content (portid_content e h md1 a) md1 a 2 w) (\<lambda>(cl, w1).
        bindR (mand_bld_id e (md_ifname md) a PORT_ID_TLV cl w1) (\<lambda>(r, w2).
          case r of None \<Rightarrow> Inr (EINVAL, md1, w2)
          | Some t \<Rightarrow> Inr (0, md1\<lparr>md_portid := Some t, rebuild_portid := False\<rparr>, w2))))"

definition mand_bld_ttl_tlv :: "env \<Rightarrow> mand_data \<Rightarrow> lldp_agent \<Rightarrow> (int \<times> mand_data) res" where
  "mand_bld_ttl_tlv e md a =
     (if md_ttl md \<noteq> None \<and> md_ttl_freed md then Inl Use_After_Free
      else let md1 = md\<lparr>md_ttl_freed := (md_ttl md \<noteq> None)\<rparr> in
        if create_tlv (malloc_ok e) = None then Inr (EINVAL, md1)
        else if \<not> malloc_ok e 2 then Inr (EINVAL, md1)
        else Inr (0, md1\<lparr>md_ttl := Some \<lparr>tlv_type = TIME_TO_LIVE_TLV, tlv_length = 2,
                            tlv_info = Some (be16_bytes (txTTL (tx a)))\<rparr>, md_ttl_freed := False\<rparr>))"

definition mand_bld_end_tlv :: "env \<Rightarrow> mand_data \<Rightarrow> int \<times> mand_data" where
  "mand_bld_end_tlv e md =
     (if md_end md \<noteq> None then (0, md)
      else case create_tlv (malloc_ok e) of None \<Rightarrow> (EINVAL, md)
        | Some t \<Rightarrow> (0, md\<lparr>md_end := Some (t\<lparr>tlv_type := END_OF_LLDPDU_TLV, tlv_length := 0,
                                                 tlv_info := None\<rparr>)\<rparr>))"

definition mand_bld_tlv :: "env \<Rightarrow> host \<Rightarrow> mand_data \<Rightarrow> lldp_agent \<Rightarrow> mand_world \<Rightarrow>
    (int \<times> mand_data \<times> mand_world) res" where
  "mand_bld_tlv e h md a w =
     (if \<not> port_known h (get_ifidx e (md_ifname md)) then Inr (EEXIST, md, w)
      else bindR (mand_bld_chassis_tlv e h md a w) (\<lambda>(rc1, md1, w1).
        if rc1 \<noteq> 0 then Inr (EPERM, md1, w1)
        else bindR (mand_bld_portid_tlv e h md1 a w1) (\<lambda>(rc2, md2, w2).
          if rc2 \<noteq> 0 then Inr (EPERM, md2, w2)
          else bindR (mand_bld_ttl_tlv e md2 a) (\<lambda>(rc3, md3).
            if rc3 \<noteq> 0 then Inr (EPERM, md3, w2)
            else case mand_bld_end_tlv e md3 of (rc4, md4) \<Rightarrow>
              if rc4 \<noteq> 0 then Inr (EPERM, md4, w2) else Inr (0, md4, w2)))))"

subsection \<open>The callbacks\<close>

definition pack_three :: "allocator \<Rightarrow> mand_data \<Rightarrow> packed_tlv \<Rightarrow> int \<Rightarrow> packed_tlv option res" where
  "pack_three ok md p n =
     bindR (pack_tlv_after ok (md_chassis md) p n) (\<lambda>(rc1, p1). if rc1 \<noteq> 0 then Inr None
     else bindR (pack_tlv_after ok (md_portid md) p1 n) (\<lambda>(rc2, p2). if rc2 \<noteq> 0 then Inr None
     else bindR (pack_tlv_after ok (md_ttl md) p2 n) (\<lambda>(rc3, p3). if rc3 \<noteq> 0 then Inr None
     else Inr (Some p3))))"

definition mand_gettlv :: "env \<Rightarrow> host \<Rightarrow> port \<Rightarrow> lldp_agent \<Rightarrow> mand_world \<Rightarrow>
    (packed_tlv option \<times> mand_world) res" where
  "mand_gettlv e h p a w = (case mand_data w (ifname p) (agenttype a) of
       None \<Rightarrow> Inr (None, w)
     | Some i \<Rightarrow> bindR (mand_bld_tlv e h (mand_head w ! i) a w) (\<lambda>(rc, md, w0).
         let w1 = put_md i md w0;
             size = TLVSIZE (md_chassis md) + TLVSIZE (md_portid md) + TLVSIZE (md_ttl md)
         in if md_ttl md \<noteq> None \<and> md_ttl_freed md then Inl Use_After_Free
            else if size = 0 then Inr (None, w1)
            else case create_ptlv (malloc_ok e) of
              None \<Rightarrow> Inr (None, w1)
            | Some ptlv \<Rightarrow>
                if \<not> malloc_ok e size then Inr (None, w1)
                else bindR (pack_three (malloc_ok e) md
                       (ptlv\<lparr>ptlv_tlv := Some (replicate size 0), ptlv_size := 0\<rparr>) (int size)) (\<lambda>r.
                  Inr (r, w1))))"

definition mand_free_tlv :: "mand_data \<Rightarrow> mand_data res" where
  "mand_free_tlv md =
     (if md_ttl md \<noteq> None \<and> md_ttl_freed md then Inl Use_After_Free
      else Inr (md\<lparr>md_chassis := None, md_portid := None, md_ttl := None, md_end := None\<rparr>))"

definition mand_ifdown :: "string \<Rightarrow> lldp_agent \<Rightarrow> mand_world \<Rightarrow> mand_world res" where
  "mand_ifdown name a w = (case mand_data w name (agenttype a) of
       None \<Rightarrow> Inr w
     | Some i \<Rightarrow> bindR (mand_free_tlv ((mand_head w ! i)\<lparr>rebuild_chassis := True, rebuild_portid := True\<rparr>))
         (\<lambda>md. Inr (put_md i md w)))"

definition zero_md :: "string \<Rightarrow> agent_type \<Rightarrow> mand_data" where
  "zero_md name ty = \<lparr>md_ifname = take IFNAMSIZ name, md_agenttype = ty, md_chassis = None,
     md_portid = None, md_ttl = None, md_ttl_freed = False, md_end = None,
     rebuild_chassis = False, rebuild_portid = False, read_shm = False\<rparr>"

definition mand_ifup :: "env \<Rightarrow> host \<Rightarrow> string \<Rightarrow> lldp_agent \<Rightarrow> mand_world \<Rightarrow> mand_world res" where
  "mand_ifup e h name a w =
     (let go = (\<lambda>i w0. bindR (mand_bld_tlv e h (mand_head w0 ! i) a w0) (\<lambda>(rc, md, w1).
        if rc \<noteq> 0
        then bindR (mand_free_tlv md) (\<lambda>_. Inr (w1\<lparr>mand_head := take i (mand_head w1) @ drop (Suc i) (mand_head w1)\<rparr>))
        else Inr (put_md i (md\<lparr>read_shm := True\<rparr>) w1)))
      in case mand_data w name (agenttype a) of
           Some i \<Rightarrow> go i w
         | None \<Rightarrow> if \<not> malloc_ok e sizeof_mand_data then Inr w
             else go 0 (w\<lparr>mand_head := zero_md name (agenttype a) # mand_head w\<rparr>))"

text \<open>
  The end of the module: the data of the agents on every port the system still names, then
  whatever is left.  \<open>if_nameindex\<close> gives the interfaces, or nothing.
\<close>

fun mand_drop_agents :: "string \<Rightarrow> lldp_agent list \<Rightarrow> mand_world \<Rightarrow> mand_world res" where
  "mand_drop_agents name [] w = Inr w"
| "mand_drop_agents name (a # as) w = (case mand_data w name (agenttype a) of
       None \<Rightarrow> mand_drop_agents name as w
     | Some i \<Rightarrow> bindR (mand_free_tlv (mand_head w ! i)) (\<lambda>_. mand_drop_agents name as
         (w\<lparr>mand_head := take i (mand_head w) @ drop (Suc i) (mand_head w)\<rparr>)))"

fun mand_drop_ports :: "port list \<Rightarrow> (int \<times> string) list \<Rightarrow> mand_world \<Rightarrow> mand_world res" where
  "mand_drop_ports ps [] w = Inr w"
| "mand_drop_ports ps ((ifi, name) # ns) w = (case port_find_by_ifindex ps ifi of
       None \<Rightarrow> mand_drop_ports ps ns w
     | Some i \<Rightarrow> bindR (mand_drop_agents name (agent_head (ps ! i)) w) (mand_drop_ports ps ns))"

fun mand_free_list :: "mand_data list \<Rightarrow> unit res" where
  "mand_free_list [] = Inr ()"
| "mand_free_list (md # mds) = bindR (mand_free_tlv md) (\<lambda>_. mand_free_list mds)"

definition mand_free_data :: "mand_world \<Rightarrow> mand_world res" where
  "mand_free_data w = bindR (mand_free_list (mand_head w)) (\<lambda>_. Inr (w\<lparr>mand_head := []\<rparr>))"

definition mand_unregister :: "(int \<times> string) list option \<Rightarrow> port list \<Rightarrow> mand_world \<Rightarrow> mand_world res" where
  "mand_unregister if_nameindex ps w = (case if_nameindex of
       None \<Rightarrow> Inr w
     | Some ns \<Rightarrow> bindR (mand_drop_ports ps ns w) mand_free_data)"

subsection \<open>Invariant\<close>

definition id_tlv :: "u8 \<Rightarrow> unpacked_tlv \<Rightarrow> bool" where
  "id_tlv ty t \<longleftrightarrow> tlv_type t = ty \<and> (\<exists>bs. tlv_info t = Some bs \<and> length bs = unat (tlv_length t)
     \<and> bs \<noteq> [] \<and> length bs \<le> 256)"

definition ttl_tlv :: "unpacked_tlv \<Rightarrow> bool" where
  "ttl_tlv t \<longleftrightarrow> tlv_type t = 3 \<and> tlv_length t = 2 \<and> (\<exists>bs. tlv_info t = Some bs \<and> length bs = 2)"

text \<open>
  Between two calls the three TLVs are present together or not at all, and a chassis ID due
  for rebuilding has been freed.
\<close>

definition md_wf :: "mand_data \<Rightarrow> bool" where
  "md_wf md \<longleftrightarrow> length (md_ifname md) \<le> IFNAMSIZ \<and> pred_option (id_tlv 1) (md_chassis md)
     \<and> pred_option (id_tlv 2) (md_portid md) \<and> pred_option ttl_tlv (md_ttl md)
     \<and> \<not> (md_ttl md \<noteq> None \<and> md_ttl_freed md)
     \<and> (md_portid md = None \<longleftrightarrow> md_ttl md = None) \<and> (md_chassis md = None \<longleftrightarrow> md_ttl md = None)
     \<and> (rebuild_chassis md \<longrightarrow> md_chassis md = None)"

definition mand_inv :: "mand_world \<Rightarrow> bool" where
  "mand_inv w \<longleftrightarrow> (\<forall>md \<in> set (mand_head w). md_wf md \<and> read_shm md)"

text \<open>
  An environment in which small allocations succeed and an allocation of \<open>SIZE_MAX\<close> bytes
  fails, with addresses of the right length.
\<close>

definition host_good :: "env \<Rightarrow> host \<Rightarrow> bool" where
  "host_good e h \<longleftrightarrow> (\<forall>n \<le> 2000. malloc_ok e n) \<and> \<not> malloc_ok e SIZE_MAX
     \<and> (\<forall>n. length (get_mac h n) = 6) \<and> (\<forall>n ip. get_ipaddr h n = Some ip \<longrightarrow> length ip = 4)
     \<and> (\<forall>n ip. get_ipaddr6 h n = Some ip \<longrightarrow> length ip = 16)"

definition content_ok :: "bytes \<times> nat \<Rightarrow> bool" where
  "content_ok cl \<longleftrightarrow> 0 < snd cl \<and> snd cl \<le> 256 \<and> length (fst cl) \<le> 256"

lemma portid_content_ok:
  "host_good e h \<Longrightarrow> length (md_ifname md) \<le> 16 \<Longrightarrow> content_ok (portid_content e h md a)"
  by (auto simp: portid_content_def content_ok_def host_good_def Let_def name_bytes_def split: option.splits)

lemma chassis_content_ok:
  assumes "host_good e h" "length (md_ifname md) \<le> 16"
  shows "content_ok (chassis_content e h md a) \<or> snd (chassis_content e h md a) = SIZE_MAX"
proof -
  have "content_ok (mand_bld_mac_chassis h md)" "content_ok (mand_bld_ifname_chassis md)"
    "content_ok (mand_bld_ip_chassis h md) \<or> snd (mand_bld_ip_chassis h md) = SIZE_MAX"
    using assms by (auto simp: mand_bld_mac_chassis_def mand_bld_ifname_chassis_def
        mand_bld_ip_chassis_def content_ok_def host_good_def name_bytes_def Let_def split: option.splits)
  then show ?thesis by (auto simp: chassis_content_def Let_def)
qed

lemma mand_bld_id_ok:
  assumes "host_good e h" "content_ok cl"
  shows "\<exists>t w'. mand_bld_id e name a ty cl w = Inr (Some t, w') \<and> id_tlv ty t \<and> mand_head w' = mand_head w"
proof -
  obtain content len where cl: "cl = (content, len)" by (cases cl)
  have len: "0 < len" "len \<le> 256" "length content \<le> 256" using assms(2) by (auto simp: content_ok_def cl)
  then have u: "unat (of_nat len :: u16) = len" by (simp add: unat_of_nat)
  show ?thesis
    using assms(1) len
    by (auto simp: mand_bld_id_def cl create_tlv_def host_good_def read_bytes_def u id_tlv_def
        simp flip: length_greater_0_conv)
qed

lemma mand_bld_id_fail:
  assumes "host_good e h" "snd cl = SIZE_MAX"
  shows "mand_bld_id e name a ty cl w = Inr (None, w)"
  using assms by (cases cl) (auto simp: mand_bld_id_def host_good_def)

definition md_ready :: "mand_data \<Rightarrow> mand_world \<Rightarrow> bool" where
  "md_ready md w \<longleftrightarrow> read_shm md \<or> shm_ready (md_ifname md) (mand_shm w)"

lemma mand_content_built:
  assumes "md_ready md w" "ty = 1 \<or> ty = 2"
  shows "\<exists>cl. mand_content built md a ty w = Inr (cl, w) \<and> (cl = built \<or> content_ok cl)"
proof (cases "\<not> read_shm md \<and> agenttype a = NEAREST_BRIDGE")
  case True
  then obtain r where r: "lldpad_shm_get_msap (mand_shm w) (md_ifname md) ty = Inr (r, mand_shm w)"
    "\<forall>bs. r = Some bs \<longrightarrow> bs \<noteq> [] \<and> length bs \<le> 32"
    using get_msap_ready [of "md_ifname md" "mand_shm w", OF _ assms(2)] assms(1) unfolding md_ready_def by blast
  with True show ?thesis
    by (cases r) (auto simp: mand_content_def content_ok_def simp flip: length_greater_0_conv)
next
  case False
  then have "mand_content built md a ty w = Inr (built, w)" by (auto simp: mand_content_def)
  then show ?thesis by blast
qed

lemma mand_bld_id_ready:
  "mand_bld_id e (md_ifname md) a ty cl w = Inr (r, w') \<Longrightarrow> md_ready md w \<Longrightarrow> length (md_ifname md) \<le> 16 \<Longrightarrow>
     md_ready md w'"
  by (cases cl) (auto simp: mand_bld_id_def md_ready_def set_msap_ready elim!: bindR_InrE split: if_splits)

lemma md_ready_sel [simp]: "md_ready (md\<lparr>rebuild_chassis := b, md_chassis := x\<rparr>) w = md_ready md w"
  "md_ready (md\<lparr>md_chassis := x, rebuild_chassis := b\<rparr>) w = md_ready md w"
  "md_ready (md\<lparr>rebuild_portid := b, md_portid := y\<rparr>) w = md_ready md w"
  by (simp_all add: md_ready_def)

lemma mand_bld_chassis_tlv_ok:
  assumes "host_good e h" "md_wf md" "md_ready md w"
  shows "\<exists>rc md' w'. mand_bld_chassis_tlv e h md a w = Inr (rc, md', w') \<and> mand_head w' = mand_head w
    \<and> md_ready md w'
    \<and> (\<exists>c b. md' = md\<lparr>md_chassis := c, rebuild_chassis := b\<rparr> \<and> pred_option (id_tlv 1) c
        \<and> (rc = 0 \<longrightarrow> c \<noteq> None \<and> \<not> b) \<and> (rc \<noteq> 0 \<longrightarrow> c = None \<and> md_chassis md = None))"
proof (cases "\<not> rebuild_chassis md \<and> md_chassis md \<noteq> None")
  case True
  then have "mand_bld_chassis_tlv e h md a w = Inr (0, md, w)" by (simp add: mand_bld_chassis_tlv_def)
  moreover have "md = md\<lparr>md_chassis := md_chassis md, rebuild_chassis := rebuild_chassis md\<rparr>" by simp
  ultimately show ?thesis using True assms(2,3) unfolding md_wf_def by blast
next
  case False
  let ?md = "md\<lparr>rebuild_chassis := True, md_chassis := None\<rparr>"
  have name: "length (md_ifname md) \<le> 16" and none: "md_chassis md = None"
    using False assms(2) unfolding md_wf_def by blast+
  obtain cl where cl: "mand_content (chassis_content e h ?md a) ?md a 1 w = Inr (cl, w)"
    "cl = chassis_content e h ?md a \<or> content_ok cl"
    using mand_content_built [of ?md w 1 "chassis_content e h ?md a" a] assms(3) by auto
  then have c: "content_ok cl \<or> snd cl = SIZE_MAX"
    using chassis_content_ok [OF assms(1), of ?md a] name by auto
  have eq: "mand_bld_chassis_tlv e h md a w
      = bindR (mand_bld_id e (md_ifname md) a 1 cl w) (\<lambda>(r, w2).
          case r of None \<Rightarrow> Inr (EINVAL, ?md, w2)
          | Some t \<Rightarrow> Inr (0, ?md\<lparr>md_chassis := Some t, rebuild_chassis := False\<rparr>, w2))"
    unfolding mand_bld_chassis_tlv_def if_not_P [OF False] Let_def cl by simp
  from c show ?thesis
  proof
    assume "content_ok cl"
    then obtain t w' where t: "mand_bld_id e (md_ifname md) a 1 cl w = Inr (Some t, w')"
      "id_tlv 1 t" "mand_head w' = mand_head w"
      using mand_bld_id_ok [OF assms(1), of _ "md_ifname md" a 1 w] by blast
    show ?thesis unfolding eq t(1)
      by (rule exI [of _ 0], rule exI [of _ "md\<lparr>md_chassis := Some t, rebuild_chassis := False\<rparr>"],
          rule exI [of _ w'], intro conjI exI [of _ "Some t"] exI [of _ False])
        (simp_all add: t mand_bld_id_ready [OF t(1) assms(3) name])
  next
    assume "snd cl = SIZE_MAX"
    then have f: "mand_bld_id e (md_ifname md) a 1 cl w = Inr (None, w)" by (rule mand_bld_id_fail [OF assms(1)])
    show ?thesis unfolding eq f
      by (rule exI [of _ EINVAL], rule exI [of _ "md\<lparr>md_chassis := None, rebuild_chassis := True\<rparr>"],
          rule exI [of _ w], intro conjI exI [of _ None] exI [of _ True]) (simp_all add: none assms(3))
  qed
qed

lemma mand_bld_portid_tlv_ok:
  assumes "host_good e h" "length (md_ifname md) \<le> 16" "pred_option (id_tlv 2) (md_portid md)" "md_ready md w"
  shows "\<exists>t b w'. mand_bld_portid_tlv e h md a w = Inr (0, md\<lparr>md_portid := Some t, rebuild_portid := b\<rparr>, w')
    \<and> mand_head w' = mand_head w \<and> id_tlv 2 t"
proof (cases "\<not> rebuild_portid md \<and> md_portid md \<noteq> None")
  case True
  then obtain t where "md_portid md = Some t" "\<not> rebuild_portid md" by auto
  then have "md = md\<lparr>md_portid := Some t, rebuild_portid := False\<rparr>" "id_tlv 2 t"
    using assms(3) by simp_all
  moreover have "mand_bld_portid_tlv e h md a w = Inr (0, md, w)" using True by (simp add: mand_bld_portid_tlv_def)
  ultimately show ?thesis by metis
next
  case False
  let ?md = "md\<lparr>rebuild_portid := True, md_portid := None\<rparr>"
  obtain cl where cl: "mand_content (portid_content e h ?md a) ?md a 2 w = Inr (cl, w)"
    "cl = portid_content e h ?md a \<or> content_ok cl"
    using mand_content_built [of ?md w 2 "portid_content e h ?md a" a] assms(4) by auto
  then have "content_ok cl" using portid_content_ok [OF assms(1), of ?md a] assms(2) by auto
  then obtain t w' where t: "mand_bld_id e (md_ifname md) a 2 cl w = Inr (Some t, w')"
    "id_tlv 2 t" "mand_head w' = mand_head w"
    using mand_bld_id_ok [OF assms(1), of _ "md_ifname md" a 2 w] by blast
  have "mand_bld_portid_tlv e h md a w = Inr (0, md\<lparr>md_portid := Some t, rebuild_portid := False\<rparr>, w')"
    unfolding mand_bld_portid_tlv_def if_not_P [OF False] Let_def cl using t(1) by simp
  with t(2,3) show ?thesis by blast
qed

lemma mand_bld_end_tlv_ok:
  assumes "malloc_ok e 16"
  shows "\<exists>en. mand_bld_end_tlv e md = (0, md\<lparr>md_end := en\<rparr>)"
proof (cases "md_end md")
  case None
  with assms show ?thesis by (auto simp: mand_bld_end_tlv_def create_tlv_def)
next
  case (Some t)
  then show ?thesis by (intro exI [of _ "md_end md"]) (simp add: mand_bld_end_tlv_def)
qed

text \<open>Building keeps the invariant, whatever fails.\<close>

lemma mand_bld_tlv_ok:
  assumes g: "host_good e h" and wf: "md_wf md" "md_ready md w"
  shows "\<exists>rc md' w'. mand_bld_tlv e h md a w = Inr (rc, md', w') \<and> mand_head w' = mand_head w
    \<and> md_wf md' \<and> read_shm md' = read_shm md \<and> md_ifname md' = md_ifname md \<and> md_agenttype md' = md_agenttype md
    \<and> (rc = 0 \<longrightarrow> md_chassis md' \<noteq> None \<and> (\<exists>t. md_ttl md' = Some t \<and> tlv_info t = Some (be16_bytes (txTTL (tx a)))))
    \<and> (rc \<noteq> 0 \<longrightarrow> port_known h (get_ifidx e (md_ifname md)) \<longrightarrow> md_ttl md' = None)"
proof (cases "port_known h (get_ifidx e (md_ifname md))")
  case False
  then show ?thesis using wf by (simp add: mand_bld_tlv_def)
next
  case True
  obtain rc c b w1 where ch: "mand_bld_chassis_tlv e h md a w = Inr (rc, md\<lparr>md_chassis := c, rebuild_chassis := b\<rparr>, w1)"
    and w1: "mand_head w1 = mand_head w" "md_ready md w1" and c: "pred_option (id_tlv 1) c" "rc = 0 \<longrightarrow> c \<noteq> None \<and> \<not> b"
      "rc \<noteq> 0 \<longrightarrow> c = None \<and> md_chassis md = None"
    using mand_bld_chassis_tlv_ok [OF assms] by blast
  let ?md = "md\<lparr>md_chassis := c, rebuild_chassis := b\<rparr>"
  show ?thesis
  proof (cases "rc = 0")
    case False
    then show ?thesis using True ch w1 wf c by (simp add: mand_bld_tlv_def md_wf_def)
  next
    case rc: True
    obtain t b' w2 where po: "mand_bld_portid_tlv e h ?md a w1 = Inr (0, ?md\<lparr>md_portid := Some t, rebuild_portid := b'\<rparr>, w2)"
      and w2: "mand_head w2 = mand_head w1" and t: "id_tlv 2 t"
      using mand_bld_portid_tlv_ok [OF g, of ?md w1 a] wf(1) w1(2) by (auto simp: md_wf_def)
    let ?md2 = "?md\<lparr>md_portid := Some t, rebuild_portid := b'\<rparr>"
    let ?t3 = "\<lparr>tlv_type = 3, tlv_length = 2, tlv_info = Some (be16_bytes (txTTL (tx a)))\<rparr> :: unpacked_tlv"
    have tt: "mand_bld_ttl_tlv e ?md2 a = Inr (0, ?md2\<lparr>md_ttl := Some ?t3, md_ttl_freed := False\<rparr>)"
      using wf g by (auto simp: mand_bld_ttl_tlv_def create_tlv_def md_wf_def host_good_def)
    obtain en where "mand_bld_end_tlv e (?md2\<lparr>md_ttl := Some ?t3, md_ttl_freed := False\<rparr>)
        = (0, ?md2\<lparr>md_ttl := Some ?t3, md_ttl_freed := False, md_end := en\<rparr>)"
      using mand_bld_end_tlv_ok [of e] g by (fastforce simp: host_good_def)
    then show ?thesis
      using True ch rc po tt w1 w2 wf c t
      by (auto simp: mand_bld_tlv_def md_wf_def ttl_tlv_def)
  qed
qed

subsection \<open>Packing\<close>

definition tlv_pair :: "unpacked_tlv option \<Rightarrow> (u8 \<times> bytes) list" where
  "tlv_pair t = (case t of None \<Rightarrow> [] | Some x \<Rightarrow> [(tlv_type x, tlv_payload x)])"

definition packable :: "unpacked_tlv option \<Rightarrow> bool" where
  "packable t \<longleftrightarrow> (\<forall>x. t = Some x \<longrightarrow> wf_tlv x \<and> tlv_payload x \<noteq> [] \<and> unat (tlv_length x) \<le> 256)"

lemma tlv_pair_length: "packable t \<Longrightarrow> length (tlv_concat (tlv_pair t)) = TLVSIZE t"
  by (auto simp: tlv_pair_def TLVSIZE_def packable_def wf_tlv_payload split: option.splits)

lemma wf_seq_pair: "packable t \<Longrightarrow> wf_seq (tlv_pair t)"
  by (auto simp: tlv_pair_def packable_def wf_tlv_def tlv_payload_def split: option.splits)

text \<open>One step of packing into a block of \<open>n\<close> bytes that has room.\<close>

definition packed_as :: "nat \<Rightarrow> (u8 \<times> bytes) list \<Rightarrow> packed_tlv \<Rightarrow> bool" where
  "packed_as n ts m \<longleftrightarrow> (\<exists>buf. ptlv_tlv m = Some buf \<and> length buf = n)
     \<and> unat (ptlv_size m) = length (tlv_concat ts) \<and> mtlv_used m = tlv_concat ts"

lemma pack_step:
  assumes "packed_as n ts m" "packable t" "length (tlv_concat ts) + TLVSIZE t \<le> n" "n < 65536"
    and ok: "\<forall>k \<le> 2000. ok k"
  shows "\<exists>m'. pack_tlv_after ok t m (int n) = Inr (0, m') \<and> packed_as n (ts @ tlv_pair t) m'"
proof (cases t)
  case None
  then show ?thesis using assms(1) by (simp add: tlv_pair_def)
next
  case (Some x)
  have x: "wf_tlv x" "unat (tlv_length x) \<le> 256" using assms(2) Some by (auto simp: packable_def)
  from assms(1) obtain buf where buf: "ptlv_tlv m = Some buf" "length buf = n"
    "unat (ptlv_size m) = length (tlv_concat ts)" "mtlv_used m = tlv_concat ts"
    by (auto simp: packed_as_def)
  from pack_tlv_after_fits [OF x(1) _ _ buf(1,2) assms(4), of ok] buf ok x assms(3) Some
  show ?thesis by (auto simp: packed_as_def tlv_pair_def TLVSIZE_def wf_tlv_payload)
qed

lemma md_wf_packable:
  assumes "md_wf md"
  shows "packable (md_chassis md)" "packable (md_portid md)" "packable (md_ttl md)"
proof -
  have "packable t" if "pred_option (id_tlv ty) t" "ty \<in> {1, 2}" for t ty
    using that by (auto simp: packable_def id_tlv_def wf_tlv_def tlv_payload_def simp flip: unat_eq_0)
  then show "packable (md_chassis md)" "packable (md_portid md)"
    using assms by (auto simp: md_wf_def)
  show "packable (md_ttl md)"
    using assms by (auto simp: md_wf_def packable_def ttl_tlv_def wf_tlv_def tlv_payload_def
        pred_option_def)
qed

text \<open>What the module emits: chassis ID, port ID and time to live.\<close>

definition mand_seq :: "(u8 \<times> bytes) list \<Rightarrow> bool" where
  "mand_seq ts \<longleftrightarrow> (\<exists>cid pid ttl. length ttl = 2 \<and> cid \<noteq> [] \<and> length cid \<le> 256 \<and> pid \<noteq> [] \<and> length pid \<le> 256
     \<and> ts = [(1, cid), (2, pid), (3, ttl)])"

definition md_tlvs :: "mand_data \<Rightarrow> (u8 \<times> bytes) list" where
  "md_tlvs md = tlv_pair (md_chassis md) @ tlv_pair (md_portid md) @ tlv_pair (md_ttl md)"

lemma md_tlvs_seq:
  assumes "md_wf md" "md_ttl md \<noteq> None"
  shows "mand_seq (md_tlvs md)"
proof -
  obtain t p x where "md_ttl md = Some t" "md_portid md = Some p" "md_chassis md = Some x"
      "ttl_tlv t" "id_tlv 2 p" "id_tlv 1 x"
    using assms by (auto simp: md_wf_def)
  then show ?thesis
    by (auto simp: md_tlvs_def mand_seq_def tlv_pair_def tlv_payload_def ttl_tlv_def id_tlv_def)
qed

lemma mand_gettlv_ok:
  assumes g: "host_good e h" and inv: "mand_inv w"
  shows "\<exists>r w'. mand_gettlv e h p a w = Inr (r, w') \<and> mand_inv w'
    \<and> (\<forall>t. r = Some t \<longrightarrow> (\<exists>ts. mand_seq ts \<and> wf_seq ts \<and> ptlv_carries t ts
         \<and> ((\<forall>md \<in> set (mand_head w). port_known h (get_ifidx e (md_ifname md))) \<longrightarrow>
              last ts = (3, be16_bytes (txTTL (tx a))))))"
proof (cases "mand_data w (ifname p) (agenttype a)")
  case None
  then show ?thesis using inv by (simp add: mand_gettlv_def)
next
  case (Some i)
  then have i: "i < length (mand_head w)" by (simp add: mand_data_def find_index_Some)
  then have wf: "md_wf (mand_head w ! i)" "read_shm (mand_head w ! i)" using inv by (auto simp: mand_inv_def)
  obtain rc md w0 where b: "mand_bld_tlv e h (mand_head w ! i) a w = Inr (rc, md, w0)"
    and w0: "mand_head w0 = mand_head w" and md: "md_wf md" "read_shm md"
    and rc: "rc = 0 \<longrightarrow> (\<exists>t. md_ttl md = Some t \<and> tlv_info t = Some (be16_bytes (txTTL (tx a))))"
      "rc \<noteq> 0 \<longrightarrow> port_known h (get_ifidx e (md_ifname (mand_head w ! i))) \<longrightarrow> md_ttl md = None"
    using mand_bld_tlv_ok [OF g wf(1), of w a] wf(2) by (auto simp: md_ready_def)
  have inv1: "mand_inv (put_md i md w0)"
    using inv md w0 set_update_subset_insert [of "mand_head w" i md] by (auto simp: mand_inv_def put_md_def)
  have fr: "\<not> (md_ttl md \<noteq> None \<and> md_ttl_freed md)" using md(1) unfolding md_wf_def by blast
  let ?n = "TLVSIZE (md_chassis md) + TLVSIZE (md_portid md) + TLVSIZE (md_ttl md)"
  note pk = md_wf_packable [OF md(1)]
  show ?thesis
  proof (cases "?n = 0")
    case True
    then show ?thesis using Some b inv1 fr by (auto simp: mand_gettlv_def Let_def)
  next
    case False
    have ttl: "md_ttl md \<noteq> None" using False md(1) by (auto simp: md_wf_def TLVSIZE_def)
    have small: "?n \<le> 1000" using pk by (auto simp: packable_def TLVSIZE_def split: option.splits)
    have ok: "\<forall>k \<le> 2000. malloc_ok e k" using g by (simp add: host_good_def)
    let ?m = "\<lparr>ptlv_size = 0, ptlv_tlv = Some (replicate ?n 0)\<rparr> :: packed_tlv"
    have m0: "packed_as ?n [] ?m" by (simp add: packed_as_def mtlv_used_def)
    obtain m1 where s1: "pack_tlv_after (malloc_ok e) (md_chassis md) ?m (int ?n) = Inr (0, m1)"
      "packed_as ?n (tlv_pair (md_chassis md)) m1"
      using pack_step [OF m0 pk(1) _ _ ok] small by auto
    obtain m2 where s2: "pack_tlv_after (malloc_ok e) (md_portid md) m1 (int ?n) = Inr (0, m2)"
      "packed_as ?n (tlv_pair (md_chassis md) @ tlv_pair (md_portid md)) m2"
      using pack_step [OF s1(2) pk(2) _ _ ok] small tlv_pair_length [OF pk(1)] by auto
    obtain m3 where s3: "pack_tlv_after (malloc_ok e) (md_ttl md) m2 (int ?n) = Inr (0, m3)"
      "packed_as ?n (md_tlvs md) m3"
      using pack_step [OF s2(2) pk(3) _ _ ok] small tlv_pair_length [OF pk(1)] tlv_pair_length [OF pk(2)]
      by (auto simp: md_tlvs_def)
    have three: "pack_three (malloc_ok e) md ?m (int ?n) = Inr (Some m3)"
      unfolding pack_three_def s1(1) using s2(1) s3(1) by simp
    have "ptlv_carries m3 (md_tlvs md)"
      using s3(2) tlv_pair_length [OF pk(1)] tlv_pair_length [OF pk(2)] tlv_pair_length [OF pk(3)]
      by (auto simp: packed_as_def ptlv_carries_def mtlv_used_def md_tlvs_def)
    moreover have "wf_seq (md_tlvs md)" using pk [THEN wf_seq_pair] by (simp add: md_tlvs_def)
    moreover have "mand_gettlv e h p a w = Inr (Some m3, put_md i md w0)"
      using Some b False ok small three fr
      by (auto simp: mand_gettlv_def Let_def create_ptlv_def)
    moreover have "last (md_tlvs md) = (3, be16_bytes (txTTL (tx a)))"
      if "\<forall>md \<in> set (mand_head w). port_known h (get_ifidx e (md_ifname md))"
      using that rc ttl i md(1) by (fastforce simp: md_tlvs_def tlv_pair_def tlv_payload_def md_wf_def ttl_tlv_def)
    ultimately show ?thesis using inv1 md_tlvs_seq [OF md(1) ttl] by auto
  qed
qed

subsection \<open>Interfaces coming and going\<close>

lemma put_md_inv: "mand_inv w \<Longrightarrow> md_wf md \<Longrightarrow> read_shm md \<Longrightarrow> mand_inv (put_md i md w)"
  using set_update_subset_insert [of "mand_head w" i md] by (auto simp: mand_inv_def put_md_def)

lemma mand_data_wf: "mand_inv w \<Longrightarrow> mand_data w name ty = Some i \<Longrightarrow>
    i < length (mand_head w) \<and> md_wf (mand_head w ! i) \<and> read_shm (mand_head w ! i)"
  using find_index_Some by (fastforce simp: mand_data_def mand_inv_def)

lemma mand_ifdown_inv:
  assumes "mand_inv w"
  shows "\<exists>w'. mand_ifdown name a w = Inr w' \<and> mand_inv w'"
proof (cases "mand_data w name (agenttype a)")
  case None
  then show ?thesis using assms by (simp add: mand_ifdown_def)
next
  case (Some i)
  have "md_wf (mand_head w ! i)" "read_shm (mand_head w ! i)" using mand_data_wf [OF assms Some] by auto
  then show ?thesis
    using Some put_md_inv [OF assms]
    by (auto simp: mand_ifdown_def mand_free_tlv_def md_wf_def)
qed

lemma mand_ifup_inv:
  assumes g: "host_good e h" and inv: "mand_inv w" and shm: "shm_ready (take 16 name) (mand_shm w)"
  shows "\<exists>w'. mand_ifup e h name a w = Inr w' \<and> mand_inv w'"
proof -
  define go where "go = (\<lambda>i w0. bindR (mand_bld_tlv e h (mand_head w0 ! i) a w0) (\<lambda>(rc, md, w1).
        if rc \<noteq> 0
        then bindR (mand_free_tlv md) (\<lambda>_. Inr (w1\<lparr>mand_head := take i (mand_head w1) @ drop (Suc i) (mand_head w1)\<rparr>))
        else Inr (put_md i (md\<lparr>read_shm := True\<rparr>) w1)))"
  have go: "\<exists>w'. go i w0 = Inr w' \<and> mand_inv w'"
    if "i < length (mand_head w0)" "md_wf (mand_head w0 ! i)" "md_ready (mand_head w0 ! i) w0"
      "\<forall>j. j < length (mand_head w0) \<longrightarrow> j \<noteq> i \<longrightarrow> md_wf (mand_head w0 ! j) \<and> read_shm (mand_head w0 ! j)" for i w0
  proof -
    note asm = that
    obtain rc md w1 where b: "mand_bld_tlv e h (mand_head w0 ! i) a w0 = Inr (rc, md, w1)"
      "mand_head w1 = mand_head w0" "md_wf md" using mand_bld_tlv_ok [OF g asm(2,3)] by blast
    have "\<not> (md_ttl md \<noteq> None \<and> md_ttl_freed md)" using b(3) unfolding md_wf_def by blast
    then obtain md' where "mand_free_tlv md = Inr md'" by (auto simp: mand_free_tlv_def)
    moreover have "mand_inv (w1\<lparr>mand_head := take i (mand_head w0) @ drop (Suc i) (mand_head w0)\<rparr>)"
      using asm(1,4) by (fastforce simp: mand_inv_def in_set_conv_nth nth_append)
    moreover have "mand_inv (put_md i (md\<lparr>read_shm := True\<rparr>) w1)"
    proof -
      have "md_wf (md\<lparr>read_shm := True\<rparr>)" using b(3) by (simp add: md_wf_def)
      then show ?thesis
        using asm(1,4) b(2) by (auto simp: mand_inv_def put_md_def in_set_conv_nth nth_list_update)
    qed
    ultimately show ?thesis using b by (auto simp: go_def)
  qed
  show ?thesis
  proof (cases "mand_data w name (agenttype a)")
    case (Some i)
    have "mand_ifup e h name a w = go i w" by (simp add: mand_ifup_def go_def Some Let_def)
    then show ?thesis
      using go [of i w] mand_data_wf [OF inv Some] inv by (auto simp: mand_inv_def md_ready_def)
  next
    case None
    let ?w = "w\<lparr>mand_head := zero_md name (agenttype a) # mand_head w\<rparr>"
    have "malloc_ok e 80" using g by (simp add: host_good_def)
    then have "mand_ifup e h name a w = go 0 ?w" by (simp add: mand_ifup_def go_def None Let_def)
    moreover have "md_wf (zero_md name (agenttype a))" "md_ready (zero_md name (agenttype a)) ?w"
      using shm by (simp_all add: zero_md_def md_wf_def md_ready_def)
    ultimately show ?thesis
      using go [of 0 ?w] inv by (auto simp: mand_inv_def nth_Cons split: nat.splits)
  qed
qed

subsection \<open>The end of the module\<close>

lemma mand_inv_drop: "mand_inv w \<Longrightarrow> mand_inv (w\<lparr>mand_head := take i (mand_head w) @ drop j (mand_head w)\<rparr>)"
  by (auto simp: mand_inv_def dest: in_set_takeD in_set_dropD)

lemma mand_free_wf: "md_wf md \<Longrightarrow> \<exists>md'. mand_free_tlv md = Inr md'"
  by (auto simp: mand_free_tlv_def md_wf_def)

lemma mand_drop_agents_inv: "mand_inv w \<Longrightarrow> \<exists>w'. mand_drop_agents name as w = Inr w' \<and> mand_inv w'"
proof (induction as arbitrary: w)
  case (Cons a as)
  show ?case
  proof (cases "mand_data w name (agenttype a)")
    case (Some i)
    then have "md_wf (mand_head w ! i)"
      using Cons.prems by (auto simp: mand_data_def mand_inv_def dest: find_index_Some)
    with Some Cons mand_free_wf mand_inv_drop show ?thesis by fastforce
  qed (use Cons in simp)
qed simp

lemma mand_drop_ports_inv: "mand_inv w \<Longrightarrow> \<exists>w'. mand_drop_ports ps ns w = Inr w' \<and> mand_inv w'"
proof (induction ns arbitrary: w)
  case (Cons n ns)
  obtain ifi name where n: "n = (ifi, name)" by (cases n)
  show ?case
  proof (cases "port_find_by_ifindex ps ifi")
    case (Some i)
    obtain w1 where "mand_drop_agents name (agent_head (ps ! i)) w = Inr w1" "mand_inv w1"
      using mand_drop_agents_inv [OF Cons.prems] by blast
    with Some Cons.IH [of w1] show ?thesis by (simp add: n)
  qed (use Cons in \<open>simp add: n\<close>)
qed simp

lemma mand_free_list_wf: "\<forall>md \<in> set mds. md_wf md \<Longrightarrow> mand_free_list mds = Inr ()"
  using mand_free_wf by (induction mds) fastforce+

lemma mand_unregister_ok:
  assumes "mand_inv w"
  shows "\<exists>w'. mand_unregister (Some ns) ps w = Inr w' \<and> mand_head w' = []"
proof -
  obtain w1 where w1: "mand_drop_ports ps ns w = Inr w1" "mand_inv w1"
    using mand_drop_ports_inv [OF assms] by blast
  then have "mand_free_list (mand_head w1) = Inr ()" by (intro mand_free_list_wf) (simp add: mand_inv_def)
  with w1 show ?thesis by (simp add: mand_unregister_def mand_free_data_def)
qed

end
