(* ===== verification/Evb22.thy ===== *)
theory Evb22
  imports Mand
begin

text \<open>
  The EVB TLV of IEEE 802.1Qbg, \<open>src/lldp_evb22.c\<close>, the bit fields of
  \<open>src/include/lldp_evb22.h\<close> and the policy settings of \<open>src/lldp_evb22_cmds.c\<close>: bridge and
  station negotiate retries, exponents and delays by taking the larger of the two values.
  The notifications sent to the ECP and VDP modules and the start and stop of these modules
  are recorded as histories.
\<close>

subsection \<open>Bit fields\<close>

definition evb_maskoff_retries :: "u8 \<Rightarrow> u8" where "evb_maskoff_retries v = v AND 0x1f"
definition evb_set_retries :: "u8 \<Rightarrow> u8" where "evb_set_retries v = push_bit 5 (v AND 7)"
definition evb_ex_retries :: "u8 \<Rightarrow> u8" where "evb_ex_retries v = drop_bit 5 v AND 7"
definition evb_maskoff_rte :: "u8 \<Rightarrow> u8" where "evb_maskoff_rte v = v AND 0xe0"
definition evb_set_rte :: "u8 \<Rightarrow> u8" where "evb_set_rte v = v AND 0x1f"
definition evb_ex_rte :: "u8 \<Rightarrow> u8" where "evb_ex_rte v = v AND 0x1f"
definition evb_maskoff_evbmode :: "u8 \<Rightarrow> u8" where "evb_maskoff_evbmode v = v AND 0x3f"
definition evb_set_evbmode :: "u8 \<Rightarrow> u8" where "evb_set_evbmode v = push_bit 6 (v AND 3)"
definition evb_ex_evbmode :: "u8 \<Rightarrow> u8" where "evb_ex_evbmode v = drop_bit 6 v AND 3"
definition evb_set_rol :: "u8 \<Rightarrow> u8" where "evb_set_rol v = push_bit 5 (v AND 1)"
definition evb_ex_rol :: "u8 \<Rightarrow> u8" where "evb_ex_rol v = drop_bit 5 v AND 1"
definition evb_maskoff_rwd :: "u8 \<Rightarrow> u8" where "evb_maskoff_rwd v = v AND 0xe0"
definition evb_set_rwd :: "u8 \<Rightarrow> u8" where "evb_set_rwd v = v AND 0x1f"
definition evb_ex_rwd :: "u8 \<Rightarrow> u8" where "evb_ex_rwd v = v AND 0x1f"
definition evb_maskoff_rka :: "u8 \<Rightarrow> u8" where "evb_maskoff_rka v = v AND 0xe0"
definition evb_set_rka :: "int \<Rightarrow> u8" where "evb_set_rka v = word_of_int v AND 0x1f"
definition evb_ex_rka :: "u8 \<Rightarrow> u8" where "evb_ex_rka v = v AND 0x1f"
definition evb_maskoff_rrstat :: "u8 \<Rightarrow> u8" where "evb_maskoff_rrstat v = v AND 0xfc"
definition evb_set_rrstat :: "int \<Rightarrow> u8" where "evb_set_rrstat v = word_of_int v AND 3"
definition evb_ex_rrstat :: "u8 \<Rightarrow> u8" where "evb_ex_rrstat v = v AND 3"
definition evb_maskoff_rrreq :: "int \<Rightarrow> u8" where "evb_maskoff_rrreq v = word_of_int v AND 0xfb"
definition evb_set_rrreq :: "int \<Rightarrow> u8" where "evb_set_rrreq v = push_bit 2 (word_of_int v AND 1)"
definition evb_ex_rrreq :: "u8 \<Rightarrow> u8" where "evb_ex_rrreq v = drop_bit 2 v AND 1"
definition evb_maskoff_sgid :: "int \<Rightarrow> u8" where "evb_maskoff_sgid v = word_of_int v AND 0xf7"
definition evb_set_sgid :: "int \<Rightarrow> u8" where "evb_set_sgid v = push_bit 3 (word_of_int v AND 1)"
definition evb_ex_sgid :: "u8 \<Rightarrow> u8" where "evb_ex_sgid v = drop_bit 3 v AND 1"
definition evb_maskoff_rrcap :: "int \<Rightarrow> u8" where "evb_maskoff_rrcap v = word_of_int v AND 0xfd"
definition evb_set_rrcap :: "int \<Rightarrow> u8" where "evb_set_rrcap v = push_bit 1 (word_of_int v AND 1)"
definition evb_ex_rrcap :: "u8 \<Rightarrow> u8" where "evb_ex_rrcap v = drop_bit 1 v AND 1"
definition evb_set_rrctr :: "int \<Rightarrow> u8" where "evb_set_rrctr v = word_of_int v AND 1"
definition evb_ex_rrctr :: "u8 \<Rightarrow> u8" where "evb_ex_rrctr v = v AND 1"
definition evb_maskoff_bgid :: "int \<Rightarrow> u8" where "evb_maskoff_bgid v = word_of_int v AND 0xfb"
definition evb_set_bgid :: "int \<Rightarrow> u8" where "evb_set_bgid v = push_bit 2 (word_of_int v AND 1)"
definition evb_ex_bgid :: "u8 \<Rightarrow> u8" where "evb_ex_bgid v = drop_bit 2 v AND 1"

lemmas evb_field_defs =
  evb_set_retries_def evb_ex_retries_def evb_set_rte_def evb_ex_rte_def evb_set_evbmode_def
  evb_ex_evbmode_def evb_set_rol_def evb_ex_rol_def evb_set_rwd_def evb_ex_rwd_def evb_set_rka_def
  evb_ex_rka_def evb_maskoff_rrstat_def evb_set_rrstat_def evb_ex_rrstat_def evb_set_rrreq_def
  evb_ex_rrreq_def evb_set_sgid_def evb_ex_sgid_def evb_set_rrcap_def evb_ex_rrcap_def
  evb_set_rrctr_def evb_ex_rrctr_def evb_set_bgid_def evb_ex_bgid_def

subsection \<open>State\<close>

abbreviation (input) EVB_BRIDGE :: u8 where "EVB_BRIDGE \<equiv> 1"
abbreviation (input) EVB_STATION :: u8 where "EVB_STATION \<equiv> 2"
abbreviation (input) EVB_RRSTAT_YES :: int where "EVB_RRSTAT_YES \<equiv> 1"
abbreviation (input) EVB_RRSTAT_NO :: int where "EVB_RRSTAT_NO \<equiv> 0"
abbreviation (input) EVB_RRSTAT_DONT :: int where "EVB_RRSTAT_DONT \<equiv> 3"
abbreviation (input) OUI_IEEE_8021Qbg :: u32 where "OUI_IEEE_8021Qbg \<equiv> 0x001b3f"
abbreviation (input) OUI_IEEE_8021Qbg22 :: u32 where "OUI_IEEE_8021Qbg22 \<equiv> 0x0080c2"
abbreviation (input) LLDP_MOD_EVB22 :: int where "LLDP_MOD_EVB22 \<equiv> 0x80c2"
abbreviation (input) OUI_SUB_SIZE :: nat where "OUI_SUB_SIZE \<equiv> 4"
abbreviation (input) sizeof_evb22_data :: nat where "sizeof_evb22_data \<equiv> 72"

definition LLDP_MOD_EVB22_OUI :: bytes where
  "LLDP_MOD_EVB22_OUI = [0x00, 0x80, 0xc2, 0x0d]"

record evb22_tlv =
  evb_oui :: bytes
  evb_sub :: u8
  bridge_s :: u8
  station_s :: u8
  r_rte :: u8
  evb_mode :: u8
  rl_rka :: u8

definition zero_evb22_tlv :: evb22_tlv where
  "zero_evb22_tlv = \<lparr>evb_oui = [0, 0, 0], evb_sub = 0, bridge_s = 0, station_s = 0, r_rte = 0,
     evb_mode = 0, rl_rka = 0\<rparr>"

text \<open>The packed structure has nine bytes, in the order of its fields.\<close>

definition evb22_bytes :: "evb22_tlv \<Rightarrow> bytes" where
  "evb22_bytes t = evb_oui t @ [evb_sub t, bridge_s t, station_s t, r_rte t, evb_mode t, rl_rka t]"

definition evb22_of_bytes :: "bytes \<Rightarrow> evb22_tlv" where
  "evb22_of_bytes bs = \<lparr>evb_oui = take 3 bs, evb_sub = bs ! 3, bridge_s = bs ! 4, station_s = bs ! 5,
     r_rte = bs ! 6, evb_mode = bs ! 7, rl_rka = bs ! 8\<rparr>"

record evb22_data =
  ed_ifname :: string
  ed_agenttype :: agent_type
  txmit :: bool
  vdp_start :: bool
  evb_out :: evb22_tlv
  evb_last :: evb22_tlv
  evb_policy :: evb22_tlv

datatype qbg22_imm =
    EVB22_TO_ECP22 (ecp_max_rte: u8) (ecp_max_retry: u8)
  | EVB22_TO_VDP22 (vdp_max_rka: u8) (vdp_max_rwd: u8) (vdp_max_rte: u8) (vdp_max_retry: u8)
      (vdp_gpid: bool) (vdp_evbon: bool)
  | ECP22_TO_ULP (ulp_len: u16) (ulp_data: bytes)
  | VDP22_TO_ECP22 (ecp_len: u16) (ecp_data: bytes)

datatype evb22_event = Notify string qbg22_imm | Start_Modules string u8 | Stop_Modules string

record evb22_world =
  evb22_head :: "evb22_data list"
  evb22_events :: "evb22_event list"

definition evb22_data :: "evb22_world \<Rightarrow> string \<Rightarrow> agent_type \<Rightarrow> nat option" where
  "evb22_data w name ty = find_index (\<lambda>ed. strn_eq IFNAMSIZ name (ed_ifname ed) \<and> ty = ed_agenttype ed)
     (evb22_head w)"

definition put_ed :: "nat \<Rightarrow> evb22_data \<Rightarrow> evb22_world \<Rightarrow> evb22_world" where
  "put_ed i ed w = w\<lparr>evb22_head := (evb22_head w)[i := ed]\<rparr>"

subsection \<open>Negotiation\<close>

definition common_tlv :: "evb22_data \<Rightarrow> evb22_data" where
  "common_tlv ed =
     (let recv = evb_last ed; mine = evb_policy ed;
          pick = (\<lambda>m r. if m > r then m else r);
          retries = pick (evb_ex_retries (r_rte mine)) (evb_ex_retries (r_rte recv));
          rte = pick (evb_ex_rte (r_rte mine)) (evb_ex_rte (r_rte recv));
          rwd = pick (evb_ex_rwd (evb_mode mine)) (evb_ex_rwd (evb_mode recv));
          rka = pick (evb_ex_rka (rl_rka mine)) (evb_ex_rka (rl_rka recv));
          mode0 = evb_set_evbmode (evb_ex_evbmode (evb_mode mine));
          mode1 = (if evb_ex_rwd (evb_mode mine) > evb_ex_rwd (evb_mode recv) then mode0
                   else mode0 OR evb_set_rol 1);
          rka0 = (if evb_ex_rka (rl_rka mine) > evb_ex_rka (rl_rka recv) then 0 else evb_set_rol 1)
      in ed\<lparr>evb_out := (evb_out ed)\<lparr>r_rte := evb_set_retries retries OR evb_set_rte rte,
              evb_mode := mode1 OR evb_set_rwd rwd, rl_rka := rka0 OR evb_set_rka (uint rka)\<rparr>\<rparr>)"

definition bridge_tlv :: "evb22_data \<Rightarrow> evb22_data" where
  "bridge_tlv ed =
     (let recv = evb_last ed; mine = evb_policy ed;
          b = (if evb_ex_rrreq (station_s recv) \<noteq> 0 \<and> evb_ex_rrcap (bridge_s mine) \<noteq> 0
               then bridge_s mine OR evb_set_rrctr 1 else bridge_s mine)
      in common_tlv (ed\<lparr>evb_out := (evb_out ed)\<lparr>station_s := station_s recv, bridge_s := b\<rparr>\<rparr>))"

definition station_tlv :: "evb22_data \<Rightarrow> evb22_data" where
  "station_tlv ed =
     (let recv = evb_last ed; mine = evb_policy ed;
          val = (if evb_oui recv ! 1 = 0 then EVB_RRSTAT_DONT
                 else if evb_ex_rrctr (bridge_s recv) \<noteq> 0 then EVB_RRSTAT_YES else EVB_RRSTAT_NO)
      in common_tlv (ed\<lparr>evb_out := (evb_out ed)\<lparr>bridge_s := bridge_s recv,
           station_s := evb_maskoff_rrstat (station_s mine) OR evb_set_rrstat val\<rparr>\<rparr>))"

definition evb22_update_tlv :: "evb22_data \<Rightarrow> evb22_data \<times> evb22_event list" where
  "evb22_update_tlv ed0 =
     (let ed = (if evb_ex_evbmode (evb_mode (evb_policy ed0)) = EVB_STATION
                then station_tlv ed0 else bridge_tlv ed0);
          out = evb_out ed
      in (ed, [Notify (ed_ifname ed) (EVB22_TO_ECP22 (evb_ex_rte (r_rte out)) (evb_ex_retries (r_rte out))),
               Notify (ed_ifname ed) (EVB22_TO_VDP22 (evb_ex_rka (rl_rka out)) (evb_ex_rwd (evb_mode out))
                 (evb_ex_rte (r_rte out)) (evb_ex_retries (r_rte out))
                 (evb_ex_bgid (bridge_s out) \<noteq> 0 \<and> evb_ex_sgid (station_s out) \<noteq> 0) (txmit ed))]))"

definition evb22_update :: "nat \<Rightarrow> evb22_world \<Rightarrow> evb22_data \<times> evb22_world" where
  "evb22_update i w = (case evb22_update_tlv (evb22_head w ! i) of (ed, evs) \<Rightarrow>
     (ed, (put_ed i ed w)\<lparr>evb22_events := evb22_events w @ evs\<rparr>))"

subsection \<open>The callbacks\<close>

definition evb22_build_tlv :: "allocator \<Rightarrow> nat \<Rightarrow> evb22_world \<Rightarrow> (packed_tlv option \<times> evb22_world) res" where
  "evb22_build_tlv ok i w = (case evb22_update i w of (ed, w') \<Rightarrow>
     bindR (pack_tlv ok (Some \<lparr>tlv_type = ORG_SPECIFIC_TLV, tlv_length = 9,
                               tlv_info = Some (evb22_bytes (evb_out ed))\<rparr>)) (\<lambda>r. Inr (r, w')))"

definition evb22_gettlv :: "env \<Rightarrow> port \<Rightarrow> lldp_agent \<Rightarrow> evb22_world \<Rightarrow> (packed_tlv option \<times> evb22_world) res" where
  "evb22_gettlv e p a w =
     (if agenttype a \<noteq> NEAREST_CUSTOMER_BRIDGE then Inr (None, w)
      else case evb22_data w (ifname p) (agenttype a) of
        None \<Rightarrow> Inr (None, w)
      | Some i \<Rightarrow> if txmit (evb22_head w ! i) then evb22_build_tlv (malloc_ok e) i w else Inr (None, w))"

definition copy_last :: "evb22_tlv \<Rightarrow> bytes \<Rightarrow> nat \<Rightarrow> evb22_tlv res" where
  "copy_last old info len = bindR (read_bytes info 0 len) (\<lambda>bs.
     bindR (write_bytes (evb22_bytes old) 0 bs) (\<lambda>new. Inr (evb22_of_bytes new)))"

definition evb22_rchange :: "env \<Rightarrow> port \<Rightarrow> lldp_agent \<Rightarrow> unpacked_tlv \<Rightarrow> evb22_world \<Rightarrow>
    (int \<times> lldp_agent \<times> evb22_world) res" where
  "evb22_rchange e p a tlv w =
     (if agenttype a \<noteq> NEAREST_CUSTOMER_BRIDGE then Inr (0, a, w)
      else case evb22_data w (ifname p) (agenttype a) of
        None \<Rightarrow> Inr (SUBTYPE_INVALID, a, w)
      | Some i \<Rightarrow>
          if tlv_type tlv \<noteq> ORG_SPECIFIC_TLV then Inr (TLV_OK, a, w)
          else if unat (tlv_length tlv) < OUI_SUB_SIZE then Inr (TLV_ERR, a, w)
          else bindR (derefR (tlv_info tlv)) (\<lambda>info. bindR (read_bytes info 0 OUI_SUB_SIZE) (\<lambda>oui.
            if oui \<noteq> LLDP_MOD_EVB22_OUI then Inr (SUBTYPE_INVALID, a, w)
            else if \<not> txmit (evb22_head w ! i) then Inr (TLV_OK, a, w)
            else let ed = evb22_head w ! i in
              bindR (copy_last (evb_last ed) info (unat (tlv_length tlv))) (\<lambda>new.
                let w1 = put_ed i (ed\<lparr>evb_last := new\<rparr>) w;
                    w2 = snd (evb22_update i w1);
                    a' = (if get_ifidx e (ed_ifname ed) = ifindex p then somethingChanged a else a)
                in Inr (TLV_OK, a', w2)))))"

definition evb22_stop_modules :: "string \<Rightarrow> evb22_world \<Rightarrow> evb22_world" where
  "evb22_stop_modules name w = w\<lparr>evb22_events := evb22_events w @ [Stop_Modules name]\<rparr>"

definition evb22_ifdown :: "string \<Rightarrow> lldp_agent \<Rightarrow> evb22_world \<Rightarrow> evb22_world" where
  "evb22_ifdown name a w =
     (if agenttype a \<noteq> NEAREST_CUSTOMER_BRIDGE then w
      else case evb22_data w name (agenttype a) of
        None \<Rightarrow> w
      | Some i \<Rightarrow>
          let w1 = (if vdp_start (evb22_head w ! i) then evb22_stop_modules name w else w)
          in w1\<lparr>evb22_head := take i (evb22_head w1) @ drop (Suc i) (evb22_head w1)\<rparr>)"

subsection \<open>Policy settings\<close>

definition evb22_conf_int :: "env \<Rightarrow> string \<Rightarrow> agent_type \<Rightarrow> string \<Rightarrow> int \<Rightarrow> int" where
  "evb22_conf_int e name ty ext def =
     (case cfg_int e name ty (tlv_arg_path (TLVID OUI_IEEE_8021Qbg22 0xd) ext) of
        None \<Rightarrow> def | Some v \<Rightarrow> v)"

definition exponent :: "env \<Rightarrow> string \<Rightarrow> agent_type \<Rightarrow> string \<Rightarrow> int \<Rightarrow> int" where
  "exponent e name ty txt def = (let v = evb22_conf_int e name ty txt def in if v > 31 then def else v)"

definition evb22_conf_rte :: "env \<Rightarrow> string \<Rightarrow> agent_type \<Rightarrow> int" where
  "evb22_conf_rte e name ty = exponent e name ty ''ecprte'' 8"

definition evb22_conf_rka :: "env \<Rightarrow> string \<Rightarrow> agent_type \<Rightarrow> int" where
  "evb22_conf_rka e name ty = exponent e name ty ''vdprka'' 20"

definition evb22_conf_rwd :: "env \<Rightarrow> string \<Rightarrow> agent_type \<Rightarrow> int" where
  "evb22_conf_rwd e name ty = exponent e name ty ''vdprwd'' 20"

definition evb22_conf_retries :: "env \<Rightarrow> string \<Rightarrow> agent_type \<Rightarrow> int" where
  "evb22_conf_retries e name ty =
     (let v = evb22_conf_int e name ty ''ecpretries'' 3 in if v > 7 then 3 else v)"

definition evb22_conf_gid :: "env \<Rightarrow> string \<Rightarrow> agent_type \<Rightarrow> int" where
  "evb22_conf_gid e name ty = evb22_conf_int e name ty ''evbgpid'' 0"

definition evb22_conf_rrcap :: "env \<Rightarrow> string \<Rightarrow> agent_type \<Rightarrow> int" where
  "evb22_conf_rrcap e name ty = evb22_conf_int e name ty ''evbrrcap'' 0"

definition evb22_conf_rrreq :: "env \<Rightarrow> string \<Rightarrow> agent_type \<Rightarrow> int" where
  "evb22_conf_rrreq e name ty = evb22_conf_int e name ty ''evbrrreq'' 0"

text \<open>\<open>strcasecmp\<close> compares letters without regard to case (in the C locale).\<close>

definition lower :: "char \<Rightarrow> nat" where
  "lower ch = (let n = (of_char ch :: nat) in if 65 \<le> n \<and> n \<le> 90 then n + 32 else n)"

definition strcaseeq :: "string \<Rightarrow> string \<Rightarrow> bool" where
  "strcaseeq x y \<longleftrightarrow> map lower x = map lower y"

definition evb22_conf_evbmode :: "host \<Rightarrow> string \<Rightarrow> agent_type \<Rightarrow> u8" where
  "evb22_conf_evbmode h name ty =
     (case cfg_str h name ty (tlv_arg_path (TLVID OUI_IEEE_8021Qbg22 0xd) ''evbmode'') of
        None \<Rightarrow> EVB_STATION
      | Some v \<Rightarrow> if strcaseeq v ''bridge'' then EVB_BRIDGE else EVB_STATION)"

definition evb22_conf_enabletx :: "host \<Rightarrow> string \<Rightarrow> agent_type \<Rightarrow> bool" where
  "evb22_conf_enabletx h name ty = is_tlv_txenabled h name ty (TLVID OUI_IEEE_8021Qbg22 0xd)"

subsection \<open>Interface events, timer and deletion\<close>

definition evb22_init_tlv :: "env \<Rightarrow> host \<Rightarrow> evb22_data \<Rightarrow> lldp_agent \<Rightarrow> evb22_data" where
  "evb22_init_tlv e h ed a =
     (let name = ed_ifname ed; ty = agenttype a;
          mode = evb22_conf_evbmode h name ty;
          pol = zero_evb22_tlv\<lparr>evb_oui := [0x00, 0x80, 0xc2], evb_sub := 0xd,
            evb_mode := evb_set_rol 0 OR evb_set_rwd (word_of_int (evb22_conf_rwd e name ty))
                        OR evb_set_evbmode mode,
            station_s := (if mode = EVB_STATION
              then evb_set_rrstat EVB_RRSTAT_DONT OR evb_set_sgid (evb22_conf_gid e name ty)
                   OR evb_set_rrreq (uint (word_of_int (evb22_conf_rrreq e name ty) :: u8)) else 0),
            bridge_s := (if mode = EVB_STATION then 0
              else evb_set_rrcap (uint (word_of_int (evb22_conf_rrcap e name ty) :: u8))
                   OR evb_set_bgid (evb22_conf_gid e name ty)),
            r_rte := evb_set_retries (word_of_int (evb22_conf_retries e name ty))
                     OR evb_set_rte (word_of_int (evb22_conf_rte e name ty)),
            rl_rka := evb_set_rol 0 OR evb_set_rka (evb22_conf_rka e name ty)\<rparr>
      in ed\<lparr>evb_last := zero_evb22_tlv,
            evb_out := zero_evb22_tlv\<lparr>evb_oui := [0x00, 0x80, 0xc2], evb_sub := 0xd\<rparr>,
            evb_policy := pol, txmit := evb22_conf_enabletx h name ty\<rparr>)"

definition evb22_ifup :: "env \<Rightarrow> host \<Rightarrow> string \<Rightarrow> lldp_agent \<Rightarrow> evb22_world \<Rightarrow> evb22_world" where
  "evb22_ifup e h name a w =
     (if agenttype a \<noteq> NEAREST_CUSTOMER_BRIDGE then w
      else if is_tlv_txenabled h name (agenttype a) (TLVID OUI_IEEE_8021Qbg 0) then w
      else if evb22_data w name (agenttype a) \<noteq> None then w
      else if \<not> malloc_ok e sizeof_evb22_data then w
      else let ed = \<lparr>ed_ifname = take IFNAMSIZ name, ed_agenttype = agenttype a, txmit = False,
             vdp_start = False, evb_out = zero_evb22_tlv, evb_last = zero_evb22_tlv,
             evb_policy = zero_evb22_tlv\<rparr>
           in w\<lparr>evb22_head := evb22_init_tlv e h ed a # evb22_head w\<rparr>)"

definition evb22_timer :: "port \<Rightarrow> lldp_agent \<Rightarrow> evb22_world \<Rightarrow> evb22_world" where
  "evb22_timer p a w =
     (if agenttype a \<noteq> NEAREST_CUSTOMER_BRIDGE then w
      else case evb22_data w (ifname p) (agenttype a) of
        None \<Rightarrow> w
      | Some i \<Rightarrow> let ed = evb22_head w ! i in
          if vdp_start ed then w
          else (put_ed i (ed\<lparr>vdp_start := True\<rparr>) w)\<lparr>evb22_events := evb22_events w
                 @ [Start_Modules (ifname p) (evb_ex_evbmode (evb_mode (evb_policy ed)))]\<rparr>)"

definition evb22_mibdelete :: "port \<Rightarrow> lldp_agent \<Rightarrow> evb22_world \<Rightarrow> evb22_world" where
  "evb22_mibdelete p a w = (case evb22_data w (ifname p) (agenttype a) of
       None \<Rightarrow> w
     | Some i \<Rightarrow> let ed = evb22_head w ! i in
         if agenttype a = ed_agenttype ed then put_ed i (ed\<lparr>evb_last := zero_evb22_tlv\<rparr>) w else w)"

definition evb22_free_data :: "evb22_world \<Rightarrow> evb22_world" where
  "evb22_free_data w = w\<lparr>evb22_head := []\<rparr>"

subsection \<open>Field lemmas\<close>

lemma mask5: "(0x1f :: u8) = mask 5" and mask3: "(7 :: u8) = mask 3" and mask2: "(3 :: u8) = mask 2"
  and mask1: "(1 :: u8) = mask 1"
  by (simp_all add: mask_eq_exp_minus_1)

lemma retries_field: "evb_ex_retries (evb_set_retries v OR evb_set_rte u) = v AND 7"
  unfolding evb_field_defs mask5 mask3 by (rule bit_word_eqI) (auto simp: bit_simps)

lemma rte_field: "evb_ex_rte (evb_set_retries v OR evb_set_rte u) = u AND 0x1f"
  unfolding evb_field_defs mask5 mask3 by (rule bit_word_eqI) (auto simp: bit_simps)

lemma ex_range:
  "evb_ex_retries x AND 7 = evb_ex_retries x" "evb_ex_rte x AND 0x1f = evb_ex_rte x"
  "evb_ex_rwd x AND 0x1f = evb_ex_rwd x" "evb_ex_rka x AND 0x1f = evb_ex_rka x"
  "evb_ex_evbmode x AND 3 = evb_ex_evbmode x"
  by (simp_all add: evb_field_defs and.assoc)

lemma rwd_field: "evb_ex_rwd (evb_set_evbmode m OR evb_set_rwd v) = v AND 0x1f"
  "evb_ex_rwd ((evb_set_evbmode m OR evb_set_rol x) OR evb_set_rwd v) = v AND 0x1f"
  unfolding evb_field_defs mask5 mask2 mask1 by (rule bit_word_eqI; auto simp: bit_simps)+

lemma evbmode_field: "evb_ex_evbmode (evb_set_evbmode m OR evb_set_rwd v) = m AND 3"
  "evb_ex_evbmode ((evb_set_evbmode m OR evb_set_rol x) OR evb_set_rwd v) = m AND 3"
  unfolding evb_field_defs mask5 mask2 mask1 by (rule bit_word_eqI; auto simp: bit_simps)+

lemma rka_field: "evb_ex_rka (evb_set_rka (uint v)) = v AND 0x1f"
  "evb_ex_rka (evb_set_rol x OR evb_set_rka (uint v)) = v AND 0x1f"
  unfolding evb_field_defs mask5 mask1 by (rule bit_word_eqI; auto simp: bit_simps)+

lemma bytes_round_trip: "length (evb_oui t) = 3 \<Longrightarrow> evb22_of_bytes (evb22_bytes t) = t"
  by (simp add: evb22_of_bytes_def evb22_bytes_def nth_append)

lemma length_evb22_bytes: "length (evb_oui t) = 3 \<Longrightarrow> length (evb22_bytes t) = 9"
  by (simp add: evb22_bytes_def)

text \<open>Each negotiated value is the larger of the two sides' values.\<close>

lemma common_tlv_max:
  fixes ed
  defines "out \<equiv> evb_out (common_tlv ed)" and "recv \<equiv> evb_last ed" and "mine \<equiv> evb_policy ed"
  shows "evb_ex_retries (r_rte out) = max (evb_ex_retries (r_rte mine)) (evb_ex_retries (r_rte recv))"
    and "evb_ex_rte (r_rte out) = max (evb_ex_rte (r_rte mine)) (evb_ex_rte (r_rte recv))"
    and "evb_ex_rwd (evb_mode out) = max (evb_ex_rwd (evb_mode mine)) (evb_ex_rwd (evb_mode recv))"
    and "evb_ex_rka (rl_rka out) = max (evb_ex_rka (rl_rka mine)) (evb_ex_rka (rl_rka recv))"
    and "evb_ex_evbmode (evb_mode out) = evb_ex_evbmode (evb_mode mine)"
  unfolding out_def recv_def mine_def common_tlv_def Let_def
  by (auto simp: retries_field rte_field rwd_field rka_field evbmode_field ex_range max_def)

subsection \<open>Invariant and contract\<close>

definition ed_wf :: "evb22_data \<Rightarrow> bool" where
  "ed_wf ed \<longleftrightarrow> length (evb_oui (evb_out ed)) = 3 \<and> length (evb_oui (evb_last ed)) = 3
     \<and> length (evb_oui (evb_policy ed)) = 3"

definition evb22_inv :: "evb22_world \<Rightarrow> bool" where
  "evb22_inv w \<longleftrightarrow> (\<forall>ed \<in> set (evb22_head w). ed_wf ed)"

lemma common_tlv_frame:
  "evb_last (common_tlv ed) = evb_last ed" "evb_policy (common_tlv ed) = evb_policy ed"
  "ed_ifname (common_tlv ed) = ed_ifname ed" "txmit (common_tlv ed) = txmit ed"
  "evb_oui (evb_out (common_tlv ed)) = evb_oui (evb_out ed)" "evb_sub (evb_out (common_tlv ed)) = evb_sub (evb_out ed)"
  by (simp_all add: common_tlv_def Let_def)

lemma update_tlv_wf: "ed_wf ed \<Longrightarrow> ed_wf (fst (evb22_update_tlv ed))"
  by (simp add: evb22_update_tlv_def station_tlv_def bridge_tlv_def Let_def ed_wf_def common_tlv_frame)

lemma put_ed_inv: "evb22_inv w \<Longrightarrow> ed_wf ed \<Longrightarrow> evb22_inv (put_ed i ed w)"
  using set_update_subset_insert [of "evb22_head w" i ed] by (auto simp: evb22_inv_def put_ed_def)

lemma evb22_inv_events [simp]: "evb22_inv (w\<lparr>evb22_events := x\<rparr>) = evb22_inv w"
  by (simp add: evb22_inv_def)

lemma evb22_data_wf: "evb22_inv w \<Longrightarrow> evb22_data w name ty = Some i \<Longrightarrow> i < length (evb22_head w) \<and> ed_wf (evb22_head w ! i)"
  using find_index_Some by (fastforce simp: evb22_data_def evb22_inv_def)

lemma evb22_update_inv:
  assumes "evb22_inv w" "i < length (evb22_head w)"
  shows "evb22_inv (snd (evb22_update i w))" "ed_wf (fst (evb22_update i w))"
proof -
  have "ed_wf (evb22_head w ! i)" using assms by (simp add: evb22_inv_def)
  then have "ed_wf (fst (evb22_update_tlv (evb22_head w ! i)))" by (rule update_tlv_wf)
  then show "evb22_inv (snd (evb22_update i w))" "ed_wf (fst (evb22_update i w))"
    using assms by (auto simp: evb22_update_def put_ed_inv split: prod.splits)
qed

definition evb22_seq :: "(u8 \<times> bytes) list \<Rightarrow> bool" where
  "evb22_seq ts \<longleftrightarrow> (\<exists>bs. ts = [(127, bs)] \<and> length bs = 9)"

lemma evb22_gettlv_ok:
  assumes "evb22_inv w"
  shows "\<exists>r w'. evb22_gettlv e p a w = Inr (r, w') \<and> evb22_inv w'
    \<and> (\<forall>t. r = Some t \<longrightarrow> (\<exists>ts. evb22_seq ts \<and> wf_seq ts \<and> ptlv_carries t ts))"
proof (cases "agenttype a = NEAREST_CUSTOMER_BRIDGE")
  case False
  then show ?thesis using assms by (simp add: evb22_gettlv_def)
next
  case True
  show ?thesis
  proof (cases "evb22_data w (ifname p) (agenttype a)")
    case None
    then show ?thesis using assms True by (simp add: evb22_gettlv_def)
  next
    case (Some i)
    note i = evb22_data_wf [OF assms Some]
    obtain ed w1 where u: "evb22_update i w = (ed, w1)" by fastforce
    note inv1 = evb22_update_inv [OF assms conjunct1 [OF i], unfolded u, simplified]
    let ?t = "\<lparr>tlv_type = 127, tlv_length = 9, tlv_info = Some (evb22_bytes (evb_out ed))\<rparr> :: unpacked_tlv"
    have len: "length (evb22_bytes (evb_out ed)) = 9" using inv1(2) length_evb22_bytes by (simp add: ed_wf_def)
    have safe: "\<exists>r. pack_tlv (malloc_ok e) (Some ?t) = Inr r" using len by (intro pack_tlv_safe) simp_all
    have wf: "wf_tlv ?t" using len by (simp add: wf_tlv_def)
    have "\<exists>ts. evb22_seq ts \<and> wf_seq ts \<and> ptlv_carries t ts" if t: "pack_tlv (malloc_ok e) (Some ?t) = Inr (Some t)" for t
    proof -
      have ok: "malloc_ok e 16" "malloc_ok e 11"
        using t by (auto simp: pack_tlv_def Let_def tlv_ok_def split: if_splits)
      have "t = \<lparr>ptlv_size = 11, ptlv_tlv = Some (tlv_encode 127 (evb22_bytes (evb_out ed)))\<rparr>"
        using t pack_tlv_wf [OF wf, of "malloc_ok e"] ok by (simp add: tlv_payload_def)
      then show ?thesis
        using len by (intro exI [of _ "[(127, evb22_bytes (evb_out ed))]"])
          (auto simp: evb22_seq_def ptlv_carries_def)
    qed
    with safe inv1 u Some True assms show ?thesis
      by (auto simp: evb22_gettlv_def evb22_build_tlv_def)
  qed
qed

text \<open>The TLVs \<open>evb22_rchange\<close> handles without writing past the end of \<open>last\<close>.\<close>

definition evb22_accepts :: "unpacked_tlv \<Rightarrow> bool" where
  "evb22_accepts t \<longleftrightarrow> (\<exists>info. tlv_info t = Some info \<and> length info = unat (tlv_length t)
     \<and> (take 4 info = LLDP_MOD_EVB22_OUI \<longrightarrow> unat (tlv_length t) \<le> 9))"

lemma copy_last_ok:
  "length (evb_oui old) = 3 \<Longrightarrow> length info \<le> 9 \<Longrightarrow>
     \<exists>new. copy_last old info (length info) = Inr new \<and> length (evb_oui new) = 3"
  by (simp add: copy_last_def read_bytes_def write_bytes_def length_evb22_bytes evb22_of_bytes_def)

lemma copy_last_overflow:
  "length (evb_oui old) = 3 \<Longrightarrow> n \<le> length info \<Longrightarrow> 9 < n \<Longrightarrow> copy_last old info n = Inl Out_Of_Bounds"
  by (simp add: copy_last_def read_bytes_def write_bytes_def length_evb22_bytes)

lemma copy_last_oui: "copy_last old info n = Inr new \<Longrightarrow> length (evb_oui old) = 3 \<Longrightarrow> length (evb_oui new) = 3"
  by (auto simp: copy_last_def evb22_of_bytes_def length_evb22_bytes elim!: bindR_InrE dest!: write_bytes_length)

lemma evb22_rchange_cases:
  assumes "evb22_rchange e p a t w = Inr (rc, a', w')"
  obtains "a' = a" "w' = w"
  | i new where "evb22_data w (ifname p) (agenttype a) = Some i"
      "a' = a \<or> a' = somethingChanged a"
      "w' = snd (evb22_update i (put_ed i ((evb22_head w ! i)\<lparr>evb_last := new\<rparr>) w))"
      "copy_last (evb_last (evb22_head w ! i)) (the (tlv_info t)) (unat (tlv_length t)) = Inr new" "rc = 0"
proof (cases "evb22_data w (ifname p) (agenttype a)")
  case None
  with assms that(1) show thesis by (auto simp: evb22_rchange_def split: if_splits)
next
  case (Some i)
  with assms that show thesis
    by (auto simp: evb22_rchange_def Let_def derefR_eq_Inr elim!: bindR_InrE split: if_splits)
qed

lemma evb22_rchange_keeps:
  assumes "evb22_inv w" "evb22_rchange e p a t w = Inr (rc, a', w')"
  shows "mod_agree a a' \<and> evb22_inv w'"
  using assms(2)
proof (cases rule: evb22_rchange_cases)
  case (2 i new)
  note i = evb22_data_wf [OF assms(1) 2(1)]
  have "ed_wf ((evb22_head w ! i)\<lparr>evb_last := new\<rparr>)"
    using i copy_last_oui [OF 2(4)] by (simp add: ed_wf_def)
  then have "evb22_inv (put_ed i ((evb22_head w ! i)\<lparr>evb_last := new\<rparr>) w)"
    by (rule put_ed_inv [OF assms(1)])
  then have "evb22_inv w'" using 2(3) i evb22_update_inv(1) by (simp add: put_ed_def)
  then show ?thesis using 2(2) by auto
qed (use assms in simp)

lemma evb22_rchange_basic:
  "tlv_type t \<noteq> 127 \<Longrightarrow> \<exists>rc. evb22_rchange e p a t w = Inr (rc, a, w) \<and> rc \<noteq> TLV_ERR"
  by (auto simp: evb22_rchange_def split: option.split)

lemma evb22_rchange_total:
  assumes "evb22_inv w" "evb22_accepts t"
  shows "\<exists>r. evb22_rchange e p a t w = Inr r"
proof (cases "evb22_data w (ifname p) (agenttype a)")
  case None
  then show ?thesis by (auto simp: evb22_rchange_def)
next
  case (Some i)
  from assms(2) obtain info where info: "tlv_info t = Some info" "length info = unat (tlv_length t)"
    "take 4 info = LLDP_MOD_EVB22_OUI \<Longrightarrow> length info \<le> 9" by (auto simp: evb22_accepts_def)
  have "length (evb_oui (evb_last (evb22_head w ! i))) = 3"
    using evb22_data_wf [OF assms(1) Some] by (simp add: ed_wf_def)
  then show ?thesis
    using Some info copy_last_ok [of "evb_last (evb22_head w ! i)" info]
    by (cases "take 4 info = LLDP_MOD_EVB22_OUI") (auto simp: evb22_rchange_def read_bytes_def Let_def)
qed

lemma evb22_timer_inv: "evb22_inv w \<Longrightarrow> evb22_inv (evb22_timer p a w)"
  using evb22_data_wf by (auto simp: evb22_timer_def Let_def ed_wf_def split: option.split intro!: put_ed_inv)

lemma evb22_mibdelete_inv: "evb22_inv w \<Longrightarrow> evb22_inv (evb22_mibdelete p a w)"
  using evb22_data_wf by (auto simp: evb22_mibdelete_def Let_def ed_wf_def zero_evb22_tlv_def split: option.split intro!: put_ed_inv)

lemma evb22_ifup_inv: "evb22_inv w \<Longrightarrow> evb22_inv (evb22_ifup e h name a w)"
  by (auto simp: evb22_ifup_def evb22_init_tlv_def evb22_inv_def ed_wf_def zero_evb22_tlv_def Let_def)

lemma evb22_ifdown_inv: "evb22_inv w \<Longrightarrow> evb22_inv (evb22_ifdown name a w)"
  by (auto simp: evb22_ifdown_def evb22_stop_modules_def evb22_inv_def Let_def split: option.split
      dest: in_set_takeD in_set_dropD)

end
