(* ===== verification/Tx_Safe.thy ===== *)
theory Tx_Safe
  imports Tx_Timers
begin

text \<open>
  Safety of the transmit side over the modules' contract: no run of \<open>run_tx_sm\<close> faults, every
  packet handed to the network is a complete LLDPDU, and the transmit credit bounds the
  number of information frames.
\<close>

subsection \<open>The environment of a port\<close>

definition frame_hdr :: "'m core \<Rightarrow> port \<Rightarrow> lldp_agent \<Rightarrow> bytes" where
  "frame_hdr c p a = eth_header (mac_addr a) (l2_packet_get_own_src_addr (core_env c) (porthead c) (l2 p))"

definition tx_ready :: "'m core \<Rightarrow> port \<Rightarrow> lldp_agent \<Rightarrow> bool" where
  "tx_ready c p a \<longleftrightarrow> (\<forall>n \<le> 2000. malloc_ok (core_env c) n) \<and> length (frame_hdr c p a) = ETH_HLEN"

lemma tx_readyD:
  assumes "tx_ready c p a"
  shows "malloc_ok (core_env c) ETH_FRAME_LEN" "malloc_ok (core_env c) 16" "malloc_ok (core_env c) 2"
    "frame_hdr c p a = eth_header (mac_addr a) (l2_packet_get_own_src_addr (core_env c) (porthead c) (l2 p))"
    "length (frame_hdr c p a) = ETH_HLEN"
  using assms by (simp_all add: tx_ready_def frame_hdr_def)

lemma own_addr_sent: "l2_packet_get_own_src_addr e ps (l2 (sent_more p xs)) = l2_packet_get_own_src_addr e ps (l2 p)"
  by (auto simp: l2_packet_get_own_src_addr_def sent_more_def split: option.split)

lemma frame_hdr_cong: "mac_addr a' = mac_addr a \<Longrightarrow> frame_hdr c (sent_more p xs) a' = frame_hdr c p a"
  by (simp add: frame_hdr_def own_addr_sent)

text \<open>A packet of the wire: a whole frame, cut at its transmitted size.\<close>

definition wire_packet :: "bytes \<Rightarrow> (u8 \<times> bytes) list \<Rightarrow> bytes" where
  "wire_packet hdr ts = take (lldp_frame_size ts) (lldp_frame hdr ts)"

lemma length_lldp_frame:
  "length hdr = ETH_HLEN \<Longrightarrow> lldp_frame_size ts \<le> ETH_DATA_LEN \<Longrightarrow> length (lldp_frame hdr ts) = ETH_FRAME_LEN"
  by (auto simp: lldp_frame_def lldp_frame_size_def split: if_splits)

lemma wire_packet_eq:
  assumes "length hdr = ETH_HLEN" "lldp_frame_size ts \<le> ETH_DATA_LEN"
  shows "wire_packet hdr ts = hdr @ tlv_concat ts @ [0, 0]
    @ replicate (if length (tlv_concat ts) + 2 < ETH_MIN_DATA_LEN then 44 - length (tlv_concat ts) else 0) 0"
proof -
  have "take (46 - n) (0 # 0 # replicate (1498 - n) (0 :: u8)) = 0 # 0 # replicate (44 - n) 0" if "n < 44" for n
    using that by (simp add: take_Cons' min_def)
  then show ?thesis
    using assms by (auto simp: wire_packet_def lldp_frame_def lldp_frame_size_def split: if_splits)
qed

lemma txFrame_out:
  assumes "length hdr = ETH_HLEN" "lldp_frame_size ts \<le> ETH_DATA_LEN"
  shows "txFrame p (set_out (lldp_frame hdr ts) (of_nat (lldp_frame_size ts)) a)
     = Inr (sent_more p [Some (wire_packet hdr ts)],
            stats_update (\<lambda>s. s\<lparr>statsFramesOutTotal := statsFramesOutTotal s + 1\<rparr>)
              (set_out (lldp_frame hdr ts) (of_nat (lldp_frame_size ts)) a))"
proof -
  have "unat (of_nat (lldp_frame_size ts) :: u32) = lldp_frame_size ts"
    using assms(2) by (simp add: unat_of_nat)
  then show ?thesis
    using length_lldp_frame [OF assms] assms(2)
    by (simp add: txFrame_def set_out_def l2_packet_send_def read_bytes_def wire_packet_def sent_more_def)
qed

lemma txFrame_null:
  "txFrame p (frame_error a) = Inr (sent_more p [None],
     stats_update (\<lambda>s. s\<lparr>statsFramesOutTotal := statsFramesOutTotal s + 1\<rparr>) (frame_error a))"
  by (simp add: txFrame_def frame_error_def l2_packet_send_def sent_more_def)

context lldp_modules
begin

text \<open>One information frame, or a null buffer when the TLVs do not fit.\<close>

lemma process_tx_info_frame_ok:
  assumes "lldp_head c = mods" "inv w" "tx_ready c p a"
  shows "\<exists>a' w' x. process_tx_info_frame c p a w = Inr (sent_more p [x], a', w') \<and> inv w'
    \<and> mac_addr a' = mac_addr a
    \<and> (x = None \<or> (\<exists>ts. x = Some (wire_packet (frame_hdr c p a) ts) \<and> emits_list emits mods ts
          \<and> wf_seq ts \<and> lldp_frame_size ts \<le> ETH_DATA_LEN))"
  using mibConstrInfoLLDPDU_spec [OF assms(1,2) tx_readyD [OF assms(3)]]
proof
  assume "\<exists>w'. mibConstrInfoLLDPDU c p a w = Inr (False, frame_error a, w') \<and> inv w'"
  then obtain w' where i: "mibConstrInfoLLDPDU c p a w = Inr (False, frame_error a, w')" "inv w'" by blast
  have "\<exists>a'. process_tx_info_frame c p a w = Inr (sent_more p [None], a', w') \<and> mac_addr a' = mac_addr a"
    by (simp add: process_tx_info_frame_def i(1) txFrame_null) (simp add: frame_error_def)
  with i(2) show ?thesis by blast
next
  assume "\<exists>ts w'. mibConstrInfoLLDPDU c p a w
          = Inr (True, set_out (lldp_frame (frame_hdr c p a) ts) (of_nat (lldp_frame_size ts)) a, w')
        \<and> emits_list emits mods ts \<and> wf_seq ts \<and> lldp_frame_size ts \<le> ETH_DATA_LEN \<and> inv w'"
  then obtain ts w' where i: "mibConstrInfoLLDPDU c p a w
          = Inr (True, set_out (lldp_frame (frame_hdr c p a) ts) (of_nat (lldp_frame_size ts)) a, w')"
      "emits_list emits mods ts" "wf_seq ts" "lldp_frame_size ts \<le> ETH_DATA_LEN" "inv w'" by blast
  have "\<exists>a'. process_tx_info_frame c p a w = Inr (sent_more p [Some (wire_packet (frame_hdr c p a) ts)], a', w')
      \<and> mac_addr a' = mac_addr a"
    using txFrame_out [OF tx_readyD(5) [OF assms(3)] i(4)]
    by (simp add: process_tx_info_frame_def i(1)) (simp add: set_out_def)
  with i show ?thesis by blast
qed

end

text \<open>
  The shutdown frame carries the mandatory TLVs with time to live 0.  A good packet is one this
  code may hand to the network: an information frame, a shutdown frame, or \<open>None\<close>, the null
  buffer of a frame that could not be built.
\<close>

definition shutdown_seq :: "('m lldp_module \<Rightarrow> (u8 \<times> bytes) list \<Rightarrow> bool) \<Rightarrow> 'm lldp_module list \<Rightarrow>
    (u8 \<times> bytes) list \<Rightarrow> bool" where
  "shutdown_seq em ms ts \<longleftrightarrow> ts = [] \<or> (\<exists>m \<in> set ms. mod_id m = LLDP_MOD_MAND
     \<and> (\<exists>us bs. em m (us @ [(3, bs)]) \<and> length bs = 2 \<and> ts = us @ [(3, [0, 0])]))"

definition good_packet :: "('m lldp_module \<Rightarrow> (u8 \<times> bytes) list \<Rightarrow> bool) \<Rightarrow> 'm lldp_module list \<Rightarrow>
    bytes \<Rightarrow> bytes option \<Rightarrow> bool" where
  "good_packet em ms hdr x \<longleftrightarrow> x = None \<or> (\<exists>ts. x = Some (wire_packet hdr ts) \<and> lldp_frame_size ts \<le> ETH_DATA_LEN
     \<and> (emits_list em ms ts \<and> wf_seq ts \<or> shutdown_seq em ms ts))"

text \<open>The shutdown frame needs the mandatory module to end with a time to live.\<close>

locale lldp_tx_modules = lldp_modules +
  assumes mand_last: "\<And>m ts. m \<in> set mods \<Longrightarrow> mod_id m = LLDP_MOD_MAND \<Longrightarrow> emits m ts \<Longrightarrow>
      \<exists>us bs. ts = us @ [(3, bs)] \<and> length bs = 2"
begin

lemma shutdown_none:
  assumes "lldp_head c = mods" "tx_ready c p a"
    and "find_module_by_id mods LLDP_MOD_MAND = Some m" "mod_ops m = Some ops" "lldp_mod_gettlv ops = Some f"
    and "f p (set_frame (frame_hdr c p a @ replicate (ETH_FRAME_LEN - ETH_HLEN) 0) a) w = Inr (None, w')"
  shows "mibConstrShutdownLLDPDU c p a w
     = Inr (True, set_out (lldp_frame (frame_hdr c p a) []) (of_nat (lldp_frame_size [])) a, w')"
proof -
  note r = tx_readyD [OF assms(2)]
  let ?b0 = "frame_hdr c p a @ replicate (ETH_FRAME_LEN - ETH_HLEN) 0"
  have len: "length ?b0 = ETH_FRAME_LEN" using r(5) by simp
  have "overlay ?b0 14 [0, 0] = lldp_frame (frame_hdr c p a) []"
    using overlay_frame [OF r(5), of "[]"] r(5) by (simp add: lldp_frame_def)
  then show ?thesis
    using start_frame_spec [OF r(1,4,5)] finish_frame_spec [OF r(2,3) len, of 14 0 a] assms
    by (simp add: mibConstrShutdownLLDPDU_def lldp_frame_size_def)
qed

lemma shutdown_toobig:
  assumes "lldp_head c = mods" "tx_ready c p a"
    and m: "find_module_by_id mods LLDP_MOD_MAND = Some m" "mod_ops m = Some ops" "lldp_mod_gettlv ops = Some f"
    and f: "f p (set_frame (frame_hdr c p a @ replicate (ETH_FRAME_LEN - ETH_HLEN) 0) a) w = Inr (Some t, w')"
    and t: "ptlv_carries t (us @ [(3, bs)])" "length bs = 2"
    and big: "\<not> ETH_HLEN + unat (ptlv_size t) + 2 \<le> ETH_DATA_LEN"
  shows "\<exists>a'. mibConstrShutdownLLDPDU c p a w = Inr (False, a', w')"
proof (cases "14 + unat (ptlv_size t) > 1500")
  case True
  then have "ucast (ptlv_size t) + 14 > (1500 :: u32)" using u32_fits [of 14 "ptlv_size t"] by simp
  then show ?thesis
    using start_frame_spec [OF tx_readyD(1,4,5) [OF assms(2)]] assms(1) m f
    by (simp add: mibConstrShutdownLLDPDU_def Let_def)
next
  case False
  note r = tx_readyD [OF assms(2)]
  let ?b0 = "frame_hdr c p a @ replicate (ETH_FRAME_LEN - ETH_HLEN) 0" and ?us = "us @ [(3, [0, 0])]"
  obtain t' where t': "zero_ttl t = Inr t'" "ptlv_size t' = ptlv_size t" "ptlv_carries t' ?us"
    using zero_ttl_carries [OF t] by blast
  let ?L = "length (tlv_concat ?us)"
  have L: "unat (ptlv_size t) = ?L" using ptlv_carries_length [OF t'(3)] t'(2) by simp
  have len: "length ?b0 = ETH_FRAME_LEN" using r(5) by simp
  have gt: "\<not> ucast (ptlv_size t) + 14 > (1500 :: u32)"
    using u32_fits [of 14 "ptlv_size t"] False by simp
  have u: "(ucast (ptlv_size t) :: u32) = of_nat ?L" using L by (metis of_nat_unat)
  have put: "put_tlv (set_frame ?b0 a) 14 t' = Inr (set_frame (overlay ?b0 14 (tlv_concat ?us)) a)"
    using put_tlv_carries [OF t'(3) len, of 14 a] False t'(2) by simp
  have len': "length (overlay ?b0 14 (tlv_concat ?us)) = ETH_FRAME_LEN" using False L len by simp
  have fin: "finish_frame (malloc_ok (core_env c))
      (set_frame (overlay ?b0 14 (tlv_concat ?us)) a, of_nat (14 + ?L), of_nat ?L) = Inr (False, frame_error a)"
    using finish_frame_spec [OF r(2,3) len', of "14 + ?L" ?L a] False big L by simp
  have "14 + ucast (ptlv_size t) = (of_nat (14 + ?L) :: u32)" using u by simp
  then show ?thesis
    using start_frame_spec [OF r(1,4,5)] assms(1) m f gt t'(1,2) put fin u
    by (simp add: mibConstrShutdownLLDPDU_def Let_def)
qed

lemma mibConstrShutdownLLDPDU_cases:
  assumes "lldp_head c = mods" "inv w" "tx_ready c p a"
  shows "(\<exists>a' w'. mibConstrShutdownLLDPDU c p a w = Inr (False, a', w') \<and> inv w')
    \<or> (\<exists>ts w'. mibConstrShutdownLLDPDU c p a w
        = Inr (True, set_out (lldp_frame (frame_hdr c p a) ts) (of_nat (lldp_frame_size ts)) a, w')
      \<and> shutdown_seq emits mods ts \<and> lldp_frame_size ts \<le> ETH_DATA_LEN \<and> inv w')"
proof -
  note r = tx_readyD [OF assms(3)]
  note start = start_frame_spec [OF r(1,4,5)]
  let ?a1 = "set_frame (frame_hdr c p a @ replicate (ETH_FRAME_LEN - ETH_HLEN) 0) a"
  show ?thesis
  proof (cases "Option.bind (find_module_by_id mods LLDP_MOD_MAND) (\<lambda>np. Option.bind (mod_ops np) lldp_mod_gettlv)")
    case None
    then show ?thesis using start assms(1,2) by (simp add: mibConstrShutdownLLDPDU_def)
  next
    case (Some f)
    then obtain m ops where m: "find_module_by_id mods LLDP_MOD_MAND = Some m" "mod_ops m = Some ops"
        "lldp_mod_gettlv ops = Some f" by (auto simp: bind_eq_Some_conv)
    have mm: "m \<in> set mods" "mod_id m = LLDP_MOD_MAND"
      using m(1) by (auto simp: find_module_by_id_def find_Some_iff)
    obtain x w' where f: "f p ?a1 w = Inr (x, w')" "inv w'"
      "\<forall>t. x = Some t \<longrightarrow> (\<exists>ts. emits m ts \<and> wf_seq ts \<and> ptlv_carries t ts)"
      using gettlv_ok [OF mm(1) m(2,3) assms(2)] by metis
    show ?thesis
    proof (cases x)
      case None
      then show ?thesis
        using shutdown_none [OF assms(1,3) m] f by (auto simp: shutdown_seq_def lldp_frame_size_def)
    next
      case (Some t)
      with f(3) obtain ts where "emits m ts" "ptlv_carries t ts" by blast
      with mand_last [OF mm] obtain us bs where t: "emits m (us @ [(3, bs)])" "length bs = 2"
        "ptlv_carries t (us @ [(3, bs)])" by metis
      let ?us = "us @ [(3, [0, 0])]"
      show ?thesis
      proof (cases "ETH_HLEN + unat (ptlv_size t) + 2 \<le> ETH_DATA_LEN")
        case True
        have "lldp_frame_size ?us \<le> ETH_DATA_LEN"
          using True ptlv_carries_length [OF t(3)] t(2) by (auto simp: lldp_frame_size_def)
        moreover have "mibConstrShutdownLLDPDU c p a w
            = Inr (True, set_out (lldp_frame (frame_hdr c p a) ?us) (of_nat (lldp_frame_size ?us)) a, w')"
          using mibConstrShutdownLLDPDU_spec [OF r m [folded assms(1)] f(1) [unfolded Some] t(3,2) True]
            assms(1) by simp
        ultimately show ?thesis using mm t f(2) by (auto simp: shutdown_seq_def)
      next
        case False
        then show ?thesis
          using shutdown_toobig [OF assms(1,3) m f(1) [unfolded Some] t(3,2)] f(2) by auto
      qed
    qed
  qed
qed

lemma process_tx_shutdown_frame_ok:
  assumes "lldp_head c = mods" "inv w" "tx_ready c p a"
  shows "\<exists>a' w' xs. process_tx_shutdown_frame c p a w = Inr (sent_more p xs, a', w') \<and> inv w'
    \<and> mac_addr a' = mac_addr a \<and> list_all (good_packet emits mods (frame_hdr c p a)) xs"
proof (cases "txShutdownWhile (timers a) = 0")
  case False
  then show ?thesis
    using assms(2) by (intro exI [of _ a] exI [of _ w] exI [of _ "[]"]) (simp add: process_tx_shutdown_frame_def)
next
  case True
  show ?thesis
    using mibConstrShutdownLLDPDU_cases [OF assms]
  proof (elim disjE exE conjE)
    fix a' w'
    assume r: "mibConstrShutdownLLDPDU c p a w = Inr (False, a', w')" and "inv w'"
    then show ?thesis
      using True no_frame_fields(7) [OF mibConstrShutdownLLDPDU_no_frame [OF r]]
      by (intro exI [of _ "timers_update (\<lambda>t. t\<lparr>txShutdownWhile := reinitDelay t\<rparr>) a'"]
          exI [of _ w'] exI [of _ "[]"]) (simp add: process_tx_shutdown_frame_def)
  next
    fix ts w'
    assume r: "mibConstrShutdownLLDPDU c p a w
        = Inr (True, set_out (lldp_frame (frame_hdr c p a) ts) (of_nat (lldp_frame_size ts)) a, w')"
      and ts: "shutdown_seq emits mods ts" "lldp_frame_size ts \<le> ETH_DATA_LEN" and "inv w'"
    have "good_packet emits mods (frame_hdr c p a) (Some (wire_packet (frame_hdr c p a) ts))"
      using ts by (auto simp: good_packet_def)
    moreover have "\<exists>a'. process_tx_shutdown_frame c p a w
        = Inr (sent_more p [Some (wire_packet (frame_hdr c p a) ts)], a', w') \<and> mac_addr a' = mac_addr a"
      using True txFrame_out [OF tx_readyD(5) [OF assms(3)] ts(2)]
      by (simp add: process_tx_shutdown_frame_def r) (simp add: set_out_def)
    ultimately show ?thesis using \<open>inv w'\<close> by (metis list.pred_inject)
  qed
qed

lemma tx_action_ok:
  assumes "lldp_head c = mods" "inv w" "tx_ready c p a"
  shows "\<exists>a' w' xs. tx_action c p a w = Inr (sent_more p xs, a', w') \<and> inv w'
    \<and> mac_addr a' = mac_addr a \<and> list_all (good_packet emits mods (frame_hdr c p a)) xs"
proof (cases "txstate (tx a)")
  case TX_SHUTDOWN_FRAME
  then show ?thesis using process_tx_shutdown_frame_ok [OF assms] by (simp add: tx_action_def)
next
  case TX_INFO_FRAME
  obtain a' w' x where r: "process_tx_info_frame c p a w = Inr (sent_more p [x], a', w')" "inv w'"
    "mac_addr a' = mac_addr a" "good_packet emits mods (frame_hdr c p a) x"
    using process_tx_info_frame_ok [OF assms] unfolding good_packet_def by blast
  then show ?thesis
    using TX_INFO_FRAME by (intro exI [of _ a'] exI [of _ w'] exI [of _ "[x]"]) (simp add: tx_action_def)
next
  case TX_IDLE
  then show ?thesis
    using assms(2) by (intro exI [of _ a] exI [of _ w] exI [of _ "[]"]) (simp add: tx_action_def)
next
  case TX_LLDP_INITIALIZE
  then show ?thesis
    using assms(2)
    by (intro exI [of _ "txInitializeLLDP (core_env c) p a"] exI [of _ w] exI [of _ "[]"])
      (simp add: tx_action_def txInitializeLLDP_def)
qed

text \<open>A run never faults, keeps the modules' invariant, and sends good packets only.\<close>

definition tx_kept :: "'a core \<Rightarrow> port \<Rightarrow> lldp_agent \<Rightarrow> port \<Rightarrow> lldp_agent \<Rightarrow> 'a \<Rightarrow> bool" where
  "tx_kept c p0 a0 p a w \<longleftrightarrow> inv w \<and> mac_addr a = mac_addr a0
     \<and> (\<exists>xs. p = sent_more p0 xs \<and> list_all (good_packet emits mods (frame_hdr c p0 a0)) xs)"

lemma sent_more_more [simp]: "sent_more (sent_more p xs) ys = sent_more p (xs @ ys)"
  by (simp add: sent_more_def)

lemma tx_kept_ready: "tx_kept c p0 a0 p a w \<Longrightarrow> tx_ready c p0 a0 \<Longrightarrow> tx_ready c p a"
  by (auto simp: tx_kept_def tx_ready_def frame_hdr_cong)

lemma tx_kept_step:
  assumes "lldp_head c = mods" "tx_ready c p0 a0" "tx_kept c p0 a0 p a w"
  shows "\<exists>p1 a1 w1. tx_action c p a w = Inr (p1, a1, w1) \<and> tx_kept c p0 a0 p1 (set_txstate s a1) w1"
proof -
  from assms(3) obtain xs where k: "inv w" "mac_addr a = mac_addr a0" "p = sent_more p0 xs"
    "list_all (good_packet emits mods (frame_hdr c p0 a0)) xs" by (auto simp: tx_kept_def)
  have "frame_hdr c p a = frame_hdr c p0 a0" using k frame_hdr_cong by metis
  then obtain a' w' ys where "tx_action c p a w = Inr (sent_more p ys, a', w')" "inv w'"
    "mac_addr a' = mac_addr a" "list_all (good_packet emits mods (frame_hdr c p0 a0)) ys"
    using tx_action_ok [OF assms(1) k(1) tx_kept_ready [OF assms(3,2)]] by auto
  with k show ?thesis by (auto simp: tx_kept_def)
qed

lemma run_tx_sm_safe:
  assumes "lldp_head c = mods" "inv w" "tx_ready c p a"
  shows "\<exists>a' w' xs. run_tx_sm c p a w = Some (Inr (sent_more (seen p) xs, a', w')) \<and> inv w'
    \<and> mac_addr a' = mac_addr a \<and> list_all (good_packet emits mods (frame_hdr c p a)) xs"
proof -
  let ?a = "set_txstate (snd (tx_next p a)) a" and ?p = "seen p"
  have h: "frame_hdr c ?p ?a = frame_hdr c p a" by (simp add: frame_hdr_def)
  have r: "tx_ready c ?p ?a" using assms(3) by (simp add: tx_ready_def h)
  note step = tx_kept_step [OF assms(1) r]
  have "tx_kept c ?p ?a ?p ?a w"
    using assms(2) by (auto simp: tx_kept_def intro!: exI [of _ "[]"])
  then have "(\<exists>e p0 a0 w0. run_tx_sm c p a w = Some (Inl e) \<and> tx_kept c ?p ?a p0 a0 w0 \<and> tx_action c p0 a0 w0 = Inl e)
    \<or> (\<exists>p' a' w'. run_tx_sm c p a w = Some (Inr (p', a', w')) \<and> tx_kept c ?p ?a p' a' w' \<and> settled p'
          \<and> \<not> fst (tx_next p' a'))"
    unfolding run_tx_sm_loop
  proof (rule tx_loop_rule)
    fix q b v p1 a1 w1
    assume "tx_kept c ?p ?a q b v" "tx_action c q b v = Inr (p1, a1, w1)"
    then show "tx_kept c ?p ?a p1 (set_txstate (snd (tx_next p1 a1)) a1) w1"
      using step [of q b v "snd (tx_next p1 a1)"] by auto
  qed simp
  then have "\<exists>p' a' w'. run_tx_sm c p a w = Some (Inr (p', a', w')) \<and> tx_kept c ?p ?a p' a' w'"
    using step by fastforce
  then show ?thesis by (auto simp: tx_kept_def h)
qed

end

subsection \<open>What a run does with the transmit credit\<close>

text \<open>
  On an enabled port with transmission on, a run that does not start in the shutdown state
  sends one frame if a transmission is requested and credit is left, and pays for it; it
  sends nothing otherwise.
\<close>

definition tx_paid :: "port \<Rightarrow> lldp_agent \<Rightarrow> port \<Rightarrow> lldp_agent \<Rightarrow> bool" where
  "tx_paid p a p' a' \<longleftrightarrow> (if txNow (tx a) \<and> txCredit (timers a) > 0
     then (\<exists>x. p' = sent_more p [x]) \<and> \<not> txNow (tx a')
       \<and> timers a' = (timers a)\<lparr>txCredit := txCredit (timers a) - 1\<rparr>
     else p' = p \<and> txNow (tx a') = txNow (tx a) \<and> timers a' = timers a)"

definition tx_credit_inv :: "port \<Rightarrow> lldp_agent \<Rightarrow> port \<Rightarrow> lldp_agent \<Rightarrow> bool" where
  "tx_credit_inv p0 a0 p a \<longleftrightarrow> portEnabled p \<and> adminStatus a = adminStatus a0 \<and> rx a = rx a0 \<and> (case txstate (tx a) of
       TX_IDLE \<Rightarrow> tx_paid p0 a0 p a \<or> p = p0 \<and> timers a = timers a0 \<and> txNow (tx a) = txNow (tx a0)
     | TX_INFO_FRAME \<Rightarrow> p = p0 \<and> timers a = timers a0 \<and> txNow (tx a0) \<and> txCredit (timers a0) > 0
     | _ \<Rightarrow> False)"

lemma tx_credit_step:
  assumes "tx_credit_inv p0 a0 p a" "settled p" "tx_admin_on a0" "tx_action c p a w = Inr (p1, a1, w1)"
  shows "tx_credit_inv p0 a0 p1 (set_txstate (snd (tx_next p1 a1)) a1)"
proof (cases "txstate (tx a)")
  case TX_IDLE
  then have eq: "p1 = p" "a1 = a" using assms(4) by (simp_all add: tx_action_def)
  have "tx_admin_on a" using assms(1,3) by (simp add: tx_credit_inv_def tx_admin_on_def)
  then have "\<not> tx_admin_off a" using tx_admin_exclusive by blast
  with assms(1,2) TX_IDLE eq show ?thesis
    by (auto simp: tx_credit_inv_def tx_next_def settled_def tx_paid_def split: if_splits)
next
  case TX_INFO_FRAME
  then have i: "process_tx_info_frame c p a w = Inr (p1, a1, w1)" using assms(4) by (simp add: tx_action_def)
  obtain x where x: "p1 = sent_more p [x]"
    using i by (elim process_tx_info_frameE) (use txFrame_sent in blast)
  have "snd (tx_next p1 a1) = TX_IDLE"
    using assms(1,2) x process_tx_info_frame_agent(2) [OF i] TX_INFO_FRAME
    by (auto simp: tx_next_def settled_def tx_credit_inv_def)
  then show ?thesis
    using assms(1) TX_INFO_FRAME x process_tx_info_frame_agent [OF i]
    by (auto simp: tx_credit_inv_def tx_paid_def)
qed (use assms(1) in \<open>simp_all add: tx_credit_inv_def\<close>)

lemma run_tx_sm_paid:
  assumes "portEnabled p" "tx_admin_on a" "txstate (tx a) \<noteq> TX_SHUTDOWN_FRAME"
    and run: "run_tx_sm c p a w = Some (Inr (p', a', w'))"
  shows "txstate (tx a') = TX_IDLE \<and> tx_paid (seen p) a p' a' \<and> adminStatus a' = adminStatus a \<and> rx a' = rx a
    \<and> \<not> (txNow (tx a') \<and> txCredit (timers a') > 0)"
proof -
  let ?a = "set_txstate (snd (tx_next p a)) a"
  have off: "\<not> tx_admin_off a" using assms(2) tx_admin_exclusive by blast
  have "tx_credit_inv (seen p) a (seen p) ?a"
    using assms(1-3) off by (cases "txstate (tx a)") (auto simp: tx_credit_inv_def tx_next_def)
  moreover have "tx_credit_inv (seen p) a q1 (set_txstate (snd (tx_next q1 b1)) b1)"
    if "tx_credit_inv (seen p) a q b" "settled q" "tx_action c q b v = Inr (q1, b1, v1)" for q b v q1 b1 v1
    by (rule tx_credit_step [OF that(1,2) assms(2) that(3)])
  ultimately have r: "tx_credit_inv (seen p) a p' a'" "settled p'" "\<not> fst (tx_next p' a')"
    using tx_loop_rule [of "\<lambda>q b _. tx_credit_inv (seen p) a q b" "seen p" ?a w c] run settled_seen
    unfolding run_tx_sm_loop by fastforce+
  have "\<not> tx_admin_off a'" using r(1) off by (auto simp: tx_credit_inv_def tx_admin_off_def)
  with r show ?thesis
    by (cases "txstate (tx a')") (auto simp: tx_credit_inv_def tx_next_def settled_def tx_paid_def split: if_splits)
qed

text \<open>
  A machine in the shutdown state with its delay running does nothing at all, whatever the
  administrative status: only \<open>txInitializeTimers\<close> ends the delay.
\<close>

lemma run_tx_sm_shutdown_waits:
  assumes "portEnabled p" "txstate (tx a) = TX_SHUTDOWN_FRAME" "txShutdownWhile (timers a) \<noteq> 0"
  shows "run_tx_sm c p a w = Some (Inr (seen p, a, w))"
proof -
  have n: "tx_next q a = (False, TX_SHUTDOWN_FRAME)" if "portEnabled q" for q
    using that assms(2,3) by (simp add: tx_next_def)
  show ?thesis
    using assms n [of p] n [of "seen p"] unfolding run_tx_sm_loop
    by (subst tx_loop.simps) (simp add: tx_action_def process_tx_shutdown_frame_def set_tx_state_next)
qed

end
