(* ===== verification/Agent_Safe.thy ===== *)
theory Agent_Safe
  imports Agent Tx_Safe
begin

text \<open>
  The one-second timer of the daemon as a whole: with the environment of the modules' contract
  it returns without a fault on every port, and keeps the invariant of every agent.
\<close>

subsection \<open>What the transmit machines leave of an agent\<close>

definition tx_ran :: "lldp_agent \<Rightarrow> lldp_agent \<Rightarrow> bool" where
  "tx_ran a a' \<longleftrightarrow> adminStatus a' = adminStatus a \<and> agenttype a' = agenttype a \<and> mac_addr a' = mac_addr a
     \<and> (rx a')\<lparr>newNeighbor := False\<rparr> = (rx a)\<lparr>newNeighbor := False\<rparr>
     \<and> rxTTL (timers a') = rxTTL (timers a) \<and> (timers_live a \<longrightarrow> timers_live a')"

lemma tx_ran_refl [simp]: "tx_ran a a"
  by (simp add: tx_ran_def)

lemma tx_ran_trans: "tx_ran a b \<Longrightarrow> tx_ran b d \<Longrightarrow> tx_ran a d"
  by (simp add: tx_ran_def)

lemma tx_ran_state [simp]: "tx_ran a (set_txstate s b) = tx_ran a b" "tx_ran a (set_timers_state r b) = tx_ran a b"
  by (simp_all add: tx_ran_def timers_live_def)

lemma tx_ran_no_frame:
  assumes "no_frame a' = no_frame a"
  shows "tx_ran a a'"
  by (simp add: tx_ran_def no_frame_fields [OF assms] timers_live_def)

lemma tx_ran_stats: "tx_ran a (stats_update f a)"
  by (simp add: tx_ran_def timers_live_def)

lemma process_tx_info_frame_ran:
  assumes "process_tx_info_frame c p a w = Inr (p1, a1, w1)"
  shows "tx_ran a a1"
proof -
  from assms obtain b a0 a2 where i: "mibConstrInfoLLDPDU c p a w = Inr (b, a0, w1)"
    and t: "txFrame p a0 = Inr (p1, a2)" and a1: "a1 = a2\<lparr>timers := (timers a2)\<lparr>txCredit :=
        (if txCredit (timers a2) > 0 then txCredit (timers a2) - 1 else txCredit (timers a2))\<rparr>,
      tx := (tx a2)\<lparr>txNow := False\<rparr>\<rparr>"
    by (rule process_tx_info_frameE)
  have "tx_ran a a2"
    using tx_ran_trans [OF tx_ran_no_frame [OF mibConstrInfoLLDPDU_no_frame [OF i]] tx_ran_stats]
    by (simp add: txFrame_fields(1) [OF t])
  then show ?thesis by (simp add: a1 tx_ran_def timers_live_def)
qed

lemma process_tx_shutdown_frame_ran:
  assumes "process_tx_shutdown_frame c p a w = Inr (p1, a1, w1)"
  shows "tx_ran a a1"
proof (cases "txShutdownWhile (timers a) = 0")
  case True
  from assms True obtain b a0 a2 where i: "mibConstrShutdownLLDPDU c p a w = Inr (b, a0, w1)"
    and t: "(if b then txFrame p a0 else Inr (p, a0)) = Inr (p1, a2)"
    and a1: "a1 = timers_update (\<lambda>t. t\<lparr>txShutdownWhile := reinitDelay t\<rparr>) a2"
    by (rule process_tx_shutdown_frameE)
  have "tx_ran a0 a2" using t tx_ran_stats by (auto split: if_splits dest: txFrame_fields(1))
  then have "tx_ran a a2"
    using tx_ran_trans [OF tx_ran_no_frame [OF mibConstrShutdownLLDPDU_no_frame [OF i]]] by blast
  then show ?thesis by (simp add: a1 tx_ran_def timers_live_def)
qed (use assms in \<open>simp add: process_tx_shutdown_frame_def\<close>)

lemma txInitializeLLDP_ran: "tx_ran a (txInitializeLLDP e p a)"
  by (simp add: txInitializeLLDP_def tx_ran_def timers_live_def)

lemma tx_action_ran:
  assumes "tx_action c p a w = Inr (p1, a1, w1)"
  shows "tx_ran a a1"
  using assms process_tx_info_frame_ran process_tx_shutdown_frame_ran txInitializeLLDP_ran
  by (cases "txstate (tx a)") (auto simp: tx_action_def)

lemma run_tx_sm_ran:
  assumes "run_tx_sm c p a w = Some (Inr (p', a', w'))"
  shows "tx_ran a a'"
proof -
  have "tx_ran a (set_txstate s b1)" if "tx_ran a b" "tx_action c q b v = Inr (q1, b1, v1)" for q b v q1 b1 v1 s
    using tx_ran_trans [OF that(1) tx_action_ran [OF that(2)]] by simp
  then show ?thesis
    using tx_loop_rule [of "\<lambda>_ b _. tx_ran a b" "seen p" "set_txstate (snd (tx_next p a)) a" w c] assms settled_seen
    unfolding run_tx_sm_loop by fastforce
qed

lemma tx_timers_action_ran: "tx_ran a (tx_timers_action a)"
  by (cases "timers_state (timers a)")
    (simp_all add: tx_timers_action_def txInitializeTimers_def tx_ran_def timers_live_def)

lemma run_tx_timers_sm_ran:
  assumes "timers_live a"
  shows "\<exists>a'. run_tx_timers_sm p a = Some a' \<and> tx_ran a a'"
  using tx_ran_trans [OF _ tx_timers_action_ran] assms
  by (intro run_tx_timers_sm_rule [where I = "tx_ran a"]) auto

subsection \<open>The invariant\<close>

definition env_ok :: "env \<Rightarrow> bool" where
  "env_ok e \<longleftrightarrow> (\<forall>n \<le> 2000. malloc_ok e n)
     \<and> (\<forall>q name m. get_src_mac_from_bond e q name = Some m \<longrightarrow> length m = ETH_ALEN)"

definition l2_ok :: "l2_packet_data \<Rightarrow> bool" where
  "l2_ok l \<longleftrightarrow> length (san_mac_addr l) = ETH_ALEN \<and> length (curr_mac_addr l) = ETH_ALEN"

definition agent_inv :: "lldp_agent \<Rightarrow> bool" where
  "agent_inv a \<longleftrightarrow> timers_live a \<and> rx_sized a \<and> rx_quiet a \<and> length (mac_addr a) = ETH_ALEN"

definition port_inv :: "port \<Rightarrow> bool" where
  "port_inv p \<longleftrightarrow> l2_ok (l2 p) \<and> list_all agent_inv (agent_head p)"

lemma bond_src_mac_length:
  assumes "env_ok e" "bond_src_mac e ps name = Some m"
  shows "length m = ETH_ALEN"
  using assms(2)
proof (induction ps)
  case (Cons q ps)
  then show ?case using assms(1) by (auto simp: env_ok_def split: if_splits option.splits)
qed simp

lemma tx_ready_inv:
  assumes "env_ok (core_env c)" "l2_ok (l2 p)" "length (mac_addr a) = ETH_ALEN"
  shows "tx_ready c p a"
  using assms bond_src_mac_length [OF assms(1)]
  by (auto simp: tx_ready_def frame_hdr_def eth_header_def l2_packet_get_own_src_addr_def l2_ok_def
      env_ok_def split: option.split)

lemma tx_ran_rx:
  assumes "tx_ran a a'"
  shows "rxstate (rx a') = rxstate (rx a)" "rcvFrame (rx a') = rcvFrame (rx a)" "sizein (rx a') = sizein (rx a)"
    "framein (rx a') = framein (rx a)" "rxInfoAge (rx a') = rxInfoAge (rx a)"
proof -
  have e: "(rx a')\<lparr>newNeighbor := False\<rparr> = (rx a)\<lparr>newNeighbor := False\<rparr>"
    using assms by (simp add: tx_ran_def)
  show "rxstate (rx a') = rxstate (rx a)" "rcvFrame (rx a') = rcvFrame (rx a)" "sizein (rx a') = sizein (rx a)"
    "framein (rx a') = framein (rx a)" "rxInfoAge (rx a') = rxInfoAge (rx a)"
    using arg_cong [OF e, of rxstate] arg_cong [OF e, of rcvFrame] arg_cong [OF e, of sizein]
      arg_cong [OF e, of framein] arg_cong [OF e, of rxInfoAge] by simp_all
qed

lemma agent_inv_ran:
  assumes "tx_ran a a'" "agent_inv a"
  shows "agent_inv a'"
proof -
  have "timers_live a \<longrightarrow> timers_live a'" "mac_addr a' = mac_addr a" using assms(1) by (simp_all add: tx_ran_def)
  with assms(2) show ?thesis by (simp add: agent_inv_def tx_ran_rx [OF assms(1)] rx_sized_def rx_quiet_def)
qed

subsection \<open>One agent\<close>

text \<open>
  What a call leaves of a port, besides its list of agents: the packets \<open>xs\<close> have been sent,
  the link state has been noted, and the address of the remote peer may be new.
\<close>

definition port_moved :: "bytes option list \<Rightarrow> port \<Rightarrow> port \<Rightarrow> bool" where
  "port_moved xs p p' \<longleftrightarrow> (\<exists>m v. p' = p\<lparr>prevPortEnabled := v,
     l2 := (l2 p)\<lparr>l2_sent := l2_sent (l2 p) @ xs, remote_mac_addr := m\<rparr>\<rparr>)"

lemma port_moved_refl: "port_moved [] p p"
  unfolding port_moved_def by (rule exI [of _ "remote_mac_addr (l2 p)"], rule exI [of _ "prevPortEnabled p"]) simp

lemma port_moved_trans: "port_moved xs p q \<Longrightarrow> port_moved ys q r \<Longrightarrow> port_moved (xs @ ys) p r"
  by (auto simp: port_moved_def) blast

lemma port_moved_tx: "same_port (sent_more (seen p) xs) p' \<Longrightarrow> port_moved xs p p'"
  by (auto simp: port_moved_def same_port_def sent_more_def)

lemma port_moved_fields:
  assumes "port_moved xs p p'"
  shows "portEnabled p' = portEnabled p" "agent_head p' = agent_head p" "ifname p' = ifname p"
    "ifindex p' = ifindex p" "dormantDelay p' = dormantDelay p" "l2_ok (l2 p') = l2_ok (l2 p)"
    "l2_sent (l2 p') = l2_sent (l2 p) @ xs" "frame_hdr c p' a = frame_hdr c p a"
  using assms by (auto simp: port_moved_def l2_ok_def frame_hdr_def l2_packet_get_own_src_addr_def split: option.split)

lemma agent_inv_rx:
  assumes "rx_kept a a'" "rx_quiet a'" "rx_sized a'" "agent_inv a"
  shows "agent_inv a'"
proof -
  have "tx_clock a' = tx_clock a" using assms(1) by (simp add: rx_kept_def)
  from arg_cong [OF this, of msgTxInterval] arg_cong [OF this, of msgFastTx]
  have "timers_live a' = timers_live a" by (simp add: tx_clock_def timers_live_def)
  with assms show ?thesis by (simp add: agent_inv_def rx_kept_def)
qed

lemma agent_inv_update_rx: "agent_inv (update_rx_timers a) = agent_inv a"
  by (simp add: agent_inv_def rx_sized_def rx_quiet_def update_rx_timers_frame timers_live_def)
    (simp add: update_rx_timers_def Let_def)

lemma agent_inv_mod: "mod_agree a a' \<Longrightarrow> agent_inv a' = agent_inv a"
  by (simp add: agent_inv_def rx_sized_def rx_quiet_def mod_agree_fields timers_live_def)

lemma update_tx_timers_ran: "tx_ran a (update_tx_timers a)"
  by (simp add: tx_ran_def update_tx_timers_def timers_live_def)

context lldp_tx_modules
begin

lemma timer_modules_agree:
  assumes "set nps \<subseteq> set mods" "inv w"
  shows "\<exists>a' w'. timer_modules p nps a w = Inr (a', w') \<and> mod_agree a a' \<and> inv w'"
  using assms
proof (induction nps arbitrary: a w)
  case (Cons np nps)
  show ?case
  proof (cases "Option.bind (mod_ops np) lldp_mod_timer")
    case None
    with Cons show ?thesis by simp
  next
    case (Some f)
    then obtain ops where ops: "mod_ops np = Some ops" "lldp_mod_timer ops = Some f"
      by (auto simp: bind_eq_Some_conv)
    obtain a1 w1 where f: "f p a w = Inr (a1, w1)" "mod_agree a a1" "inv w1"
      using timer_ok [OF _ ops, of w p a] Cons.prems by auto
    with Cons.IH [of w1 a1] Cons.prems Some mod_agree_trans show ?thesis by auto
  qed
qed simp

lemma run_agent_tx_rx:
  assumes "lldp_head c = mods" "inv w" "env_ok (core_env c)" "l2_ok (l2 p)" "agent_inv a"
  shows "\<exists>p2 a2 w2 p3 a3 w3 xs. run_tx_sm c p a w = Some (Inr (p2, a2, w2))
     \<and> run_rx_sm c p2 a2 w2 = Some (Inr (p3, a3, w3)) \<and> inv w3 \<and> agent_inv a3
     \<and> port_moved xs p p3 \<and> list_all (good_packet emits mods (frame_hdr c p a)) xs
     \<and> agenttype a3 = agenttype a \<and> mac_addr a3 = mac_addr a \<and> adminStatus a3 = adminStatus a"
proof -
  have "tx_ready c p a" using assms(3-5) by (intro tx_ready_inv) (simp_all add: agent_inv_def)
  from run_tx_sm_safe [OF assms(1,2) this] obtain a2 w2 xs where
    t: "run_tx_sm c p a w = Some (Inr (sent_more (seen p) xs, a2, w2))" "inv w2"
      "list_all (good_packet emits mods (frame_hdr c p a)) xs" by blast
  have ran: "tx_ran a a2" by (rule run_tx_sm_ran [OF t(1)])
  have inv2: "agent_inv a2" by (rule agent_inv_ran [OF ran assms(5)])
  then have "rx_sized a2" "rx_quiet a2" by (simp_all add: agent_inv_def)
  from run_rx_sm_quiet [OF assms(1) t(2) this] obtain p3 a3 w3 where
    r: "run_rx_sm c (sent_more (seen p) xs) a2 w2 = Some (Inr (p3, a3, w3))" "inv w3"
      "same_port (sent_more (seen p) xs) p3" "rx_quiet a3" "rx_kept a2 a3" "rx_sized a3" by blast
  have "agent_inv a3" by (rule agent_inv_rx [OF r(5,4,6) inv2])
  with t r port_moved_tx [OF r(3)] ran show ?thesis
    by (auto simp: rx_kept_def tx_ran_def)
qed

lemma timer_agent_ok:
  assumes "lldp_head c = mods" "inv w" "env_ok (core_env c)" "l2_ok (l2 p)" "agent_inv a"
  shows "\<exists>p' a' w' xs. timer_agent c p a w = Some (Inr (p', a', w')) \<and> inv w' \<and> agent_inv a'
     \<and> port_moved xs p p' \<and> list_all (good_packet emits mods (frame_hdr c p a)) xs
     \<and> agenttype a' = agenttype a \<and> mac_addr a' = mac_addr a"
proof -
  have u: "agent_inv (update_tx_timers a)" by (rule agent_inv_ran [OF update_tx_timers_ran assms(5)])
  then obtain a1 where a1: "run_tx_timers_sm p (update_tx_timers a) = Some a1" "tx_ran (update_tx_timers a) a1"
    using run_tx_timers_sm_ran [of "update_tx_timers a" p] by (auto simp: agent_inv_def)
  have ran: "tx_ran a a1" by (rule tx_ran_trans [OF update_tx_timers_ran a1(2)])
  have hdr: "frame_hdr c p a1 = frame_hdr c p a" using ran by (simp add: frame_hdr_def tx_ran_def)
  from run_agent_tx_rx [OF assms(1-4) agent_inv_ran [OF a1(2) u]] obtain p2 a2 w2 p3 a3 w3 xs where
    r: "run_tx_sm c p a1 w = Some (Inr (p2, a2, w2))" "run_rx_sm c p2 a2 w2 = Some (Inr (p3, a3, w3))"
      "inv w3" "agent_inv a3" "port_moved xs p p3" "list_all (good_packet emits mods (frame_hdr c p a1)) xs"
      "agenttype a3 = agenttype a1" "mac_addr a3 = mac_addr a1" by blast
  from timer_modules_agree [OF order_refl r(3)] obtain a4 w4 where
    m: "timer_modules p3 mods (update_rx_timers a3) w3 = Inr (a4, w4)" "mod_agree (update_rx_timers a3) a4" "inv w4"
    by blast
  have "agent_inv a4" using agent_inv_mod [OF m(2)] r(4) by (simp add: agent_inv_update_rx)
  with r a1 m ran hdr assms(1) show ?thesis
    by (auto simp: timer_agent_def mod_agree_fields [OF m(2)] update_rx_timers_frame tx_ran_def)
qed

subsection \<open>All agents of a port, all ports\<close>

definition agent_step_ok :: "'a core \<Rightarrow> (port \<Rightarrow> lldp_agent \<Rightarrow> 'a \<Rightarrow> (port \<times> lldp_agent \<times> 'a) res option) \<Rightarrow> bool" where
  "agent_step_ok c f \<longleftrightarrow> (\<forall>p a w. inv w \<longrightarrow> l2_ok (l2 p) \<longrightarrow> agent_inv a \<longrightarrow>
     (\<exists>p' a' w' xs. f p a w = Some (Inr (p', a', w')) \<and> inv w' \<and> agent_inv a' \<and> port_moved xs p p'
        \<and> list_all (good_packet emits mods (frame_hdr c p a)) xs
        \<and> agenttype a' = agenttype a \<and> mac_addr a' = mac_addr a))"

lemma agent_step_okE:
  assumes "agent_step_ok c f" "inv w" "l2_ok (l2 p)" "agent_inv a"
  obtains p' a' w' xs where "f p a w = Some (Inr (p', a', w'))" "inv w'" "agent_inv a'" "port_moved xs p p'"
    "list_all (good_packet emits mods (frame_hdr c p a)) xs" "agenttype a' = agenttype a"
  using assms unfolding agent_step_ok_def by meson

abbreviation port_packet :: "'a core \<Rightarrow> port \<Rightarrow> lldp_agent list \<Rightarrow> bytes option \<Rightarrow> bool" where
  "port_packet c p as x \<equiv> \<exists>a \<in> set as. good_packet emits mods (frame_hdr c p a) x"

lemma foreach_agent_ok:
  assumes "agent_step_ok c f" "inv w" "l2_ok (l2 p)" "list_all agent_inv as"
  shows "\<exists>p' as' w' xs. foreach_agent f p as w = Some (Inr (p', as', w')) \<and> inv w' \<and> list_all agent_inv as'
     \<and> port_moved xs p p' \<and> list_all (port_packet c p as) xs \<and> map agenttype as' = map agenttype as"
  using assms(2-4)
proof (induction as arbitrary: p w)
  case Nil
  then show ?case using port_moved_refl by (auto intro!: exI [of _ "[]"])
next
  case (Cons a as)
  obtain p1 a1 w1 xs where f: "f p a w = Some (Inr (p1, a1, w1))" "inv w1" "agent_inv a1" "port_moved xs p p1"
      "list_all (good_packet emits mods (frame_hdr c p a)) xs" "agenttype a1 = agenttype a"
    using agent_step_okE [OF assms(1) Cons.prems(1,2)] Cons.prems(3) by (metis list.pred_inject(2))
  obtain p2 as2 w2 ys where r: "foreach_agent f p1 as w1 = Some (Inr (p2, as2, w2))" "inv w2"
      "list_all agent_inv as2" "port_moved ys p1 p2" "list_all (port_packet c p1 as) ys" "map agenttype as2 = map agenttype as"
    using Cons.IH [OF f(2), of p1] Cons.prems(2,3) port_moved_fields(6) [OF f(4)] by auto
  have "list_all (port_packet c p (a # as)) (xs @ ys)"
    using f(5) r(5) by (auto simp: list_all_iff port_moved_fields(8) [OF f(4)])
  with f r port_moved_trans [OF f(4) r(4)] show ?case
    by (intro exI [of _ p2] exI [of _ "a1 # as2"] exI [of _ w2] exI [of _ "xs @ ys"]) simp
qed

lemma each_agent_ok:
  assumes "agent_step_ok c f" "inv w" "port_inv p"
  shows "\<exists>p' w' xs. each_agent f p w = Some (Inr (p', w')) \<and> inv w' \<and> port_inv p'
     \<and> ifindex p' = ifindex p \<and> ifname p' = ifname p \<and> l2_sent (l2 p') = l2_sent (l2 p) @ xs
     \<and> list_all (port_packet c p (agent_head p)) xs \<and> map agenttype (agent_head p') = map agenttype (agent_head p)"
proof -
  obtain p1 as1 w1 xs where r: "foreach_agent f p (agent_head p) w = Some (Inr (p1, as1, w1))" "inv w1"
      "list_all agent_inv as1" "port_moved xs p p1" "list_all (port_packet c p (agent_head p)) xs"
      "map agenttype as1 = map agenttype (agent_head p)"
    using foreach_agent_ok [OF assms(1,2), of p "agent_head p"] assms(3) by (auto simp: port_inv_def)
  then show ?thesis
    using assms(3) port_moved_fields [OF r(4)] by (auto simp: each_agent_def port_inv_def)
qed

lemma timer_step_ok: "lldp_head c = mods \<Longrightarrow> env_ok (core_env c) \<Longrightarrow> agent_step_ok c (timer_agent c)"
  using timer_agent_ok unfolding agent_step_ok_def by blast

lemma timer_ports_ok:
  assumes "lldp_head c = mods" "env_ok (core_env c)" "inv w" "list_all port_inv ps"
  shows "\<exists>ps' w'. timer_ports c ps w = Some (Inr (ps', w')) \<and> inv w' \<and> list_all port_inv ps'
     \<and> map (\<lambda>p. (ifindex p, map agenttype (agent_head p))) ps' = map (\<lambda>p. (ifindex p, map agenttype (agent_head p))) ps"
  using assms(3,4)
proof (induction ps arbitrary: w)
  case (Cons p ps)
  obtain p1 w1 where r: "each_agent (timer_agent c) p w = Some (Inr (p1, w1))" "inv w1" "port_inv p1"
      "ifindex p1 = ifindex p" "map agenttype (agent_head p1) = map agenttype (agent_head p)"
    using each_agent_ok [OF timer_step_ok [OF assms(1,2)] Cons.prems(1), of p] Cons.prems(2) by auto
  obtain ps2 w2 where "timer_ports c ps w1 = Some (Inr (ps2, w2))" "inv w2" "list_all port_inv ps2"
      "map (\<lambda>p. (ifindex p, map agenttype (agent_head p))) ps2 = map (\<lambda>p. (ifindex p, map agenttype (agent_head p))) ps"
    using Cons.IH [OF r(2)] Cons.prems(2) by auto
  moreover have "port_inv (p1\<lparr>dormantDelay := n\<rparr>)" for n using r(3) by (simp add: port_inv_def)
  ultimately show ?case using r by (auto simp: Let_def)
qed simp

end

end
