(* ===== verification/Registered.thy ===== *)
theory Registered
  imports Evb22 Agent_Safe
begin

text \<open>
  The modules registered with the core, as the table \<open>lldp_head\<close> holds them: the mandatory
  TLVs first, then the EVB TLV.  Their data together are the module state of the daemon, and
  both contracts of the core hold for them.
\<close>

record lldpad_world =
  w_mand :: mand_world
  w_evb22 :: evb22_world

definition mand_ops :: "env \<Rightarrow> host \<Rightarrow> lldpad_world lldp_mod_ops" where
  "mand_ops e h = \<lparr>
     lldp_mod_gettlv = Some (\<lambda>p a w. bindR (mand_gettlv e h p a (w_mand w)) (\<lambda>(r, m).
       Inr (r, w\<lparr>w_mand := m\<rparr>))),
     lldp_mod_rchange = None, lldp_mod_mibdelete = None, lldp_mod_timer = None\<rparr>"

definition evb22_ops :: "env \<Rightarrow> host \<Rightarrow> lldpad_world lldp_mod_ops" where
  "evb22_ops e h = \<lparr>
     lldp_mod_gettlv = Some (\<lambda>p a w. bindR (evb22_gettlv e p a (w_evb22 w)) (\<lambda>(r, m).
       Inr (r, w\<lparr>w_evb22 := m\<rparr>))),
     lldp_mod_rchange = Some (\<lambda>p a t w. bindR (evb22_rchange e p a t (w_evb22 w)) (\<lambda>(rc, a', m).
       Inr (rc, a', w\<lparr>w_evb22 := m\<rparr>))),
     lldp_mod_mibdelete = Some (\<lambda>p a w. Inr (a, w\<lparr>w_evb22 := evb22_mibdelete p a (w_evb22 w)\<rparr>)),
     lldp_mod_timer = Some (\<lambda>p a w. Inr (a, w\<lparr>w_evb22 := evb22_timer p a (w_evb22 w)\<rparr>))\<rparr>"

definition mand_register :: "env \<Rightarrow> host \<Rightarrow> lldpad_world \<Rightarrow> (lldpad_world lldp_module \<times> lldpad_world) option" where
  "mand_register e h w =
     (if \<not> malloc_ok e 48 \<or> \<not> malloc_ok e 8 then None
      else Some (\<lparr>mod_id = LLDP_MOD_MAND, mod_ops = Some (mand_ops e h)\<rparr>,
                 w\<lparr>w_mand := (w_mand w)\<lparr>mand_head := []\<rparr>\<rparr>))"

definition evb22_register :: "env \<Rightarrow> host \<Rightarrow> lldpad_world \<Rightarrow> (lldpad_world lldp_module \<times> lldpad_world) option" where
  "evb22_register e h w =
     (if \<not> malloc_ok e 48 \<or> \<not> malloc_ok e 8 then None
      else Some (\<lparr>mod_id = LLDP_MOD_EVB22, mod_ops = Some (evb22_ops e h)\<rparr>,
                 w\<lparr>w_evb22 := (w_evb22 w)\<lparr>evb22_head := []\<rparr>\<rparr>))"

definition lldpad_mods :: "env \<Rightarrow> host \<Rightarrow> lldpad_world lldp_module list" where
  "lldpad_mods e h = [\<lparr>mod_id = LLDP_MOD_MAND, mod_ops = Some (mand_ops e h)\<rparr>,
                      \<lparr>mod_id = LLDP_MOD_EVB22, mod_ops = Some (evb22_ops e h)\<rparr>]"

definition mods_inv :: "env \<Rightarrow> host \<Rightarrow> lldpad_world \<Rightarrow> bool" where
  "mods_inv e h w \<longleftrightarrow> host_good e h \<and> mand_inv (w_mand w) \<and> evb22_inv (w_evb22 w)"

definition mods_emit :: "lldpad_world lldp_module \<Rightarrow> (u8 \<times> bytes) list \<Rightarrow> bool" where
  "mods_emit m ts \<longleftrightarrow> (if mod_id m = LLDP_MOD_MAND then mand_seq ts else evb22_seq ts)"

lemma lldpad_mods_cases:
  assumes "m \<in> set (lldpad_mods e h)"
  obtains "mod_id m = LLDP_MOD_MAND" "mod_ops m = Some (mand_ops e h)"
  | "mod_id m = LLDP_MOD_EVB22" "mod_ops m = Some (evb22_ops e h)"
  using assms by (auto simp: lldpad_mods_def)

lemma mods_gettlv:
  assumes "m \<in> set (lldpad_mods e h)" "mod_ops m = Some ops" "lldp_mod_gettlv ops = Some f" "mods_inv e h w"
  shows "\<exists>r w'. f p a w = Inr (r, w') \<and> mods_inv e h w'
     \<and> (\<forall>t. r = Some t \<longrightarrow> (\<exists>ts. mods_emit m ts \<and> wf_seq ts \<and> ptlv_carries t ts))"
  using assms(1)
proof (cases rule: lldpad_mods_cases)
  case 1
  obtain r m' where "mand_gettlv e h p a (w_mand w) = Inr (r, m')" "mand_inv m'"
    "\<forall>t. r = Some t \<longrightarrow> (\<exists>ts. mand_seq ts \<and> wf_seq ts \<and> ptlv_carries t ts)"
    using mand_gettlv_ok [of e h "w_mand w" p a] assms(4) by (auto simp: mods_inv_def)
  with 1 assms show ?thesis by (auto simp: mand_ops_def mods_inv_def mods_emit_def)
next
  case 2
  obtain r m' where "evb22_gettlv e p a (w_evb22 w) = Inr (r, m')" "evb22_inv m'"
    "\<forall>t. r = Some t \<longrightarrow> (\<exists>ts. evb22_seq ts \<and> wf_seq ts \<and> ptlv_carries t ts)"
    using evb22_gettlv_ok [of "w_evb22 w" e p a] assms(4) by (auto simp: mods_inv_def)
  with 2 assms show ?thesis by (auto simp: evb22_ops_def mods_inv_def mods_emit_def)
qed

lemma mods_rchange:
  assumes "m \<in> set (lldpad_mods e h)" "mod_ops m = Some ops" "lldp_mod_rchange ops = Some f"
  shows "f = (\<lambda>p a t w. bindR (evb22_rchange e p a t (w_evb22 w)) (\<lambda>(rc, a', m).
       Inr (rc, a', w\<lparr>w_evb22 := m\<rparr>)))"
  using assms by (auto simp: lldpad_mods_def mand_ops_def evb22_ops_def)

interpretation lm: lldp_modules "lldpad_mods e h" "mods_inv e h" mods_emit for e h
proof unfold_locales
  fix m ops f p a t w rc a' w'
  assume m: "m \<in> set (lldpad_mods e h)" "mod_ops m = Some ops" and inv: "mods_inv e h w"
  show "\<exists>r w'. f p a w = Inr (r, w') \<and> mods_inv e h w'
     \<and> (\<forall>t. r = Some t \<longrightarrow> (\<exists>ts. mods_emit m ts \<and> wf_seq ts \<and> ptlv_carries t ts))"
    if "lldp_mod_gettlv ops = Some f" for f
    by (rule mods_gettlv [OF m that inv])
  show "mod_agree a a' \<and> mods_inv e h w'"
    if f: "lldp_mod_rchange ops = Some f" and r: "f p a t w = Inr (rc, a', w')" for f
    using r inv evb22_rchange_keeps [of "w_evb22 w" e p a t]
    unfolding mods_rchange [OF m f] by (auto simp: mods_inv_def elim!: bindR_InrE)
  show "\<exists>a' w'. f p a w = Inr (a', w') \<and> mod_agree a a' \<and> mods_inv e h w'"
    if "lldp_mod_mibdelete ops = Some f" for f
    using m that inv by (auto simp: lldpad_mods_def mand_ops_def evb22_ops_def mods_inv_def evb22_mibdelete_inv)
  show "\<exists>a' w'. f p a w = Inr (a', w') \<and> mod_agree a a' \<and> mods_inv e h w'"
    if "lldp_mod_timer ops = Some f" for f
    using m that inv by (auto simp: lldpad_mods_def mand_ops_def evb22_ops_def mods_inv_def evb22_timer_inv)
qed

interpretation lr: lldp_rx_modules "lldpad_mods e h" "mods_inv e h" mods_emit evb22_accepts for e h
proof unfold_locales
  fix m ops f p a t w
  assume m: "m \<in> set (lldpad_mods e h)" "mod_ops m = Some ops" and f: "lldp_mod_rchange ops = Some f"
    and inv: "mods_inv e h w"
  show "\<exists>rc. f p a t w = Inr (rc, a, w) \<and> rc \<noteq> TLV_ERR" if "tlv_type t \<noteq> ORG_SPECIFIC_TLV"
    using evb22_rchange_basic [OF that, of e p a "w_evb22 w"] unfolding mods_rchange [OF m f] by auto
  show "\<exists>r. f p a t w = Inr r" if "evb22_accepts t"
    using evb22_rchange_total [of "w_evb22 w" t e p a] that inv
    unfolding mods_rchange [OF m f] by (auto simp: mods_inv_def)
qed

interpretation lt: lldp_tx_modules "lldpad_mods e h" "mods_inv e h" mods_emit for e h
  by unfold_locales (auto simp: mods_emit_def mand_seq_def)

end
