(* ===== verification/Daemon.thy ===== *)
theory Daemon
  imports Registered
begin

text \<open>
  The daemon around the core: frames arriving on the layer-2 sockets
  (\<open>l2_packet_receive\<close> of \<open>src/lldp/l2_packet_linux.c\<close>), and the handlers the event loop calls
  for the timer, the sockets and the termination signals.  The system is a clock and a sequence of
  received frames.
\<close>

subsection \<open>Receiving a frame\<close>

definition l2_packet_receive :: "bytes option \<Rightarrow> 'm core \<Rightarrow> nat \<Rightarrow> 'm \<Rightarrow> ('m core \<times> 'm) res option" where
  "l2_packet_receive recvfrom c i w = (case recvfrom of
       None \<Rightarrow> Some (Inr (c, w))
     | Some buf \<Rightarrow> map_option (\<lambda>r. bindR r (\<lambda>(p, w'). Inr (put_port i p c, w')))
         (rxReceiveFrame c (porthead c ! i) (take 2300 buf) w))"

lemma rx_walk_index:
  "rx_walk k buf as = Inr (Matched j) \<Longrightarrow> k \<le> j \<and> j < k + length as"
  "rx_walk k buf as = Inr (Refreshed j) \<Longrightarrow> k \<le> j \<and> j < k + length as"
  by (induction as arbitrary: k) (fastforce elim!: bindR_InrE split: if_splits)+

lemma port_inv_put:
  assumes "port_inv p" "same_port p p'" "agent_inv a"
  shows "port_inv (p'\<lparr>agent_head := (agent_head p')[i := a]\<rparr>)"
proof -
  have "l2_ok (l2 p')" using assms(1,2) by (auto simp: port_inv_def same_port_def l2_ok_def)
  moreover have "list_all agent_inv ((agent_head p)[i := a])"
    using assms(1,3) by (auto simp: port_inv_def list_all_iff dest: set_update_subset_insert [THEN subsetD])
  ultimately show ?thesis using same_port_fields [OF assms(2)] by (simp add: port_inv_def)
qed

definition same_ports :: "port \<Rightarrow> port \<Rightarrow> bool" where
  "same_ports p p' \<longleftrightarrow> ifindex p' = ifindex p \<and> ifname p' = ifname p \<and> portEnabled p' = portEnabled p
     \<and> map agenttype (agent_head p') = map agenttype (agent_head p)"

context lldp_modules
begin

lemma run_rx_sm_agent:
  assumes "lldp_head c = mods" "inv w" "timers_live a" "length (mac_addr a) = ETH_ALEN" "rx_sized a"
  shows "(\<exists>e. run_rx_sm c p a w = Some (Inl e))
    \<or> (\<exists>p' a' w'. run_rx_sm c p a w = Some (Inr (p', a', w')) \<and> inv w' \<and> same_port p p' \<and> agent_inv a'
          \<and> agenttype a' = agenttype a)"
proof -
  have "agent_inv a' \<and> agenttype a' = agenttype a" if "rx_kept a a'" "rx_quiet a'" "rx_sized a'" for a'
  proof -
    have "tx_clock a' = tx_clock a" using that(1) by (simp add: rx_kept_def)
    from arg_cong [OF this, of msgTxInterval] arg_cong [OF this, of msgFastTx]
    have "timers_live a' = timers_live a" by (simp add: tx_clock_def timers_live_def)
    with that assms(3,4) show ?thesis by (simp add: agent_inv_def rx_kept_def)
  qed
  with run_rx_sm_ends [OF assms(1,2,5), of p] show ?thesis by blast
qed

text \<open>
  The reception of any frame returns, and unless it faults the invariant holds again: no frame
  can hang the daemon or leave a state the later steps do not expect.
\<close>

lemma rxReceiveFrame_returns:
  assumes "lldp_head c = mods" "inv w" "port_inv p" "length buf \<le> 2300"
  shows "(\<exists>e. rxReceiveFrame c p buf w = Some (Inl e))
    \<or> (\<exists>p' w'. rxReceiveFrame c p buf w = Some (Inr (p', w')) \<and> inv w' \<and> port_inv p' \<and> same_ports p p')"
proof (cases "buf = []")
  case True
  then show ?thesis using assms(2,3) by (simp add: rxReceiveFrame_def same_ports_def)
next
  case False
  have at: "agent_inv (agent_head p ! i)" if "i < length (agent_head p)" for i
    using assms(3) that by (simp add: port_inv_def list_all_length)
  have types: "map agenttype ((agent_head p)[i := b]) = map agenttype (agent_head p)"
    if "agenttype b = agenttype (agent_head p ! i)" for i b
    using that by (cases "i < length (agent_head p)") (simp_all add: map_update list_update_same_conv list_update_beyond)
  have put: "port_inv (p\<lparr>agent_head := (agent_head p)[i := b]\<rparr>)" if "agent_inv b" for i b
    using port_inv_put [OF assms(3) same_port_refl that] by simp
  show ?thesis
  proof (cases "rx_walk 0 buf (agent_head p)")
    case (Inl e)
    with False show ?thesis by (simp add: rxReceiveFrame_def)
  next
    case (Inr v)
    show ?thesis
    proof (cases v)
      case (Refreshed i)
      have "agent_inv (a\<lparr>timers := (timers a)\<lparr>rxTTL := n\<rparr>, stats := st\<rparr>) = agent_inv a" for a n st
        by (simp add: agent_inv_def timers_live_def rx_sized_def rx_quiet_def)
      then show ?thesis
        using False Inr Refreshed rx_walk_index(2) [of 0 buf "agent_head p" i] at put assms(2)
        by (simp add: rxReceiveFrame_def Let_def same_ports_def types)
    next
      case (Matched i)
      let ?a = "agent_head p ! i"
      let ?a1 = "rx_update (\<lambda>r. r\<lparr>sizein := of_nat (length buf), framein :=
                 (if malloc_ok (core_env c) (length buf) then Some buf else None)\<rparr>) ?a"
      let ?a2 = "?a1\<lparr>stats := (stats ?a1)\<lparr>statsFramesInTotal := statsFramesInTotal (stats ?a1) + 1\<rparr>,
                     rx := (rx ?a1)\<lparr>rcvFrame := True\<rparr>\<rparr>"
      have ai: "agent_inv ?a" using at rx_walk_index(1) [of 0 buf "agent_head p" i] Inr Matched by simp
      have len: "unat (of_nat (length buf) :: u16) \<le> 65000" using assms(4) by (simp add: unat_of_nat)
      have a1: "agent_inv ?a1" using ai len by (simp add: agent_inv_def timers_live_def rx_sized_def rx_quiet_def)
      have "timers_live ?a2" "length (mac_addr ?a2) = ETH_ALEN" "rx_sized ?a2"
        using ai len by (simp_all add: agent_inv_def timers_live_def rx_sized_def)
      from run_rx_sm_agent [OF assms(1,2) this, of p]
      consider e where "run_rx_sm c p ?a2 w = Some (Inl e)"
        | p' a' w' where "run_rx_sm c p ?a2 w = Some (Inr (p', a', w'))" "inv w'" "same_port p p'" "agent_inv a'"
            "agenttype a' = agenttype ?a2"
        by blast
      then show ?thesis
      proof cases
        case 1
        then show ?thesis
          using False Inr Matched assms(2,3) put [OF a1] by (auto simp: rxReceiveFrame_def Let_def same_ports_def types)
      next
        case 2
        have "same_ports p (p'\<lparr>agent_head := (agent_head p')[i := a']\<rparr>)"
          using same_port_fields [OF 2(3)] 2(5) by (simp add: same_ports_def types)
        then show ?thesis
          using False Inr Matched assms(2,3) put [OF a1] 2 port_inv_put [OF assms(3) 2(3,4), of i]
          by (auto simp: rxReceiveFrame_def Let_def same_ports_def types)
      qed
    qed (use False Inr assms(2,3) in \<open>simp_all add: rxReceiveFrame_def same_ports_def\<close>)
  qed
qed

end

subsection \<open>The handlers of the daemon\<close>

text \<open>
  \<open>d_run\<close> is the state of the core and of the modules, a fault, or \<open>None\<close> for a handler that did
  not return; the counters say how often the clock and the sockets have been read.  A socket is
  registered with its port, named by the interface index.
\<close>

record 'm daemon =
  d_run :: "('m core \<times> 'm) res option"
  d_clock :: nat
  d_recv :: nat

definition timer_event :: "(nat \<Rightarrow> os_time) \<Rightarrow> lldpad_handler eloop_data \<times> 'm daemon \<Rightarrow>
    lldpad_handler eloop_data \<times> 'm daemon" where
  "timer_event clock = (\<lambda>(e, d). case d_run d of
       Some (Inr (c, w)) \<Rightarrow>
         (let d1 = d\<lparr>d_clock := Suc (d_clock d)\<rparr> in
          case timer (clock (d_clock d)) c w e of
            Some (Inr (c', w', e')) \<Rightarrow> (e', d1\<lparr>d_run := Some (Inr (c', w'))\<rparr>)
          | Some (Inl f) \<Rightarrow> (e, d1\<lparr>d_run := Some (Inl f)\<rparr>)
          | None \<Rightarrow> (e, d1\<lparr>d_run := None\<rparr>))
     | _ \<Rightarrow> (e, d))"

definition receive_event :: "(nat \<Rightarrow> bytes option) \<Rightarrow> ptr \<Rightarrow> 'm daemon \<Rightarrow> 'm daemon" where
  "receive_event recv ifi d = (case d_run d of
       Some (Inr (c, w)) \<Rightarrow>
         (case port_find_by_ifindex (porthead c) (int ifi) of
            None \<Rightarrow> d
          | Some i \<Rightarrow> d\<lparr>d_recv := Suc (d_recv d), d_run := l2_packet_receive (recv (d_recv d)) c i w\<rparr>)
     | _ \<Rightarrow> d)"

definition lldpad_handlers :: "(nat \<Rightarrow> os_time) \<Rightarrow> (nat \<Rightarrow> bytes option) \<Rightarrow> (lldpad_handler, 'm daemon) handlers" where
  "lldpad_handlers clock recv = \<lparr>
     on_timeout = (\<lambda>h ed ud st. if h = timer_handler then timer_event clock st else st),
     on_sock = (\<lambda>h sock ed ud (e, d). (e, if h = l2_packet_receive_handler then receive_event recv ed d else d)),
     on_signal = (\<lambda>h sig ed ud (e, d). (if h = eloop_terminate_handler then eloop_terminate e else e, d))\<rparr>"

definition core_inv :: "env \<Rightarrow> host \<Rightarrow> lldpad_world core \<Rightarrow> lldpad_world \<Rightarrow> bool" where
  "core_inv en h c w \<longleftrightarrow> lldp_head c = lldpad_mods en h \<and> core_env c = en \<and> env_ok en \<and> mods_inv en h w
     \<and> list_all port_inv (porthead c)"

text \<open>A daemon that has not hung, and one that has not faulted either.\<close>

definition daemon_good :: "env \<Rightarrow> host \<Rightarrow> lldpad_world daemon \<Rightarrow> bool" where
  "daemon_good en h d \<longleftrightarrow> (case d_run d of None \<Rightarrow> False | Some (Inl f) \<Rightarrow> True | Some (Inr (c, w)) \<Rightarrow> core_inv en h c w)"

definition daemon_up :: "env \<Rightarrow> host \<Rightarrow> lldpad_world daemon \<Rightarrow> bool" where
  "daemon_up en h d \<longleftrightarrow> (case d_run d of Some (Inr (c, w)) \<Rightarrow> core_inv en h c w | _ \<Rightarrow> False)"

lemma daemon_upE:
  assumes "daemon_up en h d"
  obtains c w where "d_run d = Some (Inr (c, w))" "core_inv en h c w"
  using assms by (auto simp: daemon_up_def split: option.splits sum.splits)

lemma daemon_up_good: "daemon_up en h d \<Longrightarrow> daemon_good en h d"
  by (auto simp: daemon_up_def daemon_good_def split: option.splits sum.splits)

lemma daemon_good_cases:
  assumes "daemon_good en h d"
  obtains (fault) f where "d_run d = Some (Inl f)" | (up) "daemon_up en h d"
  using assms by (auto simp: daemon_up_def daemon_good_def split: option.splits sum.splits)

lemma timer_ok_core:
  assumes "core_inv en h c w"
  shows "\<exists>c' w' e'. timer now c w e = Some (Inr (c', w', e')) \<and> core_inv en h c' w'
     \<and> map (\<lambda>p. (ifindex p, map agenttype (agent_head p))) (porthead c')
          = map (\<lambda>p. (ifindex p, map agenttype (agent_head p))) (porthead c)
     \<and> e' = snd (eloop_register_timeout (malloc_ok en) now 1 0 timer_handler 0 0 e)"
proof -
  obtain ps w' where "timer_ports c (porthead c) w = Some (Inr (ps, w'))" "mods_inv en h w'"
      "list_all port_inv ps" "map (\<lambda>p. (ifindex p, map agenttype (agent_head p))) ps
          = map (\<lambda>p. (ifindex p, map agenttype (agent_head p))) (porthead c)"
    using lt.timer_ports_ok [of c en h w "porthead c"] assms by (auto simp: core_inv_def)
  then show ?thesis using assms by (auto simp: timer_def core_inv_def)
qed

lemma timer_event_up:
  assumes "eloop_inv e" "daemon_up en h d"
  shows "eloop_inv (fst (timer_event clock (e, d)))" "daemon_up en h (snd (timer_event clock (e, d)))"
proof -
  from assms(2) obtain c w where d: "d_run d = Some (Inr (c, w))" "core_inv en h c w" by (rule daemon_upE)
  obtain c' w' where "timer (clock (d_clock d)) c w e = Some (Inr (c', w',
      snd (eloop_register_timeout (malloc_ok en) (clock (d_clock d)) 1 0 timer_handler 0 0 e)))" "core_inv en h c' w'"
    using timer_ok_core [OF d(2)] by blast
  with d assms(1) show "eloop_inv (fst (timer_event clock (e, d)))" "daemon_up en h (snd (timer_event clock (e, d)))"
    by (simp_all add: timer_event_def daemon_up_def Let_def eloop_inv_register_timeout)
qed

lemma timer_event_good:
  assumes "eloop_inv e" "daemon_good en h d"
  shows "eloop_inv (fst (timer_event clock (e, d)))" "daemon_good en h (snd (timer_event clock (e, d)))"
  using assms(2)
  by (cases rule: daemon_good_cases; use assms timer_event_up daemon_up_good in
      \<open>fastforce simp: timer_event_def\<close>)+

lemma list_all_update: "list_all P xs \<Longrightarrow> P x \<Longrightarrow> list_all P (xs[i := x])"
  by (auto simp: list_all_iff dest: set_update_subset_insert [THEN subsetD])

lemma receive_event_good:
  assumes "daemon_good en h d"
  shows "daemon_good en h (receive_event recv ifi d)"
  using assms
proof (cases rule: daemon_good_cases)
  case fault
  with assms show ?thesis by (simp add: receive_event_def)
next
  case up
  then obtain c w where d: "d_run d = Some (Inr (c, w))" "core_inv en h c w" by (rule daemon_upE)
  show ?thesis
  proof (cases "port_find_by_ifindex (porthead c) (int ifi)")
    case None
    with d assms show ?thesis by (simp add: receive_event_def)
  next
    case (Some i)
    then have i: "i < length (porthead c)" by (auto simp: port_find_by_ifindex_def dest: find_index_Some)
    show ?thesis
    proof (cases "recv (d_recv d)")
      case None
      with d Some show ?thesis by (simp add: receive_event_def l2_packet_receive_def daemon_good_def)
    next
      case r: (Some buf)
      have "port_inv (porthead c ! i)" using d(2) i by (simp add: core_inv_def list_all_length)
      moreover have "lldp_head c = lldpad_mods en h" "mods_inv en h w" "length (take 2300 buf) \<le> 2300"
        using d(2) by (simp_all add: core_inv_def)
      ultimately consider f where "rxReceiveFrame c (porthead c ! i) (take 2300 buf) w = Some (Inl f)"
        | p' w' where "rxReceiveFrame c (porthead c ! i) (take 2300 buf) w = Some (Inr (p', w'))"
            "mods_inv en h w'" "port_inv p'"
        using lm.rxReceiveFrame_returns by metis
      then show ?thesis
        using d Some r
        by cases (auto simp: receive_event_def l2_packet_receive_def daemon_good_def core_inv_def put_port_def
            list_all_update)
    qed
  qed
qed

lemma receive_event_silent: "daemon_up en h d \<Longrightarrow> daemon_up en h (receive_event (\<lambda>_. None) ifi d)"
  by (auto simp: receive_event_def l2_packet_receive_def daemon_up_def split: option.splits sum.splits)

text \<open>
  The handlers meet the contract of the event loop: for any clock and any frames with
  \<open>daemon_good\<close>, and on a silent network with \<open>daemon_up\<close>.
\<close>

interpretation dg: eloop_handlers "lldpad_handlers clock recv" "daemon_good en h" for clock recv en h
proof unfold_locales
  fix hd ed ud and e :: "lldpad_handler eloop_data" and d :: "lldpad_world daemon" and k ty
  show "length (signals (fst (on_signal (lldpad_handlers clock recv) hd k ed ud (e, d)))) = length (signals e)"
    by (simp add: lldpad_handlers_def eloop_terminate_def)
  show "changed (eloop_get_sock_table (fst (on_sock (lldpad_handlers clock recv) hd k ed ud (e, d))) ty)
      \<or> sock_count (eloop_get_sock_table (fst (on_sock (lldpad_handlers clock recv) hd k ed ud (e, d))) ty)
          = sock_count (eloop_get_sock_table e ty)"
    by (simp add: lldpad_handlers_def)
  assume e: "eloop_inv e" "daemon_good en h d"
  show "eloop_inv (fst (on_timeout (lldpad_handlers clock recv) hd ed ud (e, d)))
      \<and> daemon_good en h (snd (on_timeout (lldpad_handlers clock recv) hd ed ud (e, d)))"
    using e timer_event_good by (simp add: lldpad_handlers_def)
  show "eloop_inv (fst (on_sock (lldpad_handlers clock recv) hd k ed ud (e, d)))
      \<and> daemon_good en h (snd (on_sock (lldpad_handlers clock recv) hd k ed ud (e, d)))"
    using e receive_event_good by (simp add: lldpad_handlers_def)
  show "eloop_inv (fst (on_signal (lldpad_handlers clock recv) hd k ed ud (e, d)))
      \<and> daemon_good en h (snd (on_signal (lldpad_handlers clock recv) hd k ed ud (e, d)))"
    using e by (simp add: lldpad_handlers_def eloop_inv_signals)
qed

interpretation du: eloop_handlers "lldpad_handlers clock (\<lambda>_. None)" "daemon_up en h" for clock en h
proof unfold_locales
  fix hd ed ud and e :: "lldpad_handler eloop_data" and d :: "lldpad_world daemon" and k
  assume e: "eloop_inv e" "daemon_up en h d"
  show "eloop_inv (fst (on_timeout (lldpad_handlers clock (\<lambda>_. None)) hd ed ud (e, d)))
      \<and> daemon_up en h (snd (on_timeout (lldpad_handlers clock (\<lambda>_. None)) hd ed ud (e, d)))"
    using e timer_event_up by (simp add: lldpad_handlers_def)
  show "eloop_inv (fst (on_sock (lldpad_handlers clock (\<lambda>_. None)) hd k ed ud (e, d)))
      \<and> daemon_up en h (snd (on_sock (lldpad_handlers clock (\<lambda>_. None)) hd k ed ud (e, d)))"
    using e receive_event_silent by (simp add: lldpad_handlers_def)
  show "eloop_inv (fst (on_signal (lldpad_handlers clock (\<lambda>_. None)) hd k ed ud (e, d)))
      \<and> daemon_up en h (snd (on_signal (lldpad_handlers clock (\<lambda>_. None)) hd k ed ud (e, d)))"
    using e by (simp add: lldpad_handlers_def eloop_inv_signals)
qed (simp_all add: lldpad_handlers_def eloop_terminate_def)

end
