(* ===== verification/Ports_Safe.thy ===== *)
theory Ports_Safe
  imports Ports Daemon
begin

text \<open>
  The commands on ports and agents (\<open>src/lldp/ports.c\<close>, \<open>src/lldp/agent.c\<close>) keep the state the
  state machines rely on: every command returns without a fault, interface indices and agent
  types stay unique, and what a command sets is what a query reads afterwards.
\<close>

subsection \<open>The invariant of the list of ports\<close>

definition ports_unique :: "port list \<Rightarrow> bool" where
  "ports_unique ps \<longleftrightarrow> distinct (map ifindex ps) \<and> list_all (\<lambda>p. distinct (map agenttype (agent_head p))) ps"

definition ports_ok :: "env \<Rightarrow> host \<Rightarrow> lldpad_world core \<Rightarrow> lldpad_world \<Rightarrow> bool" where
  "ports_ok en h c w \<longleftrightarrow> core_inv en h c w \<and> ports_unique (porthead c)"

lemma map_update_same: "i < length xs \<Longrightarrow> f x = f (xs ! i) \<Longrightarrow> map f (xs[i := x]) = map f xs"
  by (simp add: map_update list_update_same_conv)

lemma ports_ok_put_port:
  assumes "ports_ok en h c w" "mods_inv en h w'" "i < length (porthead c)" "port_inv p"
    "ifindex p = ifindex (porthead c ! i)" "distinct (map agenttype (agent_head p))"
  shows "ports_ok en h (put_port i p c) w'"
proof -
  have "map ifindex ((porthead c)[i := p]) = map ifindex (porthead c)"
    by (rule map_update_same [OF assms(3,5)])
  with assms show ?thesis
    by (simp add: ports_ok_def core_inv_def ports_unique_def put_port_def list_all_update)
qed

lemma ports_ok_mods: "ports_ok en h c w \<Longrightarrow> mods_inv en h w"
  by (simp add: ports_ok_def core_inv_def)

lemma ports_ok_at:
  assumes "ports_ok en h c w" "i < length (porthead c)"
  shows "port_inv (porthead c ! i)" "distinct (map agenttype (agent_head (porthead c ! i)))"
  using assms by (simp_all add: ports_ok_def core_inv_def ports_unique_def list_all_length)

lemma port_find_at:
  assumes "port_find_by_ifindex ps k = Some i"
  shows "i < length ps" "ifindex (ps ! i) = k"
  using assms by (auto simp: port_find_by_ifindex_def dest: find_index_Some)

lemma agent_find_at:
  assumes "lldp_agent_find_by_type c name ty = Some ij"
  shows "port_find_by_ifindex (porthead c) (get_ifidx (core_env c) name) = Some (fst ij)"
    "fst ij < length (porthead c)" "snd ij < length (agent_head (porthead c ! fst ij))"
    "agenttype (agent_at c ij) = ty"
  using assms by (auto simp: lldp_agent_find_by_type_def agent_at_def split: option.splits
      dest: find_index_Some port_find_at)

lemma put_agent_port:
  "put_agent (i, j) a c = put_port i ((porthead c ! i)\<lparr>agent_head := (agent_head (porthead c ! i))[j := a]\<rparr>) c"
  by (simp add: put_agent_def put_port_def)

lemma ports_ok_put_agent:
  assumes "ports_ok en h c w" "mods_inv en h w'" "i < length (porthead c)"
    "j < length (agent_head (porthead c ! i))" "agent_inv a" "agenttype a = agenttype (agent_at c (i, j))"
  shows "ports_ok en h (put_agent (i, j) a c) w'"
proof -
  note p = ports_ok_at [OF assms(1,3)]
  have "map agenttype ((agent_head (porthead c ! i))[j := a]) = map agenttype (agent_head (porthead c ! i))"
    using assms(4,6) by (intro map_update_same) (simp_all add: agent_at_def)
  moreover have "port_inv ((porthead c ! i)\<lparr>agent_head := (agent_head (porthead c ! i))[j := a]\<rparr>)"
    using p(1) assms(5) by (simp add: port_inv_def list_all_update)
  ultimately show ?thesis
    unfolding put_agent_port using assms(1-3) p(2) by (intro ports_ok_put_port) simp_all
qed

subsection \<open>Initialising agents\<close>

context lldp_modules
begin

lemma rxInitializeLLDP_ok:
  assumes "lldp_head c = mods" "inv w"
  shows "\<exists>a' w'. rxInitializeLLDP c p a w = Inr (a', w') \<and> inv w' \<and> mac_addr a' = mac_addr a
     \<and> agenttype a' = agenttype a \<and> adminStatus a' = adminStatus a \<and> timers a' = timers a
     \<and> rxstate (rx a') = rxstate (rx a) \<and> \<not> rcvFrame (rx a') \<and> framein (rx a') = None \<and> sizein (rx a') = 0"
proof -
  let ?a = "rx_update (\<lambda>r. r\<lparr>rcvFrame := False, badFrame := False, tooManyNghbrs := False,
      rxInfoAge := False, framein := None, sizein := 0\<rparr>) a"
  obtain b w' where "mibDeleteObjects c p ?a w = Inr (clear_msap b, w')" "mod_agree ?a b" "inv w'"
    using mibDeleteObjects_ok [OF assms] by blast
  then show ?thesis
    by (simp add: rxInitializeLLDP_def mod_agree_fields [of ?a b] clear_msap_def)
qed

end

text \<open>An agent as \<open>lldp_init_agent\<close> and \<open>reinit_port\<close> leave it.\<close>

definition fresh_agent :: "lldp_agent \<Rightarrow> bool" where
  "fresh_agent a \<longleftrightarrow> txstate (tx a) = TX_LLDP_INITIALIZE \<and> rxstate (rx a) = LLDP_WAIT_PORT_OPERATIONAL
     \<and> timers_state (timers a) = TX_TIMER_BEGIN \<and> txCredit (timers a) = TX_CREDIT_MAX
     \<and> txMaxCredit (timers a) = TX_CREDIT_MAX \<and> msgTxInterval (timers a) = DEFAULT_TX_INTERVAL
     \<and> msgFastTx (timers a) = FAST_TX_INTERVAL \<and> reinitDelay (timers a) = REINIT_DELAY
     \<and> framein (rx a) = None \<and> sizein (rx a) = 0 \<and> \<not> rcvFrame (rx a) \<and> frameout (tx a) = None \<and> \<not> txNow (tx a)
     \<and> msap_info a = \<lparr>length1 = 0, msap1 = None, length2 = 0, msap2 = None\<rparr>"

lemma fresh_agent_inv: "fresh_agent a \<Longrightarrow> length (mac_addr a) = ETH_ALEN \<Longrightarrow> agent_inv a"
  by (simp add: fresh_agent_def agent_inv_def timers_live_def rx_sized_def rx_quiet_def)

context lldp_modules
begin

lemma lldp_init_agent_ok:
  assumes "lldp_head c = mods" "inv w"
  shows "\<exists>a w'. lldp_init_agent c p ty w = Inr (a, w') \<and> inv w' \<and> fresh_agent a
     \<and> mac_addr a = agent_groupmacs ty \<and> agenttype a = ty"
proof -
  define a0 where "a0 = zero_agent\<lparr>mac_addr := agent_groupmacs ty,
            tx := (tx zero_agent)\<lparr>txstate := TX_LLDP_INITIALIZE\<rparr>,
            rx := (rx zero_agent)\<lparr>rxstate := LLDP_WAIT_PORT_OPERATIONAL\<rparr>, agenttype := ty,
            adminStatus := (case cfg_int (core_env c) (ifname p) ty ''adminStatus'' of
                              None \<Rightarrow> disabled | Some v \<Rightarrow> v)\<rparr>"
  have a0: "mac_addr a0 = agent_groupmacs ty" "agenttype a0 = ty" "rxstate (rx a0) = LLDP_WAIT_PORT_OPERATIONAL"
    by (simp_all add: a0_def)
  obtain b w' where "rxInitializeLLDP c p a0 w = Inr (b, w')" "inv w'" "mac_addr b = mac_addr a0"
      "agenttype b = agenttype a0" "rxstate (rx b) = rxstate (rx a0)" "\<not> rcvFrame (rx b)"
      "framein (rx b) = None" "sizein (rx b) = 0"
    using rxInitializeLLDP_ok [OF assms, of p a0] by auto
  then show ?thesis
    using a0 by (simp add: lldp_init_agent_def Let_def flip: a0_def)
      (simp add: fresh_agent_def txInitializeLLDP_def txInitializeTimers_def)
qed

lemma reinit_agent_ok:
  assumes "lldp_head c = mods" "inv w"
  shows "\<exists>a' w'. reinit_agent c p a w = Inr (p, a', w') \<and> inv w' \<and> fresh_agent a'
     \<and> mac_addr a' = mac_addr a \<and> agenttype a' = agenttype a"
proof -
  define a0 where "a0 = a\<lparr>tx := (tx a)\<lparr>txstate := TX_LLDP_INITIALIZE\<rparr>,
            rx := (rx a)\<lparr>rxstate := LLDP_WAIT_PORT_OPERATIONAL\<rparr>,
            msap_info := \<lparr>length1 = 0, msap1 = None, length2 = 0, msap2 = None\<rparr>,
            lldpdu := 0, timers := (timers a)\<lparr>timers_state := TX_TIMER_BEGIN\<rparr>\<rparr>"
  have a0: "mac_addr a0 = mac_addr a" "agenttype a0 = agenttype a" "rxstate (rx a0) = LLDP_WAIT_PORT_OPERATIONAL"
    by (simp_all add: a0_def)
  obtain b w' where "rxInitializeLLDP c p a0 w = Inr (b, w')" "inv w'" "mac_addr b = mac_addr a0"
      "agenttype b = agenttype a0" "rxstate (rx b) = rxstate (rx a0)" "\<not> rcvFrame (rx b)"
      "framein (rx b) = None" "sizein (rx b) = 0"
    using rxInitializeLLDP_ok [OF assms, of p a0] by auto
  then show ?thesis
    using a0 by (simp add: reinit_agent_def Let_def flip: a0_def)
      (simp add: fresh_agent_def txInitializeLLDP_def txInitializeTimers_def)
qed

end

lemma length_groupmacs: "length (agent_groupmacs ty) = ETH_ALEN"
  by (cases ty) (simp_all add: agent_groupmacs_def)

subsection \<open>Adding agents and ports\<close>

text \<open>
  Adding an agent succeeds exactly when the port is known and has no agent of that type, and
  then the agent is found under its type, freshly initialised.
\<close>

lemma lldp_add_agent_ok:
  assumes "ports_ok en h c w"
  shows "\<exists>rc c' w'. lldp_add_agent c name ty w = Inr (rc, c', w') \<and> ports_ok en h c' w'
     \<and> rc = (if port_find_by_ifindex (porthead c) (get_ifidx en name) \<noteq> None
               \<and> lldp_agent_find_by_type c name ty = None then 0 else - 1)
     \<and> (if rc = 0 then \<exists>ij. lldp_agent_find_by_type c' name ty = Some ij \<and> fresh_agent (agent_at c' ij)
        else c' = c \<and> w' = w)"
proof -
  have c: "core_env c = en" "lldp_head c = lldpad_mods en h" "mods_inv en h w" "env_ok en"
    using assms by (simp_all add: ports_ok_def core_inv_def)
  show ?thesis
  proof (cases "port_find_by_ifindex (porthead c) (get_ifidx en name)")
    case None
    with assms c show ?thesis by (auto simp: lldp_add_agent_def)
  next
    case (Some i)
    let ?p = "porthead c ! i"
    note i = port_find_at [OF Some]
    have find: "lldp_agent_find_by_type c name ty = None \<longleftrightarrow> \<not> (\<exists>a \<in> set (agent_head ?p). agenttype a = ty)"
      using Some c(1) by (simp add: lldp_agent_find_by_type_def find_index_None)
    obtain a w' where a: "lldp_init_agent c ?p ty w = Inr (a, w')" "mods_inv en h w'" "fresh_agent a"
        "mac_addr a = agent_groupmacs ty" "agenttype a = ty"
      using lm.lldp_init_agent_ok [OF c(2,3)] by blast
    let ?q = "?p\<lparr>agent_head := a # agent_head ?p\<rparr>" and ?c = "put_port i (?p\<lparr>agent_head := a # agent_head ?p\<rparr>) c"
    have "agent_inv a" using a by (intro fresh_agent_inv) (simp_all add: length_groupmacs)
    then have q: "port_inv ?q" using ports_ok_at(1) [OF assms i(1)] by (simp add: port_inv_def)
    have "port_find_by_ifindex (porthead ?c) (get_ifidx en name) = Some i"
      using Some i by (simp add: put_port_def port_find_by_ifindex_def find_index_update_other)
    then have found: "lldp_agent_find_by_type ?c name ty = Some (i, 0)" "agent_at ?c (i, 0) = a"
      using i(1) c(1) a(5) by (simp_all add: lldp_agent_find_by_type_def put_port_def agent_at_def)
    show ?thesis
    proof (cases "\<exists>a \<in> set (agent_head ?p). agenttype a = ty")
      case True
      with Some find assms c(1) show ?thesis by (auto simp: lldp_add_agent_def Let_def)
    next
      case False
      have "ports_ok en h ?c w'"
        using a(5) False ports_ok_at(2) [OF assms i(1)] by (intro ports_ok_put_port [OF assms a(2) i(1) q]) auto
      with Some find False c(1,4) a found show ?thesis
        by (auto simp: lldp_add_agent_def Let_def env_ok_def)
    qed
  qed
qed

lemma add_port_ok:
  assumes "ports_ok en h c w" "\<And>n l. l2_packet_init n = Some l \<Longrightarrow> l2_ok l"
    and r: "add_port l2_packet_init c ifidx name = (b, c')"
  shows "ports_ok en h c' w \<and> (if b then port_find_by_ifindex (porthead c) ifidx = None
      \<and> port_find_by_ifindex (porthead c') ifidx = Some 0 \<and> agent_head (porthead c' ! 0) = []
      \<and> tl (porthead c') = porthead c
    else c' = c)"
proof (cases b)
  case True
  then obtain l where "l2_packet_init (take IFNAMSIZ name) = Some l"
      "\<forall>p \<in> set (porthead c). ifindex p \<noteq> ifidx"
      "c' = c\<lparr>porthead := \<lparr>ifindex = ifidx, hw_resetting = 0, portEnabled = False, prevPortEnabled = False,
             bond_master = is_bond (core_env c) name, dormantDelay = DORMANT_DELAY,
             agent_head = [], l2 = l, ifname = take IFNAMSIZ name\<rparr> # porthead c\<rparr>"
    using r by (auto simp: add_port_def Let_def split: if_splits option.splits)
  with assms(1,2) True show ?thesis
    by (auto simp: ports_ok_def core_inv_def ports_unique_def port_inv_def port_find_by_ifindex_def find_index_None)
next
  case False
  with r assms(1) show ?thesis by (auto simp: add_port_def Let_def split: if_splits option.splits)
qed

lemma unlink_port_spec:
  "unlink_port name ps = Some ps' \<Longrightarrow> \<exists>xs p ys. ps = xs @ p # ys \<and> ps' = xs @ ys
     \<and> strn_eq IFNAMSIZ name (ifname p) \<and> (\<forall>q \<in> set xs. \<not> strn_eq IFNAMSIZ name (ifname q))"
proof (induction ps arbitrary: ps')
  case (Cons q qs)
  show ?case
  proof (cases "strn_eq IFNAMSIZ name (ifname q)")
    case True
    with Cons.prems show ?thesis by (intro exI [of _ "[]"]) simp
  next
    case False
    with Cons.prems obtain qs' where "unlink_port name qs = Some qs'" "ps' = q # qs'" by auto
    with Cons.IH obtain xs p ys where "qs = xs @ p # ys" "qs' = xs @ ys" "strn_eq IFNAMSIZ name (ifname p)"
      "\<forall>q \<in> set xs. \<not> strn_eq IFNAMSIZ name (ifname q)" by blast
    with False \<open>ps' = q # qs'\<close> show ?thesis by (intro exI [of _ "q # xs"]) auto
  qed
qed simp

lemma remove_port_ok:
  assumes "ports_ok en h c w" "remove_port c name = (rc, c')"
  shows "ports_ok en h c' w"
proof (cases "unlink_port name (porthead c)")
  case None
  with assms show ?thesis by (auto simp: remove_port_def)
next
  case (Some ps)
  then obtain xs p ys where "porthead c = xs @ p # ys" "ps = xs @ ys" by (auto dest: unlink_port_spec)
  with assms Some show ?thesis
    by (auto simp: remove_port_def ports_ok_def core_inv_def ports_unique_def)
qed

subsection \<open>Commands\<close>

lemma somethingChanged_inv [simp]: "agent_inv (somethingChanged a) = agent_inv a"
  "agenttype (somethingChanged a) = agenttype a" "adminStatus (somethingChanged a) = adminStatus a"
  by (simp_all add: somethingChanged_def agent_inv_def timers_live_def rx_sized_def rx_quiet_def)

lemma somethingChangedLocal_ok:
  assumes "ports_ok en h c w"
  shows "ports_ok en h (somethingChangedLocal c name ty) w"
proof (cases "lldp_agent_find_by_type c name ty")
  case None
  with assms show ?thesis by (simp add: somethingChangedLocal_def)
next
  case (Some ij)
  note f = agent_find_at [OF Some]
  have "agent_inv (agent_at c ij)"
    using ports_ok_at(1) [OF assms f(2)] f(3) by (simp add: port_inv_def agent_at_def list_all_length)
  then show ?thesis
    using ports_ok_put_agent [OF assms ports_ok_mods [OF assms] f(2,3), of "somethingChanged (agent_at c ij)"] f(4) Some
    by (simp add: somethingChangedLocal_def)
qed

text \<open>Adding up the machines of one agent, as the commands run them.\<close>

lemma run_agent_sms_ok:
  assumes "ports_ok en h c w" "l2_ok (l2 p)" "agent_inv a"
  shows "\<exists>p' a' w' xs. run_agent_sms c p a w = Some (Inr (p', a', w')) \<and> mods_inv en h w' \<and> agent_inv a'
     \<and> port_moved xs p p' \<and> list_all (good_packet mods_emit (lldpad_mods en h) (frame_hdr c p a)) xs
     \<and> agenttype a' = agenttype a \<and> mac_addr a' = mac_addr a \<and> adminStatus a' = adminStatus a"
proof -
  have c: "lldp_head c = lldpad_mods en h" "mods_inv en h w" "env_ok (core_env c)"
    using assms(1) by (simp_all add: ports_ok_def core_inv_def)
  from lt.run_agent_tx_rx [OF c assms(2,3)] show ?thesis by (fastforce simp: run_agent_sms_def)
qed

lemma run_agent_sms_step:
  assumes "ports_ok en h c w"
  shows "lt.agent_step_ok en h c (run_agent_sms c)"
proof -
  have "ports_ok en h c v" if "mods_inv en h v" for v
    using assms that by (simp add: ports_ok_def core_inv_def)
  then show ?thesis
    unfolding lt.agent_step_ok_def using run_agent_sms_ok by meson
qed

text \<open>The part of the core that the lookups depend on.\<close>

definition shape :: "'m core \<Rightarrow> env \<times> (int \<times> agent_type list) list" where
  "shape c = (core_env c, map (\<lambda>p. (ifindex p, map agenttype (agent_head p))) (porthead c))"

lemma find_index_map: "find_index P (map f xs) = find_index (\<lambda>x. P (f x)) xs"
  by (induction xs) auto

lemma port_find_shape:
  "port_find_by_ifindex (porthead c) k = find_index (\<lambda>x. fst x = k) (snd (shape c))"
  by (simp add: port_find_by_ifindex_def shape_def find_index_map)

lemma agent_find_shape:
  "lldp_agent_find_by_type c name ty =
     (case find_index (\<lambda>x. fst x = get_ifidx (fst (shape c)) name) (snd (shape c)) of
        None \<Rightarrow> None
      | Some i \<Rightarrow> map_option (Pair i) (find_index (\<lambda>t. t = ty) (snd (snd (shape c) ! i))))"
  by (auto simp: lldp_agent_find_by_type_def shape_def find_index_map port_find_by_ifindex_def
      split: option.splits dest!: find_index_Some)

lemma shape_length:
  assumes "shape c' = shape c"
  shows "length (porthead c') = length (porthead c)"
  using arg_cong [OF assms, of "\<lambda>x. length (snd x)"] by (simp add: shape_def)

lemma shape_put_port:
  assumes "i < length (porthead c)" "ifindex p = ifindex (porthead c ! i)"
    "map agenttype (agent_head p) = map agenttype (agent_head (porthead c ! i))"
  shows "shape (put_port i p c) = shape c"
  using assms by (simp add: shape_def put_port_def map_update_same)

lemma shape_put_agent:
  assumes "fst ij < length (porthead c)" "snd ij < length (agent_head (porthead c ! fst ij))"
    "agenttype a = agenttype (agent_at c ij)"
  shows "shape (put_agent ij a c) = shape c"
  using assms by (cases ij) (simp add: put_agent_port shape_put_port map_update_same agent_at_def)

lemma put_agent_at:
  assumes "fst ij < length (porthead c)" "snd ij < length (agent_head (porthead c ! fst ij))"
  shows "agent_at (put_agent ij a c) ij = a"
  using assms by (simp add: put_agent_def agent_at_def)

lemma shape_somethingChanged: "shape (somethingChangedLocal c name ty) = shape c"
  by (cases "lldp_agent_find_by_type c name ty")
    (simp_all add: somethingChangedLocal_def shape_put_agent agent_find_at)

lemma admin_somethingChanged:
  assumes "fst ij < length (porthead c)" "snd ij < length (agent_head (porthead c ! fst ij))"
  shows "adminStatus (agent_at (somethingChangedLocal c name ty) ij) = adminStatus (agent_at c ij)"
proof (cases "lldp_agent_find_by_type c name ty")
  case (Some kl)
  note f = agent_find_at(2,3) [OF Some]
  show ?thesis
  proof (cases "ij = kl")
    case True
    with Some put_agent_at [OF f] show ?thesis by (simp add: somethingChangedLocal_def)
  next
    case False
    then have "agent_at (put_agent kl b c) ij = agent_at c ij" for b
      using f by (cases ij; cases kl) (auto simp: put_agent_def agent_at_def nth_list_update)
    with Some show ?thesis by (simp add: somethingChangedLocal_def)
  qed
qed (simp add: somethingChangedLocal_def)

text \<open>A position that exists in a core exists in every core of the same shape.\<close>

lemma shape_position:
  assumes "shape c' = shape c" "fst ij < length (porthead c)" "snd ij < length (agent_head (porthead c ! fst ij))"
  shows "fst ij < length (porthead c')" "snd ij < length (agent_head (porthead c' ! fst ij))"
    "agenttype (agent_at c' ij) = agenttype (agent_at c ij)" "ifindex (porthead c' ! fst ij) = ifindex (porthead c ! fst ij)"
proof -
  let ?g = "\<lambda>p. (ifindex p, map agenttype (agent_head p))"
  have m: "map ?g (porthead c') = map ?g (porthead c)" using assms(1) by (simp add: shape_def)
  from arg_cong [OF m, of length] show l: "fst ij < length (porthead c')" using assms(2) by simp
  from arg_cong [OF m, of "\<lambda>xs. xs ! fst ij"] have n: "?g (porthead c' ! fst ij) = ?g (porthead c ! fst ij)"
    using l assms(2) by simp
  then show "ifindex (porthead c' ! fst ij) = ifindex (porthead c ! fst ij)" by simp
  have ml: "map agenttype (agent_head (porthead c' ! fst ij)) = map agenttype (agent_head (porthead c ! fst ij))"
    using n by simp
  from arg_cong [OF ml, of length] show l2: "snd ij < length (agent_head (porthead c' ! fst ij))" using assms(3) by simp
  from arg_cong [OF ml, of "\<lambda>xs. xs ! snd ij"] show "agenttype (agent_at c' ij) = agenttype (agent_at c ij)"
    using l2 assms(3) by (simp add: agent_at_def)
qed

lemma port_inv_name [simp]: "port_inv (p\<lparr>ifname := n\<rparr>) = port_inv p" "port_inv (p\<lparr>dormantDelay := d\<rparr>) = port_inv p"
  "port_inv (p\<lparr>hw_resetting := r\<rparr>) = port_inv p" "port_inv (p\<lparr>portEnabled := b\<rparr>) = port_inv p"
  by (simp_all add: port_inv_def)

lemma agent_inv_at:
  assumes "ports_ok en h c w" "fst ij < length (porthead c)" "snd ij < length (agent_head (porthead c ! fst ij))"
  shows "agent_inv (agent_at c ij)"
  using ports_ok_at(1) [OF assms(1,2)] assms(3) by (simp add: port_inv_def agent_at_def list_all_length)

text \<open>Running the machines of the agent at a position and writing back the port and the agent.\<close>

lemma run_at_ok:
  assumes ok: "ports_ok en h c w" and i: "i < length (porthead c)"
    and ij: "fst ij < length (porthead c)" "snd ij < length (agent_head (porthead c ! fst ij))"
  shows "\<exists>p' a' w'. run_agent_sms c (porthead c ! i) (agent_at c ij) w = Some (Inr (p', a', w'))
     \<and> ports_ok en h (put_agent ij a' (put_port_vars i p' c)) w'
     \<and> shape (put_agent ij a' (put_port_vars i p' c)) = shape c
     \<and> adminStatus (agent_at (put_agent ij a' (put_port_vars i p' c)) ij) = adminStatus (agent_at c ij)"
proof -
  have "l2_ok (l2 (porthead c ! i))" using ports_ok_at(1) [OF ok i] by (simp add: port_inv_def)
  from run_agent_sms_ok [OF ok this agent_inv_at [OF ok ij]] obtain p' a' w' xs where
    r: "run_agent_sms c (porthead c ! i) (agent_at c ij) w = Some (Inr (p', a', w'))" "mods_inv en h w'"
      "agent_inv a'" "port_moved xs (porthead c ! i) p'" "agenttype a' = agenttype (agent_at c ij)"
      "adminStatus a' = adminStatus (agent_at c ij)" by blast
  let ?q = "p'\<lparr>agent_head := agent_head (porthead c ! i)\<rparr>"
  note m = port_moved_fields [OF r(4)]
  have q: "port_inv ?q" using ports_ok_at(1) [OF ok i] m(6) by (simp add: port_inv_def)
  have c1: "ports_ok en h (put_port_vars i p' c) w'" unfolding put_port_vars_def
    using q ports_ok_at(2) [OF ok i] m(4) by (intro ports_ok_put_port [OF ok r(2) i]) simp_all
  have s1: "shape (put_port_vars i p' c) = shape c"
    unfolding put_port_vars_def using m(4) by (intro shape_put_port [OF i]) simp_all
  note pos = shape_position [OF s1 ij]
  have "ports_ok en h (put_agent ij a' (put_port_vars i p' c)) w'"
    using ports_ok_put_agent [OF c1 r(2) pos(1,2) r(3)] r(5) pos(3) by simp
  moreover have "shape (put_agent ij a' (put_port_vars i p' c)) = shape c"
    using shape_put_agent [OF pos(1,2)] r(5) pos(3) s1 by simp
  ultimately show ?thesis using r(1,6) put_agent_at [OF pos(1,2)] by auto
qed

lemma set_lldp_agent_admin_ok:
  assumes ok: "ports_ok en h c w"
  shows "\<exists>c' w'. set_lldp_agent_admin c name ty admin w = Some (Inr (c', w')) \<and> ports_ok en h c' w'
     \<and> shape c' = shape c
     \<and> (\<forall>i ij. get_ifidx en name \<noteq> 0 \<longrightarrow> port_find_by_ifindex (porthead c) (get_ifidx en name) = Some i \<longrightarrow>
          lldp_agent_find_by_type c (ifname (porthead c ! i)) ty = Some ij \<longrightarrow> adminStatus (agent_at c' ij) = admin)"
proof -
  have en: "core_env c = en" using ok by (simp add: ports_ok_def core_inv_def)
  show ?thesis
  proof (cases "get_ifidx en name = 0 \<or> port_find_by_ifindex (porthead c) (get_ifidx en name) = None
      \<or> (\<exists>i. port_find_by_ifindex (porthead c) (get_ifidx en name) = Some i
           \<and> lldp_agent_find_by_type c (ifname (porthead c ! i)) ty = None)")
    case True
    then show ?thesis using ok en by (auto simp: set_lldp_agent_admin_def Let_def)
  next
    case False
    then obtain i ij where f: "get_ifidx en name \<noteq> 0" "port_find_by_ifindex (porthead c) (get_ifidx en name) = Some i"
        "lldp_agent_find_by_type c (ifname (porthead c ! i)) ty = Some ij" by auto
    note i = port_find_at [OF f(2)] and ij = agent_find_at(2-4) [OF f(3)]
    let ?p = "porthead c ! i"
    define c1 where "c1 = (if \<not> strn_eq IFNAMSIZ (ifname ?p) name
        then put_port i (?p\<lparr>ifname := take IFNAMSIZ name\<rparr>) c else c)"
    have c1: "ports_ok en h c1 w" "shape c1 = shape c"
      unfolding c1_def using ok ports_ok_at [OF ok i(1)]
      by (auto intro!: ports_ok_put_port [OF ok ports_ok_mods [OF ok] i(1)] shape_put_port [OF i(1)])
    note p1 = shape_position [OF c1(2) ij(1,2)]
    define c2 where "c2 = put_agent ij ((agent_at c1 ij)\<lparr>adminStatus := admin\<rparr>) c1"
    have "agent_inv ((agent_at c1 ij)\<lparr>adminStatus := admin\<rparr>)"
      using agent_inv_at [OF c1(1) p1(1,2)] by (simp add: agent_inv_def timers_live_def rx_sized_def rx_quiet_def)
    then have c2: "ports_ok en h c2 w" "shape c2 = shape c1"
      using ports_ok_put_agent [OF c1(1) ports_ok_mods [OF ok] p1(1,2)] shape_put_agent [OF p1(1,2)] by (simp_all add: c2_def)
    note p2 = shape_position [OF c2(2) p1(1,2)]
    define c3 where "c3 = somethingChangedLocal c2 (ifname (porthead c2 ! i)) ty"
    have c3: "ports_ok en h c3 w" "shape c3 = shape c2"
      using somethingChangedLocal_ok [OF c2(1)] by (simp_all add: c3_def shape_somethingChanged)
    note p3 = shape_position [OF c3(2) p2(1,2)]
    have adm: "adminStatus (agent_at c3 ij) = admin"
      using admin_somethingChanged [OF p2(1,2)] put_agent_at [OF p1(1,2)] by (simp add: c3_def c2_def)
    have i3: "i < length (porthead c3)"
      using shape_length [of c3 c] c3(2) c2(2) c1(2) i(1) by simp
    have step: "set_lldp_agent_admin c name ty admin w = (if adminStatus (agent_at c1 ij) = admin then Some (Inr (c1, w))
        else bindO (run_agent_sms c3 (porthead c3 ! i) (agent_at c3 ij) w) (\<lambda>(p', a', w').
               Some (Inr (put_agent ij a' (put_port_vars i p' c3), w'))))"
      using f en by (simp add: set_lldp_agent_admin_def Let_def flip: c1_def c2_def c3_def)
    obtain p' a' w' where "run_agent_sms c3 (porthead c3 ! i) (agent_at c3 ij) w = Some (Inr (p', a', w'))"
        "ports_ok en h (put_agent ij a' (put_port_vars i p' c3)) w'"
        "shape (put_agent ij a' (put_port_vars i p' c3)) = shape c3"
        "adminStatus (agent_at (put_agent ij a' (put_port_vars i p' c3)) ij) = admin"
      using run_at_ok [OF c3(1) i3 p3(1,2)] adm by auto
    with step c1 c2 c3 f show ?thesis by auto
  qed
qed

text \<open>The link state: all agents of the port are run, with a silent receiver when the link is down.\<close>

lemma map_rx_inv: "list_all agent_inv (map (rx_update (\<lambda>r. r\<lparr>rxInfoAge := False\<rparr>)) as) = list_all agent_inv as"
  by (simp add: list_all_iff agent_inv_def timers_live_def rx_sized_def rx_quiet_def)

lemma ports_ok_each:
  assumes ok: "ports_ok en h c w" and i: "i < length (porthead c)" and p: "porthead c ! i = p"
    and step: "lt.agent_step_ok en h c f"
  shows "\<exists>p' w'. each_agent f p w = Some (Inr (p', w')) \<and> ports_ok en h (put_port i p' c) w'
     \<and> shape (put_port i p' c) = shape c"
proof -
  have pi: "port_inv p" using ports_ok_at(1) [OF ok i] p by simp
  from lt.each_agent_ok [OF step ports_ok_mods [OF ok] pi] obtain p' w' where
    "each_agent f p w = Some (Inr (p', w'))" "mods_inv en h w'" "port_inv p'" "ifindex p' = ifindex p"
    "map agenttype (agent_head p') = map agenttype (agent_head p)" by blast
  then show ?thesis
    using ports_ok_put_port [OF ok _ i, of w' p'] shape_put_port [OF i, of p'] ports_ok_at(2) [OF ok i] p by simp
qed

lemma set_lldp_port_enable_ok:
  assumes ok: "ports_ok en h c w"
  shows "\<exists>c' w'. set_lldp_port_enable c name enable w = Some (Inr (c', w')) \<and> ports_ok en h c' w' \<and> shape c' = shape c"
proof (cases "port_find_by_ifindex (porthead c) (get_ifidx (core_env c) name)")
  case None
  then show ?thesis using ok by (simp add: set_lldp_port_enable_def)
next
  case (Some i)
  note i = port_find_at [OF Some]
  define p where "p = (porthead c ! i)\<lparr>portEnabled := (of_int enable :: u8) \<noteq> 0\<rparr>"
  define p1 where "p1 = (if enable = 0 then p\<lparr>agent_head := map (rx_update (\<lambda>r. r\<lparr>rxInfoAge := False\<rparr>)) (agent_head p)\<rparr> else p)"
  define c1 where "c1 = put_port i p1 c"
  have "port_inv p1" "ifindex p1 = ifindex (porthead c ! i)"
      "map agenttype (agent_head p1) = map agenttype (agent_head (porthead c ! i))"
    using ports_ok_at(1) [OF ok i(1)] map_rx_inv by (simp_all add: p1_def p_def port_inv_def)
  then have c1: "ports_ok en h c1 w" "shape c1 = shape c" unfolding c1_def
    using ports_ok_at(2) [OF ok i(1)]
    by (auto intro!: ports_ok_put_port [OF ok ports_ok_mods [OF ok] i(1)] shape_put_port [OF i(1)])
  have "i < length (porthead c1)" "porthead c1 ! i = p1" using i(1) by (simp_all add: c1_def put_port_def)
  from ports_ok_each [OF c1(1) this run_agent_sms_step [OF c1(1)]] Some c1(2) show ?thesis
    by (auto simp: set_lldp_port_enable_def Let_def simp flip: p_def p1_def c1_def)
qed

lemma reinit_step:
  assumes "ports_ok en h c w"
  shows "lt.agent_step_ok en h c (\<lambda>p a w. Some (reinit_agent c p a w))"
proof -
  have c: "lldp_head c = lldpad_mods en h" using assms by (simp add: ports_ok_def core_inv_def)
  have "\<exists>p' a' w' xs. Some (reinit_agent c p a v) = Some (Inr (p', a', w')) \<and> mods_inv en h w' \<and> agent_inv a'
      \<and> port_moved xs p p' \<and> list_all (good_packet mods_emit (lldpad_mods en h) (frame_hdr c p a)) xs
      \<and> agenttype a' = agenttype a \<and> mac_addr a' = mac_addr a"
    if "mods_inv en h v" "agent_inv a" for p a v
    using lm.reinit_agent_ok [OF c that(1), of p a] that(2) fresh_agent_inv port_moved_refl
    by (fastforce simp: agent_inv_def intro: exI [of _ "[]"])
  then show ?thesis unfolding lt.agent_step_ok_def by blast
qed

lemma reinit_port_ok:
  assumes ok: "ports_ok en h c w"
  shows "\<exists>rc c' w'. reinit_port c name w = Some (Inr (rc, c', w')) \<and> ports_ok en h c' w' \<and> shape c' = shape c"
proof (cases "port_find_by_ifindex (porthead c) (get_ifidx (core_env c) name)")
  case None
  then show ?thesis using ok by (simp add: reinit_port_def)
next
  case (Some i)
  note i = port_find_at [OF Some]
  define p where "p = (porthead c ! i)\<lparr>hw_resetting := 0, portEnabled := False, dormantDelay := DORMANT_DELAY\<rparr>"
  define c1 where "c1 = put_port i p c"
  have c1: "ports_ok en h c1 w" "shape c1 = shape c" unfolding c1_def p_def
    using ports_ok_at [OF ok i(1)]
    by (auto intro!: ports_ok_put_port [OF ok ports_ok_mods [OF ok] i(1)] shape_put_port [OF i(1)])
  have "i < length (porthead c1)" "porthead c1 ! i = p" using i(1) by (simp_all add: c1_def put_port_def)
  from ports_ok_each [OF c1(1) this reinit_step [OF c1(1)]] Some c1(2) show ?thesis
    by (auto simp: reinit_port_def Let_def simp flip: p_def c1_def)
qed

lemma port_settings_ok:
  assumes ok: "ports_ok en h c w"
  shows "ports_ok en h (set_port_oper_delay c name) w" "ports_ok en h (snd (set_port_hw_resetting c name r)) w"
    "ports_ok en h (mand_update_ttl c name ttl) w"
proof -
  have "ports_ok en h (put_port i q c) w"
    if "port_find_by_ifindex (porthead c) k = Some i" "port_inv q" "ifindex q = ifindex (porthead c ! i)"
      "map agenttype (agent_head q) = map agenttype (agent_head (porthead c ! i))" for i k q
    using port_find_at [OF that(1)] that(2-4) ports_ok_at(2) [OF ok]
    by (intro ports_ok_put_port [OF ok ports_ok_mods [OF ok]]) simp_all
  moreover have "list_all agent_inv (map (\<lambda>a. tx_update (f a) a) as) = list_all agent_inv as" for f as
    by (simp add: list_all_iff agent_inv_def timers_live_def rx_sized_def rx_quiet_def)
  ultimately show "ports_ok en h (set_port_oper_delay c name) w" "ports_ok en h (snd (set_port_hw_resetting c name r)) w"
    "ports_ok en h (mand_update_ttl c name ttl) w"
    using ok ports_ok_at(1) [OF ok] port_find_at
    by (auto simp: set_port_oper_delay_def set_port_hw_resetting_def mand_update_ttl_def port_inv_def comp_def
        split: option.split)
qed

text \<open>The TLVs a client is given are those of the frame.\<close>

lemma tlvs_of_lldp_frame:
  assumes "length hdr = ETH_HLEN" "lldp_frame_size ts \<le> ETH_DATA_LEN"
  shows "tlvs_of_frame (Some (lldp_frame hdr ts)) (of_nat (lldp_frame_size ts)) = Inr (cmd_success, int (lldp_frame_size ts) - 14,
     tlv_concat ts @ [0, 0] @ replicate (44 - length (tlv_concat ts)) 0)"
proof -
  let ?n = "length (tlv_concat ts)"
  have sz: "14 \<le> lldp_frame_size ts" "lldp_frame_size ts - 14 = ?n + 2 + (44 - ?n)" "?n \<le> 1484"
    using assms(2) by (auto simp: lldp_frame_size_def split: if_splits)
  have "(of_nat (lldp_frame_size ts) :: u32) - of_nat ETH_HLEN = of_nat (lldp_frame_size ts - 14)"
    using of_nat_diff [OF sz(1), where 'a = u32] by simp
  moreover have "sint (of_nat (lldp_frame_size ts - 14) :: u32) = int (lldp_frame_size ts - 14)"
    using assms(2) by (simp add: signed_of_nat signed_take_bit_int_eq_self)
  moreover have "read_bytes (lldp_frame hdr ts) 14 (lldp_frame_size ts - 14)
      = Inr (tlv_concat ts @ [0, 0] @ replicate (44 - ?n) 0)"
    using assms(1) sz by (auto simp: read_bytes_def lldp_frame_def min_def)
  ultimately show ?thesis using sz(1) by (simp add: tlvs_of_frame_def Let_def nat_diff_distrib)
qed

end
