(* ===== verification/System.thy ===== *)
theory System
  imports Ports_Safe
begin

text \<open>
  The daemon as a transition system: ticks of the timer, received frames, the commands on ports
  and agents, and interfaces coming and going, in any order.  All states that are reached
  satisfy the invariant of the ports, the agents and the modules.
\<close>

text \<open>
  Ports come with an opened layer-2 socket.  An interface that comes up is announced to the
  mandatory module and to the EVB module; the shared memory must have room for its name, since
  the lookup of a name that is not there runs past a full table.
\<close>

inductive core_step :: "env \<Rightarrow> host \<Rightarrow> (string \<Rightarrow> l2_packet_data option) \<Rightarrow>
    lldpad_world core \<times> lldpad_world \<Rightarrow> lldpad_world core \<times> lldpad_world \<Rightarrow> bool"
  for en :: env and h :: host and l2_packet_init :: "string \<Rightarrow> l2_packet_data option" where
  tick: "timer_ports c (porthead c) w = Some (Inr (ps, w')) \<Longrightarrow> core_step en h l2_packet_init (c, w) (c\<lparr>porthead := ps\<rparr>, w')"
| receive: "port_find_by_ifindex (porthead c) ifi = Some i \<Longrightarrow> l2_packet_receive buf c i w = Some (Inr st) \<Longrightarrow>
    core_step en h l2_packet_init (c, w) st"
| new_port: "add_port l2_packet_init c ifi name = (b, c') \<Longrightarrow> core_step en h l2_packet_init (c, w) (c', w)"
| del_port: "remove_port c name = (rc, c') \<Longrightarrow> core_step en h l2_packet_init (c, w) (c', w)"
| new_agent: "lldp_add_agent c name ty w = Inr (rc, st) \<Longrightarrow> core_step en h l2_packet_init (c, w) st"
| admin: "set_lldp_agent_admin c name ty v w = Some (Inr st) \<Longrightarrow> core_step en h l2_packet_init (c, w) st"
| enable: "set_lldp_port_enable c name v w = Some (Inr st) \<Longrightarrow> core_step en h l2_packet_init (c, w) st"
| reinit: "reinit_port c name w = Some (Inr (rc, st)) \<Longrightarrow> core_step en h l2_packet_init (c, w) st"
| delay: "core_step en h l2_packet_init (c, w) (set_port_oper_delay c name, w)"
| hw_reset: "core_step en h l2_packet_init (c, w) (snd (set_port_hw_resetting c name v), w)"
| set_ttl: "core_step en h l2_packet_init (c, w) (mand_update_ttl c name t, w)"
| changed: "core_step en h l2_packet_init (c, w) (somethingChangedLocal c name ty, w)"
| mand_up: "shm_ready (take 16 name) (mand_shm (w_mand w)) \<Longrightarrow> mand_ifup en h name a (w_mand w) = Inr m \<Longrightarrow>
    core_step en h l2_packet_init (c, w) (c, w\<lparr>w_mand := m\<rparr>)"
| mand_down: "mand_ifdown name a (w_mand w) = Inr m \<Longrightarrow> core_step en h l2_packet_init (c, w) (c, w\<lparr>w_mand := m\<rparr>)"
| evb_up: "core_step en h l2_packet_init (c, w) (c, w\<lparr>w_evb22 := evb22_ifup en h name a (w_evb22 w)\<rparr>)"
| evb_down: "core_step en h l2_packet_init (c, w) (c, w\<lparr>w_evb22 := evb22_ifdown name a (w_evb22 w)\<rparr>)"

inductive_cases core_stepE: "core_step en h l2i (c, w) (c', w')"

definition l2_good :: "(string \<Rightarrow> l2_packet_data option) \<Rightarrow> bool" where
  "l2_good l2i \<longleftrightarrow> (\<forall>n l. l2i n = Some l \<longrightarrow> l2_ok l)"

lemma ports_unique_shape:
  assumes "map (\<lambda>p. (ifindex p, map agenttype (agent_head p))) ps = map (\<lambda>p. (ifindex p, map agenttype (agent_head p))) qs"
    "ports_unique qs"
  shows "ports_unique ps"
proof -
  have "map ifindex ps = map ifindex qs" using arg_cong [OF assms(1), of "map fst"] by (simp add: comp_def)
  moreover have "map (\<lambda>p. map agenttype (agent_head p)) ps = map (\<lambda>p. map agenttype (agent_head p)) qs"
    using arg_cong [OF assms(1), of "map snd"] by (simp add: comp_def)
  then have "list_all (\<lambda>p. distinct (map agenttype (agent_head p))) ps = list_all (\<lambda>p. distinct (map agenttype (agent_head p))) qs"
    unfolding list_all_iff by (metis (mono_tags, lifting) image_iff list.set_map)
  ultimately show ?thesis using assms(2) by (simp add: ports_unique_def)
qed

lemma receive_ports_ok:
  assumes ok: "ports_ok en h c w" and i: "port_find_by_ifindex (porthead c) ifi = Some i"
    and r: "l2_packet_receive buf c i w = Some (Inr (c', w'))"
  shows "ports_ok en h c' w'"
proof (cases buf)
  case None
  with r ok show ?thesis by (simp add: l2_packet_receive_def)
next
  case (Some b)
  note at = port_find_at [OF i]
  have c: "lldp_head c = lldpad_mods en h" using ok by (simp add: ports_ok_def core_inv_def)
  obtain p' where p: "rxReceiveFrame c (porthead c ! i) (take 2300 b) w = Some (Inr (p', w'))" "c' = put_port i p' c"
    using r Some by (auto simp: l2_packet_receive_def elim!: bindR_InrE)
  with lm.rxReceiveFrame_returns [OF c ports_ok_mods [OF ok] ports_ok_at(1) [OF ok at(1)], of "take 2300 b"]
  have "mods_inv en h w'" "port_inv p'" "same_ports (porthead c ! i) p'" by auto
  then show ?thesis
    unfolding p(2) using ports_ok_at(2) [OF ok at(1)] by (intro ports_ok_put_port [OF ok _ at(1)]) (simp_all add: same_ports_def)
qed

lemma mods_step:
  assumes "ports_ok en h c w"
  shows "mand_inv m \<Longrightarrow> ports_ok en h c (w\<lparr>w_mand := m\<rparr>)" "evb22_inv v \<Longrightarrow> ports_ok en h c (w\<lparr>w_evb22 := v\<rparr>)"
  using assms by (simp_all add: ports_ok_def core_inv_def mods_inv_def)

lemma core_step_ok:
  assumes "core_step en h l2i st st'" "ports_ok en h (fst st) (snd st)" "l2_good l2i"
  shows "ports_ok en h (fst st') (snd st')"
  using assms(1,2)
proof (cases rule: core_step.cases)
  case (tick c w ps w')
  have c: "core_inv en h c w" "ports_unique (porthead c)" using assms(2) tick by (simp_all add: ports_ok_def)
  then obtain ps2 w2 where "timer_ports c (porthead c) w = Some (Inr (ps2, w2))" "mods_inv en h w2"
      "list_all port_inv ps2" "map (\<lambda>p. (ifindex p, map agenttype (agent_head p))) ps2
        = map (\<lambda>p. (ifindex p, map agenttype (agent_head p))) (porthead c)"
    using lt.timer_ports_ok [of c en h w "porthead c"] by (auto simp: core_inv_def)
  with tick c show ?thesis using ports_unique_shape by (auto simp: ports_ok_def core_inv_def)
next
  case (receive c ifi i buf w)
  with assms(2) receive_ports_ok [of en h c w ifi i buf "fst st'" "snd st'"] show ?thesis by simp
next
  case (new_port c ifi name b c' w)
  with assms(2,3) add_port_ok [of en h c w l2i ifi name b c'] show ?thesis by (auto simp: l2_good_def)
next
  case (new_agent c name ty w rc)
  with assms(2) lldp_add_agent_ok [of en h c w name ty] show ?thesis by auto
next
  case (admin c name ty v w)
  with assms(2) set_lldp_agent_admin_ok [of en h c w name ty v] show ?thesis by auto
next
  case (enable c name v w)
  with assms(2) set_lldp_port_enable_ok [of en h c w name v] show ?thesis by auto
next
  case (reinit c name w rc)
  with assms(2) reinit_port_ok [of en h c w name] show ?thesis by auto
next
  case (mand_up name w a m c)
  have "host_good en h" "mand_inv (w_mand w)" using assms(2) mand_up by (simp_all add: ports_ok_def core_inv_def mods_inv_def)
  with mand_up assms(2) mand_ifup_inv [of en h "w_mand w" name a] mods_step(1) show ?thesis by auto
next
  case (mand_down name a w m c)
  have "mand_inv (w_mand w)" using assms(2) mand_down by (simp add: ports_ok_def core_inv_def mods_inv_def)
  with mand_down assms(2) mand_ifdown_inv [of "w_mand w" name a] mods_step(1) show ?thesis by auto
next
  case (evb_up c w name a)
  have "evb22_inv (w_evb22 w)" using assms(2) evb_up by (simp add: ports_ok_def core_inv_def mods_inv_def)
  with evb_up assms(2) show ?thesis by (simp add: mods_step(2) evb22_ifup_inv)
next
  case (evb_down c w name a)
  have "evb22_inv (w_evb22 w)" using assms(2) evb_down by (simp add: ports_ok_def core_inv_def mods_inv_def)
  with evb_down assms(2) show ?thesis by (simp add: mods_step(2) evb22_ifdown_inv)
qed (use assms(2) in \<open>auto simp: remove_port_ok port_settings_ok somethingChangedLocal_ok\<close>)

text \<open>The start of the daemon: no ports, both modules registered, no data.\<close>

definition start_core :: "env \<Rightarrow> host \<Rightarrow> lldpad_world core" where
  "start_core en h = \<lparr>core_env = en, lldp_head = lldpad_mods en h, porthead = []\<rparr>"

definition start_world :: "lldpad_shm_tbl option \<Rightarrow> lldpad_world" where
  "start_world shm = \<lparr>w_mand = \<lparr>mand_head = [], mand_shm = shm, mand_cfg = []\<rparr>,
     w_evb22 = \<lparr>evb22_head = [], evb22_events = []\<rparr>\<rparr>"

definition core_reach :: "env \<Rightarrow> host \<Rightarrow> (string \<Rightarrow> l2_packet_data option) \<Rightarrow> lldpad_shm_tbl option \<Rightarrow>
    lldpad_world core \<times> lldpad_world \<Rightarrow> bool" where
  "core_reach en h l2i shm = (core_step en h l2i)\<^sup>*\<^sup>* (start_core en h, start_world shm)"

lemma core_reach_ok:
  assumes "core_reach en h l2i shm st" "env_ok en" "host_good en h" "l2_good l2i"
  shows "ports_ok en h (fst st) (snd st)"
  using assms(1) unfolding core_reach_def
proof (induction rule: rtranclp_induct)
  case base
  show ?case
    using assms(2,3) by (simp add: start_core_def start_world_def ports_ok_def core_inv_def ports_unique_def
        mods_inv_def mand_inv_def evb22_inv_def)
next
  case (step st1 st2)
  then show ?case using core_step_ok [OF step.hyps(2) _ assms(4)] by blast
qed

end
