(* ===== verification/Protocol.thy ===== *)
theory Protocol
  imports System
begin

text \<open>
  The protocol seen from outside: what one second of the timer, and any number of seconds, does
  to the transmitted frames and the transmit credit of an agent.
\<close>

subsection \<open>One second of an agent\<close>

lemma tx_clock_update_rx: "tx_clock (update_rx_timers a) = tx_clock a"
  by (simp add: tx_clock_def update_rx_timers_def Let_def)

text \<open>What the receive half of a second and the modules leave of the transmit side.\<close>

definition tx_same :: "lldp_agent \<Rightarrow> lldp_agent \<Rightarrow> bool" where
  "tx_same a a' \<longleftrightarrow> adminStatus a' = adminStatus a \<and> tx_clock a' = tx_clock a
     \<and> txstate (tx a') = txstate (tx a) \<and> txNow (tx a') = txNow (tx a)"

lemma tx_same_clock:
  assumes "tx_same a a'"
  shows "txCredit (timers a') = txCredit (timers a)" "txMaxCredit (timers a') = txMaxCredit (timers a)"
    "timers_state (timers a') = timers_state (timers a)" "txShutdownWhile (timers a') = txShutdownWhile (timers a)"
    "timers_live a' = timers_live a" "tx_admin_on a' = tx_admin_on a"
proof -
  have e: "tx_clock a' = tx_clock a" and adm: "adminStatus a' = adminStatus a" using assms by (simp_all add: tx_same_def)
  show "txCredit (timers a') = txCredit (timers a)" "txMaxCredit (timers a') = txMaxCredit (timers a)"
    "timers_state (timers a') = timers_state (timers a)" "txShutdownWhile (timers a') = txShutdownWhile (timers a)"
    "timers_live a' = timers_live a" "tx_admin_on a' = tx_admin_on a"
    using arg_cong [OF e, of txCredit] arg_cong [OF e, of txMaxCredit] arg_cong [OF e, of timers_state]
      arg_cong [OF e, of txShutdownWhile] arg_cong [OF e, of msgTxInterval] arg_cong [OF e, of msgFastTx] adm
    by (simp_all add: tx_clock_def timers_live_def tx_admin_on_def)
qed

context lldp_tx_modules
begin

lemma timer_agent_parts:
  assumes "lldp_head c = mods" "inv w" "env_ok (core_env c)" "l2_ok (l2 p)" "agent_inv a"
  shows "\<exists>a1 xs a2 w2 p' a3 w3 a' w'. run_tx_timers_sm p (update_tx_timers a) = Some a1
     \<and> run_tx_sm c p a1 w = Some (Inr (sent_more (seen p) xs, a2, w2)) \<and> inv w2 \<and> tx_ran a a2
     \<and> run_rx_sm c (sent_more (seen p) xs) a2 w2 = Some (Inr (p', a3, w3)) \<and> same_port (sent_more (seen p) xs) p'
     \<and> rx_kept a2 a3 \<and> mod_agree (update_rx_timers a3) a'
     \<and> timer_agent c p a w = Some (Inr (p', a', w')) \<and> inv w' \<and> agent_inv a'"
proof -
  have u: "agent_inv (update_tx_timers a)" by (rule agent_inv_ran [OF update_tx_timers_ran assms(5)])
  then obtain a1 where a1: "run_tx_timers_sm p (update_tx_timers a) = Some a1" "tx_ran (update_tx_timers a) a1"
    using run_tx_timers_sm_ran [of "update_tx_timers a" p] by (auto simp: agent_inv_def)
  have i1: "agent_inv a1" by (rule agent_inv_ran [OF a1(2) u])
  have "tx_ready c p a1" using assms(3,4) i1 by (intro tx_ready_inv) (simp_all add: agent_inv_def)
  from run_tx_sm_safe [OF assms(1,2) this] obtain xs a2 w2 where
    t: "run_tx_sm c p a1 w = Some (Inr (sent_more (seen p) xs, a2, w2))" "inv w2" by blast
  have i2: "agent_inv a2" by (rule agent_inv_ran [OF run_tx_sm_ran [OF t(1)] i1])
  have ran: "tx_ran a a2"
    by (rule tx_ran_trans [OF tx_ran_trans [OF update_tx_timers_ran a1(2)] run_tx_sm_ran [OF t(1)]])
  obtain p3 a3 w3 where
    r: "run_rx_sm c (sent_more (seen p) xs) a2 w2 = Some (Inr (p3, a3, w3))" "inv w3"
      "same_port (sent_more (seen p) xs) p3" "rx_quiet a3" "rx_kept a2 a3" "rx_sized a3"
    using run_rx_sm_quiet [OF assms(1) t(2), of a2 "sent_more (seen p) xs"] i2 by (auto simp: agent_inv_def)
  have i3: "agent_inv a3" by (rule agent_inv_rx [OF r(5,4,6) i2])
  from timer_modules_agree [OF order_refl r(2)] obtain a4 w4 where
    m: "timer_modules p3 mods (update_rx_timers a3) w3 = Inr (a4, w4)" "mod_agree (update_rx_timers a3) a4" "inv w4"
    by blast
  have i4: "agent_inv a4" using agent_inv_mod [OF m(2)] i3 by (simp add: agent_inv_update_rx)
  have "timer_agent c p a w = Some (Inr (p3, a4, w4))"
    using a1(1) t(1) r(1) m(1) assms(1) by (simp add: timer_agent_def)
  with a1(1) t ran r(1,3,5) m(2,3) i4 show ?thesis by blast
qed

lemma timer_agent_tx:
  assumes "lldp_head c = mods" "inv w" "env_ok (core_env c)" "l2_ok (l2 p)" "agent_inv a"
    and a1: "run_tx_timers_sm p (update_tx_timers a) = Some a1"
  shows "\<exists>p2 a2 w2 p' a' w'. run_tx_sm c p a1 w = Some (Inr (p2, a2, w2)) \<and> same_port p2 p'
     \<and> timer_agent c p a w = Some (Inr (p', a', w')) \<and> inv w' \<and> agent_inv a' \<and> tx_same a2 a'"
proof -
  obtain xs a2 w2 p' a3 w3 a' w' where
    r: "run_tx_sm c p a1 w = Some (Inr (sent_more (seen p) xs, a2, w2))" "same_port (sent_more (seen p) xs) p'"
      "rx_kept a2 a3" "mod_agree (update_rx_timers a3) a'"
      "timer_agent c p a w = Some (Inr (p', a', w'))" "inv w'" "agent_inv a'"
    using timer_agent_parts [OF assms(1-5)] a1 by auto
  have "tx_clock a' = tx_clock a3"
    using mod_agree_fields(11) [OF r(4)] tx_clock_update_rx [of a3] by (simp add: tx_clock_def)
  then have "tx_same a2 a'"
    using r(3) mod_agree_fields [OF r(4)] by (simp add: tx_same_def rx_kept_def update_rx_timers_frame)
  with r show ?thesis by blast
qed

end

subsection \<open>The transmit credit\<close>

text \<open>
  An agent that transmits: the port is up, transmission is on, both transmit machines have left
  their initial states, and the credit is within its bound.
\<close>

definition tx_active :: "port \<Rightarrow> lldp_agent \<Rightarrow> bool" where
  "tx_active p a \<longleftrightarrow> portEnabled p \<and> tx_admin_on a \<and> txstate (tx a) = TX_IDLE
     \<and> timers_state (timers a) = TX_TIMER_IDLE \<and> 0 < txMaxCredit (timers a)
     \<and> txCredit (timers a) \<le> txMaxCredit (timers a)"

lemma update_tx_timers_fields:
  "adminStatus (update_tx_timers a) = adminStatus a" "tx (update_tx_timers a) = tx a"
  "timers_state (timers (update_tx_timers a)) = timers_state (timers a)" "txTick (timers (update_tx_timers a))"
  "txCredit (timers (update_tx_timers a)) = txCredit (timers a)"
  "txMaxCredit (timers (update_tx_timers a)) = txMaxCredit (timers a)"
  "txShutdownWhile (timers (update_tx_timers a)) = txShutdownWhile (timers a)"
  "timers_live (update_tx_timers a) = timers_live a"
  by (simp_all add: update_tx_timers_def timers_live_def)

lemma timers_second:
  assumes "portEnabled p" "tx_admin_on a" "timers_state (timers a) = TX_TIMER_IDLE" "timers_live a"
  shows "\<exists>a1. run_tx_timers_sm p (update_tx_timers a) = Some a1 \<and> timers_quiet a1
     \<and> adminStatus a1 = adminStatus a \<and> txstate (tx a1) = txstate (tx a)
     \<and> txShutdownWhile (timers a1) = txShutdownWhile (timers a) \<and> txMaxCredit (timers a1) = txMaxCredit (timers a)
     \<and> txCredit (timers a1) = (if txCredit (timers a) < txMaxCredit (timers a) then txCredit (timers a) + 1 else txCredit (timers a))
     \<and> (tx_due (update_tx_timers a) \<longrightarrow> txNow (tx a1))"
proof -
  have "timers_ready p (update_tx_timers a)"
    using assms by (simp add: timers_ready_def update_tx_timers_fields tx_admin_on_def)
  from run_tx_timers_sm_ready [OF this] assms obtain a1 where
    r: "run_tx_timers_sm p (update_tx_timers a) = Some a1" "timers_quiet a1" "tick_frame (update_tx_timers a) a1"
      "tx_due (update_tx_timers a) \<longrightarrow> txNow (tx a1)" by (auto simp: update_tx_timers_fields)
  have "\<not> txTick (timers a1)" using r(2) by (simp add: timers_quiet_def)
  with r show ?thesis by (auto simp: tick_frame_def tick_credit_def update_tx_timers_fields)
qed

lemma u16_inc: "x < y \<Longrightarrow> unat (x + 1) = Suc (unat x)" "x < y \<Longrightarrow> x + 1 \<le> y" "x < y \<Longrightarrow> 0 < x + 1" for x y :: u16
proof -
  assume a: "x < y"
  then have "unat x + 1 < 65536" using unat_u16_less [of y] by (simp add: word_less_nat_alt)
  then show u: "unat (x + 1) = Suc (unat x)" by (simp add: unat_word_ariths)
  show "x + 1 \<le> y" using a u by (simp add: word_less_nat_alt word_le_nat_alt)
  show "0 < x + 1" using u by (simp add: word_less_nat_alt)
qed

context lldp_tx_modules
begin

lemma timer_agent_active:
  assumes c: "lldp_head c = mods" "inv w" "env_ok (core_env c)" "l2_ok (l2 p)" "agent_inv a" and act: "tx_active p a"
  shows "\<exists>p' a' w' xs. timer_agent c p a w = Some (Inr (p', a', w')) \<and> inv w' \<and> agent_inv a' \<and> l2_ok (l2 p')
     \<and> tx_active p' a' \<and> l2_sent (l2 p') = l2_sent (l2 p) @ xs
     \<and> length xs + unat (txCredit (timers a')) \<le> unat (txCredit (timers a)) + 1
     \<and> length xs \<le> 1 \<and> (tx_due (update_tx_timers a) \<longrightarrow> length xs = 1)
     \<and> txMaxCredit (timers a') = txMaxCredit (timers a)"
proof -
  have act': "portEnabled p" "tx_admin_on a" "txstate (tx a) = TX_IDLE" "timers_state (timers a) = TX_TIMER_IDLE"
      "0 < txMaxCredit (timers a)" "txCredit (timers a) \<le> txMaxCredit (timers a)"
    using act by (simp_all add: tx_active_def)
  have live: "timers_live a" using c(5) by (simp add: agent_inv_def)
  from timers_second [OF act'(1,2,4) live] obtain a1 where
    a1: "run_tx_timers_sm p (update_tx_timers a) = Some a1" "timers_quiet a1" "adminStatus a1 = adminStatus a"
      "txstate (tx a1) = TX_IDLE" "txMaxCredit (timers a1) = txMaxCredit (timers a)"
      "txCredit (timers a1) = (if txCredit (timers a) < txMaxCredit (timers a) then txCredit (timers a) + 1 else txCredit (timers a))"
      "tx_due (update_tx_timers a) \<longrightarrow> txNow (tx a1)" using act'(3) by auto
  from timer_agent_tx [OF c a1(1)] obtain p2 a2 w2 p' a' w' where
    r: "run_tx_sm c p a1 w = Some (Inr (p2, a2, w2))" "same_port p2 p'" "timer_agent c p a w = Some (Inr (p', a', w'))"
      "inv w'" "agent_inv a'" "tx_same a2 a'" by blast
  have on1: "tx_admin_on a1" using act'(2) a1(3) by (simp add: tx_admin_on_def)
  have "txstate (tx a1) \<noteq> TX_SHUTDOWN_FRAME" using a1(4) by simp
  from run_tx_sm_paid [OF act'(1) on1 this r(1)] have
    paid: "txstate (tx a2) = TX_IDLE" "tx_paid (seen p) a1 p2 a2" "adminStatus a2 = adminStatus a1" by simp_all
  note same = tx_same_clock [OF r(6)]
  have cr1: "0 < txCredit (timers a1)" "txCredit (timers a1) \<le> txMaxCredit (timers a)"
      "unat (txCredit (timers a1)) \<le> unat (txCredit (timers a)) + 1"
    using act'(5,6) u16_inc [of "txCredit (timers a)" "txMaxCredit (timers a)"] unfolding a1(6) by (auto simp: not_less)
  let ?xs = "drop (length (l2_sent (l2 p))) (l2_sent (l2 p2))"
  have sent: "l2_sent (l2 p2) = l2_sent (l2 p) @ ?xs" "length ?xs = (if txNow (tx a1) then 1 else 0)"
      "portEnabled p2" "l2_ok (l2 p2) = l2_ok (l2 p)" "timers_state (timers a2) = timers_state (timers a1)"
      "txMaxCredit (timers a2) = txMaxCredit (timers a1)"
      "unat (txCredit (timers a2)) + length ?xs = unat (txCredit (timers a1))"
    using paid(2) cr1(1) act'(1) unfolding tx_paid_def
    by (auto simp: sent_more_def l2_ok_def split: if_splits simp: unat_dec word_gt_0 unat_gt_0 Suc_leI)
  have p': "l2_sent (l2 p') = l2_sent (l2 p2)" "portEnabled p' = portEnabled p2" "l2_ok (l2 p') = l2_ok (l2 p2)"
    using r(2) by (auto simp: same_port_def l2_ok_def)
  have "txCredit (timers a') \<le> txMaxCredit (timers a)"
    using sent(7) cr1(2) same(1) by (simp add: word_le_nat_alt)
  then have "tx_active p' a'"
    using paid(1,3) r(6) same sent p' a1 act' unfolding tx_active_def
    by (simp add: tx_same_def timers_quiet_def tx_admin_on_def)
  moreover have "length ?xs + unat (txCredit (timers a')) \<le> unat (txCredit (timers a)) + 1"
    using sent(7) cr1(3) same(1) by simp
  ultimately show ?thesis
    using r(3-5) c(4) sent p' a1(5,7) same(2) by (intro exI [of _ p'] exI [of _ a'] exI [of _ w'] exI [of _ ?xs]) auto
qed

end

subsection \<open>Many seconds\<close>

fun agent_ticks :: "nat \<Rightarrow> 'm core \<Rightarrow> port \<Rightarrow> lldp_agent \<Rightarrow> 'm \<Rightarrow> (port \<times> lldp_agent \<times> 'm) res option" where
  "agent_ticks 0 c p a w = Some (Inr (p, a, w))"
| "agent_ticks (Suc n) c p a w = bindO (timer_agent c p a w) (\<lambda>(p', a', w'). agent_ticks n c p' a' w')"

text \<open>
  An agent that has been disabled and enabled again within one second: it has sent its shutdown
  frame and waits for a delay that nothing counts down.
\<close>

definition tx_stuck :: "port \<Rightarrow> lldp_agent \<Rightarrow> bool" where
  "tx_stuck p a \<longleftrightarrow> portEnabled p \<and> tx_admin_on a \<and> txstate (tx a) = TX_SHUTDOWN_FRAME
     \<and> txShutdownWhile (timers a) \<noteq> 0 \<and> timers_state (timers a) = TX_TIMER_IDLE"

context lldp_tx_modules
begin

lemma agent_ticks_active:
  assumes "lldp_head c = mods" "env_ok (core_env c)" "inv w" "l2_ok (l2 p)" "agent_inv a" "tx_active p a"
  shows "\<exists>p' a' w' xs. agent_ticks n c p a w = Some (Inr (p', a', w')) \<and> inv w' \<and> agent_inv a' \<and> tx_active p' a'
     \<and> l2_sent (l2 p') = l2_sent (l2 p) @ xs
     \<and> length xs + unat (txCredit (timers a')) \<le> unat (txCredit (timers a)) + n \<and> length xs \<le> n"
  using assms(3-6)
proof (induction n arbitrary: p a w)
  case 0
  then show ?case by simp
next
  case (Suc n)
  obtain p1 a1 w1 xs where r: "timer_agent c p a w = Some (Inr (p1, a1, w1))" "inv w1" "agent_inv a1" "l2_ok (l2 p1)"
      "tx_active p1 a1" "l2_sent (l2 p1) = l2_sent (l2 p) @ xs"
      "length xs + unat (txCredit (timers a1)) \<le> unat (txCredit (timers a)) + 1" "length xs \<le> 1"
    using timer_agent_active [OF assms(1) Suc.prems(1) assms(2) Suc.prems(2-4)] by blast
  obtain p2 a2 w2 ys where "agent_ticks n c p1 a1 w1 = Some (Inr (p2, a2, w2))" "inv w2" "agent_inv a2" "tx_active p2 a2"
      "l2_sent (l2 p2) = l2_sent (l2 p1) @ ys"
      "length ys + unat (txCredit (timers a2)) \<le> unat (txCredit (timers a1)) + n" "length ys \<le> n"
    using Suc.IH [OF r(2,4,3,5)] by blast
  with r show ?case by (intro exI [of _ p2] exI [of _ a2] exI [of _ w2] exI [of _ "xs @ ys"]) simp
qed

lemma timer_agent_stuck:
  assumes c: "lldp_head c = mods" "inv w" "env_ok (core_env c)" "l2_ok (l2 p)" "agent_inv a" and st: "tx_stuck p a"
  shows "\<exists>p' a' w'. timer_agent c p a w = Some (Inr (p', a', w')) \<and> inv w' \<and> agent_inv a' \<and> l2_ok (l2 p')
     \<and> tx_stuck p' a' \<and> l2_sent (l2 p') = l2_sent (l2 p)"
proof -
  have s: "portEnabled p" "tx_admin_on a" "txstate (tx a) = TX_SHUTDOWN_FRAME" "txShutdownWhile (timers a) \<noteq> 0"
      "timers_state (timers a) = TX_TIMER_IDLE" using st by (simp_all add: tx_stuck_def)
  have "timers_live a" using c(5) by (simp add: agent_inv_def)
  from timers_second [OF s(1,2,5) this] obtain a1 where
    a1: "run_tx_timers_sm p (update_tx_timers a) = Some a1" "timers_quiet a1" "adminStatus a1 = adminStatus a"
      "txstate (tx a1) = txstate (tx a)" "txShutdownWhile (timers a1) = txShutdownWhile (timers a)" by auto
  have tx: "run_tx_sm c p a1 w = Some (Inr (seen p, a1, w))"
    using a1 s by (intro run_tx_sm_shutdown_waits) simp_all
  from timer_agent_tx [OF c a1(1)] tx obtain p' a' w' where
    r: "same_port (seen p) p'" "timer_agent c p a w = Some (Inr (p', a', w'))" "inv w'" "agent_inv a'" "tx_same a1 a'"
    by auto
  have "tx_stuck p' a'" "l2_sent (l2 p') = l2_sent (l2 p)" "l2_ok (l2 p') = l2_ok (l2 p)"
    using s a1 r(1,5) tx_same_clock [OF r(5)]
    by (auto simp: tx_stuck_def tx_same_def timers_quiet_def tx_admin_on_def same_port_def l2_ok_def)
  with r c(4) show ?thesis by auto
qed

lemma agent_ticks_stuck:
  assumes "lldp_head c = mods" "env_ok (core_env c)" "inv w" "l2_ok (l2 p)" "agent_inv a" "tx_stuck p a"
  shows "\<exists>p' a' w'. agent_ticks n c p a w = Some (Inr (p', a', w')) \<and> tx_stuck p' a' \<and> l2_sent (l2 p') = l2_sent (l2 p)"
  using assms(3-6)
proof (induction n arbitrary: p a w)
  case (Suc n)
  then obtain p1 a1 w1 where r: "timer_agent c p a w = Some (Inr (p1, a1, w1))" "inv w1" "agent_inv a1" "l2_ok (l2 p1)"
      "tx_stuck p1 a1" "l2_sent (l2 p1) = l2_sent (l2 p)"
    using timer_agent_stuck [OF assms(1) _ assms(2)] by blast
  with Suc.IH [OF r(2,4,3,5)] show ?case by auto
qed simp

end

subsection \<open>Ageing\<close>

text \<open>An agent that waits for frames.\<close>

definition rx_waiting :: "port \<Rightarrow> lldp_agent \<Rightarrow> bool" where
  "rx_waiting p a \<longleftrightarrow> portEnabled p \<and> rx_admin_on a \<and> rxstate (rx a) = RX_WAIT_FOR_FRAME \<and> \<not> rcvFrame (rx a)"

lemma tx_ran_waiting:
  assumes "tx_ran a a'" "rx_waiting p a"
  shows "rx_waiting (sent_more (seen p) xs) a'"
proof -
  have "adminStatus a' = adminStatus a" using assms(1) by (simp add: tx_ran_def)
  with assms(2) tx_ran_rx [OF assms(1)] show ?thesis by (simp add: rx_waiting_def rx_admin_on_def)
qed

lemma run_rx_sm_waits:
  assumes "rx_waiting p a" "\<not> rxInfoAge (rx a)"
  shows "run_rx_sm c p a w = Some (Inr (p, process_wait_for_frame a, w))"
proof -
  have w: "rxstate (rx a) = RX_WAIT_FOR_FRAME" "portEnabled p" "rx_admin_on a" "\<not> rcvFrame (rx a)"
    using assms(1) by (simp_all add: rx_waiting_def)
  then have "rx_next p a = (False, RX_WAIT_FOR_FRAME)"
    using assms(2) rx_admin_exclusive [of a] by (auto simp: rx_next_def)
  moreover have "set_rxstate RX_WAIT_FOR_FRAME a = a" using w(1) by simp
  ultimately have "run_rx_sm c p a w = rx_loop c p a w" by (simp add: run_rx_sm_def set_rx_state_next)
  then show ?thesis using rx_loop_wait [OF w] by simp
qed

context lldp_tx_modules
begin

lemma timer_agent_waiting:
  assumes c: "lldp_head c = mods" "inv w" "env_ok (core_env c)" "l2_ok (l2 p)" "agent_inv a"
    and a: "rx_waiting p a" "\<not> rxInfoAge (rx a)"
  shows "\<exists>p' a' w'. timer_agent c p a w = Some (Inr (p', a', w')) \<and> inv w' \<and> agent_inv a' \<and> l2_ok (l2 p')
     \<and> rx_waiting p' a' \<and> framein (rx a') = framein (rx a)
     \<and> unat (rxTTL (timers a')) = unat (rxTTL (timers a)) - 1 \<and> rxInfoAge (rx a') = (rxTTL (timers a) = 1)"
proof -
  obtain xs a2 w2 p' a3 w3 a' w' where
    r: "tx_ran a a2" "run_rx_sm c (sent_more (seen p) xs) a2 w2 = Some (Inr (p', a3, w3))"
      "mod_agree (update_rx_timers a3) a'" "timer_agent c p a w = Some (Inr (p', a', w'))" "inv w'" "agent_inv a'"
    using timer_agent_parts [OF c] by blast
  note wait = tx_ran_waiting [OF r(1) a(1), of xs] and rx2 = tx_ran_rx [OF r(1)]
  have eq: "p' = sent_more (seen p) xs" "a3 = process_wait_for_frame a2"
    using run_rx_sm_waits [OF wait, of c w2] rx2(5) a(2) r(2) by simp_all
  have ttl: "rxTTL (timers a2) = rxTTL (timers a)" using r(1) by (simp add: tx_ran_def)
  note m = mod_agree_fields [OF r(3)]
  have "unat (rxTTL (timers a')) = unat (rxTTL (timers a)) - 1"
    using m(11) ttl by (simp add: update_rx_timers_ttl eq(2) process_wait_for_frame_def unat_dec)
  moreover have "rxInfoAge (rx a') = (rxTTL (timers a) = 1)" "framein (rx a') = framein (rx a)" "rx_waiting p' a'"
    using m rx2 ttl a wait
    by (simp_all add: update_rx_timers_ttl update_rx_timers_frame eq process_wait_for_frame_def rx_waiting_def rx_admin_on_def)
  moreover have "l2_ok (l2 p')" using c(4) by (simp add: eq sent_more_def l2_ok_def)
  ultimately show ?thesis using r(4-6) by blast
qed

lemma timer_agent_aged:
  assumes c: "lldp_head c = mods" "inv w" "env_ok (core_env c)" "l2_ok (l2 p)" "agent_inv a"
    and a: "rx_waiting p a" "rxInfoAge (rx a)"
  shows "\<exists>p' a' w'. timer_agent c p a w = Some (Inr (p', a', w')) \<and> framein (rx a') = None
     \<and> msap_info a' = \<lparr>length1 = 0, msap1 = None, length2 = 0, msap2 = None\<rparr> \<and> remoteChange (rx a')"
proof -
  obtain xs a2 w2 p' a3 w3 a' w' where
    r: "tx_ran a a2" "inv w2" "run_rx_sm c (sent_more (seen p) xs) a2 w2 = Some (Inr (p', a3, w3))"
      "mod_agree (update_rx_timers a3) a'" "timer_agent c p a w = Some (Inr (p', a', w'))"
    using timer_agent_parts [OF c] by blast
  have "rx_waiting (sent_more (seen p) xs) a2" "rxInfoAge (rx a2)"
    using tx_ran_waiting [OF r(1) a(1)] tx_ran_rx(5) [OF r(1)] a(2) by simp_all
  then have f: "forgotten a3"
    using run_rx_sm_aged [OF c(1) r(2), of a2 "sent_more (seen p) xs"] r(3) by (auto simp: rx_waiting_def)
  have "remoteChange (rx (update_rx_timers a3)) = remoteChange (rx a3)"
    by (simp add: update_rx_timers_def Let_def)
  then show ?thesis
    using f r(5) mod_agree_fields [OF r(4)] by (simp add: forgotten_def update_rx_timers_frame)
qed

text \<open>
  Without a frame from the neighbour its information is kept for as many seconds as its time to
  live says, and deleted in the next one.
\<close>

lemma agent_ticks_ageing:
  assumes "lldp_head c = mods" "env_ok (core_env c)" "inv w" "l2_ok (l2 p)" "agent_inv a" "rx_waiting p a"
    "\<not> rxInfoAge (rx a)" "n \<le> unat (rxTTL (timers a))"
  shows "\<exists>p' a' w'. agent_ticks n c p a w = Some (Inr (p', a', w')) \<and> inv w' \<and> agent_inv a' \<and> l2_ok (l2 p')
     \<and> rx_waiting p' a' \<and> framein (rx a') = framein (rx a) \<and> rxInfoAge (rx a') = (0 < n \<and> n = unat (rxTTL (timers a)))"
  using assms(3-8)
proof (induction n arbitrary: p a w)
  case (Suc n)
  obtain p1 a1 w1 where r: "timer_agent c p a w = Some (Inr (p1, a1, w1))" "inv w1" "agent_inv a1" "l2_ok (l2 p1)"
      "rx_waiting p1 a1" "framein (rx a1) = framein (rx a)" "unat (rxTTL (timers a1)) = unat (rxTTL (timers a)) - 1"
      "rxInfoAge (rx a1) = (rxTTL (timers a) = 1)"
    using timer_agent_waiting [OF assms(1) Suc.prems(1) assms(2) Suc.prems(2-5)] by blast
  show ?case
  proof (cases "rxTTL (timers a) = 1")
    case True
    with Suc.prems(6) have "n = 0" by simp
    with r True show ?thesis by simp
  next
    case False
    then have "unat (rxTTL (timers a)) \<noteq> 1" by (auto simp: word_unat_eq_iff)
    then have n: "n \<le> unat (rxTTL (timers a1))"
        "(0 < n \<and> n = unat (rxTTL (timers a1))) = (0 < Suc n \<and> Suc n = unat (rxTTL (timers a)))"
      using r(7) Suc.prems(6) by auto
    have "\<not> rxInfoAge (rx a1)" using r(8) False by simp
    from Suc.IH [OF r(2,4,3,5) this n(1)] r(1,6) show ?thesis unfolding n(2) by simp
  qed
qed simp

lemma agent_ticks_add:
  "agent_ticks (n + m) c p a w = bindO (agent_ticks n c p a w) (\<lambda>(p', a', w'). agent_ticks m c p' a' w')"
proof (induction n arbitrary: p a w)
  case (Suc n)
  show ?case
  proof (cases "timer_agent c p a w")
    case (Some r)
    with Suc show ?thesis by (cases r) auto
  qed simp
qed simp

lemma agent_ticks_forgets:
  assumes "lldp_head c = mods" "env_ok (core_env c)" "inv w" "l2_ok (l2 p)" "agent_inv a" "rx_waiting p a"
    "\<not> rxInfoAge (rx a)" "0 < rxTTL (timers a)"
  shows "\<exists>p' a' w'. agent_ticks (unat (rxTTL (timers a)) + 1) c p a w = Some (Inr (p', a', w')) \<and> framein (rx a') = None
     \<and> msap_info a' = \<lparr>length1 = 0, msap1 = None, length2 = 0, msap2 = None\<rparr> \<and> remoteChange (rx a')"
proof -
  let ?n = "unat (rxTTL (timers a))"
  have "0 < ?n" using assms(8) by (simp add: unat_gt_0 word_gt_0)
  then obtain p1 a1 w1 where r: "agent_ticks ?n c p a w = Some (Inr (p1, a1, w1))" "inv w1" "agent_inv a1" "l2_ok (l2 p1)"
      "rx_waiting p1 a1" "rxInfoAge (rx a1)"
    using agent_ticks_ageing [OF assms(1-7) order_refl] by auto
  from timer_agent_aged [OF assms(1) r(2) assms(2) r(4,3,5,6)] r(1) show ?thesis
    unfolding agent_ticks_add by auto
qed

end

subsection \<open>From one agent to another\<close>

text \<open>
  A packet with the modules' TLVs, sent to the address an agent listens on, is understood by that
  agent: it learns the sender's chassis and port identifiers and the time to live.
\<close>

lemma emitted_tail:
  assumes "emits_list mods_emit (lldpad_mods e h) ((1, cid) # (2, pid) # (3, ttl) # us)"
  shows "length cid < 512" "length pid < 512" "length ttl = 2" "lldpdu_order 3 us"
    "\<forall>(ty, bs) \<in> set us. evb22_accepts (wire_tlv ty bs)"
proof -
  obtain t1 t2 where t: "(1, cid) # (2, pid) # (3, ttl) # us = t1 @ t2" "t1 = [] \<or> mand_seq t1" "t2 = [] \<or> evb22_seq t2"
    using assms by (auto simp: lldpad_mods_def mods_emit_def)
  have "t1 \<noteq> []" using t by (auto simp: evb22_seq_def)
  then have "us = t2" "length cid < 512" "length pid < 512" "length ttl = 2"
    using t by (auto simp: mand_seq_def)
  with t(3) show "length cid < 512" "length pid < 512" "length ttl = 2" "lldpdu_order 3 us"
    "\<forall>(ty, bs) \<in> set us. evb22_accepts (wire_tlv ty bs)"
    by (auto simp: evb22_seq_def evb22_accepts_def wire_tlv_def)
qed

lemma walk_matches:
  assumes "framein (rx b) = None" "length (mac_addr b) = 6" "length src = 6"
  shows "rx_walk 0 (eth_header (mac_addr b) src @ rest) [b] = Inr (Matched 0)"
proof -
  have "read_be16 ((mac_addr b @ src) @ hi8 ETH_P_LLDP # lo8 ETH_P_LLDP # rest) 12 = Inr ETH_P_LLDP"
    using assms(2,3) by (subst read_be16_at) simp_all
  moreover have "read_bytes ([] @ mac_addr b @ src @ be16_bytes ETH_P_LLDP @ rest) 0 6 = Inr (mac_addr b)"
    using assms(2) by (intro read_bytes_at) simp_all
  ultimately show ?thesis using assms(1) by (simp add: eth_header_def be16_bytes_def)
qed

lemma neighbour_learns:
  assumes c: "lldp_head c = lldpad_mods e h" "env_ok (core_env c)" "mods_inv e h w"
    and b: "agent_head q = [b]" "rx_waiting q b" "\<not> rxInfoAge (rx b)" "framein (rx b) = None" "length (mac_addr b) = 6"
      "msap_info b = \<lparr>length1 = 0, msap1 = None, length2 = 0, msap2 = None\<rparr>" "\<not> tooManyNghbrs (rx b)"
    and ts: "emits_list mods_emit (lldpad_mods e' h') ((1, cid) # (2, pid) # (3, [hi, lo]) # us)"
      "lldp_frame_size ((1, cid) # (2, pid) # (3, [hi, lo]) # us) \<le> ETH_DATA_LEN" "length src = 6"
    and pkt: "pkt = wire_packet (eth_header (mac_addr b) src) ((1, cid) # (2, pid) # (3, [hi, lo]) # us)"
  shows "\<exists>q' b' w'. rxReceiveFrame c q pkt w = Some (Inr (q', w')) \<and> agent_head q' = [b'] \<and> mods_inv e h w'
     \<and> rxTTL (timers b') = be16 hi lo
     \<and> (if be16 hi lo = 0 then forgotten b'
        else rxstate (rx b') = RX_WAIT_FOR_FRAME \<and> framein (rx b') = Some pkt
          \<and> msap1 (msap_info b') = Some cid \<and> msap2 (msap_info b') = Some pid)"
proof -
  let ?ts = "(1, cid) # (2, pid) # (3, [hi, lo]) # us" and ?hdr = "eth_header (mac_addr b) src"
  have hdr: "length ?hdr = ETH_HLEN" using b(5) ts(3) by (simp add: eth_header_def)
  obtain n where buf: "pkt = ?hdr @ tlv_concat ?ts @ [0, 0] @ replicate n 0"
    using wire_packet_eq [OF hdr ts(2)] unfolding pkt by blast
  have "length pkt \<le> lldp_frame_size ?ts" unfolding pkt wire_packet_def by simp
  moreover have "?hdr \<noteq> []" using hdr by auto
  ultimately have len: "length pkt \<le> 1500" "pkt \<noteq> []" using ts(2) buf by simp_all
  have adm: "\<not> rx_admin_off b" using b(2) rx_admin_exclusive by (auto simp: rx_waiting_def)
  have ok: "malloc_ok (core_env c) (length pkt)" "\<And>n. n < 512 \<Longrightarrow> malloc_ok (core_env c) n"
    using c(2) len by (simp_all add: env_ok_def)
  let ?b = "b\<lparr>stats := (stats b)\<lparr>statsFramesInTotal := statsFramesInTotal (stats b) + 1\<rparr>,
              rx := (rx b)\<lparr>sizein := of_nat (length pkt), framein := Some pkt, rcvFrame := True\<rparr>\<rparr>"
  have u: "unat (of_nat (length pkt) :: u16) = length pkt" using len(1) by (simp add: unat_of_nat)
  have "\<exists>p' a' w'. run_rx_sm c q ?b w = Some (Inr (p', a', w')) \<and> mods_inv e h w' \<and> same_port q p'
     \<and> rxTTL (timers a') = be16 hi lo
     \<and> (if be16 hi lo = 0 then forgotten a'
        else rxstate (rx a') = RX_WAIT_FOR_FRAME \<and> \<not> rcvFrame (rx a') \<and> framein (rx a') = framein (rx ?b)
          \<and> msap1 (msap_info a') = Some cid \<and> msap2 (msap_info a') = Some pid)"
    using emitted_tail [OF ts(1)] b(2,3,6,7) u len(1) ok(2)
    by (intro lr.run_rx_sm_frame [OF c(1) _ c(3), where hdr = ?hdr and ts = us and rest = "replicate n 0"])
      (auto simp: rx_waiting_def rx_admin_on_def rx_sized_def msap_wf_def hdr buf)
  then obtain p' a' w' where r: "run_rx_sm c q ?b w = Some (Inr (p', a', w'))" "mods_inv e h w'" "same_port q p'"
      "rxTTL (timers a') = be16 hi lo"
      "if be16 hi lo = 0 then forgotten a'
        else rxstate (rx a') = RX_WAIT_FOR_FRAME \<and> \<not> rcvFrame (rx a') \<and> framein (rx a') = Some pkt
          \<and> msap1 (msap_info a') = Some cid \<and> msap2 (msap_info a') = Some pid"
    by auto
  have "rx_walk 0 pkt [b] = Inr (Matched 0)" unfolding buf by (rule walk_matches [OF b(4,5) ts(3)])
  then have "rxReceiveFrame c q pkt w = Some (Inr (p'\<lparr>agent_head := (agent_head p')[0 := a']\<rparr>, w'))"
    using len(2) adm ok(1) b(1) r(1) by (simp add: rxReceiveFrame_def Let_def comp_def del: rx_walk.simps)
  moreover have "agent_head p' = [b]" using same_port_fields [OF r(3)] b(1) by simp
  ultimately show ?thesis using r(2,4,5) by (auto split: if_splits)
qed

end
