(* ===== verification/Ecp22.thy ===== *)
theory Ecp22
  imports Evb22 Eloop "HOL-Library.Signed_Division"
begin

text \<open>
  The edge control protocol, \<open>src/qbg/ecp22.c\<close>: the acknowledged transport VDP uses.  Per interface
  there is a transmit machine with one frame in flight, a queue of payloads and an
  acknowledgement timer, and a receive machine that acknowledges every request and passes on those
  it has not seen.  Payloads for VDP and started timers are recorded as events; what VDP sends in
  reply is a later call of \<open>ecp22_notify\<close>.
\<close>

subsection \<open>Data\<close>

datatype ecp22_rx_state = ECP22_RX_BEGIN | ECP22_RX_WAIT | ECP22_RX_WAIT2 | ECP22_RX_FIRST
  | ECP22_RX_REC_ECPDU | ECP22_RX_NEW_ECPDU | ECP22_RX_SEND_ACK

datatype ecp22_tx_state = ECP22_TX_BEGIN | ECP22_TX_INIT | ECP22_TX_TXMIT_ECPDU | ECP22_TX_WAIT_FORREQ
  | ECP22_TX_WAIT_ONDATA | ECP22_TX_ERROR

record 's ecp22_buffer =
  eb_frame :: bytes
  eb_frame_len :: u16
  eb_state :: 's
  eb_ecpdu_received :: bool
  eb_ack_received :: bool
  eb_retries :: u8
  eb_last_seqno :: u16
  eb_seqno :: u16
  eb_errors :: "64 word"

record ecp22_payload_node =
  pn_ptlv :: "packed_tlv option"
  pn_subtype :: u16
  pn_mac :: bytes

text \<open>
  \<open>ecp_ptr\<close> is the address of the structure.  Payloads are removed at the head of the list in use
  and added behind \<open>inuse.last\<close>, which is its last element whenever it is not empty.
\<close>

record ecp22 =
  ecp_ptr :: nat
  ecp_l2 :: l2_packet_data
  ecp_ifname :: string
  ecp_rx :: "ecp22_rx_state ecp22_buffer"
  ecp_tx :: "ecp22_tx_state ecp22_buffer"
  ecp_stats :: agentstats
  inuse :: "ecp22_payload_node list"
  isfree :: "ecp22_payload_node list"
  freecnt :: u16
  max_retries :: u8
  max_rte :: u8

datatype ecp22_event = Ack_Timer nat nat nat | Notify_Vdp string qbg22_imm

record ecp22_world =
  ecp22_head :: "ecp22 list"
  ecp22_next :: nat
  ecp22_events :: "ecp22_event list"

abbreviation (input) LLDP_MOD_ECP22 :: int where "LLDP_MOD_ECP22 \<equiv> 0x80c3"
abbreviation (input) LLDP_MOD_VDP22 :: int where "LLDP_MOD_VDP22 \<equiv> 0x80c4"
abbreviation (input) ETH_P_ECP22 :: u16 where "ETH_P_ECP22 \<equiv> 0x8940"
abbreviation (input) ECP22_REQUEST :: u16 where "ECP22_REQUEST \<equiv> 0"
abbreviation (input) ECP22_ACK :: u16 where "ECP22_ACK \<equiv> 1"
abbreviation (input) ECP22_VDP :: u16 where "ECP22_VDP \<equiv> 1"
abbreviation (input) ECP22_PECSP :: u16 where "ECP22_PECSP \<equiv> 2"
abbreviation (input) ecp22_maxpayload :: u16 where "ecp22_maxpayload \<equiv> 64"
abbreviation (input) ECP22_MAXPAYLOAD_LEN :: nat where "ECP22_MAXPAYLOAD_LEN \<equiv> 1494"
abbreviation (input) ENODEV :: int where "ENODEV \<equiv> 19"
abbreviation (input) ENOENT :: int where "ENOENT \<equiv> 2"
abbreviation (input) E2BIG :: int where "E2BIG \<equiv> 7"
abbreviation (input) sizeof_ecp22 :: nat where "sizeof_ecp22 \<equiv> 3208"
abbreviation (input) sizeof_payload_node :: nat where "sizeof_payload_node \<equiv> 32"

definition nearest_customer_bridge :: bytes where
  "nearest_customer_bridge = [0x01, 0x80, 0xc2, 0x00, 0x00, 0x00]"

subsection \<open>The header\<close>

definition ecp22_hdr_set_op :: "u16 \<Rightarrow> u16 \<Rightarrow> u16" where
  "ecp22_hdr_set_op p op = (p AND 0xf3ff) OR push_bit 10 (op AND 3)"

definition ecp22_hdr_read_op :: "u16 \<Rightarrow> u16" where
  "ecp22_hdr_read_op p = drop_bit 10 p AND 3"

definition ecp22_hdr_set_subtype :: "u16 \<Rightarrow> u16 \<Rightarrow> u16" where
  "ecp22_hdr_set_subtype p sub = (p AND 0xfc00) OR (sub AND 0x3ff)"

definition ecp22_hdr_read_subtype :: "u16 \<Rightarrow> u16" where
  "ecp22_hdr_read_subtype p = p AND 0x3ff"

definition ecp22_hdr_set_version :: "u16 \<Rightarrow> u16 \<Rightarrow> u16" where
  "ecp22_hdr_set_version p ver = (p AND 0xfff) OR push_bit 12 (ver AND 0xf)"

definition ecp22_hdr_read_version :: "u16 \<Rightarrow> u16" where
  "ecp22_hdr_read_version p = drop_bit 12 p AND 0xf"

text \<open>The header word of a request; \<open>junk\<close> is the content of the uninitialised local variable.\<close>

definition ecp22_request_word :: "u16 \<Rightarrow> u16" where
  "ecp22_request_word junk = ecp22_hdr_set_subtype (ecp22_hdr_set_op (ecp22_hdr_set_version junk 1) ECP22_REQUEST) ECP22_VDP"

subsection \<open>Helpers\<close>

definition inc_seqno :: "u16 \<Rightarrow> u16" where
  "inc_seqno x = (let y = x + 1 in if y = 0 then y + 1 else y)"

definition find_ecpdata :: "string \<Rightarrow> ecp22_world \<Rightarrow> nat option" where
  "find_ecpdata name w = find_index (\<lambda>e. strn_eq IFNAMSIZ name (ecp_ifname e)) (ecp22_head w)"

definition ecp22_txframe :: "ecp22 \<Rightarrow> bytes \<Rightarrow> nat \<Rightarrow> ecp22 res" where
  "ecp22_txframe e frame len = bindR (l2_packet_send (ecp_l2 e) (Some frame) len) (\<lambda>l. Inr (e\<lparr>ecp_l2 := l\<rparr>))"

definition ecp22_append :: "bytes \<times> nat \<Rightarrow> bytes \<Rightarrow> (bytes \<times> nat) res" where
  "ecp22_append bp bs = (case bp of (buf, pos) \<Rightarrow>
     if pos + length bs > ETH_FRAME_LEN then Inr (buf, pos)
     else bindR (write_bytes buf pos bs) (\<lambda>buf'. Inr (buf', pos + length bs)))"

definition ecp22_putnode :: "ecp22_payload_node \<Rightarrow> ecp22 \<Rightarrow> ecp22" where
  "ecp22_putnode n e =
     (if freecnt e > ecp22_maxpayload then e
      else e\<lparr>freecnt := freecnt e + 1, isfree := n\<lparr>pn_ptlv := None\<rparr> # isfree e\<rparr>)"

definition ecp22_build_ecpdu :: "'m core \<Rightarrow> ecp22 \<Rightarrow> (bool \<times> ecp22) res" where
  "ecp22_build_ecpdu c e = (case inuse e of
       [] \<Rightarrow> Inr (False, e)
     | p # ps \<Rightarrow>
         let eth = pn_mac p @ l2_packet_get_own_src_addr (core_env c) (porthead c) (ecp_l2 e) @ be16_bytes ETH_P_ECP22;
             hdr = be16_bytes (ecp22_request_word 0) @ be16_bytes (eb_seqno (ecp_tx e))
         in bindR (ecp22_append (replicate ETH_FRAME_LEN 0, 0) eth) (\<lambda>bp1.
            bindR (ecp22_append bp1 hdr) (\<lambda>bp2.
            bindR (derefR (pn_ptlv p)) (\<lambda>ptlv.
            bindR (derefR (ptlv_tlv ptlv)) (\<lambda>data.
            bindR (read_bytes data 0 (unat (ptlv_size ptlv))) (\<lambda>bs.
            bindR (ecp22_append bp2 bs) (\<lambda>(frame, off).
              Inr (True, ecp22_putnode p (e\<lparr>inuse := ps, ecp_tx := (ecp_tx e)\<lparr>eb_ecpdu_received := True,
                 eb_frame := frame, eb_frame_len := of_nat (max off ETH_ZLEN)\<rparr>\<rparr>)))))))))"

definition ecp22_es_waitforreq :: "ecp22 \<Rightarrow> ecp22" where
  "ecp22_es_waitforreq e = ecp_tx_update (\<lambda>t. t\<lparr>eb_retries := 0, eb_ack_received := False, eb_ecpdu_received := False,
     eb_seqno := inc_seqno (eb_seqno t)\<rparr>) e"

definition ecp22_es_counterror :: "ecp22 \<Rightarrow> ecp22" where
  "ecp22_es_counterror e = ecp_tx_update (\<lambda>t. t\<lparr>eb_errors := eb_errors t + 1\<rparr>) e"

definition ecp22_es_inittransmit :: "ecp22 \<Rightarrow> ecp22" where
  "ecp22_es_inittransmit e = ecp_tx_update (\<lambda>t. t\<lparr>eb_errors := 0, eb_seqno := 0\<rparr>) e"

text \<open>The value is computed in 32 bit signed arithmetic.\<close>

definition rtevalue :: "u8 \<Rightarrow> int" where
  "rtevalue rte = sint (push_bit (unat rte) (1 :: 32 word) * 10)"

definition ecp22_tx_start_acktimer :: "ecp22 \<Rightarrow> ecp22_event" where
  "ecp22_tx_start_acktimer e = Ack_Timer (ecp_ptr e) (unat (of_int (rtevalue (max_rte e) sdiv 1000000) :: u32))
     (unat (of_int (rtevalue (max_rte e) smod 1000000) :: u32))"

definition ecp22_es_txmit :: "ecp22 \<Rightarrow> (ecp22 \<times> ecp22_event list) res" where
  "ecp22_es_txmit e =
     (let e1 = ecp_tx_update (\<lambda>t. t\<lparr>eb_retries := eb_retries t + 1\<rparr>) e in
      bindR (ecp22_txframe e1 (eb_frame (ecp_tx e1)) (unat (eb_frame_len (ecp_tx e1)))) (\<lambda>e2.
        Inr (e2, [ecp22_tx_start_acktimer e2])))"

subsection \<open>The transmit machine\<close>

definition ecp22_tx_change_state :: "ecp22 \<Rightarrow> ecp22_tx_state \<Rightarrow> ecp22 res" where
  "ecp22_tx_change_state e newstate =
     (let st = eb_state (ecp_tx e) in
      bindR (case newstate of
          ECP22_TX_BEGIN \<Rightarrow> Inr ()
        | ECP22_TX_INIT \<Rightarrow> assertR (st = ECP22_TX_BEGIN)
        | ECP22_TX_WAIT_FORREQ \<Rightarrow>
            assertR (st = ECP22_TX_INIT \<or> st = ECP22_TX_ERROR \<or> st = ECP22_TX_TXMIT_ECPDU)
        | ECP22_TX_WAIT_ONDATA \<Rightarrow> assertR (st = ECP22_TX_WAIT_FORREQ)
        | ECP22_TX_TXMIT_ECPDU \<Rightarrow> assertR (st = ECP22_TX_WAIT_ONDATA)
        | ECP22_TX_ERROR \<Rightarrow> assertR (st = ECP22_TX_TXMIT_ECPDU))
        (\<lambda>_. Inr (ecp_tx_update (\<lambda>t. t\<lparr>eb_state := newstate\<rparr>) e)))"

definition ecp22_set_tx_state :: "'m core \<Rightarrow> ecp22 \<Rightarrow> (bool \<times> 'm core \<times> ecp22) res" where
  "ecp22_set_tx_state c e0 =
     (case port_find_by_ifindex (porthead c) (get_ifidx (core_env c) (ecp_ifname e0)) of
        None \<Rightarrow> Inr (False, c, e0)
      | Some i \<Rightarrow>
          let p = porthead c ! i;
              c1 = c\<lparr>porthead := (porthead c)[i := p\<lparr>prevPortEnabled := portEnabled p\<rparr>]\<rparr>
          in bindR (if \<not> portEnabled p \<and> prevPortEnabled p then ecp22_tx_change_state e0 ECP22_TX_BEGIN else Inr e0) (\<lambda>e.
             let goto = (\<lambda>e1 s. bindR (ecp22_tx_change_state e1 s) (\<lambda>e2. Inr (True, c1, e2)))
             in case eb_state (ecp_tx e) of
                  ECP22_TX_BEGIN \<Rightarrow> goto e ECP22_TX_INIT
                | ECP22_TX_INIT \<Rightarrow> goto e ECP22_TX_WAIT_FORREQ
                | ECP22_TX_WAIT_FORREQ \<Rightarrow> goto e ECP22_TX_WAIT_ONDATA
                | ECP22_TX_WAIT_ONDATA \<Rightarrow>
                    if inuse e \<noteq> [] then bindR (ecp22_build_ecpdu c1 e) (\<lambda>(_, e1). goto e1 ECP22_TX_TXMIT_ECPDU)
                    else Inr (False, c1, e)
                | ECP22_TX_TXMIT_ECPDU \<Rightarrow>
                    if eb_ack_received (ecp_tx e) then goto e ECP22_TX_WAIT_FORREQ
                    else if eb_retries (ecp_tx e) > max_retries e then goto e ECP22_TX_ERROR
                    else Inr (False, c1, e)
                | ECP22_TX_ERROR \<Rightarrow> goto e ECP22_TX_WAIT_FORREQ))"

definition ecp22_tx_action :: "ecp22 \<Rightarrow> (ecp22 \<times> ecp22_event list) res" where
  "ecp22_tx_action e = (case eb_state (ecp_tx e) of
       ECP22_TX_BEGIN \<Rightarrow> Inr (e, [])
     | ECP22_TX_INIT \<Rightarrow> Inr (ecp22_es_inittransmit e, [])
     | ECP22_TX_WAIT_FORREQ \<Rightarrow> Inr (ecp22_es_waitforreq e, [])
     | ECP22_TX_WAIT_ONDATA \<Rightarrow> Inr (e, [])
     | ECP22_TX_TXMIT_ECPDU \<Rightarrow> ecp22_es_txmit e
     | ECP22_TX_ERROR \<Rightarrow> Inr (ecp22_es_counterror e, []))"

partial_function (option) ecp22_tx_loop :: "'m core \<Rightarrow> ecp22 \<Rightarrow> ecp22_event list \<Rightarrow>
    ('m core \<times> ecp22 \<times> ecp22_event list) res option" where
  "ecp22_tx_loop c e evs = (case ecp22_tx_action e of
       Inl f \<Rightarrow> Some (Inl f)
     | Inr (e1, xs) \<Rightarrow> (case ecp22_set_tx_state c e1 of
           Inl f \<Rightarrow> Some (Inl f)
         | Inr (b, c2, e2) \<Rightarrow> if b then ecp22_tx_loop c2 e2 (evs @ xs) else Some (Inr (c2, e2, evs @ xs))))"

definition ecp22_tx_run_sm :: "'m core \<Rightarrow> ecp22 \<Rightarrow> ('m core \<times> ecp22 \<times> ecp22_event list) res option" where
  "ecp22_tx_run_sm c e = (case ecp22_set_tx_state c e of
       Inl f \<Rightarrow> Some (Inl f) | Inr (_, c1, e1) \<Rightarrow> ecp22_tx_loop c1 e1 [])"

subsection \<open>The receive machine\<close>

definition ecp22_rx_change_state :: "ecp22 \<Rightarrow> ecp22_rx_state \<Rightarrow> ecp22 res" where
  "ecp22_rx_change_state e newstate =
     (let st = eb_state (ecp_rx e) in
      bindR (case newstate of
          ECP22_RX_BEGIN \<Rightarrow> Inr ()
        | ECP22_RX_WAIT \<Rightarrow> assertR (st = ECP22_RX_BEGIN)
        | ECP22_RX_FIRST \<Rightarrow> assertR (st = ECP22_RX_WAIT)
        | ECP22_RX_REC_ECPDU \<Rightarrow> assertR (st = ECP22_RX_FIRST \<or> st = ECP22_RX_WAIT2)
        | ECP22_RX_NEW_ECPDU \<Rightarrow> assertR (st = ECP22_RX_REC_ECPDU)
        | ECP22_RX_SEND_ACK \<Rightarrow> assertR (st = ECP22_RX_REC_ECPDU \<or> st = ECP22_RX_NEW_ECPDU)
        | ECP22_RX_WAIT2 \<Rightarrow> assertR (st = ECP22_RX_SEND_ACK))
        (\<lambda>_. Inr (ecp_rx_update (\<lambda>r. r\<lparr>eb_state := newstate\<rparr>) e)))"

definition ecp22_es_send_ack :: "'m core \<Rightarrow> ecp22 \<Rightarrow> ecp22 res" where
  "ecp22_es_send_ack c e =
     bindR (read_bytes (eb_frame (ecp_rx e)) 12 2) (\<lambda>proto.
     bindR (read_be16 (eb_frame (ecp_rx e)) ETH_HLEN) (\<lambda>word.
       let ack = nearest_customer_bridge @ l2_packet_get_own_src_addr (core_env c) (porthead c) (ecp_l2 e) @ proto
             @ be16_bytes (ecp22_hdr_set_op word ECP22_ACK) @ be16_bytes (eb_seqno (ecp_rx e))
       in ecp22_txframe e ack (ETH_HLEN + 4)))"

text \<open>The length is 16 bits wide and wraps for a frame shorter than the two headers.\<close>

definition ecp22_to_ulp :: "u16 \<Rightarrow> ecp22 \<Rightarrow> ecp22_event list" where
  "ecp22_to_ulp ulp e =
     (if ulp = ECP22_VDP
      then [Notify_Vdp (ecp_ifname e) (ECP22_TO_ULP (eb_frame_len (ecp_rx e) - 18) (drop 18 (eb_frame (ecp_rx e))))]
      else [])"

definition ecp22_es_new_ecpdu :: "ecp22 \<Rightarrow> (ecp22 \<times> ecp22_event list) res" where
  "ecp22_es_new_ecpdu e = bindR (read_be16 (eb_frame (ecp_rx e)) ETH_HLEN) (\<lambda>word.
     let e1 = ecp_rx_update (\<lambda>r. r\<lparr>eb_last_seqno := eb_seqno r\<rparr>) e
     in Inr (e1, ecp22_to_ulp (ecp22_hdr_read_subtype word) e1))"

definition ecp22_es_rec_ecpdu :: "ecp22 \<Rightarrow> ecp22 res" where
  "ecp22_es_rec_ecpdu e = bindR (read_be16 (eb_frame (ecp_rx e)) (ETH_HLEN + 2)) (\<lambda>n.
     Inr (ecp_rx_update (\<lambda>r. r\<lparr>eb_seqno := n\<rparr>) e))"

definition ecp22_es_first :: "ecp22 \<Rightarrow> ecp22 res" where
  "ecp22_es_first e = bindR (read_be16 (eb_frame (ecp_rx e)) (ETH_HLEN + 2)) (\<lambda>n.
     Inr (ecp_rx_update (\<lambda>r. r\<lparr>eb_last_seqno := n - 1\<rparr>) e))"

definition ecp22_es_wait :: "ecp22 \<Rightarrow> ecp22" where
  "ecp22_es_wait e = ecp_rx_update (\<lambda>r. r\<lparr>eb_ecpdu_received := False\<rparr>) e"

definition ecp22_set_rx_state :: "'m core \<Rightarrow> ecp22 \<Rightarrow> (bool \<times> ecp22) res" where
  "ecp22_set_rx_state c e0 =
     (case port_find_by_ifindex (porthead c) (get_ifidx (core_env c) (ecp_ifname e0)) of
        None \<Rightarrow> Inr (False, e0)
      | Some i \<Rightarrow>
          bindR (if \<not> portEnabled (porthead c ! i) then ecp22_rx_change_state e0 ECP22_RX_BEGIN else Inr e0) (\<lambda>e.
          let goto = (\<lambda>b s. bindR (ecp22_rx_change_state e s) (\<lambda>e1. Inr (b, e1)))
          in case eb_state (ecp_rx e) of
               ECP22_RX_BEGIN \<Rightarrow> goto False ECP22_RX_WAIT
             | ECP22_RX_WAIT \<Rightarrow> if eb_ecpdu_received (ecp_rx e) then goto True ECP22_RX_FIRST else Inr (False, e)
             | ECP22_RX_WAIT2 \<Rightarrow> if eb_ecpdu_received (ecp_rx e) then goto True ECP22_RX_REC_ECPDU else Inr (False, e)
             | ECP22_RX_FIRST \<Rightarrow> goto True ECP22_RX_REC_ECPDU
             | ECP22_RX_REC_ECPDU \<Rightarrow>
                 goto True (if eb_seqno (ecp_rx e) = eb_last_seqno (ecp_rx e) then ECP22_RX_SEND_ACK else ECP22_RX_NEW_ECPDU)
             | ECP22_RX_NEW_ECPDU \<Rightarrow> goto True ECP22_RX_SEND_ACK
             | ECP22_RX_SEND_ACK \<Rightarrow> goto True ECP22_RX_WAIT2))"

definition ecp22_rx_action :: "'m core \<Rightarrow> ecp22 \<Rightarrow> (ecp22 \<times> ecp22_event list) res" where
  "ecp22_rx_action c e =
     (let quiet = (\<lambda>r. bindR r (\<lambda>e'. Inr (e', [])))
      in case eb_state (ecp_rx e) of
           ECP22_RX_BEGIN \<Rightarrow> Inr (e, [])
         | ECP22_RX_WAIT \<Rightarrow> Inr (ecp22_es_wait e, [])
         | ECP22_RX_WAIT2 \<Rightarrow> Inr (ecp22_es_wait e, [])
         | ECP22_RX_FIRST \<Rightarrow> quiet (ecp22_es_first e)
         | ECP22_RX_REC_ECPDU \<Rightarrow> quiet (ecp22_es_rec_ecpdu e)
         | ECP22_RX_NEW_ECPDU \<Rightarrow> ecp22_es_new_ecpdu e
         | ECP22_RX_SEND_ACK \<Rightarrow> quiet (ecp22_es_send_ack c e))"

partial_function (option) ecp22_rx_loop :: "'m core \<Rightarrow> ecp22 \<Rightarrow> ecp22_event list \<Rightarrow>
    (ecp22 \<times> ecp22_event list) res option" where
  "ecp22_rx_loop c e evs = (case ecp22_rx_action c e of
       Inl f \<Rightarrow> Some (Inl f)
     | Inr (e1, xs) \<Rightarrow> (case ecp22_set_rx_state c e1 of
           Inl f \<Rightarrow> Some (Inl f)
         | Inr (b, e2) \<Rightarrow> if b then ecp22_rx_loop c e2 (evs @ xs) else Some (Inr (e2, evs @ xs))))"

definition ecp22_rx_run_sm :: "'m core \<Rightarrow> ecp22 \<Rightarrow> (ecp22 \<times> ecp22_event list) res option" where
  "ecp22_rx_run_sm c e = (case ecp22_set_rx_state c e of
       Inl f \<Rightarrow> Some (Inl f) | Inr (_, e1) \<Rightarrow> ecp22_rx_loop c e1 [])"

definition ecp22_recack_frame :: "ecp22 \<Rightarrow> u16 \<Rightarrow> ecp22" where
  "ecp22_recack_frame e seqno =
     (if eb_ecpdu_received (ecp_tx e) \<and> eb_seqno (ecp_tx e) = seqno
      then ecp_tx_update (\<lambda>t. t\<lparr>eb_ack_received := True\<rparr>) e else e)"

text \<open>
  The copy of the frame has no upper bound on its length; the buffer has room for one Ethernet
  frame.
\<close>

definition ecp22_rx_receiveframe :: "'m core \<Rightarrow> ecp22 \<Rightarrow> bytes \<Rightarrow> (ecp22 \<times> ecp22_event list) res option" where
  "ecp22_rx_receiveframe c e buf =
     (if port_find_by_ifindex (porthead c) (get_ifidx (core_env c) (ecp_ifname e)) = None
         \<or> eb_ecpdu_received (ecp_rx e)
      then Some (Inr (e, []))
      else case write_bytes (eb_frame (ecp_rx e)) 0 buf of
        Inl f \<Rightarrow> Some (Inl f)
      | Inr frame \<Rightarrow>
          let e1 = e\<lparr>ecp_rx := (ecp_rx e)\<lparr>eb_frame := frame, eb_frame_len := of_nat (length buf)\<rparr>,
                     ecp_stats := (ecp_stats e)\<lparr>statsFramesInTotal := statsFramesInTotal (ecp_stats e) + 1\<rparr>\<rparr>
          in case read_be16 frame ETH_HLEN of
               Inl f \<Rightarrow> Some (Inl f)
             | Inr word \<Rightarrow>
                 if ecp22_hdr_read_version word \<noteq> 1 then Some (Inr (e1, []))
                 else if ecp22_hdr_read_subtype word \<noteq> ECP22_PECSP \<and> ecp22_hdr_read_subtype word \<noteq> ECP22_VDP
                 then Some (Inr (e1, []))
                 else if ecp22_hdr_read_op word = ECP22_REQUEST
                 then ecp22_rx_run_sm c (ecp_rx_update (\<lambda>r. r\<lparr>eb_ecpdu_received := True\<rparr>) e1)
                 else if ecp22_hdr_read_op word = ECP22_ACK
                 then Some (bindR (read_be16 frame (ETH_HLEN + 2)) (\<lambda>n. Inr (ecp22_recack_frame e1 n, [])))
                 else Some (Inr (e1, [])))"

subsection \<open>The module\<close>

definition put_ecp :: "nat \<Rightarrow> ecp22 \<Rightarrow> ecp22_event list \<Rightarrow> ecp22_world \<Rightarrow> ecp22_world" where
  "put_ecp i e evs w = w\<lparr>ecp22_head := (ecp22_head w)[i := e], ecp22_events := ecp22_events w @ evs\<rparr>"

definition zero_stats :: agentstats where
  "zero_stats = \<lparr>statsFramesOutTotal = 0, statsAgeoutsTotal = 0, statsFramesDiscardedTotal = 0,
     statsFramesInErrorsTotal = 0, statsFramesInTotal = 0, statsTLVsDiscardedTotal = 0, statsTLVsUnrecognizedTotal = 0\<rparr>"

definition zero_buffer :: "'s \<Rightarrow> 's ecp22_buffer" where
  "zero_buffer s = \<lparr>eb_frame = replicate ETH_FRAME_LEN 0, eb_frame_len = 0, eb_state = s, eb_ecpdu_received = False,
     eb_ack_received = False, eb_retries = 0, eb_last_seqno = 0, eb_seqno = 0, eb_errors = 0\<rparr>"

definition ecp22_create :: "env \<Rightarrow> (string \<Rightarrow> l2_packet_data option) \<Rightarrow> string \<Rightarrow> ecp22_world \<Rightarrow> ecp22_world option" where
  "ecp22_create en l2_packet_init name w =
     (if \<not> malloc_ok en sizeof_ecp22 then None
      else case l2_packet_init (take IFNAMSIZ name) of
        None \<Rightarrow> None
      | Some l \<Rightarrow> Some (w\<lparr>ecp22_head := \<lparr>ecp_ptr = ecp22_next w, ecp_l2 = l, ecp_ifname = take IFNAMSIZ name,
            ecp_rx = zero_buffer ECP22_RX_BEGIN, ecp_tx = zero_buffer ECP22_TX_BEGIN, ecp_stats = zero_stats,
            inuse = [], isfree = [], freecnt = 0, max_retries = 0, max_rte = 0\<rparr> # ecp22_head w,
          ecp22_next := Suc (ecp22_next w)\<rparr>))"

definition ecp22_reset :: "ecp22 \<Rightarrow> ecp22" where
  "ecp22_reset e = e\<lparr>max_retries := 3, max_rte := 8, inuse := [], isfree := [], freecnt := 0,
     ecp_rx := (ecp_rx e)\<lparr>eb_state := ECP22_RX_BEGIN\<rparr>\<rparr>"

definition ecp22_start :: "(string \<Rightarrow> l2_packet_data option) \<Rightarrow> 'm core \<Rightarrow> string \<Rightarrow> ecp22_world \<Rightarrow>
    ('m core \<times> ecp22_world) res option" where
  "ecp22_start l2_packet_init c name w0 =
     (case (case find_ecpdata name w0 of Some i \<Rightarrow> Some (i, w0)
            | None \<Rightarrow> map_option (Pair 0) (ecp22_create (core_env c) l2_packet_init name w0)) of
        None \<Rightarrow> Some (Inl Null_Deref)
      | Some (i, w) \<Rightarrow>
          bindO (ecp22_rx_run_sm c (ecp22_reset (ecp22_head w ! i))) (\<lambda>(e1, xs).
          bindO (ecp22_tx_run_sm c (ecp_tx_update (\<lambda>t. t\<lparr>eb_state := ECP22_TX_BEGIN\<rparr>) e1)) (\<lambda>(c2, e2, ys).
            Some (Inr (c2, put_ecp i e2 (xs @ ys) w)))))"

definition ecp22_stop :: "string \<Rightarrow> ecp22_world \<Rightarrow> ecp22_world" where
  "ecp22_stop name w = (case find_ecpdata name w of None \<Rightarrow> w
     | Some i \<Rightarrow> w\<lparr>ecp22_head := take i (ecp22_head w) @ drop (Suc i) (ecp22_head w)\<rparr>)"

text \<open>The timer and the socket hold the address of a structure \<open>ecp22_stop\<close> may have freed.\<close>

definition ecp22_ack_timeout_handler :: "'m core \<Rightarrow> nat \<Rightarrow> ecp22_world \<Rightarrow> ('m core \<times> ecp22_world) res option" where
  "ecp22_ack_timeout_handler c ptr w = (case find_index (\<lambda>e. ecp_ptr e = ptr) (ecp22_head w) of
       None \<Rightarrow> Some (Inl Use_After_Free)
     | Some i \<Rightarrow> bindO (ecp22_tx_run_sm c (ecp22_head w ! i)) (\<lambda>(c1, e1, evs). Some (Inr (c1, put_ecp i e1 evs w))))"

definition ecp22_receive :: "'m core \<Rightarrow> nat \<Rightarrow> bytes \<Rightarrow> ecp22_world \<Rightarrow> ecp22_world res option" where
  "ecp22_receive c ptr buf w = (case find_index (\<lambda>e. ecp_ptr e = ptr) (ecp22_head w) of
       None \<Rightarrow> Some (Inl Use_After_Free)
     | Some i \<Rightarrow> bindO (ecp22_rx_receiveframe c (ecp22_head w ! i) buf) (\<lambda>(e1, evs). Some (Inr (put_ecp i e1 evs w))))"

definition ecp22_data_from_evb :: "string \<Rightarrow> u8 \<Rightarrow> u8 \<Rightarrow> ecp22_world \<Rightarrow> int \<times> ecp22_world" where
  "ecp22_data_from_evb name rte retry w = (case find_ecpdata name w of None \<Rightarrow> (- ENOENT, w)
     | Some i \<Rightarrow> (0, put_ecp i ((ecp22_head w ! i)\<lparr>max_rte := rte, max_retries := retry\<rparr>) [] w))"

definition ecp22_add_payload :: "'m core \<Rightarrow> ecp22 \<Rightarrow> ecp22_payload_node \<Rightarrow>
    ('m core \<times> ecp22 \<times> ecp22_event list) res option" where
  "ecp22_add_payload c e n =
     (let e1 = e\<lparr>inuse := inuse e @ [n]\<rparr> in
      if \<not> eb_ecpdu_received (ecp_tx e1) then ecp22_tx_run_sm c e1 else Some (Inr (c, e1, [])))"

definition copy_ptlv :: "allocator \<Rightarrow> packed_tlv \<Rightarrow> packed_tlv option res" where
  "copy_ptlv ok from = (case create_ptlv ok of None \<Rightarrow> Inr None
     | Some p \<Rightarrow> if \<not> ok (unat (ptlv_size from)) then Inr None
         else bindR (derefR (ptlv_tlv from)) (\<lambda>data. bindR (read_bytes data 0 (unat (ptlv_size from))) (\<lambda>bs.
           Inr (Some (p\<lparr>ptlv_size := ptlv_size from, ptlv_tlv := Some bs\<rparr>)))))"

definition ecp22_getnode :: "allocator \<Rightarrow> ecp22 \<Rightarrow> (ecp22_payload_node \<times> ecp22) option" where
  "ecp22_getnode ok e = (case isfree e of
       [] \<Rightarrow> if ok sizeof_payload_node then Some (\<lparr>pn_ptlv = None, pn_subtype = 0, pn_mac = replicate ETH_ALEN 0\<rparr>, e) else None
     | n # ns \<Rightarrow> Some (n, e\<lparr>isfree := ns, freecnt := freecnt e - 1\<rparr>))"

definition ecp22_req2send :: "'m core \<Rightarrow> string \<Rightarrow> u16 \<Rightarrow> bytes \<Rightarrow> packed_tlv \<Rightarrow> ecp22_world \<Rightarrow>
    (int \<times> 'm core \<times> ecp22_world) res option" where
  "ecp22_req2send c name subtype mac du w = (case copy_ptlv (malloc_ok (core_env c)) du of
       Inl f \<Rightarrow> Some (Inl f)
     | Inr r \<Rightarrow> (case find_ecpdata name w of
           None \<Rightarrow> Some (Inr (- ENODEV, c, w))
         | Some i \<Rightarrow> (case r of
               None \<Rightarrow> Some (Inr (- ENOMEM, c, w))
             | Some ptlv \<Rightarrow>
                 if unat (ptlv_size ptlv) \<ge> ECP22_MAXPAYLOAD_LEN then Some (Inr (- E2BIG, c, w))
                 else case ecp22_getnode (malloc_ok (core_env c)) (ecp22_head w ! i) of
                   None \<Rightarrow> Some (Inr (- ENOMEM, c, w))
                 | Some (n, e) \<Rightarrow> bindO (ecp22_add_payload c e (n\<lparr>pn_ptlv := Some ptlv, pn_subtype := subtype, pn_mac := mac\<rparr>))
                     (\<lambda>(c1, e1, evs). Some (Inr (0, c1, put_ecp i e1 evs w))))))"

definition data_from_vdp :: "'m core \<Rightarrow> string \<Rightarrow> u16 \<Rightarrow> bytes \<Rightarrow> ecp22_world \<Rightarrow> (int \<times> 'm core \<times> ecp22_world) res option" where
  "data_from_vdp c name len data w =
     ecp22_req2send c name ECP22_VDP nearest_customer_bridge \<lparr>ptlv_size = len, ptlv_tlv = Some data\<rparr> w"

definition ecp22_notify :: "'m core \<Rightarrow> int \<Rightarrow> string \<Rightarrow> qbg22_imm \<Rightarrow> ecp22_world \<Rightarrow>
    (int \<times> 'm core \<times> ecp22_world) res option" where
  "ecp22_notify c sender_id name qbg w = (case qbg of
       EVB22_TO_ECP22 rte retry \<Rightarrow>
         if sender_id = LLDP_MOD_EVB22 then (case ecp22_data_from_evb name rte retry w of (rc, w') \<Rightarrow> Some (Inr (rc, c, w')))
         else Some (Inr (0, c, w))
     | VDP22_TO_ECP22 len data \<Rightarrow>
         if sender_id = LLDP_MOD_VDP22 then data_from_vdp c name len data w else Some (Inr (0, c, w))
     | _ \<Rightarrow> Some (Inr (0, c, w)))"

definition ecp22_register :: "env \<Rightarrow> ecp22_world option" where
  "ecp22_register en = (if \<not> malloc_ok en 48 \<or> \<not> malloc_ok en 8 then None
     else Some \<lparr>ecp22_head = [], ecp22_next = 0, ecp22_events = []\<rparr>)"

definition ecp22_unregister :: "ecp22_world \<Rightarrow> ecp22_world" where
  "ecp22_unregister w = w\<lparr>ecp22_head := []\<rparr>"

end
