(* ===== verification/Ecp22_Safe.thy ===== *)
theory Ecp22_Safe
  imports Ecp22 Agent_Safe
begin

text \<open>
  The two machines of the edge control protocol: they end, none of their assertions fails, the
  buffers are respected, and what each of them sends and passes on.
\<close>

subsection \<open>Headers and sequence numbers\<close>

lemma ecp22_request_word_eq: "ecp22_request_word junk = 0x1001"
  unfolding ecp22_request_word_def ecp22_hdr_set_subtype_def ecp22_hdr_set_op_def ecp22_hdr_set_version_def
  by (simp add: bit.conj_disj_distrib2 and.assoc)

lemma request_word_fields: "ecp22_hdr_read_version 0x1001 = 1" "ecp22_hdr_read_subtype 0x1001 = ECP22_VDP"
  "ecp22_hdr_read_op 0x1001 = ECP22_REQUEST"
  by (simp_all add: ecp22_hdr_read_version_def ecp22_hdr_read_subtype_def ecp22_hdr_read_op_def)

lemma inc_seqno_neq: "inc_seqno x \<noteq> x" "inc_seqno x \<noteq> 0"
  by (auto simp: inc_seqno_def Let_def)

lemma rtevalue_small:
  assumes "unat rte \<le> 27"
  shows "rtevalue rte = 10 * 2 ^ unat rte"
proof -
  have p: "(2 :: nat) ^ unat rte \<le> 2 ^ 27" using assms by (rule power_increasing) simp
  have "push_bit (unat rte) (1 :: 32 word) * 10 = of_nat (10 * 2 ^ unat rte)"
    by (simp add: push_bit_eq_mult mult.commute)
  moreover have "sint (of_nat (10 * 2 ^ unat rte) :: 32 word) = int (10 * 2 ^ unat rte)"
  proof -
    have "int (10 * 2 ^ unat rte) < int (2 ^ 31)" using p by (simp only: of_nat_less_iff) simp
    then have "signed_take_bit 31 (int (10 * 2 ^ unat rte)) = int (10 * 2 ^ unat rte)"
      by (intro signed_take_bit_int_eq_self) (rule order_trans [of _ 0], simp_all)
    then show ?thesis by (simp only: signed_of_nat) simp
  qed
  ultimately show ?thesis by (simp add: rtevalue_def mult.commute)
qed

subsection \<open>Well-formed state\<close>

definition node_bytes :: "ecp22_payload_node \<Rightarrow> bytes" where
  "node_bytes n = (case pn_ptlv n of None \<Rightarrow> [] | Some p \<Rightarrow> (case ptlv_tlv p of None \<Rightarrow> []
     | Some d \<Rightarrow> take (unat (ptlv_size p)) d))"

definition node_wf :: "ecp22_payload_node \<Rightarrow> bool" where
  "node_wf n \<longleftrightarrow> length (pn_mac n) = ETH_ALEN \<and> (\<exists>p d. pn_ptlv n = Some p \<and> ptlv_tlv p = Some d
     \<and> unat (ptlv_size p) \<le> length d \<and> unat (ptlv_size p) < ECP22_MAXPAYLOAD_LEN)"

definition ecp_wf :: "ecp22 \<Rightarrow> bool" where
  "ecp_wf e \<longleftrightarrow> length (eb_frame (ecp_rx e)) = ETH_FRAME_LEN \<and> length (eb_frame (ecp_tx e)) = ETH_FRAME_LEN
     \<and> unat (eb_frame_len (ecp_tx e)) \<le> ETH_FRAME_LEN \<and> list_all node_wf (inuse e) \<and> l2_ok (ecp_l2 e)"

text \<open>A request on the wire.\<close>

definition ecp_request :: "bytes \<Rightarrow> bytes \<Rightarrow> u16 \<Rightarrow> bytes \<Rightarrow> bytes" where
  "ecp_request mac src n bs = mac @ src @ be16_bytes ETH_P_ECP22 @ be16_bytes 0x1001 @ be16_bytes n @ bs
     @ replicate (42 - length bs) 0"

definition own_addr :: "'m core \<Rightarrow> ecp22 \<Rightarrow> bytes" where
  "own_addr c e = l2_packet_get_own_src_addr (core_env c) (porthead c) (ecp_l2 e)"

lemma own_addr_length: "env_ok (core_env c) \<Longrightarrow> l2_ok (ecp_l2 e) \<Longrightarrow> length (own_addr c e) = 6"
  using bond_src_mac_length [of "core_env c" "porthead c" "l2_ifname (ecp_l2 e)"]
  by (auto simp: own_addr_def l2_packet_get_own_src_addr_def l2_ok_def split: option.splits)

lemma putnode_sel [simp]:
  "inuse (ecp22_putnode n e) = inuse e" "ecp_tx (ecp22_putnode n e) = ecp_tx e" "ecp_rx (ecp22_putnode n e) = ecp_rx e"
  "ecp_l2 (ecp22_putnode n e) = ecp_l2 e" "ecp_ifname (ecp22_putnode n e) = ecp_ifname e"
  "max_retries (ecp22_putnode n e) = max_retries e" "max_rte (ecp22_putnode n e) = max_rte e"
  "ecp_ptr (ecp22_putnode n e) = ecp_ptr e"
  by (simp_all add: ecp22_putnode_def)

lemma append_fits:
  "pos + length bs \<le> ETH_FRAME_LEN \<Longrightarrow> length pre = pos \<Longrightarrow>
     ecp22_append (pre @ replicate (ETH_FRAME_LEN - pos) 0, pos) bs
       = Inr ((pre @ bs) @ replicate (ETH_FRAME_LEN - (pos + length bs)) 0, pos + length bs)"
  by (simp add: ecp22_append_def write_bytes_def)

text \<open>The frame in the transmit buffer after a payload was taken from the queue.\<close>

definition ecp_load :: "'m core \<Rightarrow> ecp22 \<Rightarrow> ecp22" where
  "ecp_load c e = (case inuse e of [] \<Rightarrow> e | p # ps \<Rightarrow>
     let bs = node_bytes p;
         frame = pn_mac p @ own_addr c e @ be16_bytes ETH_P_ECP22 @ be16_bytes 0x1001 @ be16_bytes (eb_seqno (ecp_tx e)) @ bs
     in ecp22_putnode p (e\<lparr>inuse := ps, ecp_tx := (ecp_tx e)\<lparr>eb_ecpdu_received := True,
          eb_frame := frame @ replicate (ETH_FRAME_LEN - (18 + length bs)) 0,
          eb_frame_len := of_nat (max (18 + length bs) ETH_ZLEN)\<rparr>\<rparr>))"

lemma node_wf_bytes:
  assumes "node_wf n"
  shows "length (node_bytes n) < ECP22_MAXPAYLOAD_LEN" "length (pn_mac n) = 6"
    "\<exists>p d. pn_ptlv n = Some p \<and> ptlv_tlv p = Some d \<and> read_bytes d 0 (unat (ptlv_size p)) = Inr (node_bytes n)"
  using assms by (auto simp: node_wf_def node_bytes_def read_bytes_def)

lemma build_ecpdu_load:
  assumes "ecp_wf e" "env_ok (core_env c)" "inuse e \<noteq> []"
  shows "ecp22_build_ecpdu c e = Inr (True, ecp_load c e)" "ecp_wf (ecp_load c e)"
proof -
  obtain p ps where q: "inuse e = p # ps" using assms(3) by (cases "inuse e") auto
  have wf: "node_wf p" "l2_ok (ecp_l2 e)" using assms(1) q by (simp_all add: ecp_wf_def)
  note nb = node_wf_bytes [OF wf(1)] and own = own_addr_length [OF assms(2) wf(2)]
  obtain t d where t: "pn_ptlv p = Some t" "ptlv_tlv t = Some d" "read_bytes d 0 (unat (ptlv_size t)) = Inr (node_bytes p)"
    using nb(3) by blast
  let ?eth = "pn_mac p @ own_addr c e @ be16_bytes ETH_P_ECP22" and ?hdr = "be16_bytes 0x1001 @ be16_bytes (eb_seqno (ecp_tx e))"
  have len: "length ?eth = 14" "length ?hdr = 4" using nb(2) own by simp_all
  have "ecp22_append (replicate 1514 0, 0) ?eth = Inr (?eth @ replicate (1514 - 14) 0, 14)"
    using append_fits [of 0 ?eth "[]"] len(1) by simp
  moreover have "ecp22_append (?eth @ replicate (1514 - 14) 0, 14) ?hdr = Inr ((?eth @ ?hdr) @ replicate (1514 - 18) 0, 18)"
    using append_fits [of 14 ?hdr ?eth] len by simp
  moreover have "ecp22_append ((?eth @ ?hdr) @ replicate (1514 - 18) 0, 18) (node_bytes p)
      = Inr (((?eth @ ?hdr) @ node_bytes p) @ replicate (1514 - (18 + length (node_bytes p))) 0, 18 + length (node_bytes p))"
    using append_fits [of 18 "node_bytes p" "?eth @ ?hdr"] len nb(1) by simp
  ultimately show "ecp22_build_ecpdu c e = Inr (True, ecp_load c e)"
    using t q by (simp add: ecp22_build_ecpdu_def ecp_load_def Let_def own_addr_def ecp22_request_word_eq)
  show "ecp_wf (ecp_load c e)"
    using assms(1) q nb own by (simp add: ecp_wf_def ecp_load_def Let_def unat_of_nat)
qed

subsection \<open>The transmit machine\<close>

text \<open>The diagram of the transmit machine: the state it goes to, if it does not stay.\<close>

definition ecp_tx_next :: "ecp22 \<Rightarrow> ecp22_tx_state option" where
  "ecp_tx_next e = (case eb_state (ecp_tx e) of
       ECP22_TX_BEGIN \<Rightarrow> Some ECP22_TX_INIT
     | ECP22_TX_INIT \<Rightarrow> Some ECP22_TX_WAIT_FORREQ
     | ECP22_TX_WAIT_FORREQ \<Rightarrow> Some ECP22_TX_WAIT_ONDATA
     | ECP22_TX_WAIT_ONDATA \<Rightarrow> if inuse e = [] then None else Some ECP22_TX_TXMIT_ECPDU
     | ECP22_TX_TXMIT_ECPDU \<Rightarrow> if eb_ack_received (ecp_tx e) then Some ECP22_TX_WAIT_FORREQ
         else if eb_retries (ecp_tx e) > max_retries e then Some ECP22_TX_ERROR else None
     | ECP22_TX_ERROR \<Rightarrow> Some ECP22_TX_WAIT_FORREQ)"

definition ecp_enter :: "'m core \<Rightarrow> ecp22_tx_state \<Rightarrow> ecp22 \<Rightarrow> ecp22" where
  "ecp_enter c s e = ecp_tx_update (\<lambda>t. t\<lparr>eb_state := s\<rparr>) (if s = ECP22_TX_TXMIT_ECPDU then ecp_load c e else e)"

abbreviation ecp_port :: "'m core \<Rightarrow> ecp22 \<Rightarrow> nat option" where
  "ecp_port c e \<equiv> port_find_by_ifindex (porthead c) (get_ifidx (core_env c) (ecp_ifname e))"

definition ecp_seen :: "'m core \<Rightarrow> ecp22 \<Rightarrow> 'm core" where
  "ecp_seen c e = (case ecp_port c e of None \<Rightarrow> c | Some i \<Rightarrow>
     c\<lparr>porthead := (porthead c)[i := (porthead c ! i)\<lparr>prevPortEnabled := portEnabled (porthead c ! i)\<rparr>]\<rparr>)"

definition ecp_down :: "'m core \<Rightarrow> ecp22 \<Rightarrow> bool" where
  "ecp_down c e \<longleftrightarrow> (\<exists>i. ecp_port c e = Some i \<and> \<not> portEnabled (porthead c ! i) \<and> prevPortEnabled (porthead c ! i))"

abbreviation ecp_restart :: "'m core \<Rightarrow> ecp22 \<Rightarrow> ecp22" where
  "ecp_restart c e \<equiv> (if ecp_down c e then ecp_tx_update (\<lambda>t. t\<lparr>eb_state := ECP22_TX_BEGIN\<rparr>) e else e)"

lemma ecp_wf_upd [simp]:
  "ecp_wf (ecp_tx_update (eb_state_update f) e) = ecp_wf e" "ecp_wf (ecp_rx_update (eb_state_update g) e) = ecp_wf e"
  by (simp_all add: ecp_wf_def)

definition ecp_settled :: "'m core \<Rightarrow> ecp22 \<Rightarrow> bool" where
  "ecp_settled c e \<longleftrightarrow> (\<exists>i. ecp_port c e = Some i \<and> prevPortEnabled (porthead c ! i) = portEnabled (porthead c ! i))"

lemma set_tx_state_settled:
  assumes "ecp_wf e" "env_ok (core_env c)" "ecp_settled c e"
  shows "ecp22_set_tx_state c e = Inr (case ecp_tx_next e of
     None \<Rightarrow> (False, c, e) | Some s \<Rightarrow> (True, c, ecp_enter c s e))"
proof -
  obtain i where i: "ecp_port c e = Some i" "prevPortEnabled (porthead c ! i) = portEnabled (porthead c ! i)"
    using assms(3) by (auto simp: ecp_settled_def)
  then have p: "(porthead c ! i)\<lparr>prevPortEnabled := portEnabled (porthead c ! i)\<rparr> = porthead c ! i"
    by (cases "porthead c ! i") simp
  have ld: "eb_state (ecp_tx (ecp_load c e)) = eb_state (ecp_tx e)"
    by (simp add: ecp_load_def Let_def split: list.split)
  show ?thesis
    using build_ecpdu_load(1) [OF assms(1,2)] i ld
    by (cases "eb_state (ecp_tx e)")
      (auto simp: ecp22_set_tx_state_def p ecp22_tx_change_state_def ecp_tx_next_def ecp_enter_def Let_def)
qed

lemma ecp_port_upd [simp]: "ecp_port c (ecp_tx_update f e) = ecp_port c e" "ecp_port c (ecp_rx_update g e) = ecp_port c e"
  "ecp_port c (ecp_load d e) = ecp_port c e"
  by (simp_all add: ecp_load_def Let_def split: list.split)

lemma ecp_seen_port: "ecp_port c e = Some i \<Longrightarrow> ecp_port (ecp_seen c e) e = Some i \<and> i < length (porthead c)"
  using find_index_Some [of _ "porthead c" i]
  by (simp add: ecp_seen_def port_find_by_ifindex_def find_index_update_other)

lemma ecp_seen_settled: "ecp_port c e = Some i \<Longrightarrow> ecp_settled (ecp_seen c e) (ecp_restart c e)"
  by (frule ecp_seen_port) (auto simp: ecp_settled_def, auto simp: ecp_seen_def)

lemma set_tx_state_restart:
  assumes "ecp_port c e = Some i"
  shows "ecp22_set_tx_state c e = ecp22_set_tx_state (ecp_seen c e) (ecp_restart c e)"
proof -
  have i: "ecp_port (ecp_seen c e) (ecp_restart c e) = Some i" "i < length (porthead c)"
    using ecp_seen_port [OF assms] by simp_all
  let ?d = "ecp_seen c e"
  have p: "porthead ?d ! i = (porthead c ! i)\<lparr>prevPortEnabled := portEnabled (porthead c ! i)\<rparr>"
    using assms i(2) by (simp add: ecp_seen_def)
  then have c2: "?d\<lparr>porthead := (porthead ?d)[i := (porthead ?d ! i)\<lparr>prevPortEnabled := portEnabled (porthead ?d ! i)\<rparr>]\<rparr> = ?d"
    using assms by (simp add: ecp_seen_def)
  from p have d2: "portEnabled (porthead ?d ! i) = prevPortEnabled (porthead ?d ! i)" by simp
  have down: "ecp_down c e = (\<not> portEnabled (porthead c ! i) \<and> prevPortEnabled (porthead c ! i))"
    using assms by (simp add: ecp_down_def)
  have c1: "c\<lparr>porthead := (porthead c)[i := (porthead c ! i)\<lparr>prevPortEnabled := portEnabled (porthead c ! i)\<rparr>]\<rparr> = ecp_seen c e"
    using assms by (simp add: ecp_seen_def)
  have r: "(if ecp_down c e then ecp22_tx_change_state e ECP22_TX_BEGIN else Inr e) = Inr (ecp_restart c e)"
    by (simp add: ecp22_tx_change_state_def)
  show ?thesis
    unfolding ecp22_set_tx_state_def i(1) assms option.simps Let_def c1 c2 down [symmetric] r by (simp add: d2)
qed

subsection \<open>The sender it implements\<close>

text \<open>
  What the transmit machine promises, without its states: a number, the frame in flight with the
  times it was sent and whether it was acknowledged, the payloads waiting, the payloads given up.
\<close>

record ecp_sender =
  sd_seqno :: u16
  sd_busy :: "(bytes \<times> u8 \<times> bool) option"
  sd_queue :: "(bytes \<times> bytes) list"
  sd_errors :: "64 word"

definition on_wire :: "'s ecp22_buffer \<Rightarrow> bytes" where
  "on_wire b = take (unat (eb_frame_len b)) (eb_frame b)"

definition sender_of :: "ecp22 \<Rightarrow> ecp_sender" where
  "sender_of e = \<lparr>sd_seqno = eb_seqno (ecp_tx e),
     sd_busy = (if eb_state (ecp_tx e) = ECP22_TX_TXMIT_ECPDU
       then Some (on_wire (ecp_tx e), eb_retries (ecp_tx e), eb_ack_received (ecp_tx e)) else None),
     sd_queue = map (\<lambda>n. (pn_mac n, node_bytes n)) (inuse e), sd_errors = eb_errors (ecp_tx e)\<rparr>"

text \<open>The next payload is taken and sent; where no retry is allowed it is given up at once.\<close>

fun send_next :: "bytes \<Rightarrow> u8 \<Rightarrow> u16 \<Rightarrow> 64 word \<Rightarrow> (bytes \<times> bytes) list \<Rightarrow> ecp_sender \<times> bytes list" where
  "send_next src m n errs [] = (\<lparr>sd_seqno = n, sd_busy = None, sd_queue = [], sd_errors = errs\<rparr>, [])"
| "send_next src m n errs ((mac, bs) # q) =
     (let f = ecp_request mac src n bs in
      if m = 0 then (case send_next src m (inc_seqno n) (errs + 1) q of (s, fs) \<Rightarrow> (s, f # fs))
      else (\<lparr>sd_seqno = n, sd_busy = Some (f, 1, False), sd_queue = q, sd_errors = errs\<rparr>, [f]))"

text \<open>One activation, by the acknowledgement timer or by a new payload.\<close>

definition sender_activate :: "bytes \<Rightarrow> u8 \<Rightarrow> ecp_sender \<Rightarrow> ecp_sender \<times> bytes list" where
  "sender_activate src m s = (case sd_busy s of
       None \<Rightarrow> send_next src m (sd_seqno s) (sd_errors s) (sd_queue s)
     | Some (f, tries, acked) \<Rightarrow>
         let done = (\<lambda>errs. send_next src m (inc_seqno (sd_seqno s)) errs (sd_queue s)) in
         if acked then done (sd_errors s)
         else if tries > m then done (sd_errors s + 1)
         else if tries + 1 > m then (case done (sd_errors s + 1) of (s', fs) \<Rightarrow> (s', f # fs))
         else (s\<lparr>sd_busy := Some (f, tries + 1, False)\<rparr>, [f]))"

definition sent_frames :: "bytes list \<Rightarrow> ecp22 \<Rightarrow> ecp22 \<Rightarrow> bool" where
  "sent_frames fs e e' \<longleftrightarrow> ecp_l2 e' = (ecp_l2 e)\<lparr>l2_sent := l2_sent (ecp_l2 e) @ map Some fs\<rparr>
     \<and> ecp_ifname e' = ecp_ifname e \<and> ecp_ptr e' = ecp_ptr e \<and> ecp_rx e' = ecp_rx e \<and> ecp_stats e' = ecp_stats e
     \<and> max_retries e' = max_retries e \<and> max_rte e' = max_rte e"

definition sender_ok :: "ecp22 \<Rightarrow> bool" where
  "sender_ok e \<longleftrightarrow> (case eb_state (ecp_tx e) of
       ECP22_TX_WAIT_ONDATA \<Rightarrow> \<not> eb_ecpdu_received (ecp_tx e) \<and> \<not> eb_ack_received (ecp_tx e) \<and> eb_retries (ecp_tx e) = 0
     | ECP22_TX_TXMIT_ECPDU \<Rightarrow> eb_ecpdu_received (ecp_tx e)
     | _ \<Rightarrow> False)"

abbreviation ack_timers :: "ecp22 \<Rightarrow> 'b list \<Rightarrow> ecp22_event list" where
  "ack_timers e fs \<equiv> replicate (length fs) (ecp22_tx_start_acktimer e)"

lemma sent_frames_trans: "sent_frames fs e e' \<Longrightarrow> sent_frames gs e' e'' \<Longrightarrow> sent_frames (fs @ gs) e e''"
  by (simp add: sent_frames_def)

lemma sent_frames_same:
  assumes "sent_frames fs e e'"
  shows "own_addr c e' = own_addr c e" "ecp_settled c e' = ecp_settled c e" "ecp22_tx_start_acktimer e' = ecp22_tx_start_acktimer e"
    "max_retries e' = max_retries e" "l2_ok (ecp_l2 e') = l2_ok (ecp_l2 e)"
  using assms by (simp_all add: sent_frames_def own_addr_def l2_packet_get_own_src_addr_def ecp_settled_def
    ecp22_tx_start_acktimer_def l2_ok_def split: option.split)

lemma load_sent: "sent_frames [] e (ecp_load c e)" "sent_frames [] e (ecp_tx_update f e)" "sent_frames [] e (ecp_enter c s e)"
  by (simp_all add: sent_frames_def ecp_load_def ecp_enter_def ecp22_putnode_def Let_def split: list.split)

definition ecp_sent :: "ecp22 \<Rightarrow> ecp22" where
  "ecp_sent e = e\<lparr>ecp_tx := (ecp_tx e)\<lparr>eb_retries := eb_retries (ecp_tx e) + 1\<rparr>,
     ecp_l2 := (ecp_l2 e)\<lparr>l2_sent := l2_sent (ecp_l2 e) @ [Some (on_wire (ecp_tx e))]\<rparr>\<rparr>"

lemma es_txmit_sent:
  assumes "ecp_wf e"
  shows "ecp22_es_txmit e = Inr (ecp_sent e, ack_timers e [on_wire (ecp_tx e)])"
    "sent_frames [on_wire (ecp_tx e)] e (ecp_sent e)" "ecp_wf (ecp_sent e)"
  using assms
  by (auto simp: ecp22_es_txmit_def ecp22_txframe_def ecp_sent_def ecp_wf_def l2_packet_send_def read_bytes_def
    Let_def on_wire_def ecp22_tx_start_acktimer_def sent_frames_def l2_ok_def)

lemma tx_loop_step:
  assumes "env_ok (core_env c)" "ecp_settled c e" "ecp22_tx_action e = Inr (e1, xs)" "ecp_wf e1" "sent_frames fs e e1"
  shows "ecp22_tx_loop c e evs = (case ecp_tx_next e1 of None \<Rightarrow> Some (Inr (c, e1, evs @ xs))
     | Some s \<Rightarrow> ecp22_tx_loop c (ecp_enter c s e1) (evs @ xs))"
proof -
  have "ecp_settled c e1" using assms(2) sent_frames_same(2) [OF assms(5), of c] by simp
  then show ?thesis
    using set_tx_state_settled [OF assms(4,1)] assms(3) by (simp add: ecp22_tx_loop.simps [of c e] split: option.split)
qed

text \<open>Back to waiting for a payload, under a new number.\<close>

definition ecp_ready :: "ecp22 \<Rightarrow> ecp22" where
  "ecp_ready e = ecp_tx_update (\<lambda>t. t\<lparr>eb_state := ECP22_TX_WAIT_ONDATA, eb_retries := 0, eb_ack_received := False,
     eb_ecpdu_received := False, eb_seqno := inc_seqno (eb_seqno t)\<rparr>) e"

lemma ecp_wf_ready [simp]: "ecp_wf (ecp_ready e) = ecp_wf e" "ecp_wf (ecp22_es_counterror e) = ecp_wf e"
  "ecp_wf (ecp22_es_waitforreq e) = ecp_wf e" "ecp_wf (ecp22_es_inittransmit e) = ecp_wf e"
  by (simp_all add: ecp_wf_def ecp_ready_def ecp22_es_counterror_def ecp22_es_waitforreq_def ecp22_es_inittransmit_def)

lemma ready_sent: "sent_frames [] e (ecp_ready e)" "sent_frames [] e (ecp22_es_counterror e)"
  "sent_frames [] e (ecp22_es_waitforreq e)" "sent_frames [] e (ecp22_es_inittransmit e)"
  by (simp_all add: load_sent ecp_ready_def ecp22_es_counterror_def ecp22_es_waitforreq_def ecp22_es_inittransmit_def)

lemma ecp_wf_enter: "ecp_wf e \<Longrightarrow> s \<noteq> ECP22_TX_TXMIT_ECPDU \<Longrightarrow> ecp_wf (ecp_enter c s e)"
  by (simp add: ecp_enter_def)

lemma settled_enter [simp]: "ecp_settled c (ecp_enter d s e) = ecp_settled c e" "ecp_settled c (ecp_ready e) = ecp_settled c e"
  "ecp_settled c (ecp22_es_counterror e) = ecp_settled c e" "ecp_settled c (ecp_tx_update f e) = ecp_settled c e"
  by (simp_all add: load_sent(2,3) [THEN sent_frames_same(2)] ready_sent(1,2) [THEN sent_frames_same(2)])

lemma tx_loop_forreq:
  assumes "env_ok (core_env c)" "ecp_settled c e" "ecp_wf e"
  shows "ecp22_tx_loop c (ecp_enter c ECP22_TX_WAIT_FORREQ e) evs = ecp22_tx_loop c (ecp_ready e) evs"
proof -
  let ?e = "ecp_enter c ECP22_TX_WAIT_FORREQ e"
  have "ecp22_tx_action ?e = Inr (ecp22_es_waitforreq ?e, [])" by (simp add: ecp22_tx_action_def ecp_enter_def)
  moreover have "ecp_tx_next (ecp22_es_waitforreq ?e) = Some ECP22_TX_WAIT_ONDATA"
    by (simp add: ecp_tx_next_def ecp_enter_def ecp22_es_waitforreq_def)
  moreover have "ecp_enter c ECP22_TX_WAIT_ONDATA (ecp22_es_waitforreq ?e) = ecp_ready e"
    by (simp add: ecp_ready_def ecp_enter_def ecp22_es_waitforreq_def)
  ultimately show ?thesis
    using tx_loop_step [of c ?e "ecp22_es_waitforreq ?e" "[]" "[]" evs] assms by (simp add: ready_sent ecp_wf_enter)
qed

lemma tx_loop_error:
  assumes "env_ok (core_env c)" "ecp_settled c e" "ecp_wf e"
  shows "ecp22_tx_loop c (ecp_enter c ECP22_TX_ERROR e) evs = ecp22_tx_loop c (ecp_ready (ecp22_es_counterror e)) evs"
proof -
  let ?e = "ecp_enter c ECP22_TX_ERROR e"
  have "ecp22_tx_action ?e = Inr (ecp22_es_counterror ?e, [])" by (simp add: ecp22_tx_action_def ecp_enter_def)
  moreover have "ecp_tx_next (ecp22_es_counterror ?e) = Some ECP22_TX_WAIT_FORREQ"
    by (simp add: ecp_tx_next_def ecp_enter_def ecp22_es_counterror_def)
  ultimately have "ecp22_tx_loop c ?e evs = ecp22_tx_loop c (ecp_enter c ECP22_TX_WAIT_FORREQ (ecp22_es_counterror ?e)) evs"
    using tx_loop_step [of c ?e "ecp22_es_counterror ?e" "[]" "[]" evs] assms by (simp add: ready_sent ecp_wf_enter)
  also have "\<dots> = ecp22_tx_loop c (ecp_ready (ecp22_es_counterror ?e)) evs"
    using assms by (intro tx_loop_forreq) (simp_all add: ecp_wf_enter)
  also have "ecp_ready (ecp22_es_counterror ?e) = ecp_ready (ecp22_es_counterror e)"
    by (simp add: ecp_ready_def ecp_enter_def ecp22_es_counterror_def)
  finally show ?thesis .
qed

lemma tx_loop_txmit:
  assumes "env_ok (core_env c)" "ecp_settled c e" "ecp_wf e" "eb_state (ecp_tx e) = ECP22_TX_TXMIT_ECPDU"
    "\<not> eb_ack_received (ecp_tx e)"
  shows "ecp22_tx_loop c e evs = (let evs' = evs @ [ecp22_tx_start_acktimer e] in
     if eb_retries (ecp_tx e) + 1 > max_retries e then ecp22_tx_loop c (ecp_ready (ecp22_es_counterror (ecp_sent e))) evs'
     else Some (Inr (c, ecp_sent e, evs')))"
proof -
  note tx = es_txmit_sent [OF assms(3)]
  have "ecp22_tx_action e = Inr (ecp_sent e, [ecp22_tx_start_acktimer e])" using assms(4) tx(1) by (simp add: ecp22_tx_action_def)
  from tx_loop_step [OF assms(1,2) this tx(3,2), of evs]
  have "ecp22_tx_loop c e evs = (if eb_retries (ecp_tx e) + 1 > max_retries e
      then ecp22_tx_loop c (ecp_enter c ECP22_TX_ERROR (ecp_sent e)) (evs @ [ecp22_tx_start_acktimer e])
      else Some (Inr (c, ecp_sent e, evs @ [ecp22_tx_start_acktimer e])))"
    using assms(4,5) by (simp add: ecp_tx_next_def ecp_sent_def)
  moreover have "ecp_settled c (ecp_sent e)" using assms(2) by (simp add: sent_frames_same(2) [OF tx(2)])
  ultimately show ?thesis using tx_loop_error [OF assms(1) _ tx(3)] by (simp add: Let_def)
qed

lemma enter_txmit:
  assumes "ecp_wf e" "env_ok (core_env c)" "inuse e = p # ps"
  shows "ecp_wf (ecp_enter c ECP22_TX_TXMIT_ECPDU e)" "inuse (ecp_enter c ECP22_TX_TXMIT_ECPDU e) = ps"
    "on_wire (ecp_tx (ecp_enter c ECP22_TX_TXMIT_ECPDU e))
       = ecp_request (pn_mac p) (own_addr c e) (eb_seqno (ecp_tx e)) (node_bytes p)"
    "eb_state (ecp_tx (ecp_enter c ECP22_TX_TXMIT_ECPDU e)) = ECP22_TX_TXMIT_ECPDU"
    "eb_retries (ecp_tx (ecp_enter c ECP22_TX_TXMIT_ECPDU e)) = eb_retries (ecp_tx e)"
    "eb_ack_received (ecp_tx (ecp_enter c ECP22_TX_TXMIT_ECPDU e)) = eb_ack_received (ecp_tx e)"
    "eb_ecpdu_received (ecp_tx (ecp_enter c ECP22_TX_TXMIT_ECPDU e))"
    "eb_seqno (ecp_tx (ecp_enter c ECP22_TX_TXMIT_ECPDU e)) = eb_seqno (ecp_tx e)"
    "eb_errors (ecp_tx (ecp_enter c ECP22_TX_TXMIT_ECPDU e)) = eb_errors (ecp_tx e)"
proof -
  have wf: "node_wf p" "l2_ok (ecp_l2 e)" using assms(1,3) by (simp_all add: ecp_wf_def)
  note len = node_wf_bytes(1,2) [OF wf(1)] own_addr_length [OF assms(2) wf(2)]
  show "ecp_wf (ecp_enter c ECP22_TX_TXMIT_ECPDU e)"
    using build_ecpdu_load(2) [OF assms(1,2)] assms(3) by (simp add: ecp_enter_def)
  have "unat (of_nat (max (18 + length (node_bytes p)) 60) :: u16) = max (18 + length (node_bytes p)) 60"
    using len(1) by (simp add: unat_of_nat)
  then show "on_wire (ecp_tx (ecp_enter c ECP22_TX_TXMIT_ECPDU e))
      = ecp_request (pn_mac p) (own_addr c e) (eb_seqno (ecp_tx e)) (node_bytes p)"
    using assms(3) len by (simp add: on_wire_def ecp_enter_def ecp_load_def Let_def ecp_request_def max_def del: of_nat_add of_nat_max)
qed (simp_all add: ecp_enter_def ecp_load_def Let_def assms(3))

definition tx_ends :: "'m core \<Rightarrow> ecp22 \<Rightarrow> ecp22_event list \<Rightarrow> ecp_sender \<times> bytes list \<Rightarrow>
    ('m core \<times> ecp22 \<times> ecp22_event list) res option \<Rightarrow> bool" where
  "tx_ends c e evs r res \<longleftrightarrow> (\<exists>e'. res = Some (Inr (c, e', evs @ ack_timers e (snd r)))
     \<and> ecp_wf e' \<and> sender_ok e' \<and> sent_frames (snd r) e e' \<and> sender_of e' = fst r)"

lemma tx_ends_trans:
  assumes "sent_frames fs e e1" "tx_ends c e1 (evs @ ack_timers e fs) r res"
  shows "tx_ends c e evs (fst r, fs @ snd r) res"
  using assms sent_frames_trans [OF assms(1)] by (auto simp: tx_ends_def replicate_add sent_frames_same(3) [OF assms(1)])

lemma tx_ends_quiet: "sent_frames [] e e1 \<Longrightarrow> tx_ends c e1 evs r res \<Longrightarrow> tx_ends c e evs r res"
  using tx_ends_trans [of "[]" e e1 c evs r] by simp

abbreviation queued :: "ecp22 \<Rightarrow> (bytes \<times> bytes) list" where
  "queued e \<equiv> map (\<lambda>n. (pn_mac n, node_bytes n)) (inuse e)"

lemma tx_loop_ondata:
  assumes "env_ok (core_env c)" "ecp_settled c e" "ecp_wf e" "sender_ok e" "eb_state (ecp_tx e) = ECP22_TX_WAIT_ONDATA"
  shows "tx_ends c e evs (send_next (own_addr c e) (max_retries e) (eb_seqno (ecp_tx e)) (eb_errors (ecp_tx e)) (queued e))
     (ecp22_tx_loop c e evs)"
  using assms
proof (induction "inuse e" arbitrary: e evs)
  case Nil
  then have "ecp_tx_next e = None" "ecp22_tx_action e = Inr (e, [])" by (simp_all add: ecp_tx_next_def ecp22_tx_action_def)
  then have "ecp22_tx_loop c e evs = Some (Inr (c, e, evs))"
    using tx_loop_step [of c e e "[]" "[]" evs] Nil by (simp add: sent_frames_def)
  then show ?case using Nil by (simp add: tx_ends_def sent_frames_def sender_of_def)
next
  case (Cons p ps)
  let ?e = "ecp_enter c ECP22_TX_TXMIT_ECPDU e"
  note en = enter_txmit [OF Cons.prems(3,1) Cons.hyps(2) [symmetric]]
  have ok: "\<not> eb_ack_received (ecp_tx e)" "eb_retries (ecp_tx e) = 0" using Cons.prems(4,5) by (simp_all add: sender_ok_def)
  have "ecp_tx_next e = Some ECP22_TX_TXMIT_ECPDU" "ecp22_tx_action e = Inr (e, [])"
    using Cons.prems(5) Cons.hyps(2) [symmetric] by (simp_all add: ecp_tx_next_def ecp22_tx_action_def)
  then have "ecp22_tx_loop c e evs = ecp22_tx_loop c ?e evs"
    using tx_loop_step [of c e e "[]" "[]" evs] Cons.prems by (simp add: sent_frames_def)
  also have loop: "\<dots> = (if max_retries e = 0 then ecp22_tx_loop c (ecp_ready (ecp22_es_counterror (ecp_sent ?e))) (evs @ [ecp22_tx_start_acktimer e])
      else Some (Inr (c, ecp_sent ?e, evs @ [ecp22_tx_start_acktimer e])))"
    using tx_loop_txmit [OF Cons.prems(1) _ en(1,4), of evs] Cons.prems(2) ok en(5,6)
    by (simp add: Let_def word_less_1 load_sent(3) [THEN sent_frames_same(3)] load_sent(3) [THEN sent_frames_same(4)])
  finally have loop: "ecp22_tx_loop c e evs = \<dots>" .
  let ?f = "ecp_request (pn_mac p) (own_addr c e) (eb_seqno (ecp_tx e)) (node_bytes p)"
  have sent: "sent_frames [?f] e (ecp_sent ?e)" "ecp_wf (ecp_sent ?e)"
    using sent_frames_trans [OF load_sent(3) es_txmit_sent(2) [OF en(1)]] es_txmit_sent(3) [OF en(1)] en(3) by simp_all
  show ?case
  proof (cases "max_retries e = 0")
    case True
    let ?e3 = "ecp_ready (ecp22_es_counterror (ecp_sent ?e))"
    have s3: "sent_frames [?f] e ?e3"
      using sent_frames_trans [OF sent(1) sent_frames_trans [OF ready_sent(2,1)]] by simp
    have e3: "ps = inuse ?e3" "sender_ok ?e3" "eb_state (ecp_tx ?e3) = ECP22_TX_WAIT_ONDATA"
      "eb_seqno (ecp_tx ?e3) = inc_seqno (eb_seqno (ecp_tx e))" "eb_errors (ecp_tx ?e3) = eb_errors (ecp_tx e) + 1"
      using en(2,8,9) by (simp_all add: ecp_ready_def ecp22_es_counterror_def ecp_sent_def sender_ok_def)
    have "ecp_settled c ?e3" "ecp_wf ?e3" using Cons.prems(2) sent(2) by (simp_all add: sent_frames_same(2) [OF sent(1)])
    from Cons.hyps(1) [OF e3(1) Cons.prems(1) this e3(2,3), of "evs @ ack_timers e [?f]"]
    have "tx_ends c ?e3 (evs @ ack_timers e [?f]) (send_next (own_addr c e) (max_retries e) (inc_seqno (eb_seqno (ecp_tx e)))
        (eb_errors (ecp_tx e) + 1) (map (\<lambda>n. (pn_mac n, node_bytes n)) ps)) (ecp22_tx_loop c e evs)"
      unfolding e3(1) [symmetric] e3(4,5) sent_frames_same(1,4) [OF s3] using loop True by simp
    from tx_ends_trans [OF s3 this] show ?thesis
      using Cons.hyps(2) [symmetric] True by (simp add: Let_def case_prod_unfold)
  next
    case False
    then show ?thesis using loop sent en ok Cons.hyps(2) [symmetric]
      by (simp add: tx_ends_def Let_def, simp add: sender_of_def ecp_sent_def sender_ok_def on_wire_def)
  qed
qed

lemma ready_sel [simp]:
  "eb_state (ecp_tx (ecp_ready e)) = ECP22_TX_WAIT_ONDATA" "eb_seqno (ecp_tx (ecp_ready e)) = inc_seqno (eb_seqno (ecp_tx e))"
  "eb_errors (ecp_tx (ecp_ready e)) = eb_errors (ecp_tx e)" "inuse (ecp_ready e) = inuse e" "sender_ok (ecp_ready e)"
  "eb_errors (ecp_tx (ecp22_es_counterror e)) = eb_errors (ecp_tx e) + 1" "inuse (ecp22_es_counterror e) = inuse e"
  "eb_seqno (ecp_tx (ecp22_es_counterror e)) = eb_seqno (ecp_tx e)"
  by (simp_all add: ecp_ready_def sender_ok_def ecp22_es_counterror_def)

lemma tx_loop_ready:
  assumes "env_ok (core_env c)" "ecp_settled c e" "ecp_wf e" "sent_frames [] e0 e"
  shows "tx_ends c e0 evs (send_next (own_addr c e0) (max_retries e0) (inc_seqno (eb_seqno (ecp_tx e))) (eb_errors (ecp_tx e)) (queued e))
     (ecp22_tx_loop c (ecp_ready e) evs)"
proof -
  have s: "sent_frames [] e0 (ecp_ready e)" using sent_frames_trans [OF assms(4) ready_sent(1)] by simp
  show ?thesis
    using tx_ends_quiet [OF s tx_loop_ondata [of c "ecp_ready e" evs]] assms(1-3)
    by (simp add: sent_frames_same(1,4) [OF s])
qed

lemma run_sm_settled:
  assumes "env_ok (core_env c)" "ecp_settled c e" "ecp_wf e"
  shows "ecp22_tx_run_sm c e = (case ecp_tx_next e of None \<Rightarrow> ecp22_tx_loop c e [] | Some s \<Rightarrow> ecp22_tx_loop c (ecp_enter c s e) [])"
  using set_tx_state_settled [OF assms(3,1,2)] by (simp add: ecp22_tx_run_sm_def split: option.split)

lemma run_sm_activate:
  assumes "env_ok (core_env c)" "ecp_settled c e" "ecp_wf e" "sender_ok e"
  shows "tx_ends c e [] (sender_activate (own_addr c e) (max_retries e) (sender_of e)) (ecp22_tx_run_sm c e)"
proof (cases "eb_state (ecp_tx e)")
  case ECP22_TX_WAIT_ONDATA
  have "ecp22_tx_action e = Inr (e, [])" using ECP22_TX_WAIT_ONDATA by (simp add: ecp22_tx_action_def)
  then have "ecp22_tx_run_sm c e = ecp22_tx_loop c e []"
    using tx_loop_step [of c e e "[]" "[]" "[]"] assms
    by (simp add: run_sm_settled sent_frames_def ecp_tx_next_def ECP22_TX_WAIT_ONDATA)
  then show ?thesis
    using tx_loop_ondata [OF assms ECP22_TX_WAIT_ONDATA, of "[]"]
    by (simp add: sender_activate_def sender_of_def ECP22_TX_WAIT_ONDATA)
next
  case ECP22_TX_TXMIT_ECPDU
  let ?t = "ecp_tx e" and ?done = "\<lambda>errs. send_next (own_addr c e) (max_retries e) (inc_seqno (eb_seqno (ecp_tx e))) errs (queued e)"
  note run = run_sm_settled [OF assms(1-3)]
  have here: "sent_frames [] e e" by (simp add: sent_frames_def)
  consider (ack) "eb_ack_received ?t" | (over) "\<not> eb_ack_received ?t" "eb_retries ?t > max_retries e"
    | (last) "\<not> eb_ack_received ?t" "\<not> eb_retries ?t > max_retries e" "eb_retries ?t + 1 > max_retries e"
    | (again) "\<not> eb_ack_received ?t" "\<not> eb_retries ?t > max_retries e" "\<not> eb_retries ?t + 1 > max_retries e" by blast
  then show ?thesis
  proof cases
    case ack
    have "ecp22_tx_run_sm c e = ecp22_tx_loop c (ecp_ready e) []"
      using run tx_loop_forreq [OF assms(1-3), of "[]"] ack by (simp add: ecp_tx_next_def ECP22_TX_TXMIT_ECPDU)
    then show ?thesis using tx_loop_ready [OF assms(1-3) here, of "[]"] ack
      by (simp add: sender_activate_def sender_of_def ECP22_TX_TXMIT_ECPDU Let_def)
  next
    case over
    have "ecp22_tx_run_sm c e = ecp22_tx_loop c (ecp_ready (ecp22_es_counterror e)) []"
      using run tx_loop_error [OF assms(1-3), of "[]"] over by (simp add: ecp_tx_next_def ECP22_TX_TXMIT_ECPDU)
    then show ?thesis using tx_loop_ready [OF assms(1) _ _ ready_sent(2), of e "[]"] assms over
      by (simp add: sender_activate_def sender_of_def ECP22_TX_TXMIT_ECPDU Let_def)
  next
    case last
    have "ecp22_tx_run_sm c e = ecp22_tx_loop c (ecp_ready (ecp22_es_counterror (ecp_sent e))) (ack_timers e [on_wire ?t])"
      using run tx_loop_txmit [OF assms(1-3) ECP22_TX_TXMIT_ECPDU, of "[]"] last
      by (simp add: ecp_tx_next_def ECP22_TX_TXMIT_ECPDU Let_def)
    moreover note tx = es_txmit_sent [OF assms(3)]
    moreover have "tx_ends c (ecp_sent e) (ack_timers e [on_wire ?t]) (?done (eb_errors ?t + 1))
        (ecp22_tx_loop c (ecp_ready (ecp22_es_counterror (ecp_sent e))) (ack_timers e [on_wire ?t]))"
      using tx_loop_ready [OF assms(1) _ _ ready_sent(2), of "ecp_sent e" "ack_timers e [on_wire ?t]"] assms(2) tx(3)
      by (simp add: sent_frames_same(1,2,4) [OF tx(2)]) (simp add: ecp_sent_def)
    ultimately show ?thesis using tx_ends_trans [OF tx(2), of c "[]" "?done (eb_errors ?t + 1)"] last
      by (simp add: sender_activate_def sender_of_def ECP22_TX_TXMIT_ECPDU Let_def case_prod_unfold)
  next
    case again
    then show ?thesis
      using run tx_loop_txmit [OF assms(1-3) ECP22_TX_TXMIT_ECPDU, of "[]"] es_txmit_sent(2,3) [OF assms(3)] assms(4)
      by (simp add: ecp_tx_next_def ECP22_TX_TXMIT_ECPDU Let_def sender_activate_def sender_of_def tx_ends_def)
        (simp add: ecp_sent_def sender_ok_def ECP22_TX_TXMIT_ECPDU on_wire_def)
  qed
qed (use assms(4) in \<open>simp_all add: sender_ok_def\<close>)

lemma run_sm_begin:
  assumes "env_ok (core_env c)" "ecp_settled c e" "ecp_wf e" "eb_state (ecp_tx e) = ECP22_TX_BEGIN"
  shows "tx_ends c e [] (send_next (own_addr c e) (max_retries e) 1 0 (queued e)) (ecp22_tx_run_sm c e)"
proof -
  let ?e1 = "ecp_enter c ECP22_TX_INIT e"
  let ?e2 = "ecp22_es_inittransmit ?e1"
  have wf: "ecp_wf ?e1" "ecp_wf ?e2" using assms(3) by (simp_all add: ecp_wf_enter)
  have s2: "sent_frames [] e ?e2" using sent_frames_trans [OF load_sent(3) ready_sent(4)] by simp
  then have st: "ecp_settled c ?e2" using assms(2) by (simp add: sent_frames_same(2))
  have "ecp22_tx_run_sm c e = ecp22_tx_loop c ?e1 []"
    using run_sm_settled [OF assms(1-3)] assms(4) by (simp add: ecp_tx_next_def)
  also have "\<dots> = ecp22_tx_loop c (ecp_enter c ECP22_TX_WAIT_FORREQ ?e2) []"
    using tx_loop_step [of c ?e1 ?e2 "[]" "[]" "[]"] assms wf(2)
    by (simp add: ready_sent) (simp add: ecp22_tx_action_def ecp_tx_next_def ecp_enter_def ecp22_es_inittransmit_def)
  also have "\<dots> = ecp22_tx_loop c (ecp_ready ?e2) []" by (rule tx_loop_forreq [OF assms(1) st wf(2)])
  finally show ?thesis
    using tx_loop_ready [OF assms(1) st wf(2) s2, of "[]"]
    by (simp add: ecp22_es_inittransmit_def ecp_enter_def inc_seqno_def)
qed

text \<open>In any state the port was in: a port that went down starts the sender anew.\<close>

definition sender_run :: "'m core \<Rightarrow> ecp22 \<Rightarrow> ecp_sender \<times> bytes list" where
  "sender_run c e = (let src = own_addr (ecp_seen c e) e in
     if ecp_down c e \<or> eb_state (ecp_tx e) = ECP22_TX_BEGIN then send_next src (max_retries e) 1 0 (queued e)
     else sender_activate src (max_retries e) (sender_of e))"

lemma core_env_seen [simp]: "core_env (ecp_seen c e) = core_env c"
  by (simp add: ecp_seen_def split: option.split)

lemma run_sm_sender:
  assumes "env_ok (core_env c)" "ecp_port c e = Some i" "ecp_wf e" "sender_ok e \<or> eb_state (ecp_tx e) = ECP22_TX_BEGIN"
  shows "tx_ends (ecp_seen c e) e [] (sender_run c e) (ecp22_tx_run_sm c e)"
proof -
  let ?d = "ecp_seen c e" and ?r = "ecp_restart c e"
  have eq: "ecp22_tx_run_sm c e = ecp22_tx_run_sm ?d ?r"
    using set_tx_state_restart [OF assms(2)] by (simp add: ecp22_tx_run_sm_def)
  have st: "ecp_settled ?d ?r" by (rule ecp_seen_settled [OF assms(2)])
  have env: "env_ok (core_env ?d)" "ecp_wf ?r" using assms(1,3) by simp_all
  have s: "sent_frames [] e ?r" by (simp add: load_sent(2)) (simp add: sent_frames_def)
  show ?thesis
  proof (cases "ecp_down c e \<or> eb_state (ecp_tx e) = ECP22_TX_BEGIN")
    case True
    then have "eb_state (ecp_tx ?r) = ECP22_TX_BEGIN" by auto
    from tx_ends_quiet [OF s run_sm_begin [OF env(1) st env(2) this]] True show ?thesis
      unfolding eq sent_frames_same(1,4) [OF s] by (cases "ecp_down c e") (simp_all add: sender_run_def Let_def)
  next
    case False
    then have "sender_ok ?r" using assms(4) by simp
    from tx_ends_quiet [OF s run_sm_activate [OF env(1) st env(2) this]] False show ?thesis
      unfolding eq sent_frames_same(1,4) [OF s] by (simp add: sender_run_def Let_def)
  qed
qed

subsection \<open>The receive machine\<close>

abbreviation rx_word :: "ecp22 \<Rightarrow> nat \<Rightarrow> u16" where
  "rx_word e k \<equiv> be16 (eb_frame (ecp_rx e) ! k) (eb_frame (ecp_rx e) ! Suc k)"

definition ecp_ack :: "bytes \<Rightarrow> bytes \<Rightarrow> u16 \<Rightarrow> u16 \<Rightarrow> bytes" where
  "ecp_ack src proto word n = nearest_customer_bridge @ src @ proto @ be16_bytes (ecp22_hdr_set_op word ECP22_ACK) @ be16_bytes n"

definition rx_up :: "'m core \<Rightarrow> ecp22 \<Rightarrow> bool" where
  "rx_up c e \<longleftrightarrow> (\<exists>i. ecp_port c e = Some i \<and> portEnabled (porthead c ! i))"

definition ecp_rx_next :: "ecp22 \<Rightarrow> ecp22_rx_state option" where
  "ecp_rx_next e = (let r = ecp_rx e in case eb_state r of
       ECP22_RX_BEGIN \<Rightarrow> None
     | ECP22_RX_WAIT \<Rightarrow> if eb_ecpdu_received r then Some ECP22_RX_FIRST else None
     | ECP22_RX_WAIT2 \<Rightarrow> if eb_ecpdu_received r then Some ECP22_RX_REC_ECPDU else None
     | ECP22_RX_FIRST \<Rightarrow> Some ECP22_RX_REC_ECPDU
     | ECP22_RX_REC_ECPDU \<Rightarrow> Some (if eb_seqno r = eb_last_seqno r then ECP22_RX_SEND_ACK else ECP22_RX_NEW_ECPDU)
     | ECP22_RX_NEW_ECPDU \<Rightarrow> Some ECP22_RX_SEND_ACK
     | ECP22_RX_SEND_ACK \<Rightarrow> Some ECP22_RX_WAIT2)"

abbreviation rx_enter :: "ecp22_rx_state \<Rightarrow> ecp22 \<Rightarrow> ecp22" where
  "rx_enter s e \<equiv> ecp_rx_update (\<lambda>r. r\<lparr>eb_state := s\<rparr>) e"

lemma rx_up_upd [simp]: "rx_up c (ecp_rx_update f e) = rx_up c e" "rx_up c (ecp_l2_update g e) = rx_up c e"
  by (simp_all add: rx_up_def)

lemma set_rx_state_up:
  assumes "rx_up c e" "eb_state (ecp_rx e) \<noteq> ECP22_RX_BEGIN"
  shows "ecp22_set_rx_state c e = Inr (case ecp_rx_next e of None \<Rightarrow> (False, e) | Some s \<Rightarrow> (True, rx_enter s e))"
  using assms by (cases "eb_state (ecp_rx e)")
    (auto simp: rx_up_def ecp22_set_rx_state_def ecp22_rx_change_state_def ecp_rx_next_def Let_def)

lemma rx_loop_step:
  assumes "ecp22_rx_action c e = Inr (e1, xs)" "rx_up c e1" "eb_state (ecp_rx e1) \<noteq> ECP22_RX_BEGIN"
  shows "ecp22_rx_loop c e evs = (case ecp_rx_next e1 of None \<Rightarrow> Some (Inr (e1, evs @ xs))
     | Some s \<Rightarrow> ecp22_rx_loop c (rx_enter s e1) (evs @ xs))"
  using assms(1) set_rx_state_up [OF assms(2,3)] by (simp add: ecp22_rx_loop.simps [of c e] split: option.split)

text \<open>The acknowledgement and the way back to waiting.\<close>

definition rx_acked :: "'m core \<Rightarrow> ecp22 \<Rightarrow> ecp22" where
  "rx_acked c e = e\<lparr>ecp_rx := (ecp_rx e)\<lparr>eb_state := ECP22_RX_WAIT2, eb_ecpdu_received := False\<rparr>,
     ecp_l2 := (ecp_l2 e)\<lparr>l2_sent := l2_sent (ecp_l2 e) @ [Some (ecp_ack (own_addr c e)
       (take 2 (drop 12 (eb_frame (ecp_rx e)))) (rx_word e 14) (eb_seqno (ecp_rx e)))]\<rparr>\<rparr>"

lemma rx_loop_send_ack:
  assumes "rx_up c e" "ecp_wf e" "env_ok (core_env c)"
  shows "ecp22_rx_loop c (rx_enter ECP22_RX_SEND_ACK e) evs = Some (Inr (rx_acked c e, evs))"
proof -
  let ?e = "rx_enter ECP22_RX_SEND_ACK e"
  let ?e1 = "ecp_l2_update (\<lambda>_. ecp_l2 (rx_acked c e)) ?e"
  have len: "length (own_addr c e) = 6" "length (eb_frame (ecp_rx e)) = 1514"
    using assms(2) own_addr_length [OF assms(3), of e] by (simp_all add: ecp_wf_def)
  have "ecp22_rx_action c ?e = Inr (?e1, [])"
    using len by (simp add: ecp22_rx_action_def ecp22_es_send_ack_def read_bytes_def read_be16_def ecp22_txframe_def
      l2_packet_send_def own_addr_def rx_acked_def ecp_ack_def nearest_customer_bridge_def Let_def)
  from rx_loop_step [OF this, of evs] have
    "ecp22_rx_loop c ?e evs = ecp22_rx_loop c (rx_enter ECP22_RX_WAIT2 ?e1) evs"
    using assms(1) by (simp add: ecp_rx_next_def Let_def)
  moreover have "ecp22_rx_action c (rx_enter ECP22_RX_WAIT2 ?e1) = Inr (rx_acked c e, [])"
    by (simp add: ecp22_rx_action_def ecp22_es_wait_def rx_acked_def)
  from rx_loop_step [OF this, of evs] have "ecp22_rx_loop c (rx_enter ECP22_RX_WAIT2 ?e1) evs = Some (Inr (rx_acked c e, evs))"
    using assms(1) by (simp add: ecp_rx_next_def Let_def rx_acked_def)
  ultimately show ?thesis by simp
qed

text \<open>The number of the last request passed on, if there was one since the start.\<close>

definition rx_seen :: "ecp22 \<Rightarrow> u16 option" where
  "rx_seen e = (if eb_state (ecp_rx e) = ECP22_RX_WAIT2 then Some (eb_last_seqno (ecp_rx e)) else None)"

definition rx_took :: "'m core \<Rightarrow> ecp22 \<Rightarrow> ecp22" where
  "rx_took c e = rx_acked c (ecp_rx_update (\<lambda>r. r\<lparr>eb_seqno := rx_word e 16, eb_last_seqno := rx_word e 16\<rparr>) e)"

lemma rx_loop_rec:
  assumes "rx_up c e" "ecp_wf e" "env_ok (core_env c)"
  shows "ecp22_rx_loop c (rx_enter ECP22_RX_REC_ECPDU e) evs = Some (Inr (rx_took c e,
     if rx_word e 16 = eb_last_seqno (ecp_rx e) then evs else evs @ ecp22_to_ulp (ecp22_hdr_read_subtype (rx_word e 14)) e))"
proof -
  let ?n = "rx_word e 16"
  let ?e1 = "ecp_rx_update (\<lambda>r. r\<lparr>eb_state := ECP22_RX_REC_ECPDU, eb_seqno := ?n\<rparr>) e"
  let ?e2 = "ecp_rx_update (\<lambda>r. r\<lparr>eb_state := ECP22_RX_NEW_ECPDU, eb_seqno := ?n, eb_last_seqno := ?n\<rparr>) e"
  have len: "length (eb_frame (ecp_rx e)) = 1514" using assms(2) by (simp add: ecp_wf_def)
  have wf: "ecp_wf ?e1" "ecp_wf ?e2" using assms(2) by (simp_all add: ecp_wf_def)
  have act: "ecp22_rx_action c (rx_enter ECP22_RX_REC_ECPDU e) = Inr (?e1, [])"
    using len by (simp add: ecp22_rx_action_def ecp22_es_rec_ecpdu_def read_be16_def)
  show ?thesis
  proof (cases "?n = eb_last_seqno (ecp_rx e)")
    case True
    then have "ecp22_rx_loop c (rx_enter ECP22_RX_REC_ECPDU e) evs = ecp22_rx_loop c (rx_enter ECP22_RX_SEND_ACK ?e1) evs"
      using rx_loop_step [OF act, of evs] assms(1) by (simp add: ecp_rx_next_def Let_def)
    moreover have "rx_acked c ?e1 = rx_took c e" using True by (simp add: rx_took_def rx_acked_def own_addr_def)
    ultimately show ?thesis using rx_loop_send_ack [of c ?e1 evs] assms wf True by simp
  next
    case False
    then have "ecp22_rx_loop c (rx_enter ECP22_RX_REC_ECPDU e) evs = ecp22_rx_loop c (rx_enter ECP22_RX_NEW_ECPDU ?e1) evs"
      using rx_loop_step [OF act, of evs] assms(1) by (simp add: ecp_rx_next_def Let_def)
    moreover have "ecp22_rx_action c (rx_enter ECP22_RX_NEW_ECPDU ?e1)
        = Inr (?e2, ecp22_to_ulp (ecp22_hdr_read_subtype (rx_word e 14)) e)"
      using len by (simp add: ecp22_rx_action_def ecp22_es_new_ecpdu_def read_be16_def ecp22_to_ulp_def Let_def)
    from rx_loop_step [OF this, of evs] have "ecp22_rx_loop c (rx_enter ECP22_RX_NEW_ECPDU ?e1) evs
        = ecp22_rx_loop c (rx_enter ECP22_RX_SEND_ACK ?e2) (evs @ ecp22_to_ulp (ecp22_hdr_read_subtype (rx_word e 14)) e)"
      using assms(1) by (simp add: ecp_rx_next_def Let_def)
    moreover have "rx_acked c ?e2 = rx_took c e" by (simp add: rx_took_def rx_acked_def own_addr_def)
    ultimately show ?thesis using rx_loop_send_ack [of c ?e2] assms wf False by simp
  qed
qed

lemma rx_run_request:
  assumes "rx_up c e" "ecp_wf e" "env_ok (core_env c)" "eb_ecpdu_received (ecp_rx e)"
    "eb_state (ecp_rx e) = ECP22_RX_WAIT \<or> eb_state (ecp_rx e) = ECP22_RX_WAIT2"
  shows "ecp22_rx_run_sm c e = Some (Inr (rx_took c e,
     if rx_seen e = Some (rx_word e 16) then [] else ecp22_to_ulp (ecp22_hdr_read_subtype (rx_word e 14)) e))"
proof (cases "eb_state (ecp_rx e) = ECP22_RX_WAIT2")
  case True
  have "ecp22_rx_run_sm c e = ecp22_rx_loop c (rx_enter ECP22_RX_REC_ECPDU e) []"
    using set_rx_state_up [OF assms(1)] True assms(4) by (simp add: ecp22_rx_run_sm_def ecp_rx_next_def Let_def)
  then show ?thesis using rx_loop_rec [OF assms(1-3), of "[]"] True by (auto simp: rx_seen_def)
next
  case False
  let ?e1 = "ecp_rx_update (\<lambda>r. r\<lparr>eb_state := ECP22_RX_FIRST, eb_last_seqno := rx_word e 16 - 1\<rparr>) e"
  have len: "length (eb_frame (ecp_rx e)) = 1514" and wf: "ecp_wf ?e1" using assms(2) by (simp_all add: ecp_wf_def)
  have "ecp22_rx_run_sm c e = ecp22_rx_loop c (rx_enter ECP22_RX_FIRST e) []"
    using set_rx_state_up [OF assms(1)] False assms(4,5) by (simp add: ecp22_rx_run_sm_def ecp_rx_next_def Let_def)
  moreover have "ecp22_rx_action c (rx_enter ECP22_RX_FIRST e) = Inr (?e1, [])"
    using len by (simp add: ecp22_rx_action_def ecp22_es_first_def read_be16_def)
  from rx_loop_step [OF this, of "[]"] have "ecp22_rx_loop c (rx_enter ECP22_RX_FIRST e) []
      = ecp22_rx_loop c (rx_enter ECP22_RX_REC_ECPDU ?e1) []" using assms(1) by (simp add: ecp_rx_next_def Let_def)
  moreover have "rx_took c ?e1 = rx_took c e" by (simp add: rx_took_def rx_acked_def own_addr_def)
  ultimately show ?thesis using rx_loop_rec [of c ?e1 "[]"] assms(1,3) wf False
    by (simp add: rx_seen_def ecp22_to_ulp_def)
qed

subsection \<open>Frames\<close>

definition rx_got :: "ecp22 \<Rightarrow> bytes \<Rightarrow> ecp22" where
  "rx_got e buf = e\<lparr>ecp_rx := (ecp_rx e)\<lparr>eb_frame := buf @ drop (length buf) (eb_frame (ecp_rx e)),
       eb_frame_len := of_nat (length buf)\<rparr>,
     ecp_stats := (ecp_stats e)\<lparr>statsFramesInTotal := statsFramesInTotal (ecp_stats e) + 1\<rparr>\<rparr>"

definition ecp_header_ok :: "u16 \<Rightarrow> bool" where
  "ecp_header_ok w \<longleftrightarrow> ecp22_hdr_read_version w = 1
     \<and> (ecp22_hdr_read_subtype w = ECP22_PECSP \<or> ecp22_hdr_read_subtype w = ECP22_VDP)"

lemma rx_got_wf: "ecp_wf e \<Longrightarrow> length buf \<le> ETH_FRAME_LEN \<Longrightarrow> ecp_wf (rx_got e buf)"
  by (simp add: ecp_wf_def rx_got_def)

lemma rx_got_port [simp]: "ecp_port c (rx_got e buf) = ecp_port c e" "rx_up c (rx_got e buf) = rx_up c e"
  by (simp_all add: rx_got_def rx_up_def)

lemma receiveframe_cases:
  assumes "ecp_wf e" "ecp_port c e = Some i" "\<not> eb_ecpdu_received (ecp_rx e)" "length buf \<le> ETH_FRAME_LEN"
  shows "ecp22_rx_receiveframe c e buf = (let e1 = rx_got e buf; w = rx_word e1 14 in
     if \<not> ecp_header_ok w then Some (Inr (e1, []))
     else if ecp22_hdr_read_op w = ECP22_REQUEST then ecp22_rx_run_sm c (ecp_rx_update (\<lambda>r. r\<lparr>eb_ecpdu_received := True\<rparr>) e1)
     else if ecp22_hdr_read_op w = ECP22_ACK then Some (Inr (ecp22_recack_frame e1 (rx_word e1 16), []))
     else Some (Inr (e1, [])))"
  using assms by (auto simp: ecp22_rx_receiveframe_def write_bytes_def rx_got_def Let_def read_be16_def ecp_wf_def ecp_header_ok_def)

lemma receiveframe_overflow:
  assumes "ecp_wf e" "ecp_port c e = Some i" "\<not> eb_ecpdu_received (ecp_rx e)" "length buf > ETH_FRAME_LEN"
  shows "ecp22_rx_receiveframe c e buf = Some (Inl Out_Of_Bounds)"
  using assms by (simp add: ecp22_rx_receiveframe_def write_bytes_def ecp_wf_def)

lemma receiveframe_request:
  assumes "ecp_wf e" "env_ok (core_env c)" "rx_up c e" "\<not> eb_ecpdu_received (ecp_rx e)" "length buf \<le> ETH_FRAME_LEN"
    "eb_state (ecp_rx e) = ECP22_RX_WAIT \<or> eb_state (ecp_rx e) = ECP22_RX_WAIT2"
    "ecp_header_ok (rx_word (rx_got e buf) 14)" "ecp22_hdr_read_op (rx_word (rx_got e buf) 14) = ECP22_REQUEST"
  shows "ecp22_rx_receiveframe c e buf = Some (Inr (rx_took c (rx_got e buf),
     if rx_seen e = Some (rx_word (rx_got e buf) 16) then []
     else ecp22_to_ulp (ecp22_hdr_read_subtype (rx_word (rx_got e buf) 14)) (rx_got e buf)))"
proof -
  let ?e = "ecp_rx_update (\<lambda>r. r\<lparr>eb_ecpdu_received := True\<rparr>) (rx_got e buf)"
  obtain i where i: "ecp_port c e = Some i" using assms(3) by (auto simp: rx_up_def)
  have wf: "ecp_wf ?e" using rx_got_wf [OF assms(1,5)] by (simp add: ecp_wf_def)
  have "rx_took c ?e = rx_took c (rx_got e buf)" by (simp add: rx_took_def rx_acked_def own_addr_def)
  moreover have "ecp22_to_ulp u ?e = ecp22_to_ulp u (rx_got e buf)" "rx_seen ?e = rx_seen e" for u
    by (simp_all add: ecp22_to_ulp_def rx_seen_def rx_got_def)
  moreover have "eb_state (ecp_rx ?e) = eb_state (ecp_rx e)" by (simp add: rx_got_def)
  ultimately show ?thesis
    using receiveframe_cases [OF assms(1) i assms(4,5)] rx_run_request [of c ?e] assms wf by (simp add: Let_def)
qed

text \<open>What the payload events carry.\<close>

definition passed_on :: "ecp22_event list \<Rightarrow> bytes list" where
  "passed_on evs = concat (map (\<lambda>ev. case ev of
     Notify_Vdp nm (ECP22_TO_ULP len data) \<Rightarrow> [take (unat len) data] | _ \<Rightarrow> []) evs)"

definition padded :: "bytes \<Rightarrow> bytes" where
  "padded bs = bs @ replicate (42 - length bs) 0"

lemma be16_words: "be16 0x10 1 = 0x1001" "be16 0x14 1 = 0x1401"
  by (simp_all add: be16_def)

lemma request_frame:
  assumes "length mac = 6" "length src = 6" "length bs < ECP22_MAXPAYLOAD_LEN"
  shows "length (ecp_request mac src n bs) \<le> ETH_FRAME_LEN"
    "rx_word (rx_got e (ecp_request mac src n bs)) 14 = 0x1001" "rx_word (rx_got e (ecp_request mac src n bs)) 16 = n"
    "passed_on (ecp22_to_ulp ECP22_VDP (rx_got e (ecp_request mac src n bs))) = [padded bs]"
    "take 2 (drop 12 (ecp_request mac src n bs @ xs)) = be16_bytes ETH_P_ECP22"
proof -
  let ?f = "ecp_request mac src n bs"
  have len: "length ?f = 18 + length (padded bs)" using assms by (simp add: ecp_request_def padded_def)
  show "length ?f \<le> ETH_FRAME_LEN" using assms by (simp add: len padded_def)
  have head: "drop 14 ?f = [0x10, 1, hi8 n, lo8 n] @ padded bs" "drop 18 ?f = padded bs"
    using assms by (simp_all add: ecp_request_def be16_bytes_def padded_def hi8_def lo8_def)
  have "?f ! (14 + k) = ([0x10, 1, hi8 n, lo8 n] @ padded bs) ! k" for k
    using nth_drop [of 14 ?f k] len unfolding head(1) by simp
  from this [of 0] this [of 1] this [of 2] this [of 3]
  have "?f ! 14 = 0x10" "?f ! 15 = 1" "?f ! 16 = hi8 n" "?f ! 17 = lo8 n" by simp_all
  then have "rx_word (rx_got e ?f) 14 = be16 0x10 1" "rx_word (rx_got e ?f) 16 = be16 (hi8 n) (lo8 n)"
    using len by (simp_all add: rx_got_def nth_append)
  then show "rx_word (rx_got e ?f) 14 = 0x1001" "rx_word (rx_got e ?f) 16 = n" by (simp_all add: be16_words)
  have "unat (of_nat (length ?f) - 18 :: u16) = length (padded bs)"
  proof -
    have "(of_nat (length ?f) - 18 :: u16) = of_nat (length (padded bs))" by (simp add: len)
    moreover have "length (padded bs) < 65536" using assms(3) by (simp add: padded_def)
    ultimately show ?thesis by (simp add: unat_of_nat)
  qed
  then show "passed_on (ecp22_to_ulp ECP22_VDP (rx_got e ?f)) = [padded bs]"
    by (simp add: passed_on_def ecp22_to_ulp_def rx_got_def head(2) del: of_nat_add)
  show "take 2 (drop 12 (?f @ xs)) = be16_bytes ETH_P_ECP22" using assms by (simp add: ecp_request_def be16_bytes_def)
qed

lemma ack_frame:
  assumes "length src = 6"
  shows "length (ecp_ack src (be16_bytes p) 0x1001 n) = 18"
    "rx_word (rx_got e (ecp_ack src (be16_bytes p) 0x1001 n)) 14 = 0x1401"
    "rx_word (rx_got e (ecp_ack src (be16_bytes p) 0x1001 n)) 16 = n"
proof -
  let ?f = "ecp_ack src (be16_bytes p) 0x1001 n"
  show len: "length ?f = 18" using assms by (simp add: ecp_ack_def nearest_customer_bridge_def)
  have head: "drop 14 ?f = [0x14, 1, hi8 n, lo8 n]"
    using assms by (simp add: ecp_ack_def nearest_customer_bridge_def be16_bytes_def ecp22_hdr_set_op_def hi8_def lo8_def)
  have "?f ! (14 + k) = [0x14, 1, hi8 n, lo8 n] ! k" for k
    using nth_drop [of 14 ?f k] len unfolding head by simp
  from this [of 0] this [of 1] this [of 2] this [of 3]
  have "?f ! 14 = 0x14" "?f ! 15 = 1" "?f ! 16 = hi8 n" "?f ! 17 = lo8 n" by simp_all
  then have "rx_word (rx_got e ?f) 14 = be16 0x14 1" "rx_word (rx_got e ?f) 16 = be16 (hi8 n) (lo8 n)"
    using len by (simp_all add: rx_got_def nth_append)
  then show "rx_word (rx_got e ?f) 14 = 0x1401" "rx_word (rx_got e ?f) 16 = n" by (simp_all add: be16_words)
qed

lemma ecp_words: "ecp_header_ok 0x1001" "ecp22_hdr_read_op 0x1001 = ECP22_REQUEST" "ecp22_hdr_read_subtype 0x1001 = ECP22_VDP"
  "ecp_header_ok 0x1401" "ecp22_hdr_read_op 0x1401 = ECP22_ACK"
  by (simp_all add: ecp_header_ok_def ecp22_hdr_read_version_def ecp22_hdr_read_subtype_def ecp22_hdr_read_op_def)

end
