(* ===== verification/Ecp22_Module.thy ===== *)
theory Ecp22_Module
  imports Ecp22_Safe
begin

text \<open>
  The entry points of the edge control protocol module: starting and stopping it on an interface,
  its timer, its socket and the notifications of other modules.  Each keeps the state of every
  interface well formed.
\<close>

subsection \<open>One interface\<close>

definition ecp_ok :: "ecp22 \<Rightarrow> bool" where
  "ecp_ok e \<longleftrightarrow> ecp_wf e \<and> (sender_ok e \<or> eb_state (ecp_tx e) = ECP22_TX_BEGIN) \<and> \<not> eb_ecpdu_received (ecp_rx e)
     \<and> eb_state (ecp_rx e) \<in> {ECP22_RX_BEGIN, ECP22_RX_WAIT, ECP22_RX_WAIT2}"

lemma sender_ok_frame [simp]:
  "sender_ok (e\<lparr>inuse := ns\<rparr>) = sender_ok e" "sender_ok (ecp_rx_update f e) = sender_ok e"
  "sender_ok (ecp_stats_update g e) = sender_ok e" "sender_ok (ecp_l2_update h e) = sender_ok e" "sender_ok (ecp22_putnode n e) = sender_ok e"
  "sender_ok (e\<lparr>isfree := ns\<rparr>) = sender_ok e" "sender_ok (e\<lparr>freecnt := k\<rparr>) = sender_ok e"
  "sender_ok (e\<lparr>max_rte := b\<rparr>) = sender_ok e" "sender_ok (e\<lparr>max_retries := b\<rparr>) = sender_ok e"
  by (cases "eb_state (ecp_tx e)"; simp add: sender_ok_def)+

lemma tx_run_ok:
  assumes "env_ok (core_env c)" "ecp_wf e" "sender_ok e \<or> eb_state (ecp_tx e) = ECP22_TX_BEGIN"
  shows "\<exists>c' e' evs. ecp22_tx_run_sm c e = Some (Inr (c', e', evs)) \<and> core_env c' = core_env c \<and> ecp_wf e'
     \<and> (sender_ok e' \<or> eb_state (ecp_tx e') = ECP22_TX_BEGIN) \<and> ecp_rx e' = ecp_rx e \<and> ecp_ptr e' = ecp_ptr e"
proof (cases "ecp_port c e")
  case (Some i)
  then show ?thesis using run_sm_sender [OF assms(1) Some assms(2,3)] by (auto simp: tx_ends_def sent_frames_def)
next
  case None
  then have stay: "ecp22_set_tx_state c e' = Inr (False, c, e')" if "ecp_ifname e' = ecp_ifname e" for e'
    using that by (simp add: ecp22_set_tx_state_def)
  show ?thesis
  proof (cases "eb_state (ecp_tx e) = ECP22_TX_TXMIT_ECPDU")
    case True
    note tx = es_txmit_sent [OF assms(2)]
    have "ecp22_tx_run_sm c e = Some (Inr (c, ecp_sent e, [ecp22_tx_start_acktimer e]))"
      using tx(1) stay [of "ecp_sent e"] stay [of e] tx(2) True
      by (simp add: ecp22_tx_run_sm_def ecp22_tx_loop.simps ecp22_tx_action_def sent_frames_def)
    moreover have "sender_ok (ecp_sent e)" using assms(3) True by (simp add: sender_ok_def ecp_sent_def)
    ultimately show ?thesis using tx(2,3) by (auto simp: sent_frames_def)
  next
    case False
    then have "ecp22_tx_action e = Inr (e, [])" using assms(3) by (auto simp: ecp22_tx_action_def sender_ok_def split: ecp22_tx_state.splits)
    then have "ecp22_tx_run_sm c e = Some (Inr (c, e, []))"
      using stay [of e] by (simp add: ecp22_tx_run_sm_def ecp22_tx_loop.simps)
    then show ?thesis using assms by blast
  qed
qed

lemma rx_run_idle:
  assumes "ecp_port c e = Some i" "\<not> portEnabled (porthead c ! i) \<or> eb_state (ecp_rx e) = ECP22_RX_BEGIN"
  shows "ecp22_rx_run_sm c e = Some (Inr (ecp_rx_update (\<lambda>r. r\<lparr>eb_state := ECP22_RX_WAIT, eb_ecpdu_received := False\<rparr>) e, []))"
proof -
  let ?e1 = "ecp_rx_update (\<lambda>r. r\<lparr>eb_state := ECP22_RX_WAIT\<rparr>) e"
  let ?e2 = "ecp_rx_update (\<lambda>r. r\<lparr>eb_state := ECP22_RX_WAIT, eb_ecpdu_received := False\<rparr>) e"
  have "ecp22_set_rx_state c e = Inr (False, ?e1)"
    using assms by (cases "portEnabled (porthead c ! i)") (auto simp: ecp22_set_rx_state_def ecp22_rx_change_state_def Let_def)
  moreover have "ecp22_rx_action c ?e1 = Inr (?e2, [])" by (simp add: ecp22_rx_action_def ecp22_es_wait_def)
  moreover have "ecp22_set_rx_state c ?e2 = Inr (False, ?e2)"
    using assms by (cases "portEnabled (porthead c ! i)") (auto simp: ecp22_set_rx_state_def ecp22_rx_change_state_def Let_def)
  ultimately show ?thesis by (simp add: ecp22_rx_run_sm_def ecp22_rx_loop.simps)
qed

lemma rx_run_no_port:
  assumes "ecp_port c e = None" "eb_state (ecp_rx e) = ECP22_RX_BEGIN"
  shows "ecp22_rx_run_sm c e = Some (Inr (e, []))"
  using assms by (simp add: ecp22_rx_run_sm_def ecp22_rx_loop.simps ecp22_set_rx_state_def ecp22_rx_action_def)

lemma receiveframe_ok:
  assumes "env_ok (core_env c)" "ecp_ok e" "length buf \<le> ETH_FRAME_LEN"
  shows "\<exists>e' evs. ecp22_rx_receiveframe c e buf = Some (Inr (e', evs)) \<and> ecp_ok e' \<and> ecp_ptr e' = ecp_ptr e"
proof (cases "ecp_port c e")
  case None
  then show ?thesis using assms(2) by (simp add: ecp22_rx_receiveframe_def)
next
  case (Some i)
  let ?e1 = "rx_got e buf" and ?got = "ecp_rx_update (\<lambda>r. r\<lparr>eb_ecpdu_received := True\<rparr>) (rx_got e buf)"
  have wf: "ecp_wf e" "\<not> eb_ecpdu_received (ecp_rx e)" "eb_state (ecp_rx e) \<in> {ECP22_RX_BEGIN, ECP22_RX_WAIT, ECP22_RX_WAIT2}"
    and len: "length (eb_frame (ecp_rx ?e1)) = ETH_FRAME_LEN" "l2_ok (ecp_l2 e)"
    using assms(2,3) by (auto simp: ecp_ok_def ecp_wf_def rx_got_def)
  have e1: "ecp_ok ?e1" "ecp_ok (ecp22_recack_frame ?e1 n)" for n
    using assms(2,3) unfolding rx_got_def ecp22_recack_frame_def ecp_ok_def ecp_wf_def sender_ok_def
    by (auto split: ecp22_tx_state.splits)
  have "\<exists>e' evs. ecp22_rx_run_sm c ?got = Some (Inr (e', evs)) \<and> ecp_ok e' \<and> ecp_ptr e' = ecp_ptr e"
  proof (cases "portEnabled (porthead c ! i) \<and> eb_state (ecp_rx e) \<noteq> ECP22_RX_BEGIN")
    case True
    then have "rx_up c ?got" "eb_ecpdu_received (ecp_rx ?got)" using Some by (simp_all add: rx_up_def)
    moreover have "ecp_wf ?got" using rx_got_wf [OF wf(1) assms(3)] by (simp add: ecp_wf_def)
    moreover have "eb_state (ecp_rx ?got) = ECP22_RX_WAIT \<or> eb_state (ecp_rx ?got) = ECP22_RX_WAIT2"
      using True wf(3) by (simp add: rx_got_def)
    ultimately have "\<exists>evs. ecp22_rx_run_sm c ?got = Some (Inr (rx_took c ?got, evs))"
      using rx_run_request [of c ?got] assms(1) by blast
    moreover have "ecp_ok (rx_took c ?got)"
      using e1(1) len by (simp add: rx_took_def rx_acked_def ecp_ok_def ecp_wf_def l2_ok_def)
    ultimately show ?thesis by (auto simp: rx_took_def rx_acked_def rx_got_def)
  next
    case False
    then have "ecp22_rx_run_sm c ?got = Some (Inr (ecp_rx_update (\<lambda>r. r\<lparr>eb_state := ECP22_RX_WAIT, eb_ecpdu_received := False\<rparr>) ?got, []))"
      using Some by (intro rx_run_idle) (auto simp: rx_got_def)
    then show ?thesis using e1(1) by (auto simp: ecp_ok_def ecp_wf_def rx_got_def)
  qed
  then show ?thesis
    using receiveframe_cases [OF wf(1) Some wf(2) assms(3)] e1
    by (auto simp: Let_def) (auto simp: rx_got_def ecp22_recack_frame_def)
qed

subsection \<open>All interfaces\<close>

definition ecp_world_ok :: "ecp22_world \<Rightarrow> bool" where
  "ecp_world_ok w \<longleftrightarrow> list_all ecp_ok (ecp22_head w) \<and> distinct (map ecp_ptr (ecp22_head w))
     \<and> (\<forall>e \<in> set (ecp22_head w). ecp_ptr e < ecp22_next w)"

lemma put_ecp_ok:
  assumes "ecp_world_ok w" "i < length (ecp22_head w)" "ecp_ok e" "ecp_ptr e = ecp_ptr (ecp22_head w ! i)"
  shows "ecp_world_ok (put_ecp i e evs w)"
proof -
  have "map ecp_ptr ((ecp22_head w)[i := e]) = map ecp_ptr (ecp22_head w)"
    using assms(2,4) by (simp add: map_update list_update_same_conv)
  moreover have "\<forall>x \<in> set ((ecp22_head w)[i := e]). ecp_ok x \<and> ecp_ptr x < ecp22_next w"
    using assms set_update_subset_insert [of "ecp22_head w" i e] by (auto simp: ecp_world_ok_def list_all_iff)
  ultimately show ?thesis using assms(1) by (simp add: ecp_world_ok_def put_ecp_def list_all_iff)
qed

lemma ecp_world_nth: "ecp_world_ok w \<Longrightarrow> i < length (ecp22_head w) \<Longrightarrow> ecp_ok (ecp22_head w ! i)"
  by (simp add: ecp_world_ok_def list_all_length)

lemma ecp_live:
  assumes "ecp_world_ok w" "ptr \<in> set (map ecp_ptr (ecp22_head w))"
  obtains i where "find_index (\<lambda>e. ecp_ptr e = ptr) (ecp22_head w) = Some i" "i < length (ecp22_head w)" "ecp_ok (ecp22_head w ! i)"
proof -
  obtain i where "find_index (\<lambda>e. ecp_ptr e = ptr) (ecp22_head w) = Some i"
    using assms(2) by (cases "find_index (\<lambda>e. ecp_ptr e = ptr) (ecp22_head w)") (auto simp: find_index_None)
  then show thesis using that find_index_Some ecp_world_nth [OF assms(1)] by blast
qed

lemma ack_timeout_ok:
  assumes "env_ok (core_env c)" "ecp_world_ok w" "ptr \<in> set (map ecp_ptr (ecp22_head w))"
  shows "\<exists>c' w'. ecp22_ack_timeout_handler c ptr w = Some (Inr (c', w')) \<and> core_env c' = core_env c \<and> ecp_world_ok w'"
proof -
  obtain i where i: "find_index (\<lambda>e. ecp_ptr e = ptr) (ecp22_head w) = Some i" "i < length (ecp22_head w)" "ecp_ok (ecp22_head w ! i)"
    using ecp_live [OF assms(2,3)] .
  obtain c' e' evs where "ecp22_tx_run_sm c (ecp22_head w ! i) = Some (Inr (c', e', evs))" "core_env c' = core_env c"
      "ecp_ok e'" "ecp_ptr e' = ecp_ptr (ecp22_head w ! i)"
    using tx_run_ok [OF assms(1), of "ecp22_head w ! i"] i(3) unfolding ecp_ok_def by metis
  then show ?thesis using i(1) put_ecp_ok [OF assms(2) i(2)] by (simp add: ecp22_ack_timeout_handler_def)
qed

lemma receive_ok:
  assumes "env_ok (core_env c)" "ecp_world_ok w" "ptr \<in> set (map ecp_ptr (ecp22_head w))" "length buf \<le> ETH_FRAME_LEN"
  shows "\<exists>w'. ecp22_receive c ptr buf w = Some (Inr w') \<and> ecp_world_ok w'"
proof -
  obtain i where i: "find_index (\<lambda>e. ecp_ptr e = ptr) (ecp22_head w) = Some i" "i < length (ecp22_head w)" "ecp_ok (ecp22_head w ! i)"
    using ecp_live [OF assms(2,3)] .
  show ?thesis using receiveframe_ok [OF assms(1) i(3) assms(4)] i(1) put_ecp_ok [OF assms(2) i(2)]
    by (auto simp: ecp22_receive_def)
qed

lemma stop_ok:
  assumes "ecp_world_ok w"
  shows "ecp_world_ok (ecp22_stop name w)"
proof (cases "find_ecpdata name w")
  case (Some i)
  then have "i < length (ecp22_head w)" by (auto simp: find_ecpdata_def dest: find_index_Some)
  from id_take_nth_drop [OF this] obtain xs ys where
    "ecp22_head w = xs @ ecp22_head w ! i # ys" "take i (ecp22_head w) = xs" "drop (Suc i) (ecp22_head w) = ys" by blast
  then obtain e where "ecp22_head w = xs @ e # ys" "take i (ecp22_head w) @ drop (Suc i) (ecp22_head w) = xs @ ys" by blast
  then show ?thesis using assms Some by (auto simp: ecp_world_ok_def ecp22_stop_def)
qed (simp add: ecp22_stop_def assms)

lemma data_from_evb_ok:
  assumes "ecp_world_ok w"
  shows "ecp_world_ok (snd (ecp22_data_from_evb name rte retry w))"
proof (cases "find_ecpdata name w")
  case (Some i)
  then have "i < length (ecp22_head w)" by (auto simp: find_ecpdata_def dest: find_index_Some)
  then show ?thesis using Some put_ecp_ok [OF assms, of i] ecp_world_nth [OF assms, of i]
    by (auto simp: ecp22_data_from_evb_def ecp_ok_def ecp_wf_def)
qed (simp add: ecp22_data_from_evb_def assms)

lemma req2send_ok:
  assumes "env_ok (core_env c)" "ecp_world_ok w" "length mac = ETH_ALEN" "ptlv_tlv du = Some data" "unat (ptlv_size du) \<le> length data"
  shows "\<exists>rc c' w'. ecp22_req2send c name sub mac du w = Some (Inr (rc, c', w')) \<and> core_env c' = core_env c \<and> ecp_world_ok w'
     \<and> (rc = 0 \<longrightarrow> find_ecpdata name w \<noteq> None \<and> unat (ptlv_size du) < ECP22_MAXPAYLOAD_LEN)"
proof -
  let ?ok = "malloc_ok (core_env c)"
  have "\<exists>r. copy_ptlv ?ok du = Inr r \<and> (\<forall>t. r = Some t \<longrightarrow> ptlv_size t = ptlv_size du \<and> ptlv_tlv t = Some (take (unat (ptlv_size du)) data))"
    using assms(4,5) by (simp add: copy_ptlv_def read_bytes_def split: option.split)
  then obtain r where r: "copy_ptlv ?ok du = Inr r"
      "\<And>t. r = Some t \<Longrightarrow> ptlv_size t = ptlv_size du \<and> ptlv_tlv t = Some (take (unat (ptlv_size du)) data)" by blast
  consider (none) "find_ecpdata name w = None" | (nomem) i where "find_ecpdata name w = Some i" "r = None"
    | (big) i t where "find_ecpdata name w = Some i" "r = Some t" "unat (ptlv_size du) \<ge> ECP22_MAXPAYLOAD_LEN"
    | (nonode) i t where "find_ecpdata name w = Some i" "r = Some t" "unat (ptlv_size du) < ECP22_MAXPAYLOAD_LEN"
        "ecp22_getnode ?ok (ecp22_head w ! i) = None"
    | (queued) i t n e where "find_ecpdata name w = Some i" "r = Some t" "ecp22_getnode ?ok (ecp22_head w ! i) = Some (n, e)"
        "unat (ptlv_size du) < ECP22_MAXPAYLOAD_LEN"
    by (metis option.exhaust prod.exhaust not_less)
  then show ?thesis
  proof cases
    case (queued i t n e)
    note f = queued(1-3) and small = queued(4)
    have i: "i < length (ecp22_head w)" using f(1) by (auto simp: find_ecpdata_def dest: find_index_Some)
    let ?e = "ecp22_head w ! i" and ?n = "n\<lparr>pn_ptlv := Some t, pn_subtype := sub, pn_mac := mac\<rparr>"
    have e: "ecp_ok e" "ecp_ptr e = ecp_ptr ?e"
      using f(3) ecp_world_nth [OF assms(2) i]
      by (auto simp: ecp22_getnode_def ecp_ok_def ecp_wf_def split: list.splits if_splits)
    have n: "node_wf ?n" using r(2) [OF f(2)] small assms(3,5) by (simp add: node_wf_def)
    have "\<exists>c' e' evs. ecp22_add_payload c e ?n = Some (Inr (c', e', evs)) \<and> core_env c' = core_env c \<and> ecp_ok e' \<and> ecp_ptr e' = ecp_ptr ?e"
    proof -
      let ?e1 = "e\<lparr>inuse := inuse e @ [?n]\<rparr>"
      have e1: "ecp_ok ?e1" "ecp_ptr ?e1 = ecp_ptr ?e" using e n by (auto simp: ecp_ok_def ecp_wf_def)
      then have "\<exists>c' e' evs. ecp22_tx_run_sm c ?e1 = Some (Inr (c', e', evs)) \<and> core_env c' = core_env c \<and> ecp_ok e' \<and> ecp_ptr e' = ecp_ptr ?e"
        using tx_run_ok [OF assms(1), of ?e1] unfolding ecp_ok_def by metis
      with e1 show ?thesis by (auto simp: ecp22_add_payload_def Let_def)
    qed
    then show ?thesis using r(1) r(2) [OF f(2)] f small put_ecp_ok [OF assms(2) i] by (auto simp: ecp22_req2send_def)
  next
    case (big i t)
    then show ?thesis using r(1) r(2) [OF big(2)] assms(2) by (simp add: ecp22_req2send_def)
  next
    case (nonode i t)
    then show ?thesis using r(1) r(2) [OF nonode(2)] assms(2) by (simp add: ecp22_req2send_def)
  qed (use r(1) assms(2) in \<open>simp_all add: ecp22_req2send_def\<close>)
qed

lemma data_from_vdp_ok:
  assumes "env_ok (core_env c)" "ecp_world_ok w" "unat len \<le> length data"
  shows "\<exists>rc c' w'. data_from_vdp c name len data w = Some (Inr (rc, c', w')) \<and> core_env c' = core_env c \<and> ecp_world_ok w'
     \<and> (rc = 0 \<longrightarrow> find_ecpdata name w \<noteq> None \<and> unat len < ECP22_MAXPAYLOAD_LEN)"
  using req2send_ok [OF assms(1,2), of nearest_customer_bridge "\<lparr>ptlv_size = len, ptlv_tlv = Some data\<rparr>" data name ECP22_VDP] assms(3)
  by (simp add: data_from_vdp_def nearest_customer_bridge_def)

lemma notify_ok:
  assumes "env_ok (core_env c)" "ecp_world_ok w" "\<And>len data. qbg = VDP22_TO_ECP22 len data \<Longrightarrow> unat len \<le> length data"
  shows "\<exists>rc c' w'. ecp22_notify c sender name qbg w = Some (Inr (rc, c', w')) \<and> core_env c' = core_env c \<and> ecp_world_ok w'"
proof (cases qbg)
  case (VDP22_TO_ECP22 len data)
  then show ?thesis using data_from_vdp_ok [OF assms(1,2)] assms(3) assms(2) by (fastforce simp: ecp22_notify_def)
next
  case (EVB22_TO_ECP22 rte retry)
  then show ?thesis using data_from_evb_ok [OF assms(2), of name rte retry] assms(2)
    by (cases "ecp22_data_from_evb name rte retry w") (simp add: ecp22_notify_def)
qed (simp_all add: ecp22_notify_def assms(2))

text \<open>The address of a stopped interface is still held by its timer.\<close>

lemma stop_frees:
  assumes "ecp_world_ok w" "find_ecpdata name w = Some i"
  shows "ecp_ptr (ecp22_head w ! i) \<notin> set (map ecp_ptr (ecp22_head (ecp22_stop name w)))"
proof -
  have i: "i < length (ecp22_head w)" using assms(2) by (auto simp: find_ecpdata_def dest: find_index_Some)
  obtain e xs ys where h: "ecp22_head w = xs @ e # ys" "length xs = i" using id_take_nth_drop [OF i] i by (metis length_take min.absorb2 less_imp_le)
  then have "take i (ecp22_head w) @ drop (Suc i) (ecp22_head w) = xs @ ys" "ecp22_head w ! i = e" by auto
  then show ?thesis using assms h by (auto simp: ecp22_stop_def ecp_world_ok_def)
qed

subsection \<open>Starting\<close>

lemma create_ok:
  assumes "ecp_world_ok w" "ecp22_create en init name w = Some w'" "\<And>nm l. init nm = Some l \<Longrightarrow> l2_ok l"
  shows "ecp_world_ok w'" "ecp22_head w' \<noteq> []" "strn_eq IFNAMSIZ name (ecp_ifname (ecp22_head w' ! 0))"
proof -
  from assms(2) obtain l where l: "init (take IFNAMSIZ name) = Some l" and w': "ecp22_next w' = Suc (ecp22_next w)"
    "ecp22_head w' = \<lparr>ecp_ptr = ecp22_next w, ecp_l2 = l, ecp_ifname = take IFNAMSIZ name,
       ecp_rx = zero_buffer ECP22_RX_BEGIN, ecp_tx = zero_buffer ECP22_TX_BEGIN, ecp_stats = zero_stats,
       inuse = [], isfree = [], freecnt = 0, max_retries = 0, max_rte = 0\<rparr> # ecp22_head w"
    by (auto simp: ecp22_create_def split: option.splits if_splits)
  then show "ecp_world_ok w'" using assms(1) assms(3) [OF l]
    by (fastforce simp: ecp_world_ok_def ecp_ok_def ecp_wf_def zero_buffer_def)
  show "ecp22_head w' \<noteq> []" "strn_eq IFNAMSIZ name (ecp_ifname (ecp22_head w' ! 0))" by (simp_all add: w' strn_eq_def)
qed

lemma start_runs:
  assumes "env_ok (core_env c)" "ecp_ok e"
  shows "\<exists>e1 xs. ecp22_rx_run_sm c (ecp22_reset e) = Some (Inr (e1, xs))
     \<and> (\<exists>c2 e2 ys. ecp22_tx_run_sm c (ecp_tx_update (\<lambda>t. t\<lparr>eb_state := ECP22_TX_BEGIN\<rparr>) e1) = Some (Inr (c2, e2, ys))
        \<and> core_env c2 = core_env c \<and> ecp_ok e2 \<and> ecp_ptr e2 = ecp_ptr e)"
proof -
  let ?e = "ecp22_reset e"
  have e: "ecp_wf ?e" "eb_state (ecp_rx ?e) = ECP22_RX_BEGIN" "\<not> eb_ecpdu_received (ecp_rx ?e)" "ecp_ptr ?e = ecp_ptr e"
    using assms(2) by (simp_all add: ecp22_reset_def ecp_ok_def ecp_wf_def)
  obtain e1 where e1: "ecp22_rx_run_sm c ?e = Some (Inr (e1, []))" "ecp_wf e1" "\<not> eb_ecpdu_received (ecp_rx e1)"
      "eb_state (ecp_rx e1) \<in> {ECP22_RX_BEGIN, ECP22_RX_WAIT}" "ecp_ptr e1 = ecp_ptr e"
  proof (cases "ecp_port c ?e")
    case None
    show thesis using that [OF rx_run_no_port [OF None e(2)]] e by simp
  next
    case (Some i)
    show thesis using that [OF rx_run_idle [OF Some]] e by (simp add: ecp_wf_def)
  qed
  let ?e2 = "ecp_tx_update (\<lambda>t. t\<lparr>eb_state := ECP22_TX_BEGIN\<rparr>) e1"
  have "ecp_wf ?e2" "eb_state (ecp_tx ?e2) = ECP22_TX_BEGIN" "ecp_rx ?e2 = ecp_rx e1" "ecp_ptr ?e2 = ecp_ptr e" using e1 by simp_all
  then have "\<exists>c2 e2 ys. ecp22_tx_run_sm c ?e2 = Some (Inr (c2, e2, ys)) \<and> core_env c2 = core_env c \<and> ecp_ok e2 \<and> ecp_ptr e2 = ecp_ptr e"
    using tx_run_ok [OF assms(1), of ?e2] e1(3,4) unfolding ecp_ok_def by (metis insertE insertI1 insertI2)
  then show ?thesis using e1(1) by blast
qed

lemma start_ok:
  assumes "env_ok (core_env c)" "ecp_world_ok w" "\<And>nm l. init nm = Some l \<Longrightarrow> l2_ok l"
    "find_ecpdata name w = None \<Longrightarrow> ecp22_create (core_env c) init name w \<noteq> None"
  shows "\<exists>c' w'. ecp22_start init c name w = Some (Inr (c', w')) \<and> core_env c' = core_env c \<and> ecp_world_ok w'"
proof -
  obtain i w1 where w1: "(case find_ecpdata name w of Some i \<Rightarrow> Some (i, w)
            | None \<Rightarrow> map_option (Pair 0) (ecp22_create (core_env c) init name w)) = Some (i, w1)"
      "ecp_world_ok w1" "i < length (ecp22_head w1)"
  proof (cases "find_ecpdata name w")
    case None
    then obtain w' where "ecp22_create (core_env c) init name w = Some w'" using assms(4) by blast
    then show thesis using that None create_ok [OF assms(2) _ assms(3), of "core_env c" init name w'] by simp
  next
    case (Some i)
    then show thesis using that assms(2) by (auto simp: find_ecpdata_def dest: find_index_Some)
  qed
  from start_runs [OF assms(1) ecp_world_nth [OF w1(2,3)]] show ?thesis
    using w1(1) put_ecp_ok [OF w1(2,3)] by (auto simp: ecp22_start_def)
qed

lemma start_fails:
  "find_ecpdata name w = None \<Longrightarrow> ecp22_create (core_env c) init name w = None \<Longrightarrow> ecp22_start init c name w = Some (Inl Null_Deref)"
  by (simp add: ecp22_start_def)

subsection \<open>Reachable states\<close>

text \<open>
  Everything that can happen to the module between registration and removal; the ports may change
  from one call to the next.
\<close>

inductive ecp_reach :: "env \<Rightarrow> (string \<Rightarrow> l2_packet_data option) \<Rightarrow> 'm core \<Rightarrow> ecp22_world \<Rightarrow> bool" for en l2i where
  registered: "core_env c = en \<Longrightarrow> ecp22_register en = Some w \<Longrightarrow> ecp_reach en l2i c w"
| ports: "ecp_reach en l2i c w \<Longrightarrow> core_env c' = en \<Longrightarrow> ecp_reach en l2i c' w"
| started: "ecp_reach en l2i c w \<Longrightarrow> ecp22_start l2i c name w = Some (Inr (c', w')) \<Longrightarrow> ecp_reach en l2i c' w'"
| stopped: "ecp_reach en l2i c w \<Longrightarrow> ecp_reach en l2i c (ecp22_stop name w)"
| expired: "ecp_reach en l2i c w \<Longrightarrow> ecp22_ack_timeout_handler c ptr w = Some (Inr (c', w')) \<Longrightarrow> ecp_reach en l2i c' w'"
| received: "ecp_reach en l2i c w \<Longrightarrow> ecp22_receive c ptr buf w = Some (Inr w') \<Longrightarrow> ecp_reach en l2i c w'"
| notified: "ecp_reach en l2i c w \<Longrightarrow> (\<And>len data. qbg = VDP22_TO_ECP22 len data \<Longrightarrow> unat len \<le> length data) \<Longrightarrow>
     ecp22_notify c sender name qbg w = Some (Inr (rc, c', w')) \<Longrightarrow> ecp_reach en l2i c' w'"

lemma receive_long:
  assumes "ecp_world_ok w" "ecp22_receive c ptr buf w = Some (Inr w')" "env_ok (core_env c)"
  shows "ecp_world_ok w'"
proof -
  obtain i where i: "find_index (\<lambda>e. ecp_ptr e = ptr) (ecp22_head w) = Some i"
    using assms(2) by (auto simp: ecp22_receive_def split: option.splits)
  then have lt: "i < length (ecp22_head w)" by (auto dest: find_index_Some)
  obtain e1 evs where e1: "ecp22_rx_receiveframe c (ecp22_head w ! i) buf = Some (Inr (e1, evs))" "w' = put_ecp i e1 evs w"
    using assms(2) i by (auto simp: ecp22_receive_def elim!: bindO_InrE)
  note ok = ecp_world_nth [OF assms(1) lt]
  have "ecp_ok e1 \<and> ecp_ptr e1 = ecp_ptr (ecp22_head w ! i)"
  proof (cases "length buf \<le> ETH_FRAME_LEN")
    case True
    then show ?thesis using receiveframe_ok [OF assms(3) ok True] e1(1) by auto
  next
    case False
    then have "ecp_port c (ecp22_head w ! i) = None"
      using e1(1) ok receiveframe_overflow [of "ecp22_head w ! i" c _ buf] by (cases "ecp_port c (ecp22_head w ! i)") (auto simp: ecp_ok_def)
    then show ?thesis using e1(1) ok by (simp add: ecp22_rx_receiveframe_def)
  qed
  then show ?thesis using put_ecp_ok [OF assms(1) lt] e1(2) by simp
qed

lemma ecp_reach_ok:
  assumes "ecp_reach en l2i c w" "env_ok en" "\<And>nm l. l2i nm = Some l \<Longrightarrow> l2_ok l"
  shows "core_env c = en \<and> ecp_world_ok w"
  using assms(1)
proof (induction rule: ecp_reach.induct)
  case (registered c w)
  then show ?case by (auto simp: ecp22_register_def ecp_world_ok_def split: if_splits)
next
  case (started c w name c' w')
  then have "find_ecpdata name w = None \<Longrightarrow> ecp22_create (core_env c) l2i name w \<noteq> None" using start_fails [of name w c l2i] by auto
  then show ?case using start_ok [of c w l2i name] started assms(2,3) by auto
next
  case (expired c w ptr c' w')
  then have "ptr \<in> set (map ecp_ptr (ecp22_head w))"
    by (auto simp: ecp22_ack_timeout_handler_def split: option.splits dest: find_index_Some)
  then show ?case using ack_timeout_ok [of c w ptr] expired assms(2) by auto
next
  case (received c w ptr buf w')
  then show ?case using receive_long assms(2) by blast
next
  case (notified c w qbg sender name rc c' w')
  then show ?case using notify_ok [of c w qbg sender name] assms(2) by auto
qed (simp_all add: stop_ok)

end
