(* ===== verification/Ecp22_Link.thy ===== *)
theory Ecp22_Link
  imports Ecp22_Module "HOL-Library.Sublist"
begin

text \<open>
  Two stations running the edge control protocol over a link that keeps the order of frames and
  may lose them: what the receiver passes on is a part of what was queued at the sender, in order
  and without repetition.
\<close>

subsection \<open>Lists\<close>

lemma subseq_nth_from:
  "sorted_wrt (<) js \<Longrightarrow> (\<And>j. j \<in> set js \<Longrightarrow> i \<le> j \<and> j < length xs) \<Longrightarrow> subseq (map ((!) xs) js) (drop i xs)"
proof (induction js arbitrary: i)
  case (Cons j js)
  have j: "i \<le> j" "j < length xs" using Cons.prems(2) [of j] by simp_all
  have "subseq (map ((!) xs) js) (drop (Suc j) xs)"
    using Cons by (intro Cons.IH) (auto simp: Suc_le_eq)
  then have "subseq (map ((!) xs) (j # js)) (drop j xs)" using j(2) by (simp add: Cons_nth_drop_Suc [symmetric])
  moreover have "drop i xs = take (j - i) (drop i xs) @ drop j xs" 
    using j(1) append_take_drop_id [of "j - i" "drop i xs"] by simp
  ultimately show ?case by (metis list_emb_append2)
qed simp

lemma subseq_nth:
  "sorted_wrt (<) js \<Longrightarrow> (\<And>j. j \<in> set js \<Longrightarrow> j < length xs) \<Longrightarrow> subseq (map ((!) xs) js) xs"
  using subseq_nth_from [of js 0 xs] by simp

text \<open>A prefix of an ordered list without gaps has none either.\<close>

lemma prefix_no_gap:
  assumes "sorted ks" "set ks = {..<p}" "x \<in> set (take i ks)" "y < x"
  shows "y \<in> set (take i ks)"
proof -
  obtain a where a: "a < i" "a < length ks" "ks ! a = x" using assms(3) by (auto simp: in_set_conv_nth)
  have "y \<in> set ks" using assms(2,4) in_set_takeD [OF assms(3)] by auto
  then obtain b where b: "b < length ks" "ks ! b = y" by (auto simp: in_set_conv_nth)
  have "b < a" using sorted_nth_mono [OF assms(1), of a b] a b assms(4) by (metis leD leI)
  then show ?thesis using a b by (auto simp: in_set_conv_nth intro!: exI [of _ b])
qed

subsection \<open>The frames of a sender\<close>

text \<open>The number the payload \<open>k\<close> is sent under, and its frame.\<close>

primrec seq_at :: "nat \<Rightarrow> u16" where
  "seq_at 0 = 1"
| "seq_at (Suc k) = inc_seqno (seq_at k)"

definition frame_at :: "bytes \<Rightarrow> (bytes \<times> bytes) list \<Rightarrow> nat \<Rightarrow> bytes" where
  "frame_at src xs k = ecp_request (fst (xs ! k)) src (seq_at k) (snd (xs ! k))"

lemma frame_at_snoc [simp]: "k < length xs \<Longrightarrow> frame_at src (xs @ ys) k = frame_at src xs k"
  by (simp add: frame_at_def nth_append)

text \<open>The sender works on payload \<open>cur\<close> of all that were queued.\<close>

definition sender_at :: "bytes \<Rightarrow> (bytes \<times> bytes) list \<Rightarrow> nat \<Rightarrow> ecp_sender \<Rightarrow> bool" where
  "sender_at src xs cur s \<longleftrightarrow> sd_seqno s = seq_at cur \<and> (case sd_busy s of
       None \<Rightarrow> cur \<le> length xs \<and> sd_queue s = drop cur xs
     | Some (f, tries, acked) \<Rightarrow> cur < length xs \<and> f = frame_at src xs cur \<and> sd_queue s = drop (Suc cur) xs)"

definition begun :: "nat \<Rightarrow> ecp_sender \<Rightarrow> nat" where
  "begun cur s = (if sd_busy s = None then cur else Suc cur)"

lemma begun_le: "sender_at src xs cur s \<Longrightarrow> begun cur s \<le> length xs"
  by (auto simp: sender_at_def begun_def split: option.splits)

definition sends_at :: "bytes \<Rightarrow> (bytes \<times> bytes) list \<Rightarrow> nat \<Rightarrow> nat \<Rightarrow> ecp_sender \<times> bytes list \<Rightarrow> bool" where
  "sends_at src xs lo cur r \<longleftrightarrow> (\<exists>cur' ks. sender_at src xs cur' (fst r) \<and> snd r = map (frame_at src xs) ks \<and> sorted ks
     \<and> lo \<le> begun cur' (fst r) \<and> {lo..<begun cur' (fst r)} \<subseteq> set ks \<and> (\<forall>k \<in> set ks. cur \<le> k \<and> k < begun cur' (fst r)))"

lemma sends_at_Suc:
  assumes "sends_at src xs (Suc cur) (Suc cur) r"
  shows "sends_at src xs (Suc cur) cur r" "lo = cur \<or> lo = Suc cur \<Longrightarrow> sends_at src xs lo cur (fst r, frame_at src xs cur # snd r)"
proof -
  obtain cur' ks where r: "sender_at src xs cur' (fst r)" "snd r = map (frame_at src xs) ks" "sorted ks" "Suc cur \<le> begun cur' (fst r)"
    "{Suc cur..<begun cur' (fst r)} \<subseteq> set ks" "\<forall>k \<in> set ks. Suc cur \<le> k \<and> k < begun cur' (fst r)"
    using assms(1) by (auto simp: sends_at_def)
  then show "sends_at src xs (Suc cur) cur r" unfolding sends_at_def by (intro exI [of _ cur'] exI [of _ ks]) auto
  have "{lo..<begun cur' (fst r)} \<subseteq> set (cur # ks)" if "lo = cur \<or> lo = Suc cur" 
  proof -
    have "{lo..<begun cur' (fst r)} \<subseteq> insert cur {Suc cur..<begun cur' (fst r)}" using that by auto
    then show ?thesis using r(5) by auto
  qed
  with r show "sends_at src xs lo cur (fst r, frame_at src xs cur # snd r)" if "lo = cur \<or> lo = Suc cur"
    using that unfolding sends_at_def by (intro exI [of _ cur'] exI [of _ "cur # ks"]) auto
qed

lemma send_next_at:
  "cur \<le> length xs \<Longrightarrow> sends_at src xs cur cur (send_next src m (seq_at cur) errs (drop cur xs))"
proof (induction "length xs - cur" arbitrary: cur errs)
  case 0
  then show ?case by (auto simp: sends_at_def sender_at_def begun_def intro!: exI [of _ cur] exI [of _ "[]"])
next
  case (Suc d)
  then have cur: "cur < length xs" by simp
  then have d: "drop cur xs = xs ! cur # drop (Suc cur) xs" by (simp add: Cons_nth_drop_Suc)
  obtain mac bs where x: "xs ! cur = (mac, bs)" by fastforce
  have f: "ecp_request mac src (seq_at cur) bs = frame_at src xs cur" by (simp add: frame_at_def x)
  show ?case
  proof (cases "m = 0")
    case True
    have "sends_at src xs (Suc cur) (Suc cur) (send_next src m (seq_at (Suc cur)) (errs + 1) (drop (Suc cur) xs))"
      using Suc cur by (intro Suc.hyps(1)) simp_all
    from sends_at_Suc(2) [OF this, of cur]
    show ?thesis by (simp add: d x Let_def True f case_prod_unfold)
  next
    case False
    then show ?thesis using cur
      by (auto simp: d x Let_def f sends_at_def sender_at_def begun_def intro!: exI [of _ cur] exI [of _ "[cur]"])
  qed
qed

lemma activate_at:
  assumes "sender_at src xs cur s"
  shows "sends_at src xs (begun cur s) cur (sender_activate src m s)"
proof (cases "sd_busy s")
  case None
  then show ?thesis using assms send_next_at [of cur xs src m "sd_errors s"] by (simp add: sender_activate_def sender_at_def begun_def)
next
  case (Some b)
  obtain f tries acked where b: "sd_busy s = Some (f, tries, acked)" using Some by (metis prod_cases3)
  have s: "cur < length xs" "f = frame_at src xs cur" "sd_queue s = drop (Suc cur) xs" "sd_seqno s = seq_at cur"
    using assms b by (simp_all add: sender_at_def)
  have "sends_at src xs (Suc cur) (Suc cur) (send_next src m (inc_seqno (seq_at cur)) errs (drop (Suc cur) xs))" for errs
    using send_next_at [of "Suc cur" xs src m errs] s(1) by simp
  note go = sends_at_Suc [OF this]
  have again: "sends_at src xs (Suc cur) cur (s\<lparr>sd_busy := Some (f, tries + 1, False)\<rparr>, [f])"
    using s by (auto simp: sends_at_def sender_at_def begun_def intro!: exI [of _ cur] exI [of _ "[cur]"])
  show ?thesis using again go s by (simp add: sender_activate_def b begun_def Let_def case_prod_unfold)
qed

subsection \<open>The link\<close>

text \<open>
  Station \<open>na\<close> queues payloads, station \<open>nb\<close> receives them.  The frames each has sent are its
  log; the two counters say how many of them have left the link, delivered or lost.
\<close>

record ecp_net =
  na :: ecp22
  nb :: ecp22
  left_a :: nat
  left_b :: nat
  submitted :: "(bytes \<times> bytes) list"
  delivered :: "bytes list"
  lost :: bool

abbreviation sent_log :: "ecp22 \<Rightarrow> bytes option list" where
  "sent_log e \<equiv> l2_sent (ecp_l2 e)"

inductive ecp_step :: "'m core \<Rightarrow> 'm core \<Rightarrow> ecp_net \<Rightarrow> ecp_net \<Rightarrow> bool" for ca cb where
  submit: "node_wf n \<Longrightarrow> ecp22_add_payload ca (na s) n = Some (Inr (ca', a', evs)) \<Longrightarrow>
     ecp_step ca cb s (s\<lparr>na := a', submitted := submitted s @ [(pn_mac n, node_bytes n)]\<rparr>)"
| timeout: "ecp22_tx_run_sm ca (na s) = Some (Inr (ca', a', evs)) \<Longrightarrow> ecp_step ca cb s (s\<lparr>na := a'\<rparr>)"
| request: "left_a s < length (sent_log (na s)) \<Longrightarrow> sent_log (na s) ! left_a s = Some f \<Longrightarrow>
     ecp22_rx_receiveframe cb (nb s) f = Some (Inr (b', evs)) \<Longrightarrow>
     ecp_step ca cb s (s\<lparr>nb := b', left_a := Suc (left_a s), delivered := delivered s @ passed_on evs\<rparr>)"
| acknowledge: "left_b s < length (sent_log (nb s)) \<Longrightarrow> sent_log (nb s) ! left_b s = Some f \<Longrightarrow>
     ecp22_rx_receiveframe ca (na s) f = Some (Inr (a', evs)) \<Longrightarrow>
     ecp_step ca cb s (s\<lparr>na := a', left_b := Suc (left_b s)\<rparr>)"
| lose_request: "left_a s < length (sent_log (na s)) \<Longrightarrow> ecp_step ca cb s (s\<lparr>left_a := Suc (left_a s), lost := True\<rparr>)"
| lose_ack: "left_b s < length (sent_log (nb s)) \<Longrightarrow> ecp_step ca cb s (s\<lparr>left_b := Suc (left_b s)\<rparr>)"

text \<open>Two stations just started, with nothing queued and nothing sent.\<close>

definition ecp_net_start :: "'m core \<Rightarrow> 'm core \<Rightarrow> ecp_net \<Rightarrow> bool" where
  "ecp_net_start ca cb s \<longleftrightarrow> env_ok (core_env ca) \<and> env_ok (core_env cb) \<and> ecp_settled ca (na s) \<and> rx_up cb (nb s)
     \<and> ecp_wf (na s) \<and> ecp_wf (nb s) \<and> sender_ok (na s)
     \<and> eb_state (ecp_tx (na s)) = ECP22_TX_WAIT_ONDATA \<and> eb_seqno (ecp_tx (na s)) = 1 \<and> inuse (na s) = []
     \<and> eb_state (ecp_rx (nb s)) = ECP22_RX_WAIT \<and> \<not> eb_ecpdu_received (ecp_rx (nb s)) \<and> \<not> eb_ecpdu_received (ecp_rx (na s))
     \<and> sent_log (na s) = [] \<and> sent_log (nb s) = [] \<and> left_a s = 0 \<and> left_b s = 0 \<and> submitted s = [] \<and> delivered s = []
     \<and> \<not> lost s"

text \<open>The sending side: every frame in the log is that of some payload, in the order of the payloads.\<close>

definition sender_side :: "'m core \<Rightarrow> bytes \<Rightarrow> nat list \<Rightarrow> ecp_net \<Rightarrow> bool" where
  "sender_side ca src ks s \<longleftrightarrow> ecp_wf (na s) \<and> sender_ok (na s) \<and> ecp_settled ca (na s) \<and> own_addr ca (na s) = src
     \<and> \<not> eb_ecpdu_received (ecp_rx (na s))
     \<and> (\<forall>x \<in> set (submitted s). length (fst x) = 6 \<and> length (snd x) < ECP22_MAXPAYLOAD_LEN)
     \<and> sent_log (na s) = map (Some \<circ> frame_at src (submitted s)) ks \<and> sorted ks
     \<and> (\<exists>cur. sender_at src (submitted s) cur (sender_of (na s)) \<and> set ks = {..<begun cur (sender_of (na s))})"

text \<open>
  The receiving side: the payloads passed on are those of increasing positions \<open>js\<close>; the number
  seen last is that of a frame of the log, and no frame still on the link is of an earlier payload.
\<close>

definition in_order :: "bool \<Rightarrow> nat list \<Rightarrow> nat list \<Rightarrow> u16 option \<Rightarrow> (bytes \<times> bytes) list \<Rightarrow> bytes list \<Rightarrow> bool" where
  "in_order lossy gone pending sn xs ds \<longleftrightarrow> (\<exists>js. ds = map (\<lambda>j. padded (snd (xs ! j))) js \<and> sorted_wrt (<) js
     \<and> (\<forall>j \<in> set js. j < length xs) \<and> (lossy \<or> set js = set gone)
     \<and> (case sn of None \<Rightarrow> js = []
        | Some n \<Rightarrow> \<exists>m \<in> set gone. n = seq_at m \<and> (\<forall>j \<in> set js. j \<le> m) \<and> (\<forall>k \<in> set pending. m \<le> k)))"

definition receiver_side :: "'m core \<Rightarrow> nat list \<Rightarrow> ecp_net \<Rightarrow> bool" where
  "receiver_side cb ks s \<longleftrightarrow> ecp_wf (nb s) \<and> rx_up cb (nb s) \<and> \<not> eb_ecpdu_received (ecp_rx (nb s))
     \<and> (eb_state (ecp_rx (nb s)) = ECP22_RX_WAIT \<or> eb_state (ecp_rx (nb s)) = ECP22_RX_WAIT2)
     \<and> (\<forall>x \<in> set (sent_log (nb s)). \<exists>n. x = Some (ecp_ack (own_addr cb (nb s)) (be16_bytes ETH_P_ECP22) 0x1001 n))
     \<and> left_a s \<le> length ks
     \<and> in_order (lost s) (take (left_a s) ks) (drop (left_a s) ks) (rx_seen (nb s)) (submitted s) (delivered s)"

lemma in_order_more:
  assumes "in_order lossy gone pending sn xs ds" "sorted (gone @ pending')" "set pending \<subseteq> set pending'"
  shows "in_order lossy gone pending' sn (xs @ ys) ds"
proof -
  obtain js where js: "ds = map (\<lambda>j. padded (snd (xs ! j))) js" "sorted_wrt (<) js" "\<forall>j \<in> set js. j < length xs"
    "lossy \<or> set js = set gone"
    and sn: "case sn of None \<Rightarrow> js = []
        | Some n \<Rightarrow> \<exists>m \<in> set gone. n = seq_at m \<and> (\<forall>j \<in> set js. j \<le> m) \<and> (\<forall>k \<in> set pending. m \<le> k)"
    using assms(1) unfolding in_order_def by blast
  have "\<forall>k \<in> set pending'. m \<le> k" if "m \<in> set gone" for m using that assms(2) by (auto simp: sorted_append)
  with sn have "case sn of None \<Rightarrow> js = []
      | Some n \<Rightarrow> \<exists>m \<in> set gone. n = seq_at m \<and> (\<forall>j \<in> set js. j \<le> m) \<and> (\<forall>k \<in> set pending'. m \<le> k)"
    by (fastforce split: option.splits)
  moreover have "ds = map (\<lambda>j. padded (snd ((xs @ ys) ! j))) js" "\<forall>j \<in> set js. j < length (xs @ ys)"
    using js by (auto simp: nth_append)
  ultimately show ?thesis using js(2,4) unfolding in_order_def by blast
qed

lemma in_order_lose:
  assumes "in_order lossy gone (k # pending) sn xs ds"
  shows "in_order True (gone @ [k]) pending sn xs ds"
proof -
  obtain js where js: "ds = map (\<lambda>j. padded (snd (xs ! j))) js" "sorted_wrt (<) js" "\<forall>j \<in> set js. j < length xs"
    and sn: "case sn of None \<Rightarrow> js = []
        | Some n \<Rightarrow> \<exists>m \<in> set gone. n = seq_at m \<and> (\<forall>j \<in> set js. j \<le> m) \<and> (\<forall>k \<in> set (k # pending). m \<le> k)"
    using assms(1) unfolding in_order_def by blast
  from sn have "case sn of None \<Rightarrow> js = []
      | Some n \<Rightarrow> \<exists>m \<in> set (gone @ [k]). n = seq_at m \<and> (\<forall>j \<in> set js. j \<le> m) \<and> (\<forall>k \<in> set pending. m \<le> k)"
    by (cases sn) auto
  then show ?thesis using js unfolding in_order_def by blast
qed

lemma in_order_take:
  assumes "in_order lossy gone (k # pending) sn xs ds" "k < length xs" "sorted (k # pending)" "\<And>y. y < k \<Longrightarrow> y \<in> set gone"
  shows "in_order lossy (gone @ [k]) pending (Some (seq_at k)) xs (if sn = Some (seq_at k) then ds else ds @ [padded (snd (xs ! k))])"
proof -
  obtain js where js: "ds = map (\<lambda>j. padded (snd (xs ! j))) js" "sorted_wrt (<) js" "\<forall>j \<in> set js. j < length xs"
    "lossy \<or> set js = set gone"
    and sn: "case sn of None \<Rightarrow> js = []
        | Some n \<Rightarrow> \<exists>m \<in> set gone. n = seq_at m \<and> (\<forall>j \<in> set js. j \<le> m) \<and> (\<forall>k \<in> set (k # pending). m \<le> k)"
    using assms(1) unfolding in_order_def by blast
  have le: "\<forall>j \<in> set js. j \<le> k" using sn by (fastforce split: option.splits)
  show ?thesis
  proof (cases "sn = Some (seq_at k)")
    case True
    then obtain m where m: "m \<in> set gone" "seq_at k = seq_at m" "\<forall>j \<in> set js. j \<le> m" "m \<le> k" using sn by auto
    have "k \<in> set gone" if "set js = set gone"
    proof (rule ccontr)
      assume "k \<notin> set gone"
      then have "m < k" using m(1,4) by (metis le_neq_implies_less)
      moreover have "k - 1 \<le> m" using m(3) that assms(4) [of "k - 1"] \<open>m < k\<close> by auto
      ultimately have "k = Suc m" by simp
      then show False using m(2) inc_seqno_neq(1) [of "seq_at m"] by simp
    qed
    then have "lossy \<or> set js = set (gone @ [k])" using js(4) by auto
    then show ?thesis using True js(1-3) le assms(3) unfolding in_order_def by (intro exI [of _ js]) auto
  next
    case False
    have "\<forall>j \<in> set js. j < k" using sn False by (force split: option.splits simp: le_less)
    then have "sorted_wrt (<) (js @ [k])" using js(2) by (simp add: sorted_wrt_append)
    moreover have "lossy \<or> set (js @ [k]) = set (gone @ [k])" using js(4) by auto
    ultimately show ?thesis using js(1,3) le assms False unfolding in_order_def by (intro exI [of _ "js @ [k]"]) auto
  qed
qed

definition ecp_net_inv :: "'m core \<Rightarrow> 'm core \<Rightarrow> ecp_net \<Rightarrow> bool" where
  "ecp_net_inv ca cb s \<longleftrightarrow> env_ok (core_env ca) \<and> env_ok (core_env cb)
     \<and> (\<exists>src ks. length src = 6 \<and> sender_side ca src ks s \<and> receiver_side cb ks s)"

lemma start_inv:
  assumes "ecp_net_start ca cb s"
  shows "ecp_net_inv ca cb s"
proof -
  have "length (own_addr ca (na s)) = 6" using assms by (simp add: own_addr_length ecp_net_start_def ecp_wf_def)
  moreover have "sender_side ca (own_addr ca (na s)) [] s"
    using assms by (auto simp: sender_side_def ecp_net_start_def sender_at_def sender_of_def begun_def intro!: exI [of _ 0])
  moreover have "receiver_side cb [] s" using assms by (simp add: receiver_side_def ecp_net_start_def rx_seen_def in_order_def)
  ultimately show ?thesis using assms by (auto simp: ecp_net_inv_def ecp_net_start_def)
qed

lemma sender_side_bound: "sender_side ca src ks s \<Longrightarrow> \<forall>k \<in> set ks. k < length (submitted s)"
  using begun_le unfolding sender_side_def by fastforce

lemma receiver_more_frames:
  assumes "receiver_side cb ks s" "sorted (ks @ ks')" "nb t = nb s" "left_a t = left_a s" "delivered t = delivered s" "lost t = lost s"
    "submitted t = submitted s @ ys"
  shows "receiver_side cb (ks @ ks') t"
proof -
  have le: "left_a s \<le> length ks" using assms(1) by (simp add: receiver_side_def)
  have "sorted (take (left_a s) ks @ drop (left_a s) ks @ ks')" using assms(2) by (metis append_assoc append_take_drop_id)
  then have "in_order (lost s) (take (left_a s) ks) (drop (left_a s) ks @ ks') (rx_seen (nb s)) (submitted s @ ys) (delivered s)"
    using assms(1) by (intro in_order_more) (auto simp: receiver_side_def)
  then show ?thesis using assms le by (simp add: receiver_side_def)
qed

lemma sender_run_side:
  assumes "sender_side ca src ks s" "tx_ends ca e [] (sender_activate src m (sender_of e)) res" "res = Some (Inr (ca', a', evs))"
    "sent_frames [] (na s) e" "sender_at src xs cur (sender_of e)" "set ks = {..<begun cur (sender_of e)}"
    "\<forall>x \<in> set xs. length (fst x) = 6 \<and> length (snd x) < ECP22_MAXPAYLOAD_LEN" "\<exists>ys. xs = submitted s @ ys"
  shows "ca' = ca \<and> (\<exists>ks'. sorted (ks @ ks') \<and> sender_side ca src (ks @ ks') (s\<lparr>na := a', submitted := xs\<rparr>))"
proof -
  let ?r = "sender_activate src m (sender_of e)"
  have a: "ca' = ca" "ecp_wf a'" "sender_ok a'" "sent_frames (snd ?r) e a'" "sender_of a' = fst ?r"
    using assms(2,3) by (auto simp: tx_ends_def)
  have sent: "sent_frames (snd ?r) (na s) a'" using sent_frames_trans [OF assms(4) a(4)] by simp
  obtain cur' ks' where r: "sender_at src xs cur' (fst ?r)" "snd ?r = map (frame_at src xs) ks'" "sorted ks'"
      "begun cur (sender_of e) \<le> begun cur' (fst ?r)" "{begun cur (sender_of e)..<begun cur' (fst ?r)} \<subseteq> set ks'" "\<forall>k \<in> set ks'. cur \<le> k \<and> k < begun cur' (fst ?r)"
    using activate_at [OF assms(5), of m] by (auto simp: sends_at_def)
  have "\<forall>k \<in> set ks. k \<le> cur" using assms(6) by (auto simp: begun_def split: if_splits)
  then have sorted: "sorted (ks @ ks')" using assms(1) r(3,6) by (fastforce simp: sorted_append sender_side_def)
  have bnd: "set (ks @ ks') = {..<begun cur' (fst ?r)}"
  proof -
    have "{..<begun cur' (fst ?r)} = {..<begun cur (sender_of e)} \<union> {begun cur (sender_of e)..<begun cur' (fst ?r)}"
      using r(4) by (simp add: ivl_disj_un)
    then show ?thesis using assms(6) r(4-6) by auto
  qed
  moreover obtain ys where ys: "xs = submitted s @ ys" using assms(8) by blast
  moreover have old: "\<forall>k \<in> set ks. k < length (submitted s)"
    by (rule sender_side_bound [OF assms(1)])
  ultimately have "sent_log a' = map (Some \<circ> frame_at src xs) (ks @ ks')"
    using assms(1) sent r(2) by (auto simp: sent_frames_def sender_side_def)
  moreover have "own_addr ca a' = src" "ecp_settled ca a'" "\<not> eb_ecpdu_received (ecp_rx a')"
    using assms(1) sent_frames_same(1,2) [OF sent, of ca] sent by (simp_all add: sender_side_def sent_frames_def)
  ultimately have "sender_side ca src (ks @ ks') (s\<lparr>na := a', submitted := xs\<rparr>)"
    using a r(1) assms(7) sorted bnd unfolding sender_side_def by auto
  then show ?thesis using a(1) sorted by blast
qed

lemma sender_of_queue: "sender_of (e\<lparr>inuse := inuse e @ [n]\<rparr>) = (sender_of e)\<lparr>sd_queue := sd_queue (sender_of e) @ [(pn_mac n, node_bytes n)]\<rparr>"
  by (simp add: sender_of_def)

lemma sender_at_more: "sender_at src xs cur s \<Longrightarrow> sender_at src (xs @ [x]) cur (s\<lparr>sd_queue := sd_queue s @ [x]\<rparr>)"
  by (auto simp: sender_at_def split: option.splits)

lemma timeout_inv:
  assumes "ecp_net_inv ca cb s" "ecp22_tx_run_sm ca (na s) = Some (Inr (ca', a', evs))"
  shows "ca' = ca" "ecp_net_inv ca cb (s\<lparr>na := a'\<rparr>)"
proof -
  obtain src ks where i: "env_ok (core_env ca)" "env_ok (core_env cb)" "length src = 6" "sender_side ca src ks s" "receiver_side cb ks s"
    using assms(1) by (auto simp: ecp_net_inv_def)
  then obtain cur where cur: "sender_at src (submitted s) cur (sender_of (na s))" "set ks = {..<begun cur (sender_of (na s))}"
    and own: "own_addr ca (na s) = src" and len: "\<forall>x \<in> set (submitted s). length (fst x) = 6 \<and> length (snd x) < ECP22_MAXPAYLOAD_LEN"
    by (auto simp: sender_side_def)
  have ends: "tx_ends ca (na s) [] (sender_activate src (max_retries (na s)) (sender_of (na s))) (ecp22_tx_run_sm ca (na s))"
    using run_sm_activate [of ca "na s"] i(1,4) own by (simp add: sender_side_def)
  have here: "sent_frames [] (na s) (na s)" by (simp add: sent_frames_def)
  from sender_run_side [OF i(4) ends assms(2) here cur len] obtain ks' where
    r: "ca' = ca" "sorted (ks @ ks')" "sender_side ca src (ks @ ks') (s\<lparr>na := a', submitted := submitted s\<rparr>)" by auto
  show "ca' = ca" by (rule r(1))
  have "receiver_side cb (ks @ ks') (s\<lparr>na := a'\<rparr>)" by (rule receiver_more_frames [OF i(5) r(2)]) simp_all
  then show "ecp_net_inv ca cb (s\<lparr>na := a'\<rparr>)" using r(3) i(1-3) by (auto simp: ecp_net_inv_def)
qed

lemma submit_inv:
  assumes "ecp_net_inv ca cb s" "node_wf n" "ecp22_add_payload ca (na s) n = Some (Inr (ca', a', evs))"
  shows "ca' = ca" "ecp_net_inv ca cb (s\<lparr>na := a', submitted := submitted s @ [(pn_mac n, node_bytes n)]\<rparr>)"
proof -
  let ?e = "(na s)\<lparr>inuse := inuse (na s) @ [n]\<rparr>" and ?xs = "submitted s @ [(pn_mac n, node_bytes n)]"
  obtain src ks where i: "env_ok (core_env ca)" "env_ok (core_env cb)" "length src = 6" "sender_side ca src ks s" "receiver_side cb ks s"
    using assms(1) by (auto simp: ecp_net_inv_def)
  then obtain cur where cur: "sender_at src (submitted s) cur (sender_of (na s))" "set ks = {..<begun cur (sender_of (na s))}"
    and own: "own_addr ca (na s) = src" and len: "\<forall>x \<in> set (submitted s). length (fst x) = 6 \<and> length (snd x) < ECP22_MAXPAYLOAD_LEN"
    by (auto simp: sender_side_def)
  have cur': "sender_at src ?xs cur (sender_of ?e)" "set ks = {..<begun cur (sender_of ?e)}"
    using sender_at_more [OF cur(1)] cur(2) by (simp_all add: sender_of_queue begun_def)
  have len': "\<forall>x \<in> set ?xs. length (fst x) = 6 \<and> length (snd x) < ECP22_MAXPAYLOAD_LEN"
    using len node_wf_bytes(1,2) [OF assms(2)] by simp
  have here: "sent_frames [] (na s) ?e" by (simp add: sent_frames_def)
  have e: "ecp_wf ?e" "sender_ok ?e" "ecp_settled ca ?e" "own_addr ca ?e = src"
    using i(4) assms(2) by (simp_all add: sender_side_def ecp_wf_def sent_frames_same(1,2) [OF here])
  have "ca' = ca \<and> (\<exists>ks'. sorted (ks @ ks') \<and> sender_side ca src (ks @ ks') (s\<lparr>na := a', submitted := ?xs\<rparr>))"
  proof (cases "eb_ecpdu_received (ecp_tx (na s))")
    case True
    then have "ca' = ca" "a' = ?e" using assms(3) by (simp_all add: ecp22_add_payload_def Let_def)
    moreover have "\<forall>k \<in> set ks. k < length (submitted s)" by (rule sender_side_bound [OF i(4)])
    then have "sender_side ca src ks (s\<lparr>na := ?e, submitted := ?xs\<rparr>)"
      using i(4) e cur' len' unfolding sender_side_def by auto
    ultimately show ?thesis using i(4) by (intro conjI exI [of _ "[]"]) (simp_all add: sender_side_def)
  next
    case False
    then have "ecp22_tx_run_sm ca ?e = Some (Inr (ca', a', evs))" using assms(3) by (simp add: ecp22_add_payload_def Let_def)
    moreover have "tx_ends ca ?e [] (sender_activate src (max_retries ?e) (sender_of ?e)) (ecp22_tx_run_sm ca ?e)"
      using run_sm_activate [of ca ?e] i(1) e by simp
    ultimately show ?thesis using sender_run_side [OF i(4) _ _ here cur' len'] by blast
  qed
  then obtain ks' where r: "ca' = ca" "sorted (ks @ ks')" "sender_side ca src (ks @ ks') (s\<lparr>na := a', submitted := ?xs\<rparr>)" by auto
  show "ca' = ca" by (rule r(1))
  have "receiver_side cb (ks @ ks') (s\<lparr>na := a', submitted := ?xs\<rparr>)" by (rule receiver_more_frames [OF i(5) r(2)]) simp_all
  then show "ecp_net_inv ca cb (s\<lparr>na := a', submitted := ?xs\<rparr>)" using r(3) i(1-3) by (auto simp: ecp_net_inv_def)
qed

lemma request_inv:
  assumes "ecp_net_inv ca cb s" "left_a s < length (sent_log (na s))" "sent_log (na s) ! left_a s = Some f"
    "ecp22_rx_receiveframe cb (nb s) f = Some (Inr (b', evs))"
  shows "ecp_net_inv ca cb (s\<lparr>nb := b', left_a := Suc (left_a s), delivered := delivered s @ passed_on evs\<rparr>)"
proof -
  let ?b = "nb s" and ?xs = "submitted s"
  obtain src ks where i: "env_ok (core_env ca)" "env_ok (core_env cb)" "length src = 6" "sender_side ca src ks s" "receiver_side cb ks s"
    using assms(1) by (auto simp: ecp_net_inv_def)
  then have b: "ecp_wf ?b" "rx_up cb ?b" "\<not> eb_ecpdu_received (ecp_rx ?b)"
      "eb_state (ecp_rx ?b) = ECP22_RX_WAIT \<or> eb_state (ecp_rx ?b) = ECP22_RX_WAIT2"
    and acks: "\<forall>x \<in> set (sent_log ?b). \<exists>n. x = Some (ecp_ack (own_addr cb ?b) (be16_bytes ETH_P_ECP22) 0x1001 n)"
    and ord: "in_order (lost s) (take (left_a s) ks) (drop (left_a s) ks) (rx_seen ?b) ?xs (delivered s)"
    by (simp_all add: receiver_side_def)
  let ?k = "ks ! left_a s"
  have log: "sent_log (na s) = map (Some \<circ> frame_at src ?xs) ks" "sorted ks" using i(4) by (simp_all add: sender_side_def)
  then have k: "left_a s < length ks" "f = frame_at src ?xs ?k" "?k \<in> set ks" using assms(2,3) by simp_all
  have kx: "?k < length ?xs"
    using sender_side_bound [OF i(4)] k(3) by simp
  then have len: "length (fst (?xs ! ?k)) = 6" "length (snd (?xs ! ?k)) < ECP22_MAXPAYLOAD_LEN"
    using i(4) by (simp_all add: sender_side_def)
  let ?e = "rx_got ?b f"
  note fr = request_frame [OF len(1) i(3) len(2), where n = "seq_at ?k"]
  have f: "length f \<le> ETH_FRAME_LEN" "rx_word ?e 14 = 0x1001" "rx_word ?e 16 = seq_at ?k"
    "passed_on (ecp22_to_ulp ECP22_VDP ?e) = [padded (snd (?xs ! ?k))]"
    using fr(1-4) k(2) by (simp_all add: frame_at_def)
  have r: "b' = rx_took cb ?e" "evs = (if rx_seen ?b = Some (seq_at ?k) then [] else ecp22_to_ulp ECP22_VDP ?e)"
    using assms(4) receiveframe_request [OF b(1) i(2) b(2,3) f(1) b(4)] f by (simp_all add: ecp_words)
  have fe: "eb_frame (ecp_rx ?e) = f @ drop (length f) (eb_frame (ecp_rx ?b))" by (simp add: rx_got_def)
  have proto: "take 2 (drop 12 (eb_frame (ecp_rx ?e))) = be16_bytes ETH_P_ECP22"
    unfolding fe using fr(5) k(2) by (simp only: frame_at_def)
  have own: "own_addr cb (ecp_rx_update g ?e) = own_addr cb ?b" "own_addr cb b' = own_addr cb ?b" for g
    by (simp_all add: own_addr_def rx_got_def r(1) rx_took_def rx_acked_def l2_packet_get_own_src_addr_def split: option.split)
  have log': "sent_log b' = sent_log ?b @ [Some (ecp_ack (own_addr cb ?b) (be16_bytes ETH_P_ECP22) 0x1001 (seq_at ?k))]"
    using proto f own(1) by (simp add: r(1) rx_took_def rx_acked_def) (simp add: rx_got_def)
  have b': "ecp_wf b'" "rx_up cb b'" "\<not> eb_ecpdu_received (ecp_rx b')" "eb_state (ecp_rx b') = ECP22_RX_WAIT2" "rx_seen b' = Some (seq_at ?k)"
    using rx_got_wf [OF b(1) f(1)] b(2) f(3)
    by (simp_all add: r(1) rx_took_def rx_acked_def rx_seen_def ecp_wf_def l2_ok_def rx_up_def)
  have drop: "drop (left_a s) ks = ?k # drop (Suc (left_a s)) ks" using k(1) by (simp add: Cons_nth_drop_Suc)
  have tk: "take (Suc (left_a s)) ks = take (left_a s) ks @ [?k]" using k(1) by (simp add: take_Suc_conv_app_nth)
  have srt: "sorted (?k # drop (Suc (left_a s)) ks)" using log(2) drop by (metis sorted_wrt_drop)
  obtain p where p: "set ks = {..<p}" using i(4) by (auto simp: sender_side_def)
  have "y \<in> set (take (left_a s) ks)" if "y < ?k" for y
    using prefix_no_gap [OF log(2) p, of ?k "Suc (left_a s)" y] that by (simp add: tk)
  from in_order_take [OF ord [unfolded drop] kx srt this]
  have "in_order (lost s) (take (Suc (left_a s)) ks) (drop (Suc (left_a s)) ks) (rx_seen b') ?xs (delivered s @ passed_on evs)"
    using b'(5) r(2) f(4) by (simp add: passed_on_def tk split: if_splits)
  then have "receiver_side cb ks (s\<lparr>nb := b', left_a := Suc (left_a s), delivered := delivered s @ passed_on evs\<rparr>)"
    using b' acks log' own(2) k(1) by (auto simp: receiver_side_def)
  then show ?thesis using i(1-4) unfolding ecp_net_inv_def sender_side_def by auto
qed

lemma recack_side:
  assumes "sender_side ca src ks s" "length f \<le> ETH_FRAME_LEN"
  shows "sender_side ca src ks (s\<lparr>na := ecp22_recack_frame (rx_got (na s) f) n\<rparr>)"
proof -
  let ?a = "ecp22_recack_frame (rx_got (na s) f) n"
  have a: "ecp_wf (na s)" "sender_ok (na s)" using assms(1) by (simp_all add: sender_side_def)
  have wf: "ecp_wf ?a" using rx_got_wf [OF a(1) assms(2)] by (simp add: ecp22_recack_frame_def ecp_wf_def)
  have ok: "sender_ok ?a"
    using a(2) by (cases "eb_state (ecp_tx (na s))") (auto simp: sender_ok_def ecp22_recack_frame_def rx_got_def)
  have same: "own_addr ca ?a = own_addr ca (na s)" "ecp_settled ca ?a = ecp_settled ca (na s)" "sent_log ?a = sent_log (na s)"
      "eb_ecpdu_received (ecp_rx ?a) = eb_ecpdu_received (ecp_rx (na s))"
    by (simp_all add: ecp22_recack_frame_def rx_got_def own_addr_def ecp_settled_def)
  have sd: "sd_seqno (sender_of ?a) = sd_seqno (sender_of (na s))" "sd_queue (sender_of ?a) = sd_queue (sender_of (na s))"
      "map_option fst (sd_busy (sender_of ?a)) = map_option fst (sd_busy (sender_of (na s)))"
    by (simp_all add: ecp22_recack_frame_def rx_got_def sender_of_def on_wire_def)
  then have "sender_at src xs cur (sender_of ?a) = sender_at src xs cur (sender_of (na s))"
      "begun cur (sender_of ?a) = begun cur (sender_of (na s))" for xs cur
    by (cases "sd_busy (sender_of (na s))"; auto simp: sender_at_def begun_def split: option.splits)+
  then show ?thesis using assms(1) wf ok same unfolding sender_side_def by simp
qed

lemma acknowledge_inv:
  assumes "ecp_net_inv ca cb s" "left_b s < length (sent_log (nb s))" "sent_log (nb s) ! left_b s = Some f"
    "ecp22_rx_receiveframe ca (na s) f = Some (Inr (a', evs))"
  shows "ecp_net_inv ca cb (s\<lparr>na := a', left_b := Suc (left_b s)\<rparr>)"
proof -
  obtain src ks where i: "env_ok (core_env ca)" "env_ok (core_env cb)" "length src = 6" "sender_side ca src ks s" "receiver_side cb ks s"
    using assms(1) by (auto simp: ecp_net_inv_def)
  obtain n where "f = ecp_ack (own_addr cb (nb s)) (be16_bytes ETH_P_ECP22) 0x1001 n"
    using i(5) assms(2,3) nth_mem [OF assms(2)] by (fastforce simp: receiver_side_def)
  moreover have "length (own_addr cb (nb s)) = 6" using i(2,5) by (simp add: own_addr_length receiver_side_def ecp_wf_def)
  ultimately have f: "length f = 18" "rx_word (rx_got (na s) f) 14 = 0x1401" "rx_word (rx_got (na s) f) 16 = n"
    using ack_frame by simp_all
  obtain k where "ecp_port ca (na s) = Some k" using i(4) by (auto simp: sender_side_def ecp_settled_def)
  then have "a' = ecp22_recack_frame (rx_got (na s) f) n"
    using receiveframe_cases [of "na s" ca k f] i(4) assms(4) f by (simp add: sender_side_def ecp_words Let_def)
  then have "sender_side ca src ks (s\<lparr>na := a'\<rparr>)" using recack_side [OF i(4)] f(1) by simp
  then have "sender_side ca src ks (s\<lparr>na := a', left_b := Suc (left_b s)\<rparr>)" by (simp add: sender_side_def)
  moreover have "receiver_side cb ks (s\<lparr>na := a', left_b := Suc (left_b s)\<rparr>)" using i(5) by (simp add: receiver_side_def)
  ultimately show ?thesis using i(1-3) unfolding ecp_net_inv_def by auto
qed

lemma lose_request_inv:
  assumes "ecp_net_inv ca cb s" "left_a s < length (sent_log (na s))"
  shows "ecp_net_inv ca cb (s\<lparr>left_a := Suc (left_a s), lost := True\<rparr>)"
proof -
  obtain src ks where i: "env_ok (core_env ca)" "env_ok (core_env cb)" "length src = 6" "sender_side ca src ks s" "receiver_side cb ks s"
    using assms(1) by (auto simp: ecp_net_inv_def)
  have "length ks = length (sent_log (na s))" using i(4) by (simp add: sender_side_def)
  then have k: "left_a s < length ks" using assms(2) by simp
  then have "drop (left_a s) ks = ks ! left_a s # drop (Suc (left_a s)) ks" "take (Suc (left_a s)) ks = take (left_a s) ks @ [ks ! left_a s]"
    by (simp_all add: Cons_nth_drop_Suc take_Suc_conv_app_nth)
  then have "receiver_side cb ks (s\<lparr>left_a := Suc (left_a s), lost := True\<rparr>)"
    using i(5) k by (auto simp: receiver_side_def intro: in_order_lose)
  then show ?thesis using i(1-4) unfolding ecp_net_inv_def sender_side_def by auto
qed

lemma ecp_step_inv: "ecp_step ca cb s t \<Longrightarrow> ecp_net_inv ca cb s \<Longrightarrow> ecp_net_inv ca cb t"
proof (induction rule: ecp_step.induct)
  case (lose_ack s)
  then show ?case unfolding ecp_net_inv_def sender_side_def receiver_side_def by auto
qed (simp_all add: submit_inv timeout_inv request_inv acknowledge_inv lose_request_inv)

lemma ecp_run_inv: "(ecp_step ca cb)\<^sup>*\<^sup>* s t \<Longrightarrow> ecp_net_inv ca cb s \<Longrightarrow> ecp_net_inv ca cb t"
  by (induction rule: rtranclp_induct) (simp_all add: ecp_step_inv)

lemma ecp_inv_in_order:
  assumes "ecp_net_inv ca cb s"
  shows "subseq (delivered s) (map (padded \<circ> snd) (submitted s))"
proof -
  obtain js where "delivered s = map (\<lambda>j. padded (snd (submitted s ! j))) js" "sorted_wrt (<) js" "\<forall>j \<in> set js. j < length (submitted s)"
    using assms by (auto simp: ecp_net_inv_def receiver_side_def in_order_def)
  moreover then have "delivered s = map ((!) (map (padded \<circ> snd) (submitted s))) js" by simp
  ultimately show ?thesis using subseq_nth [of js "map (padded \<circ> snd) (submitted s)"] by simp
qed

text \<open>Where nothing was lost and nothing is under way, everything taken from the queue has arrived.\<close>

lemma begun_queue: "sender_at src xs cur s \<Longrightarrow> begun cur s = length xs - length (sd_queue s)"
  by (auto simp: sender_at_def begun_def split: option.splits)

lemma ecp_inv_complete:
  assumes "ecp_net_inv ca cb s" "\<not> lost s" "left_a s = length (sent_log (na s))"
  shows "delivered s = map (padded \<circ> snd) (take (length (submitted s) - length (inuse (na s))) (submitted s))"
proof -
  obtain src ks where i: "sender_side ca src ks s" "receiver_side cb ks s" using assms(1) by (auto simp: ecp_net_inv_def)
  have all: "take (left_a s) ks = ks" using i(1) assms(3) by (simp add: sender_side_def)
  obtain js where js: "delivered s = map (\<lambda>j. padded (snd (submitted s ! j))) js" "sorted_wrt (<) js" "set js = set ks"
    using i(2) assms(2) all by (auto simp: receiver_side_def in_order_def)
  obtain cur where cur: "sender_at src (submitted s) cur (sender_of (na s))" "set ks = {..<begun cur (sender_of (na s))}"
    using i(1) by (auto simp: sender_side_def)
  let ?n = "length (submitted s) - length (inuse (na s))"
  have "begun cur (sender_of (na s)) = ?n" using begun_queue [OF cur(1)] by (simp add: sender_of_def)
  then have "set js = set [0..<?n]" unfolding js(3) cur(2) by (simp add: atLeast0LessThan)
  then have "js = [0..<?n]" using js(2) by (intro sorted_distinct_set_unique) (auto simp: strict_sorted_iff)
  then show ?thesis using js(1) by (simp add: list_eq_iff_nth_eq)
qed

text \<open>No step fails: the sender can always be activated, and every frame on the link is processed.\<close>

lemma ecp_inv_progress:
  assumes "ecp_net_inv ca cb s"
  shows "\<exists>a' evs. ecp22_tx_run_sm ca (na s) = Some (Inr (ca, a', evs))"
    "left_a s < length (sent_log (na s)) \<Longrightarrow> \<exists>f b' evs. sent_log (na s) ! left_a s = Some f \<and> ecp22_rx_receiveframe cb (nb s) f = Some (Inr (b', evs))"
proof -
  obtain src ks where i: "env_ok (core_env ca)" "env_ok (core_env cb)" "length src = 6" "sender_side ca src ks s" "receiver_side cb ks s"
    using assms(1) by (auto simp: ecp_net_inv_def)
  show "\<exists>a' evs. ecp22_tx_run_sm ca (na s) = Some (Inr (ca, a', evs))"
    using run_sm_activate [of ca "na s"] i(1,4) by (auto simp: sender_side_def tx_ends_def)
  assume left: "left_a s < length (sent_log (na s))"
  let ?k = "ks ! left_a s" and ?xs = "submitted s"
  have log: "sent_log (na s) = map (Some \<circ> frame_at src ?xs) ks" using i(4) by (simp add: sender_side_def)
  then have k: "left_a s < length ks" using left by simp
  then have "?k < length ?xs" using sender_side_bound [OF i(4)] by simp
  then have len: "length (fst (?xs ! ?k)) = 6" "length (snd (?xs ! ?k)) < ECP22_MAXPAYLOAD_LEN"
    using i(4) by (simp_all add: sender_side_def)
  note fr = request_frame [OF len(1) i(3) len(2), where n = "seq_at ?k"]
  have "\<exists>b' evs. ecp22_rx_receiveframe cb (nb s) (frame_at src ?xs ?k) = Some (Inr (b', evs))"
    using receiveframe_request [of "nb s" cb "frame_at src ?xs ?k"] i(2,5) fr(1-3)
    by (simp add: receiver_side_def frame_at_def ecp_words)
  then show "\<exists>f b' evs. sent_log (na s) ! left_a s = Some f \<and> ecp22_rx_receiveframe cb (nb s) f = Some (Inr (b', evs))"
    using log k by simp
qed

end
