(* ===== verification/Qaz.thy ===== *)
theory Qaz
  imports Mand Ports
begin

text \<open>
  The data centre bridging TLVs of IEEE 802.1Qaz, \<open>src/lldp_8021qaz.c\<close>: per interface the local
  and the received configuration of enhanced transmission selection (ETS), priority flow control
  (PFC) and application priorities (APP), the state machines that choose between them, the TLVs
  sent and the processing of the TLVs received.  The kernel is reached over netlink: what is read
  from it comes in through the record \<open>qaz_host\<close>, what is written to it is recorded as events, and
  so are the calls back into the LLDP core.
\<close>

subsection \<open>Data\<close>

datatype qaz_state = INIT | RX_RECOMMEND

record etscfg_obj =
  cfg_willing :: bool
  cfg_cbs :: bool
  cfg_max_tcs :: u8
  cfg_prio_map :: u32
  cfg_tc_bw :: bytes
  cfg_tsa_map :: bytes

record etsrec_obj =
  rec_prio_map :: u32
  rec_tc_bw :: bytes
  rec_tsa_map :: bytes

record pfc_obj =
  pfc_willing :: bool
  pfc_mbc :: bool
  pfc_cap :: u8
  pfc_enable :: u8
  pfc_delay :: u32

datatype app_hw = IEEE_APP_SET | IEEE_APP_DEL | IEEE_APP_DONE

record dcb_app =
  app_selector :: u8
  app_priority :: u8
  app_protocol :: u16

record app_obj =
  ao_app :: dcb_app
  ao_peer :: bool
  ao_hw :: app_hw

record ets_attrib =
  ets_pending :: bool
  ets_state :: qaz_state
  cfgl :: etscfg_obj
  recl :: etsrec_obj
  cfgr :: "etscfg_obj option"
  recr :: "etsrec_obj option"

record pfc_attrib =
  pfc_pending :: bool
  pfc_state :: qaz_state
  pfc_local :: pfc_obj
  pfc_remote :: pfc_obj
  remote_param :: bool

record ieee8021qaz_unpkd_tlvs =
  rx_etscfg :: "unpacked_tlv option"
  rx_etsrec :: "unpacked_tlv option"
  rx_pfc :: "unpacked_tlv option"
  rx_app :: "unpacked_tlv option"

record ieee8021qaz_tlvs =
  qz_active :: bool
  qz_pending :: bool
  ieee8021qazdu :: u16
  local_mac :: bytes
  remote_mac :: bytes
  qz_ifname :: string
  qz_rx :: "ieee8021qaz_unpkd_tlvs option"
  qz_ets :: ets_attrib
  qz_pfc :: pfc_attrib
  app_head :: "app_obj list"

text \<open>The structures handed to the kernel.\<close>

record ieee_ets =
  tc_tx_bw :: bytes
  tc_rx_bw :: bytes
  tc_tsa :: bytes
  prio_tc :: bytes
  tc_reco_bw :: bytes
  tc_reco_tsa :: bytes
  reco_prio_tc :: bytes

record ieee_pfc =
  pfc_en :: u8
  hw_mbc :: bool
  hw_delay :: u16

datatype qaz_event = Set_Dcbx_Mode string | Set_Ieee_Hw string ieee_ets ieee_pfc | Set_App string dcb_app
  | Del_App string dcb_app | Set_Admin string agent_type int | Save_Admin string agent_type int | Changed_Local string agent_type

record qaz_world =
  qaz_head :: "ieee8021qaz_tlvs list"
  qaz_events :: "qaz_event list"

text \<open>
  What the module reads elsewhere: the DCBX capabilities and the current configuration of the
  kernel (a result code, the number of traffic classes and the application table), the DCBX
  module, the configuration.
\<close>

record ieee_hw =
  hw_err :: int
  hw_ets_cap :: "u8 option"
  hw_pfc_cap :: "u8 option"
  hw_apps :: "dcb_app list"

record qaz_host =
  get_dcbx_hw :: "string \<Rightarrow> int \<times> u8"
  get_ieee_hw :: "string \<Rightarrow> ieee_hw"
  dcbx_get_legacy_version :: "string \<Rightarrow> u32"
  dcbx_tlvs_rxed :: "string \<Rightarrow> lldp_agent \<Rightarrow> bool"
  is_tlv_txdisabled :: "string \<Rightarrow> agent_type \<Rightarrow> u32 \<Rightarrow> bool"
  is_vlan :: "string \<Rightarrow> bool"
  set_config_ok :: "string \<Rightarrow> agent_type \<Rightarrow> int \<Rightarrow> bool"

abbreviation (input) OUI_IEEE_8021 :: u32 where "OUI_IEEE_8021 \<equiv> 0x0080c2"
abbreviation (input) LLDP_8021QAZ_ETSCFG :: u32 where "LLDP_8021QAZ_ETSCFG \<equiv> 9"
abbreviation (input) LLDP_8021QAZ_ETSREC :: u32 where "LLDP_8021QAZ_ETSREC \<equiv> 10"
abbreviation (input) LLDP_8021QAZ_PFC :: u32 where "LLDP_8021QAZ_PFC \<equiv> 11"
abbreviation (input) LLDP_8021QAZ_APP :: u32 where "LLDP_8021QAZ_APP \<equiv> 12"
abbreviation (input) MAX_TCS :: nat where "MAX_TCS \<equiv> 8"
abbreviation (input) MAX_APP_ENTRIES :: nat where "MAX_APP_ENTRIES \<equiv> 32"
abbreviation (input) sizeof_etscfg_obj :: nat where "sizeof_etscfg_obj \<equiv> 24"
abbreviation (input) sizeof_etsrec_obj :: nat where "sizeof_etsrec_obj \<equiv> 20"
abbreviation (input) sizeof_ets_attrib :: nat where "sizeof_ets_attrib \<equiv> 40"
abbreviation (input) sizeof_pfc_attrib :: nat where "sizeof_pfc_attrib \<equiv> 24"
abbreviation (input) sizeof_qaz_tlvs :: nat where "sizeof_qaz_tlvs \<equiv> 88"
abbreviation (input) sizeof_qaz_unpkd :: nat where "sizeof_qaz_unpkd \<equiv> 40"
abbreviation (input) sizeof_ieee_ets :: nat where "sizeof_ieee_ets \<equiv> 59"
abbreviation (input) sizeof_ieee_pfc :: nat where "sizeof_ieee_pfc \<equiv> 136"
abbreviation (input) sizeof_app_obj :: nat where "sizeof_app_obj \<equiv> 32"
abbreviation (input) QAZ_OUI :: bytes where "QAZ_OUI \<equiv> [0x00, 0x80, 0xc2]"

definition ieee8021qaz_data :: "qaz_world \<Rightarrow> string \<Rightarrow> nat option" where
  "ieee8021qaz_data w name = find_index (\<lambda>d. strn_eq IFNAMSIZ (qz_ifname d) name) (qaz_head w)"

definition put_qz :: "nat \<Rightarrow> ieee8021qaz_tlvs \<Rightarrow> qaz_world \<Rightarrow> qaz_world" where
  "put_qz i d w = w\<lparr>qaz_head := (qaz_head w)[i := d]\<rparr>"

definition qaz_log :: "qaz_event list \<Rightarrow> qaz_world \<Rightarrow> qaz_world" where
  "qaz_log evs w = w\<lparr>qaz_events := qaz_events w @ evs\<rparr>"

definition ieee8021qaz_tlvs_rxed :: "qaz_world \<Rightarrow> string \<Rightarrow> bool" where
  "ieee8021qaz_tlvs_rxed w name = (case ieee8021qaz_data w name of None \<Rightarrow> False
     | Some i \<Rightarrow> ieee8021qazdu (qaz_head w ! i) \<noteq> 0)"

definition ieee8021qaz_check_active :: "qaz_world \<Rightarrow> string \<Rightarrow> bool" where
  "ieee8021qaz_check_active w name = (case ieee8021qaz_data w name of None \<Rightarrow> False
     | Some i \<Rightarrow> qz_active (qaz_head w ! i) \<and> \<not> qz_pending (qaz_head w ! i))"

subsection \<open>Priority maps\<close>

definition get_prio_map :: "u32 \<Rightarrow> nat \<Rightarrow> u8" where
  "get_prio_map m prio = (if prio > 7 then 0 else ucast (drop_bit (4 * (7 - prio)) m AND 0xF))"

definition set_prio_map :: "u32 \<Rightarrow> nat \<Rightarrow> u8 \<Rightarrow> u32" where
  "set_prio_map m prio tc = (m AND NOT (push_bit (4 * (7 - prio)) 0xF)) OR push_bit (4 * (7 - prio)) (ucast tc)"

subsection \<open>The state machines\<close>

definition ets_sm :: "etscfg_obj \<Rightarrow> etsrec_obj option \<Rightarrow> qaz_state \<Rightarrow> qaz_state" where
  "ets_sm local remote st =
     (if cfg_willing local \<and> remote \<noteq> None then RX_RECOMMEND
      else if \<not> cfg_willing local \<or> remote = None then INIT else st)"

fun cmp_mac_addrs :: "bytes \<Rightarrow> bytes \<Rightarrow> bool" where
  "cmp_mac_addrs (x # xs) (y # ys) = (if x = y then cmp_mac_addrs xs ys else \<not> x < y)"
| "cmp_mac_addrs _ _ = False"

definition pfc_sm :: "ieee8021qaz_tlvs \<Rightarrow> ieee8021qaz_tlvs" where
  "pfc_sm d =
     (let pa = qz_pfc d; lw = pfc_willing (pfc_local pa); rw = pfc_willing (pfc_remote pa); rp = remote_param pa;
          gt = cmp_mac_addrs (local_mac d) (remote_mac d)
      in if (lw \<and> \<not> rw \<and> rp) \<or> (lw \<and> rw \<and> \<not> gt) then d\<lparr>qz_pfc := pa\<lparr>pfc_state := RX_RECOMMEND\<rparr>\<rparr>
         else if \<not> lw \<or> \<not> rp \<or> (lw \<and> rw \<and> gt) then d\<lparr>qz_pfc := pa\<lparr>pfc_state := INIT\<rparr>\<rparr>
         else d)"

definition ets_cfg_to_ieee :: "etscfg_obj \<Rightarrow> ieee_ets" where
  "ets_cfg_to_ieee cfg = (let bw = take MAX_TCS (cfg_tc_bw cfg); tsa = take MAX_TCS (cfg_tsa_map cfg);
       pr = map (get_prio_map (cfg_prio_map cfg)) [0..<8]
     in \<lparr>tc_tx_bw = bw, tc_rx_bw = bw, tc_tsa = tsa, prio_tc = pr, tc_reco_bw = bw, tc_reco_tsa = tsa, reco_prio_tc = pr\<rparr>)"

definition ets_rec_to_ieee :: "etsrec_obj \<Rightarrow> ieee_ets" where
  "ets_rec_to_ieee r = (let bw = take MAX_TCS (rec_tc_bw r); tsa = take MAX_TCS (rec_tsa_map r);
       pr = map (get_prio_map (rec_prio_map r)) [0..<8]
     in \<lparr>tc_tx_bw = bw, tc_rx_bw = bw, tc_tsa = tsa, prio_tc = pr, tc_reco_bw = bw, tc_reco_tsa = tsa, reco_prio_tc = pr\<rparr>)"

subsection \<open>Application priorities\<close>

definition app_eq :: "u8 \<Rightarrow> u8 \<Rightarrow> u16 \<Rightarrow> app_obj \<Rightarrow> bool" where
  "app_eq prio sel proto np \<longleftrightarrow> app_selector (ao_app np) = sel \<and> app_protocol (ao_app np) = proto
     \<and> app_priority (ao_app np) = prio"

definition ieee8021qaz_mod_app :: "allocator \<Rightarrow> app_obj list \<Rightarrow> bool \<Rightarrow> u8 \<Rightarrow> u8 \<Rightarrow> u16 \<Rightarrow> bool \<Rightarrow> int \<times> app_obj list" where
  "ieee8021qaz_mod_app ok head peer prio sel proto delete =
     (case find_index (app_eq prio sel proto) head of
        Some i \<Rightarrow> (1, if delete then head[i := (head ! i)\<lparr>ao_hw := IEEE_APP_DEL\<rparr>] else head)
      | None \<Rightarrow> if delete then (1, head)
          else if \<not> ok sizeof_app_obj then (- 1, head)
          else (0, \<lparr>ao_app = \<lparr>app_selector = sel, app_priority = prio, app_protocol = proto\<rparr>,
                    ao_peer = peer, ao_hw = IEEE_APP_SET\<rparr> # head))"

definition ieee8021qaz_app_reset :: "app_obj list \<Rightarrow> app_obj list" where
  "ieee8021qaz_app_reset head = map (\<lambda>np. if ao_peer np then np\<lparr>ao_hw := IEEE_APP_DEL\<rparr> else np) head"

definition do_app_sethw :: "string \<Rightarrow> app_obj list \<Rightarrow> app_obj list \<times> qaz_event list" where
  "do_app_sethw name head =
     (let sets = map (\<lambda>np. Set_App name (ao_app np)) (filter (\<lambda>np. ao_hw np = IEEE_APP_SET) head);
          head1 = map (\<lambda>np. if ao_hw np = IEEE_APP_SET then np\<lparr>ao_hw := IEEE_APP_DONE\<rparr> else np) head;
          dels = map (\<lambda>np. Del_App name (ao_app np)) (filter (\<lambda>np. ao_hw np = IEEE_APP_DEL) head1)
      in (filter (\<lambda>np. ao_hw np \<noteq> IEEE_APP_DEL) head1, sets @ dels))"

definition ieee8021qaz_app_sethw :: "nat \<Rightarrow> string \<Rightarrow> qaz_world \<Rightarrow> qaz_world" where
  "ieee8021qaz_app_sethw i name w =
     (if ieee8021qaz_check_active w name
      then case do_app_sethw name (app_head (qaz_head w ! i)) of (head, evs) \<Rightarrow>
        qaz_log (Set_Dcbx_Mode name # evs) (put_qz i ((qaz_head w ! i)\<lparr>app_head := head\<rparr>) w)
      else w)"

definition run_all_sm :: "env \<Rightarrow> port \<Rightarrow> lldp_agent \<Rightarrow> qaz_world \<Rightarrow> qaz_world res" where
  "run_all_sm e p a w =
     (if agenttype a \<noteq> NEAREST_BRIDGE then Inr w
      else case ieee8021qaz_data w (ifname p) of
        None \<Rightarrow> Inr w
      | Some i \<Rightarrow>
          let d0 = qaz_head w ! i;
              ea = qz_ets d0;
              d1 = d0\<lparr>qz_ets := ea\<lparr>ets_state := ets_sm (cfgl ea) (recr ea) (ets_state ea)\<rparr>\<rparr>
          in if \<not> malloc_ok e sizeof_ieee_ets then Inr (put_qz i d1 w)
             else bindR (if ets_state (qz_ets d1) = RX_RECOMMEND
                         then bindR (derefR (recr ea)) (\<lambda>r. Inr (ets_rec_to_ieee r))
                         else Inr (ets_cfg_to_ieee (cfgl ea))) (\<lambda>ets.
               let d2 = pfc_sm d1;
                   obj = (if pfc_state (qz_pfc d2) = RX_RECOMMEND then pfc_remote (qz_pfc d2) else pfc_local (qz_pfc d2));
                   w2 = put_qz i d2 w
               in if \<not> malloc_ok e sizeof_ieee_pfc then Inr w2
                  else let pfc = \<lparr>pfc_en = pfc_enable obj, hw_mbc = pfc_mbc obj, hw_delay = ucast (pfc_delay obj)\<rparr>
                  in if ieee8021qaz_check_active w2 (ifname p)
                     then Inr (ieee8021qaz_app_sethw i (ifname p)
                            (qaz_log [Set_Dcbx_Mode (ifname p), Set_Ieee_Hw (ifname p) ets pfc] w2))
                     else Inr w2))"

subsection \<open>Building TLVs\<close>

definition be32_bytes :: "u32 \<Rightarrow> bytes" where
  "be32_bytes m = [ucast (drop_bit 24 m), ucast (drop_bit 16 m), ucast (drop_bit 8 m), ucast m]"

definition flag_bits :: "bool \<Rightarrow> bool \<Rightarrow> u8 \<Rightarrow> u8" where
  "flag_bits b7 b6 rest = push_bit 7 (of_bool b7) OR push_bit 6 (of_bool b6) OR rest"

definition org_tlv :: "allocator \<Rightarrow> nat \<Rightarrow> bytes \<Rightarrow> unpacked_tlv option" where
  "org_tlv ok n info = (case create_tlv ok of None \<Rightarrow> None
     | Some t \<Rightarrow> if \<not> ok n then None
         else Some (t\<lparr>tlv_type := ORG_SPECIFIC_TLV, tlv_length := of_nat (length info), tlv_info := Some info\<rparr>))"

definition bld_ieee8021qaz_etscfg_tlv :: "allocator \<Rightarrow> ieee8021qaz_tlvs \<Rightarrow> unpacked_tlv option res" where
  "bld_ieee8021qaz_etscfg_tlv ok d =
     (let ea = qz_ets d; cl = cfgl ea;
          hdr = QAZ_OUI @ [9, flag_bits (cfg_willing cl) (cfg_cbs cl) (cfg_max_tcs cl AND 7)]
      in if create_tlv ok = None \<or> \<not> ok 25 then Inr None
         else if ets_state ea = INIT
         then Inr (org_tlv ok 25 (hdr @ be32_bytes (cfg_prio_map cl) @ take MAX_TCS (cfg_tc_bw cl) @ take MAX_TCS (cfg_tsa_map cl)))
         else bindR (derefR (recr ea)) (\<lambda>r.
           Inr (org_tlv ok 25 (hdr @ be32_bytes (rec_prio_map r) @ take MAX_TCS (rec_tc_bw r) @ take MAX_TCS (rec_tsa_map r)))))"

definition bld_ieee8021qaz_etsrec_tlv :: "allocator \<Rightarrow> ieee8021qaz_tlvs \<Rightarrow> unpacked_tlv option" where
  "bld_ieee8021qaz_etsrec_tlv ok d = (let r = recl (qz_ets d) in
     org_tlv ok 25 (QAZ_OUI @ [10, 0] @ be32_bytes (rec_prio_map r) @ take MAX_TCS (rec_tc_bw r) @ take MAX_TCS (rec_tsa_map r)))"

definition bld_ieee8021qaz_pfc_tlv :: "allocator \<Rightarrow> ieee8021qaz_tlvs \<Rightarrow> unpacked_tlv option" where
  "bld_ieee8021qaz_pfc_tlv ok d = (let pa = qz_pfc d; l = pfc_local pa in
     org_tlv ok 6 (QAZ_OUI @ [11, flag_bits (pfc_willing l) (pfc_mbc l) (pfc_cap l),
       if pfc_state pa = INIT then pfc_enable l else pfc_enable (pfc_remote pa)]))"

definition app_prio_bytes :: "dcb_app \<Rightarrow> bytes" where
  "app_prio_bytes x = [push_bit 5 (app_priority x) OR app_selector x] @ be16_bytes (app_protocol x)"

definition bld_ieee8021qaz_app_tlv :: "allocator \<Rightarrow> qaz_host \<Rightarrow> string \<Rightarrow> unpacked_tlv option" where
  "bld_ieee8021qaz_app_tlv ok q name = (let hw = get_ieee_hw q name in
     if create_tlv ok = None \<or> hw_err hw = 0 then None
     else org_tlv ok (5 + 3 * length (hw_apps hw)) (QAZ_OUI @ [12, 0] @ concat (map app_prio_bytes (hw_apps hw))))"

text \<open>A TLV that cannot be packed ends the packing; what was packed so far is returned.\<close>

fun pack_all :: "allocator \<Rightarrow> unpacked_tlv option list \<Rightarrow> packed_tlv \<Rightarrow> int \<Rightarrow> packed_tlv res" where
  "pack_all ok [] p n = Inr p"
| "pack_all ok (t # ts) p n = bindR (pack_tlv_after ok t p n) (\<lambda>(rc, p1). if rc \<noteq> 0 then Inr p1 else pack_all ok ts p1 n)"

definition ieee8021qaz_bld_tlv :: "env \<Rightarrow> host \<Rightarrow> qaz_host \<Rightarrow> port \<Rightarrow> lldp_agent \<Rightarrow> qaz_world \<Rightarrow> packed_tlv option res" where
  "ieee8021qaz_bld_tlv e h q p a w =
     (if agenttype a \<noteq> NEAREST_BRIDGE then Inr None
      else case ieee8021qaz_data w (ifname p) of
        None \<Rightarrow> Inr None
      | Some i \<Rightarrow>
          let d = qaz_head w ! i; ok = malloc_ok e; name = ifname p; ty = agenttype a
          in if \<not> qz_active d then Inr None
             else bindR (if \<not> is_tlv_txdisabled q name ty (TLVID OUI_IEEE_8021 LLDP_8021QAZ_ETSCFG)
                         then bld_ieee8021qaz_etscfg_tlv ok d else Inr None) (\<lambda>etscfg.
               let etsrec = (if is_tlv_txenabled h name ty (TLVID OUI_IEEE_8021 LLDP_8021QAZ_ETSREC)
                             then bld_ieee8021qaz_etsrec_tlv ok d else None);
                   pfc = (if \<not> is_tlv_txdisabled q name ty (TLVID OUI_IEEE_8021 LLDP_8021QAZ_PFC)
                          then bld_ieee8021qaz_pfc_tlv ok d else None);
                   app = (if is_tlv_txenabled h name ty (TLVID OUI_IEEE_8021 LLDP_8021QAZ_APP)
                          then bld_ieee8021qaz_app_tlv ok q name else None);
                   n = TLVSIZE etscfg + TLVSIZE etsrec + TLVSIZE pfc + TLVSIZE app
               in case create_ptlv ok of
                    None \<Rightarrow> Inr None
                  | Some ptlv \<Rightarrow>
                      if \<not> ok n then Inr (Some ptlv)
                      else bindR (pack_all ok [etscfg, etsrec, pfc, app]
                             (ptlv\<lparr>ptlv_tlv := Some (replicate n 0), ptlv_size := 0\<rparr>) (int n)) (\<lambda>r. Inr (Some r))))"

definition ieee8021qaz_gettlv :: "env \<Rightarrow> host \<Rightarrow> qaz_host \<Rightarrow> port \<Rightarrow> lldp_agent \<Rightarrow> qaz_world \<Rightarrow>
    (packed_tlv option \<times> qaz_world) res" where
  "ieee8021qaz_gettlv e h q p a w =
     (if agenttype a \<noteq> NEAREST_BRIDGE then Inr (None, w)
      else bindR (run_all_sm e p a w) (\<lambda>w1. bindR (ieee8021qaz_bld_tlv e h q p a w1) (\<lambda>r. Inr (r, w1))))"

subsection \<open>Received TLVs\<close>

definition info_at :: "unpacked_tlv \<Rightarrow> nat \<Rightarrow> u8 res" where
  "info_at t off = bindR (derefR (tlv_info t)) (\<lambda>b. if off < length b then Inr (b ! off) else Inl Out_Of_Bounds)"

definition mark_dup :: "u16 \<Rightarrow> lldp_agent \<Rightarrow> lldp_agent" where
  "mark_dup bits a = rx_update (\<lambda>r. r\<lparr>dupTlvs := dupTlvs r OR ucast bits\<rparr>) a"

definition unpack_ieee8021qaz_tlvs :: "lldp_agent \<Rightarrow> unpacked_tlv \<Rightarrow> ieee8021qaz_tlvs \<Rightarrow>
    (bool \<times> lldp_agent \<times> ieee8021qaz_tlvs) res" where
  "unpack_ieee8021qaz_tlvs a tlv d =
     bindR (info_at tlv 3) (\<lambda>sub. bindR (derefR (qz_rx d)) (\<lambda>r.
       let keep = (\<lambda>old bits r'. if old = None
             then Inr (True, a, d\<lparr>ieee8021qazdu := ieee8021qazdu d OR bits, qz_rx := Some r'\<rparr>)
             else Inr (False, mark_dup bits a, d))
       in if sub = 9 then keep (rx_etscfg r) 1 (r\<lparr>rx_etscfg := Some tlv\<rparr>)
          else if sub = 10 then keep (rx_etsrec r) 2 (r\<lparr>rx_etsrec := Some tlv\<rparr>)
          else if sub = 11 then keep (rx_pfc r) 4 (r\<lparr>rx_pfc := Some tlv\<rparr>)
          else if sub = 12 then keep (rx_app r) 8 (r\<lparr>rx_app := Some tlv\<rparr>)
          else Inr (False, a, d)))"

definition clear_ieee8021qaz_rx :: "ieee8021qaz_tlvs \<Rightarrow> ieee8021qaz_tlvs" where
  "clear_ieee8021qaz_rx d = d\<lparr>qz_rx := None\<rparr>"

text \<open>Four bytes with two traffic classes each, and eight bytes of a table.\<close>

fun read_prio_map :: "unpacked_tlv \<Rightarrow> nat \<Rightarrow> nat \<Rightarrow> nat \<Rightarrow> u32 \<Rightarrow> u32 res" where
  "read_prio_map t off i 0 m = Inr m"
| "read_prio_map t off i (Suc k) m = bindR (info_at t off) (\<lambda>b.
     read_prio_map t (Suc off) (Suc i) k (set_prio_map (set_prio_map m (2 * i) (drop_bit 4 b AND 0xF)) (2 * i + 1) (b AND 0xF)))"

fun read_table :: "unpacked_tlv \<Rightarrow> nat \<Rightarrow> nat \<Rightarrow> bytes res" where
  "read_table t off 0 = Inr []"
| "read_table t off (Suc k) = bindR (info_at t off) (\<lambda>b. bindR (read_table t (Suc off) k) (\<lambda>bs. Inr (b # bs)))"

definition process_ieee8021qaz_etscfg_tlv :: "allocator \<Rightarrow> unpacked_tlv \<Rightarrow> ieee8021qaz_tlvs \<Rightarrow> ieee8021qaz_tlvs res" where
  "process_ieee8021qaz_etscfg_tlv ok t d =
     (let ea = qz_ets d in
      if \<not> ok sizeof_etscfg_obj then Inr (d\<lparr>qz_ets := ea\<lparr>cfgr := None\<rparr>\<rparr>)
      else bindR (info_at t 4) (\<lambda>b. bindR (read_prio_map t 5 0 4 0) (\<lambda>m. bindR (read_table t 9 8) (\<lambda>bw. bindR (read_table t 17 8) (\<lambda>tsa.
        Inr (d\<lparr>qz_ets := ea\<lparr>cfgr := Some \<lparr>cfg_willing = bit b 7, cfg_cbs = bit b 6, cfg_max_tcs = b AND 7, cfg_prio_map = m,
          cfg_tc_bw = bw, cfg_tsa_map = tsa\<rparr>\<rparr>\<rparr>))))))"

definition process_ieee8021qaz_etsrec_tlv :: "allocator \<Rightarrow> unpacked_tlv \<Rightarrow> ieee8021qaz_tlvs \<Rightarrow> ieee8021qaz_tlvs res" where
  "process_ieee8021qaz_etsrec_tlv ok t d =
     (let ea = qz_ets d in
      if recr ea = None \<and> \<not> ok sizeof_etsrec_obj then Inr d
      else bindR (read_prio_map t 5 0 4 0) (\<lambda>m. bindR (read_table t 9 8) (\<lambda>bw. bindR (read_table t 17 8) (\<lambda>tsa.
        Inr (d\<lparr>qz_ets := ea\<lparr>recr := Some \<lparr>rec_prio_map = m, rec_tc_bw = bw, rec_tsa_map = tsa\<rparr>\<rparr>\<rparr>)))))"

definition process_ieee8021qaz_pfc_tlv :: "unpacked_tlv \<Rightarrow> ieee8021qaz_tlvs \<Rightarrow> ieee8021qaz_tlvs res" where
  "process_ieee8021qaz_pfc_tlv t d =
     bindR (info_at t 4) (\<lambda>b. bindR (info_at t 5) (\<lambda>en.
       Inr (d\<lparr>qz_pfc := (qz_pfc d)\<lparr>pfc_remote := (pfc_remote (qz_pfc d))\<lparr>pfc_willing := bit b 7, pfc_mbc := bit b 6,
         pfc_cap := b AND 0xF, pfc_enable := en\<rparr>, remote_param := True\<rparr>\<rparr>)))"

definition app_entry :: "allocator \<Rightarrow> u8 \<Rightarrow> u8 \<Rightarrow> u16 \<Rightarrow> app_obj list \<Rightarrow> app_obj list" where
  "app_entry ok prio sel proto head = (case find_index (app_eq prio sel proto) head of
       Some i \<Rightarrow> head[i := (head ! i)\<lparr>ao_hw := IEEE_APP_SET\<rparr>]
     | None \<Rightarrow> snd (ieee8021qaz_mod_app ok head True prio sel proto False))"

function app_loop :: "allocator \<Rightarrow> unpacked_tlv \<Rightarrow> nat \<Rightarrow> app_obj list \<Rightarrow> app_obj list res" where
  "app_loop ok t off head =
     (if off < unat (tlv_length t)
      then bindR (info_at t off) (\<lambda>b. bindR (info_at t (off + 1)) (\<lambda>hi. bindR (info_at t (off + 2)) (\<lambda>lo.
        app_loop ok t (off + 3) (app_entry ok (drop_bit 5 (b AND 0xE0)) (b AND 7) (be16 hi lo) head))))
      else Inr head)"
  by pat_completeness auto
termination
  by (relation "measure (\<lambda>(ok, t, off, head). unat (tlv_length t) - off)") simp_all

definition process_ieee8021qaz_app_tlv :: "allocator \<Rightarrow> unpacked_tlv \<Rightarrow> ieee8021qaz_tlvs \<Rightarrow> ieee8021qaz_tlvs res" where
  "process_ieee8021qaz_app_tlv ok t d =
     bindR (app_loop ok t 5 (ieee8021qaz_app_reset (app_head d))) (\<lambda>head. Inr (d\<lparr>app_head := head\<rparr>))"

definition ieee8021qaz_mibUpdateObjects :: "allocator \<Rightarrow> ieee8021qaz_tlvs \<Rightarrow> ieee8021qaz_tlvs res" where
  "ieee8021qaz_mibUpdateObjects ok d =
     bindR (derefR (qz_rx d)) (\<lambda>r.
     bindR (case rx_etscfg r of Some t \<Rightarrow> process_ieee8021qaz_etscfg_tlv ok t d
            | None \<Rightarrow> Inr (d\<lparr>qz_ets := (qz_ets d)\<lparr>cfgr := None\<rparr>\<rparr>)) (\<lambda>d1.
     bindR (case rx_etsrec r of Some t \<Rightarrow> process_ieee8021qaz_etsrec_tlv ok t d1
            | None \<Rightarrow> Inr (d1\<lparr>qz_ets := (qz_ets d1)\<lparr>recr := None\<rparr>\<rparr>)) (\<lambda>d2.
     bindR (case rx_pfc r of Some t \<Rightarrow> process_ieee8021qaz_pfc_tlv t d2
            | None \<Rightarrow> Inr (d2\<lparr>qz_pfc := (qz_pfc d2)\<lparr>remote_param := False\<rparr>\<rparr>)) (\<lambda>d3.
     case rx_app r of Some t \<Rightarrow> process_ieee8021qaz_app_tlv ok t d3
     | None \<Rightarrow> Inr (d3\<lparr>app_head := ieee8021qaz_app_reset (app_head d3)\<rparr>)))))"

definition empty_rx :: ieee8021qaz_unpkd_tlvs where
  "empty_rx = \<lparr>rx_etscfg = None, rx_etsrec = None, rx_pfc = None, rx_app = None\<rparr>"

text \<open>The end of an LLDPDU: the received TLVs are evaluated.\<close>

definition qaz_end_of_pdu :: "'m core \<Rightarrow> qaz_host \<Rightarrow> port \<Rightarrow> lldp_agent \<Rightarrow> nat \<Rightarrow> qaz_world \<Rightarrow> qaz_world res" where
  "qaz_end_of_pdu c q p a i w =
     (let e = core_env c; d0 = qaz_head w ! i; name = qz_ifname d0; ty = agenttype a;
          d = (if qz_active d0 \<and> dcbx_tlvs_rxed q name a \<and> ieee8021qazdu d0 = 0 then d0\<lparr>qz_active := False\<rparr> else d0)
      in if \<not> qz_active d then Inr (put_qz i d w)
         else let evs = (if ieee8021qazdu d \<noteq> 0 \<and> cfg_int e name ty ''adminStatus'' = None
                            \<and> get_lldp_agent_admin c name ty = enabledRxOnly
                         then Save_Admin name ty enabledRxTx
                              # (if set_config_ok q name ty enabledRxTx then [Set_Admin name ty enabledRxTx] else [])
                         else []);
                  d1 = (if ieee8021qazdu d \<noteq> 0 then d\<lparr>qz_pending := False\<rparr> else d)
              in bindR (ieee8021qaz_mibUpdateObjects (malloc_ok e) d1) (\<lambda>d2.
                 bindR (run_all_sm e p a (qaz_log evs (put_qz i d2 w))) (\<lambda>w3.
                   Inr (qaz_log [Changed_Local (ifname p) ty] (put_qz i (clear_ieee8021qaz_rx (qaz_head w3 ! i)) w3)))))"

definition ieee8021qaz_rchange :: "'m core \<Rightarrow> qaz_host \<Rightarrow> port \<Rightarrow> lldp_agent \<Rightarrow> unpacked_tlv \<Rightarrow> qaz_world \<Rightarrow>
    (int \<times> lldp_agent \<times> qaz_world) res" where
  "ieee8021qaz_rchange c q p a tlv w =
     (if agenttype a \<noteq> NEAREST_BRIDGE then Inr (0, a, w)
      else case ieee8021qaz_data w (ifname p) of
        None \<Rightarrow> Inr (SUBTYPE_INVALID, a, w)
      | Some i \<Rightarrow>
          let d = qaz_head w ! i in
          if tlv_type tlv = 1
          then if \<not> malloc_ok (core_env c) sizeof_qaz_unpkd then Inl Null_Deref
               else Inr (TLV_OK, a, put_qz i ((clear_ieee8021qaz_rx d)\<lparr>qz_rx := Some empty_rx, ieee8021qazdu := 0\<rparr>) w)
          else if tlv_type tlv = ORG_SPECIFIC_TLV
          then if unat (tlv_length tlv) < 4 then Inr (TLV_ERR, a, w)
               else bindR (derefR (tlv_info tlv)) (\<lambda>info. bindR (read_bytes info 0 3) (\<lambda>oui.
                 if oui \<noteq> QAZ_OUI then Inr (SUBTYPE_INVALID, a, w)
                 else bindR (unpack_ieee8021qaz_tlvs a tlv (d\<lparr>remote_mac := remote_mac_addr (l2 p)\<rparr>)) (\<lambda>(_, a1, d1).
                   Inr (TLV_OK, a1, put_qz i d1 w))))
          else if tlv_type tlv = 0
          then bindR (qaz_end_of_pdu c q p a i w) (\<lambda>w1. Inr (TLV_OK, a, w1))
          else Inr (TLV_OK, a, w))"

definition ieee8021qaz_free_rx :: "ieee8021qaz_unpkd_tlvs option \<Rightarrow> ieee8021qaz_unpkd_tlvs option" where
  "ieee8021qaz_free_rx r = map_option (\<lambda>_. empty_rx) r"

definition ieee8021qaz_mibDeleteObject :: "port \<Rightarrow> lldp_agent \<Rightarrow> qaz_world \<Rightarrow> qaz_world" where
  "ieee8021qaz_mibDeleteObject p a w =
     (if agenttype a \<noteq> NEAREST_BRIDGE then w
      else case ieee8021qaz_data w (ifname p) of
        None \<Rightarrow> w
      | Some i \<Rightarrow>
          let d = qaz_head w ! i; pa = qz_pfc d
          in qaz_log [Changed_Local (ifname p) (agenttype a)] (put_qz i (d\<lparr>qz_rx := ieee8021qaz_free_rx (qz_rx d),
               qz_ets := (qz_ets d)\<lparr>recr := None, cfgr := None\<rparr>,
               qz_pfc := pa\<lparr>remote_param := False, pfc_remote := (pfc_remote pa)\<lparr>pfc_willing := False, pfc_mbc := False,
                 pfc_cap := 0, pfc_enable := 0\<rparr>\<rparr>,
               app_head := ieee8021qaz_app_reset (app_head d)\<rparr>) w))"

definition ieee8021qaz_check_pending :: "env \<Rightarrow> port \<Rightarrow> lldp_agent \<Rightarrow> qaz_world \<Rightarrow> qaz_world res" where
  "ieee8021qaz_check_pending e p a w =
     (if agenttype a \<noteq> NEAREST_BRIDGE \<or> \<not> portEnabled p then Inr w
      else case ieee8021qaz_data w (ifname p) of
        None \<Rightarrow> Inr w
      | Some i \<Rightarrow>
          let d = qaz_head w ! i in
          if qz_active d \<and> qz_pending d \<and> dormantDelay p = 1
          then bindR (run_all_sm e p a (put_qz i (d\<lparr>qz_pending := False, app_head := ieee8021qaz_app_reset (app_head d)\<rparr>) w)) (\<lambda>w1.
            Inr (qaz_log [Changed_Local (ifname p) (agenttype a)] w1))
          else Inr w)"

definition ieee8021qaz_ifdown :: "string \<Rightarrow> lldp_agent \<Rightarrow> qaz_world \<Rightarrow> qaz_world" where
  "ieee8021qaz_ifdown name a w =
     (if agenttype a \<noteq> NEAREST_BRIDGE then w
      else case ieee8021qaz_data w name of None \<Rightarrow> w
      | Some i \<Rightarrow> put_qz i ((qaz_head w ! i)\<lparr>qz_rx := None\<rparr>) w)"

definition ieee8021qaz_free_tlv :: "ieee8021qaz_tlvs \<Rightarrow> qaz_event list" where
  "ieee8021qaz_free_tlv d = snd (do_app_sethw (qz_ifname d) (map (\<lambda>np. np\<lparr>ao_hw := IEEE_APP_DEL\<rparr>) (app_head d)))"

definition ieee8021qaz_free_data :: "qaz_world \<Rightarrow> qaz_world" where
  "ieee8021qaz_free_data w = w\<lparr>qaz_head := [], qaz_events := qaz_events w @ concat (map ieee8021qaz_free_tlv (qaz_head w))\<rparr>"

definition ieee8021qaz_register :: "env \<Rightarrow> qaz_world option" where
  "ieee8021qaz_register e = (if \<not> malloc_ok e 48 \<or> \<not> malloc_ok e 8 then None else Some \<lparr>qaz_head = [], qaz_events = []\<rparr>)"

definition ieee8021qaz_unregister :: "qaz_world \<Rightarrow> qaz_world" where
  "ieee8021qaz_unregister w = ieee8021qaz_free_data w"

subsection \<open>Numbers and lists in the configuration\<close>

definition is_space :: "char \<Rightarrow> bool" where
  "is_space ch \<longleftrightarrow> (let n = (of_char ch :: nat) in n = 32 \<or> 9 \<le> n \<and> n \<le> 13)"

definition digit_val :: "char \<Rightarrow> nat" where
  "digit_val ch = (let n = (of_char ch :: nat) in
     if 48 \<le> n \<and> n \<le> 57 then n - 48 else if 97 \<le> n \<and> n \<le> 122 then n - 87 else if 65 \<le> n \<and> n \<le> 90 then n - 55 else 99)"

fun digits :: "nat \<Rightarrow> string \<Rightarrow> nat \<Rightarrow> nat" where
  "digits base [] acc = acc"
| "digits base (ch # cs) acc = (if digit_val ch < base then digits base cs (base * acc + digit_val ch) else acc)"

definition signed :: "(string \<Rightarrow> nat) \<Rightarrow> string \<Rightarrow> int" where
  "signed f cs = (case dropWhile is_space cs of
       [] \<Rightarrow> 0
     | ch # cs' \<Rightarrow> if ch = CHR ''-'' then - int (f cs') else if ch = CHR ''+'' then int (f cs') else int (f (ch # cs')))"

definition atoi :: "string \<Rightarrow> int" where
  "atoi = signed (\<lambda>cs. digits 10 cs 0)"

definition strtol0 :: "string \<Rightarrow> int" where
  "strtol0 = signed (\<lambda>cs. case cs of
       c0 # c1 # c2 # rest \<Rightarrow>
         if c0 = CHR ''0'' \<and> (c1 = CHR ''x'' \<or> c1 = CHR ''X'') \<and> digit_val c2 < 16 then digits 16 (c2 # rest) 0
         else if c0 = CHR ''0'' then digits 8 cs 0 else digits 10 cs 0
     | c0 # rest \<Rightarrow> if c0 = CHR ''0'' then digits 8 cs 0 else digits 10 cs 0
     | [] \<Rightarrow> 0)"

text \<open>
  \<open>strtok\<close> with a comma: the token, and the rest of the buffer behind it, which is empty or starts
  with the comma that becomes the terminator of the token.
\<close>

definition strtok :: "string \<Rightarrow> (string \<times> string) option" where
  "strtok buf = (let b = dropWhile (\<lambda>ch. ch = CHR '','') buf in
     if b = [] then None else Some (takeWhile (\<lambda>ch. ch \<noteq> CHR '','') b, dropWhile (\<lambda>ch. ch \<noteq> CHR '','') b))"

lemma strtok_shorter: "strtok buf = Some (tok, rest) \<Longrightarrow> length rest < length buf"
proof -
  assume "strtok buf = Some (tok, rest)"
  then have b: "dropWhile (\<lambda>ch. ch = CHR '','') buf \<noteq> []" "rest = dropWhile (\<lambda>ch. ch \<noteq> CHR '','') (dropWhile (\<lambda>ch. ch = CHR '','') buf)"
    by (auto simp: strtok_def Let_def split: if_splits)
  then obtain x xs where x: "dropWhile (\<lambda>ch. ch = CHR '','') buf = x # xs" "x \<noteq> CHR '',''"
    by (cases "dropWhile (\<lambda>ch. ch = CHR '','') buf") (auto simp: dropWhile_eq_Cons_conv)
  have "length (x # xs) \<le> length buf" using x(1) length_dropWhile_le [of "\<lambda>ch. ch = CHR '',''" buf] by simp
  moreover have "length rest \<le> length xs" using b(2) x length_dropWhile_le [of "\<lambda>ch. ch \<noteq> CHR '',''" xs] by simp
  ultimately show ?thesis by simp
qed

text \<open>The string at index two of a token; behind a one-letter token that is the text after its terminator.\<close>

definition at_two :: "string \<Rightarrow> string \<Rightarrow> string res" where
  "at_two tok rest = (if length tok \<ge> 2 then Inr (drop 2 tok) else if rest = [] then Inl Out_Of_Bounds else Inr (tl rest))"

function prio_tokens :: "string \<Rightarrow> u32 \<Rightarrow> u32 res" where
  "prio_tokens buf m = (case strtok buf of None \<Rightarrow> Inr m
     | Some (tok, rest) \<Rightarrow> bindR (at_two tok rest) (\<lambda>t2.
         let prio = unat (word_of_int (atoi tok) AND 7 :: u32); tc = word_of_int (atoi t2) AND 7 :: u32
         in prio_tokens rest (m OR push_bit (4 * (7 - prio)) tc)))"
  by pat_completeness auto
termination
  by (relation "measure (\<lambda>(buf, m). length buf)") (auto dest: strtok_shorter)

definition set_ets_prio_map :: "allocator \<Rightarrow> string \<Rightarrow> u32 \<Rightarrow> u32 res" where
  "set_ets_prio_map ok arg m = (if \<not> ok (Suc (length arg)) then Inr m else prio_tokens arg m)"

definition set_at :: "bytes \<Rightarrow> int \<Rightarrow> u8 \<Rightarrow> bytes res" where
  "set_at xs i v = (if 0 \<le> i \<and> i < int (length xs) then Inr (xs[nat i := v]) else Inl Out_Of_Bounds)"

definition tsa_type :: "string \<Rightarrow> u8" where
  "tsa_type s = (if s = ''strict'' then 0 else if s = ''cb_shaper'' then 1 else if s = ''ets'' then 2
     else if s = ''vendor'' then 0xFF else 0)"

function tsa_tokens :: "string \<Rightarrow> bytes \<Rightarrow> bytes res" where
  "tsa_tokens buf m = (case strtok buf of None \<Rightarrow> Inr m
     | Some (tok, rest) \<Rightarrow> bindR (at_two tok rest) (\<lambda>t2. bindR (set_at m (atoi tok) (tsa_type t2)) (\<lambda>m'. tsa_tokens rest m')))"
  by pat_completeness auto
termination
  by (relation "measure (\<lambda>(buf, m). length buf)") (auto dest: strtok_shorter)

definition set_ets_tsa_map :: "allocator \<Rightarrow> string \<Rightarrow> bytes \<Rightarrow> bytes res" where
  "set_ets_tsa_map ok arg m = (if \<not> ok (Suc (length arg)) then Inr m else tsa_tokens arg m)"

function bw_tokens :: "string \<Rightarrow> nat \<Rightarrow> bytes \<Rightarrow> bytes res" where
  "bw_tokens buf i m = (case strtok buf of None \<Rightarrow> Inr m
     | Some (tok, rest) \<Rightarrow> bindR (set_at m (int i) (word_of_int (atoi tok))) (\<lambda>m'. bw_tokens rest (Suc i) m'))"
  by pat_completeness auto
termination
  by (relation "measure (\<lambda>(buf, i, m). length buf)") (auto dest: strtok_shorter)

text \<open>An application entry of the configuration, three numbers; a missing one ends the reading of all.\<close>

definition read_app :: "string \<Rightarrow> (u8 \<times> u8 \<times> int) option" where
  "read_app arg = (case strtok arg of None \<Rightarrow> None
     | Some (t1, r1) \<Rightarrow> (case strtok r1 of None \<Rightarrow> None
         | Some (t2, r2) \<Rightarrow> (case strtok r2 of None \<Rightarrow> None
             | Some (t3, r3) \<Rightarrow> Some (word_of_int (atoi t1), word_of_int (atoi t2), strtol0 t3))))"

fun decimal :: "nat \<Rightarrow> string" where
  "decimal n = (if n < 10 then [char_of (48 + n)] else decimal (n div 10) @ [char_of (48 + n mod 10)])"

fun read_apps :: "allocator \<Rightarrow> (nat \<Rightarrow> string option) \<Rightarrow> nat list \<Rightarrow> app_obj list \<Rightarrow> app_obj list" where
  "read_apps ok cfg [] head = head"
| "read_apps ok cfg (i # is) head = (case cfg i of
       None \<Rightarrow> read_apps ok cfg is head
     | Some arg \<Rightarrow> if \<not> ok (Suc (length arg)) then head
         else case read_app arg of
           None \<Rightarrow> head
         | Some (prio, sel, pid) \<Rightarrow> read_apps ok cfg is
             (if - (2 ^ 63) \<le> pid \<and> pid < 2 ^ 63 then snd (ieee8021qaz_mod_app ok head False prio sel (word_of_int pid) False) else head))"

definition read_cfg_file :: "env \<Rightarrow> host \<Rightarrow> string \<Rightarrow> lldp_agent \<Rightarrow> ieee8021qaz_tlvs \<Rightarrow> ieee8021qaz_tlvs res" where
  "read_cfg_file e h name a d =
     (if agenttype a \<noteq> NEAREST_BRIDGE then Inr d
      else let ok = malloc_ok e; ty = agenttype a;
               num = (\<lambda>sub arg. cfg_int e name ty (tlv_arg_path (TLVID OUI_IEEE_8021 sub) arg));
               str = (\<lambda>sub arg. cfg_str h name ty (tlv_arg_path (TLVID OUI_IEEE_8021 sub) arg));
               willing = (\<lambda>sub. case num sub ''willing'' of None \<Rightarrow> True | Some v \<Rightarrow> v \<noteq> 0);
               prio_map = (\<lambda>sub m. case str sub ''up2tc'' of None \<Rightarrow> Inr 0 | Some s \<Rightarrow> set_ets_prio_map ok s m);
               tc_bw = (\<lambda>sub m. case str sub ''tcbw'' of None \<Rightarrow> Inr m
                  | Some s \<Rightarrow> if \<not> ok (Suc (length s)) then Inr m else bw_tokens s 0 m);
               tsa = (\<lambda>sub m. case str sub ''tsa'' of None \<Rightarrow> Inr (replicate MAX_TCS 0) | Some s \<Rightarrow> set_ets_tsa_map ok s m);
               cl = cfgl (qz_ets d); rl = recl (qz_ets d); pl = pfc_local (qz_pfc d)
           in bindR (prio_map LLDP_8021QAZ_ETSCFG (cfg_prio_map cl)) (\<lambda>cpm.
              bindR (prio_map LLDP_8021QAZ_ETSREC (rec_prio_map rl)) (\<lambda>rpm.
              bindR (tc_bw LLDP_8021QAZ_ETSCFG (cfg_tc_bw cl)) (\<lambda>cbw.
              bindR (tc_bw LLDP_8021QAZ_ETSREC (rec_tc_bw rl)) (\<lambda>rbw.
              bindR (tsa LLDP_8021QAZ_ETSCFG (cfg_tsa_map cl)) (\<lambda>ctsa.
              bindR (tsa LLDP_8021QAZ_ETSREC (rec_tsa_map rl)) (\<lambda>rtsa.
                Inr (d\<lparr>qz_ets := (qz_ets d)\<lparr>
                    cfgl := cl\<lparr>cfg_willing := willing LLDP_8021QAZ_ETSCFG, cfg_prio_map := cpm, cfg_max_tcs := 8, cfg_tc_bw := cbw,
                      cfg_tsa_map := ctsa\<rparr>,
                    recl := \<lparr>rec_prio_map = rpm, rec_tc_bw = rbw, rec_tsa_map = rtsa\<rparr>\<rparr>,
                  qz_pfc := (qz_pfc d)\<lparr>pfc_local := pl\<lparr>pfc_willing := willing LLDP_8021QAZ_PFC,
                    pfc_enable := (case num LLDP_8021QAZ_PFC ''enabled'' of None \<Rightarrow> pfc_enable pl | Some v \<Rightarrow> word_of_int v),
                    pfc_delay := (case num LLDP_8021QAZ_PFC ''delay'' of None \<Rightarrow> pfc_delay pl | Some v \<Rightarrow> word_of_int v),
                    pfc_cap := 8\<rparr>\<rparr>,
                  app_head := read_apps ok (\<lambda>i. str LLDP_8021QAZ_APP (''APP'' @ decimal i)) [0..<MAX_APP_ENTRIES] (app_head d)\<rparr>))))))))"

subsection \<open>An interface comes up\<close>

definition zero_qaz_tlvs :: "string \<Rightarrow> bytes \<Rightarrow> ieee8021qaz_tlvs" where
  "zero_qaz_tlvs name mac =
     (let z8 = replicate MAX_TCS 0; zp = \<lparr>pfc_willing = False, pfc_mbc = False, pfc_cap = 0, pfc_enable = 0, pfc_delay = 0\<rparr>
      in \<lparr>qz_active = False, qz_pending = False, ieee8021qazdu = 0, local_mac = mac, remote_mac = replicate ETH_ALEN 0,
          qz_ifname = take IFNAMSIZ name, qz_rx = Some empty_rx,
          qz_ets = \<lparr>ets_pending = True, ets_state = INIT,
            cfgl = \<lparr>cfg_willing = False, cfg_cbs = False, cfg_max_tcs = 0, cfg_prio_map = 0, cfg_tc_bw = z8, cfg_tsa_map = z8\<rparr>,
            recl = \<lparr>rec_prio_map = 0, rec_tc_bw = z8, rec_tsa_map = z8\<rparr>, cfgr = None, recr = None\<rparr>,
          qz_pfc = \<lparr>pfc_pending = True, pfc_state = INIT, pfc_local = zp, pfc_remote = zp, remote_param = False\<rparr>,
          app_head = []\<rparr>)"

definition qaz_initialized :: "qaz_host \<Rightarrow> string \<Rightarrow> nat \<Rightarrow> qaz_world \<Rightarrow> qaz_world" where
  "qaz_initialized q name i w =
     (let d = qaz_head w ! i; hw = get_ieee_hw q name;
          d1 = (if hw_err hw > 0 then d\<lparr>qz_ets := (qz_ets d)\<lparr>cfgl := (cfgl (qz_ets d))\<lparr>cfg_max_tcs :=
                    (case hw_ets_cap hw of None \<Rightarrow> cfg_max_tcs (cfgl (qz_ets d)) | Some v \<Rightarrow> v)\<rparr>\<rparr>,
                  qz_pfc := (qz_pfc d)\<lparr>pfc_local := (pfc_local (qz_pfc d))\<lparr>pfc_cap :=
                    (case hw_pfc_cap hw of None \<Rightarrow> pfc_cap (pfc_local (qz_pfc d)) | Some v \<Rightarrow> v)\<rparr>\<rparr>\<rparr> else d)
      in put_qz i (if dcbx_get_legacy_version q name AND NOT 3 \<noteq> 0 then d1\<lparr>qz_active := False\<rparr>
                   else d1\<lparr>qz_active := True, qz_pending := True\<rparr>) w)"

text \<open>
  Where the hardware is managed by a firmware agent, the administrative status is masked although
  it was not read: \<open>junk\<close> is the value of the uninitialised variable.
\<close>

definition ieee8021qaz_ifup :: "'m core \<Rightarrow> host \<Rightarrow> qaz_host \<Rightarrow> int \<Rightarrow> string \<Rightarrow> lldp_agent \<Rightarrow> qaz_world \<Rightarrow> qaz_world res" where
  "ieee8021qaz_ifup c h q junk name a w =
     (let e = core_env c; ty = agenttype a; ok = malloc_ok e in
      if ty \<noteq> NEAREST_BRIDGE \<or> is_bond e name \<or> is_vlan q name then Inr w
      else case get_dcbx_hw q name of (err, dcbx) \<Rightarrow>
        if err < 0 then Inr w
        else let unset = (cfg_int e name ty ''adminStatus'' = None) in
          if dcbx AND 2 \<noteq> 0
          then Inr (if unset then qaz_log [Set_Admin name ty (junk AND enabledRxOnly)] w else w)
          else case ieee8021qaz_data w name of
            Some i \<Rightarrow> Inr (qaz_initialized q name i w)
          | None \<Rightarrow>
              let w1 = (if unset then qaz_log [Set_Admin name ty enabledRxOnly] w else w)
              in case port_find_by_ifindex (porthead c) (get_ifidx e name) of
                   None \<Rightarrow> Inr w1
                 | Some k \<Rightarrow>
                     if \<not> ok sizeof_qaz_tlvs \<or> \<not> ok sizeof_qaz_unpkd \<or> \<not> ok sizeof_ets_attrib \<or> \<not> ok sizeof_etscfg_obj
                        \<or> \<not> ok sizeof_etsrec_obj \<or> \<not> ok sizeof_pfc_attrib then Inr w1
                     else let p = porthead c ! k;
                              mac = l2_packet_get_own_src_addr e (porthead c) (l2 p)
                          in bindR (read_cfg_file e h (ifname p) a (zero_qaz_tlvs name mac)) (\<lambda>d.
                               Inr (qaz_initialized q name 0 (w1\<lparr>qaz_head := d # qaz_head w1\<rparr>))))"

end
