(* ===== verification/Qaz_Safe.thy ===== *)
theory Qaz_Safe
  imports Qaz Modules
begin

text \<open>
  What the TLVs of IEEE 802.1Qaz carry from one station to the other, when the module is safe, and
  what the negotiation of two stations ends in.
\<close>

subsection \<open>Priority maps\<close>

lemma mask4: "(0xF :: 'a :: len word) = mask 4"
  by (simp add: mask_eq_exp_minus_1)

lemma nibble_bit: "bit (b AND 0xF :: u8) n \<longleftrightarrow> n < 4 \<and> bit b n"
  unfolding mask4 by (auto simp: bit_simps)

lemma high_nibble_bit: "bit (drop_bit 4 b AND 0xF :: u8) n \<longleftrightarrow> n < 4 \<and> bit b (4 + n)"
  unfolding mask4 by (auto simp: bit_simps)

lemma bit_set_prio_map:
  assumes "\<And>n. bit tc n \<Longrightarrow> n < 4" "p \<le> 7"
  shows "bit (set_prio_map m p tc) n \<longleftrightarrow>
     (if 4 * (7 - p) \<le> n \<and> n < 4 * (7 - p) + 4 then bit tc (n - 4 * (7 - p)) else bit m n)"
  using assms(1) [of "n - 4 * (7 - p)"] assms(2) unfolding set_prio_map_def mask4
  by (auto simp: bit_simps dest: bit_imp_le_length)

lemma get_set_prio_map:
  assumes "p \<le> 7" "q \<le> 7" "\<And>n. bit tc n \<Longrightarrow> n < 4"
  shows "get_prio_map (set_prio_map m p tc) q = (if p = q then tc else get_prio_map m q)"
proof (rule bit_word_eqI)
  fix n
  have "4 * (7 - p) \<le> 4 * (7 - q) + n \<and> 4 * (7 - q) + n < 4 * (7 - p) + 4 \<longleftrightarrow> p = q" if "n < 4"
    using assms(1,2) that by auto
  then show "bit (get_prio_map (set_prio_map m p tc) q) n = bit (if p = q then tc else get_prio_map m q) n"
    using assms by (auto simp: get_prio_map_def mask4 bit_simps bit_set_prio_map)
qed

text \<open>The map is read back from the four bytes it is sent as.\<close>

lemma bit_prio_step:
  assumes "i < 4"
  shows "bit (set_prio_map (set_prio_map m (2 * i) (drop_bit 4 b AND 0xF)) (2 * i + 1) (b AND 0xF)) n
     \<longleftrightarrow> (if 8 * (3 - i) \<le> n \<and> n < 8 * (3 - i) + 8 then bit b (n - 8 * (3 - i)) else bit m n)"
proof -
  define k where "k = 8 * (3 - i)"
  have k: "4 * (7 - 2 * i) = k + 4" "4 * (7 - (2 * i + 1)) = k" "2 * i \<le> 7" "2 * i + 1 \<le> 7" using assms by (auto simp: k_def)
  have k2: "4 * (6 - 2 * i) = k" using assms by (auto simp: k_def)
  have "bit (set_prio_map m (2 * i) (drop_bit 4 b AND 0xF)) n
      = (if k + 4 \<le> n \<and> n < k + 8 then bit b (n - k) else bit m n)"
    using bit_set_prio_map [of "drop_bit 4 b AND 0xF" "2 * i" m n] k(3) by (auto simp: k(1) high_nibble_bit)
  then show ?thesis unfolding k_def [symmetric]
    using bit_set_prio_map [of "b AND 0xF" "2 * i + 1" "set_prio_map m (2 * i) (drop_bit 4 b AND 0xF)" n] k(4) k2
    by (auto simp: nibble_bit)
qed

definition prio_step :: "nat \<Rightarrow> u8 \<Rightarrow> u32 \<Rightarrow> u32" where
  "prio_step i b m = set_prio_map (set_prio_map m (2 * i) (drop_bit 4 b AND 0xF)) (2 * i + 1) (b AND 0xF)"

lemma read_prio_map_be32:
  assumes "tlv_info t = Some (pre @ be32_bytes m @ rest)" "length pre = off"
  shows "read_prio_map t off 0 4 0 = Inr m"
proof -
  have at: "info_at t (off + j) = Inr ((be32_bytes m @ rest) ! j)" if "j < 4" for j
    using assms that by (simp add: info_at_def nth_append be32_bytes_def)
  note at4 = at [of 0] at [of 1] at [of 2] at [of 3]
  have "read_prio_map t off 0 (Suc (Suc (Suc (Suc 0)))) 0
      = Inr (prio_step 3 (ucast m) (prio_step 2 (ucast (drop_bit 8 m))
          (prio_step 1 (ucast (drop_bit 16 m)) (prio_step 0 (ucast (drop_bit 24 m)) 0))))"
    using at4 by (simp add: be32_bytes_def numeral_eq_Suc prio_step_def)
  moreover have "prio_step 3 (ucast m) (prio_step 2 (ucast (drop_bit 8 m))
          (prio_step 1 (ucast (drop_bit 16 m)) (prio_step 0 (ucast (drop_bit 24 m)) 0))) = m"
    by (rule bit_word_eqI) (auto simp: bit_prio_step [folded prio_step_def] bit_simps)
  ultimately show ?thesis by (simp add: numeral_eq_Suc)
qed

lemma read_table_at:
  assumes "tlv_info t = Some (pre @ xs @ rest)" "length pre = off"
  shows "read_table t off (length xs) = Inr xs"
  using assms
proof (induction xs arbitrary: pre off)
  case (Cons x xs)
  have "info_at t off = Inr x" using Cons.prems by (simp add: info_at_def nth_append)
  then show ?case using Cons.IH [of "pre @ [x]" "Suc off"] Cons.prems by simp
qed simp

subsection \<open>Well-formed data\<close>

text \<open>
  Every table has one entry per traffic class, and the ETS machine is in \<open>RX_RECOMMEND\<close> only while
  there is a recommendation, unless the state machines have still to run.
\<close>

definition etscfg_ok :: "etscfg_obj \<Rightarrow> bool" where
  "etscfg_ok c \<longleftrightarrow> length (cfg_tc_bw c) = MAX_TCS \<and> length (cfg_tsa_map c) = MAX_TCS"

definition etsrec_ok :: "etsrec_obj \<Rightarrow> bool" where
  "etsrec_ok r \<longleftrightarrow> length (rec_tc_bw r) = MAX_TCS \<and> length (rec_tsa_map r) = MAX_TCS"

definition qz_ok :: "ieee8021qaz_tlvs \<Rightarrow> bool" where
  "qz_ok d \<longleftrightarrow> etscfg_ok (cfgl (qz_ets d)) \<and> etsrec_ok (recl (qz_ets d)) \<and> pred_option etscfg_ok (cfgr (qz_ets d))
     \<and> pred_option etsrec_ok (recr (qz_ets d))"

definition qaz_inv :: "qaz_world \<Rightarrow> bool" where
  "qaz_inv w \<longleftrightarrow> list_all qz_ok (qaz_head w)"

lemma qaz_data_ok: "qaz_inv w \<Longrightarrow> ieee8021qaz_data w name = Some i \<Longrightarrow> i < length (qaz_head w) \<and> qz_ok (qaz_head w ! i)"
  using find_index_Some by (fastforce simp: ieee8021qaz_data_def qaz_inv_def list_all_length)

lemma put_qz_ok [simp]: "qaz_inv w \<Longrightarrow> qz_ok d \<Longrightarrow> qaz_inv (put_qz i d w)"
  using set_update_subset_insert [of "qaz_head w" i d] by (auto simp: qaz_inv_def put_qz_def list_all_iff)

lemma qaz_log_simps [simp]:
  "qaz_head (qaz_log evs w) = qaz_head w" "qaz_events (qaz_log evs w) = qaz_events w @ evs" "qaz_inv (qaz_log evs w) = qaz_inv w"
  "ieee8021qaz_data (qaz_log evs w) name = ieee8021qaz_data w name"
  by (simp_all add: qaz_log_def qaz_inv_def ieee8021qaz_data_def)

lemma put_qz_simps [simp]:
  "qaz_events (put_qz i d w) = qaz_events w" "length (qaz_head (put_qz i d w)) = length (qaz_head w)"
  "i < length (qaz_head w) \<Longrightarrow> qaz_head (put_qz i d w) ! i = d" "put_qz i d (put_qz i d' w) = put_qz i d w"
  by (simp_all add: put_qz_def)

lemma qz_ok_updates [simp]:
  "qz_ok (d\<lparr>app_head := x1\<rparr>) = qz_ok d" "qz_ok (d\<lparr>qz_pfc := x2\<rparr>) = qz_ok d" "qz_ok (d\<lparr>qz_rx := x3\<rparr>) = qz_ok d"
  "qz_ok (d\<lparr>qz_active := x4\<rparr>) = qz_ok d" "qz_ok (d\<lparr>qz_pending := x5\<rparr>) = qz_ok d" "qz_ok (d\<lparr>ieee8021qazdu := x6\<rparr>) = qz_ok d"
  "qz_ok (d\<lparr>remote_mac := x7\<rparr>) = qz_ok d" "qz_ok (d\<lparr>qz_ets := (qz_ets d)\<lparr>ets_state := x8\<rparr>\<rparr>) = qz_ok d"
  "qz_ok (d\<lparr>qz_ets := (qz_ets d)\<lparr>recr := None, cfgr := None\<rparr>\<rparr>) \<longleftrightarrow> etscfg_ok (cfgl (qz_ets d)) \<and> etsrec_ok (recl (qz_ets d))"
  by (simp_all add: qz_ok_def)

lemma pfc_sm_frame [simp]:
  "qz_ets (pfc_sm d) = qz_ets d" "app_head (pfc_sm d) = app_head d" "qz_active (pfc_sm d) = qz_active d"
  "qz_pending (pfc_sm d) = qz_pending d" "qz_ifname (pfc_sm d) = qz_ifname d" "qz_ok (pfc_sm d) = qz_ok d"
  "qz_rx (pfc_sm d) = qz_rx d" "local_mac (pfc_sm d) = local_mac d" "remote_mac (pfc_sm d) = remote_mac d"
  "pfc_local (qz_pfc (pfc_sm d)) = pfc_local (qz_pfc d)" "pfc_remote (qz_pfc (pfc_sm d)) = pfc_remote (qz_pfc d)"
  "remote_param (qz_pfc (pfc_sm d)) = remote_param (qz_pfc d)"
  by (simp_all add: pfc_sm_def Let_def)

text \<open>The ETS machine, as a function of its inputs alone.\<close>

lemma ets_sm_eq: "ets_sm l r st = (if cfg_willing l \<and> r \<noteq> None then RX_RECOMMEND else INIT)"
  by (auto simp: ets_sm_def)

lemma app_sethw_ok:
  assumes "qaz_inv w" "i < length (qaz_head w)"
  shows "qaz_inv (ieee8021qaz_app_sethw i name w)"
    "length (qaz_head (ieee8021qaz_app_sethw i name w)) = length (qaz_head w)"
    "\<exists>h. qaz_head (ieee8021qaz_app_sethw i name w) = (qaz_head w)[i := (qaz_head w ! i)\<lparr>app_head := h\<rparr>]"
proof -
  have d: "qz_ok (qaz_head w ! i)" using assms by (simp add: qaz_inv_def list_all_length)
  have "\<exists>h. qaz_head w = (qaz_head w)[i := (qaz_head w ! i)\<lparr>app_head := h\<rparr>]"
    by (rule exI [of _ "app_head (qaz_head w ! i)"]) simp
  then show "qaz_inv (ieee8021qaz_app_sethw i name w)"
    "length (qaz_head (ieee8021qaz_app_sethw i name w)) = length (qaz_head w)"
    "\<exists>h. qaz_head (ieee8021qaz_app_sethw i name w) = (qaz_head w)[i := (qaz_head w ! i)\<lparr>app_head := h\<rparr>]"
    using assms d by (auto simp: ieee8021qaz_app_sethw_def put_qz_def qaz_inv_def split: prod.splits)
       (use assms d set_update_subset_insert in \<open>fastforce simp: list_all_iff\<close>)
qed

text \<open>What the machines make of the data of an interface, and what they hand to the kernel.\<close>

definition ets_ran :: "ieee8021qaz_tlvs \<Rightarrow> ieee8021qaz_tlvs" where
  "ets_ran d = d\<lparr>qz_ets := (qz_ets d)\<lparr>ets_state := ets_sm (cfgl (qz_ets d)) (recr (qz_ets d)) (ets_state (qz_ets d))\<rparr>\<rparr>"

definition oper_ets :: "ieee8021qaz_tlvs \<Rightarrow> ieee_ets" where
  "oper_ets d = (case recr (qz_ets d) of None \<Rightarrow> ets_cfg_to_ieee (cfgl (qz_ets d))
     | Some r \<Rightarrow> if cfg_willing (cfgl (qz_ets d)) then ets_rec_to_ieee r else ets_cfg_to_ieee (cfgl (qz_ets d)))"

definition oper_pfc :: "ieee8021qaz_tlvs \<Rightarrow> ieee_pfc" where
  "oper_pfc d = (let obj = (if pfc_state (qz_pfc d) = RX_RECOMMEND then pfc_remote (qz_pfc d) else pfc_local (qz_pfc d))
     in \<lparr>pfc_en = pfc_enable obj, hw_mbc = pfc_mbc obj, hw_delay = ucast (pfc_delay obj)\<rparr>)"

lemma ets_ran_simps [simp]:
  "qz_ok (ets_ran d) = qz_ok d" "qz_ifname (ets_ran d) = qz_ifname d" "recr (qz_ets (ets_ran d)) = recr (qz_ets d)"
  "cfgl (qz_ets (ets_ran d)) = cfgl (qz_ets d)" "recl (qz_ets (ets_ran d)) = recl (qz_ets d)"
  "cfgr (qz_ets (ets_ran d)) = cfgr (qz_ets d)" "qz_pfc (ets_ran d) = qz_pfc d"
  "app_head (ets_ran d) = app_head d" "qz_active (ets_ran d) = qz_active d" "qz_pending (ets_ran d) = qz_pending d"
  "local_mac (ets_ran d) = local_mac d" "remote_mac (ets_ran d) = remote_mac d" "qz_rx (ets_ran d) = qz_rx d"
  "ets_state (qz_ets (ets_ran d)) = (if cfg_willing (cfgl (qz_ets d)) \<and> recr (qz_ets d) \<noteq> None then RX_RECOMMEND else INIT)"
  by (simp_all add: ets_ran_def ets_sm_eq)

lemma run_all_sm_eq:
  assumes ty: "agenttype a = NEAREST_BRIDGE" and i: "ieee8021qaz_data w (ifname p) = Some i"
  shows "run_all_sm e p a w = Inr (let d = pfc_sm (ets_ran (qaz_head w ! i)) in
    if \<not> malloc_ok e sizeof_ieee_ets then put_qz i (ets_ran (qaz_head w ! i)) w
    else if malloc_ok e sizeof_ieee_pfc \<and> ieee8021qaz_check_active (put_qz i d w) (ifname p)
      then ieee8021qaz_app_sethw i (ifname p)
        (qaz_log [Set_Dcbx_Mode (ifname p), Set_Ieee_Hw (ifname p) (oper_ets d) (oper_pfc d)] (put_qz i d w))
    else put_qz i d w)"
proof -
  let ?d = "qaz_head w ! i"
  have ets: "(if ets_state (qz_ets (ets_ran ?d)) = RX_RECOMMEND then bindR (derefR (recr (qz_ets ?d))) (\<lambda>r. Inr (ets_rec_to_ieee r))
      else Inr (ets_cfg_to_ieee (cfgl (qz_ets ?d)))) = Inr (oper_ets (pfc_sm (ets_ran ?d)))"
    by (auto simp: oper_ets_def split: option.split)
  show ?thesis
    unfolding run_all_sm_def i Let_def ets_ran_def [symmetric] option.case ets
    using ty by (auto simp: oper_pfc_def Let_def)
qed

lemma put_qz_names:
  assumes "i < length (qaz_head w)" "qz_ifname d = qz_ifname (qaz_head w ! i)"
  shows "map qz_ifname (qaz_head (put_qz i d w)) = map qz_ifname (qaz_head w)"
  using assms by (simp add: put_qz_def map_update list_update_same_conv)

text \<open>Running the machines ends well; what is sent then agrees with the state they end in.\<close>

lemma run_all_sm_ok:
  assumes inv: "qaz_inv w" and ty: "agenttype a = NEAREST_BRIDGE" and i: "ieee8021qaz_data w (ifname p) = Some i"
  shows "\<exists>w'. run_all_sm e p a w = Inr w' \<and> qaz_inv w' \<and> length (qaz_head w') = length (qaz_head w)
    \<and> map qz_ifname (qaz_head w') = map qz_ifname (qaz_head w)
    \<and> (ets_state (qz_ets (qaz_head w' ! i)) = RX_RECOMMEND \<longrightarrow> recr (qz_ets (qaz_head w' ! i)) \<noteq> None)"
proof -
  note d = qaz_data_ok [OF inv i]
  let ?d = "pfc_sm (ets_ran (qaz_head w ! i))"
  let ?w2 = "qaz_log [Set_Dcbx_Mode (ifname p), Set_Ieee_Hw (ifname p) (oper_ets ?d) (oper_pfc ?d)] (put_qz i ?d w)"
  have w2: "qaz_inv ?w2" "i < length (qaz_head ?w2)" using d inv by auto
  obtain h where h: "qaz_head (ieee8021qaz_app_sethw i (ifname p) ?w2) = qaz_head (put_qz i (?d\<lparr>app_head := h\<rparr>) w)"
    using app_sethw_ok(3) [OF w2, of "ifname p"] d by (auto simp: put_qz_def)
  show ?thesis
    using d inv app_sethw_ok(1) [OF w2, of "ifname p"]
    by (auto simp: run_all_sm_eq [OF ty i] Let_def put_qz_names h simp del: ets_ran_simps(14))
       (simp_all split: if_splits)
qed

subsection \<open>What is sent\<close>

definition qaz_seq :: "(u8 \<times> bytes) list \<Rightarrow> bool" where
  "qaz_seq ts \<longleftrightarrow> (\<forall>(ty, bs) \<in> set ts. ty = ORG_SPECIFIC_TLV \<and> take 3 bs = QAZ_OUI \<and> 5 \<le> length bs)"

definition qaz_tlv :: "unpacked_tlv option \<Rightarrow> bool" where
  "qaz_tlv t \<longleftrightarrow> packable t \<and> qaz_seq (tlv_pair t)"

lemma length_be32_bytes [simp]: "length (be32_bytes m) = 4"
  by (simp add: be32_bytes_def)

lemma qaz_tlv_None [simp]: "qaz_tlv None"
  by (simp add: qaz_tlv_def packable_def tlv_pair_def qaz_seq_def)

lemma org_tlv_qaz:
  assumes "length info \<le> 256" "take 3 info = QAZ_OUI" "5 \<le> length info"
  shows "qaz_tlv (org_tlv ok n info)"
proof -
  have "unat (of_nat (length info) :: u16) = length info" using assms(1) by (simp add: unat_of_nat)
  moreover have "(of_nat (length info) :: u16) \<noteq> 0" using calculation assms(3) by (metis unat_0 not_numeral_le_zero)
  ultimately show ?thesis using assms
    by (auto simp: qaz_tlv_def packable_def org_tlv_def create_tlv_def wf_tlv_def tlv_payload_def tlv_pair_def qaz_seq_def)
qed

lemma bld_qaz_tlvs:
  assumes "qz_ok d"
  shows "ets_state (qz_ets d) = RX_RECOMMEND \<longrightarrow> recr (qz_ets d) \<noteq> None \<Longrightarrow>
      \<exists>t. bld_ieee8021qaz_etscfg_tlv ok d = Inr t \<and> qaz_tlv t"
    "qaz_tlv (bld_ieee8021qaz_etsrec_tlv ok d)" "qaz_tlv (bld_ieee8021qaz_pfc_tlv ok d)"
    "length (hw_apps (get_ieee_hw q name)) \<le> 83 \<Longrightarrow> qaz_tlv (bld_ieee8021qaz_app_tlv ok q name)"
proof -
  have len: "length (concat (map app_prio_bytes xs)) = 3 * length xs" for xs
    by (induction xs) (auto simp: app_prio_bytes_def)
  show "\<exists>t. bld_ieee8021qaz_etscfg_tlv ok d = Inr t \<and> qaz_tlv t"
    if "ets_state (qz_ets d) = RX_RECOMMEND \<longrightarrow> recr (qz_ets d) \<noteq> None"
    using assms that
    by (cases "ets_state (qz_ets d)")
      (auto simp: bld_ieee8021qaz_etscfg_tlv_def Let_def qz_ok_def etscfg_ok_def etsrec_ok_def intro!: org_tlv_qaz)
  show "qaz_tlv (bld_ieee8021qaz_etsrec_tlv ok d)" "qaz_tlv (bld_ieee8021qaz_pfc_tlv ok d)"
    using assms by (auto simp: bld_ieee8021qaz_etsrec_tlv_def bld_ieee8021qaz_pfc_tlv_def Let_def qz_ok_def etsrec_ok_def
        intro!: org_tlv_qaz)
  show "qaz_tlv (bld_ieee8021qaz_app_tlv ok q name)" if "length (hw_apps (get_ieee_hw q name)) \<le> 83"
    using that by (auto simp: bld_ieee8021qaz_app_tlv_def Let_def len intro!: org_tlv_qaz)
qed

lemma pack_all_step:
  assumes "packed_as n us m" "\<forall>t \<in> set ts. packable t" "length (tlv_concat us) + sum_list (map TLVSIZE ts) \<le> n" "n < 65536"
    "\<forall>k \<le> 2000. ok k"
  shows "\<exists>m'. pack_all ok ts m (int n) = Inr m' \<and> packed_as n (us @ concat (map tlv_pair ts)) m'"
  using assms
proof (induction ts arbitrary: us m)
  case (Cons t ts)
  then obtain m1 where m1: "pack_tlv_after ok t m (int n) = Inr (0, m1)" "packed_as n (us @ tlv_pair t) m1"
    using pack_step [of n us m t ok] by fastforce
  then show ?case using Cons.IH [of "us @ tlv_pair t" m1] Cons.prems tlv_pair_length [of t] by simp
qed simp

lemma packed_as_carries: "packed_as n ts m \<Longrightarrow> length (tlv_concat ts) \<le> n \<Longrightarrow> ptlv_carries m ts"
  by (auto simp: packed_as_def ptlv_carries_def mtlv_used_def)

definition qaz_host_ok :: "env \<Rightarrow> qaz_host \<Rightarrow> bool" where
  "qaz_host_ok e q \<longleftrightarrow> (\<forall>n \<le> 2000. malloc_ok e n) \<and> (\<forall>n. length (hw_apps (get_ieee_hw q n)) \<le> 83)"

text \<open>The TLVs of the block that is built, in order.\<close>

definition qaz_sent :: "env \<Rightarrow> host \<Rightarrow> qaz_host \<Rightarrow> string \<Rightarrow> agent_type \<Rightarrow> unpacked_tlv option \<Rightarrow> ieee8021qaz_tlvs \<Rightarrow> unpacked_tlv option list" where
  "qaz_sent e h q name ty etscfg d =
     [if \<not> is_tlv_txdisabled q name ty (TLVID OUI_IEEE_8021 LLDP_8021QAZ_ETSCFG) then etscfg else None,
      if is_tlv_txenabled h name ty (TLVID OUI_IEEE_8021 LLDP_8021QAZ_ETSREC) then bld_ieee8021qaz_etsrec_tlv (malloc_ok e) d else None,
      if \<not> is_tlv_txdisabled q name ty (TLVID OUI_IEEE_8021 LLDP_8021QAZ_PFC) then bld_ieee8021qaz_pfc_tlv (malloc_ok e) d else None,
      if is_tlv_txenabled h name ty (TLVID OUI_IEEE_8021 LLDP_8021QAZ_APP) then bld_ieee8021qaz_app_tlv (malloc_ok e) q name else None]"

lemma bld_tlv_ok:
  assumes q: "qaz_host_ok e q" and inv: "qaz_inv w" and ty: "agenttype a = NEAREST_BRIDGE"
    and i: "ieee8021qaz_data w (ifname p) = Some i" and act: "qz_active (qaz_head w ! i)"
    and st: "ets_state (qz_ets (qaz_head w ! i)) = RX_RECOMMEND \<longrightarrow> recr (qz_ets (qaz_head w ! i)) \<noteq> None"
  shows "\<exists>m t. bld_ieee8021qaz_etscfg_tlv (malloc_ok e) (qaz_head w ! i) = Inr t \<and> ieee8021qaz_bld_tlv e h q p a w = Inr (Some m)
    \<and> ptlv_carries m (concat (map tlv_pair (qaz_sent e h q (ifname p) (agenttype a) t (qaz_head w ! i))))
    \<and> (\<forall>x \<in> set (qaz_sent e h q (ifname p) (agenttype a) t (qaz_head w ! i)). qaz_tlv x)"
proof -
  let ?d = "qaz_head w ! i" let ?ok = "malloc_ok e"
  note d = qaz_data_ok [OF inv i, THEN conjunct2]
  obtain t where t: "bld_ieee8021qaz_etscfg_tlv ?ok ?d = Inr t" "qaz_tlv t" using bld_qaz_tlvs(1) [OF d st] by auto
  let ?ts = "qaz_sent e h q (ifname p) (agenttype a) t ?d"
  have all: "\<forall>x \<in> set ?ts. qaz_tlv x"
    using t(2) bld_qaz_tlvs(2-4) [OF d] q by (auto simp: qaz_sent_def qaz_host_ok_def)
  define n where "n = sum_list (map TLVSIZE ?ts)"
  have "TLVSIZE x \<le> 258" if "qaz_tlv x" for x
    using that by (auto simp: qaz_tlv_def packable_def TLVSIZE_def split: option.splits)
  then have "sum_list (map TLVSIZE ?ts) \<le> sum_list (map (\<lambda>_. 258) ?ts)" using all by (intro sum_list_mono) auto
  then have n: "n \<le> 1032" by (simp add: n_def qaz_sent_def)
  have m0: "packed_as n [] \<lparr>ptlv_size = 0, ptlv_tlv = Some (replicate n 0)\<rparr>" by (simp add: packed_as_def mtlv_used_def)
  have ok: "\<forall>k \<le> 2000. ?ok k" using q by (simp add: qaz_host_ok_def)
  obtain m where m: "pack_all ?ok ?ts \<lparr>ptlv_size = 0, ptlv_tlv = Some (replicate n 0)\<rparr> (int n) = Inr m"
      "packed_as n (concat (map tlv_pair ?ts)) m"
    using pack_all_step [OF m0 _ _ _ ok, of ?ts] all n by (auto simp: n_def qaz_tlv_def)
  obtain t1 t2 t3 t4 where ts: "?ts = [t1, t2, t3, t4]" by (simp add: qaz_sent_def)
  note parts = ts [unfolded qaz_sent_def list.inject]
  have t1: "(if \<not> is_tlv_txdisabled q (ifname p) (agenttype a) (TLVID OUI_IEEE_8021 LLDP_8021QAZ_ETSCFG)
      then bld_ieee8021qaz_etscfg_tlv ?ok ?d else Inr None) = Inr t1"
    using parts t(1) by auto
  have sz: "TLVSIZE t1 + TLVSIZE t2 + TLVSIZE t3 + TLVSIZE t4 = n" by (simp add: n_def ts)
  have "?ok n" "create_ptlv ?ok = Some \<lparr>ptlv_size = 0, ptlv_tlv = None\<rparr>" using ok n by (auto simp: create_ptlv_def)
  then have "ieee8021qaz_bld_tlv e h q p a w = Inr (Some m)"
    unfolding ieee8021qaz_bld_tlv_def Let_def i option.case t1 bindR_Inr
      parts [THEN conjunct2, THEN conjunct1] parts [THEN conjunct2, THEN conjunct2, THEN conjunct1]
      parts [THEN conjunct2, THEN conjunct2, THEN conjunct2, THEN conjunct1] sz
    using ty act m(1) ts by simp
  moreover have "length (tlv_concat (concat (map tlv_pair xs))) = sum_list (map TLVSIZE xs)" if "\<forall>x \<in> set xs. qaz_tlv x" for xs
    using that by (induction xs) (auto simp: tlv_pair_length qaz_tlv_def)
  ultimately show ?thesis using t all packed_as_carries [OF m(2)] by (auto simp: n_def)
qed

lemma qaz_data_names: "map qz_ifname (qaz_head w') = map qz_ifname (qaz_head w) \<Longrightarrow> ieee8021qaz_data w' name = ieee8021qaz_data w name"
proof -
  have "find_index (\<lambda>d. strn_eq IFNAMSIZ (qz_ifname d) name) ds = find_index (\<lambda>n. strn_eq IFNAMSIZ n name) (map qz_ifname ds)" for ds
    by (induction ds) auto
  then show "map qz_ifname (qaz_head w') = map qz_ifname (qaz_head w) \<Longrightarrow> ?thesis" unfolding ieee8021qaz_data_def by metis
qed

lemma put_qz_data [simp]:
  assumes "i < length (qaz_head w)" "qz_ifname d = qz_ifname (qaz_head w ! i)"
  shows "ieee8021qaz_data (put_qz i d w) name = ieee8021qaz_data w name"
  by (rule qaz_data_names [OF put_qz_names [OF assms]])

lemma gettlv_ok:
  assumes q: "qaz_host_ok e q" and inv: "qaz_inv w"
  shows "\<exists>r w'. ieee8021qaz_gettlv e h q p a w = Inr (r, w') \<and> qaz_inv w'
    \<and> (\<forall>t. r = Some t \<longrightarrow> (\<exists>ts. qaz_seq ts \<and> wf_seq ts \<and> ptlv_carries t ts))"
proof (cases "agenttype a = NEAREST_BRIDGE \<and> ieee8021qaz_data w (ifname p) \<noteq> None")
  case False
  then show ?thesis using inv by (auto simp: ieee8021qaz_gettlv_def run_all_sm_def ieee8021qaz_bld_tlv_def)
next
  case True
  then obtain i where ty: "agenttype a = NEAREST_BRIDGE" and i: "ieee8021qaz_data w (ifname p) = Some i" by auto
  obtain w' where w': "run_all_sm e p a w = Inr w'" "qaz_inv w'" "map qz_ifname (qaz_head w') = map qz_ifname (qaz_head w)"
    "ets_state (qz_ets (qaz_head w' ! i)) = RX_RECOMMEND \<longrightarrow> recr (qz_ets (qaz_head w' ! i)) \<noteq> None"
    using run_all_sm_ok [OF inv ty i] by blast
  note i' = qaz_data_names [OF w'(3), of "ifname p", unfolded i]
  show ?thesis
  proof (cases "qz_active (qaz_head w' ! i)")
    case False
    then show ?thesis using ty w' i' by (auto simp: ieee8021qaz_gettlv_def ieee8021qaz_bld_tlv_def Let_def)
  next
    case act: True
    obtain m t where m: "ieee8021qaz_bld_tlv e h q p a w' = Inr (Some m)"
      "ptlv_carries m (concat (map tlv_pair (qaz_sent e h q (ifname p) (agenttype a) t (qaz_head w' ! i))))"
      "\<forall>x \<in> set (qaz_sent e h q (ifname p) (agenttype a) t (qaz_head w' ! i)). qaz_tlv x"
      using bld_tlv_ok [OF q w'(2) ty i' act w'(4)] by blast
    have seq: "qaz_seq (concat (map tlv_pair xs)) \<and> wf_seq (concat (map tlv_pair xs))" if "\<forall>x \<in> set xs. qaz_tlv x" for xs
      using that by (induction xs) (auto simp: qaz_tlv_def wf_seq_pair qaz_seq_def)
    show ?thesis using ty w' m seq [OF m(3)] by (auto simp: ieee8021qaz_gettlv_def)
  qed
qed

subsection \<open>Round trips of the TLVs\<close>

lemma flag_bits_read:
  assumes "c AND 0xF = c"
  shows "bit (flag_bits b7 b6 c) 7 = b7" "bit (flag_bits b7 b6 c) 6 = b6" "flag_bits b7 b6 c AND 0xF = c"
    "c AND 7 = c \<Longrightarrow> flag_bits b7 b6 c AND 7 = c"
proof -
  have c: "\<not> bit c n" if "4 \<le> n" for n using assms nibble_bit [of c n] that by auto
  show "bit (flag_bits b7 b6 c) 7 = b7" "bit (flag_bits b7 b6 c) 6 = b6"
    using c [of 7] c [of 6] by (auto simp: flag_bits_def bit_simps)
  have f: "bit (flag_bits b7 b6 c) n = bit c n" if "n < 4" for n
    using that by (auto simp: flag_bits_def bit_simps)
  show n: "flag_bits b7 b6 c AND 0xF = c"
  proof (rule bit_word_eqI)
    show "bit (flag_bits b7 b6 c AND 0xF) n = bit c n" for n
      using f [of n] c [of n] by (cases "n < 4") (auto simp: nibble_bit)
  qed
  have "flag_bits b7 b6 c AND 7 = (flag_bits b7 b6 c AND 0xF) AND 7" by (simp add: and.assoc)
  then show "c AND 7 = c \<Longrightarrow> flag_bits b7 b6 c AND 7 = c" by (simp add: n)
qed

lemma and_7_nibble: "(x AND 7) AND 0xF = x AND 7" "(x AND 7) AND 7 = (x AND 7 :: u8)"
  by (simp_all add: and.assoc)

lemma ets_tlv_read:
  assumes "tlv_info t = Some (QAZ_OUI @ [sub, b] @ be32_bytes m @ bw @ tsa)" "length bw = 8" "length tsa = 8"
  shows "info_at t 3 = Inr sub" "info_at t 4 = Inr b" "read_prio_map t 5 0 4 0 = Inr m" "read_table t 9 8 = Inr bw" "read_table t 17 8 = Inr tsa"
proof -
  show "info_at t 3 = Inr sub" "info_at t 4 = Inr b" using assms by (simp_all add: info_at_def)
  show "read_prio_map t 5 0 4 0 = Inr m"
    using read_prio_map_be32 [of t "QAZ_OUI @ [sub, b]" m "bw @ tsa" 5] assms by simp
  show "read_table t 9 8 = Inr bw"
    using read_table_at [of t "QAZ_OUI @ [sub, b] @ be32_bytes m" bw tsa 9] assms by simp
  show "read_table t 17 8 = Inr tsa"
    using read_table_at [of t "QAZ_OUI @ [sub, b] @ be32_bytes m @ bw" tsa "[]" 17] assms by simp
qed

text \<open>What a station advertises as its configuration, and what the peer reads from the TLV.\<close>

definition advertised_cfg :: "ieee8021qaz_tlvs \<Rightarrow> etscfg_obj" where
  "advertised_cfg d = (let c = (cfgl (qz_ets d))\<lparr>cfg_max_tcs := cfg_max_tcs (cfgl (qz_ets d)) AND 7\<rparr> in
     case (ets_state (qz_ets d), recr (qz_ets d)) of
       (RX_RECOMMEND, Some r) \<Rightarrow> c\<lparr>cfg_prio_map := rec_prio_map r, cfg_tc_bw := rec_tc_bw r, cfg_tsa_map := rec_tsa_map r\<rparr>
     | _ \<Rightarrow> c)"

definition advertised_pfc :: "ieee8021qaz_tlvs \<Rightarrow> pfc_obj \<Rightarrow> pfc_obj" where
  "advertised_pfc d old = (let l = pfc_local (qz_pfc d) in old\<lparr>pfc_willing := pfc_willing l, pfc_mbc := pfc_mbc l, pfc_cap := pfc_cap l,
     pfc_enable := (if pfc_state (qz_pfc d) = INIT then pfc_enable l else pfc_enable (pfc_remote (qz_pfc d)))\<rparr>)"

lemma etscfg_roundtrip:
  assumes "qz_ok d" "bld_ieee8021qaz_etscfg_tlv ok d = Inr (Some t)" "ok' sizeof_etscfg_obj"
  shows "process_ieee8021qaz_etscfg_tlv ok' t d' = Inr (d'\<lparr>qz_ets := (qz_ets d')\<lparr>cfgr := Some (advertised_cfg d)\<rparr>\<rparr>)"
proof -
  let ?c = "advertised_cfg d"
  have "tlv_info t = Some (QAZ_OUI @ [9, flag_bits (cfg_willing ?c) (cfg_cbs ?c) (cfg_max_tcs ?c)] @ be32_bytes (cfg_prio_map ?c)
      @ cfg_tc_bw ?c @ cfg_tsa_map ?c) \<and> length (cfg_tc_bw ?c) = 8 \<and> length (cfg_tsa_map ?c) = 8"
    using assms(1,2)
    by (cases "ets_state (qz_ets d)"; cases "recr (qz_ets d)")
      (auto simp: bld_ieee8021qaz_etscfg_tlv_def advertised_cfg_def Let_def org_tlv_def create_tlv_def qz_ok_def etscfg_ok_def etsrec_ok_def
        split: if_splits)
  moreover have "cfg_max_tcs ?c = cfg_max_tcs (cfgl (qz_ets d)) AND 7"
    by (simp add: advertised_cfg_def Let_def split: qaz_state.split option.split)
  ultimately show ?thesis using assms(3)
    by (simp add: process_ieee8021qaz_etscfg_tlv_def Let_def ets_tlv_read flag_bits_read and_7_nibble)
qed

lemma etsrec_roundtrip:
  assumes "qz_ok d" "bld_ieee8021qaz_etsrec_tlv ok d = Some t" "recr (qz_ets d') \<noteq> None \<or> ok' sizeof_etsrec_obj"
  shows "process_ieee8021qaz_etsrec_tlv ok' t d' = Inr (d'\<lparr>qz_ets := (qz_ets d')\<lparr>recr := Some (recl (qz_ets d))\<rparr>\<rparr>)"
proof -
  let ?r = "recl (qz_ets d)"
  have "tlv_info t = Some (QAZ_OUI @ [10, 0] @ be32_bytes (rec_prio_map ?r) @ rec_tc_bw ?r @ rec_tsa_map ?r)"
    "length (rec_tc_bw ?r) = 8" "length (rec_tsa_map ?r) = 8"
    using assms(1,2) by (auto simp: bld_ieee8021qaz_etsrec_tlv_def Let_def org_tlv_def create_tlv_def qz_ok_def etsrec_ok_def split: if_splits)
  from ets_tlv_read [OF this] show ?thesis using assms(3) by (auto simp: process_ieee8021qaz_etsrec_tlv_def Let_def)
qed

lemma pfc_roundtrip:
  assumes "bld_ieee8021qaz_pfc_tlv ok d = Some t" "pfc_cap (pfc_local (qz_pfc d)) AND 0xF = pfc_cap (pfc_local (qz_pfc d))"
  shows "process_ieee8021qaz_pfc_tlv t d' = Inr (d'\<lparr>qz_pfc := (qz_pfc d')\<lparr>
    pfc_remote := advertised_pfc d (pfc_remote (qz_pfc d')), remote_param := True\<rparr>\<rparr>)"
  using assms by (auto simp: bld_ieee8021qaz_pfc_tlv_def process_ieee8021qaz_pfc_tlv_def Let_def org_tlv_def create_tlv_def info_at_def
      advertised_pfc_def flag_bits_read split: if_splits)

subsection \<open>A received LLDPDU\<close>

text \<open>The TLVs of an LLDPDU, one after the other, as the core hands them to the module.\<close>

fun qaz_pdu :: "'m core \<Rightarrow> qaz_host \<Rightarrow> port \<Rightarrow> lldp_agent \<Rightarrow> unpacked_tlv list \<Rightarrow> qaz_world \<Rightarrow> (lldp_agent \<times> qaz_world) res" where
  "qaz_pdu c q p a [] w = Inr (a, w)"
| "qaz_pdu c q p a (t # ts) w = bindR (ieee8021qaz_rchange c q p a t w) (\<lambda>(_, a1, w1). qaz_pdu c q p a1 ts w1)"

lemma qaz_pdu_append: "qaz_pdu c q p a (xs @ ys) w = bindR (qaz_pdu c q p a xs w) (\<lambda>(a1, w1). qaz_pdu c q p a1 ys w1)"
  by (induction xs arbitrary: a w) (auto simp: bindR_assoc split: prod.split intro!: arg_cong [where f = "bindR _"])

definition rx_slot :: "u8 \<Rightarrow> ieee8021qaz_unpkd_tlvs \<Rightarrow> unpacked_tlv option" where
  "rx_slot sub r = (if sub = 9 then rx_etscfg r else if sub = 10 then rx_etsrec r else if sub = 11 then rx_pfc r else rx_app r)"

definition rx_keep :: "u8 \<Rightarrow> unpacked_tlv \<Rightarrow> ieee8021qaz_unpkd_tlvs \<Rightarrow> ieee8021qaz_unpkd_tlvs" where
  "rx_keep sub t r = (if sub = 9 then r\<lparr>rx_etscfg := Some t\<rparr> else if sub = 10 then r\<lparr>rx_etsrec := Some t\<rparr>
     else if sub = 11 then r\<lparr>rx_pfc := Some t\<rparr> else r\<lparr>rx_app := Some t\<rparr>)"

definition du_bit :: "u8 \<Rightarrow> u16" where
  "du_bit sub = (if sub = 9 then 1 else if sub = 10 then 2 else if sub = 11 then 4 else 8)"

definition is_qaz :: "u8 \<Rightarrow> unpacked_tlv \<Rightarrow> bool" where
  "is_qaz sub t \<longleftrightarrow> tlv_type t = ORG_SPECIFIC_TLV \<and> 4 \<le> unat (tlv_length t) \<and> (\<exists>rest. tlv_info t = Some (QAZ_OUI @ sub # rest))"

lemma rchange_org:
  assumes ty: "agenttype a = NEAREST_BRIDGE" and i: "ieee8021qaz_data w (ifname p) = Some i" "i < length (qaz_head w)"
    and t: "is_qaz sub t" "sub \<in> {9, 10, 11, 12}" and d: "qz_rx (qaz_head w ! i) = Some r"
  shows "ieee8021qaz_rchange c q p a t w = (if rx_slot sub r = None
    then Inr (TLV_OK, a, put_qz i ((qaz_head w ! i)\<lparr>remote_mac := remote_mac_addr (l2 p),
      ieee8021qazdu := ieee8021qazdu (qaz_head w ! i) OR du_bit sub, qz_rx := Some (rx_keep sub t r)\<rparr>) w)
    else Inr (TLV_OK, mark_dup (du_bit sub) a, put_qz i ((qaz_head w ! i)\<lparr>remote_mac := remote_mac_addr (l2 p)\<rparr>) w))"
proof -
  obtain rest where info: "tlv_info t = Some (QAZ_OUI @ sub # rest)" using t by (auto simp: is_qaz_def)
  have at: "info_at t 3 = Inr sub" "read_bytes (QAZ_OUI @ sub # rest) 0 3 = Inr QAZ_OUI"
    using info by (simp_all add: info_at_def read_bytes_def)
  have "unpack_ieee8021qaz_tlvs a t ((qaz_head w ! i)\<lparr>remote_mac := remote_mac_addr (l2 p)\<rparr>) =
    (if rx_slot sub r = None then Inr (True, a, (qaz_head w ! i)\<lparr>remote_mac := remote_mac_addr (l2 p),
      ieee8021qazdu := ieee8021qazdu (qaz_head w ! i) OR du_bit sub, qz_rx := Some (rx_keep sub t r)\<rparr>)
    else Inr (False, mark_dup (du_bit sub) a, (qaz_head w ! i)\<lparr>remote_mac := remote_mac_addr (l2 p)\<rparr>))"
    using t(2) d at(1) by (auto simp: unpack_ieee8021qaz_tlvs_def Let_def rx_slot_def rx_keep_def du_bit_def)
  then show ?thesis using ty i t(1) info at(2) by (auto simp: ieee8021qaz_rchange_def Let_def is_qaz_def)
qed

definition opt_list :: "'a option \<Rightarrow> 'a list" where
  "opt_list t = (case t of None \<Rightarrow> [] | Some x \<Rightarrow> [x])"

definition rx_take :: "bytes \<Rightarrow> u8 \<Rightarrow> unpacked_tlv option \<Rightarrow> ieee8021qaz_tlvs \<Rightarrow> ieee8021qaz_tlvs" where
  "rx_take mac sub t d = (case t of None \<Rightarrow> d
     | Some x \<Rightarrow> d\<lparr>remote_mac := mac, ieee8021qazdu := ieee8021qazdu d OR du_bit sub, qz_rx := map_option (rx_keep sub x) (qz_rx d)\<rparr>)"

lemma pdu_take:
  assumes ty: "agenttype a = NEAREST_BRIDGE" and i: "ieee8021qaz_data w (ifname p) = Some i" "i < length (qaz_head w)"
    and t: "\<forall>x. t = Some x \<longrightarrow> is_qaz sub x" "sub \<in> {9, 10, 11, 12}" and d: "qz_rx (qaz_head w ! i) = Some r" "rx_slot sub r = None"
  shows "qaz_pdu c q p a (opt_list t @ ts) w = qaz_pdu c q p a ts (put_qz i (rx_take (remote_mac_addr (l2 p)) sub t (qaz_head w ! i)) w)"
proof (cases t)
  case None
  then show ?thesis by (simp add: opt_list_def rx_take_def put_qz_def)
next
  case (Some x)
  then have "is_qaz sub x" using t(1) by simp
  from rchange_org [OF ty i this t(2) d(1), of c q] show ?thesis using Some d by (simp add: opt_list_def rx_take_def)
qed

lemma rx_take_simps [simp]:
  "qz_ifname (rx_take mac sub t d) = qz_ifname d" "qz_rx (rx_take mac sub t d) = map_option (\<lambda>r. case t of None \<Rightarrow> r | Some x \<Rightarrow> rx_keep sub x r) (qz_rx d)"
  by (auto simp: rx_take_def option.map_ident split: option.split)

lemma rx_slot_other [simp]: "sub \<in> {9, 10, 11, 12} \<Longrightarrow> sub' \<in> {9, 10, 11, 12} \<Longrightarrow> sub \<noteq> sub' \<Longrightarrow> rx_slot sub (rx_keep sub' x r) = rx_slot sub r"
  by (auto simp: rx_slot_def rx_keep_def)

text \<open>The four TLVs together, between the chassis TLV and the end TLV.\<close>

definition rx_all :: "bytes \<Rightarrow> unpacked_tlv option \<Rightarrow> unpacked_tlv option \<Rightarrow> unpacked_tlv option \<Rightarrow> unpacked_tlv option \<Rightarrow>
    ieee8021qaz_tlvs \<Rightarrow> ieee8021qaz_tlvs" where
  "rx_all mac t1 t2 t3 t4 d = d\<lparr>
     remote_mac := (if t1 = None \<and> t2 = None \<and> t3 = None \<and> t4 = None then remote_mac d else mac),
     ieee8021qazdu := (if t1 = None then 0 else 1) OR (if t2 = None then 0 else 2) OR (if t3 = None then 0 else 4) OR (if t4 = None then 0 else 8),
     qz_rx := Some \<lparr>rx_etscfg = t1, rx_etsrec = t2, rx_pfc = t3, rx_app = t4\<rparr>\<rparr>"

lemma rx_take_all:
  "rx_take mac 12 t4 (rx_take mac 11 t3 (rx_take mac 10 t2 (rx_take mac 9 t1 (d\<lparr>qz_rx := Some empty_rx, ieee8021qazdu := 0\<rparr>))))
     = rx_all mac t1 t2 t3 t4 d"
  by (auto simp: rx_take_def rx_all_def rx_keep_def du_bit_def empty_rx_def split: option.split)

lemma pdu_noise: "\<forall>x \<in> set ns. tlv_type x \<in> {2, 3} \<Longrightarrow> qaz_pdu c q p a (ns @ ts) w = qaz_pdu c q p a ts w"
  by (induction ns) (auto simp: ieee8021qaz_rchange_def split: option.split)

lemma pdu_collect:
  assumes ty: "agenttype a = NEAREST_BRIDGE" and i: "ieee8021qaz_data w (ifname p) = Some i" "i < length (qaz_head w)"
    and t: "pred_option (is_qaz 9) t1" "pred_option (is_qaz 10) t2" "pred_option (is_qaz 11) t3" "pred_option (is_qaz 12) t4"
    and ok: "malloc_ok (core_env c) sizeof_qaz_unpkd" and x: "tlv_type x = 1" "\<forall>x \<in> set ns. tlv_type x \<in> {2, 3}"
  shows "qaz_pdu c q p a (x # ns @ opt_list t1 @ opt_list t2 @ opt_list t3 @ opt_list t4 @ ts) w
    = qaz_pdu c q p a ts (put_qz i (rx_all (remote_mac_addr (l2 p)) t1 t2 t3 t4 (qaz_head w ! i)) w)"
proof -
  let ?d0 = "(qaz_head w ! i)\<lparr>qz_rx := Some empty_rx, ieee8021qazdu := 0\<rparr>" let ?m = "remote_mac_addr (l2 p)"
  have "qaz_pdu c q p a (x # ns @ us) w = qaz_pdu c q p a us (put_qz i ?d0 w)" for us
    using ty i ok x pdu_noise [OF x(2)] by (simp add: ieee8021qaz_rchange_def Let_def clear_ieee8021qaz_rx_def)
  moreover have take: "qaz_pdu c q p a (opt_list t @ us) (put_qz i d w) = qaz_pdu c q p a us (put_qz i (rx_take ?m sub t d) w)"
    if "qz_ifname d = qz_ifname (qaz_head w ! i)" "pred_option (is_qaz sub) t" "sub \<in> {9, 10, 11, 12}" "\<exists>r. qz_rx d = Some r \<and> rx_slot sub r = None"
    for t sub d us
    using pdu_take [OF ty, of "put_qz i d w" p i t sub _ c q us] i that by (auto simp: option.pred_set)
  have "rx_slot sub empty_rx = None" for sub by (simp add: rx_slot_def empty_rx_def)
  note slot = this and rx_slot_other
  let ?d1 = "rx_take ?m 9 t1 ?d0" let ?d2 = "rx_take ?m 10 t2 ?d1" let ?d3 = "rx_take ?m 11 t3 ?d2"
  have rx: "\<exists>r. qz_rx ?d0 = Some r \<and> rx_slot 9 r = None" "\<exists>r. qz_rx ?d1 = Some r \<and> rx_slot 10 r = None"
    "\<exists>r. qz_rx ?d2 = Some r \<and> rx_slot 11 r = None" "\<exists>r. qz_rx ?d3 = Some r \<and> rx_slot 12 r = None"
    using slot by (simp_all split: option.split)
  have "qaz_pdu c q p a (opt_list t1 @ opt_list t2 @ opt_list t3 @ opt_list t4 @ ts) (put_qz i ?d0 w)
      = qaz_pdu c q p a ts (put_qz i (rx_take ?m 12 t4 ?d3) w)"
    using take [OF _ t(1) _ rx(1)] take [OF _ t(2) _ rx(2)] take [OF _ t(3) _ rx(3)] take [OF _ t(4) _ rx(4)] by simp
  ultimately show ?thesis by (simp add: rx_take_all)
qed

subsection \<open>Application priorities\<close>

definition app_ok :: "dcb_app \<Rightarrow> bool" where
  "app_ok x \<longleftrightarrow> app_priority x AND 7 = app_priority x \<and> app_selector x AND 7 = app_selector x"

lemma app_byte_read:
  assumes "app_ok x"
  shows "drop_bit 5 ((push_bit 5 (app_priority x) OR app_selector x) AND 0xE0) = app_priority x"
    "(push_bit 5 (app_priority x) OR app_selector x) AND 7 = app_selector x"
proof -
  have m: "(7 :: u8) = mask 3" "(0xE0 :: u8) = push_bit 5 (mask 3)" by (simp_all add: mask_eq_exp_minus_1 push_bit_eq_mult)
  have b: "\<not> bit (app_priority x) n" "\<not> bit (app_selector x) n" if "3 \<le> n" for n
    using assms that unfolding app_ok_def m by (metis bit_and_iff bit_mask_iff not_le)+
  show "drop_bit 5 ((push_bit 5 (app_priority x) OR app_selector x) AND 0xE0) = app_priority x"
    unfolding m using b by (intro bit_word_eqI) (auto simp: bit_simps not_le [symmetric])
  show "(push_bit 5 (app_priority x) OR app_selector x) AND 7 = app_selector x"
    unfolding m using b by (intro bit_word_eqI) (auto simp: bit_simps not_le [symmetric])
qed

definition app_add :: "allocator \<Rightarrow> dcb_app \<Rightarrow> app_obj list \<Rightarrow> app_obj list" where
  "app_add ok x = app_entry ok (app_priority x) (app_selector x) (app_protocol x)"

lemma app_loop_read:
  assumes "tlv_info t = Some (pre @ concat (map app_prio_bytes xs))" "length pre = off" "list_all app_ok xs"
    "unat (tlv_length t) = off + 3 * length xs"
  shows "app_loop ok t off head = Inr (fold (app_add ok) xs head)"
  using assms
proof (induction xs arbitrary: pre off head)
  case (Cons x xs)
  have at: "info_at t off = Inr (push_bit 5 (app_priority x) OR app_selector x)"
    "info_at t (off + 1) = Inr (hi8 (app_protocol x))" "info_at t (off + 2) = Inr (lo8 (app_protocol x))"
    using Cons.prems by (simp_all add: info_at_def nth_append app_prio_bytes_def be16_bytes_def)
  have "app_loop ok t (off + 3) h = Inr (fold (app_add ok) xs h)" for h
    using Cons.IH [of "pre @ app_prio_bytes x" "off + 3" h] Cons.prems by (simp add: app_prio_bytes_def be16_bytes_def)
  then show ?case using Cons.prems at app_byte_read [of x] by (simp add: app_add_def [of ok x])
qed simp

lemma app_tlv_read:
  assumes "bld_ieee8021qaz_app_tlv ok q name = Some t" "list_all app_ok (hw_apps (get_ieee_hw q name))" "length (hw_apps (get_ieee_hw q name)) \<le> 83"
  shows "process_ieee8021qaz_app_tlv ok' t d
    = Inr (d\<lparr>app_head := fold (app_add ok') (hw_apps (get_ieee_hw q name)) (ieee8021qaz_app_reset (app_head d))\<rparr>)"
proof -
  let ?xs = "hw_apps (get_ieee_hw q name)"
  have "length (concat (map app_prio_bytes ?xs)) = 3 * length ?xs"
    by (induction ?xs) (auto simp: app_prio_bytes_def be16_bytes_def length_concat o_def sum_list_triv)
  moreover have "unat (5 + 3 * of_nat (length ?xs) :: u16) = 5 + 3 * length ?xs"
    using assms(3) unat_of_nat [where 'a = 16, of "5 + 3 * length ?xs"] by simp
  ultimately have "tlv_info t = Some ((QAZ_OUI @ [12, 0]) @ concat (map app_prio_bytes ?xs))" "unat (tlv_length t) = 5 + 3 * length ?xs"
    using assms(1,3) by (auto simp: bld_ieee8021qaz_app_tlv_def Let_def org_tlv_def create_tlv_def unat_of_nat split: if_splits)
  from app_loop_read [OF this(1) _ assms(2) this(2)] show ?thesis by (simp add: process_ieee8021qaz_app_tlv_def)
qed

text \<open>
  The kernel's table of application priorities under the calls the module makes, and the entries
  of the module's list that are to stay.
\<close>

definition app_table :: "string \<Rightarrow> qaz_event list \<Rightarrow> dcb_app set \<Rightarrow> dcb_app set" where
  "app_table name = fold (\<lambda>ev K. case ev of Set_App n x \<Rightarrow> if n = name then insert x K else K
     | Del_App n x \<Rightarrow> if n = name then K - {x} else K | _ \<Rightarrow> K)"

definition live_apps :: "app_obj list \<Rightarrow> dcb_app set" where
  "live_apps head = ao_app ` {np \<in> set head. ao_hw np \<noteq> IEEE_APP_DEL}"

definition local_apps :: "app_obj list \<Rightarrow> dcb_app set" where
  "local_apps head = ao_app ` {np \<in> set head. \<not> ao_peer np \<and> ao_hw np \<noteq> IEEE_APP_DEL}"

definition apps_known :: "dcb_app set \<Rightarrow> app_obj list \<Rightarrow> bool" where
  "apps_known K head \<longleftrightarrow> distinct (map ao_app head) \<and> ao_app ` {np \<in> set head. ao_hw np = IEEE_APP_DONE} \<subseteq> K"

lemma app_table_append [simp]: "app_table name (xs @ ys) K = app_table name ys (app_table name xs K)"
  by (simp add: app_table_def)

lemma app_table_simps [simp]:
  "app_table name [] K = K"
  "app_table name (Set_Dcbx_Mode n # evs) K = app_table name evs K" "app_table name (Set_Ieee_Hw n x y # evs) K = app_table name evs K"
  "app_table name (Set_Admin n ty v # evs) K = app_table name evs K" "app_table name (Save_Admin n ty v # evs) K = app_table name evs K"
  "app_table name (Changed_Local n ty # evs) K = app_table name evs K"
  by (simp_all add: app_table_def)

lemma app_table_sets: "app_table name (map (\<lambda>np. Set_App name (ao_app np)) nps) K = K \<union> ao_app ` set nps"
  by (induction nps arbitrary: K) (auto simp: app_table_def)

lemma app_table_dels: "app_table name (map (\<lambda>np. Del_App name (ao_app np)) nps) K = K - ao_app ` set nps"
  by (induction nps arbitrary: K) (auto simp: app_table_def)

lemma app_eq_iff: "app_eq prio sel proto np \<longleftrightarrow> ao_app np = \<lparr>app_selector = sel, app_priority = prio, app_protocol = proto\<rparr>"
  by (cases "ao_app np") (auto simp: app_eq_def)

lemma live_disjoint:
  assumes "distinct (map ao_app head)"
  shows "live_apps head \<inter> ao_app ` {np \<in> set head. ao_hw np = IEEE_APP_DEL} = {}"
  using assms by (auto simp: live_apps_def distinct_map dest!: inj_onD)

lemma do_app_sethw_table:
  assumes "apps_known K head" "do_app_sethw name head = (head', evs)"
  shows "app_table name evs K = live_apps head \<union> (K - ao_app ` set head)" "ao_app ` set head' = live_apps head"
    "\<forall>np \<in> set head'. ao_hw np = IEEE_APP_DONE" "apps_known (app_table name evs K) head'"
proof -
  define f where "f = (\<lambda>np :: app_obj. if ao_hw np = IEEE_APP_SET then np\<lparr>ao_hw := IEEE_APP_DONE\<rparr> else np)"
  have f: "ao_app (f np) = ao_app np" "ao_hw (f np) = IEEE_APP_DEL \<longleftrightarrow> ao_hw np = IEEE_APP_DEL" "ao_hw (f np) \<noteq> IEEE_APP_SET" for np
    by (auto simp: f_def)
  have h: "head' = filter (\<lambda>np. ao_hw np \<noteq> IEEE_APP_DEL) (map f head)"
    "evs = map (\<lambda>np. Set_App name (ao_app np)) (filter (\<lambda>np. ao_hw np = IEEE_APP_SET) head)
       @ map (\<lambda>np. Del_App name (ao_app np)) (filter (\<lambda>np. ao_hw np = IEEE_APP_DEL) (map f head))"
    using assms(2) by (auto simp: do_app_sethw_def Let_def f_def [symmetric])
  have hd: "ao_app ` {np \<in> set (map f head). ao_hw np = IEEE_APP_DEL} = ao_app ` {np \<in> set head. ao_hw np = IEEE_APP_DEL}"
    using f by (auto intro!: rev_image_eqI)
  have settle: "T = L \<union> (K - A)" if "T = (K \<union> S) - D" "A = L \<union> D" "L = S \<union> N" "L \<inter> D = {}" "N \<subseteq> K" for T L A S D N :: "dcb_app set"
    using that by blast
  have cases: "ao_hw np = IEEE_APP_SET \<or> ao_hw np = IEEE_APP_DONE \<or> ao_hw np = IEEE_APP_DEL" for np by (cases "ao_hw np") auto
  have all: "ao_app ` set head = live_apps head \<union> ao_app ` {np \<in> set head. ao_hw np = IEEE_APP_DEL}"
    by (auto simp: live_apps_def)
  have live: "live_apps head = ao_app ` {np \<in> set head. ao_hw np = IEEE_APP_SET} \<union> ao_app ` {np \<in> set head. ao_hw np = IEEE_APP_DONE}"
    using cases by (fastforce simp: live_apps_def)
  have "app_table name evs K = (K \<union> ao_app ` {np \<in> set head. ao_hw np = IEEE_APP_SET}) - ao_app ` {np \<in> set head. ao_hw np = IEEE_APP_DEL}"
    unfolding h(2) app_table_append app_table_sets app_table_dels using hd by auto
  then show t: "app_table name evs K = live_apps head \<union> (K - ao_app ` set head)"
    using live_disjoint [of head] assms(1) all live unfolding apps_known_def by (intro settle [OF _ all live]) simp_all
  show a: "ao_app ` set head' = live_apps head" using f by (auto simp: h live_apps_def intro!: rev_image_eqI)
  show "\<forall>np \<in> set head'. ao_hw np = IEEE_APP_DONE" using f cases by (fastforce simp: h)
  have "map ao_app head' = map ao_app (filter (\<lambda>np. ao_hw np \<noteq> IEEE_APP_DEL) head)"
    using f by (simp add: h filter_map o_def)
  then show "apps_known (app_table name evs K) head'"
    using assms(1) t a by (auto simp: apps_known_def distinct_map_filter)
qed

lemma live_apps_Cons: "live_apps (np # head) = (if ao_hw np = IEEE_APP_DEL then {} else {ao_app np}) \<union> live_apps head"
  unfolding live_apps_def set_filter [symmetric] by simp

lemma app_add_cases:
  assumes "ok sizeof_app_obj"
  obtains (old) i where "i < length head" "ao_app (head ! i) = x" "app_add ok x head = head[i := (head ! i)\<lparr>ao_hw := IEEE_APP_SET\<rparr>]"
  | (fresh) "x \<notin> ao_app ` set head" "app_add ok x head = \<lparr>ao_app = x, ao_peer = True, ao_hw = IEEE_APP_SET\<rparr> # head"
proof (cases "find_index (app_eq (app_priority x) (app_selector x) (app_protocol x)) head")
  case None
  then have "x \<notin> ao_app ` set head" by (auto simp: find_index_None app_eq_iff)
  then show thesis using None assms by (intro fresh) (auto simp: app_add_def app_entry_def ieee8021qaz_mod_app_def)
next
  case (Some i)
  then show thesis using find_index_Some [OF Some] by (intro old [of i]) (auto simp: app_add_def app_entry_def app_eq_iff)
qed

lemma app_add_apps:
  assumes "ok sizeof_app_obj" "apps_known K head"
  shows "apps_known K (app_add ok x head) \<and> live_apps (app_add ok x head) = insert x (live_apps head)
    \<and> ao_app ` set (app_add ok x head) = insert x (ao_app ` set head)"
  using assms(1)
proof (cases rule: app_add_cases [of ok head x])
  case (old i)
  let ?y = "(head ! i)\<lparr>ao_hw := IEEE_APP_SET\<rparr>"
  have m: "map ao_app (head[i := ?y]) = map ao_app head" by (simp add: map_update old(2) list_update_same_conv old(1))
  have dist: "distinct (map ao_app head)" using assms(2) by (simp add: apps_known_def)
  have hw: "ao_hw (head[i := ?y] ! j) = (if j = i then IEEE_APP_SET else ao_hw (head ! j))" if "j < length head" for j
    using that by (simp add: nth_list_update)
  have app: "ao_app (head[i := ?y] ! j) = ao_app (head ! j)" if "j < length head" for j
    using that by (cases "j = i") simp_all
  have "apps_known K (app_add ok x head)"
    using assms(2) unfolding apps_known_def old(3) m
    by (auto simp: in_set_conv_nth hw app image_subset_iff split: if_splits)
  moreover have "live_apps (app_add ok x head) = insert x (live_apps head)"
  proof -
    have nth: "live_apps xs = {ao_app (xs ! j) |j. j < length xs \<and> ao_hw (xs ! j) \<noteq> IEEE_APP_DEL}" for xs
      by (auto simp: live_apps_def in_set_conv_nth)
    show ?thesis unfolding old(3) nth using old(1,2) hw app
      by (auto simp: hw app split: if_splits) (metis app app_hw.distinct(1) hw)+
  qed
  moreover have "ao_app ` set (app_add ok x head) = insert x (ao_app ` set head)"
    using arg_cong [OF m, of set] old by (auto simp: image_iff)
  ultimately show ?thesis by blast
next
  case fresh
  then show ?thesis
    using assms(2) by (auto simp: apps_known_def live_apps_Cons)
qed

lemma app_fold_apps:
  assumes "ok sizeof_app_obj" "apps_known K head"
  shows "apps_known K (fold (app_add ok) xs head) \<and> live_apps (fold (app_add ok) xs head) = set xs \<union> live_apps head
    \<and> ao_app ` set (fold (app_add ok) xs head) = set xs \<union> ao_app ` set head"
  using assms(2)
proof (induction xs arbitrary: head)
  case (Cons x xs)
  then show ?case using Cons.IH [of "app_add ok x head"] app_add_apps [of ok K head x] assms(1) Cons.prems by auto
qed simp

lemma app_reset_apps:
  assumes "apps_known K head"
  shows "apps_known K (ieee8021qaz_app_reset head)" "live_apps (ieee8021qaz_app_reset head) = local_apps head"
    "ao_app ` set (ieee8021qaz_app_reset head) = ao_app ` set head"
proof -
  have m: "map ao_app (ieee8021qaz_app_reset head) = map ao_app head" by (simp add: ieee8021qaz_app_reset_def)
  show "ao_app ` set (ieee8021qaz_app_reset head) = ao_app ` set head" using arg_cong [OF m, of set] by simp
  show "apps_known K (ieee8021qaz_app_reset head)"
    using assms unfolding apps_known_def m by (auto simp: ieee8021qaz_app_reset_def image_subset_iff split: if_splits)
  show "live_apps (ieee8021qaz_app_reset head) = local_apps head"
    by (auto simp: live_apps_def local_apps_def ieee8021qaz_app_reset_def image_iff split: if_splits)
qed

subsection \<open>The end of an LLDPDU\<close>

definition admin_events :: "'m core \<Rightarrow> qaz_host \<Rightarrow> string \<Rightarrow> agent_type \<Rightarrow> qaz_event list" where
  "admin_events c q name ty = (if cfg_int (core_env c) name ty ''adminStatus'' = None \<and> get_lldp_agent_admin c name ty = enabledRxOnly
     then Save_Admin name ty enabledRxTx # (if set_config_ok q name ty enabledRxTx then [Set_Admin name ty enabledRxTx] else []) else [])"

lemma end_of_pdu:
  assumes ty: "agenttype a = NEAREST_BRIDGE" and i: "ieee8021qaz_data w (ifname p) = Some i" "i < length (qaz_head w)"
    and act: "qz_active (qaz_head w ! i)" "ieee8021qazdu (qaz_head w ! i) \<noteq> 0"
    and ok: "malloc_ok (core_env c) sizeof_ieee_ets" "malloc_ok (core_env c) sizeof_ieee_pfc"
    and upd: "ieee8021qaz_mibUpdateObjects (malloc_ok (core_env c)) ((qaz_head w ! i)\<lparr>qz_pending := False\<rparr>) = Inr d2"
      "qz_active d2" "\<not> qz_pending d2" "qz_ifname d2 = qz_ifname (qaz_head w ! i)"
    and d3: "d3 = pfc_sm (ets_ran d2)" and app: "do_app_sethw (ifname p) (app_head d3) = (head', evs)"
  shows "qaz_end_of_pdu c q p a i w = Inr (qaz_log (admin_events c q (qz_ifname (qaz_head w ! i)) NEAREST_BRIDGE
      @ [Set_Dcbx_Mode (ifname p), Set_Ieee_Hw (ifname p) (oper_ets d3) (oper_pfc d3), Set_Dcbx_Mode (ifname p)] @ evs
      @ [Changed_Local (ifname p) NEAREST_BRIDGE]) (put_qz i (d3\<lparr>app_head := head', qz_rx := None\<rparr>) w))"
proof -
  let ?e = "core_env c" let ?w1 = "qaz_log (admin_events c q (qz_ifname (qaz_head w ! i)) NEAREST_BRIDGE) (put_qz i d2 w)"
  have i1: "ieee8021qaz_data ?w1 (ifname p) = Some i" "qaz_head ?w1 ! i = d2" using i upd(4) by simp_all
  let ?w2 = "qaz_log [Set_Dcbx_Mode (ifname p), Set_Ieee_Hw (ifname p) (oper_ets d3) (oper_pfc d3)] (put_qz i d3 ?w1)"
  have names: "qz_ifname d3 = qz_ifname (qaz_head w ! i)" "qz_active d3" "\<not> qz_pending d3" using upd d3 by simp_all
  have act2: "ieee8021qaz_check_active (put_qz i d3 ?w1) (ifname p)" "ieee8021qaz_check_active ?w2 (ifname p)"
    using i names upd(4) by (simp_all add: ieee8021qaz_check_active_def)
  have "run_all_sm ?e p a ?w1 = Inr (ieee8021qaz_app_sethw i (ifname p) ?w2)"
    unfolding run_all_sm_eq [OF ty i1(1)] i1(2) d3 [symmetric] Let_def using ok act2(1) by simp
  moreover have "ieee8021qaz_app_sethw i (ifname p) ?w2
      = qaz_log (Set_Dcbx_Mode (ifname p) # evs) (put_qz i (d3\<lparr>app_head := head'\<rparr>) ?w2)"
    unfolding ieee8021qaz_app_sethw_def if_P [OF act2(2)] using app i by (simp add: put_qz_def)
  ultimately show ?thesis
    using ty i act upd
    by (simp add: qaz_end_of_pdu_def Let_def admin_events_def clear_ieee8021qaz_rx_def)
       (simp add: put_qz_def qaz_log_def)
qed

end
