(* ===== verification/Qaz_Module.thy ===== *)
theory Qaz_Module
  imports Qaz_Safe Registered
begin

text \<open>
  The module of IEEE 802.1Qaz as the daemon drives it: every entry point keeps the data well-formed,
  an LLDPDU with TLVs of the lengths of the standard is processed without a fault in every state, and a TLV that is
  too short makes the module read behind it.
\<close>

subsection \<open>Received TLVs\<close>

lemma info_at_Inr: "info_at t off = Inr b \<longleftrightarrow> (\<exists>bs. tlv_info t = Some bs \<and> off < length bs \<and> b = bs ! off)"
  by (auto simp: info_at_def res_simps)

lemma read_table_length: "read_table t off k = Inr bs \<Longrightarrow> length bs = k"
  by (induction k arbitrary: off bs) (auto simp: res_simps)

lemma info_at_total: "tlv_info t = Some bs \<Longrightarrow> off < length bs \<Longrightarrow> \<exists>b. info_at t off = Inr b"
  by (simp add: info_at_def)

lemma read_table_total: "tlv_info t = Some bs \<Longrightarrow> off + k \<le> length bs \<Longrightarrow> \<exists>r. read_table t off k = Inr r"
proof (induction k arbitrary: off)
  case (Suc k)
  then obtain r where "read_table t (Suc off) k = Inr r" using Suc.IH [of "Suc off"] by fastforce
  then show ?case using info_at_total [of t bs off] Suc.prems by auto
qed simp

lemma read_prio_map_total: "tlv_info t = Some bs \<Longrightarrow> off + k \<le> length bs \<Longrightarrow> \<exists>r. read_prio_map t off i k m = Inr r"
proof (induction k arbitrary: off i m)
  case (Suc k)
  then show ?case using info_at_total [of t bs off] by auto
qed simp

lemma app_loop_total:
  assumes "tlv_info t = Some bs" "length bs = unat (tlv_length t)" "(length bs - off) mod 3 = 0"
  shows "\<exists>r. app_loop ok t off head = Inr r"
  using assms
proof (induction ok t off head rule: app_loop.induct)
  case (1 ok t off head)
  show ?case
  proof (cases "off < length bs")
    case True
    then have "off + 2 < length bs" using 1(4) by presburger
    moreover have "(length bs - (off + 3)) mod 3 = 0" using 1(4) True by presburger
    ultimately show ?thesis using 1 True info_at_total [of t bs] by (fastforce simp: info_at_def)
  qed (use 1 in simp)
qed

text \<open>The lengths that the standard gives.\<close>

definition qaz_len_ok :: "unpacked_tlv \<Rightarrow> bool" where
  "qaz_len_ok t \<longleftrightarrow> (case tlv_info t of None \<Rightarrow> unat (tlv_length t) < 4
     | Some bs \<Rightarrow> length bs = unat (tlv_length t) \<and> (4 \<le> length bs \<and> take 3 bs = QAZ_OUI \<longrightarrow>
         (bs ! 3 \<in> {9, 10} \<longrightarrow> 25 \<le> length bs) \<and> (bs ! 3 = 11 \<longrightarrow> 6 \<le> length bs) \<and> (bs ! 3 = 12 \<longrightarrow> (length bs - 5) mod 3 = 0)))"

definition rx_ok :: "ieee8021qaz_unpkd_tlvs \<Rightarrow> bool" where
  "rx_ok r \<longleftrightarrow> (\<forall>t. rx_etscfg r = Some t \<or> rx_etsrec r = Some t \<longrightarrow> (\<exists>bs. tlv_info t = Some bs \<and> 25 \<le> length bs))
     \<and> (\<forall>t. rx_pfc r = Some t \<longrightarrow> (\<exists>bs. tlv_info t = Some bs \<and> 6 \<le> length bs))
     \<and> (\<forall>t. rx_app r = Some t \<longrightarrow> (\<exists>bs. tlv_info t = Some bs \<and> length bs = unat (tlv_length t) \<and> (length bs - 5) mod 3 = 0))"

lemma process_keeps:
  assumes "qz_ok d"
  shows "process_ieee8021qaz_etscfg_tlv ok t d = Inr d' \<Longrightarrow> qz_ok d' \<and> qz_ifname d' = qz_ifname d"
    "process_ieee8021qaz_etsrec_tlv ok t d = Inr d' \<Longrightarrow> qz_ok d' \<and> qz_ifname d' = qz_ifname d"
    "process_ieee8021qaz_pfc_tlv t d = Inr d' \<Longrightarrow> qz_ok d' \<and> qz_ifname d' = qz_ifname d"
    "process_ieee8021qaz_app_tlv ok t d = Inr d' \<Longrightarrow> qz_ok d' \<and> qz_ifname d' = qz_ifname d"
proof -
  show "qz_ok d' \<and> qz_ifname d' = qz_ifname d" if "process_ieee8021qaz_etscfg_tlv ok t d = Inr d'"
    using that assms
    by (auto simp: process_ieee8021qaz_etscfg_tlv_def Let_def bindR_eq_Inr qz_ok_def etscfg_ok_def split: if_splits dest: read_table_length)
  show "qz_ok d' \<and> qz_ifname d' = qz_ifname d" if "process_ieee8021qaz_etsrec_tlv ok t d = Inr d'"
    using that assms
    by (auto simp: process_ieee8021qaz_etsrec_tlv_def Let_def bindR_eq_Inr qz_ok_def etsrec_ok_def split: if_splits dest: read_table_length)
  show "qz_ok d' \<and> qz_ifname d' = qz_ifname d" if "process_ieee8021qaz_pfc_tlv t d = Inr d'"
    using that assms by (auto simp: process_ieee8021qaz_pfc_tlv_def bindR_eq_Inr)
  show "qz_ok d' \<and> qz_ifname d' = qz_ifname d" if "process_ieee8021qaz_app_tlv ok t d = Inr d'"
    using that assms by (auto simp: process_ieee8021qaz_app_tlv_def bindR_eq_Inr)
qed

lemma process_total:
  assumes "tlv_info t = Some bs"
  shows "25 \<le> length bs \<Longrightarrow> \<exists>d'. process_ieee8021qaz_etscfg_tlv ok t d = Inr d'"
    "25 \<le> length bs \<Longrightarrow> \<exists>d'. process_ieee8021qaz_etsrec_tlv ok t d = Inr d'"
    "6 \<le> length bs \<Longrightarrow> \<exists>d'. process_ieee8021qaz_pfc_tlv t d = Inr d'"
    "length bs = unat (tlv_length t) \<Longrightarrow> (length bs - 5) mod 3 = 0 \<Longrightarrow> \<exists>d'. process_ieee8021qaz_app_tlv ok t d = Inr d'"
proof -
  show "\<exists>d'. process_ieee8021qaz_etscfg_tlv ok t d = Inr d'" "\<exists>d'. process_ieee8021qaz_etsrec_tlv ok t d = Inr d'" if len: "25 \<le> length bs"
  proof -
    obtain b m bw tsa where "info_at t 4 = Inr b" "read_prio_map t 5 0 4 0 = Inr m" "read_table t 9 8 = Inr bw" "read_table t 17 8 = Inr tsa"
      using len info_at_total [OF assms, of 4] read_prio_map_total [OF assms, of 5 4 0 0] read_table_total [OF assms, of 9 8]
        read_table_total [OF assms, of 17 8] by auto
    then show "\<exists>d'. process_ieee8021qaz_etscfg_tlv ok t d = Inr d'" "\<exists>d'. process_ieee8021qaz_etsrec_tlv ok t d = Inr d'"
      by (simp_all add: process_ieee8021qaz_etscfg_tlv_def process_ieee8021qaz_etsrec_tlv_def Let_def)
  qed
  show "\<exists>d'. process_ieee8021qaz_pfc_tlv t d = Inr d'" if "6 \<le> length bs"
    using that assms by (simp add: process_ieee8021qaz_pfc_tlv_def info_at_def)
  show "\<exists>d'. process_ieee8021qaz_app_tlv ok t d = Inr d'" if "length bs = unat (tlv_length t)" "(length bs - 5) mod 3 = 0"
    using app_loop_total [OF assms that, of ok "ieee8021qaz_app_reset (app_head d)"] by (auto simp: process_ieee8021qaz_app_tlv_def)
qed

lemma mib_updateE:
  assumes "ieee8021qaz_mibUpdateObjects ok d = Inr d'"
  obtains r d1 d2 d3 where "qz_rx d = Some r"
    "(case rx_etscfg r of Some t \<Rightarrow> process_ieee8021qaz_etscfg_tlv ok t d | None \<Rightarrow> Inr (d\<lparr>qz_ets := (qz_ets d)\<lparr>cfgr := None\<rparr>\<rparr>)) = Inr d1"
    "(case rx_etsrec r of Some t \<Rightarrow> process_ieee8021qaz_etsrec_tlv ok t d1 | None \<Rightarrow> Inr (d1\<lparr>qz_ets := (qz_ets d1)\<lparr>recr := None\<rparr>\<rparr>)) = Inr d2"
    "(case rx_pfc r of Some t \<Rightarrow> process_ieee8021qaz_pfc_tlv t d2 | None \<Rightarrow> Inr (d2\<lparr>qz_pfc := (qz_pfc d2)\<lparr>remote_param := False\<rparr>\<rparr>)) = Inr d3"
    "(case rx_app r of Some t \<Rightarrow> process_ieee8021qaz_app_tlv ok t d3
      | None \<Rightarrow> Inr (d3\<lparr>app_head := ieee8021qaz_app_reset (app_head d3)\<rparr>)) = Inr d'"
  using assms unfolding ieee8021qaz_mibUpdateObjects_def bindR_eq_Inr derefR_eq_Inr by blast

lemma mib_update_keeps:
  assumes ok: "qz_ok d" and upd: "ieee8021qaz_mibUpdateObjects ok d = Inr d'"
  shows "qz_ok d' \<and> qz_ifname d' = qz_ifname d"
proof -
  have none: "qz_ok (x\<lparr>qz_ets := (qz_ets x)\<lparr>cfgr := None\<rparr>\<rparr>)" "qz_ok (x\<lparr>qz_ets := (qz_ets x)\<lparr>recr := None\<rparr>\<rparr>)" if "qz_ok x" for x
    using that by (simp_all add: qz_ok_def)
  from upd obtain r d1 d2 d3 where r: "qz_rx d = Some r"
    and 1: "(case rx_etscfg r of Some t \<Rightarrow> process_ieee8021qaz_etscfg_tlv ok t d | None \<Rightarrow> Inr (d\<lparr>qz_ets := (qz_ets d)\<lparr>cfgr := None\<rparr>\<rparr>)) = Inr d1"
    and 2: "(case rx_etsrec r of Some t \<Rightarrow> process_ieee8021qaz_etsrec_tlv ok t d1 | None \<Rightarrow> Inr (d1\<lparr>qz_ets := (qz_ets d1)\<lparr>recr := None\<rparr>\<rparr>)) = Inr d2"
    and 3: "(case rx_pfc r of Some t \<Rightarrow> process_ieee8021qaz_pfc_tlv t d2 | None \<Rightarrow> Inr (d2\<lparr>qz_pfc := (qz_pfc d2)\<lparr>remote_param := False\<rparr>\<rparr>)) = Inr d3"
    and 4: "(case rx_app r of Some t \<Rightarrow> process_ieee8021qaz_app_tlv ok t d3
      | None \<Rightarrow> Inr (d3\<lparr>app_head := ieee8021qaz_app_reset (app_head d3)\<rparr>)) = Inr d'"
    by (rule mib_updateE)
  have "qz_ok d1 \<and> qz_ifname d1 = qz_ifname d"
    using 1 ok process_keeps(1) [OF ok, of ok] none by (cases "rx_etscfg r") auto
  moreover from this have "qz_ok d2 \<and> qz_ifname d2 = qz_ifname d"
    using 2 process_keeps(2) [of d1 ok] none by (cases "rx_etsrec r") auto
  moreover from this have "qz_ok d3 \<and> qz_ifname d3 = qz_ifname d"
    using 3 process_keeps(3) [of d2] by (cases "rx_pfc r") auto
  ultimately show ?thesis using 4 process_keeps(4) [of d3 ok] by (cases "rx_app r") auto
qed

lemma mib_update_total:
  assumes "qz_rx d = Some r" "rx_ok r"
  shows "\<exists>d'. ieee8021qaz_mibUpdateObjects ok d = Inr d'"
proof -
  obtain d1 where d1: "(case rx_etscfg r of Some t \<Rightarrow> process_ieee8021qaz_etscfg_tlv ok t d
      | None \<Rightarrow> Inr (d\<lparr>qz_ets := (qz_ets d)\<lparr>cfgr := None\<rparr>\<rparr>)) = Inr d1"
    using assms(2) process_total(1) by (fastforce simp: rx_ok_def split: option.splits)
  obtain d2 where d2: "(case rx_etsrec r of Some t \<Rightarrow> process_ieee8021qaz_etsrec_tlv ok t d1
      | None \<Rightarrow> Inr (d1\<lparr>qz_ets := (qz_ets d1)\<lparr>recr := None\<rparr>\<rparr>)) = Inr d2"
    using assms(2) process_total(2) by (fastforce simp: rx_ok_def split: option.splits)
  obtain d3 where d3: "(case rx_pfc r of Some t \<Rightarrow> process_ieee8021qaz_pfc_tlv t d2
      | None \<Rightarrow> Inr (d2\<lparr>qz_pfc := (qz_pfc d2)\<lparr>remote_param := False\<rparr>\<rparr>)) = Inr d3"
    using assms(2) process_total(3) by (fastforce simp: rx_ok_def split: option.splits)
  have "\<exists>d'. (case rx_app r of Some t \<Rightarrow> process_ieee8021qaz_app_tlv ok t d3
      | None \<Rightarrow> Inr (d3\<lparr>app_head := ieee8021qaz_app_reset (app_head d3)\<rparr>)) = Inr d'"
    using assms(2) process_total(4) by (fastforce simp: rx_ok_def split: option.splits)
  then show ?thesis using assms(1) d1 d2 d3 by (simp add: ieee8021qaz_mibUpdateObjects_def)
qed

subsection \<open>Every entry point keeps the data well-formed\<close>

lemma run_all_sm_keeps:
  assumes "qaz_inv w"
  shows "\<exists>w'. run_all_sm e p a w = Inr w' \<and> qaz_inv w' \<and> map qz_ifname (qaz_head w') = map qz_ifname (qaz_head w)"
proof (cases "agenttype a = NEAREST_BRIDGE \<and> ieee8021qaz_data w (ifname p) \<noteq> None")
  case True
  then show ?thesis using run_all_sm_ok [OF assms, of a p _ e] by blast
qed (use assms in \<open>auto simp: run_all_sm_def\<close>)

lemma end_of_pdu_keeps:
  assumes inv: "qaz_inv w" and i: "i < length (qaz_head w)" and r: "qaz_end_of_pdu c q p a i w = Inr w'"
  shows "qaz_inv w'"
proof -
  define d where "d = (if qz_active (qaz_head w ! i) \<and> dcbx_tlvs_rxed q (qz_ifname (qaz_head w ! i)) a \<and> ieee8021qazdu (qaz_head w ! i) = 0
      then (qaz_head w ! i)\<lparr>qz_active := False\<rparr> else qaz_head w ! i)"
  have d: "qz_ok d" using inv i by (simp add: d_def qaz_inv_def list_all_length)
  show ?thesis
  proof (cases "qz_active d")
    case False
    then have "w' = put_qz i d w" using r by (auto simp: qaz_end_of_pdu_def Let_def d_def split: if_splits)
    then show ?thesis using inv d by simp
  next
    case True
    then obtain evs d1 d2 w3 evs' where x: "d1 = d \<or> d1 = d\<lparr>qz_pending := False\<rparr>" "ieee8021qaz_mibUpdateObjects (malloc_ok (core_env c)) d1 = Inr d2"
        "run_all_sm (core_env c) p a (qaz_log evs (put_qz i d2 w)) = Inr w3"
        "w' = qaz_log evs' (put_qz i (clear_ieee8021qaz_rx (qaz_head w3 ! i)) w3)"
      using r unfolding qaz_end_of_pdu_def Let_def d_def [symmetric] by (auto simp: bindR_eq_Inr split: if_splits) blast+
    have "qz_ok d1" using x(1) d by auto
    then have "qz_ok d2" using mib_update_keeps x(2) by blast
    then have inv2: "qaz_inv (qaz_log evs (put_qz i d2 w))" using inv by simp
    have w3: "qaz_inv w3" "map qz_ifname (qaz_head w3) = map qz_ifname (qaz_head (put_qz i d2 w))"
      using run_all_sm_keeps [OF inv2, of "core_env c" p a] x(3) by auto
    then have "length (qaz_head w3) = length (qaz_head w)" by (metis length_map put_qz_simps(2))
    then have "qz_ok (qaz_head w3 ! i)" using i w3(1) by (simp add: qaz_inv_def list_all_length)
    then show ?thesis using w3(1) x(4) by (simp add: clear_ieee8021qaz_rx_def)
  qed
qed

lemma unpack_keeps:
  assumes "unpack_ieee8021qaz_tlvs a t d = Inr (b, a', d')" "qz_ok d"
  shows "qz_ok d'" "mod_agree a a'"
proof -
  have agree: "mod_agree a (mark_dup bits a)" for bits by (simp add: mod_agree_def core_view_def mark_dup_def)
  show "qz_ok d'" "mod_agree a a'"
    using assms agree unfolding unpack_ieee8021qaz_tlvs_def Let_def bindR_eq_Inr by (auto split: if_splits)
qed

lemma rchange_keeps:
  assumes inv: "qaz_inv w" and r: "ieee8021qaz_rchange c q p a t w = Inr (rc, a', w')"
  shows "qaz_inv w' \<and> mod_agree a a'"
proof (cases "agenttype a = NEAREST_BRIDGE \<and> ieee8021qaz_data w (ifname p) \<noteq> None")
  case False
  then show ?thesis using assms by (auto simp: ieee8021qaz_rchange_def split: if_splits option.splits)
next
  case True
  then obtain i where i: "ieee8021qaz_data w (ifname p) = Some i" and ty: "agenttype a = NEAREST_BRIDGE" by auto
  note d = qaz_data_ok [OF inv i]
  consider (1) "tlv_type t = 1" | (127) "tlv_type t = ORG_SPECIFIC_TLV" | (0) "tlv_type t = 0"
    | (other) "tlv_type t \<noteq> 1" "tlv_type t \<noteq> ORG_SPECIFIC_TLV" "tlv_type t \<noteq> 0" by blast
  then show ?thesis
  proof cases
    case 127
    then show ?thesis
      using r i ty d inv unpack_keeps [of a t "(qaz_head w ! i)\<lparr>remote_mac := remote_mac_addr (l2 p)\<rparr>"]
      by (auto simp: ieee8021qaz_rchange_def Let_def bindR_eq_Inr split: if_splits)
  next
    case 0
    then show ?thesis
      using r i ty d end_of_pdu_keeps [OF inv, of i c q p a] by (auto simp: ieee8021qaz_rchange_def Let_def bindR_eq_Inr)
  qed (use r i ty d inv in \<open>auto simp: ieee8021qaz_rchange_def Let_def clear_ieee8021qaz_rx_def split: if_splits\<close>)
qed

lemma mibdelete_keeps: "qaz_inv w \<Longrightarrow> qaz_inv (ieee8021qaz_mibDeleteObject p a w)"
  using qaz_data_ok [of w "ifname p"] by (auto simp: ieee8021qaz_mibDeleteObject_def Let_def qz_ok_def split: option.split)

lemma ifdown_keeps: "qaz_inv w \<Longrightarrow> qaz_inv (ieee8021qaz_ifdown name a w)"
  using qaz_data_ok [of w name] by (auto simp: ieee8021qaz_ifdown_def split: option.split)

lemma check_pending_keeps:
  assumes "qaz_inv w"
  shows "\<exists>w'. ieee8021qaz_check_pending e p a w = Inr w' \<and> qaz_inv w'"
proof (cases "ieee8021qaz_data w (ifname p)")
  case (Some i)
  let ?w1 = "put_qz i ((qaz_head w ! i)\<lparr>qz_pending := False, app_head := ieee8021qaz_app_reset (app_head (qaz_head w ! i))\<rparr>) w"
  have "qaz_inv ?w1" using qaz_data_ok [OF assms Some] assms by simp
  then show ?thesis using run_all_sm_keeps [of ?w1 e p a] assms Some by (auto simp: ieee8021qaz_check_pending_def Let_def)
qed (use assms in \<open>simp add: ieee8021qaz_check_pending_def\<close>)

subsection \<open>The configuration\<close>

lemma set_at_length: "set_at xs i v = Inr ys \<Longrightarrow> length ys = length xs"
  by (auto simp: set_at_def split: if_splits)

lemma tsa_tokens_length: "tsa_tokens buf m = Inr m' \<Longrightarrow> length m' = length m"
proof (induction buf m arbitrary: m' rule: tsa_tokens.induct)
  case (1 buf m)
  show ?case
  proof (cases "strtok buf")
    case (Some tr)
    obtain tok rest where tr: "tr = (tok, rest)" by (cases tr)
    from 1(2) Some tr obtain t2 m1 where "at_two tok rest = Inr t2" "set_at m (atoi tok) (tsa_type t2) = Inr m1" "tsa_tokens rest m1 = Inr m'"
      by (simp add: bindR_eq_Inr) blast
    then show ?thesis using 1(1) [OF Some tr [symmetric]] set_at_length tr by (metis (no_types))
  qed (use 1(2) in simp)
qed

lemma bw_tokens_length: "bw_tokens buf i m = Inr m' \<Longrightarrow> length m' = length m"
proof (induction buf i m arbitrary: m' rule: bw_tokens.induct)
  case (1 buf i m)
  show ?case
  proof (cases "strtok buf")
    case (Some tr)
    obtain tok rest where tr: "tr = (tok, rest)" by (cases tr)
    from 1(2) Some tr obtain m1 where "set_at m (int i) (word_of_int (atoi tok)) = Inr m1" "bw_tokens rest (Suc i) m1 = Inr m'"
      by (simp add: bindR_eq_Inr) blast
    then show ?thesis using 1(1) [OF Some tr [symmetric]] set_at_length tr by (metis (no_types))
  qed (use 1(2) in simp)
qed

lemma read_cfg_file_keeps:
  assumes "qz_ok d" "read_cfg_file e h name a d = Inr d'"
  shows "qz_ok d'"
proof (cases "agenttype a = NEAREST_BRIDGE")
  case True
  let ?str = "\<lambda>sub arg. cfg_str h name NEAREST_BRIDGE (tlv_arg_path (TLVID OUI_IEEE_8021 sub) arg)"
  have bw: "length m' = length m" if "(case ?str sub ''tcbw'' of None \<Rightarrow> Inr m | Some s \<Rightarrow> if \<not> malloc_ok e (Suc (length s)) then Inr m
      else bw_tokens s 0 m) = Inr m'" for sub m m'
    using that bw_tokens_length by (auto split: option.splits if_splits)
  have tsa: "length m' = MAX_TCS" if "(case ?str sub ''tsa'' of None \<Rightarrow> Inr (replicate MAX_TCS 0) | Some s \<Rightarrow> set_ets_tsa_map (malloc_ok e) s m) = Inr m'"
      "length m = MAX_TCS" for sub m m'
    using that tsa_tokens_length by (auto simp: set_ets_tsa_map_def split: option.splits if_splits)
  show ?thesis
    using assms True bw tsa unfolding read_cfg_file_def Let_def
    by (clarsimp simp: bindR_eq_Inr qz_ok_def etscfg_ok_def etsrec_ok_def)
qed (use assms in \<open>simp add: read_cfg_file_def\<close>)

lemma zero_qaz_ok: "qz_ok (zero_qaz_tlvs name mac)"
  by (simp add: zero_qaz_tlvs_def Let_def qz_ok_def etscfg_ok_def etsrec_ok_def)

lemma qaz_initialized_keeps:
  assumes "qaz_inv w" "i < length (qaz_head w)"
  shows "qaz_inv (qaz_initialized q name i w)"
proof -
  have "qz_ok (qaz_head w ! i)" using assms by (simp add: qaz_inv_def list_all_length)
  then show ?thesis using assms(1)
    unfolding qaz_initialized_def Let_def by (intro put_qz_ok) (auto simp: qz_ok_def etscfg_ok_def)
qed

lemma ifup_keeps:
  assumes inv: "qaz_inv w" and r: "ieee8021qaz_ifup c h q junk name a w = Inr w'"
  shows "qaz_inv w'"
proof -
  have put: "qaz_inv (qaz_initialized q name i w)" if "ieee8021qaz_data w name = Some i" for i
    using qaz_data_ok [OF inv that] qaz_initialized_keeps [OF inv] by simp
  have new: "qaz_inv (qaz_initialized q name 0 (w1\<lparr>qaz_head := d # qaz_head w\<rparr>))"
    if "read_cfg_file e h nm a (zero_qaz_tlvs name mac) = Inr d" for e nm mac d w1
    using read_cfg_file_keeps [OF zero_qaz_ok that] inv by (intro qaz_initialized_keeps) (auto simp: qaz_inv_def)
  show ?thesis
    using r inv put new unfolding ieee8021qaz_ifup_def Let_def
    by (auto simp: bindR_eq_Inr split: if_splits prod.splits option.splits)
qed

subsection \<open>Reachable states\<close>

inductive qaz_reach :: "qaz_world \<Rightarrow> bool" where
  start: "ieee8021qaz_register e = Some w \<Longrightarrow> qaz_reach w"
| ifup: "qaz_reach w \<Longrightarrow> ieee8021qaz_ifup (c :: lldpad_world core) h q junk name a w = Inr w' \<Longrightarrow> qaz_reach w'"
| ifdown: "qaz_reach w \<Longrightarrow> qaz_reach (ieee8021qaz_ifdown name a w)"
| gettlv: "qaz_reach w \<Longrightarrow> ieee8021qaz_gettlv e h q p a w = Inr (r, w') \<Longrightarrow> qaz_reach w'"
| rchange: "qaz_reach w \<Longrightarrow> ieee8021qaz_rchange (c :: lldpad_world core) q p a t w = Inr (rc, a', w') \<Longrightarrow> qaz_reach w'"
| mibdelete: "qaz_reach w \<Longrightarrow> qaz_reach (ieee8021qaz_mibDeleteObject p a w)"
| timer: "qaz_reach w \<Longrightarrow> ieee8021qaz_check_pending e p a w = Inr w' \<Longrightarrow> qaz_reach w'"

lemma qaz_reach_ok: "qaz_reach w \<Longrightarrow> qaz_inv w"
proof (induction rule: qaz_reach.induct)
  case (start e w)
  then show ?case by (auto simp: ieee8021qaz_register_def qaz_inv_def split: if_splits)
next
  case (ifup w c h q junk name a w')
  then show ?case using ifup_keeps by blast
next
  case (gettlv w e h q p a r w')
  then show ?case using run_all_sm_keeps [OF gettlv.IH, of e p a]
    by (auto simp: ieee8021qaz_gettlv_def bindR_eq_Inr split: if_splits)
next
  case (rchange w c q p a t rc a' w')
  then show ?case using rchange_keeps by blast
next
  case (timer w e p a w')
  then show ?case using check_pending_keeps [OF timer.IH, of e p a] by simp
qed (simp_all add: ifdown_keeps mibdelete_keeps)

subsection \<open>An LLDPDU with TLVs of the right lengths\<close>

definition rx_ready :: "port \<Rightarrow> qaz_world \<Rightarrow> bool" where
  "rx_ready p w \<longleftrightarrow> (\<forall>i. ieee8021qaz_data w (ifname p) = Some i \<longrightarrow> pred_option rx_ok (qz_rx (qaz_head w ! i)) \<and> qz_rx (qaz_head w ! i) \<noteq> None)"

lemma rx_ok_keep:
  assumes "rx_ok r" "qaz_len_ok t" "tlv_info t = Some bs" "4 \<le> length bs" "take 3 bs = QAZ_OUI" "bs ! 3 = sub" "sub \<in> {9, 10, 11, 12}"
  shows "rx_ok (rx_keep sub t r)"
  using assms by (auto simp: rx_ok_def rx_keep_def qaz_len_ok_def)

lemma unpack_ready:
  assumes r: "qz_rx d = Some r" "rx_ok r" and t: "qaz_len_ok t" "tlv_info t = Some bs" "4 \<le> length bs" "take 3 bs = QAZ_OUI"
  shows "\<exists>b a' d'. unpack_ieee8021qaz_tlvs a t d = Inr (b, a', d') \<and> (\<exists>r'. qz_rx d' = Some r' \<and> rx_ok r') \<and> qz_ifname d' = qz_ifname d
    \<and> agenttype a' = agenttype a"
proof -
  have at: "info_at t 3 = Inr (bs ! 3)" using t by (simp add: info_at_def)
  note keep = rx_ok_keep [OF r(2) t]
  show ?thesis using r at keep [of 9] keep [of 10] keep [of 11] keep [of 12]
    by (auto simp: unpack_ieee8021qaz_tlvs_def Let_def rx_keep_def mark_dup_def)
qed

lemma rchange_ready:
  assumes inv: "qaz_inv w" and rdy: "rx_ready p w" and t: "qaz_len_ok t" "tlv_type t \<notin> {0, 1}"
  shows "\<exists>rc a' w'. ieee8021qaz_rchange c q p a t w = Inr (rc, a', w') \<and> qaz_inv w' \<and> rx_ready p w' \<and> agenttype a' = agenttype a"
proof (cases "agenttype a = NEAREST_BRIDGE \<and> tlv_type t = ORG_SPECIFIC_TLV \<and> 4 \<le> unat (tlv_length t)
     \<and> ieee8021qaz_data w (ifname p) \<noteq> None")
  case False
  then show ?thesis using inv rdy t(2) by (auto simp: ieee8021qaz_rchange_def Let_def split: option.split)
next
  case True
  then obtain i where i: "ieee8021qaz_data w (ifname p) = Some i" by auto
  note d = qaz_data_ok [OF inv i]
  obtain bs where bs: "tlv_info t = Some bs" "length bs = unat (tlv_length t)" "4 \<le> length bs"
    using t(1) True by (auto simp: qaz_len_ok_def split: option.splits)
  let ?d = "(qaz_head w ! i)\<lparr>remote_mac := remote_mac_addr (l2 p)\<rparr>"
  show ?thesis
  proof (cases "take 3 bs = QAZ_OUI")
    case False
    then show ?thesis using True i bs inv rdy by (auto simp: ieee8021qaz_rchange_def Let_def read_bytes_def)
  next
    case oui: True
    obtain r where "qz_rx ?d = Some r" "rx_ok r" using rdy i by (auto simp: rx_ready_def)
    from unpack_ready [OF this t(1) bs(1,3) oui, of a] obtain b a' d' where u: "unpack_ieee8021qaz_tlvs a t ?d = Inr (b, a', d')"
      "\<exists>r'. qz_rx d' = Some r' \<and> rx_ok r'" "qz_ifname d' = qz_ifname (qaz_head w ! i)" "agenttype a' = agenttype a" by auto
    have "qz_ok d'" using unpack_keeps(1) [OF u(1)] d by simp
    then have "qaz_inv (put_qz i d' w)" "rx_ready p (put_qz i d' w)" using inv d u i by (auto simp: rx_ready_def)
    moreover have "ieee8021qaz_rchange c q p a t w = Inr (TLV_OK, a', put_qz i d' w)"
      using True i bs oui u(1) by (simp add: ieee8021qaz_rchange_def Let_def read_bytes_def)
    ultimately show ?thesis using u(4) by blast
  qed
qed

lemma pdu_ready:
  assumes "qaz_inv w" "rx_ready p w" "\<forall>t \<in> set ts. qaz_len_ok t \<and> tlv_type t \<notin> {0, 1}"
  shows "\<exists>a' w'. qaz_pdu c q p a ts w = Inr (a', w') \<and> qaz_inv w' \<and> rx_ready p w' \<and> agenttype a' = agenttype a"
  using assms
proof (induction ts arbitrary: a w)
  case (Cons t ts)
  then obtain rc a1 w1 where 1: "ieee8021qaz_rchange c q p a t w = Inr (rc, a1, w1)" "qaz_inv w1" "rx_ready p w1" "agenttype a1 = agenttype a"
    using rchange_ready [of w p t c q a] by auto
  then show ?case using Cons.IH [of w1 a1] Cons.prems by auto
qed simp

lemma end_of_pdu_total:
  assumes inv: "qaz_inv w" and i: "ieee8021qaz_data w (ifname p) = Some i" and rx: "qz_rx (qaz_head w ! i) = Some r" "rx_ok r"
  shows "\<exists>w'. qaz_end_of_pdu c q p a i w = Inr w'"
proof -
  let ?d0 = "qaz_head w ! i" let ?ok = "malloc_ok (core_env c)"
  note d = qaz_data_ok [OF inv i]
  have upd: "\<exists>d2. ieee8021qaz_mibUpdateObjects ?ok x = Inr d2 \<and> qz_ok d2" if "qz_rx x = Some r" "qz_ok x" for x
    using mib_update_total [OF that(1) rx(2), of ?ok] mib_update_keeps [OF that(2), of ?ok] by blast
  obtain d2 where d2: "ieee8021qaz_mibUpdateObjects ?ok ?d0 = Inr d2" "qz_ok d2" using upd [of ?d0] rx(1) d by auto
  obtain d3 where d3: "ieee8021qaz_mibUpdateObjects ?ok (?d0\<lparr>qz_pending := False\<rparr>) = Inr d3" "qz_ok d3"
    using upd [of "?d0\<lparr>qz_pending := False\<rparr>"] rx(1) d by auto
  define W where "W evs x = projr (run_all_sm (core_env c) p a (qaz_log evs (put_qz i x w)))" for evs x
  have W: "run_all_sm (core_env c) p a (qaz_log evs (put_qz i x w)) = Inr (W evs x)" if "qz_ok x" for evs x
    using run_all_sm_keeps [of "qaz_log evs (put_qz i x w)" "core_env c" p a] inv that by (auto simp: W_def)
  show ?thesis using d2 d3 by (simp add: qaz_end_of_pdu_def Let_def W)
qed

lemma pdu_total:
  assumes inv: "qaz_inv w" and ok: "malloc_ok (core_env c) sizeof_qaz_unpkd" and x: "tlv_type x = 1" "tlv_type y = 0"
    and ts: "\<forall>t \<in> set ts. qaz_len_ok t \<and> tlv_type t \<notin> {0, 1}"
  shows "\<exists>a' w'. qaz_pdu c q p a (x # ts @ [y]) w = Inr (a', w') \<and> qaz_inv w'"
proof -
  obtain rc w0 where 0: "ieee8021qaz_rchange c q p a x w = Inr (rc, a, w0)" "qaz_inv w0" "rx_ready p w0 \<or> agenttype a \<noteq> NEAREST_BRIDGE"
  proof (cases "agenttype a = NEAREST_BRIDGE \<and> ieee8021qaz_data w (ifname p) \<noteq> None")
    case False
    then have "\<exists>rc. ieee8021qaz_rchange c q p a x w = Inr (rc, a, w)" by (auto simp: ieee8021qaz_rchange_def)
    then show thesis using that inv False by (auto simp: rx_ready_def)
  next
    case True
    then obtain i where i: "ieee8021qaz_data w (ifname p) = Some i" by auto
    let ?w0 = "put_qz i ((clear_ieee8021qaz_rx (qaz_head w ! i))\<lparr>qz_rx := Some empty_rx, ieee8021qazdu := 0\<rparr>) w"
    note d = qaz_data_ok [OF inv i]
    have "ieee8021qaz_rchange c q p a x w = Inr (TLV_OK, a, ?w0)" using True i ok x by (simp add: ieee8021qaz_rchange_def Let_def)
    moreover have "qaz_inv ?w0" "rx_ready p ?w0"
      using inv d i by (auto simp: clear_ieee8021qaz_rx_def rx_ready_def rx_ok_def empty_rx_def)
    ultimately show thesis using that by simp
  qed
  have eq: "qaz_pdu c q p a (x # ts @ [y]) w = bindR (qaz_pdu c q p a ts w0) (\<lambda>(a1, w1). qaz_pdu c q p a1 [y] w1)"
    using 0(1) by (simp add: qaz_pdu_append)
  show ?thesis
  proof (cases "agenttype a = NEAREST_BRIDGE")
    case False
    then have "qaz_pdu c q p a us v = Inr (a, v)" for us v by (induction us) (simp_all add: ieee8021qaz_rchange_def)
    then show ?thesis unfolding eq using 0(2) by (simp del: qaz_pdu.simps)
  next
    case ty: True
    with 0 pdu_ready [OF 0(2) _ ts, of p c q a] obtain a1 w1 where 1: "qaz_pdu c q p a ts w0 = Inr (a1, w1)" "qaz_inv w1" "rx_ready p w1"
      "agenttype a1 = NEAREST_BRIDGE" by auto
    have "\<exists>rc a' w'. ieee8021qaz_rchange c q p a1 y w1 = Inr (rc, a', w')"
    proof (cases "ieee8021qaz_data w1 (ifname p)")
      case (Some i)
      then obtain r where "qz_rx (qaz_head w1 ! i) = Some r" "rx_ok r" using 1(3) by (auto simp: rx_ready_def)
      from end_of_pdu_total [OF 1(2) Some this, of c q a1] show ?thesis using 1(4) Some x(2) by (auto simp: ieee8021qaz_rchange_def Let_def)
    qed (simp add: ieee8021qaz_rchange_def)
    then obtain rc a' w' where 2: "ieee8021qaz_rchange c q p a1 y w1 = Inr (rc, a', w')" by blast
    then show ?thesis unfolding eq using 1(1) rchange_keeps [OF 1(2) 2] by simp
  qed
qed

subsection \<open>A TLV that is too short\<close>

lemma read_prio_map_short:
  "tlv_info t = Some bs \<Longrightarrow> off \<le> length bs \<Longrightarrow> length bs < off + k \<Longrightarrow> read_prio_map t off i k m = Inl Out_Of_Bounds"
proof (induction k arbitrary: off i m)
  case (Suc k)
  then show ?case using Suc.IH [of "Suc off"] by (cases "off = length bs") (simp_all add: info_at_def)
qed simp

lemma read_table_short:
  "tlv_info t = Some bs \<Longrightarrow> off \<le> length bs \<Longrightarrow> length bs < off + k \<Longrightarrow> read_table t off k = Inl Out_Of_Bounds"
proof (induction k arbitrary: off)
  case (Suc k)
  then show ?case using Suc.IH [of "Suc off"] by (cases "off = length bs") (simp_all add: info_at_def)
qed simp

lemma process_short:
  assumes bs: "tlv_info t = Some bs" "4 \<le> length bs"
  shows "length bs < 25 \<Longrightarrow> ok sizeof_etscfg_obj \<Longrightarrow> process_ieee8021qaz_etscfg_tlv ok t d = Inl Out_Of_Bounds"
    "length bs < 25 \<Longrightarrow> 4 < length bs \<Longrightarrow> ok sizeof_etsrec_obj \<Longrightarrow> process_ieee8021qaz_etsrec_tlv ok t d = Inl Out_Of_Bounds"
    "length bs < 6 \<Longrightarrow> process_ieee8021qaz_pfc_tlv t d = Inl Out_Of_Bounds"
proof -
  show "length bs < 6 \<Longrightarrow> process_ieee8021qaz_pfc_tlv t d = Inl Out_Of_Bounds"
    using bs by (cases "length bs = 4") (auto simp: process_ieee8021qaz_pfc_tlv_def info_at_def)
  have at: "info_at t 4 = (if 4 < length bs then Inr (bs ! 4) else Inl Out_Of_Bounds)" using bs by (simp add: info_at_def)
  have four: "read_prio_map t 5 0 4 0 = Inl Out_Of_Bounds \<or> (\<exists>m. read_prio_map t 5 0 4 0 = Inr m) \<and> (read_table t 9 8 = Inl Out_Of_Bounds
      \<or> (\<exists>bw. read_table t 9 8 = Inr bw) \<and> read_table t 17 8 = Inl Out_Of_Bounds)" if "4 < length bs" "length bs < 25"
  proof -
    consider "length bs < 9" | "9 \<le> length bs" "length bs < 17" | "17 \<le> length bs" by linarith
    then show ?thesis
    proof cases
      case 1 then show ?thesis using read_prio_map_short [OF bs(1), of 5 4] that by simp
    next
      case 2 then show ?thesis using read_prio_map_total [OF bs(1), of 5 4] read_table_short [OF bs(1), of 9 8] by simp
    next
      case 3 then show ?thesis
        using read_prio_map_total [OF bs(1), of 5 4] read_table_total [OF bs(1), of 9 8] read_table_short [OF bs(1), of 17 8] that by simp
    qed
  qed
  show "process_ieee8021qaz_etscfg_tlv ok t d = Inl Out_Of_Bounds" if "length bs < 25" "ok sizeof_etscfg_obj"
    using four that at by (cases "4 < length bs") (auto simp: process_ieee8021qaz_etscfg_tlv_def Let_def)
  show "process_ieee8021qaz_etsrec_tlv ok t d = Inl Out_Of_Bounds" if "length bs < 25" "4 < length bs" "ok sizeof_etsrec_obj"
    using four that by (auto simp: process_ieee8021qaz_etsrec_tlv_def Let_def)
qed

lemma end_of_pdu_fault:
  assumes "qz_active (qaz_head w ! i)" "ieee8021qazdu (qaz_head w ! i) \<noteq> 0"
    "ieee8021qaz_mibUpdateObjects (malloc_ok (core_env c)) ((qaz_head w ! i)\<lparr>qz_pending := False\<rparr>) = Inl x"
  shows "qaz_end_of_pdu c q p a i w = Inl x"
  using assms by (simp add: qaz_end_of_pdu_def Let_def)

subsection \<open>A PFC TLV that stays away\<close>

text \<open>
  When an LLDPDU has no PFC TLV the parameters received before stay in place, and \<open>pfc_sm\<close> tests
  only one of its two conditions with \<open>remote_param\<close>.
\<close>

lemma process_frame:
  "process_ieee8021qaz_etscfg_tlv ok t d = Inr d' \<Longrightarrow> qz_pfc d' = qz_pfc d \<and> local_mac d' = local_mac d \<and> remote_mac d' = remote_mac d"
  "process_ieee8021qaz_etsrec_tlv ok t d = Inr d' \<Longrightarrow> qz_pfc d' = qz_pfc d \<and> local_mac d' = local_mac d \<and> remote_mac d' = remote_mac d"
  "process_ieee8021qaz_app_tlv ok t d = Inr d' \<Longrightarrow> qz_pfc d' = qz_pfc d \<and> local_mac d' = local_mac d \<and> remote_mac d' = remote_mac d"
proof -
  show "process_ieee8021qaz_etscfg_tlv ok t d = Inr d' \<Longrightarrow> qz_pfc d' = qz_pfc d \<and> local_mac d' = local_mac d \<and> remote_mac d' = remote_mac d"
    by (auto simp: process_ieee8021qaz_etscfg_tlv_def Let_def bindR_eq_Inr split: if_splits)
  show "process_ieee8021qaz_etsrec_tlv ok t d = Inr d' \<Longrightarrow> qz_pfc d' = qz_pfc d \<and> local_mac d' = local_mac d \<and> remote_mac d' = remote_mac d"
    by (auto simp: process_ieee8021qaz_etsrec_tlv_def Let_def bindR_eq_Inr split: if_splits)
  show "process_ieee8021qaz_app_tlv ok t d = Inr d' \<Longrightarrow> qz_pfc d' = qz_pfc d \<and> local_mac d' = local_mac d \<and> remote_mac d' = remote_mac d"
    by (auto simp: process_ieee8021qaz_app_tlv_def bindR_eq_Inr)
qed

lemma pfc_stale:
  assumes rx: "qz_rx d = Some r" "rx_pfc r = None" and upd: "ieee8021qaz_mibUpdateObjects ok d = Inr d'"
    and w: "pfc_willing (pfc_local (qz_pfc d))" "pfc_willing (pfc_remote (qz_pfc d))" "\<not> cmp_mac_addrs (local_mac d) (remote_mac d)"
  shows "\<not> remote_param (qz_pfc (pfc_sm d')) \<and> pfc_state (qz_pfc (pfc_sm d')) = RX_RECOMMEND
    \<and> pfc_remote (qz_pfc (pfc_sm d')) = pfc_remote (qz_pfc d)"
proof -
  from upd obtain r' d1 d2 d3 where r: "qz_rx d = Some r'"
    and 1: "(case rx_etscfg r' of Some t \<Rightarrow> process_ieee8021qaz_etscfg_tlv ok t d | None \<Rightarrow> Inr (d\<lparr>qz_ets := (qz_ets d)\<lparr>cfgr := None\<rparr>\<rparr>)) = Inr d1"
    and 2: "(case rx_etsrec r' of Some t \<Rightarrow> process_ieee8021qaz_etsrec_tlv ok t d1 | None \<Rightarrow> Inr (d1\<lparr>qz_ets := (qz_ets d1)\<lparr>recr := None\<rparr>\<rparr>)) = Inr d2"
    and 3: "(case rx_pfc r' of Some t \<Rightarrow> process_ieee8021qaz_pfc_tlv t d2 | None \<Rightarrow> Inr (d2\<lparr>qz_pfc := (qz_pfc d2)\<lparr>remote_param := False\<rparr>\<rparr>)) = Inr d3"
    and 4: "(case rx_app r' of Some t \<Rightarrow> process_ieee8021qaz_app_tlv ok t d3
      | None \<Rightarrow> Inr (d3\<lparr>app_head := ieee8021qaz_app_reset (app_head d3)\<rparr>)) = Inr d'"
    by (rule mib_updateE)
  have "qz_pfc d1 = qz_pfc d \<and> local_mac d1 = local_mac d \<and> remote_mac d1 = remote_mac d"
    using 1 process_frame(1) [of ok _ d d1] by (cases "rx_etscfg r'") auto
  moreover have "qz_pfc d2 = qz_pfc d1 \<and> local_mac d2 = local_mac d1 \<and> remote_mac d2 = remote_mac d1"
    using 2 process_frame(2) [of ok _ d1 d2] by (cases "rx_etsrec r'") auto
  moreover have "d3 = d2\<lparr>qz_pfc := (qz_pfc d2)\<lparr>remote_param := False\<rparr>\<rparr>" using 3 rx r by simp
  moreover have "qz_pfc d' = qz_pfc d3 \<and> local_mac d' = local_mac d3 \<and> remote_mac d' = remote_mac d3"
    using 4 process_frame(3) [of ok _ d3 d'] by (cases "rx_app r'") auto
  ultimately show ?thesis using w by (simp add: pfc_sm_def Let_def)
qed

end
