(* ===== verification/Qaz_Link.thy ===== *)
theory Qaz_Link
  imports Qaz_Module Rx_Walk
begin

text \<open>
  Two stations that exchange the TLVs of IEEE 802.1Qaz: what one LLDPDU makes of the receiver, and
  what priority flow control the two agree on.
\<close>

subsection \<open>Stations\<close>

record 'm qaz_station =
  st_core :: "'m core"
  st_host :: host
  st_qaz :: qaz_host
  st_port :: port
  st_agent :: lldp_agent
  st_world :: qaz_world

definition st_name :: "'m qaz_station \<Rightarrow> string" where
  "st_name s = ifname (st_port s)"

definition st_env :: "'m qaz_station \<Rightarrow> env" where
  "st_env s = core_env (st_core s)"

definition st_data :: "'m qaz_station \<Rightarrow> ieee8021qaz_tlvs" where
  "st_data s = (case ieee8021qaz_data (st_world s) (st_name s) of None \<Rightarrow> zero_qaz_tlvs [] [] | Some i \<Rightarrow> qaz_head (st_world s) ! i)"

text \<open>The TLVs in a block of bytes, as the receiver cuts it.\<close>

function wire_tlvs :: "bytes \<Rightarrow> unpacked_tlv list" where
  "wire_tlvs (hi # lo # rest) = (let tl = be16 hi lo; len = unat (tl AND 0x01ff) in
     \<lparr>tlv_type = ucast (drop_bit 9 tl), tlv_length = tl AND 0x01ff, tlv_info = Some (take len rest)\<rparr> # wire_tlvs (drop len rest))"
| "wire_tlvs [] = []"
| "wire_tlvs [x] = []"
  by pat_completeness auto
termination
  by (relation "measure length") auto

lemma wire_tlvs_concat:
  assumes "wf_seq ts"
  shows "wire_tlvs (tlv_concat ts) = map (\<lambda>(ty, bs). wire_tlv ty bs) ts"
  using assms
proof (induction ts rule: tlv_concat.induct)
  case (2 ty bs ts)
  let ?len = "of_nat (length bs) :: u16"
  have small: "unat ?len = length bs" using 2(2) by (simp add: unat_of_nat)
  then have len: "?len AND 0x01ff = ?len" using 2(2) by (intro and_1ff_small) (simp add: word_less_nat_alt)
  have "tlv_concat ((ty, bs) # ts) = hi8 (tlv_header ty ?len) # lo8 (tlv_header ty ?len) # bs @ tlv_concat ts"
    by (simp add: tlv_encode_def be16_bytes_def)
  then show ?case using 2 len small by (simp add: tlv_header_type Let_def wire_tlv_def)
qed simp

text \<open>A station sends its TLVs, and receives an LLDPDU with TLVs between the mandatory ones and the end.\<close>

definition qaz_send :: "'m qaz_station \<Rightarrow> (unpacked_tlv list \<times> 'm qaz_station) res" where
  "qaz_send s = bindR (ieee8021qaz_gettlv (st_env s) (st_host s) (st_qaz s) (st_port s) (st_agent s) (st_world s)) (\<lambda>(r, w).
     Inr (case r of None \<Rightarrow> [] | Some m \<Rightarrow> wire_tlvs (mtlv_used m), s\<lparr>st_world := w\<rparr>))"

definition qaz_receive :: "unpacked_tlv list \<Rightarrow> 'm qaz_station \<Rightarrow> 'm qaz_station res" where
  "qaz_receive ts s = bindR (qaz_pdu (st_core s) (st_qaz s) (st_port s) (st_agent s)
       ([wire_tlv 1 [7, 0], wire_tlv 2 [7, 0], wire_tlv 3 [0, 120]] @ ts @ [wire_tlv 0 []]) (st_world s)) (\<lambda>(a, w).
     Inr (s\<lparr>st_agent := a, st_world := w\<rparr>))"

definition qaz_exchange :: "'m qaz_station \<Rightarrow> 'm qaz_station \<Rightarrow> ('m qaz_station \<times> 'm qaz_station) res" where
  "qaz_exchange s r = bindR (qaz_send s) (\<lambda>(ts, s'). bindR (qaz_receive ts r) (\<lambda>r'. Inr (s', r')))"

text \<open>
  A station that takes part: the module is active on the interface, sends the PFC TLV, and the
  kernel reports capabilities and priorities in range.
\<close>

definition station_ok :: "'m qaz_station \<Rightarrow> bool" where
  "station_ok s \<longleftrightarrow> agenttype (st_agent s) = NEAREST_BRIDGE \<and> qaz_host_ok (st_env s) (st_qaz s)
     \<and> list_all app_ok (hw_apps (get_ieee_hw (st_qaz s) (st_name s))) \<and> qaz_inv (st_world s)
     \<and> ieee8021qaz_data (st_world s) (st_name s) \<noteq> None \<and> qz_active (st_data s)
     \<and> \<not> is_tlv_txdisabled (st_qaz s) (st_name s) NEAREST_BRIDGE (TLVID OUI_IEEE_8021 LLDP_8021QAZ_PFC)
     \<and> pfc_cap (pfc_local (qz_pfc (st_data s))) AND 0xF = pfc_cap (pfc_local (qz_pfc (st_data s)))"

definition sends_rec :: "'m qaz_station \<Rightarrow> bool" where
  "sends_rec s \<longleftrightarrow> is_tlv_txenabled (st_host s) (st_name s) NEAREST_BRIDGE (TLVID OUI_IEEE_8021 LLDP_8021QAZ_ETSREC)"

definition sent_apps :: "'m qaz_station \<Rightarrow> dcb_app list" where
  "sent_apps s = (if is_tlv_txenabled (st_host s) (st_name s) NEAREST_BRIDGE (TLVID OUI_IEEE_8021 LLDP_8021QAZ_APP)
       \<and> hw_err (get_ieee_hw (st_qaz s) (st_name s)) \<noteq> 0 then hw_apps (get_ieee_hw (st_qaz s) (st_name s)) else [])"

definition sends_cfg :: "'m qaz_station \<Rightarrow> bool" where
  "sends_cfg s \<longleftrightarrow> \<not> is_tlv_txdisabled (st_qaz s) (st_name s) NEAREST_BRIDGE (TLVID OUI_IEEE_8021 LLDP_8021QAZ_ETSCFG)"

text \<open>Two stations on one link.\<close>

definition same_station :: "'m qaz_station \<Rightarrow> 'm qaz_station \<Rightarrow> bool" where
  "same_station s s' \<longleftrightarrow> s' = s\<lparr>st_agent := st_agent s', st_world := st_world s'\<rparr> \<and> agenttype (st_agent s') = agenttype (st_agent s)
     \<and> local_mac (st_data s') = local_mac (st_data s) \<and> pfc_local (qz_pfc (st_data s')) = pfc_local (qz_pfc (st_data s))
     \<and> cfgl (qz_ets (st_data s')) = cfgl (qz_ets (st_data s)) \<and> recl (qz_ets (st_data s')) = recl (qz_ets (st_data s))"

subsection \<open>Sending\<close>

lemma sent_is_qaz:
  assumes "qz_ok d" "length (hw_apps (get_ieee_hw q name)) \<le> 83"
  shows "bld_ieee8021qaz_etscfg_tlv ok d = Inr t \<Longrightarrow> pred_option (is_qaz 9) t" "pred_option (is_qaz 10) (bld_ieee8021qaz_etsrec_tlv ok d)"
    "pred_option (is_qaz 11) (bld_ieee8021qaz_pfc_tlv ok d)" "pred_option (is_qaz 12) (bld_ieee8021qaz_app_tlv ok q name)"
proof -
  have org: "pred_option (is_qaz sub) (org_tlv ok n (QAZ_OUI @ sub # rest))" if "length rest \<le> 500" for sub n rest
  proof -
    have "unat (4 + of_nat (length rest) :: u16) = 4 + length rest"
      using that unat_of_nat [where 'a = 16, of "4 + length rest"] by simp
    then show ?thesis by (auto simp: org_tlv_def create_tlv_def is_qaz_def)
  qed
  have len: "length (concat (map app_prio_bytes xs)) = 3 * length xs" for xs
    by (induction xs) (auto simp: app_prio_bytes_def)
  show "pred_option (is_qaz 9) t" if "bld_ieee8021qaz_etscfg_tlv ok d = Inr t"
    using that assms(1) by (auto simp: bld_ieee8021qaz_etscfg_tlv_def Let_def res_simps split: if_splits intro!: org [simplified])
  show "pred_option (is_qaz 10) (bld_ieee8021qaz_etsrec_tlv ok d)"
    "pred_option (is_qaz 11) (bld_ieee8021qaz_pfc_tlv ok d)" "pred_option (is_qaz 12) (bld_ieee8021qaz_app_tlv ok q name)"
    using assms(2) by (auto simp: bld_ieee8021qaz_etsrec_tlv_def bld_ieee8021qaz_pfc_tlv_def bld_ieee8021qaz_app_tlv_def Let_def len
        intro!: org [simplified])
qed

lemma qaz_tlv_info: "qaz_tlv x \<Longrightarrow> x = Some y \<Longrightarrow> tlv_info y \<noteq> None"
  by (auto simp: qaz_tlv_def packable_def tlv_payload_def split: option.splits)

lemma oper_app_head [simp]: "oper_ets (d\<lparr>app_head := h\<rparr>) = oper_ets d" "oper_pfc (d\<lparr>app_head := h\<rparr>) = oper_pfc d"
  by (simp_all add: oper_ets_def oper_pfc_def split: option.split)

lemma oper_meta: "oper_ets (d\<lparr>qz_rx := x1, ieee8021qazdu := x2, qz_pending := x3\<rparr>) = oper_ets d"
  "oper_pfc (d\<lparr>qz_rx := x1, ieee8021qazdu := x2, qz_pending := x3\<rparr>) = oper_pfc d"
  by (simp_all add: oper_ets_def oper_pfc_def split: option.split)

lemma wire_pairs:
  assumes "\<forall>x \<in> set ts. qaz_tlv x"
  shows "map (\<lambda>(ty, bs). wire_tlv ty bs) (concat (map tlv_pair ts)) = concat (map opt_list ts)"
  using assms
proof (induction ts)
  case (Cons x ts)
  have "map (\<lambda>(ty, bs). wire_tlv ty bs) (tlv_pair x) = opt_list x"
    using Cons.prems qaz_tlv_info [of x] by (auto simp: tlv_pair_def opt_list_def qaz_tlv_def packable_def wire_tlv_def wf_tlv_def tlv_payload_def
        split: option.splits intro!: unpacked_tlv.equality)
  then show ?case using Cons by simp
qed simp

text \<open>The last configuration handed to the kernel.\<close>

definition kernel_hw :: "string \<Rightarrow> qaz_event list \<Rightarrow> (ieee_ets \<times> ieee_pfc) option \<Rightarrow> (ieee_ets \<times> ieee_pfc) option" where
  "kernel_hw name = fold (\<lambda>ev k. case ev of Set_Ieee_Hw n x y \<Rightarrow> if n = name then Some (x, y) else k | _ \<Rightarrow> k)"

definition st_kernel :: "'m qaz_station \<Rightarrow> (ieee_ets \<times> ieee_pfc) option" where
  "st_kernel s = kernel_hw (st_name s) (qaz_events (st_world s)) None"

lemma kernel_hw_simps [simp]:
  "kernel_hw name [] k = k" "kernel_hw name (xs @ ys) k = kernel_hw name ys (kernel_hw name xs k)"
  "kernel_hw name (Set_Dcbx_Mode n # evs) k = kernel_hw name evs k"
  "kernel_hw name (Set_Ieee_Hw n x y # evs) k = kernel_hw name evs (if n = name then Some (x, y) else k)"
  "kernel_hw name (Changed_Local n ty # evs) k = kernel_hw name evs k"
  by (simp_all add: kernel_hw_def)

lemma kernel_hw_apps [simp]: "kernel_hw name (snd (do_app_sethw n head)) k = k"
proof -
  have "kernel_hw name (map (\<lambda>np. Set_App n (ao_app np)) nps) k = k" "kernel_hw name (map (\<lambda>np. Del_App n (ao_app np)) nps) k = k" for nps :: "app_obj list" and k
    by (induction nps) (simp_all add: kernel_hw_def)
  then show ?thesis by (simp add: do_app_sethw_def Let_def)
qed

lemma kernel_hw_sethw: "do_app_sethw n head = (h, evs) \<Longrightarrow> kernel_hw name evs k = k"
  using kernel_hw_apps [of name n head k] by simp

lemma kernel_hw_admin [simp]: "kernel_hw name (admin_events c q n ty) k = k"
  by (simp add: admin_events_def kernel_hw_def)

lemma st_data_eq: "ieee8021qaz_data (st_world s) (st_name s) = Some i \<Longrightarrow> st_data s = qaz_head (st_world s) ! i"
  by (simp add: st_data_def)

lemma run_effect:
  assumes ty: "agenttype a = NEAREST_BRIDGE" and i: "ieee8021qaz_data w (ifname p) = Some i" "i < length (qaz_head w)"
    and ok: "malloc_ok e sizeof_ieee_ets" and d': "d' = pfc_sm (ets_ran (qaz_head w ! i))"
  shows "\<exists>w' h. run_all_sm e p a w = Inr w' \<and> qaz_head w' ! i = d'\<lparr>app_head := h\<rparr>
    \<and> kernel_hw (ifname p) (qaz_events w') None \<in> {kernel_hw (ifname p) (qaz_events w) None, Some (oper_ets d', oper_pfc d')}"
proof -
  let ?w2 = "qaz_log [Set_Dcbx_Mode (ifname p), Set_Ieee_Hw (ifname p) (oper_ets d') (oper_pfc d')] (put_qz i d' w)"
  have on: "qaz_head (ieee8021qaz_app_sethw i (ifname p) ?w2) ! i = d'\<lparr>app_head := fst (do_app_sethw (ifname p) (app_head d'))\<rparr>
      \<and> kernel_hw (ifname p) (qaz_events (ieee8021qaz_app_sethw i (ifname p) ?w2)) None = Some (oper_ets d', oper_pfc d')"
    if "ieee8021qaz_check_active ?w2 (ifname p)"
    unfolding ieee8021qaz_app_sethw_def if_P [OF that]
    using i by (auto simp: put_qz_def kernel_hw_sethw split: prod.splits)
  have eq: "ieee8021qaz_check_active ?w2 (ifname p) = ieee8021qaz_check_active (put_qz i d' w) (ifname p)"
    by (simp add: ieee8021qaz_check_active_def split: option.split)
  note run = run_all_sm_eq [OF ty i(1), of e, unfolded Let_def d' [symmetric]]
  show ?thesis
  proof (cases "malloc_ok e sizeof_ieee_pfc \<and> ieee8021qaz_check_active (put_qz i d' w) (ifname p)")
    case True
    then show ?thesis using run ok on eq by auto
  next
    case False
    have "qaz_head (put_qz i d' w) ! i = d'\<lparr>app_head := app_head d'\<rparr>" using i by simp
    then show ?thesis using run ok False by (intro exI [of _ "put_qz i d' w"] exI [of _ "app_head d'"]) auto
  qed
qed

definition four_tlvs :: "'m qaz_station \<Rightarrow> unpacked_tlv option \<Rightarrow> unpacked_tlv option list" where
  "four_tlvs s t = qaz_sent (st_env s) (st_host s) (st_qaz s) (st_name s) NEAREST_BRIDGE t (st_data s)"

lemma send_effect:
  assumes s: "station_ok s"
  shows "\<exists>s' t h. bld_ieee8021qaz_etscfg_tlv (malloc_ok (st_env s)) (st_data s') = Inr t
    \<and> qaz_send s = Inr (concat (map opt_list (four_tlvs s' t)), s') \<and> st_data s' = (pfc_sm (ets_ran (st_data s)))\<lparr>app_head := h\<rparr>
    \<and> station_ok s' \<and> same_station s s' \<and> st_kernel s' \<in> {st_kernel s, Some (oper_ets (st_data s'), oper_pfc (st_data s'))}"
proof -
  let ?e = "st_env s" let ?w = "st_world s" let ?a = "st_agent s" let ?p = "st_port s"
  obtain i where i: "ieee8021qaz_data ?w (ifname ?p) = Some i" using s by (auto simp: station_ok_def st_name_def)
  have ty: "agenttype ?a = NEAREST_BRIDGE" and q: "qaz_host_ok ?e (st_qaz s)" and inv: "qaz_inv ?w"
    using s by (simp_all add: station_ok_def)
  note d = qaz_data_ok [OF inv i] and sd = st_data_eq [of s i, unfolded st_name_def, OF i]
  let ?d' = "pfc_sm (ets_ran (st_data s))"
  have ok59: "malloc_ok ?e sizeof_ieee_ets" using q by (simp add: qaz_host_ok_def)
  obtain w' h where w': "run_all_sm ?e ?p ?a ?w = Inr w'" "qaz_head w' ! i = ?d'\<lparr>app_head := h\<rparr>"
      "kernel_hw (ifname ?p) (qaz_events w') None \<in> {kernel_hw (ifname ?p) (qaz_events ?w) None, Some (oper_ets ?d', oper_pfc ?d')}"
    using run_effect [OF ty i conjunct1 [OF d] ok59 refl] by (auto simp: sd)
  have w2: "qaz_inv w'" "map qz_ifname (qaz_head w') = map qz_ifname (qaz_head ?w)"
      "ets_state (qz_ets (qaz_head w' ! i)) = RX_RECOMMEND \<longrightarrow> recr (qz_ets (qaz_head w' ! i)) \<noteq> None"
    using run_all_sm_ok [OF inv ty i, of ?e] w'(1) by auto
  note i' = qaz_data_names [OF w2(2), of "ifname ?p", unfolded i]
  let ?s' = "s\<lparr>st_world := w'\<rparr>"
  have sd': "st_data ?s' = ?d'\<lparr>app_head := h\<rparr>" using st_data_eq [of ?s' i] i' w'(2) by (simp add: st_name_def)
  have act: "qz_active (qaz_head w' ! i)" using w'(2) s by (simp add: station_ok_def)
  obtain m t where m: "bld_ieee8021qaz_etscfg_tlv (malloc_ok ?e) (qaz_head w' ! i) = Inr t"
      "ieee8021qaz_bld_tlv ?e (st_host s) (st_qaz s) ?p ?a w' = Inr (Some m)"
      "ptlv_carries m (concat (map tlv_pair (four_tlvs ?s' t)))" "\<forall>x \<in> set (four_tlvs ?s' t). qaz_tlv x"
    using bld_tlv_ok [OF q w2(1) ty i' act w2(3), of "st_host s", unfolded ty w'(2) sd' [symmetric]]
    unfolding four_tlvs_def st_name_def st_env_def w'(2) sd' [symmetric] qaz_station.select_convs qaz_station.update_convs
    by (fastforce simp: st_env_def)
  have "wf_seq (concat (map tlv_pair xs))" if "\<forall>x \<in> set xs. qaz_tlv x" for xs
    using that by (induction xs) (auto simp: qaz_tlv_def wf_seq_pair)
  note wf = this [OF m(4)]
  have used: "mtlv_used m = tlv_concat (concat (map tlv_pair (four_tlvs ?s' t)))" using m(3) by (auto simp: ptlv_carries_def mtlv_used_def)
  have "wire_tlvs (mtlv_used m) = concat (map opt_list (four_tlvs ?s' t))"
    unfolding used wire_tlvs_concat [OF wf] by (rule wire_pairs [OF m(4)])
  then have "qaz_send s = Inr (concat (map opt_list (four_tlvs ?s' t)), ?s')"
    using w'(1) m(2) ty by (simp add: qaz_send_def ieee8021qaz_gettlv_def)
  moreover have "station_ok ?s'" using s w2(1) i' sd' by (simp add: station_ok_def st_name_def st_env_def)
  moreover have "same_station s ?s'" using sd' by (simp add: same_station_def)
  moreover have "st_kernel ?s' \<in> {st_kernel s, Some (oper_ets (st_data ?s'), oper_pfc (st_data ?s'))}"
    using w'(3) by (simp add: st_kernel_def st_name_def sd')
  ultimately show ?thesis using m(1) w'(2) sd' by auto
qed

subsection \<open>Receiving\<close>

definition updated :: "(etscfg_obj option) \<Rightarrow> (etsrec_obj option) \<Rightarrow> (pfc_obj \<Rightarrow> pfc_obj) \<Rightarrow> app_obj list \<Rightarrow> ieee8021qaz_tlvs \<Rightarrow> ieee8021qaz_tlvs" where
  "updated c r f head d = d\<lparr>qz_ets := (qz_ets d)\<lparr>cfgr := c, recr := r\<rparr>,
     qz_pfc := (qz_pfc d)\<lparr>pfc_remote := f (pfc_remote (qz_pfc d)), remote_param := True\<rparr>, app_head := head\<rparr>"

lemma mib_update_eq:
  assumes rx: "qz_rx d = Some \<lparr>rx_etscfg = t1, rx_etsrec = t2, rx_pfc = Some t3, rx_app = t4\<rparr>"
    and p1: "\<And>x d. t1 = Some x \<Longrightarrow> process_ieee8021qaz_etscfg_tlv ok x d = Inr (d\<lparr>qz_ets := (qz_ets d)\<lparr>cfgr := Some c\<rparr>\<rparr>)"
    and p2: "\<And>x d. t2 = Some x \<Longrightarrow> process_ieee8021qaz_etsrec_tlv ok x d = Inr (d\<lparr>qz_ets := (qz_ets d)\<lparr>recr := Some r\<rparr>\<rparr>)"
    and p3: "\<And>d. process_ieee8021qaz_pfc_tlv t3 d
        = Inr (d\<lparr>qz_pfc := (qz_pfc d)\<lparr>pfc_remote := f (pfc_remote (qz_pfc d)), remote_param := True\<rparr>\<rparr>)"
    and p4: "\<And>x d. t4 = Some x \<Longrightarrow> process_ieee8021qaz_app_tlv ok x d
        = Inr (d\<lparr>app_head := fold (app_add ok) xs (ieee8021qaz_app_reset (app_head d))\<rparr>)" "t4 = None \<Longrightarrow> xs = []"
  shows "ieee8021qaz_mibUpdateObjects ok d = Inr (updated (if t1 = None then None else Some c) (if t2 = None then None else Some r) f
      (fold (app_add ok) xs (ieee8021qaz_app_reset (app_head d))) d)"
  using rx p1 p2 p3 p4
  by (cases t1; cases t2; cases t4) (simp_all add: ieee8021qaz_mibUpdateObjects_def updated_def)

lemma updated_simps [simp]:
  "qz_active (updated c r f h d) = qz_active d" "qz_pending (updated c r f h d) = qz_pending d" "qz_ifname (updated c r f h d) = qz_ifname d"
  "local_mac (updated c r f h d) = local_mac d" "remote_mac (updated c r f h d) = remote_mac d" "app_head (updated c r f h d) = h"
  "qz_pfc (updated c r f h d) = (qz_pfc d)\<lparr>pfc_remote := f (pfc_remote (qz_pfc d)), remote_param := True\<rparr>"
  "qz_ets (updated c r f h d) = (qz_ets d)\<lparr>cfgr := c, recr := r\<rparr>"
  by (simp_all add: updated_def)

text \<open>What one LLDPDU makes of the data of the receiver: \<open>s\<close> is the sender.\<close>

definition heard :: "'m qaz_station \<Rightarrow> 'm qaz_station \<Rightarrow> ieee8021qaz_tlvs" where
  "heard s r = pfc_sm (ets_ran (updated (if sends_cfg s then Some (advertised_cfg (st_data s)) else None)
     (if sends_rec s then Some (recl (qz_ets (st_data s))) else None) (advertised_pfc (st_data s))
     (fold (app_add (malloc_ok (st_env r))) (sent_apps s) (ieee8021qaz_app_reset (app_head (st_data r))))
     ((st_data r)\<lparr>remote_mac := remote_mac_addr (l2 (st_port r))\<rparr>)))"

lemma built_tlvs:
  assumes "station_ok s" "bld_ieee8021qaz_etscfg_tlv (malloc_ok (st_env s)) (st_data s) = Inr t" "four_tlvs s t = [t1, t2, t3, t4]"
    "ets_state (qz_ets (st_data s)) = RX_RECOMMEND \<longrightarrow> recr (qz_ets (st_data s)) \<noteq> None"
  shows "t1 = (if sends_cfg s then t else None)" "t \<noteq> None"
    "t2 = (if sends_rec s then bld_ieee8021qaz_etsrec_tlv (malloc_ok (st_env s)) (st_data s) else None)"
    "bld_ieee8021qaz_etsrec_tlv (malloc_ok (st_env s)) (st_data s) \<noteq> None"
    "t3 = bld_ieee8021qaz_pfc_tlv (malloc_ok (st_env s)) (st_data s)" "t3 \<noteq> None"
    "t4 = Some x \<Longrightarrow> bld_ieee8021qaz_app_tlv (malloc_ok (st_env s)) (st_qaz s) (st_name s) = Some x
        \<and> sent_apps s = hw_apps (get_ieee_hw (st_qaz s) (st_name s))"
    "t4 = None \<Longrightarrow> sent_apps s = []"
proof -
  have ok: "malloc_ok (st_env s) n" if "n \<le> 2000" for n using assms(1) that by (simp add: station_ok_def qaz_host_ok_def)
  have apps: "length (hw_apps (get_ieee_hw (st_qaz s) (st_name s))) \<le> 83" using assms(1) by (simp add: station_ok_def qaz_host_ok_def)
  have org: "org_tlv (malloc_ok (st_env s)) n info \<noteq> None" if "n \<le> 2000" for n info using ok that by (simp add: org_tlv_def create_tlv_def)
  note four = assms(3) [unfolded four_tlvs_def qaz_sent_def list.inject]
  have tx: "\<not> is_tlv_txdisabled (st_qaz s) (st_name s) NEAREST_BRIDGE (TLVID OUI_IEEE_8021 LLDP_8021QAZ_PFC)"
    using assms(1) by (simp add: station_ok_def)
  show "t1 = (if sends_cfg s then t else None)" using four by (auto simp: sends_cfg_def)
  show "t \<noteq> None" using assms(2,4) ok org
    by (auto simp: bld_ieee8021qaz_etscfg_tlv_def Let_def create_tlv_def res_simps split: if_splits)
  show "t2 = (if sends_rec s then bld_ieee8021qaz_etsrec_tlv (malloc_ok (st_env s)) (st_data s) else None)"
    using four by (auto simp: sends_rec_def)
  show "bld_ieee8021qaz_etsrec_tlv (malloc_ok (st_env s)) (st_data s) \<noteq> None" using org by (simp add: bld_ieee8021qaz_etsrec_tlv_def Let_def)
  show t3: "t3 = bld_ieee8021qaz_pfc_tlv (malloc_ok (st_env s)) (st_data s)" using four tx by auto
  show "t3 \<noteq> None" unfolding t3 using org by (simp add: bld_ieee8021qaz_pfc_tlv_def Let_def)
  have t4: "t4 = (if is_tlv_txenabled (st_host s) (st_name s) NEAREST_BRIDGE (TLVID OUI_IEEE_8021 LLDP_8021QAZ_APP)
      then bld_ieee8021qaz_app_tlv (malloc_ok (st_env s)) (st_qaz s) (st_name s) else None)" using four by auto
  show "bld_ieee8021qaz_app_tlv (malloc_ok (st_env s)) (st_qaz s) (st_name s) = Some x
        \<and> sent_apps s = hw_apps (get_ieee_hw (st_qaz s) (st_name s))" if "t4 = Some x"
    using that t4 by (auto simp: sent_apps_def bld_ieee8021qaz_app_tlv_def Let_def split: if_splits)
  let ?xs = "hw_apps (get_ieee_hw (st_qaz s) (st_name s))"
  have "org_tlv (malloc_ok (st_env s)) (5 + 3 * length ?xs) (QAZ_OUI @ [12, 0] @ concat (map app_prio_bytes ?xs)) \<noteq> None"
    using org apps by simp
  then show "sent_apps s = []" if "t4 = None"
    using that t4 ok by (auto simp: sent_apps_def bld_ieee8021qaz_app_tlv_def Let_def create_tlv_def split: if_splits)
qed

lemma station_qz_ok: "station_ok s \<Longrightarrow> qz_ok (st_data s)"
  using qaz_data_ok [of "st_world s" "st_name s"] st_data_eq [of s] by (auto simp: station_ok_def)

definition sent_ready :: "'m qaz_station \<Rightarrow> unpacked_tlv option \<Rightarrow> bool" where
  "sent_ready s t \<longleftrightarrow> station_ok s \<and> bld_ieee8021qaz_etscfg_tlv (malloc_ok (st_env s)) (st_data s) = Inr t
     \<and> (ets_state (qz_ets (st_data s)) = RX_RECOMMEND \<longrightarrow> recr (qz_ets (st_data s)) \<noteq> None)"

lemma four_tlvs_built:
  assumes "sent_ready s t"
  obtains t1 t2 y t4 where "four_tlvs s t = [t1, t2, Some y, t4]"
    "pred_option (is_qaz 9) t1" "pred_option (is_qaz 10) t2" "is_qaz 11 y" "pred_option (is_qaz 12) t4"
proof -
  have s: "station_ok s" "bld_ieee8021qaz_etscfg_tlv (malloc_ok (st_env s)) (st_data s) = Inr t"
    "ets_state (qz_ets (st_data s)) = RX_RECOMMEND \<longrightarrow> recr (qz_ets (st_data s)) \<noteq> None" using assms by (simp_all add: sent_ready_def)
  obtain t1 t2 t3 t4 where four: "four_tlvs s t = [t1, t2, t3, t4]" by (simp add: four_tlvs_def qaz_sent_def)
  note b = built_tlvs [OF s(1,2) four s(3)]
  obtain y where y: "t3 = Some y" using b(6) by auto
  have few: "length (hw_apps (get_ieee_hw (st_qaz s) (st_name s))) \<le> 83" using s(1) by (simp add: station_ok_def qaz_host_ok_def)
  note isq = sent_is_qaz [OF station_qz_ok [OF s(1)] few]
  have "pred_option (is_qaz 9) t1" "pred_option (is_qaz 10) t2" "pred_option (is_qaz 11) t3" "pred_option (is_qaz 12) t4"
    using isq b(1,3,5,7) s(2) by (auto simp: option.pred_set)
  then show thesis using that four y by simp
qed

text \<open>The TLVs are collected up to the end of the LLDPDU, and evaluated there.\<close>

lemma receive_collect:
  assumes r: "station_ok r" and i: "ieee8021qaz_data (st_world r) (ifname (st_port r)) = Some i" "i < length (qaz_head (st_world r))"
    and t: "pred_option (is_qaz 9) t1" "pred_option (is_qaz 10) t2" "pred_option (is_qaz 11) t3" "pred_option (is_qaz 12) t4"
  shows "qaz_receive (concat (map opt_list [t1, t2, t3, t4])) r
    = bindR (qaz_end_of_pdu (st_core r) (st_qaz r) (st_port r) (st_agent r) i
        (put_qz i (rx_all (remote_mac_addr (l2 (st_port r))) t1 t2 t3 t4 (st_data r)) (st_world r))) (\<lambda>w. Inr (r\<lparr>st_world := w\<rparr>))"
proof -
  let ?c = "st_core r" let ?q = "st_qaz r" let ?w = "st_world r" let ?a = "st_agent r" let ?p = "st_port r"
  have ty: "agenttype ?a = NEAREST_BRIDGE" and ok: "malloc_ok (core_env ?c) sizeof_qaz_unpkd"
    using r by (simp_all add: station_ok_def qaz_host_ok_def st_env_def)
  note sd = st_data_eq [of r i, unfolded st_name_def, OF i(1)]
  let ?w1 = "put_qz i (rx_all (remote_mac_addr (l2 ?p)) t1 t2 t3 t4 (st_data r)) ?w"
  have "qaz_pdu ?c ?q ?p ?a [wire_tlv 0 []] ?w1 = bindR (qaz_end_of_pdu ?c ?q ?p ?a i ?w1) (\<lambda>w. Inr (?a, w))"
    using ty i by (simp add: ieee8021qaz_rchange_def wire_tlv_def rx_all_def sd bindR_assoc)
  then show ?thesis
    using pdu_collect [OF ty i t ok, of "wire_tlv 1 [7, 0]" "[wire_tlv 2 [7, 0], wire_tlv 3 [0, 120]]" ?q "[wire_tlv 0 []]"]
    by (simp add: wire_tlv_def sd qaz_receive_def bindR_assoc)
qed

lemma update_sent:
  assumes s: "sent_ready s t" and four: "four_tlvs s t = [t1, t2, Some y, t4]" and ok: "\<And>n. n \<le> 2000 \<Longrightarrow> ok n"
    and rx: "qz_rx d = Some \<lparr>rx_etscfg = t1, rx_etsrec = t2, rx_pfc = Some y, rx_app = t4\<rparr>"
  shows "ieee8021qaz_mibUpdateObjects ok d = Inr (updated (if sends_cfg s then Some (advertised_cfg (st_data s)) else None)
     (if sends_rec s then Some (recl (qz_ets (st_data s))) else None) (advertised_pfc (st_data s))
     (fold (app_add ok) (sent_apps s) (ieee8021qaz_app_reset (app_head d))) d)"
proof -
  have r: "station_ok s" "bld_ieee8021qaz_etscfg_tlv (malloc_ok (st_env s)) (st_data s) = Inr t"
    "ets_state (qz_ets (st_data s)) = RX_RECOMMEND \<longrightarrow> recr (qz_ets (st_data s)) \<noteq> None" using s by (simp_all add: sent_ready_def)
  note b = built_tlvs [OF r(1,2) four r(3)] and q = station_qz_ok [OF r(1)]
  have few: "length (hw_apps (get_ieee_hw (st_qaz s) (st_name s))) \<le> 83" using r(1) by (simp add: station_ok_def qaz_host_ok_def)
  have none: "t1 = None \<longleftrightarrow> \<not> sends_cfg s" "t2 = None \<longleftrightarrow> \<not> sends_rec s" using b(1-4) by auto
  have cap: "pfc_cap (pfc_local (qz_pfc (st_data s))) AND 0xF = pfc_cap (pfc_local (qz_pfc (st_data s)))"
    and apps: "list_all app_ok (hw_apps (get_ieee_hw (st_qaz s) (st_name s)))" using r(1) by (simp_all add: station_ok_def)
  have "ieee8021qaz_mibUpdateObjects ok d = Inr (updated (if t1 = None then None else Some (advertised_cfg (st_data s)))
      (if t2 = None then None else Some (recl (qz_ets (st_data s)))) (advertised_pfc (st_data s))
      (fold (app_add ok) (sent_apps s) (ieee8021qaz_app_reset (app_head d))) d)"
  proof (rule mib_update_eq [OF rx])
    show "process_ieee8021qaz_etscfg_tlv ok x d = Inr (d\<lparr>qz_ets := (qz_ets d)\<lparr>cfgr := Some (advertised_cfg (st_data s))\<rparr>\<rparr>)"
      if "t1 = Some x" for x d
      using etscfg_roundtrip [OF q, of "malloc_ok (st_env s)" x ok d] ok r(2) b(1) that by (auto split: if_splits)
    show "process_ieee8021qaz_etsrec_tlv ok x d = Inr (d\<lparr>qz_ets := (qz_ets d)\<lparr>recr := Some (recl (qz_ets (st_data s)))\<rparr>\<rparr>)"
      if "t2 = Some x" for x d
      using etsrec_roundtrip [OF q, of "malloc_ok (st_env s)" x d ok] ok b(3) that by (auto split: if_splits)
    show "process_ieee8021qaz_pfc_tlv y d = Inr (d\<lparr>qz_pfc := (qz_pfc d)\<lparr>
        pfc_remote := advertised_pfc (st_data s) (pfc_remote (qz_pfc d)), remote_param := True\<rparr>\<rparr>)" for d
      using pfc_roundtrip [OF _ cap, of "malloc_ok (st_env s)" y d] b(5) by simp
    show "process_ieee8021qaz_app_tlv ok x d = Inr (d\<lparr>app_head := fold (app_add ok) (sent_apps s) (ieee8021qaz_app_reset (app_head d))\<rparr>)"
      if "t4 = Some x" for x d
      using app_tlv_read [OF _ apps few, of "malloc_ok (st_env s)" x ok d] b(7) [OF that] by simp
  qed (use b(8) in auto)
  then show ?thesis by (simp add: none)
qed

lemma advertised_cfg_ok: "qz_ok d \<Longrightarrow> etscfg_ok (advertised_cfg d)"
  by (auto simp: advertised_cfg_def Let_def qz_ok_def etscfg_ok_def etsrec_ok_def split: qaz_state.split option.split)

lemma receive_effect:
  assumes s: "sent_ready s t"
    and r: "station_ok r" and app: "do_app_sethw (st_name r) (app_head (heard s r)) = (head', evs)"
  shows "\<exists>r' du. qaz_receive (concat (map opt_list (four_tlvs s t))) r = Inr r' \<and> station_ok r' \<and> same_station r r'
    \<and> st_data r' = (heard s r)\<lparr>app_head := head', qz_rx := None, ieee8021qazdu := du, qz_pending := False\<rparr>
    \<and> qaz_events (st_world r') = qaz_events (st_world r) @ admin_events (st_core r) (st_qaz r) (qz_ifname (st_data r)) NEAREST_BRIDGE
        @ [Set_Dcbx_Mode (st_name r), Set_Ieee_Hw (st_name r) (oper_ets (heard s r)) (oper_pfc (heard s r)), Set_Dcbx_Mode (st_name r)]
        @ evs @ [Changed_Local (st_name r) NEAREST_BRIDGE]"
proof -
  let ?c = "st_core r" let ?q = "st_qaz r" let ?w = "st_world r" let ?a = "st_agent r" let ?p = "st_port r"
  obtain i where i: "ieee8021qaz_data ?w (ifname ?p) = Some i" using r by (auto simp: station_ok_def st_name_def)
  have ty: "agenttype ?a = NEAREST_BRIDGE" and inv: "qaz_inv ?w" and act: "qz_active (st_data r)"
    and ok: "n \<le> 2000 \<Longrightarrow> malloc_ok (core_env ?c) n" for n
    using r by (simp_all add: station_ok_def qaz_host_ok_def st_env_def)
  note d = qaz_data_ok [OF inv i] and sd = st_data_eq [of r i, unfolded st_name_def, OF i]
  obtain t1 t2 y t4 where four: "four_tlvs s t = [t1, t2, Some y, t4]"
    and t: "pred_option (is_qaz 9) t1" "pred_option (is_qaz 10) t2" "is_qaz 11 y" "pred_option (is_qaz 12) t4"
    using four_tlvs_built [OF s] by blast
  have len: "i < length (qaz_head ?w)" using d by simp
  let ?ok = "malloc_ok (core_env ?c)"
  define d1 where "d1 = rx_all (remote_mac_addr (l2 ?p)) t1 t2 (Some y) t4 (st_data r)"
  define d2 where "d2 = updated (if sends_cfg s then Some (advertised_cfg (st_data s)) else None)
     (if sends_rec s then Some (recl (qz_ets (st_data s))) else None) (advertised_pfc (st_data s))
     (fold (app_add ?ok) (sent_apps s) (ieee8021qaz_app_reset (app_head (st_data r)))) (d1\<lparr>qz_pending := False\<rparr>)"
  define d3 where "d3 = pfc_sm (ets_ran d2)"
  let ?w1 = "put_qz i d1 ?w"
  note pdu = receive_collect [OF r i len t(1,2) _ t(4), of "Some y", simplified option.pred_inject, OF t(3), folded d1_def, folded four]
  have upd: "ieee8021qaz_mibUpdateObjects ?ok (d1\<lparr>qz_pending := False\<rparr>) = Inr d2"
    using update_sent [OF s four, of ?ok "d1\<lparr>qz_pending := False\<rparr>"] ok by (simp add: d2_def d1_def rx_all_def)
  have h: "(heard s r)\<lparr>qz_rx := x1, ieee8021qazdu := x2, qz_pending := x3\<rparr> = d3\<lparr>qz_rx := x1, ieee8021qazdu := x2, qz_pending := x3\<rparr>" for x1 x2 x3
    unfolding d3_def d2_def d1_def heard_def rx_all_def updated_def st_env_def
    by (simp add: pfc_sm_def ets_ran_def Let_def)
  have d3: "qz_ifname d3 = qz_ifname (st_data r)" "app_head d3 = app_head (heard s r)" "\<not> qz_pending d3"
      "oper_ets d3 = oper_ets (heard s r)" "oper_pfc d3 = oper_pfc (heard s r)"
    using arg_cong [OF h, of app_head] arg_cong [OF h, of oper_ets] arg_cong [OF h, of oper_pfc]
    by (simp_all add: oper_meta) (simp_all add: d3_def d2_def d1_def rx_all_def)
  have n1: "qz_ifname d1 = qz_ifname (qaz_head ?w ! i)" by (simp add: d1_def rx_all_def sd)
  have w1: "ieee8021qaz_data ?w1 (ifname ?p) = Some i" "i < length (qaz_head ?w1)" "qaz_head ?w1 ! i = d1" using i len n1 by simp_all
  have du: "ieee8021qazdu d1 \<noteq> 0" "qz_active d1" using act by (auto simp: d1_def rx_all_def)
  let ?new = "d3\<lparr>app_head := head', qz_rx := None\<rparr>"
  let ?evs = "admin_events ?c ?q (qz_ifname (st_data r)) NEAREST_BRIDGE
      @ [Set_Dcbx_Mode (ifname ?p), Set_Ieee_Hw (ifname ?p) (oper_ets d3) (oper_pfc d3), Set_Dcbx_Mode (ifname ?p)] @ evs
      @ [Changed_Local (ifname ?p) NEAREST_BRIDGE]"
  let ?r' = "r\<lparr>st_world := qaz_log ?evs (put_qz i ?new ?w)\<rparr>"
  have "qaz_end_of_pdu ?c ?q ?p ?a i ?w1 = Inr (qaz_log ?evs (put_qz i ?new ?w))"
    using end_of_pdu [OF ty w1(1,2), of ?c d2 d3 head' evs ?q] du ok upd d3 app
    by (simp add: w1(3) d3_def [symmetric] st_name_def) (simp add: d2_def d1_def rx_all_def sd d3_def)
  with pdu have "qaz_receive (concat (map opt_list (four_tlvs s t))) r = Inr ?r'" by simp
  moreover have "ieee8021qaz_data (put_qz i ?new ?w) (ifname ?p) = Some i" using i len d3(1) by (simp add: sd)
  note i' = this
  have sd': "st_data ?r' = ?new" using st_data_eq [of ?r' i] i' len by (simp add: st_name_def)
  have same: "local_mac ?new = local_mac (st_data r)" "pfc_local (qz_pfc ?new) = pfc_local (qz_pfc (st_data r))"
    "cfgl (qz_ets ?new) = cfgl (qz_ets (st_data r))" "recl (qz_ets ?new) = recl (qz_ets (st_data r))" "qz_active ?new"
    using act by (simp_all add: d3_def d2_def d1_def rx_all_def)
  have "station_ok s" using s by (simp add: sent_ready_def)
  then have "qz_ok ?new" using station_qz_ok [OF r] station_qz_ok [of s] advertised_cfg_ok [of "st_data s"]
    by (simp add: d3_def d2_def d1_def qz_ok_def rx_all_def)
  then have "station_ok ?r'" using r i' sd' same inv by (simp add: station_ok_def st_name_def st_env_def)
  moreover have "same_station r ?r'" using sd' same by (simp add: same_station_def)
  moreover have "?new = (heard s r)\<lparr>app_head := head', qz_rx := None, ieee8021qazdu := ieee8021qazdu d3, qz_pending := False\<rparr>"
  proof -
    have "?new = (d3\<lparr>qz_rx := None, ieee8021qazdu := ieee8021qazdu d3, qz_pending := False\<rparr>)\<lparr>app_head := head'\<rparr>"
      using d3(3) by simp
    also have "\<dots> = ((heard s r)\<lparr>qz_rx := None, ieee8021qazdu := ieee8021qazdu d3, qz_pending := False\<rparr>)\<lparr>app_head := head'\<rparr>"
      unfolding h ..
    finally show ?thesis by simp
  qed
  ultimately show ?thesis using sd' d3 by (intro exI [of _ ?r'] exI [of _ "ieee8021qazdu d3"]) (simp add: st_name_def)
qed

subsection \<open>One exchange\<close>

definition applied_ets :: "'m qaz_station \<Rightarrow> 'm qaz_station \<Rightarrow> ieee_ets" where
  "applied_ets s r = (if cfg_willing (cfgl (qz_ets (st_data r))) \<and> sends_rec s then ets_rec_to_ieee (recl (qz_ets (st_data s)))
     else ets_cfg_to_ieee (cfgl (qz_ets (st_data r))))"

lemma heard_ets:
  "oper_ets (heard s r) = applied_ets s r" "cfgr (qz_ets (heard s r)) = (if sends_cfg s then Some (advertised_cfg (st_data s)) else None)"
  "recr (qz_ets (heard s r)) = (if sends_rec s then Some (recl (qz_ets (st_data s))) else None)"
  by (simp_all add: heard_def oper_ets_def applied_ets_def split: option.split)

text \<open>The PFC part of the data of an interface, and the machine on it.\<close>

lemma pfc_sm_state: "pfc_state (qz_pfc (pfc_sm d)) =
   (let pa = qz_pfc d; lw = pfc_willing (pfc_local pa); rw = pfc_willing (pfc_remote pa); rp = remote_param pa;
        gt = cmp_mac_addrs (local_mac d) (remote_mac d)
    in if (lw \<and> \<not> rw \<and> rp) \<or> (lw \<and> rw \<and> \<not> gt) then RX_RECOMMEND else INIT)"
  by (auto simp: pfc_sm_def Let_def)

lemma heard_pfc:
  "local_mac (heard s r) = local_mac (st_data r)" "remote_mac (heard s r) = remote_mac_addr (l2 (st_port r))"
  "remote_param (qz_pfc (heard s r))" "pfc_local (qz_pfc (heard s r)) = pfc_local (qz_pfc (st_data r))"
  "pfc_remote (qz_pfc (heard s r)) = advertised_pfc (st_data s) (pfc_remote (qz_pfc (st_data r)))"
  "pfc_state (qz_pfc (heard s r)) = (let lw = pfc_willing (pfc_local (qz_pfc (st_data r))); rw = pfc_willing (pfc_local (qz_pfc (st_data s)))
     in if lw \<and> (\<not> rw \<or> \<not> cmp_mac_addrs (local_mac (st_data r)) (remote_mac_addr (l2 (st_port r)))) then RX_RECOMMEND else INIT)"
  by (auto simp: heard_def pfc_sm_state Let_def advertised_pfc_def)

lemma heard_apps:
  assumes ok: "malloc_ok (st_env r) sizeof_app_obj" and K: "apps_known K (app_head (st_data r))"
    and app: "do_app_sethw (st_name r) (app_head (heard s r)) = (head', evs)"
  shows "app_table (st_name r) evs K = local_apps (app_head (st_data r)) \<union> set (sent_apps s) \<union> (K - ao_app ` set (app_head (st_data r)))"
    "apps_known (app_table (st_name r) evs K) head'"
proof -
  let ?h0 = "ieee8021qaz_app_reset (app_head (st_data r))"
  have hd: "app_head (heard s r) = fold (app_add (malloc_ok (st_env r))) (sent_apps s) ?h0" by (simp add: heard_def)
  note k0 = app_reset_apps [OF K]
  note k1 = app_fold_apps [of "malloc_ok (st_env r)", OF ok k0(1), of "sent_apps s", folded hd]
  note t = do_app_sethw_table [OF conjunct1 [OF k1] app]
  show "apps_known (app_table (st_name r) evs K) head'" by (rule t(4))
  show "app_table (st_name r) evs K = local_apps (app_head (st_data r)) \<union> set (sent_apps s) \<union> (K - ao_app ` set (app_head (st_data r)))"
  proof -
    have "X \<union> L \<union> (K - (X \<union> A)) = L \<union> X \<union> (K - A)" for X L A :: "dcb_app set" by blast
    then show ?thesis using t(1) k0(2,3) k1 by simp
  qed
qed

lemma app_table_admin [simp]: "app_table name (admin_events c q n ty) K = K"
  by (simp add: admin_events_def)

lemma exchange_effect:
  assumes s: "station_ok s" and r: "station_ok r"
  shows "\<exists>s' r' h evs. qaz_exchange s r = Inr (s', r') \<and> station_ok s' \<and> station_ok r' \<and> same_station s s' \<and> same_station r r'
    \<and> st_data s' = (pfc_sm (ets_ran (st_data s)))\<lparr>app_head := h\<rparr>
    \<and> st_kernel s' \<in> {st_kernel s, Some (oper_ets (st_data s'), oper_pfc (st_data s'))}
    \<and> qz_ets (st_data r') = qz_ets (heard s' r) \<and> qz_pfc (st_data r') = qz_pfc (heard s' r) \<and> remote_mac (st_data r') = remote_mac (heard s' r)
    \<and> qaz_events (st_world r') = qaz_events (st_world r) @ evs
    \<and> (\<forall>k. kernel_hw (st_name r) evs k = Some (oper_ets (heard s' r), oper_pfc (heard s' r)))
    \<and> (\<forall>K. apps_known K (app_head (st_data r)) \<longrightarrow>
        app_table (st_name r) evs K = local_apps (app_head (st_data r)) \<union> set (sent_apps s') \<union> (K - ao_app ` set (app_head (st_data r)))
        \<and> apps_known (app_table (st_name r) evs K) (app_head (st_data r')))"
proof -
  obtain s' t h where s': "bld_ieee8021qaz_etscfg_tlv (malloc_ok (st_env s)) (st_data s') = Inr t"
      "qaz_send s = Inr (concat (map opt_list (four_tlvs s' t)), s')" "st_data s' = (pfc_sm (ets_ran (st_data s)))\<lparr>app_head := h\<rparr>"
      "station_ok s'" "same_station s s'" "st_kernel s' \<in> {st_kernel s, Some (oper_ets (st_data s'), oper_pfc (st_data s'))}"
    using send_effect [OF s] by blast
  have e: "st_env s' = st_env s" using s'(5) unfolding same_station_def st_env_def by (metis qaz_station.ext_inject qaz_station.surjective qaz_station.update_convs(5,6))
  have st: "ets_state (qz_ets (st_data s')) = RX_RECOMMEND \<longrightarrow> recr (qz_ets (st_data s')) \<noteq> None" by (simp add: s'(3))
  obtain head' evs where app: "do_app_sethw (st_name r) (app_head (heard s' r)) = (head', evs)" by fastforce
  have "sent_ready s' t" using s'(1,4) st by (simp add: sent_ready_def e)
  note eff = receive_effect [OF this r app]
  then obtain r' du where r': "qaz_receive (concat (map opt_list (four_tlvs s' t))) r = Inr r'" "station_ok r'" "same_station r r'"
      "st_data r' = (heard s' r)\<lparr>app_head := head', qz_rx := None, ieee8021qazdu := du, qz_pending := False\<rparr>"
      "qaz_events (st_world r') = qaz_events (st_world r) @ admin_events (st_core r) (st_qaz r) (qz_ifname (st_data r)) NEAREST_BRIDGE
        @ [Set_Dcbx_Mode (st_name r), Set_Ieee_Hw (st_name r) (oper_ets (heard s' r)) (oper_pfc (heard s' r)), Set_Dcbx_Mode (st_name r)]
        @ evs @ [Changed_Local (st_name r) NEAREST_BRIDGE]"
    by blast
  have "malloc_ok (st_env r) sizeof_app_obj" using r by (simp add: station_ok_def qaz_host_ok_def)
  note apps = heard_apps [OF this _ app]
  have "qaz_exchange s r = Inr (s', r')" using s'(2) r'(1) by (simp add: qaz_exchange_def)
  moreover define E where "E = admin_events (st_core r) (st_qaz r) (qz_ifname (st_data r)) NEAREST_BRIDGE
      @ [Set_Dcbx_Mode (st_name r), Set_Ieee_Hw (st_name r) (oper_ets (heard s' r)) (oper_pfc (heard s' r)), Set_Dcbx_Mode (st_name r)]
      @ evs @ [Changed_Local (st_name r) NEAREST_BRIDGE]"
  moreover have "\<forall>k. kernel_hw (st_name r) E k = Some (oper_ets (heard s' r), oper_pfc (heard s' r))"
    by (simp add: E_def kernel_hw_sethw [OF app])
  moreover have "\<forall>K. apps_known K (app_head (st_data r)) \<longrightarrow>
        app_table (st_name r) E K = local_apps (app_head (st_data r)) \<union> set (sent_apps s') \<union> (K - ao_app ` set (app_head (st_data r)))
        \<and> apps_known (app_table (st_name r) E K) (app_head (st_data r'))"
    using apps by (simp add: E_def r'(4))
  moreover have "qz_ets (st_data r') = qz_ets (heard s' r)" "qz_pfc (st_data r') = qz_pfc (heard s' r)"
    "remote_mac (st_data r') = remote_mac (heard s' r)" by (simp_all add: r'(4))
  moreover have "qaz_events (st_world r') = qaz_events (st_world r) @ E" using r'(5) by (simp add: E_def)
  ultimately show ?thesis using s'(3-6) r'(2,3)
    by (intro exI [where x = s'] exI [where x = r'] exI [where x = E] exI [where x = h] conjI) blast+
qed

subsection \<open>Priority flow control of two stations\<close>

text \<open>Which of the two stations sends next is left open; a run is a list of directions.\<close>

fun qaz_run :: "bool list \<Rightarrow> 'm qaz_station \<Rightarrow> 'm qaz_station \<Rightarrow> ('m qaz_station \<times> 'm qaz_station) res" where
  "qaz_run [] A B = Inr (A, B)"
| "qaz_run (b # bs) A B = (if b then bindR (qaz_exchange A B) (\<lambda>(A', B'). qaz_run bs A' B')
     else bindR (qaz_exchange B A) (\<lambda>(B', A'). qaz_run bs A' B'))"

lemma qaz_run_swap: "qaz_run (map Not bs) B A = bindR (qaz_run bs A B) (\<lambda>(A', B'). Inr (B', A'))"
  by (induction bs arbitrary: A B) (auto simp: bindR_assoc split: prod.split intro!: arg_cong [where f = "bindR _"])

definition linked :: "'m qaz_station \<Rightarrow> 'm qaz_station \<Rightarrow> bool" where
  "linked A B \<longleftrightarrow> remote_mac_addr (l2 (st_port A)) = local_mac (st_data B) \<and> remote_mac_addr (l2 (st_port B)) = local_mac (st_data A)
     \<and> length (local_mac (st_data A)) = ETH_ALEN \<and> length (local_mac (st_data B)) = ETH_ALEN \<and> local_mac (st_data A) \<noteq> local_mac (st_data B)"

definition st_pfc :: "'m qaz_station \<Rightarrow> pfc_obj" where
  "st_pfc s = pfc_local (qz_pfc (st_data s))"

definition pfc_leads :: "'m qaz_station \<Rightarrow> 'm qaz_station \<Rightarrow> bool" where
  "pfc_leads A B \<longleftrightarrow> pfc_willing (st_pfc B) \<and> (\<not> pfc_willing (st_pfc A) \<or> cmp_mac_addrs (local_mac (st_data A)) (local_mac (st_data B)))"

definition unheard :: "'m qaz_station \<Rightarrow> bool" where
  "unheard s \<longleftrightarrow> \<not> remote_param (qz_pfc (st_data s)) \<and> \<not> pfc_willing (pfc_remote (qz_pfc (st_data s)))"

definition has_heard :: "'m qaz_station \<Rightarrow> 'm qaz_station \<Rightarrow> bool" where
  "has_heard s r \<longleftrightarrow> remote_param (qz_pfc (st_data r)) \<and> pfc_willing (pfc_remote (qz_pfc (st_data r))) = pfc_willing (st_pfc s)
     \<and> remote_mac (st_data r) = local_mac (st_data s)"

definition kernel_pfc :: "'m qaz_station \<Rightarrow> u8 option" where
  "kernel_pfc s = map_option (\<lambda>(_, p). pfc_en p) (st_kernel s)"

lemma cmp_mac_asym: "cmp_mac_addrs x y \<Longrightarrow> \<not> cmp_mac_addrs y x"
  by (induction x y rule: cmp_mac_addrs.induct) (auto split: if_splits)

lemma cmp_mac_total: "length x = length y \<Longrightarrow> x \<noteq> y \<Longrightarrow> cmp_mac_addrs x y \<or> cmp_mac_addrs y x"
  by (induction x y rule: cmp_mac_addrs.induct) (auto split: if_splits)

lemma pfc_leads_total: "linked A B \<Longrightarrow> pfc_willing (st_pfc A) \<or> pfc_willing (st_pfc B) \<Longrightarrow> pfc_leads A B \<or> pfc_leads B A"
  using cmp_mac_total [of "local_mac (st_data A)" "local_mac (st_data B)"] by (auto simp: pfc_leads_def linked_def)

text \<open>\<open>ga\<close> and \<open>gb\<close> record whether the stations have heard of each other; \<open>A\<close> leads.\<close>

definition pfc_inv :: "u8 \<Rightarrow> bool \<Rightarrow> bool \<Rightarrow> 'm qaz_station \<Rightarrow> 'm qaz_station \<Rightarrow> bool" where
  "pfc_inv v ga gb A B \<longleftrightarrow> station_ok A \<and> station_ok B \<and> linked A B \<and> pfc_leads A B \<and> pfc_enable (st_pfc A) = v
     \<and> (if ga then has_heard B A \<and> kernel_pfc A = Some v else unheard A)
     \<and> (if gb then has_heard A B \<and> pfc_enable (pfc_remote (qz_pfc (st_data B))) = v \<and> kernel_pfc B = Some v else unheard B)"

lemma same_station_fixed:
  assumes "same_station s s'"
  shows "st_port s' = st_port s" "st_name s' = st_name s" "local_mac (st_data s') = local_mac (st_data s)" "st_pfc s' = st_pfc s"
proof -
  have "s' = s\<lparr>st_agent := st_agent s', st_world := st_world s'\<rparr>" using assms by (simp add: same_station_def)
  then show "st_port s' = st_port s" by (metis qaz_station.ext_inject qaz_station.surjective qaz_station.update_convs(5,6))
  then show "st_name s' = st_name s" by (simp add: st_name_def)
  show "local_mac (st_data s') = local_mac (st_data s)" "st_pfc s' = st_pfc s" using assms by (simp_all add: same_station_def st_pfc_def)
qed

lemma leader_state:
  assumes "pfc_leads A B" "linked A B" "if ga then has_heard B A else unheard A"
  shows "pfc_state (qz_pfc (pfc_sm (st_data A))) = INIT"
  using assms cmp_mac_asym
  by (cases ga) (auto simp: pfc_sm_state Let_def pfc_leads_def linked_def has_heard_def unheard_def st_pfc_def)

lemma follower_state:
  assumes "pfc_leads A B" "linked A B" "has_heard A B"
  shows "pfc_state (qz_pfc (pfc_sm (st_data B))) = RX_RECOMMEND"
  using assms cmp_mac_asym
  by (auto simp: pfc_sm_state Let_def pfc_leads_def linked_def has_heard_def st_pfc_def)

lemma pfc_sm_ets [simp]: "qz_pfc (pfc_sm (ets_ran d)) = qz_pfc (pfc_sm d)"
  by (simp add: pfc_sm_def Let_def)

definition oper_enable :: "ieee8021qaz_tlvs \<Rightarrow> u8" where
  "oper_enable d = (if pfc_state (qz_pfc d) = RX_RECOMMEND then pfc_enable (pfc_remote (qz_pfc d)) else pfc_enable (pfc_local (qz_pfc d)))"

lemma oper_pfc_en: "pfc_en (oper_pfc d) = oper_enable d"
  by (simp add: oper_pfc_def oper_enable_def Let_def)

lemma exchange_pfc:
  assumes s: "station_ok s" and r: "station_ok r" and l: "linked s r"
  shows "\<exists>s' r'. qaz_exchange s r = Inr (s', r') \<and> station_ok s' \<and> station_ok r' \<and> same_station s s' \<and> same_station r r'
    \<and> qz_pfc (st_data s') = qz_pfc (pfc_sm (st_data s)) \<and> remote_mac (st_data s') = remote_mac (st_data s)
    \<and> kernel_pfc s' \<in> {kernel_pfc s, Some (oper_enable (pfc_sm (st_data s)))}
    \<and> has_heard s' r' \<and> pfc_enable (pfc_remote (qz_pfc (st_data r'))) = oper_enable (pfc_sm (st_data s))
    \<and> kernel_pfc r' = Some (oper_enable (pfc_sm (st_data r')))"
proof -
  obtain s' r' h evs where x: "qaz_exchange s r = Inr (s', r')" "station_ok s'" "station_ok r'" "same_station s s'" "same_station r r'"
      "st_data s' = (pfc_sm (ets_ran (st_data s)))\<lparr>app_head := h\<rparr>"
      "st_kernel s' \<in> {st_kernel s, Some (oper_ets (st_data s'), oper_pfc (st_data s'))}"
      "qz_pfc (st_data r') = qz_pfc (heard s' r)" "remote_mac (st_data r') = remote_mac (heard s' r)"
      "qaz_events (st_world r') = qaz_events (st_world r) @ evs"
      "\<forall>k. kernel_hw (st_name r) evs k = Some (oper_ets (heard s' r), oper_pfc (heard s' r))"
    using exchange_effect [OF s r] by blast
  note fs = same_station_fixed [OF x(4)] and fr = same_station_fixed [OF x(5)]
  have s': "qz_pfc (st_data s') = qz_pfc (pfc_sm (st_data s))" "remote_mac (st_data s') = remote_mac (st_data s)" by (simp_all add: x(6))
  have ks: "kernel_pfc s' \<in> {kernel_pfc s, Some (oper_enable (pfc_sm (st_data s)))}"
    using x(7) s'(1) by (auto simp: kernel_pfc_def oper_pfc_en oper_enable_def)
  have adv: "pfc_enable (pfc_remote (qz_pfc (st_data r'))) = oper_enable (pfc_sm (st_data s))"
    using s'(1) by (cases "pfc_state (qz_pfc (pfc_sm (st_data s)))") (simp_all add: x(8) heard_pfc advertised_pfc_def Let_def oper_enable_def)
  have hh: "has_heard s' r'"
    using l fs by (simp add: has_heard_def x(8,9) heard_pfc advertised_pfc_def Let_def st_pfc_def linked_def)
  have "pfc_state (qz_pfc (pfc_sm (st_data r'))) = pfc_state (qz_pfc (heard s' r))"
    using fr(3) by (auto simp: pfc_sm_state x(8,9) heard_pfc Let_def advertised_pfc_def)
  moreover have "st_kernel r' = Some (oper_ets (heard s' r), oper_pfc (heard s' r))"
    using x(10,11) fr(2) by (simp add: st_kernel_def)
  ultimately have "kernel_pfc r' = Some (oper_enable (pfc_sm (st_data r')))"
    using x(8) by (simp add: kernel_pfc_def oper_pfc_en oper_enable_def)
  then show ?thesis using x(1-5) s' ks adv hh by blast
qed

lemma pfc_step_down:
  assumes "pfc_inv v ga gb A B"
  shows "\<exists>A' B'. qaz_exchange A B = Inr (A', B') \<and> pfc_inv v ga True A' B'"
proof -
  have inv: "station_ok A" "station_ok B" "linked A B" "pfc_leads A B" "pfc_enable (st_pfc A) = v"
    "if ga then has_heard B A \<and> kernel_pfc A = Some v else unheard A"
    using assms by (simp_all add: pfc_inv_def)
  obtain A' B' where x: "qaz_exchange A B = Inr (A', B')" "station_ok A'" "station_ok B'" "same_station A A'" "same_station B B'"
      "qz_pfc (st_data A') = qz_pfc (pfc_sm (st_data A))" "remote_mac (st_data A') = remote_mac (st_data A)"
      "kernel_pfc A' \<in> {kernel_pfc A, Some (oper_enable (pfc_sm (st_data A)))}"
      "has_heard A' B'" "pfc_enable (pfc_remote (qz_pfc (st_data B'))) = oper_enable (pfc_sm (st_data A))"
      "kernel_pfc B' = Some (oper_enable (pfc_sm (st_data B')))"
    using exchange_pfc [OF inv(1-3)] by blast
  note fA = same_station_fixed [OF x(4)] and fB = same_station_fixed [OF x(5)]
  have st: "pfc_state (qz_pfc (pfc_sm (st_data A))) = INIT"
    by (rule leader_state [OF inv(4,3), of ga]) (use inv(6) in \<open>auto split: if_splits\<close>)
  then have v: "oper_enable (pfc_sm (st_data A)) = v" using inv(5) by (simp add: oper_enable_def st_pfc_def)
  have l: "linked A' B'" "pfc_leads A' B'" using inv(3,4) fA fB by (simp_all add: linked_def pfc_leads_def)
  have "oper_enable (pfc_sm (st_data B')) = v"
    using follower_state [OF l(2,1) x(9)] x(10) v by (simp add: oper_enable_def)
  moreover have "if ga then has_heard B' A' \<and> kernel_pfc A' = Some v else unheard A'"
    using inv(6) x(6-8) v fA fB by (auto simp: has_heard_def unheard_def split: if_splits)
  ultimately have "pfc_inv v ga True A' B'"
    using x l v fA inv(5) by (simp add: pfc_inv_def)
  then show ?thesis using x(1) by blast
qed

lemma pfc_step_up:
  assumes "pfc_inv v ga gb A B"
  shows "\<exists>A' B'. qaz_exchange B A = Inr (B', A') \<and> pfc_inv v True gb A' B'"
proof -
  have inv: "station_ok A" "station_ok B" "linked A B" "pfc_leads A B" "pfc_enable (st_pfc A) = v"
    "if gb then has_heard A B \<and> pfc_enable (pfc_remote (qz_pfc (st_data B))) = v \<and> kernel_pfc B = Some v else unheard B"
    using assms by (simp_all add: pfc_inv_def)
  have ll: "linked B A" using inv(3) by (auto simp: linked_def)
  obtain A' B' where x: "qaz_exchange B A = Inr (B', A')" "station_ok B'" "station_ok A'" "same_station B B'" "same_station A A'"
      "qz_pfc (st_data B') = qz_pfc (pfc_sm (st_data B))" "remote_mac (st_data B') = remote_mac (st_data B)"
      "kernel_pfc B' \<in> {kernel_pfc B, Some (oper_enable (pfc_sm (st_data B)))}"
      "has_heard B' A'" "kernel_pfc A' = Some (oper_enable (pfc_sm (st_data A')))"
    using exchange_pfc [OF inv(2,1) ll] by blast
  note fB = same_station_fixed [OF x(4)] and fA = same_station_fixed [OF x(5)]
  have l: "linked A' B'" "pfc_leads A' B'" using inv(3,4) fA fB by (simp_all add: linked_def pfc_leads_def)
  have st: "pfc_state (qz_pfc (pfc_sm (st_data A'))) = INIT" by (rule leader_state [OF l(2,1), of True]) (simp add: x(9))
  then have "oper_enable (pfc_sm (st_data A')) = v" using inv(5) fA by (simp add: oper_enable_def st_pfc_def)
  moreover have "oper_enable (pfc_sm (st_data B)) = v" if gb
    using that inv(6) follower_state [OF inv(4,3)] by (simp add: oper_enable_def)
  then have "if gb then has_heard A' B' \<and> pfc_enable (pfc_remote (qz_pfc (st_data B'))) = v \<and> kernel_pfc B' = Some v else unheard B'"
    using inv(6) x(6-8) fA fB by (auto simp: has_heard_def unheard_def split: if_splits)
  ultimately have "pfc_inv v True gb A' B'"
    using x l fA inv(5) by (simp add: pfc_inv_def)
  then show ?thesis using x(1) by blast
qed

lemma pfc_run:
  assumes "pfc_inv v ga gb A B"
  shows "\<exists>A' B'. qaz_run bs A B = Inr (A', B') \<and> pfc_inv v (ga \<or> False \<in> set bs) (gb \<or> True \<in> set bs) A' B'"
  using assms
proof (induction bs arbitrary: ga gb A B)
  case Nil
  then show ?case by simp
next
  case (Cons b bs)
  show ?case
  proof (cases b)
    case True
    with pfc_step_down [OF Cons.prems] obtain A' B' where x: "qaz_exchange A B = Inr (A', B')" "pfc_inv v ga True A' B'" by blast
    with Cons.IH [OF x(2)] True show ?thesis by simp
  next
    case False
    with pfc_step_up [OF Cons.prems] obtain A' B' where x: "qaz_exchange B A = Inr (B', A')" "pfc_inv v True gb A' B'" by blast
    with Cons.IH [OF x(2)] False show ?thesis by simp
  qed
qed

lemma pfc_run_both:
  assumes "pfc_inv v False False A B" "True \<in> set bs" "False \<in> set bs"
  shows "\<exists>A' B'. qaz_run bs A B = Inr (A', B') \<and> kernel_pfc A' = Some v \<and> kernel_pfc B' = Some v"
proof -
  obtain A' B' where 1: "qaz_run bs A B = Inr (A', B')" "pfc_inv v (False \<or> False \<in> set bs) (False \<or> True \<in> set bs) A' B'"
    using pfc_run [OF assms(1)] by blast
  have "pfc_inv v True True A' B'" using 1(2) assms(2,3) by simp
  then show ?thesis using 1(1) by (simp add: pfc_inv_def)
qed

lemma same_station_sends:
  assumes "same_station s s'"
  shows "sends_cfg s' = sends_cfg s" "sends_rec s' = sends_rec s" "sent_apps s' = sent_apps s" "recl (qz_ets (st_data s')) = recl (qz_ets (st_data s))"
proof -
  have "s' = s\<lparr>st_agent := st_agent s', st_world := st_world s'\<rparr>" using assms by (simp add: same_station_def)
  then have "st_host s' = st_host s" "st_qaz s' = st_qaz s"
    by (metis qaz_station.ext_inject qaz_station.surjective qaz_station.update_convs(5,6))+
  then show "sends_cfg s' = sends_cfg s" "sends_rec s' = sends_rec s" "sent_apps s' = sent_apps s"
    using same_station_fixed(2) [OF assms] by (simp_all add: sends_cfg_def sends_rec_def sent_apps_def)
  show "recl (qz_ets (st_data s')) = recl (qz_ets (st_data s))" using assms by (simp add: same_station_def)
qed

subsection \<open>A TLV that is too short\<close>

lemma receive_short:
  assumes r: "station_ok r" and t: "is_qaz sub t" "tlv_info t = Some bs" "length bs = unat (tlv_length t)"
    and short: "sub = 9 \<and> length bs < 25 \<or> sub = 11 \<and> length bs < 6"
  shows "qaz_receive [t] r = Inl Out_Of_Bounds"
proof -
  let ?c = "st_core r" let ?w = "st_world r" let ?p = "st_port r"
  obtain i where i: "ieee8021qaz_data ?w (ifname ?p) = Some i" using r by (auto simp: station_ok_def st_name_def)
  have inv: "qaz_inv ?w" and act: "qz_active (st_data r)" and ok: "malloc_ok (core_env ?c) sizeof_etscfg_obj"
    using r by (simp_all add: station_ok_def qaz_host_ok_def st_env_def)
  have len: "i < length (qaz_head ?w)" "4 \<le> length bs" using qaz_data_ok [OF inv i] t by (auto simp: is_qaz_def)
  note sh = process_short [OF t(2) len(2)]
  let ?m = "remote_mac_addr (l2 ?p)"
  have "qaz_end_of_pdu ?c (st_qaz r) ?p (st_agent r) i (put_qz i (rx_all ?m t1 None t3 None (st_data r)) ?w) = Inl Out_Of_Bounds"
    if "t1 = Some t \<and> t3 = None \<and> sub = 9 \<or> t1 = None \<and> t3 = Some t \<and> sub = 11" for t1 t3
    using that short len act sh(1,3) ok
    by (intro end_of_pdu_fault) (auto simp: rx_all_def ieee8021qaz_mibUpdateObjects_def)
  then show ?thesis
    using short t(1) receive_collect [OF r i len(1), of "Some t" None None None] receive_collect [OF r i len(1), of None None "Some t" None]
    by (auto simp: opt_list_def)
qed

end
