(* ===== verification/Vdp22.thy ===== *)
theory Vdp22
  imports Evb22
begin

text \<open>
  The VSI discovery protocol, \<open>src/qbg/vdp22sm.c\<close>: the state machine of one virtual station
  interface (VSI), once in the station role and once in the bridge role, the packed TLVs the two
  exchange over ECP, and the parts of \<open>src/qbg/vdp22.c\<close> a machine calls.  A machine changes only its
  own VSI, so an operation maps a VSI to a VSI and the list of what it did to the outside: payloads
  handed to ECP, timers started and cancelled, and messages to the client.  A VSI that was freed is
  \<open>None\<close>; going on with it is the fault \<^const>\<open>Use_After_Free\<close>.  The build option
  \<open>BUILD_DEBUG\<close> is off.
\<close>

subsection \<open>Data\<close>

type_synonym u64 = "64 word"

datatype vdp22_states = VDP22_BEGIN | VDP22_INIT | VDP22_STATION_PROC | VDP22_STATION_PROCWAIT
  | VDP22_STATION_PROCWAIT_2 | VDP22_ASSOC_NEW | VDP22_ASSOC_COMPL | VDP22_PREASSOC_NEW
  | VDP22_WAIT_SYSCMD | VDP22_WAIT_SYSCMD_2 | VDP22_TXMIT_KA | VDP22_TXMIT_KAWAIT
  | VDP22_TXMIT_KAWAIT_2 | VDP22_TXMIT_DEASSOC | VDP22_TXMIT_DEAWAIT | VDP22_TXMIT_DEAWAIT_2 | VDP22_END

datatype vdp22br_states = VDP22_BR_BEGIN | VDP22_BR_INIT | VDP22_BR_PROCESS | VDP22_BR_SEND
  | VDP22_BR_WAITCMD | VDP22_BR_WAITCMD_2 | VDP22_BR_KEEP | VDP22_BR_DEASSOC | VDP22_BR_ALIVE
  | VDP22_BR_DEASSOCIATED | VDP22_BR_END

text \<open>The field \<open>smi.state\<close> holds a state of either machine, or the zero of a fresh structure.\<close>

datatype smi_state = No_State | St vdp22_states | Br vdp22br_states

datatype vdp22_role = VDP22_BRIDGE | VDP22_STATION

datatype vsi22_flags = VDP22_BUSY | VDP22_DELETE_ME | VDP22_RETURN_VID | VDP22_NOTIFY | VDP22_NLCMD

abbreviation (input) VDP22_ENDTLV :: u8 where "VDP22_ENDTLV \<equiv> 0"
abbreviation (input) VDP22_PREASSOC :: u8 where "VDP22_PREASSOC \<equiv> 1"
abbreviation (input) VDP22_PREASSOC_WITH_RR :: u8 where "VDP22_PREASSOC_WITH_RR \<equiv> 2"
abbreviation (input) VDP22_ASSOC :: u8 where "VDP22_ASSOC \<equiv> 3"
abbreviation (input) VDP22_DEASSOC :: u8 where "VDP22_DEASSOC \<equiv> 4"
abbreviation (input) VDP22_MGRID :: u8 where "VDP22_MGRID \<equiv> 5"
abbreviation (input) VDP22_OUI :: u8 where "VDP22_OUI \<equiv> 0x7f"
abbreviation (input) VDP22_FFMT_VID :: u8 where "VDP22_FFMT_VID \<equiv> 1"
abbreviation (input) VDP22_FFMT_MACVID :: u8 where "VDP22_FFMT_MACVID \<equiv> 2"
abbreviation (input) VDP22_FFMT_GROUPVID :: u8 where "VDP22_FFMT_GROUPVID \<equiv> 3"
abbreviation (input) VDP22_FFMT_GROUPMACVID :: u8 where "VDP22_FFMT_GROUPMACVID \<equiv> 4"
abbreviation (input) VDP22_RESBIT :: u8 where "VDP22_RESBIT \<equiv> 0x80"
abbreviation (input) VDP22_ACKBIT :: u8 where "VDP22_ACKBIT \<equiv> 0x40"
abbreviation (input) VDP22_KEEPBIT :: u8 where "VDP22_KEEPBIT \<equiv> 0x20"
abbreviation (input) VDP22_HARDBIT :: u8 where "VDP22_HARDBIT \<equiv> 0x10"
abbreviation (input) VDP22_STATUS_MASK :: u8 where "VDP22_STATUS_MASK \<equiv> 0x0f"
abbreviation (input) VDP22_RESP_SUCCESS :: u8 where "VDP22_RESP_SUCCESS \<equiv> 0"
abbreviation (input) VDP22_RESP_NO_RESOURCES :: u8 where "VDP22_RESP_NO_RESOURCES \<equiv> 2"
abbreviation (input) VDP22_RESP_NOADDR :: u8 where "VDP22_RESP_NOADDR \<equiv> 5"
abbreviation (input) VDP22_RESP_DEASSOC :: u8 where "VDP22_RESP_DEASSOC \<equiv> 252"
abbreviation (input) VDP22_RESP_TIMEOUT :: u8 where "VDP22_RESP_TIMEOUT \<equiv> 253"
abbreviation (input) VDP22_RESP_KEEP :: u8 where "VDP22_RESP_KEEP \<equiv> 254"
abbreviation (input) VDP22_RESP_NONE :: u8 where "VDP22_RESP_NONE \<equiv> 255"
abbreviation (input) VDP22_ID_UUID :: u8 where "VDP22_ID_UUID \<equiv> 5"

record fid22 =
  fid_grpid :: u64
  fid_mac :: bytes
  fid_vlan :: u16
  fid_req_pid :: int
  fid_req_seq :: u64

record vdp22smi =
  smi_st :: smi_state
  kato :: bool
  ackreceived :: bool
  acktimeout :: bool
  localchg :: bool
  deassoc :: bool
  smi_txmit :: bool
  resp_ok :: bool
  txmit_error :: int

record vdp22_oui_data =
  oui_name :: string
  oui_data :: bytes

text \<open>
  \<open>v_ptr\<close> is the address of the structure.  The arrays \<open>fdata\<close> and \<open>oui_str_data\<close> are lists; the
  counters \<open>no_fdata\<close> and \<open>no_ouidata\<close> are their lengths.  The flag word is the set of its named bits.
\<close>

record vsi22 =
  v_ptr :: nat
  v_mgrid :: bytes
  v_cc_vsi_mode :: u8
  v_vsi_mode :: u8
  v_resp_vsi_mode :: u8
  v_status :: u8
  v_hints :: u8
  v_type_id :: u64
  v_type_ver :: u8
  v_vsi_fmt :: u8
  v_vsi :: bytes
  v_fif :: u8
  v_fdata :: "fid22 list"
  v_oui :: "vdp22_oui_data list"
  v_flags :: "vsi22_flags set"
  v_smi :: vdp22smi

record vdp22 =
  vdp_ifname :: string
  vdp_ecp_retries :: u8
  vdp_ecp_rte :: u8
  vdp_rwd :: u8
  vdp_rka :: u8
  vdp_gpid_on :: bool
  vdp_myrole :: vdp22_role
  vdp_evb_on :: bool
  vdp_br_down :: bool
  vdp_input_len :: u16
  vdp_input :: bytes
  vsi22_que :: "vsi22 list"

record vdpnl_mac =
  nm_vlan :: u16
  nm_mac :: bytes
  nm_qos :: u8
  nm_changed :: bool
  nm_gpid :: u64

record vdpnl_vsi =
  nl_ifname :: string
  nl_hints :: u8
  nl_request :: u8
  nl_response :: u16
  nl_vsi_mgrid :: u8
  nl_vsi_typeversion :: u8
  nl_vsi_idfmt :: u8
  nl_vsi_uuid :: bytes
  nl_vsi_mgrid2 :: bytes
  nl_version2 :: bool
  nl_vsi_typeid :: u64
  nl_req_seq :: u64
  nl_req_pid :: int
  nl_filter_fmt :: u8
  nl_maclist :: "vdpnl_mac list"
  nl_oui_list :: "vdp22_oui_data list"

datatype vdp22_timer = vdp22st_kato | vdp22st_ackto | vdp22_localchange | vdp22br_kato | vdp22br_resto

datatype vdp22_event = To_Ecp string bytes | Start_Timer vdp22_timer nat nat nat | Stop_Timer vdp22_timer nat
  | Nl_Send vdpnl_vsi | Clnt_Send vdpnl_vsi

text \<open>
  The environment: whether an allocation of a size succeeds, the result of handing a payload to the
  ECP module of an interface, and the handlers organisations register for their own TLVs: the size they
  announce, the bytes they write, how a request changes a stored entry, and the conversions from and
  to the form of a client.
\<close>

record vdp22_oui_handler =
  oui_ptlv_size_hndlr :: "vdp22_oui_data \<Rightarrow> nat"
  vdp_tx_hndlr :: "vdp22_oui_data \<Rightarrow> bytes"
  vsi22_mod_hndlr :: "vdp22_oui_data \<Rightarrow> vdp22_oui_data \<Rightarrow> vdp22_oui_data"
  vdpnl2vsi22_hndlr :: "vdp22_oui_data \<Rightarrow> vdp22_oui_data"
  vsi2vdpnl_hndlr :: "vdp22_oui_data \<Rightarrow> vdp22_oui_data"

record vdp22_env =
  ve_malloc_ok :: "nat \<Rightarrow> bool"
  ve_to_ecp22 :: "string \<Rightarrow> bytes \<Rightarrow> int"
  vdp22_get_oui_hndlr :: "string \<Rightarrow> vdp22_oui_handler option"

definition no_fdata :: "vsi22 \<Rightarrow> u16" where
  "no_fdata v = of_nat (length (v_fdata v))"

definition make_status :: "int \<Rightarrow> u8" where
  "make_status x = word_of_int x AND VDP22_STATUS_MASK"

definition vdp22_get_ps :: "u16 \<Rightarrow> u16" where "vdp22_get_ps x = drop_bit 15 x AND 1"
definition vdp22_get_qos :: "u16 \<Rightarrow> u16" where "vdp22_get_qos x = drop_bit 12 x AND 0xf"
definition vdp22_set_qos :: "u16 \<Rightarrow> u16" where "vdp22_set_qos x = push_bit 12 (x AND 0xf)"
definition vdp22_get_vlanid :: "u16 \<Rightarrow> u16" where "vdp22_get_vlanid x = x AND 0xfff"
definition vdp22_set_vlanid :: "u16 \<Rightarrow> u16" where "vdp22_set_vlanid x = x AND 0xfff"

subsection \<open>Packed TLVs\<close>

definition mgr22_tlv_sz :: nat where "mgr22_tlv_sz = 16"
definition mgr22_ptlv_sz :: nat where "mgr22_ptlv_sz = 2 + mgr22_tlv_sz"

definition vsi22_fdata_sz :: "u8 \<Rightarrow> nat" where
  "vsi22_fdata_sz fif =
     (if fif = VDP22_FFMT_VID then 2 else if fif = VDP22_FFMT_MACVID then 8
      else if fif = VDP22_FFMT_GROUPVID then 6 else if fif = VDP22_FFMT_GROUPMACVID then 12 else 0)"

definition vsi22_tlv_fifsz :: "nat \<Rightarrow> u8 \<Rightarrow> nat" where
  "vsi22_tlv_fifsz no fif = no * vsi22_fdata_sz fif"

definition vsi22_tlv_sz :: "nat \<Rightarrow> u8 \<Rightarrow> nat" where
  "vsi22_tlv_sz no fif = 23 + 2 + vsi22_tlv_fifsz no fif"

definition vsi22_ptlv_sz :: "nat \<Rightarrow> u8 \<Rightarrow> nat" where
  "vsi22_ptlv_sz no fif = 2 + vsi22_tlv_sz no fif"

definition oui22_ptlv_sz :: "vdp22_env \<Rightarrow> vsi22 \<Rightarrow> nat" where
  "oui22_ptlv_sz en v = (\<Sum>o1\<leftarrow>v_oui v. case vdp22_get_oui_hndlr en (oui_name o1) of
     None \<Rightarrow> 0 | Some h \<Rightarrow> oui_ptlv_size_hndlr h o1)"

definition append_3o :: "u64 \<Rightarrow> bytes" where
  "append_3o x = [ucast (drop_bit 16 x), ucast (drop_bit 8 x), ucast x]"

definition append_4o :: "u64 \<Rightarrow> bytes" where
  "append_4o x = [ucast (drop_bit 24 x), ucast (drop_bit 16 x), ucast (drop_bit 8 x), ucast x]"

definition extract_3o :: "u8 \<Rightarrow> u8 \<Rightarrow> u8 \<Rightarrow> u64" where
  "extract_3o a b c = push_bit 16 (ucast a) OR push_bit 8 (ucast b) OR ucast c"

text \<open>The four bytes are put together as a signed 32 bit value, which is then widened.\<close>

definition extract_4o :: "u8 \<Rightarrow> u8 \<Rightarrow> u8 \<Rightarrow> u8 \<Rightarrow> u64" where
  "extract_4o a b c d =
     scast (push_bit 24 (ucast a) OR push_bit 16 (ucast b) OR push_bit 8 (ucast c) OR ucast d :: u32)"

definition ptlv_head :: "u16 \<Rightarrow> u16 \<Rightarrow> u16" where
  "ptlv_head ty len = push_bit 9 (ty AND 0x7f) OR (len AND 0x1ff)"

definition ptlv_length :: "u16 \<Rightarrow> u16" where
  "ptlv_length head = 2 + (head AND 0x1ff)"

definition ptlv_type :: "u16 \<Rightarrow> u16" where
  "ptlv_type head = drop_bit 9 head AND 0x7f"

definition vsi22_2tlv_fdata :: "u8 \<Rightarrow> fid22 \<Rightarrow> bytes" where
  "vsi22_2tlv_fdata fif p =
     (if fif = VDP22_FFMT_VID then be16_bytes (fid_vlan p)
      else if fif = VDP22_FFMT_MACVID then fid_mac p @ be16_bytes (fid_vlan p)
      else if fif = VDP22_FFMT_GROUPVID then append_4o (fid_grpid p) @ be16_bytes (fid_vlan p)
      else if fif = VDP22_FFMT_GROUPMACVID then append_4o (fid_grpid p) @ fid_mac p @ be16_bytes (fid_vlan p)
      else [])"

fun oui22_2tlv :: "vdp22_env \<Rightarrow> vdp22_oui_data list \<Rightarrow> bytes \<Rightarrow> nat \<Rightarrow> bytes res" where
  "oui22_2tlv en [] buf off = Inr buf"
| "oui22_2tlv en (o1 # os) buf off = (case vdp22_get_oui_hndlr en (oui_name o1) of
       None \<Rightarrow> oui22_2tlv en os buf off
     | Some h \<Rightarrow> bindR (write_bytes buf off (vdp_tx_hndlr h o1)) (\<lambda>buf1.
         oui22_2tlv en os buf1 (off + length (vdp_tx_hndlr h o1))))"

definition vsi22_2tlv :: "vsi22 \<Rightarrow> u8 \<Rightarrow> bytes" where
  "vsi22_2tlv v stat =
     be16_bytes (ptlv_head (ucast (v_vsi_mode v)) (of_nat (vsi22_tlv_sz (length (v_fdata v)) (v_fif v))))
     @ [stat] @ append_3o (v_type_id v) @ [v_type_ver v, v_vsi_fmt v] @ v_vsi v @ [v_fif v]
     @ be16_bytes (no_fdata v) @ concat (map (vsi22_2tlv_fdata (v_fif v)) (v_fdata v))"

definition mgr22_2tlv :: "vsi22 \<Rightarrow> bytes" where
  "mgr22_2tlv v = be16_bytes (ptlv_head (ucast VDP22_MGRID) (of_nat mgr22_tlv_sz)) @ v_mgrid v"

subsection \<open>Timers of a VSI\<close>

definition start_timer :: "vdp22_timer \<Rightarrow> vsi22 \<Rightarrow> u64 \<Rightarrow> vdp22_event" where
  "start_timer h v towait = Start_Timer h (v_ptr v) (unat (ucast (towait div 1000000) :: u32))
     (unat (ucast (towait mod 1000000) :: u32))"

text \<open>A shift of the \<open>int\<close> 1, multiplied by 10 in \<open>int\<close>, before it is widened.\<close>

definition delay :: "u8 \<Rightarrow> u32" where
  "delay e = push_bit (unat e) 1 * 10"

definition vdp22st_start_katimer :: "vdp22 \<Rightarrow> vsi22 \<Rightarrow> vsi22 \<times> vdp22_event list" where
  "vdp22st_start_katimer d v =
     (v_smi_update (\<lambda>s. s\<lparr>kato := False\<rparr>) v, [start_timer vdp22st_kato v (scast (delay (vdp_rka d)))])"

definition vdp22st_stop_katimer :: "vsi22 \<Rightarrow> vdp22_event list" where
  "vdp22st_stop_katimer v = [Stop_Timer vdp22st_kato (v_ptr v)]"

definition vdp22_timeout :: "vdp22 \<Rightarrow> u8 \<Rightarrow> u64" where
  "vdp22_timeout d e =
     (let towait = scast ((1 + 2 * ucast (vdp_ecp_retries d)) * push_bit (unat (vdp_ecp_rte d)) 1 * 10 :: u32)
            + scast (delay e)
      in towait + towait div 2)"

definition vdp22st_start_acktimer :: "vdp22 \<Rightarrow> vsi22 \<Rightarrow> vsi22 \<times> vdp22_event list" where
  "vdp22st_start_acktimer d v =
     (v_smi_update (\<lambda>s. s\<lparr>smi_txmit := True, txmit_error := 0, ackreceived := False, acktimeout := False,
        resp_ok := False, localchg := False\<rparr>) v,
      [start_timer vdp22st_ackto v (vdp22_timeout d (vdp_rwd d))])"

definition vdp22st_stop_acktimer :: "vsi22 \<Rightarrow> vdp22_event list" where
  "vdp22st_stop_acktimer v = [Stop_Timer vdp22st_ackto (v_ptr v)]"

definition vdp22_stop_timers :: "vsi22 \<Rightarrow> vdp22_event list" where
  "vdp22_stop_timers v = vdp22st_stop_acktimer v @ vdp22st_stop_katimer v"

definition vdp22_start_localchange_timer :: "vsi22 \<Rightarrow> vdp22_event list" where
  "vdp22_start_localchange_timer v = [Start_Timer vdp22_localchange (v_ptr v) 0 100]"

subsection \<open>Answers to clients\<close>

definition havepid :: "vsi22 \<Rightarrow> int" where
  "havepid v = (if v_fdata v = [] then 0 else fid_req_pid (last (v_fdata v)))"

definition vdp22_getsm_errcode :: "vsi22 \<Rightarrow> u8" where
  "vdp22_getsm_errcode v = (if kato (v_smi v) then 1 else 0) OR (if acktimeout (v_smi v) then 2 else 0)
     OR (if txmit_error (v_smi v) \<noteq> 0 then 4 else 0)"

definition back_mac :: "fid22 \<Rightarrow> vdpnl_mac" where
  "back_mac f = \<lparr>nm_vlan = vdp22_get_vlanid (fid_vlan f), nm_mac = fid_mac f,
     nm_qos = ucast (vdp22_get_qos (fid_vlan f)), nm_changed = False, nm_gpid = 0\<rparr>"

definition back_nl :: "vdp22 \<Rightarrow> vsi22 \<Rightarrow> int \<Rightarrow> vdpnl_vsi" where
  "back_nl d v to = \<lparr>nl_ifname = vdp_ifname d, nl_hints = 0,
     nl_request = (if to \<noteq> 0 then v_vsi_mode v - 1 else v_vsi_mode v),
     nl_response = ucast (v_status v) OR push_bit 8 (ucast (vdp22_getsm_errcode v)),
     nl_vsi_mgrid = hd (v_mgrid v), nl_vsi_typeversion = v_type_ver v, nl_vsi_idfmt = VDP22_ID_UUID,
     nl_vsi_uuid = v_vsi v, nl_vsi_mgrid2 = v_mgrid v, nl_version2 = False, nl_vsi_typeid = v_type_id v,
     nl_req_seq = (if v_fdata v = [] then 0 else fid_req_seq (last (v_fdata v))),
     nl_req_pid = havepid v, nl_filter_fmt = v_fif v, nl_maclist = map back_mac (v_fdata v), nl_oui_list = []\<rparr>"

text \<open>The VSI is freed once its answer is out when it is marked for deletion.\<close>

definition vdp22_back :: "vdp22 \<Rightarrow> vsi22 \<Rightarrow> int \<Rightarrow> (vdpnl_vsi \<Rightarrow> vdp22_event) \<Rightarrow> vsi22 option \<times> vdp22_event list" where
  "vdp22_back d v to fct = (if VDP22_DELETE_ME \<in> v_flags v then None else Some v, [fct (back_nl d v to)])"

definition vdp22_nlback :: "vdp22 \<Rightarrow> vsi22 \<Rightarrow> vsi22 option \<times> vdp22_event list" where
  "vdp22_nlback d v = (if havepid v \<noteq> 0 then vdp22_back d v (havepid v) Nl_Send else (Some v, []))"

definition vdp22_clntback :: "vdp22 \<Rightarrow> vsi22 \<Rightarrow> vsi22 option \<times> vdp22_event list" where
  "vdp22_clntback d v = (if havepid v = 0 then vdp22_back d v 0 Clnt_Send else (Some v, []))"

end
