(* ===== verification/Vdp22_Sm.thy ===== *)
theory Vdp22_Sm
  imports Vdp22
begin

text \<open>
  The two VSI machines of \<open>src/qbg/vdp22sm.c\<close>: the actions of the states, the state changes with
  their assertions, the transition functions, and the loops that run a machine until it rests.
\<close>

subsection \<open>The station machine\<close>

definition vdp22st_init :: "vsi22 \<Rightarrow> vsi22" where
  "vdp22st_init v = v_smi_update (\<lambda>s. s\<lparr>smi_st := St VDP22_INIT\<rparr>) (v\<lparr>v_status := VDP22_RESP_NONE\<rparr>)"

definition vdp22st_assoc_compl :: "vsi22 \<Rightarrow> vsi22" where
  "vdp22st_assoc_compl v = v\<lparr>v_flags := v_flags v - {VDP22_BUSY}, v_resp_vsi_mode := 0\<rparr>"

definition vdp22st_assoc_new :: "vsi22 \<Rightarrow> u8 \<Rightarrow> vsi22" where
  "vdp22st_assoc_new v x = (vdp22st_assoc_compl v)\<lparr>v_cc_vsi_mode := x\<rparr>"

definition vdp22st_wait_syscmd :: "vdp22 \<Rightarrow> vsi22 \<Rightarrow> vsi22 \<times> vdp22_event list" where
  "vdp22st_wait_syscmd d v = vdp22st_start_katimer d v"

text \<open>The buffer is as long as the 16 bit sum of the sizes of the TLVs.\<close>

definition vdp22st_payload :: "vdp22_env \<Rightarrow> vsi22 \<Rightarrow> bytes res" where
  "vdp22st_payload en v =
     (let vsz = vsi22_ptlv_sz (length (v_fdata v)) (v_fif v);
          len = of_nat (mgr22_ptlv_sz + vsz + oui22_ptlv_sz en v) :: u16
      in bindR (write_bytes (replicate (unat len) 0) 0 (mgr22_2tlv v)) (\<lambda>b1.
         bindR (write_bytes b1 mgr22_ptlv_sz (vsi22_2tlv v (v_hints v))) (\<lambda>b2.
           oui22_2tlv en (v_oui v) b2 (mgr22_ptlv_sz + vsz))))"

definition vdp22st_process :: "vdp22_env \<Rightarrow> vdp22 \<Rightarrow> vsi22 \<Rightarrow> (vsi22 \<times> vdp22_event list) res" where
  "vdp22st_process en d v = bindR (vdp22st_payload en v) (\<lambda>buf.
     let rc = ve_to_ecp22 en (vdp_ifname d) buf;
         v1 = v_smi_update (\<lambda>s. s\<lparr>txmit_error := rc\<rparr>) v
     in if rc = 0 then (case vdp22st_start_acktimer d v1 of (v2, evs) \<Rightarrow>
            Inr (v2, To_Ecp (vdp_ifname d) buf # vdp22st_stop_katimer v1 @ evs))
        else Inr (v1, [To_Ecp (vdp_ifname d) buf]))"

definition vdp22st_txdea :: "vdp22_env \<Rightarrow> vdp22 \<Rightarrow> vsi22 \<Rightarrow> (vsi22 \<times> vdp22_event list) res" where
  "vdp22st_txdea en d v =
     vdp22st_process en d (v\<lparr>v_vsi_mode := VDP22_DEASSOC, v_flags := insert VDP22_BUSY (v_flags v)\<rparr>)"

definition vdp22st_txka :: "vdp22_env \<Rightarrow> vdp22 \<Rightarrow> vsi22 \<Rightarrow> (vsi22 \<times> vdp22_event list) res" where
  "vdp22st_txka en d v = vdp22st_process en d v"

definition vdp22st_end :: "vdp22 \<Rightarrow> vsi22 \<Rightarrow> (vsi22 option \<times> vdp22_event list) res" where
  "vdp22st_end d v =
     (let v1 = v\<lparr>v_vsi_mode := VDP22_DEASSOC, v_cc_vsi_mode := VDP22_DEASSOC,
                 v_flags := insert VDP22_DELETE_ME (v_flags v) - {VDP22_BUSY}\<rparr>;
          (m, evs) = (if VDP22_NOTIFY \<in> v_flags v1 then vdp22_nlback d v1 else (Some v1, []))
      in case m of
           None \<Rightarrow> Inl Use_After_Free
         | Some v2 \<Rightarrow> (case vdp22_clntback d v2 of (m3, evs3) \<Rightarrow>
             Inr (m3, vdp22st_stop_acktimer v @ vdp22st_stop_katimer v @ evs @ evs3)))"

definition st_from :: "vdp22_states \<Rightarrow> vdp22_states set option" where
  "st_from newstate = (case newstate of
       VDP22_BEGIN \<Rightarrow> None
     | VDP22_INIT \<Rightarrow> Some {VDP22_BEGIN}
     | VDP22_STATION_PROC \<Rightarrow> Some {VDP22_INIT, VDP22_WAIT_SYSCMD_2}
     | VDP22_STATION_PROCWAIT \<Rightarrow> Some {VDP22_STATION_PROC}
     | VDP22_STATION_PROCWAIT_2 \<Rightarrow> Some {VDP22_STATION_PROCWAIT}
     | VDP22_PREASSOC_NEW \<Rightarrow> Some {VDP22_STATION_PROCWAIT_2}
     | VDP22_ASSOC_NEW \<Rightarrow> Some {VDP22_STATION_PROCWAIT_2}
     | VDP22_ASSOC_COMPL \<Rightarrow> Some {VDP22_ASSOC_NEW, VDP22_STATION_PROCWAIT_2}
     | VDP22_WAIT_SYSCMD \<Rightarrow> Some {VDP22_ASSOC_COMPL, VDP22_PREASSOC_NEW, VDP22_TXMIT_KAWAIT_2}
     | VDP22_WAIT_SYSCMD_2 \<Rightarrow> Some {VDP22_WAIT_SYSCMD}
     | VDP22_TXMIT_KA \<Rightarrow> Some {VDP22_WAIT_SYSCMD_2}
     | VDP22_TXMIT_KAWAIT \<Rightarrow> Some {VDP22_TXMIT_KA}
     | VDP22_TXMIT_KAWAIT_2 \<Rightarrow> Some {VDP22_TXMIT_KAWAIT}
     | VDP22_TXMIT_DEASSOC \<Rightarrow> Some {VDP22_TXMIT_KAWAIT_2}
     | VDP22_TXMIT_DEAWAIT \<Rightarrow> Some {VDP22_TXMIT_DEASSOC}
     | VDP22_TXMIT_DEAWAIT_2 \<Rightarrow> Some {VDP22_TXMIT_DEAWAIT}
     | VDP22_END \<Rightarrow> Some {VDP22_STATION_PROCWAIT, VDP22_STATION_PROCWAIT_2, VDP22_TXMIT_KAWAIT,
         VDP22_TXMIT_KAWAIT_2, VDP22_WAIT_SYSCMD_2, VDP22_TXMIT_DEASSOC, VDP22_TXMIT_DEAWAIT, VDP22_TXMIT_DEAWAIT_2})"

definition vdp22st_change_state :: "vsi22 \<Rightarrow> vdp22_states \<Rightarrow> vsi22 res" where
  "vdp22st_change_state v newstate =
     bindR (case st_from newstate of None \<Rightarrow> Inr () | Some ss \<Rightarrow> assertR (smi_st (v_smi v) \<in> St ` ss)) (\<lambda>_.
       Inr (v_smi_update (\<lambda>s. s\<lparr>smi_st := St newstate\<rparr>) v))"

definition bad_error :: "u8 \<Rightarrow> bool" where
  "bad_error x \<longleftrightarrow> x \<noteq> 0 \<and> x AND VDP22_KEEPBIT = 0"

definition keep_error :: "u8 \<Rightarrow> bool" where
  "keep_error x \<longleftrightarrow> x \<noteq> 0 \<and> x AND VDP22_KEEPBIT \<noteq> 0"

definition get_error :: "u8 \<Rightarrow> u8" where
  "get_error x = (if x AND VDP22_STATUS_MASK \<noteq> 0 then x AND NOT (VDP22_RESBIT OR VDP22_ACKBIT) else 0)"

definition goto_st :: "vsi22 \<Rightarrow> vdp22_states \<Rightarrow> (bool \<times> vsi22) res" where
  "goto_st v s = bindR (vdp22st_change_state v s) (\<lambda>v1. Inr (True, v1))"

definition await_ack :: "vsi22 \<Rightarrow> vdp22_states \<Rightarrow> (bool \<times> vsi22) res" where
  "await_ack v s =
     (if txmit_error (v_smi v) \<noteq> 0 \<or> acktimeout (v_smi v) then goto_st v VDP22_END
      else if ackreceived (v_smi v) then goto_st v s else Inr (False, v))"

definition vdp22st_move_state :: "vsi22 \<Rightarrow> (bool \<times> vsi22) res" where
  "vdp22st_move_state v = (case smi_st (v_smi v) of
       St VDP22_BEGIN \<Rightarrow> goto_st v VDP22_INIT
     | St VDP22_INIT \<Rightarrow> goto_st v VDP22_STATION_PROC
     | St VDP22_STATION_PROC \<Rightarrow> goto_st v VDP22_STATION_PROCWAIT
     | St VDP22_STATION_PROCWAIT \<Rightarrow> await_ack v VDP22_STATION_PROCWAIT_2
     | St VDP22_STATION_PROCWAIT_2 \<Rightarrow>
         if \<not> resp_ok (v_smi v) \<or> bad_error (v_status v) then goto_st v VDP22_END
         else goto_st v
           (if keep_error (v_status v) then
              (if v_resp_vsi_mode v = VDP22_ASSOC then VDP22_ASSOC_COMPL else VDP22_END)
            else if v_resp_vsi_mode v = VDP22_PREASSOC \<or> v_resp_vsi_mode v = VDP22_PREASSOC_WITH_RR then VDP22_PREASSOC_NEW
            else if v_resp_vsi_mode v = VDP22_DEASSOC then VDP22_END
            else VDP22_ASSOC_NEW)
     | St VDP22_ASSOC_NEW \<Rightarrow> goto_st v VDP22_ASSOC_COMPL
     | St VDP22_ASSOC_COMPL \<Rightarrow> goto_st v VDP22_WAIT_SYSCMD
     | St VDP22_PREASSOC_NEW \<Rightarrow> goto_st v VDP22_WAIT_SYSCMD
     | St VDP22_WAIT_SYSCMD \<Rightarrow> goto_st v VDP22_WAIT_SYSCMD_2
     | St VDP22_WAIT_SYSCMD_2 \<Rightarrow>
         if kato (v_smi v) then goto_st v VDP22_TXMIT_KA
         else if localchg (v_smi v) then goto_st v VDP22_STATION_PROC
         else if deassoc (v_smi v) then goto_st v VDP22_END
         else Inr (False, v)
     | St VDP22_TXMIT_KA \<Rightarrow> goto_st v VDP22_TXMIT_KAWAIT
     | St VDP22_TXMIT_KAWAIT \<Rightarrow> await_ack v VDP22_TXMIT_KAWAIT_2
     | St VDP22_TXMIT_KAWAIT_2 \<Rightarrow>
         if \<not> resp_ok (v_smi v) \<or> bad_error (v_status v) then goto_st v VDP22_END
         else if keep_error (v_status v) \<and> v_resp_vsi_mode v = VDP22_ASSOC then goto_st v VDP22_TXMIT_DEASSOC
         else if v_resp_vsi_mode v = VDP22_DEASSOC then goto_st v VDP22_END
         else goto_st v VDP22_WAIT_SYSCMD
     | St VDP22_TXMIT_DEASSOC \<Rightarrow> goto_st v VDP22_TXMIT_DEAWAIT
     | St VDP22_TXMIT_DEAWAIT \<Rightarrow> await_ack v VDP22_TXMIT_DEAWAIT_2
     | St VDP22_TXMIT_DEAWAIT_2 \<Rightarrow> goto_st v VDP22_END
     | St VDP22_END \<Rightarrow> Inr (False, v)
     | _ \<Rightarrow> Inr (False, v))"

text \<open>The switch in the body of the loop of \<open>vdp22st_run\<close>.\<close>

definition vdp22st_action :: "vdp22_env \<Rightarrow> vdp22 \<Rightarrow> vsi22 \<Rightarrow> (vsi22 \<times> vdp22_event list) res" where
  "vdp22st_action en d v = (case smi_st (v_smi v) of
       St VDP22_INIT \<Rightarrow> Inr (vdp22st_init v, [])
     | St VDP22_STATION_PROC \<Rightarrow> vdp22st_process en d v
     | St VDP22_ASSOC_NEW \<Rightarrow> (case vdp22_clntback d (vdp22st_assoc_new v (v_resp_vsi_mode v)) of
           (None, _) \<Rightarrow> Inl Use_After_Free | (Some v1, evs) \<Rightarrow> Inr (v1, evs))
     | St VDP22_PREASSOC_NEW \<Rightarrow> (case vdp22_clntback d (vdp22st_assoc_new v (v_resp_vsi_mode v)) of
           (None, _) \<Rightarrow> Inl Use_After_Free | (Some v1, evs) \<Rightarrow> Inr (v1, evs))
     | St VDP22_ASSOC_COMPL \<Rightarrow> Inr (vdp22st_assoc_compl v, [])
     | St VDP22_WAIT_SYSCMD \<Rightarrow> Inr (vdp22st_wait_syscmd d v)
     | St VDP22_TXMIT_KA \<Rightarrow> vdp22st_txka en d v
     | St VDP22_TXMIT_DEASSOC \<Rightarrow> vdp22st_txdea en d v
     | St VDP22_TXMIT_DEAWAIT_2 \<Rightarrow> Inr (vdp22st_assoc_compl v, [])
     | _ \<Rightarrow> Inr (v, []))"

text \<open>
  The loop ends: a transmission clears the acknowledgement, so the wait after it ends the loop or is
  left with an error, and every other transition goes forward.
\<close>

definition wait_rank :: "vsi22 \<Rightarrow> nat" where
  "wait_rank v = (if txmit_error (v_smi v) = 0 \<and> \<not> acktimeout (v_smi v) \<and> ackreceived (v_smi v) then 20 else 1)"

definition st_rank :: "vsi22 \<Rightarrow> nat" where
  "st_rank v = (case smi_st (v_smi v) of
       St VDP22_BEGIN \<Rightarrow> 7 | St VDP22_INIT \<Rightarrow> 6
     | St VDP22_STATION_PROC \<Rightarrow> 5 | St VDP22_TXMIT_KA \<Rightarrow> 5 | St VDP22_TXMIT_DEASSOC \<Rightarrow> 5
     | St VDP22_STATION_PROCWAIT \<Rightarrow> wait_rank v | St VDP22_TXMIT_KAWAIT \<Rightarrow> wait_rank v
     | St VDP22_TXMIT_DEAWAIT \<Rightarrow> wait_rank v
     | St VDP22_STATION_PROCWAIT_2 \<Rightarrow> 19 | St VDP22_TXMIT_KAWAIT_2 \<Rightarrow> 19 | St VDP22_TXMIT_DEAWAIT_2 \<Rightarrow> 19
     | St VDP22_ASSOC_NEW \<Rightarrow> 18 | St VDP22_ASSOC_COMPL \<Rightarrow> 17 | St VDP22_PREASSOC_NEW \<Rightarrow> 17
     | St VDP22_WAIT_SYSCMD \<Rightarrow> 16 | St VDP22_WAIT_SYSCMD_2 \<Rightarrow> 15 | _ \<Rightarrow> 0)"

lemma goto_st_Inr: "goto_st v s = Inr (b, v1) \<Longrightarrow> b \<and> v1 = v_smi_update (\<lambda>m. m\<lparr>smi_st := St s\<rparr>) v"
  unfolding goto_st_def vdp22st_change_state_def by (elim bindR_InrE) auto

lemma await_ack_eq:
  "await_ack v s = (if wait_rank v = 20 then goto_st v s
     else if txmit_error (v_smi v) \<noteq> 0 \<or> acktimeout (v_smi v) then goto_st v VDP22_END else Inr (False, v))"
  by (simp add: await_ack_def wait_rank_def)

lemma vdp22st_process_Inr:
  "vdp22st_process en d v = Inr (v1, evs) \<Longrightarrow> smi_st (v_smi v1) = smi_st (v_smi v) \<and> wait_rank v1 = 1"
  by (auto simp: vdp22st_process_def Let_def res_simps vdp22st_start_acktimer_def wait_rank_def
    split: if_splits prod.splits)

definition set_st :: "vdp22_states \<Rightarrow> vsi22 \<Rightarrow> vsi22" where
  "set_st s v = v_smi_update (\<lambda>m. m\<lparr>smi_st := St s\<rparr>) v"

lemma set_st_simps [simp]:
  "smi_st (v_smi (set_st s v)) = St s" "wait_rank (set_st s v) = wait_rank v"
  by (simp_all add: set_st_def wait_rank_def)

lemma wait_rank_pos [simp]: "0 < wait_rank v"
  by (simp add: wait_rank_def)

lemma goto_st_eq_Inr: "goto_st v s = Inr (b, v1) \<Longrightarrow> b \<and> v1 = set_st s v"
  unfolding set_st_def by (rule goto_st_Inr)

lemma move_state_rank:
  "vdp22st_move_state v = Inr (True, v1) \<Longrightarrow>
     (if smi_st (v_smi v) \<in> {St VDP22_STATION_PROC, St VDP22_TXMIT_KA, St VDP22_TXMIT_DEASSOC}
      then st_rank v1 = wait_rank v else st_rank v1 < st_rank v)"
proof (cases "smi_st (v_smi v)")
  case (St s)
  assume "vdp22st_move_state v = Inr (True, v1)"
  then show ?thesis using St
    by (cases s) (auto simp: vdp22st_move_state_def st_rank_def await_ack_eq dest!: goto_st_eq_Inr split: if_splits)
qed (simp_all add: vdp22st_move_state_def)

lemma action_st:
  "vdp22st_action en d v = Inr (v1, xs) \<Longrightarrow> smi_st (v_smi v1) = smi_st (v_smi v)
     \<and> (if smi_st (v_smi v) \<in> {St VDP22_STATION_PROC, St VDP22_TXMIT_KA, St VDP22_TXMIT_DEASSOC}
         then wait_rank v1 = 1 else wait_rank v1 = wait_rank v)"
proof (cases "smi_st (v_smi v)")
  case (St s)
  assume "vdp22st_action en d v = Inr (v1, xs)"
  then show ?thesis using St
    by (cases s) (auto simp: vdp22st_action_def vdp22st_init_def vdp22st_assoc_compl_def vdp22st_assoc_new_def
        vdp22st_wait_syscmd_def vdp22st_start_katimer_def vdp22st_txka_def vdp22st_txdea_def wait_rank_def
        vdp22_clntback_def vdp22_back_def dest!: vdp22st_process_Inr split: if_splits)
qed (simp_all add: vdp22st_action_def)

lemma st_rank_cong: "smi_st (v_smi v1) = smi_st (v_smi v) \<Longrightarrow> wait_rank v1 = wait_rank v \<Longrightarrow> st_rank v1 = st_rank v"
  by (simp only: st_rank_def)

lemma st_rank_decreases:
  assumes "vdp22st_action en d v = Inr (v1, xs)" "vdp22st_move_state v1 = Inr (True, v2)"
  shows "st_rank v2 < st_rank v"
proof (cases "smi_st (v_smi v) \<in> {St VDP22_STATION_PROC, St VDP22_TXMIT_KA, St VDP22_TXMIT_DEASSOC}")
  case True
  with action_st [OF assms(1)] move_state_rank [OF assms(2)] have "st_rank v2 = 1" by (simp split: if_splits)
  with True show ?thesis by (auto simp: st_rank_def)
next
  case False
  with action_st [OF assms(1)] have "smi_st (v_smi v1) = smi_st (v_smi v)" "wait_rank v1 = wait_rank v" by (auto split: if_splits)
  with False move_state_rank [OF assms(2)] show ?thesis using st_rank_cong [of v1 v] by (simp split: if_splits)
qed

function vdp22st_loop :: "vdp22_env \<Rightarrow> vdp22 \<Rightarrow> vsi22 \<Rightarrow> vdp22_event list \<Rightarrow> (vsi22 \<times> vdp22_event list) res" where
  "vdp22st_loop en d v evs = (case vdp22st_action en d v of
       Inl f \<Rightarrow> Inl f
     | Inr (v1, xs) \<Rightarrow> (case vdp22st_move_state v1 of
           Inl f \<Rightarrow> Inl f
         | Inr (b, v2) \<Rightarrow> if b then vdp22st_loop en d v2 (evs @ xs) else Inr (v2, evs @ xs)))"
  by pat_completeness auto
termination
  by (relation "measure (\<lambda>(en, d, v, evs). st_rank v)") (auto intro: st_rank_decreases)

declare vdp22st_loop.simps [simp del]

definition vdp22st_run :: "vdp22_env \<Rightarrow> vdp22 \<Rightarrow> vsi22 \<Rightarrow> (vsi22 option \<times> vdp22_event list) res" where
  "vdp22st_run en d v =
     bindR (vdp22st_move_state v) (\<lambda>(_, v1).
     bindR (vdp22st_loop en d v1 []) (\<lambda>(v2, evs).
       if smi_st (v_smi v2) = St VDP22_END
       then bindR (vdp22st_end d v2) (\<lambda>(m, evs2). Inr (m, evs @ evs2))
       else Inr (Some v2, evs)))"

definition vdp22st_handle_kato :: "vdp22_env \<Rightarrow> vdp22 \<Rightarrow> vsi22 \<Rightarrow> (vsi22 option \<times> vdp22_event list) res" where
  "vdp22st_handle_kato en d v = vdp22st_run en d (v_smi_update (\<lambda>s. s\<lparr>kato := True\<rparr>) v)"

definition vdp22st_handle_ackto :: "vdp22_env \<Rightarrow> vdp22 \<Rightarrow> vsi22 \<Rightarrow> (vsi22 option \<times> vdp22_event list) res" where
  "vdp22st_handle_ackto en d v =
     (if \<not> ackreceived (v_smi v) then vdp22st_run en d (v_smi_update (\<lambda>s. s\<lparr>acktimeout := True\<rparr>) v)
      else Inr (Some v, []))"

definition vdp22_localchange_handler :: "vdp22_env \<Rightarrow> vdp22 \<Rightarrow> vsi22 \<Rightarrow> (vsi22 option \<times> vdp22_event list) res" where
  "vdp22_localchange_handler en d v = (if localchg (v_smi v) then vdp22st_run en d v else Inr (Some v, []))"

subsection \<open>The bridge machine\<close>

definition vdp22br_init :: "vsi22 \<Rightarrow> vsi22" where
  "vdp22br_init v = v_smi_update (\<lambda>s. s\<lparr>localchg := True, kato := False, resp_ok := False, deassoc := False,
       acktimeout := False, ackreceived := False, smi_txmit := False, txmit_error := 0\<rparr>)
     (v\<lparr>v_flags := {}, v_cc_vsi_mode := VDP22_DEASSOC, v_resp_vsi_mode := VDP22_RESP_NONE\<rparr>)"

definition vdp22br_start_katimer :: "vdp22 \<Rightarrow> vsi22 \<Rightarrow> vsi22 \<times> vdp22_event list" where
  "vdp22br_start_katimer d v =
     (v_smi_update (\<lambda>s. s\<lparr>kato := False\<rparr>) v, [start_timer vdp22br_kato v (vdp22_timeout d (vdp_rka d))])"

definition vdp22br_stop_katimer :: "vsi22 \<Rightarrow> vdp22_event list" where
  "vdp22br_stop_katimer v = [Stop_Timer vdp22br_kato (v_ptr v)]"

definition vdp22br_stop_restimer :: "vsi22 \<Rightarrow> vdp22_event list" where
  "vdp22br_stop_restimer v = [Stop_Timer vdp22br_resto (v_ptr v)]"

definition vdp22br_start_restimer :: "vdp22 \<Rightarrow> vsi22 \<Rightarrow> vsi22 \<times> vdp22_event list" where
  "vdp22br_start_restimer d v =
     (v_smi_update (\<lambda>s. s\<lparr>resp_ok := False\<rparr>) (v\<lparr>v_resp_vsi_mode := VDP22_RESP_NONE\<rparr>),
      [start_timer vdp22br_resto v (scast (delay (vdp_rwd d)))])"

definition vdp22br_resources :: "vsi22 \<Rightarrow> u8 \<times> int" where
  "vdp22br_resources v = (if v_vsi_mode v = VDP22_DEASSOC then VDP22_RESP_DEASSOC else VDP22_RESP_SUCCESS, 0)"

definition vdp22br_process :: "vdp22 \<Rightarrow> vsi22 \<Rightarrow> vsi22 \<times> vdp22_event list" where
  "vdp22br_process d v0 =
     (let (v1, evs) = vdp22br_start_restimer d v0;
          v = v1\<lparr>v_status := 0, v_resp_vsi_mode := VDP22_RESP_SUCCESS\<rparr>;
          (rc, err) = vdp22br_resources v;
          rest = (\<lambda>st. (v_smi_update (\<lambda>s. s\<lparr>resp_ok := True\<rparr>)
             (v\<lparr>v_status := st OR VDP22_ACKBIT OR make_status err\<rparr>), evs @ vdp22br_stop_restimer v));
          (v2, evs2) =
            (if rc = VDP22_RESP_KEEP then rest VDP22_KEEPBIT
             else if rc = VDP22_RESP_DEASSOC then rest (if err > 15 then VDP22_HARDBIT else 0)
             else if rc = VDP22_RESP_SUCCESS then rest 0
             else (v, evs))
      in (v2\<lparr>v_resp_vsi_mode := rc\<rparr>, evs2))"

definition vdp22br_payload :: "vsi22 \<Rightarrow> bytes res" where
  "vdp22br_payload v =
     (let len = of_nat (mgr22_ptlv_sz + vsi22_ptlv_sz (length (v_fdata v)) (v_fif v)) :: u16
      in bindR (write_bytes (replicate (unat len) 0) 0 (mgr22_2tlv v)) (\<lambda>b1.
           write_bytes b1 mgr22_ptlv_sz (vsi22_2tlv v (v_status v))))"

definition vdp22br_reply :: "vdp22 \<Rightarrow> vsi22 \<Rightarrow> (vsi22 \<times> vdp22_event list) res" where
  "vdp22br_reply d v = bindR (vdp22br_payload v) (\<lambda>buf.
     Inr (v_smi_update (\<lambda>s. s\<lparr>localchg := False\<rparr>) (v\<lparr>v_flags := v_flags v - {VDP22_BUSY}\<rparr>), [To_Ecp (vdp_ifname d) buf]))"

definition vdp22br_sendack :: "vdp22 \<Rightarrow> vsi22 \<Rightarrow> u8 \<Rightarrow> (vsi22 \<times> vdp22_event list) res" where
  "vdp22br_sendack d v status = vdp22br_reply d (v\<lparr>v_status := status\<rparr>)"

definition vdp22br_deassoc :: "vdp22 \<Rightarrow> vsi22 \<Rightarrow> u8 \<Rightarrow> (vsi22 \<times> vdp22_event list) res" where
  "vdp22br_deassoc d v status = vdp22br_sendack d (v\<lparr>v_vsi_mode := VDP22_DEASSOC\<rparr>) status"

definition br_from :: "vdp22br_states \<Rightarrow> vdp22br_states set option" where
  "br_from new = (case new of
       VDP22_BR_BEGIN \<Rightarrow> None
     | VDP22_BR_INIT \<Rightarrow> Some {VDP22_BR_BEGIN}
     | VDP22_BR_PROCESS \<Rightarrow> Some {VDP22_BR_WAITCMD_2, VDP22_BR_INIT}
     | VDP22_BR_SEND \<Rightarrow> Some {VDP22_BR_PROCESS}
     | VDP22_BR_KEEP \<Rightarrow> Some {VDP22_BR_PROCESS}
     | VDP22_BR_DEASSOC \<Rightarrow> Some {VDP22_BR_PROCESS}
     | VDP22_BR_WAITCMD \<Rightarrow> Some {VDP22_BR_SEND, VDP22_BR_KEEP, VDP22_BR_ALIVE}
     | VDP22_BR_WAITCMD_2 \<Rightarrow> Some {VDP22_BR_WAITCMD}
     | VDP22_BR_ALIVE \<Rightarrow> Some {VDP22_BR_WAITCMD_2}
     | VDP22_BR_DEASSOCIATED \<Rightarrow> Some {VDP22_BR_PROCESS, VDP22_BR_WAITCMD}
     | VDP22_BR_END \<Rightarrow> Some {VDP22_BR_DEASSOC, VDP22_BR_DEASSOCIATED})"

definition vdp22br_change_state :: "vsi22 \<Rightarrow> vdp22br_states \<Rightarrow> vsi22 res" where
  "vdp22br_change_state v new =
     bindR (case br_from new of None \<Rightarrow> Inr () | Some ss \<Rightarrow> assertR (smi_st (v_smi v) \<in> Br ` ss)) (\<lambda>_.
       Inr (v_smi_update (\<lambda>s. s\<lparr>smi_st := Br new\<rparr>) v))"

definition goto_br :: "vsi22 \<Rightarrow> vdp22br_states \<Rightarrow> (bool \<times> vsi22) res" where
  "goto_br v s = bindR (vdp22br_change_state v s) (\<lambda>v1. Inr (True, v1))"

definition vdp22br_move_state :: "vsi22 \<Rightarrow> (bool \<times> vsi22) res" where
  "vdp22br_move_state v = (case smi_st (v_smi v) of
       Br VDP22_BR_BEGIN \<Rightarrow> goto_br v VDP22_BR_INIT
     | Br VDP22_BR_INIT \<Rightarrow> goto_br v VDP22_BR_PROCESS
     | Br VDP22_BR_PROCESS \<Rightarrow>
         if \<not> resp_ok (v_smi v) then Inr (False, v)
         else goto_br v
           (if v_resp_vsi_mode v = VDP22_RESP_NONE then
              (if v_cc_vsi_mode v = VDP22_ASSOC then VDP22_BR_KEEP else VDP22_BR_DEASSOCIATED)
            else if v_resp_vsi_mode v = VDP22_RESP_SUCCESS then VDP22_BR_SEND
            else if v_resp_vsi_mode v = VDP22_RESP_KEEP then VDP22_BR_KEEP
            else VDP22_BR_DEASSOC)
     | Br VDP22_BR_SEND \<Rightarrow> goto_br v VDP22_BR_WAITCMD
     | Br VDP22_BR_KEEP \<Rightarrow> goto_br v VDP22_BR_WAITCMD
     | Br VDP22_BR_DEASSOC \<Rightarrow> goto_br v VDP22_BR_END
     | Br VDP22_BR_WAITCMD \<Rightarrow>
         if localchg (v_smi v) then goto_br v VDP22_BR_WAITCMD_2
         else if kato (v_smi v) then goto_br v VDP22_BR_DEASSOCIATED
         else Inr (False, v)
     | Br VDP22_BR_WAITCMD_2 \<Rightarrow>
         if v_cc_vsi_mode v = v_vsi_mode v then goto_br v VDP22_BR_ALIVE else goto_br v VDP22_BR_PROCESS
     | Br VDP22_BR_DEASSOCIATED \<Rightarrow> goto_br v VDP22_BR_END
     | Br VDP22_BR_ALIVE \<Rightarrow> goto_br v VDP22_BR_WAITCMD
     | Br VDP22_BR_END \<Rightarrow> Inr (False, v)
     | _ \<Rightarrow> Inr (False, v))"

text \<open>The switch in the loop of \<open>vdp22br_run\<close>; \<open>vdp22br_end\<close> takes the VSI off the list and frees it.\<close>

definition vdp22br_action :: "vdp22 \<Rightarrow> vsi22 \<Rightarrow> (vsi22 option \<times> vdp22_event list) res" where
  "vdp22br_action d v =
     (let live = (\<lambda>r. bindR r (\<lambda>(v1, evs). Inr (Some v1, evs)))
      in case smi_st (v_smi v) of
       Br VDP22_BR_INIT \<Rightarrow> Inr (Some (vdp22br_init v), [])
     | Br VDP22_BR_PROCESS \<Rightarrow> live (Inr (vdp22br_process d v))
     | Br VDP22_BR_SEND \<Rightarrow> live (vdp22br_reply d v)
     | Br VDP22_BR_KEEP \<Rightarrow> live (vdp22br_sendack d v (v_status v))
     | Br VDP22_BR_DEASSOC \<Rightarrow> live (vdp22br_deassoc d v (v_status v))
     | Br VDP22_BR_WAITCMD \<Rightarrow> live (Inr (vdp22br_start_katimer d v))
     | Br VDP22_BR_ALIVE \<Rightarrow> live (vdp22br_sendack d v VDP22_ACKBIT)
     | Br VDP22_BR_DEASSOCIATED \<Rightarrow> live (vdp22br_deassoc d v 0)
     | Br VDP22_BR_END \<Rightarrow> Inr (None, [])
     | _ \<Rightarrow> Inr (Some v, []))"

definition br_rank :: "vsi22 \<Rightarrow> nat" where
  "br_rank v = (case smi_st (v_smi v) of
       Br VDP22_BR_BEGIN \<Rightarrow> 20 | Br VDP22_BR_INIT \<Rightarrow> 19
     | Br VDP22_BR_WAITCMD \<Rightarrow> (if localchg (v_smi v) then 20 else 1) | Br VDP22_BR_WAITCMD_2 \<Rightarrow> 19
     | Br VDP22_BR_PROCESS \<Rightarrow> 18
     | Br VDP22_BR_SEND \<Rightarrow> 5 | Br VDP22_BR_KEEP \<Rightarrow> 5 | Br VDP22_BR_ALIVE \<Rightarrow> 5
     | Br VDP22_BR_DEASSOC \<Rightarrow> 5 | Br VDP22_BR_DEASSOCIATED \<Rightarrow> 5 | _ \<Rightarrow> 0)"

lemma goto_br_Inr: "goto_br v s = Inr (b, v1) \<Longrightarrow> b \<and> v1 = v_smi_update (\<lambda>m. m\<lparr>smi_st := Br s\<rparr>) v"
  unfolding goto_br_def vdp22br_change_state_def by (elim bindR_InrE) auto

lemma vdp22br_reply_Inr:
  "vdp22br_reply d v = Inr (v1, evs) \<Longrightarrow> smi_st (v_smi v1) = smi_st (v_smi v) \<and> \<not> localchg (v_smi v1)"
  unfolding vdp22br_reply_def by (elim bindR_InrE) auto

lemma vdp22br_process_smi:
  "vdp22br_process d v = (v1, evs) \<Longrightarrow> smi_st (v_smi v1) = smi_st (v_smi v)"
  by (auto simp: vdp22br_process_def vdp22br_resources_def vdp22br_start_restimer_def Let_def split: if_splits)

definition set_br :: "vdp22br_states \<Rightarrow> vsi22 \<Rightarrow> vsi22" where
  "set_br s v = v_smi_update (\<lambda>m. m\<lparr>smi_st := Br s\<rparr>) v"

lemma set_br_simps [simp]:
  "smi_st (v_smi (set_br s v)) = Br s" "localchg (v_smi (set_br s v)) = localchg (v_smi v)"
  by (simp_all add: set_br_def)

lemma goto_br_eq_Inr: "goto_br v s = Inr (b, v1) \<Longrightarrow> b \<and> v1 = set_br s v"
  unfolding set_br_def by (rule goto_br_Inr)

lemma br_action_smi:
  assumes "vdp22br_action d v = Inr (Some v1, xs)"
  shows "smi_st (v_smi v1) = smi_st (v_smi v)
    \<and> (smi_st (v_smi v) \<in> {Br VDP22_BR_SEND, Br VDP22_BR_KEEP, Br VDP22_BR_ALIVE} \<longrightarrow> \<not> localchg (v_smi v1))
    \<and> (smi_st (v_smi v) = Br VDP22_BR_WAITCMD \<longrightarrow> localchg (v_smi v1) = localchg (v_smi v) \<and> \<not> kato (v_smi v1))"
proof (cases "smi_st (v_smi v)")
  case (Br s)
  with assms show ?thesis
    by (cases s) (auto simp: vdp22br_action_def vdp22br_init_def vdp22br_sendack_def
        vdp22br_deassoc_def vdp22br_start_katimer_def elim!: bindR_InrE
        dest!: vdp22br_reply_Inr vdp22br_process_smi split: prod.splits)
qed (use assms in \<open>auto simp: vdp22br_action_def\<close>)

lemma br_move_rank:
  assumes "vdp22br_move_state v = Inr (True, v1)"
    and "smi_st (v_smi v) \<in> {Br VDP22_BR_SEND, Br VDP22_BR_KEEP, Br VDP22_BR_ALIVE} \<longrightarrow> \<not> localchg (v_smi v)"
    and "smi_st (v_smi v) = Br VDP22_BR_WAITCMD \<longrightarrow> \<not> kato (v_smi v)"
  shows "br_rank v1 < br_rank v"
proof (cases "smi_st (v_smi v)")
  case (Br s)
  with assms show ?thesis
    by (cases s) (auto simp: vdp22br_move_state_def br_rank_def dest!: goto_br_eq_Inr split: if_splits)
qed (use assms in \<open>auto simp: vdp22br_move_state_def\<close>)

lemma br_rank_decreases:
  assumes "vdp22br_action d v = Inr (Some v1, xs)" "vdp22br_move_state v1 = Inr (True, v2)"
  shows "br_rank v2 < br_rank v"
proof -
  note a = br_action_smi [OF assms(1)]
  have "br_rank v2 < br_rank v1" using br_move_rank [OF assms(2)] a by simp
  also have "br_rank v1 = br_rank v"
  proof (cases "smi_st (v_smi v) = Br VDP22_BR_WAITCMD")
    case False
    with a show ?thesis by (simp only: br_rank_def) (auto split: smi_state.splits vdp22br_states.splits)
  qed (use a in \<open>simp add: br_rank_def\<close>)
  finally show ?thesis .
qed

function vdp22br_loop :: "vdp22 \<Rightarrow> vsi22 \<Rightarrow> vdp22_event list \<Rightarrow> (vsi22 \<times> vdp22_event list) res" where
  "vdp22br_loop d v evs = (case vdp22br_action d v of
       Inl f \<Rightarrow> Inl f
     | Inr (None, _) \<Rightarrow> Inl Use_After_Free
     | Inr (Some v1, xs) \<Rightarrow> (case vdp22br_move_state v1 of
           Inl f \<Rightarrow> Inl f
         | Inr (b, v2) \<Rightarrow> if b then vdp22br_loop d v2 (evs @ xs) else Inr (v2, evs @ xs)))"
  by pat_completeness auto
termination
  by (relation "measure (\<lambda>(d, v, evs). br_rank v)") (auto intro: br_rank_decreases)

declare vdp22br_loop.simps [simp del]

definition vdp22br_run :: "vdp22 \<Rightarrow> vsi22 \<Rightarrow> (vsi22 \<times> vdp22_event list) res" where
  "vdp22br_run d v = bindR (vdp22br_move_state v) (\<lambda>(_, v1). vdp22br_loop d v1 [])"

definition vdp22br_handle_kato :: "vdp22 \<Rightarrow> vsi22 \<Rightarrow> (vsi22 \<times> vdp22_event list) res" where
  "vdp22br_handle_kato d v = vdp22br_run d (v_smi_update (\<lambda>s. s\<lparr>kato := True\<rparr>) v)"

definition vdp22br_handle_resto :: "vdp22 \<Rightarrow> vsi22 \<Rightarrow> (vsi22 \<times> vdp22_event list) res" where
  "vdp22br_handle_resto d v = vdp22br_run d (v_smi_update (\<lambda>s. s\<lparr>resp_ok := True\<rparr>) v)"

end
