(* ===== verification/Vdp22_If.thy ===== *)
theory Vdp22_If
  imports Vdp22_Sm Ecp22
begin

text \<open>
  The VSIs of one interface: requests of clients, replies of the bridge and requests of the station
  (\<open>src/qbg/vdp22sm.c\<close>), the checks and copies of \<open>src/qbg/vdp22.c\<close>, and the walk over the packed
  TLVs of a received message.  An operation returns the interface and what it did to the outside.
\<close>

abbreviation (input) EBUSY :: int where "EBUSY \<equiv> 16"
abbreviation (input) sizeof_vsi22 :: nat where "sizeof_vsi22 \<equiv> 128"
abbreviation (input) sizeof_fid22 :: nat where "sizeof_fid22 \<equiv> 32"

type_synonym if_res = "(vdp22 \<times> vdp22_event list) res"

text \<open>\<open>None\<close> takes the VSI with this address off the list, \<open>Some\<close> is its new content.\<close>

fun upd_vsi :: "nat \<Rightarrow> vsi22 option \<Rightarrow> vsi22 list \<Rightarrow> vsi22 list" where
  "upd_vsi p m [] = []"
| "upd_vsi p m (v # vs) =
     (if v_ptr v = p then (case m of None \<Rightarrow> vs | Some w \<Rightarrow> w # vs) else v # upd_vsi p m vs)"

definition put_vsi :: "nat \<Rightarrow> vsi22 option \<Rightarrow> vdp22 \<Rightarrow> vdp22" where
  "put_vsi p m d = d\<lparr>vsi22_que := upd_vsi p m (vsi22_que d)\<rparr>"

subsection \<open>Finding and changing a VSI\<close>

definition vdp22_vsi_equal :: "vsi22 \<Rightarrow> vsi22 \<Rightarrow> bool" where
  "vdp22_vsi_equal p1 p2 \<longleftrightarrow> v_mgrid p1 = v_mgrid p2 \<and> v_type_id p1 = v_type_id p2
     \<and> v_type_ver p1 = v_type_ver p2 \<and> v_vsi_fmt p1 = v_vsi_fmt p2 \<and> v_vsi p1 = v_vsi p2 \<and> v_fif p1 = v_fif p2"

definition vdp22_findvsi :: "vdp22 \<Rightarrow> vsi22 \<Rightarrow> vsi22 option" where
  "vdp22_findvsi d me = List.find (\<lambda>p. vdp22_vsi_equal p me) (vsi22_que d)"

definition vdp22_modvsi :: "vdp22_env \<Rightarrow> vdp22 \<Rightarrow> vsi22 \<Rightarrow> u8 \<Rightarrow> (int \<times> vsi22 option \<times> vdp22_event list) res" where
  "vdp22_modvsi en d me x =
     (if VDP22_DELETE_ME \<in> v_flags me then Inr (- ENODEV, Some me, [])
      else if v_vsi_mode me > x then Inr (- EINVAL, Some me, [])
      else bindR (vdp22st_run en d (v_smi_update (\<lambda>s. s\<lparr>localchg := True\<rparr>)
             (me\<lparr>v_vsi_mode := x, v_flags := v_flags me \<union> {VDP22_BUSY, VDP22_NLCMD}\<rparr>))) (\<lambda>(m, evs).
           Inr (0, m, evs)))"

definition vdp22_addvsi :: "vdp22_env \<Rightarrow> vdp22 \<Rightarrow> vsi22 \<Rightarrow> (vsi22 option \<times> vdp22 \<times> vdp22_event list) res" where
  "vdp22_addvsi en d v =
     (let v1 = v_smi_update (\<lambda>s. s\<lparr>smi_st := St VDP22_BEGIN\<rparr>) v;
          d1 = d\<lparr>vsi22_que := v1 # vsi22_que d\<rparr>
      in bindR (vdp22st_run en d1 v1) (\<lambda>(m, evs). Inr (m, put_vsi (v_ptr v) m d1, evs)))"

definition cmp_fdata1 :: "fid22 \<Rightarrow> fid22 \<Rightarrow> u8 \<Rightarrow> bool" where
  "cmp_fdata1 p1 p2 fif \<longleftrightarrow>
     (fif \<in> {VDP22_FFMT_MACVID, VDP22_FFMT_GROUPMACVID} \<longrightarrow> fid_mac p1 = fid_mac p2)
     \<and> (fif \<in> {VDP22_FFMT_GROUPVID, VDP22_FFMT_GROUPMACVID} \<longrightarrow> fid_grpid p1 = fid_grpid p2)
     \<and> (vdp22_get_vlanid (fid_vlan p1) \<noteq> 0 \<longrightarrow> vdp22_get_vlanid (fid_vlan p1) = vdp22_get_vlanid (fid_vlan p2))
     \<and> (vdp22_get_ps (fid_vlan p1) \<noteq> 0 \<longrightarrow> fid_vlan p1 = fid_vlan p2)"

definition vdp22_cmp_fdata :: "vsi22 \<Rightarrow> vsi22 \<Rightarrow> bool \<times> vsi22" where
  "vdp22_cmp_fdata p vsip =
     (if no_fdata p \<noteq> no_fdata vsip then (False, p)
      else if list_all2 (\<lambda>p1 p2. cmp_fdata1 p1 p2 (v_fif p)) (v_fdata p) (v_fdata vsip) then (True, p)
      else (False, p\<lparr>v_status := VDP22_RESP_NOADDR\<rparr>))"

text \<open>The search ends at the first OUI both VSIs have.\<close>

fun modoui :: "vdp22_env \<Rightarrow> vsi22 \<Rightarrow> vdp22_oui_data list \<Rightarrow> vsi22 res" where
  "modoui en p [] = Inr p"
| "modoui en p (from # froms) = (case find_index (\<lambda>to. strn_eq 20 (oui_name to) (oui_name from)) (v_oui p) of
       None \<Rightarrow> modoui en p froms
     | Some i \<Rightarrow> bindR (derefR (vdp22_get_oui_hndlr en (oui_name (v_oui p ! i)))) (\<lambda>h.
         Inr (p\<lparr>v_oui := (v_oui p)[i := vsi22_mod_hndlr h from (v_oui p ! i)]\<rparr>)))"

definition vdp22_modoui :: "vdp22_env \<Rightarrow> vsi22 \<Rightarrow> vsi22 \<Rightarrow> vsi22 res" where
  "vdp22_modoui en p vsip = modoui en p (v_oui vsip)"

text \<open>
  A request of a client.  The result says whether a stored VSI was modified.  The trace message at
  the end reads the request again, which is gone when a new VSI ended and was freed at once.
\<close>

definition vdp22_addreq :: "vdp22_env \<Rightarrow> vsi22 \<Rightarrow> vdp22 \<Rightarrow> (int \<times> bool \<times> vdp22 \<times> vdp22_event list) res" where
  "vdp22_addreq en vsip d =
     (if v_vsi_mode vsip > VDP22_DEASSOC \<or> v_vsi_mode vsip < VDP22_PREASSOC then Inr (- EINVAL, False, d, [])
      else case vdp22_findvsi d vsip of
        None \<Rightarrow>
          if v_vsi_mode vsip = VDP22_DEASSOC then Inr (- EINVAL, False, d, [])
          else bindR (vdp22_addvsi en d vsip) (\<lambda>(m, d1, evs).
                 if m = None then Inl Use_After_Free else Inr (0, False, d1, evs))
      | Some p \<Rightarrow>
          if VDP22_BUSY \<in> v_flags p then Inr (- EBUSY, False, d, [])
          else (case vdp22_cmp_fdata p vsip of (same, p1) \<Rightarrow>
            if \<not> same then Inr (- EINVAL, False, put_vsi (v_ptr p) (Some p1) d, [])
            else bindR (vdp22_modoui en p1 vsip) (\<lambda>p2.
                 bindR (vdp22_modvsi en d p2 (v_vsi_mode vsip)) (\<lambda>(rc, m, evs).
                   Inr (rc, True, put_vsi (v_ptr p) m d, evs)))))"

subsection \<open>Replies of the bridge\<close>

definition cpfid_vlan :: "fid22 \<Rightarrow> fid22 \<Rightarrow> fid22" where
  "cpfid_vlan hitm fromm = hitm\<lparr>fid_vlan := fid_vlan fromm\<rparr>"

definition vdp22_cpfid :: "vsi22 \<Rightarrow> vsi22 \<Rightarrow> vsi22" where
  "vdp22_cpfid hit from =
     (if no_fdata hit \<noteq> no_fdata from then hit
      else hit\<lparr>v_fdata := map2 cpfid_vlan (v_fdata hit) (v_fdata from),
               v_flags := (if map fid_vlan (v_fdata hit) = map fid_vlan (v_fdata from) then v_flags hit
                           else insert VDP22_RETURN_VID (v_flags hit))\<rparr>)"

definition bridge_reply :: "vsi22 \<Rightarrow> vsi22 \<Rightarrow> vsi22" where
  "bridge_reply hit0 vsip =
     (let unsol = (v_status vsip AND VDP22_ACKBIT = 0 \<and> v_vsi_mode vsip = VDP22_DEASSOC);
          hit1 = v_smi_update (\<lambda>s. s\<lparr>ackreceived := True, deassoc := unsol, acktimeout := False\<rparr>)
                   (hit0\<lparr>v_status := (if unsol then 0 else get_error (v_status vsip))\<rparr>);
          (same, hit2) = vdp22_cmp_fdata hit1 vsip
      in if same then
           let hit3 = vdp22_cpfid (v_smi_update (\<lambda>s. s\<lparr>resp_ok := True\<rparr>) (hit2\<lparr>v_resp_vsi_mode := v_vsi_mode vsip\<rparr>)) vsip
           in if v_cc_vsi_mode hit3 \<noteq> VDP22_DEASSOC
                \<and> (v_resp_vsi_mode hit3 = VDP22_DEASSOC \<or> bad_error (v_status hit3))
                \<and> VDP22_NLCMD \<notin> v_flags hit3
              then hit3\<lparr>v_flags := insert VDP22_NOTIFY (v_flags hit3)\<rparr> else hit3
         else hit2)"

definition vdp22_bridge_info :: "vdp22_env \<Rightarrow> vdp22 \<Rightarrow> vsi22 \<Rightarrow> if_res" where
  "vdp22_bridge_info en d vsip = (case vdp22_findvsi d vsip of
       None \<Rightarrow> Inr (d, [])
     | Some hit \<Rightarrow> bindR (vdp22st_run en d (bridge_reply hit vsip)) (\<lambda>(m, evs).
         Inr (put_vsi (v_ptr hit) m d, vdp22st_stop_acktimer hit @ evs)))"

subsection \<open>Checks\<close>

definition is_zeroes :: "bytes \<Rightarrow> bool" where
  "is_zeroes bs \<longleftrightarrow> (\<forall>b \<in> set bs. b = 0)"

definition is_ipv4 :: "bytes \<Rightarrow> bool" where
  "is_ipv4 cp \<longleftrightarrow> is_zeroes (take 10 cp) \<and> \<not> (cp ! 10 \<noteq> 0xff \<and> cp ! 11 \<noteq> 0xff) \<and> \<not> is_zeroes (take 4 (drop 12 cp))"

definition is_mac :: "bytes \<Rightarrow> bool" where
  "is_mac cp \<longleftrightarrow> is_zeroes (take 10 cp) \<and> is_valid_mac (drop 10 cp)"

definition is_ipv6 :: "bytes \<Rightarrow> bool" where
  "is_ipv6 cp \<longleftrightarrow> \<not> is_zeroes (take 16 cp)"

definition check_vsirequest :: "u8 \<Rightarrow> bool" where
  "check_vsirequest request \<longleftrightarrow> request \<in> {VDP22_PREASSOC, VDP22_PREASSOC_WITH_RR, VDP22_ASSOC, VDP22_DEASSOC, VDP22_MGRID, VDP22_OUI}"

definition check_filterfmt :: "u8 \<Rightarrow> bool" where
  "check_filterfmt f \<longleftrightarrow> f \<in> {VDP22_FFMT_VID, VDP22_FFMT_MACVID, VDP22_FFMT_GROUPVID, VDP22_FFMT_GROUPMACVID}"

text \<open>For a UUID the length that is tested is the size of a pointer, 8 bytes.\<close>

definition check_vsiid :: "u8 \<Rightarrow> bytes \<Rightarrow> bool" where
  "check_vsiid fmt uuid =
     (if fmt = 1 then is_ipv4 uuid else if fmt = 2 then is_ipv6 uuid else if fmt = 3 then is_mac uuid
      else if fmt = VDP22_ID_UUID then \<not> is_zeroes (take 8 uuid) else fmt = 4)"

definition check_vsi :: "vsi22 \<Rightarrow> bool" where
  "check_vsi v \<longleftrightarrow> check_vsiid (v_vsi_fmt v) (v_vsi v) \<and> check_vsirequest (v_vsi_mode v) \<and> check_filterfmt (v_fif v)"

definition check_mac :: "fid22 \<Rightarrow> bool" where "check_mac f \<longleftrightarrow> is_valid_mac (fid_mac f)"

definition check_vid :: "fid22 \<Rightarrow> bool" where
  "check_vid f \<longleftrightarrow> (let num = vdp22_get_vlanid (fid_vlan f) in \<not> (num > 0 \<and> (num < 2 \<or> num > 4094)))"

definition check_group :: "fid22 \<Rightarrow> bool" where "check_group f \<longleftrightarrow> fid_grpid f \<noteq> 0"

definition filter_ok :: "u8 \<Rightarrow> fid22 \<Rightarrow> bool \<Rightarrow> bool" where
  "filter_ok ffmt f gpid_on =
     (if ffmt = VDP22_FFMT_VID then check_vid f
      else if ffmt = VDP22_FFMT_MACVID then check_vid f \<and> check_mac f
      else if ffmt = VDP22_FFMT_GROUPVID then gpid_on \<and> check_vid f \<and> check_group f
      else if ffmt = VDP22_FFMT_GROUPMACVID then gpid_on \<and> check_vid f \<and> check_mac f \<and> check_group f
      else False)"

subsection \<open>Requests of the station\<close>

definition zero_smi :: vdp22smi where
  "zero_smi = \<lparr>smi_st = No_State, kato = False, ackreceived = False, acktimeout = False, localchg = False,
     deassoc = False, smi_txmit = False, resp_ok = False, txmit_error = 0\<rparr>"

text \<open>Filter data that is wrong gives up the copy; the address of the copy is \<open>nxt\<close>.\<close>

definition fdata_ok :: "vdp22 \<Rightarrow> u8 \<Rightarrow> fid22 list \<Rightarrow> bool" where
  "fdata_ok d fif fs \<longleftrightarrow>
     (\<forall>f \<in> set fs. \<not> (fid_vlan f = 0 \<and> 1 < length fs \<and> fif = VDP22_FFMT_VID) \<and> filter_ok fif f (vdp_gpid_on d))"

definition vdp22_copy_vsi :: "vdp22_env \<Rightarrow> vdp22 \<Rightarrow> nat \<Rightarrow> vsi22 \<Rightarrow> vsi22 option" where
  "vdp22_copy_vsi en d nxt old =
     (if \<not> check_vsi old \<or> \<not> ve_malloc_ok en sizeof_vsi22 then None
      else if \<not> ve_malloc_ok en (length (v_fdata old) * sizeof_fid22) then None
      else if fdata_ok d (v_fif old) (v_fdata old)
      then Some (old\<lparr>v_ptr := nxt, v_flags := {}, v_cc_vsi_mode := VDP22_DEASSOC\<rparr>) else None)"

definition vdp22br_addvsi :: "vdp22 \<Rightarrow> vsi22 \<Rightarrow> if_res" where
  "vdp22br_addvsi d v =
     (let v1 = v_smi_update (\<lambda>s. s\<lparr>smi_st := Br VDP22_BR_BEGIN\<rparr>) (v\<lparr>v_flags := {VDP22_BUSY}\<rparr>);
          d1 = d\<lparr>vsi22_que := v1 # vsi22_que d\<rparr>
      in bindR (vdp22br_run d1 v1) (\<lambda>(v2, evs). Inr (put_vsi (v_ptr v) (Some v2) d1, evs)))"

definition vdp22_station_info :: "vdp22_env \<Rightarrow> vdp22 \<Rightarrow> nat \<Rightarrow> vsi22 \<Rightarrow> if_res" where
  "vdp22_station_info en d nxt vsip =
     (let reply = (\<lambda>status. bindR (vdp22br_reply d (vsip\<lparr>v_status := status\<rparr>)) (\<lambda>(_, evs). Inr (d, evs)))
      in case vdp22_findvsi d vsip of
        None \<Rightarrow>
          if v_vsi_mode vsip = VDP22_DEASSOC then reply VDP22_ACKBIT
          else (case vdp22_copy_vsi en d nxt vsip of
              Some new \<Rightarrow> vdp22br_addvsi d new
            | None \<Rightarrow> reply (VDP22_ACKBIT OR make_status (uint VDP22_RESP_NO_RESOURCES)))
      | Some hit \<Rightarrow>
          if VDP22_BUSY \<in> v_flags hit then Inr (d, [])
          else (case vdp22_cmp_fdata hit vsip of (same, hit1) \<Rightarrow>
            if \<not> same then Inr (put_vsi (v_ptr hit) (Some hit1) d, vdp22br_stop_katimer hit)
            else bindR (vdp22br_run d (v_smi_update (\<lambda>s. s\<lparr>localchg := True\<rparr>) (hit1\<lparr>v_vsi_mode := v_vsi_mode vsip\<rparr>))) (\<lambda>(v2, evs).
                   Inr (put_vsi (v_ptr hit) (Some v2) d, vdp22br_stop_katimer hit @ evs))))"

subsection \<open>The walk over a received message\<close>

definition extract_4o_at :: "bytes \<Rightarrow> u64" where
  "extract_4o_at bs = extract_4o (bs ! 0) (bs ! 1) (bs ! 2) (bs ! 3)"

text \<open>The bytes of one filter entry, in a structure that was cleared before.\<close>

definition fid_of_bytes :: "u8 \<Rightarrow> bytes \<Rightarrow> fid22" where
  "fid_of_bytes ffmt bs =
     (let vlan = be16 (bs ! (length bs - 2)) (bs ! (length bs - 1)) in
      \<lparr>fid_grpid = (if ffmt \<in> {VDP22_FFMT_GROUPVID, VDP22_FFMT_GROUPMACVID} then extract_4o_at bs else 0),
       fid_mac = (if ffmt = VDP22_FFMT_MACVID then take 6 bs else if ffmt = VDP22_FFMT_GROUPMACVID then take 6 (drop 4 bs)
                  else replicate 6 0),
       fid_vlan = (if vsi22_fdata_sz ffmt = 0 then 0 else vlan), fid_req_pid = 0, fid_req_seq = 0\<rparr>)"

definition ptlv_2_fdata :: "bytes \<Rightarrow> nat \<Rightarrow> u8 \<Rightarrow> fid22 res" where
  "ptlv_2_fdata inp off ffmt = bindR (read_bytes inp off (vsi22_fdata_sz ffmt)) (\<lambda>bs. Inr (fid_of_bytes ffmt bs))"

fun read_fdata :: "bytes \<Rightarrow> nat \<Rightarrow> u8 \<Rightarrow> nat \<Rightarrow> fid22 list res" where
  "read_fdata inp off fif 0 = Inr []"
| "read_fdata inp off fif (Suc n) = bindR (ptlv_2_fdata inp off fif) (\<lambda>f.
     bindR (read_fdata inp (off + vsi22_fdata_sz fif) fif n) (\<lambda>fs. Inr (f # fs)))"

definition response_ok :: "vdp22_role \<Rightarrow> u8 \<Rightarrow> u8 \<Rightarrow> bool" where
  "response_ok role status mode =
     (if role = VDP22_BRIDGE then status AND VDP22_ACKBIT = 0
      else status AND VDP22_ACKBIT \<noteq> 0 \<or> status AND VDP22_ACKBIT = 0 \<and> mode = VDP22_DEASSOC)"

text \<open>
  One VSI TLV at \<open>off\<close>.  The structure on the stack keeps the pointer to the filter data of the TLV
  before it (\<open>dangling\<close>), and a TLV that is ignored is printed with it.
\<close>

definition ptlv_2_vsi22 :: "vdp22_env \<Rightarrow> bytes \<Rightarrow> nat \<Rightarrow> u8 \<Rightarrow> bytes \<Rightarrow> bool \<Rightarrow> vdp22 \<Rightarrow> nat \<Rightarrow>
    (bool \<times> vdp22 \<times> nat \<times> vdp22_event list) res" where
  "ptlv_2_vsi22 en inp off mode mgrid dangling d nxt =
     bindR (read_be16 inp off) (\<lambda>head.
     bindR (read_bytes inp (off + 2) 25) (\<lambda>h.
       let status = h ! 0; fif = h ! 22; no = be16 (h ! 23) (h ! 24)
       in if unat (ptlv_length head) = vsi22_ptlv_sz (unat no) fif \<and> no \<noteq> 0 \<and> response_ok (vdp_myrole d) status mode
          then bindR (read_fdata inp (off + 27) fif (unat no)) (\<lambda>fs.
            let vsip = \<lparr>v_ptr = 0, v_mgrid = mgrid, v_cc_vsi_mode = 0, v_vsi_mode = mode, v_resp_vsi_mode = 0,
                  v_status = status, v_hints = 0, v_type_id = extract_3o (h ! 1) (h ! 2) (h ! 3), v_type_ver = h ! 4,
                  v_vsi_fmt = h ! 5, v_vsi = take 16 (drop 6 h), v_fif = fif, v_fdata = fs, v_oui = [],
                  v_flags = {}, v_smi = zero_smi\<rparr>
            in if vdp_myrole d = VDP22_STATION
               then bindR (vdp22_bridge_info en d vsip) (\<lambda>(d1, evs). Inr (True, d1, nxt, evs))
               else bindR (vdp22_station_info en d nxt vsip) (\<lambda>(d1, evs). Inr (True, d1, Suc nxt, evs)))
          else if dangling \<and> no \<noteq> 0 \<and> check_filterfmt fif then Inl Use_After_Free
          else Inr (dangling, d, nxt, [])))"

lemma ptlv_length_ge: "2 \<le> unat (ptlv_length h)"
proof -
  have "unat (h AND 0x1ff) \<le> unat (0x1ff :: u16)"
    by (meson word_and_le1 word_le_nat_alt)
  then have "unat (2 + (h AND 0x1ff)) = unat (2 :: u16) + unat (h AND 0x1ff)"
    by (intro unat_add_lem [THEN iffD1]) (simp add: unat_word_ariths)
  then show ?thesis by (simp add: ptlv_length_def)
qed

lemma read_be16_bound: "read_be16 inp off = Inr h \<Longrightarrow> off + 2 \<le> length inp"
  by (simp add: read_be16_def split: if_splits)

lemma walk_advances:
  "read_be16 inp off = Inr h \<Longrightarrow> length inp - (off + unat (ptlv_length h)) < length inp - off"
  using read_be16_bound [of inp off h] ptlv_length_ge [of h] by linarith

function vdp22_walk :: "vdp22_env \<Rightarrow> bytes \<Rightarrow> nat \<Rightarrow> bytes \<Rightarrow> bool \<Rightarrow> vdp22 \<Rightarrow> nat \<Rightarrow> vdp22_event list \<Rightarrow>
    (vdp22 \<times> nat \<times> vdp22_event list) res" where
  "vdp22_walk en inp off mgrid dangling d nxt evs = (case read_be16 inp off of
       Inl f \<Rightarrow> Inl f
     | Inr head \<Rightarrow>
         let ty = ptlv_type head; off1 = off + unat (ptlv_length head) in
         if ty = 0 then Inr (d, nxt, evs)
         else if ty = ucast VDP22_MGRID
         then (case read_bytes inp (off + 2) 16 of Inl f \<Rightarrow> Inl f
               | Inr m \<Rightarrow> vdp22_walk en inp off1 m dangling d nxt evs)
         else if ty < ucast VDP22_MGRID
         then (case ptlv_2_vsi22 en inp off (ucast ty) mgrid dangling d nxt of Inl f \<Rightarrow> Inl f
               | Inr (dg, d1, n1, xs) \<Rightarrow> vdp22_walk en inp off1 mgrid dg d1 n1 (evs @ xs))
         else vdp22_walk en inp off1 mgrid dangling d nxt evs)"
  by pat_completeness auto
termination
proof (relation "measure (\<lambda>(en, inp, off, _). length inp - off)", goal_cases)
  case 2
  then show ?case by (auto dest: walk_advances)
next
  case 3
  then show ?case by (auto dest: walk_advances)
next
  case 4
  then show ?case by (auto dest: walk_advances)
qed simp

declare vdp22_walk.simps [simp del]

definition vdp22_input :: "vdp22_env \<Rightarrow> vdp22 \<Rightarrow> nat \<Rightarrow> (vdp22 \<times> nat \<times> vdp22_event list) res" where
  "vdp22_input en d nxt = vdp22_walk en (vdp_input d) 0 (replicate 16 0) False d nxt []"

text \<open>
  The consistency check before the walk; \<open>off\<close> and \<open>len\<close> are those of the TLV before.  The result
  says whether the message is kept.
\<close>

function vdp22_check :: "bytes \<Rightarrow> nat \<Rightarrow> nat \<Rightarrow> int \<Rightarrow> bool res" where
  "vdp22_check inp off len tot = (case read_be16 inp (off + len) of
       Inl f \<Rightarrow> Inl f
     | Inr head \<Rightarrow>
         let ty = ptlv_type head; l = unat (ptlv_length head); tot1 = tot - int l in
         if ty = 0 then Inr True
         else if ty = ucast VDP22_MGRID then Inr False
         else if ty < ucast VDP22_MGRID \<and> int l > tot then Inr False
         else if tot1 > 0 then vdp22_check inp (off + len) l tot1
         else Inr (tot1 = 0))"
  by pat_completeness auto
termination
proof (relation "measure (\<lambda>(inp, off, len, tot). nat tot)", goal_cases)
  case (2 inp off len tot head ty l tot1)
  then have "int 2 \<le> int l" "tot1 = tot - int l" "tot1 > 0" using ptlv_length_ge [of head] by (simp_all only: of_nat_le_iff)
  then show ?case by simp
qed simp

declare vdp22_check.simps [simp del]

definition vdp22_ecp22in :: "vdp22_env \<Rightarrow> vdp22 \<Rightarrow> nat \<Rightarrow> (vdp22 \<times> nat \<times> vdp22_event list) res" where
  "vdp22_ecp22in en d nxt =
     (if vdp_myrole d = VDP22_BRIDGE \<and> vdp_br_down d then Inr (d, nxt, [])
      else bindR (read_be16 (vdp_input d) 0) (\<lambda>head.
        let len = unat (ptlv_length head) in
        if ptlv_type head \<noteq> ucast VDP22_MGRID \<or> len > unat (vdp_input_len d) then Inr (d, nxt, [])
        else bindR (vdp22_check (vdp_input d) 0 len (int (unat (vdp_input_len d)) - int len)) (\<lambda>ok.
          if ok then vdp22_input en d nxt else Inr (d, nxt, []))))"

end
