(* ===== verification/Vdp22_Station.thy ===== *)
theory Vdp22_Station
  imports Vdp22_If
begin

text \<open>
  The station machine as a diagram.  Between two events a VSI rests in one of five states; \<open>st_spec\<close>
  says for each of them what the next run does, without the intermediate states, and
  \<open>vdp22st_run\<close> is shown equal to it.
\<close>

subsection \<open>The diagram\<close>

definition prepend :: "vdp22_event list \<Rightarrow> (vsi22 option \<times> vdp22_event list) res \<Rightarrow> (vsi22 option \<times> vdp22_event list) res" where
  "prepend evs r = bindR r (\<lambda>(m, xs). Inr (m, evs @ xs))"

definition st_finish :: "vdp22 \<Rightarrow> vsi22 \<Rightarrow> (vsi22 option \<times> vdp22_event list) res" where
  "st_finish d v = vdp22st_end d (set_st VDP22_END v)"

text \<open>Send the request and wait for the acknowledgement in state \<open>w\<close>; end the VSI when ECP refuses it.\<close>

definition st_send :: "vdp22_env \<Rightarrow> vdp22 \<Rightarrow> vsi22 \<Rightarrow> vdp22_states \<Rightarrow> vdp22_states \<Rightarrow> (vsi22 option \<times> vdp22_event list) res" where
  "st_send en d v s w = bindR (vdp22st_process en d (set_st s v)) (\<lambda>(v1, evs).
     if txmit_error (v_smi v1) = 0 then Inr (Some (set_st w v1), evs) else prepend evs (st_finish d v1))"

definition st_idle :: "vdp22_env \<Rightarrow> vdp22 \<Rightarrow> vsi22 \<Rightarrow> (vsi22 option \<times> vdp22_event list) res" where
  "st_idle en d v = (case vdp22st_start_katimer d v of (v1, evs) \<Rightarrow> prepend evs
     (if localchg (v_smi v1) then st_send en d v1 VDP22_STATION_PROC VDP22_STATION_PROCWAIT
      else if deassoc (v_smi v1) then st_finish d v1
      else Inr (Some (set_st VDP22_WAIT_SYSCMD_2 v1), [])))"

text \<open>A confirmed mode: tell an attached client, and go idle.\<close>

definition st_confirmed :: "vdp22_env \<Rightarrow> vdp22 \<Rightarrow> vsi22 \<Rightarrow> (vsi22 option \<times> vdp22_event list) res" where
  "st_confirmed en d v = (case vdp22_clntback d (vdp22st_assoc_new v (v_resp_vsi_mode v)) of
     (None, _) \<Rightarrow> Inl Use_After_Free | (Some v1, evs) \<Rightarrow> prepend evs (st_idle en d v1))"

definition st_answered :: "vdp22_env \<Rightarrow> vdp22 \<Rightarrow> vsi22 \<Rightarrow> (vsi22 option \<times> vdp22_event list) res" where
  "st_answered en d v =
     (if \<not> resp_ok (v_smi v) \<or> bad_error (v_status v) then st_finish d v
      else if keep_error (v_status v)
      then (if v_resp_vsi_mode v = VDP22_ASSOC then st_idle en d (vdp22st_assoc_compl v) else st_finish d v)
      else if v_resp_vsi_mode v = VDP22_DEASSOC then st_finish d v
      else st_confirmed en d v)"

definition st_alive :: "vdp22_env \<Rightarrow> vdp22 \<Rightarrow> vsi22 \<Rightarrow> (vsi22 option \<times> vdp22_event list) res" where
  "st_alive en d v =
     (if \<not> resp_ok (v_smi v) \<or> bad_error (v_status v) then st_finish d v
      else if keep_error (v_status v) \<and> v_resp_vsi_mode v = VDP22_ASSOC
      then st_send en d (v\<lparr>v_vsi_mode := VDP22_DEASSOC, v_flags := insert VDP22_BUSY (v_flags v)\<rparr>)
             VDP22_TXMIT_DEASSOC VDP22_TXMIT_DEAWAIT
      else if v_resp_vsi_mode v = VDP22_DEASSOC then st_finish d v
      else st_idle en d v)"

definition st_waiting :: "vdp22 \<Rightarrow> vsi22 \<Rightarrow> (vsi22 option \<times> vdp22_event list) res \<Rightarrow> (vsi22 option \<times> vdp22_event list) res" where
  "st_waiting d v answered =
     (if txmit_error (v_smi v) \<noteq> 0 \<or> acktimeout (v_smi v) then st_finish d v
      else if ackreceived (v_smi v) then answered else Inr (Some v, []))"

definition st_spec :: "vdp22_env \<Rightarrow> vdp22 \<Rightarrow> vsi22 \<Rightarrow> (vsi22 option \<times> vdp22_event list) res" where
  "st_spec en d v = (case smi_st (v_smi v) of
       St VDP22_BEGIN \<Rightarrow> st_send en d (v\<lparr>v_status := VDP22_RESP_NONE\<rparr>) VDP22_STATION_PROC VDP22_STATION_PROCWAIT
     | St VDP22_STATION_PROCWAIT \<Rightarrow> st_waiting d v (st_answered en d v)
     | St VDP22_WAIT_SYSCMD_2 \<Rightarrow>
         if kato (v_smi v) then st_send en d v VDP22_TXMIT_KA VDP22_TXMIT_KAWAIT
         else if localchg (v_smi v) then st_send en d v VDP22_STATION_PROC VDP22_STATION_PROCWAIT
         else if deassoc (v_smi v) then st_finish d v
         else Inr (Some v, [])
     | St VDP22_TXMIT_KAWAIT \<Rightarrow> st_waiting d v (st_alive en d v)
     | St VDP22_TXMIT_DEAWAIT \<Rightarrow> st_waiting d v (st_finish d (vdp22st_assoc_compl v))
     | _ \<Rightarrow> vdp22st_end d v)"

definition st_resting :: "vsi22 \<Rightarrow> bool" where
  "st_resting v \<longleftrightarrow> smi_st (v_smi v) \<in> St ` {VDP22_BEGIN, VDP22_STATION_PROCWAIT, VDP22_WAIT_SYSCMD_2, VDP22_TXMIT_KAWAIT,
     VDP22_TXMIT_DEAWAIT, VDP22_END}"

subsection \<open>The loop, state by state\<close>

definition st_rest :: "vdp22_env \<Rightarrow> vdp22 \<Rightarrow> vsi22 \<Rightarrow> vdp22_event list \<Rightarrow> (vsi22 option \<times> vdp22_event list) res" where
  "st_rest en d v evs = bindR (vdp22st_loop en d v evs) (\<lambda>(v2, evs1).
     if smi_st (v_smi v2) = St VDP22_END then prepend evs1 (vdp22st_end d v2) else Inr (Some v2, evs1))"

lemma vdp22st_run_rest: "vdp22st_run en d v = bindR (vdp22st_move_state v) (\<lambda>(_, v1). st_rest en d v1 [])"
  unfolding vdp22st_run_def st_rest_def prepend_def ..

lemma st_rest_step:
  "vdp22st_action en d v = Inr (v1, xs) \<Longrightarrow> vdp22st_move_state v1 = Inr (True, v2) \<Longrightarrow>
     st_rest en d v evs = st_rest en d v2 (evs @ xs)"
  by (subst st_rest_def, subst vdp22st_loop.simps) (simp add: st_rest_def)

lemma st_rest_stop:
  "vdp22st_action en d v = Inr (v1, xs) \<Longrightarrow> vdp22st_move_state v1 = Inr (False, v2) \<Longrightarrow>
     st_rest en d v evs = (if smi_st (v_smi v2) = St VDP22_END then prepend (evs @ xs) (vdp22st_end d v2)
       else Inr (Some v2, evs @ xs))"
  by (subst st_rest_def, subst vdp22st_loop.simps) simp

lemma st_rest_fault: "vdp22st_action en d v = Inl f \<Longrightarrow> st_rest en d v evs = Inl f"
  by (subst st_rest_def, subst vdp22st_loop.simps) simp

lemma set_st_set_st [simp]: "set_st a (set_st b v) = set_st a v"
  by (simp add: set_st_def)

lemma set_st_self: "smi_st (v_smi v) = St s \<Longrightarrow> set_st s v = v"
  by (simp add: set_st_def)

lemma set_st_fields [simp]:
  "txmit_error (v_smi (set_st s v)) = txmit_error (v_smi v)" "acktimeout (v_smi (set_st s v)) = acktimeout (v_smi v)"
  "ackreceived (v_smi (set_st s v)) = ackreceived (v_smi v)" "resp_ok (v_smi (set_st s v)) = resp_ok (v_smi v)"
  "kato (v_smi (set_st s v)) = kato (v_smi v)" "localchg (v_smi (set_st s v)) = localchg (v_smi v)"
  "deassoc (v_smi (set_st s v)) = deassoc (v_smi v)" "v_status (set_st s v) = v_status v"
  "v_resp_vsi_mode (set_st s v) = v_resp_vsi_mode v" "v_flags (set_st s v) = v_flags v" "v_ptr (set_st s v) = v_ptr v"
  by (simp_all add: set_st_def)

lemma goto_st_eval:
  "goto_st v s = (case st_from s of None \<Rightarrow> Inr (True, set_st s v)
     | Some ss \<Rightarrow> if smi_st (v_smi v) \<in> St ` ss then Inr (True, set_st s v) else Inl Assert_Failed)"
  by (simp add: goto_st_def vdp22st_change_state_def set_st_def assertR_def split: option.splits)

lemmas move_simps = vdp22st_move_state_def await_ack_def goto_st_eval st_from_def

lemma prepend_simps [simp]:
  "prepend a (Inl f) = Inl f" "prepend a (Inr (m, xs)) = Inr (m, a @ xs)" "prepend [] r = r"
  "prepend a (prepend b r) = prepend (a @ b) r"
  by (auto simp: prepend_def bindR_def split: sum.splits)

lemma rest_END: "smi_st (v_smi v) = St VDP22_END \<Longrightarrow> st_rest en d v evs = prepend evs (vdp22st_end d v)"
  by (subst st_rest_stop [of en d v v "[]" v]) (simp_all add: vdp22st_action_def vdp22st_move_state_def)

lemma rest_finish: "st_rest en d (set_st VDP22_END v) evs = prepend evs (st_finish d v)"
  by (simp add: rest_END st_finish_def)

lemma process_awaits:
  "vdp22st_process en d v = Inr (v1, evs) \<Longrightarrow> txmit_error (v_smi v1) = 0 \<Longrightarrow>
     \<not> ackreceived (v_smi v1) \<and> \<not> acktimeout (v_smi v1)"
  by (auto simp: vdp22st_process_def Let_def res_simps vdp22st_start_acktimer_def split: if_splits prod.splits)

text \<open>A state whose action is \<open>vdp22st_process\<close> and whose wait follows it.\<close>

lemma rest_send:
  assumes s: "smi_st (v_smi v) = St s"
    and a: "vdp22st_action en d v = vdp22st_process en d (set_st s v')"
    and sw: "(s, w) \<in> {(VDP22_STATION_PROC, VDP22_STATION_PROCWAIT), (VDP22_TXMIT_KA, VDP22_TXMIT_KAWAIT),
      (VDP22_TXMIT_DEASSOC, VDP22_TXMIT_DEAWAIT)}"
  shows "st_rest en d v evs = prepend evs (st_send en d v' s w)"
proof (cases "vdp22st_process en d (set_st s v')")
  case (Inl f)
  then show ?thesis by (simp add: st_rest_fault a st_send_def)
next
  case (Inr r)
  obtain v1 xs where r: "r = (v1, xs)" by fastforce
  from vdp22st_process_Inr [OF Inr [unfolded r]]
  have st: "smi_st (v_smi v1) = St s" by simp
  have move: "vdp22st_move_state v1 = Inr (True, set_st w v1)"
    using st sw by (elim insertE) (simp_all add: move_simps)
  have step: "st_rest en d v evs = st_rest en d (set_st w v1) (evs @ xs)"
    using move by (intro st_rest_step) (simp_all add: a Inr r)
  have act: "vdp22st_action en d (set_st w v1) = Inr (set_st w v1, [])"
    using sw by (elim insertE) (simp_all add: vdp22st_action_def)
  show ?thesis
  proof (cases "txmit_error (v_smi v1) = 0")
    case True
    with process_awaits [OF Inr [unfolded r]] sw have "vdp22st_move_state (set_st w v1) = Inr (False, set_st w v1)"
      by (elim insertE) (simp_all add: move_simps)
    with True sw show ?thesis
      unfolding step by (auto simp: st_rest_stop [OF act] st_send_def Inr r)
  next
    case False
    with sw have "vdp22st_move_state (set_st w v1) = Inr (True, set_st VDP22_END v1)"
      by (elim insertE) (simp_all add: move_simps)
    with False show ?thesis
      unfolding step by (simp add: st_rest_step [OF act] rest_finish st_send_def Inr r)
  qed
qed

lemma rest_process:
  assumes "smi_st (v_smi v) = St VDP22_STATION_PROC"
  shows "st_rest en d v evs = prepend evs (st_send en d v VDP22_STATION_PROC VDP22_STATION_PROCWAIT)"
  using assms by (intro rest_send [OF assms]) (simp_all add: vdp22st_action_def set_st_self)

lemma rest_txka:
  assumes "smi_st (v_smi v) = St VDP22_TXMIT_KA"
  shows "st_rest en d v evs = prepend evs (st_send en d v VDP22_TXMIT_KA VDP22_TXMIT_KAWAIT)"
  using assms by (intro rest_send [OF assms]) (simp_all add: vdp22st_action_def vdp22st_txka_def set_st_self)

lemma rest_txdea:
  assumes "smi_st (v_smi v) = St VDP22_TXMIT_DEASSOC"
  shows "st_rest en d v evs = prepend evs (st_send en d
    (v\<lparr>v_vsi_mode := VDP22_DEASSOC, v_flags := insert VDP22_BUSY (v_flags v)\<rparr>) VDP22_TXMIT_DEASSOC VDP22_TXMIT_DEAWAIT)"
  using assms by (intro rest_send [OF assms]) (simp_all add: vdp22st_action_def vdp22st_txdea_def set_st_self)

lemma send_set_st: "st_send en d (set_st a v) s w = st_send en d v s w"
  by (simp add: st_send_def)

lemma finish_set_st: "st_finish d (set_st a v) = st_finish d v"
  by (simp add: st_finish_def)

lemma start_katimer_set_st:
  "vdp22st_start_katimer d (set_st a v) = (case vdp22st_start_katimer d v of (v1, evs) \<Rightarrow> (set_st a v1, evs))"
  by (simp add: vdp22st_start_katimer_def set_st_def start_timer_def)

lemma idle_set_st: "st_idle en d (set_st a v) = st_idle en d v"
  by (simp add: st_idle_def start_katimer_set_st send_set_st finish_set_st split: prod.splits)

lemma katimer_smi:
  "vdp22st_start_katimer d v = (v1, evs) \<Longrightarrow> smi_st (v_smi v1) = smi_st (v_smi v) \<and> \<not> kato (v_smi v1)"
  by (auto simp: vdp22st_start_katimer_def)

lemma rest_idle:
  assumes "smi_st (v_smi v) = St VDP22_WAIT_SYSCMD"
  shows "st_rest en d v evs = prepend evs (st_idle en d v)"
proof -
  obtain v1 xs where k: "vdp22st_start_katimer d v = (v1, xs)" by fastforce
  from katimer_smi [OF k] assms have st: "smi_st (v_smi v1) = St VDP22_WAIT_SYSCMD" "\<not> kato (v_smi v1)" by simp_all
  let ?v = "set_st VDP22_WAIT_SYSCMD_2 v1"
  have 1: "st_rest en d v evs = st_rest en d ?v (evs @ xs)"
    by (rule st_rest_step [of en d v v1 xs]) (simp_all add: assms vdp22st_action_def vdp22st_wait_syscmd_def k st move_simps)
  have act: "vdp22st_action en d ?v = Inr (?v, [])" by (simp add: vdp22st_action_def)
  consider "localchg (v_smi v1)" | "\<not> localchg (v_smi v1)" "deassoc (v_smi v1)" | "\<not> localchg (v_smi v1)" "\<not> deassoc (v_smi v1)"
    by blast
  then show ?thesis
  proof cases
    case 1
    have "st_rest en d ?v (evs @ xs) = st_rest en d (set_st VDP22_STATION_PROC v1) (evs @ xs @ [])"
      using st 1 by (subst st_rest_step [OF act]) (simp_all add: move_simps)
    with 1 show ?thesis
      by (simp add: \<open>st_rest en d v evs = _\<close> rest_process send_set_st st_idle_def k)
  next
    case 2
    have "st_rest en d ?v (evs @ xs) = st_rest en d (set_st VDP22_END v1) (evs @ xs @ [])"
      using st 2 by (subst st_rest_step [OF act]) (simp_all add: move_simps)
    with 2 show ?thesis
      by (simp add: \<open>st_rest en d v evs = _\<close> rest_finish st_idle_def k)
  next
    case 3
    have "st_rest en d ?v (evs @ xs) = Inr (Some ?v, evs @ xs)"
      using st 3 by (subst st_rest_stop [OF act, of ?v]) (simp_all add: move_simps)
    with 3 show ?thesis
      by (simp add: \<open>st_rest en d v evs = _\<close> st_idle_def k)
  qed
qed

lemma assoc_set_st:
  "vdp22st_assoc_compl (set_st a v) = set_st a (vdp22st_assoc_compl v)"
  "vdp22st_assoc_new (set_st a v) x = set_st a (vdp22st_assoc_new v x)"
  by (simp_all add: vdp22st_assoc_compl_def vdp22st_assoc_new_def set_st_def)

lemma rest_compl:
  assumes "smi_st (v_smi v) = St VDP22_ASSOC_COMPL"
  shows "st_rest en d v evs = prepend evs (st_idle en d (vdp22st_assoc_compl v))"
proof -
  have "st_rest en d v evs = st_rest en d (set_st VDP22_WAIT_SYSCMD (vdp22st_assoc_compl v)) (evs @ [])"
    by (rule st_rest_step [of en d v "vdp22st_assoc_compl v" "[]"])
      (simp_all add: assms vdp22st_action_def move_simps vdp22st_assoc_compl_def)
  then show ?thesis by (simp add: rest_idle idle_set_st)
qed

lemma clntback_shape:
  "vdp22_clntback d v = (if VDP22_DELETE_ME \<in> v_flags v \<and> havepid v = 0 then None else Some v,
     if havepid v = 0 then [Clnt_Send (back_nl d v 0)] else [])"
  by (simp add: vdp22_clntback_def vdp22_back_def)

lemma assoc_idem: "vdp22st_assoc_compl (vdp22st_assoc_new v x) = vdp22st_assoc_new v x"
  by (simp add: vdp22st_assoc_compl_def vdp22st_assoc_new_def)

lemma clntback_set_st:
  "vdp22_clntback d (set_st a v) = (case vdp22_clntback d v of (m, evs) \<Rightarrow> (map_option (set_st a) m, evs))"
  by (simp add: clntback_shape set_st_def havepid_def back_nl_def vdp22_getsm_errcode_def)

lemma confirmed_set_st: "st_confirmed en d (set_st a v) = st_confirmed en d v"
  by (simp add: st_confirmed_def assoc_set_st clntback_set_st idle_set_st split: option.splits prod.splits)

text \<open>Both states of a confirmed mode: \<open>t\<close> is the state after it.\<close>

lemma rest_confirmed:
  assumes s: "smi_st (v_smi v) = St s"
    and "(s, t) \<in> {(VDP22_ASSOC_NEW, VDP22_ASSOC_COMPL), (VDP22_PREASSOC_NEW, VDP22_WAIT_SYSCMD)}"
  shows "st_rest en d v evs = prepend evs (st_confirmed en d v)"
proof -
  let ?n = "vdp22st_assoc_new v (v_resp_vsi_mode v)"
  have n: "smi_st (v_smi ?n) = St s"
    using s by (simp add: vdp22st_assoc_new_def vdp22st_assoc_compl_def)
  obtain m xs where c: "vdp22_clntback d ?n = (m, xs)" by fastforce
  have act: "vdp22st_action en d v = (case m of None \<Rightarrow> Inl Use_After_Free | Some v1 \<Rightarrow> Inr (v1, xs))"
    using assms by (elim insertE) (simp_all add: vdp22st_action_def c split: option.splits)
  show ?thesis
  proof (cases m)
    case None
    then show ?thesis by (simp add: act st_rest_fault st_confirmed_def c)
  next
    case (Some v1)
    with c have v1: "v1 = ?n" by (simp add: clntback_shape split: if_splits)
    have "vdp22st_move_state ?n = Inr (True, set_st t ?n)"
      using n assms(2) by (elim insertE) (simp_all add: move_simps)
    then have "st_rest en d v evs = st_rest en d (set_st t ?n) (evs @ xs)"
      by (intro st_rest_step [of en d v ?n xs]) (simp_all add: act Some v1)
    also have "\<dots> = prepend (evs @ xs) (st_idle en d ?n)"
      using assms(2) by (elim insertE) (simp_all add: rest_compl rest_idle assoc_set_st assoc_idem idle_set_st)
    finally show ?thesis by (simp add: st_confirmed_def c Some v1)
  qed
qed

lemma rest_PROCWAIT_2:
  assumes "smi_st (v_smi v) = St VDP22_STATION_PROCWAIT_2"
  shows "st_rest en d v evs = prepend evs (st_answered en d v)"
proof -
  have act: "vdp22st_action en d v = Inr (v, [])" by (simp add: vdp22st_action_def assms)
  have to: "st_rest en d v evs = st_rest en d (set_st s v) evs"
    if "vdp22st_move_state v = Inr (True, set_st s v)" for s
    using st_rest_step [OF act that, of evs] by simp
  note confirmed = rest_confirmed [of "set_st s v" s t en d evs for s t]
  show ?thesis
  proof (cases "\<not> resp_ok (v_smi v) \<or> bad_error (v_status v)")
    case True
    then show ?thesis by (subst to [of VDP22_END]) (auto simp: assms move_simps rest_finish st_answered_def)
  next
    case False
    note F = False
    consider "keep_error (v_status v)" "v_resp_vsi_mode v = 3" | "keep_error (v_status v)" "v_resp_vsi_mode v \<noteq> 3"
      | "\<not> keep_error (v_status v)" "v_resp_vsi_mode v \<in> {1, 2}" | "\<not> keep_error (v_status v)" "v_resp_vsi_mode v = 4"
      | "\<not> keep_error (v_status v)" "v_resp_vsi_mode v \<notin> {1, 2, 4}" by blast
    then show ?thesis
    proof cases
      case 1
      with F show ?thesis
        by (subst to [of VDP22_ASSOC_COMPL]) (simp_all add: assms move_simps rest_compl assoc_set_st idle_set_st st_answered_def)
    next
      case 2
      with F show ?thesis by (subst to [of VDP22_END]) (simp_all add: assms move_simps rest_finish st_answered_def)
    next
      case 3
      with F show ?thesis
        by (subst to [of VDP22_PREASSOC_NEW])
          (auto simp: assms move_simps confirmed [of VDP22_PREASSOC_NEW VDP22_WAIT_SYSCMD] confirmed_set_st st_answered_def)
    next
      case 4
      with F show ?thesis by (subst to [of VDP22_END]) (simp_all add: assms move_simps rest_finish st_answered_def)
    next
      case 5
      with F show ?thesis
        by (subst to [of VDP22_ASSOC_NEW])
          (auto simp: assms move_simps confirmed [of VDP22_ASSOC_NEW VDP22_ASSOC_COMPL] confirmed_set_st st_answered_def)
    qed
  qed
qed

lemma rest_KAWAIT_2:
  assumes "smi_st (v_smi v) = St VDP22_TXMIT_KAWAIT_2"
  shows "st_rest en d v evs = prepend evs (st_alive en d v)"
proof -
  have act: "vdp22st_action en d v = Inr (v, [])" by (simp add: vdp22st_action_def assms)
  have to: "st_rest en d v evs = st_rest en d (set_st s v) evs"
    if "vdp22st_move_state v = Inr (True, set_st s v)" for s
    using st_rest_step [OF act that, of evs] by simp
  have dea: "(set_st VDP22_TXMIT_DEASSOC v)\<lparr>v_vsi_mode := x, v_flags := y\<rparr> = set_st VDP22_TXMIT_DEASSOC (v\<lparr>v_vsi_mode := x, v_flags := y\<rparr>)"
    for x y by (simp add: set_st_def)
  consider "\<not> resp_ok (v_smi v) \<or> bad_error (v_status v)"
    | "resp_ok (v_smi v)" "\<not> bad_error (v_status v)" "keep_error (v_status v) \<and> v_resp_vsi_mode v = 3"
    | "resp_ok (v_smi v)" "\<not> bad_error (v_status v)" "v_resp_vsi_mode v = 4"
    | "resp_ok (v_smi v)" "\<not> bad_error (v_status v)" "\<not> (keep_error (v_status v) \<and> v_resp_vsi_mode v = 3)" "v_resp_vsi_mode v \<noteq> 4"
    by blast
  then show ?thesis
  proof cases
    case 1
    then show ?thesis by (subst to [of VDP22_END]) (auto simp: assms move_simps rest_finish st_alive_def)
  next
    case 2
    then show ?thesis
      by (subst to [of VDP22_TXMIT_DEASSOC]) (simp_all add: assms move_simps rest_txdea dea send_set_st st_alive_def)
  next
    case 3
    then show ?thesis by (subst to [of VDP22_END]) (simp_all add: assms move_simps rest_finish st_alive_def)
  next
    case 4
    then show ?thesis by (subst to [of VDP22_WAIT_SYSCMD]) (auto simp: assms move_simps rest_idle idle_set_st st_alive_def)
  qed
qed

lemma rest_DEAWAIT_2:
  assumes "smi_st (v_smi v) = St VDP22_TXMIT_DEAWAIT_2"
  shows "st_rest en d v evs = prepend evs (st_finish d (vdp22st_assoc_compl v))"
proof -
  have "st_rest en d v evs = st_rest en d (set_st VDP22_END (vdp22st_assoc_compl v)) (evs @ [])"
    by (rule st_rest_step [of en d v "vdp22st_assoc_compl v" "[]"])
      (simp_all add: assms vdp22st_action_def move_simps vdp22st_assoc_compl_def)
  then show ?thesis by (simp add: rest_finish)
qed

lemma rest_begin:
  assumes "smi_st (v_smi v) = St VDP22_INIT"
  shows "st_rest en d v evs = prepend evs (st_send en d (v\<lparr>v_status := VDP22_RESP_NONE\<rparr>) VDP22_STATION_PROC VDP22_STATION_PROCWAIT)"
proof -
  have "st_rest en d v evs = st_rest en d (set_st VDP22_STATION_PROC (v\<lparr>v_status := VDP22_RESP_NONE\<rparr>)) (evs @ [])"
    by (rule st_rest_step [of en d v "vdp22st_init v" "[]"])
      (simp_all add: assms vdp22st_action_def move_simps vdp22st_init_def set_st_def)
  then show ?thesis by (simp add: rest_process send_set_st)
qed

lemma run_move:
  "vdp22st_move_state v = Inr (b, v1) \<Longrightarrow> vdp22st_run en d v = st_rest en d v1 []"
  by (simp add: vdp22st_run_rest)

lemma run_waits:
  assumes w: "smi_st (v_smi v) = St w"
    and ww: "(w, w2) \<in> {(VDP22_STATION_PROCWAIT, VDP22_STATION_PROCWAIT_2), (VDP22_TXMIT_KAWAIT, VDP22_TXMIT_KAWAIT_2),
      (VDP22_TXMIT_DEAWAIT, VDP22_TXMIT_DEAWAIT_2)}"
  shows "vdp22st_run en d v = st_waiting d v (st_rest en d (set_st w2 v) [])"
proof -
  have move: "vdp22st_move_state v = await_ack v w2"
    using assms by (elim insertE) (simp_all add: vdp22st_move_state_def)
  have act: "vdp22st_action en d v = Inr (v, [])"
    using assms by (elim insertE) (simp_all add: vdp22st_action_def)
  have goto: "goto_st v VDP22_END = Inr (True, set_st VDP22_END v)" "goto_st v w2 = Inr (True, set_st w2 v)"
    using assms by (elim insertE; simp add: goto_st_eval st_from_def)+
  have ne: "w \<noteq> VDP22_END" using ww by auto
  consider "txmit_error (v_smi v) \<noteq> 0 \<or> acktimeout (v_smi v)"
    | "\<not> (txmit_error (v_smi v) \<noteq> 0 \<or> acktimeout (v_smi v))" "ackreceived (v_smi v)"
    | "\<not> (txmit_error (v_smi v) \<noteq> 0 \<or> acktimeout (v_smi v))" "\<not> ackreceived (v_smi v)" by blast
  then show ?thesis
  proof cases
    case 1
    then show ?thesis by (simp add: run_move move await_ack_def goto rest_finish st_waiting_def)
  next
    case 2
    then show ?thesis by (simp add: run_move move await_ack_def goto st_waiting_def)
  next
    case 3
    then have "vdp22st_move_state v = Inr (False, v)" by (simp add: move await_ack_def)
    with 3 ne w show ?thesis by (simp add: run_move st_rest_stop [OF act] st_waiting_def)
  qed
qed

lemma answered_set_st: "st_answered en d (set_st a v) = st_answered en d v"
  by (simp add: st_answered_def finish_set_st assoc_set_st idle_set_st confirmed_set_st)

lemma alive_set_st: "st_alive en d (set_st a v) = st_alive en d v"
proof -
  have dea: "(set_st a v)\<lparr>v_vsi_mode := x, v_flags := y\<rparr> = set_st a (v\<lparr>v_vsi_mode := x, v_flags := y\<rparr>)"
    for x y by (simp add: set_st_def)
  show ?thesis by (simp add: st_alive_def finish_set_st idle_set_st dea send_set_st)
qed

lemma run_syscmd:
  assumes "smi_st (v_smi v) = St VDP22_WAIT_SYSCMD_2"
  shows "vdp22st_run en d v = st_spec en d v"
proof -
  have act: "vdp22st_action en d v = Inr (v, [])" by (simp add: vdp22st_action_def assms)
  consider "kato (v_smi v)" | "\<not> kato (v_smi v)" "localchg (v_smi v)"
    | "\<not> kato (v_smi v)" "\<not> localchg (v_smi v)" "deassoc (v_smi v)"
    | "\<not> kato (v_smi v)" "\<not> localchg (v_smi v)" "\<not> deassoc (v_smi v)" by blast
  then show ?thesis
  proof cases
    case 1
    then have "vdp22st_move_state v = Inr (True, set_st VDP22_TXMIT_KA v)" by (simp add: assms move_simps)
    with 1 show ?thesis by (simp add: run_move rest_txka send_set_st st_spec_def assms)
  next
    case 2
    then have "vdp22st_move_state v = Inr (True, set_st VDP22_STATION_PROC v)" by (simp add: assms move_simps)
    with 2 show ?thesis by (simp add: run_move rest_process send_set_st st_spec_def assms)
  next
    case 3
    then have "vdp22st_move_state v = Inr (True, set_st VDP22_END v)" by (simp add: assms move_simps)
    with 3 show ?thesis by (simp add: run_move rest_finish st_spec_def assms)
  next
    case 4
    then have "vdp22st_move_state v = Inr (False, v)" by (simp add: assms move_simps)
    with 4 show ?thesis by (simp add: run_move st_rest_stop [OF act] st_spec_def assms)
  qed
qed

lemma vdp22st_run_eq:
  assumes "st_resting v"
  shows "vdp22st_run en d v = st_spec en d v"
proof -
  consider "smi_st (v_smi v) = St VDP22_BEGIN" | "smi_st (v_smi v) = St VDP22_STATION_PROCWAIT"
    | "smi_st (v_smi v) = St VDP22_WAIT_SYSCMD_2" | "smi_st (v_smi v) = St VDP22_TXMIT_KAWAIT"
    | "smi_st (v_smi v) = St VDP22_TXMIT_DEAWAIT" | "smi_st (v_smi v) = St VDP22_END"
    using assms by (auto simp: st_resting_def)
  then show ?thesis
  proof cases
    case 1
    then have "vdp22st_move_state v = Inr (True, set_st VDP22_INIT v)" by (simp add: move_simps)
    moreover have "(set_st VDP22_INIT v)\<lparr>v_status := x\<rparr> = set_st VDP22_INIT (v\<lparr>v_status := x\<rparr>)" for x
      by (simp add: set_st_def)
    ultimately show ?thesis using 1 by (simp add: run_move rest_begin send_set_st st_spec_def)
  next
    case 2
    then show ?thesis
      by (simp add: run_waits [of v _ VDP22_STATION_PROCWAIT_2] rest_PROCWAIT_2 answered_set_st st_spec_def)
  next
    case 3
    then show ?thesis by (rule run_syscmd)
  next
    case 4
    then show ?thesis
      by (simp add: run_waits [of v _ VDP22_TXMIT_KAWAIT_2] rest_KAWAIT_2 alive_set_st st_spec_def)
  next
    case 5
    then show ?thesis
      by (simp add: run_waits [of v _ VDP22_TXMIT_DEAWAIT_2] rest_DEAWAIT_2 assoc_set_st finish_set_st st_spec_def)
  next
    case 6
    then have "vdp22st_move_state v = Inr (False, v)" by (simp add: move_simps)
    from run_move [OF this] 6 show ?thesis by (simp add: rest_END st_spec_def)
  qed
qed

end
