(* ===== verification/Vdp22_Wire.thy ===== *)
theory Vdp22_Wire
  imports Vdp22_If
begin

text \<open>
  What a VDP message looks like on the wire and what the receiver makes of it: the packed TLVs of a
  well-formed VSI, walked by \<open>vdp22_input\<close>, give that VSI back with the fields its filter format
  does not use cleared.
\<close>

subsection \<open>Integers\<close>

lemma extract_append_3o:
  assumes "x < 0x1000000"
  shows "extract_3o (ucast (drop_bit 16 x)) (ucast (drop_bit 8 x)) (ucast x) = x"
proof -
  have "extract_3o (ucast (drop_bit 16 x)) (ucast (drop_bit 8 x)) (ucast x) = take_bit 24 x"
  proof (unfold extract_3o_def, rule bit_word_eqI)
    fix n :: nat
    consider "n < 8" | "8 \<le> n" "n < 16" | "16 \<le> n" by linarith
    then show "bit (push_bit 16 (ucast (ucast (drop_bit 16 x) :: u8)) OR push_bit 8 (ucast (ucast (drop_bit 8 x) :: u8))
        OR ucast (ucast x :: u8) :: u64) n = bit (take_bit 24 x) n"
      by cases (auto simp: bit_simps)
  qed
  also have "\<dots> = x"
    using assms by (intro take_bit_word_small) (simp add: word_less_nat_alt)
  finally show ?thesis .
qed

lemma extract_append_4o:
  "extract_4o (ucast (drop_bit 24 x)) (ucast (drop_bit 16 x)) (ucast (drop_bit 8 x)) (ucast x) = scast (ucast x :: u32)"
  for x :: u64
proof -
  have "(push_bit 24 (ucast (ucast (drop_bit 24 x) :: u8)) OR push_bit 16 (ucast (ucast (drop_bit 16 x) :: u8))
     OR push_bit 8 (ucast (ucast (drop_bit 8 x) :: u8)) OR ucast (ucast x :: u8)) = (ucast x :: u32)" for x :: u64
  proof (rule bit_word_eqI)
    fix n :: nat
    consider "n < 8" | "8 \<le> n" "n < 16" | "16 \<le> n" "n < 24" | "24 \<le> n" by linarith
    then show "bit (push_bit 24 (ucast (ucast (drop_bit 24 x) :: u8)) OR push_bit 16 (ucast (ucast (drop_bit 16 x) :: u8))
        OR push_bit 8 (ucast (ucast (drop_bit 8 x) :: u8)) OR ucast (ucast x :: u8) :: u32) n = bit (ucast x :: u32) n"
      by cases (auto simp: bit_simps)
  qed
  then show ?thesis by (simp add: extract_4o_def)
qed

lemma scast_ucast_small: "scast (ucast x :: u32) = x" if "x < 0x80000000" for x :: u64
proof -
  have "take_bit 31 x = x"
    using that by (intro take_bit_word_small) (simp add: word_less_nat_alt)
  then have b: "\<not> bit x n" if "31 \<le> n" for n
    using that by (metis bit_take_bit_iff not_le)
  show ?thesis
    by (rule bit_word_eqI) (auto simp: bit_simps b min_def not_le intro: b)
qed

lemma and_masks: "x AND 0x7f = take_bit 7 x" "x AND 0x1ff = take_bit 9 x" for x :: u16
  by (simp_all add: take_bit_eq_mask mask_eq_exp_minus_1)

lemma ptlv_type_head: "t < 128 \<Longrightarrow> ptlv_type (ptlv_head t l) = t"
proof -
  assume "t < 128"
  then have "take_bit 7 t = t" by (intro take_bit_word_small) (simp add: word_less_nat_alt)
  moreover have "ptlv_type (ptlv_head t l) = take_bit 7 t"
    unfolding ptlv_type_def ptlv_head_def and_masks by (rule bit_word_eqI) (auto simp: bit_simps)
  ultimately show ?thesis by simp
qed

lemma ptlv_length_head: "l < 512 \<Longrightarrow> unat (ptlv_length (ptlv_head t (of_nat l))) = l + 2"
proof -
  assume l: "l < 512"
  have "take_bit 9 (push_bit 9 (take_bit 7 t) OR take_bit 9 (of_nat l)) = (take_bit 9 (of_nat l) :: u16)"
    by (rule bit_word_eqI) (auto simp: bit_simps)
  moreover have "take_bit 9 (of_nat l) = (of_nat l :: u16)"
    using l by (intro take_bit_word_small) (simp add: unat_of_nat)
  ultimately have "ptlv_length (ptlv_head t (of_nat l)) = of_nat (2 + l)"
    by (simp add: ptlv_length_def ptlv_head_def and_masks)
  moreover have "unat (of_nat (2 + l) :: u16) = l + 2" using l by (subst unat_of_nat) simp
  ultimately show ?thesis by simp
qed

subsection \<open>Filter entries\<close>

definition vsi_wire_ok :: "vsi22 \<Rightarrow> bool" where
  "vsi_wire_ok v \<longleftrightarrow> length (v_mgrid v) = 16 \<and> length (v_vsi v) = 16 \<and> v_fdata v \<noteq> [] \<and> check_filterfmt (v_fif v)
     \<and> (\<forall>f \<in> set (v_fdata v). length (fid_mac f) = 6) \<and> vsi22_tlv_sz (length (v_fdata v)) (v_fif v) < 512
     \<and> v_type_id v < 0x1000000 \<and> 0 < v_vsi_mode v \<and> v_vsi_mode v < VDP22_MGRID"

definition wire_fid :: "u8 \<Rightarrow> fid22 \<Rightarrow> fid22" where
  "wire_fid fif f = \<lparr>
     fid_grpid = (if fif \<in> {VDP22_FFMT_GROUPVID, VDP22_FFMT_GROUPMACVID} then scast (ucast (fid_grpid f) :: u32) else 0),
     fid_mac = (if fif \<in> {VDP22_FFMT_MACVID, VDP22_FFMT_GROUPMACVID} then fid_mac f else replicate 6 0),
     fid_vlan = fid_vlan f, fid_req_pid = 0, fid_req_seq = 0\<rparr>"

definition wire_vsi :: "vsi22 \<Rightarrow> u8 \<Rightarrow> vsi22" where
  "wire_vsi v stat = \<lparr>v_ptr = 0, v_mgrid = v_mgrid v, v_cc_vsi_mode = 0, v_vsi_mode = v_vsi_mode v, v_resp_vsi_mode = 0,
     v_status = stat, v_hints = 0, v_type_id = v_type_id v, v_type_ver = v_type_ver v, v_vsi_fmt = v_vsi_fmt v,
     v_vsi = v_vsi v, v_fif = v_fif v, v_fdata = map (wire_fid (v_fif v)) (v_fdata v), v_oui = [], v_flags = {},
     v_smi = zero_smi\<rparr>"

lemma fdata_length:
  "check_filterfmt fif \<Longrightarrow> length (fid_mac f) = 6 \<Longrightarrow> length (vsi22_2tlv_fdata fif f) = vsi22_fdata_sz fif"
  by (auto simp: check_filterfmt_def vsi22_2tlv_fdata_def vsi22_fdata_sz_def append_4o_def be16_bytes_def)

lemma last_two:
  "be16 ((pre @ be16_bytes x) ! (length (pre @ be16_bytes x) - 2)) ((pre @ be16_bytes x) ! (length (pre @ be16_bytes x) - 1)) = x"
  by (simp add: nth_append be16_bytes_def be16_hi_lo)

lemma extract_append_at: "extract_4o_at (append_4o x @ bs) = scast (ucast x :: u32)"
  by (simp add: extract_4o_at_def append_4o_def extract_append_4o)

lemma append_4o_length [simp]: "length (append_4o x) = 4"
  by (simp add: append_4o_def)

lemma fid_of_wire:
  assumes "check_filterfmt fif" "length (fid_mac f) = 6"
  shows "fid_of_bytes fif (vsi22_2tlv_fdata fif f) = wire_fid fif f"
proof -
  have vlan: "fid_vlan (fid_of_bytes fif (pre @ be16_bytes x)) = x" if "vsi22_fdata_sz fif \<noteq> 0" for pre x
    using that by (simp only: fid_of_bytes_def Let_def last_two fid22.simps if_False)
  consider "fif = 1" | "fif = 2" | "fif = 3" | "fif = 4" using assms(1) by (auto simp: check_filterfmt_def)
  then show ?thesis
  proof cases
    case 1
    with vlan [of "[]" "fid_vlan f"] show ?thesis
      by (simp add: fid_of_bytes_def vsi22_2tlv_fdata_def wire_fid_def vsi22_fdata_sz_def Let_def)
  next
    case 2
    with vlan [of "fid_mac f" "fid_vlan f"] assms(2) show ?thesis
      by (simp add: fid_of_bytes_def vsi22_2tlv_fdata_def wire_fid_def vsi22_fdata_sz_def Let_def)
  next
    case 3
    with vlan [of "append_4o (fid_grpid f)" "fid_vlan f"] show ?thesis
      by (simp add: fid_of_bytes_def vsi22_2tlv_fdata_def wire_fid_def vsi22_fdata_sz_def Let_def extract_append_at)
  next
    case 4
    with vlan [of "append_4o (fid_grpid f) @ fid_mac f" "fid_vlan f"] assms(2) show ?thesis
      by (simp add: fid_of_bytes_def vsi22_2tlv_fdata_def wire_fid_def vsi22_fdata_sz_def Let_def extract_append_at)
  qed
qed

lemma read_fdata_wire:
  assumes "check_filterfmt fif" "\<forall>f \<in> set fs. length (fid_mac f) = 6"
  shows "read_fdata (pre @ concat (map (vsi22_2tlv_fdata fif) fs) @ rest) (length pre) fif (length fs)
    = Inr (map (wire_fid fif) fs)"
  using assms(2)
proof (induction fs arbitrary: pre)
  case (Cons f fs)
  let ?b = "vsi22_2tlv_fdata fif f"
  have l: "length ?b = vsi22_fdata_sz fif" using Cons.prems assms(1) by (simp add: fdata_length)
  have "read_bytes (pre @ ?b @ concat (map (vsi22_2tlv_fdata fif) fs) @ rest) (length pre) (vsi22_fdata_sz fif) = Inr ?b"
    by (rule read_bytes_at) (simp_all add: l)
  with Cons.IH [of "pre @ ?b"] Cons.prems assms(1) l show ?case
    by (simp add: ptlv_2_fdata_def fid_of_wire)
qed simp

subsection \<open>A VSI TLV\<close>

definition vsi_fixed :: "vsi22 \<Rightarrow> u8 \<Rightarrow> bytes" where
  "vsi_fixed v stat = [stat, ucast (drop_bit 16 (v_type_id v)), ucast (drop_bit 8 (v_type_id v)), ucast (v_type_id v),
     v_type_ver v, v_vsi_fmt v] @ v_vsi v @ [v_fif v, hi8 (no_fdata v), lo8 (no_fdata v)]"

definition vsi_head :: "vsi22 \<Rightarrow> u16" where
  "vsi_head v = ptlv_head (ucast (v_vsi_mode v)) (of_nat (vsi22_tlv_sz (length (v_fdata v)) (v_fif v)))"

definition fdata_bytes :: "vsi22 \<Rightarrow> bytes" where
  "fdata_bytes v = concat (map (vsi22_2tlv_fdata (v_fif v)) (v_fdata v))"

lemma vsi22_2tlv_parts: "vsi22_2tlv v stat = be16_bytes (vsi_head v) @ vsi_fixed v stat @ fdata_bytes v"
  by (simp add: vsi22_2tlv_def vsi_fixed_def vsi_head_def fdata_bytes_def append_3o_def be16_bytes_def)

lemma vsi_fixed_fields:
  assumes "length (v_vsi v) = 16"
  shows "length (vsi_fixed v stat) = 25" "vsi_fixed v stat ! 0 = stat" "vsi_fixed v stat ! 4 = v_type_ver v"
    "vsi_fixed v stat ! 5 = v_vsi_fmt v" "take 16 (drop 6 (vsi_fixed v stat)) = v_vsi v"
    "vsi_fixed v stat ! 22 = v_fif v" "be16 (vsi_fixed v stat ! 23) (vsi_fixed v stat ! 24) = no_fdata v"
    "v_type_id v < 0x1000000 \<Longrightarrow>
       extract_3o (vsi_fixed v stat ! 1) (vsi_fixed v stat ! 2) (vsi_fixed v stat ! 3) = v_type_id v"
  using assms by (simp_all add: vsi_fixed_def nth_append nth_Cons' be16_hi_lo extract_append_3o)

lemma fdata_bytes_length:
  assumes "check_filterfmt (v_fif v)" "\<forall>f \<in> set (v_fdata v). length (fid_mac f) = 6"
  shows "length (fdata_bytes v) = vsi22_tlv_fifsz (length (v_fdata v)) (v_fif v)"
proof -
  have "length (concat (map (vsi22_2tlv_fdata (v_fif v)) fs)) = length fs * vsi22_fdata_sz (v_fif v)"
    if "set fs \<subseteq> set (v_fdata v)" for fs
    using that assms by (induction fs) (auto simp: fdata_length)
  then show ?thesis by (simp add: fdata_bytes_def vsi22_tlv_fifsz_def)
qed

lemma vsi22_2tlv_length:
  assumes "vsi_wire_ok v"
  shows "length (vsi22_2tlv v stat) = vsi22_ptlv_sz (length (v_fdata v)) (v_fif v)"
  using assms fdata_bytes_length [of v] vsi_fixed_fields(1) [of v stat]
  by (simp add: vsi_wire_ok_def vsi22_2tlv_parts vsi22_ptlv_sz_def vsi22_tlv_sz_def be16_bytes_def)

lemma fdata_sz_pos: "check_filterfmt fif \<Longrightarrow> 2 \<le> vsi22_fdata_sz fif"
  by (auto simp: check_filterfmt_def vsi22_fdata_sz_def)

lemma unat_no_fdata:
  assumes "vsi_wire_ok v"
  shows "unat (no_fdata v) = length (v_fdata v)" "no_fdata v \<noteq> 0"
proof -
  have "length (v_fdata v) * 1 \<le> length (v_fdata v) * vsi22_fdata_sz (v_fif v)"
    using assms fdata_sz_pos [of "v_fif v"] by (intro mult_le_mono2) (simp add: vsi_wire_ok_def)
  moreover have "23 + 2 + length (v_fdata v) * vsi22_fdata_sz (v_fif v) < 512"
    using assms unfolding vsi_wire_ok_def vsi22_tlv_sz_def vsi22_tlv_fifsz_def by blast
  ultimately have "length (v_fdata v) < 512" by linarith
  then show l: "unat (no_fdata v) = length (v_fdata v)"
    by (simp add: no_fdata_def unat_of_nat)
  with assms show "no_fdata v \<noteq> 0" by (auto simp: vsi_wire_ok_def)
qed

lemma unat_ucast_u16: "unat (ucast x :: u16) = unat x" for x :: u8
  by (simp add: unsigned_ucast_eq take_bit_nat_eq_self order_less_trans [OF unsigned_less])

lemma vsi_head_fields:
  assumes "vsi_wire_ok v"
  shows "ptlv_type (vsi_head v) = ucast (v_vsi_mode v)"
    "unat (ptlv_length (vsi_head v)) = vsi22_ptlv_sz (length (v_fdata v)) (v_fif v)"
proof -
  have "(ucast (v_vsi_mode v) :: u16) < 128"
    using assms by (auto simp: vsi_wire_ok_def word_less_nat_alt unat_ucast_u16)
  then show "ptlv_type (vsi_head v) = ucast (v_vsi_mode v)" by (simp add: vsi_head_def ptlv_type_head)
  show "unat (ptlv_length (vsi_head v)) = vsi22_ptlv_sz (length (v_fdata v)) (v_fif v)"
    using assms by (simp add: vsi_head_def ptlv_length_head vsi_wire_ok_def vsi22_ptlv_sz_def)
qed

subsection \<open>A message\<close>

text \<open>What the receiver does with a VSI, by role.\<close>

definition vdp22_deliver :: "vdp22_env \<Rightarrow> vdp22 \<Rightarrow> nat \<Rightarrow> vsi22 \<Rightarrow> (vdp22 \<times> nat \<times> vdp22_event list) res" where
  "vdp22_deliver en d nxt v =
     (if vdp_myrole d = VDP22_STATION then bindR (vdp22_bridge_info en d v) (\<lambda>(d1, evs). Inr (d1, nxt, evs))
      else bindR (vdp22_station_info en d nxt v) (\<lambda>(d1, evs). Inr (d1, Suc nxt, evs)))"

definition vdp22_message :: "vsi22 \<Rightarrow> u8 \<Rightarrow> bytes" where
  "vdp22_message v stat = mgr22_2tlv v @ vsi22_2tlv v stat"

definition mgr_head :: u16 where
  "mgr_head = ptlv_head (ucast VDP22_MGRID) (of_nat mgr22_tlv_sz)"

lemma mgr_head_fields: "ptlv_type mgr_head = 5" "unat (ptlv_length mgr_head) = 18"
  using ptlv_length_head [of 16 5] by (simp_all add: mgr_head_def ptlv_type_def ptlv_head_def mgr22_tlv_sz_def)

lemma mgr22_2tlv_parts: "mgr22_2tlv v = hi8 mgr_head # lo8 mgr_head # v_mgrid v"
  by (simp add: mgr22_2tlv_def mgr_head_def be16_bytes_def)

lemma ptlv_2_vsi22_wire:
  assumes "vsi_wire_ok v" "response_ok (vdp_myrole d) stat (v_vsi_mode v)"
  shows "ptlv_2_vsi22 en (pre @ vsi22_2tlv v stat @ rest) (length pre) (v_vsi_mode v) (v_mgrid v) dg d nxt
    = bindR (vdp22_deliver en d nxt (wire_vsi v stat)) (\<lambda>(d1, n1, evs). Inr (True, d1, n1, evs))"
proof -
  let ?inp = "pre @ vsi22_2tlv v stat @ rest"
  note ok = assms(1) [unfolded vsi_wire_ok_def]
  note f = vsi_fixed_fields [OF ok [THEN conjunct2, THEN conjunct1], of stat]
  have head: "read_be16 ?inp (length pre) = Inr (vsi_head v)"
    by (simp add: vsi22_2tlv_parts be16_bytes_def read_be16_at be16_hi_lo)
  have fixed: "read_bytes ?inp (length pre + 2) 25 = Inr (vsi_fixed v stat)"
    using read_bytes_at [of "length pre + 2" "pre @ be16_bytes (vsi_head v)" 25 "vsi_fixed v stat" "fdata_bytes v @ rest"]
    by (simp add: vsi22_2tlv_parts f be16_bytes_def)
  have fd: "read_fdata ?inp (length pre + 27) (v_fif v) (length (v_fdata v)) = Inr (map (wire_fid (v_fif v)) (v_fdata v))"
    using read_fdata_wire [of "v_fif v" "v_fdata v" "pre @ be16_bytes (vsi_head v) @ vsi_fixed v stat" rest] ok
    by (simp add: vsi22_2tlv_parts f be16_bytes_def fdata_bytes_def)
  have tid: "extract_3o (vsi_fixed v stat ! 1) (vsi_fixed v stat ! 2) (vsi_fixed v stat ! 3) = v_type_id v"
    using f(8) ok by blast
  show ?thesis
    unfolding ptlv_2_vsi22_def head fixed bindR_Inr Let_def f(2-7) tid vdp22_deliver_def
    using assms(2) unat_no_fdata [OF assms(1)] vsi_head_fields(2) [OF assms(1)]
    by (simp add: fd wire_vsi_def bindR_assoc split_def)
qed

text \<open>The header that ends the walk has type 0: its first byte is 0 or 1.\<close>

definition ends_walk :: "bytes \<Rightarrow> bool" where
  "ends_walk rest \<longleftrightarrow> 2 \<le> length rest \<and> ptlv_type (be16 (rest ! 0) (rest ! 1)) = 0"

lemma read_be16_rest:
  "off = length pre \<Longrightarrow> 2 \<le> length rest \<Longrightarrow> read_be16 (pre @ rest) off = Inr (be16 (rest ! 0) (rest ! 1))"
  by (simp add: read_be16_def nth_append)

lemma walk_end: "ends_walk rest \<Longrightarrow> off = length pre \<Longrightarrow> vdp22_walk en (pre @ rest) off m dg d nxt evs = Inr (d, nxt, evs)"
  by (subst vdp22_walk.simps) (simp add: read_be16_rest ends_walk_def)

lemma mode_type_range:
  assumes "vsi_wire_ok v"
  shows "(ucast (v_vsi_mode v) :: u16) \<noteq> 0" "(ucast (v_vsi_mode v) :: u16) \<noteq> 5" "(ucast (v_vsi_mode v) :: u16) < 5"
    "ucast (ucast (v_vsi_mode v) :: u16) = v_vsi_mode v"
proof -
  have "0 < unat (v_vsi_mode v)" "unat (v_vsi_mode v) < 5"
    using assms by (auto simp: vsi_wire_ok_def word_less_nat_alt)
  then show "(ucast (v_vsi_mode v) :: u16) \<noteq> 0" "(ucast (v_vsi_mode v) :: u16) \<noteq> 5" "(ucast (v_vsi_mode v) :: u16) < 5"
    by (auto simp: word_less_nat_alt unat_ucast_u16 dest!: arg_cong [where f = unat])
  show "ucast (ucast (v_vsi_mode v) :: u16) = v_vsi_mode v"
    by (rule bit_word_eqI) (auto simp: bit_simps)
qed

lemma mgr22_2tlv_length: "length (v_mgrid v) = 16 \<Longrightarrow> length (mgr22_2tlv v) = 18"
  by (simp add: mgr22_2tlv_def be16_bytes_def)

lemma walk_message:
  assumes "vsi_wire_ok v" "response_ok (vdp_myrole d) stat (v_vsi_mode v)" "ends_walk rest"
  shows "vdp22_walk en (vdp22_message v stat @ rest) 0 m dg d nxt [] = vdp22_deliver en d nxt (wire_vsi v stat)"
proof -
  let ?inp = "vdp22_message v stat @ rest"
  have lm: "length (v_mgrid v) = 16" using assms(1) by (simp add: vsi_wire_ok_def)
  have l: "length (mgr22_2tlv v) = 18" using lm by (rule mgr22_2tlv_length)
  have h0: "read_be16 ?inp 0 = Inr mgr_head"
    using read_be16_at [of 0 "[]" "hi8 mgr_head" "lo8 mgr_head"]
    by (simp add: vdp22_message_def mgr22_2tlv_parts be16_hi_lo)
  have m0: "read_bytes ?inp 2 16 = Inr (v_mgrid v)"
    using read_bytes_at [of 2 "be16_bytes mgr_head" 16 "v_mgrid v" "vsi22_2tlv v stat @ rest"] lm
    by (simp add: vdp22_message_def mgr22_2tlv_parts be16_bytes_def)
  have h1: "read_be16 ?inp 18 = Inr (vsi_head v)"
    using read_be16_at [of 18 "mgr22_2tlv v" "hi8 (vsi_head v)" "lo8 (vsi_head v)"] l
    by (simp add: vdp22_message_def vsi22_2tlv_parts be16_bytes_def be16_hi_lo)
  have tlv: "ptlv_2_vsi22 en ?inp 18 (v_vsi_mode v) (v_mgrid v) dg d nxt
      = bindR (vdp22_deliver en d nxt (wire_vsi v stat)) (\<lambda>(d1, n1, evs). Inr (True, d1, n1, evs))"
    using ptlv_2_vsi22_wire [OF assms(1,2), of en "mgr22_2tlv v" rest dg nxt] l by (simp add: vdp22_message_def)
  have e: "vdp22_walk en ?inp (18 + vsi22_ptlv_sz (length (v_fdata v)) (v_fif v)) (v_mgrid v) True d1 n1 evs = Inr (d1, n1, evs)"
    for d1 n1 evs
    by (rule walk_end [OF assms(3)]) (use l vsi22_2tlv_length [OF assms(1)] in \<open>simp add: vdp22_message_def\<close>)
  have "vdp22_walk en ?inp 0 m dg d nxt [] = vdp22_walk en ?inp 18 (v_mgrid v) dg d nxt []"
    by (subst vdp22_walk.simps) (simp add: h0 m0 [unfolded numeral_2_eq_2] mgr_head_fields Let_def)
  also have "\<dots> = vdp22_deliver en d nxt (wire_vsi v stat)"
    by (subst vdp22_walk.simps)
      (simp add: h1 vsi_head_fields [OF assms(1)] mode_type_range [OF assms(1)] tlv e Let_def bindR_def split: sum.splits prod.splits)
  finally show ?thesis .
qed

lemma message_length:
  assumes "vsi_wire_ok v"
  shows "length (vdp22_message v stat) = 18 + vsi22_ptlv_sz (length (v_fdata v)) (v_fif v)"
    "unat (of_nat (length (vdp22_message v stat)) :: u16) = length (vdp22_message v stat)"
proof -
  show l: "length (vdp22_message v stat) = 18 + vsi22_ptlv_sz (length (v_fdata v)) (v_fif v)"
    using assms vsi22_2tlv_length [OF assms] by (simp add: vdp22_message_def mgr22_2tlv_length vsi_wire_ok_def)
  have "length (vdp22_message v stat) < 65536"
    using assms unfolding l by (simp add: vsi_wire_ok_def vsi22_ptlv_sz_def)
  then show "unat (of_nat (length (vdp22_message v stat)) :: u16) = length (vdp22_message v stat)"
    by (simp add: unat_of_nat)
qed

lemma message_heads:
  assumes "vsi_wire_ok v"
  shows "read_be16 (vdp22_message v stat @ rest) 0 = Inr mgr_head"
    "read_be16 (vdp22_message v stat @ rest) 18 = Inr (vsi_head v)"
  using read_be16_at [of 0 "[]" "hi8 mgr_head" "lo8 mgr_head"] mgr22_2tlv_length [of v] assms
    read_be16_at [of 18 "mgr22_2tlv v" "hi8 (vsi_head v)" "lo8 (vsi_head v)"]
  by (simp_all add: vdp22_message_def mgr22_2tlv_parts vsi22_2tlv_parts be16_bytes_def be16_hi_lo vsi_wire_ok_def)

lemma message_checked:
  assumes "vsi_wire_ok v"
  shows "vdp22_check (vdp22_message v stat @ rest) 0 18 (int (vsi22_ptlv_sz (length (v_fdata v)) (v_fif v))) = Inr True"
  by (subst vdp22_check.simps)
    (simp add: message_heads(2) [OF assms] vsi_head_fields [OF assms] mode_type_range [OF assms] Let_def)

lemma ecp22in_message:
  assumes "vsi_wire_ok v" "response_ok (vdp_myrole d) stat (v_vsi_mode v)" "ends_walk rest"
    and "vdp_input d = vdp22_message v stat @ rest" "vdp_input_len d = of_nat (length (vdp22_message v stat))"
    and "\<not> (vdp_myrole d = VDP22_BRIDGE \<and> vdp_br_down d)"
  shows "vdp22_ecp22in en d nxt = vdp22_deliver en d nxt (wire_vsi v stat)"
proof -
  have "vdp22_input en d nxt = vdp22_deliver en d nxt (wire_vsi v stat)"
    unfolding vdp22_input_def assms(4) by (rule walk_message [OF assms(1-3)])
  moreover have len: "unat (vdp_input_len d) = 18 + vsi22_ptlv_sz (length (v_fdata v)) (v_fif v)"
    using message_length [OF assms(1), of stat] by (simp only: assms(5))
  ultimately show ?thesis using assms(6)
    unfolding vdp22_ecp22in_def assms(4) message_heads(1) [OF assms(1)] bindR_Inr Let_def mgr_head_fields len
    by (auto simp: message_checked [OF assms(1)] assms(4))
qed

subsection \<open>What a machine sends\<close>

lemma write_two:
  "n = length a + length b \<Longrightarrow> k = length a \<Longrightarrow>
     bindR (write_bytes (replicate n 0) 0 a) (\<lambda>b1. write_bytes b1 k b) = Inr (a @ b)"
  by (simp add: write_bytes_def)

lemma payload_sizes:
  assumes "vsi_wire_ok v"
  shows "unat (of_nat (mgr22_ptlv_sz + vsi22_ptlv_sz (length (v_fdata v)) (v_fif v)) :: u16)
      = length (mgr22_2tlv v) + length (vsi22_2tlv v stat)" "mgr22_ptlv_sz = length (mgr22_2tlv v)"
proof -
  have l: "length (mgr22_2tlv v) = 18" using assms by (simp add: mgr22_2tlv_length vsi_wire_ok_def)
  then show "mgr22_ptlv_sz = length (mgr22_2tlv v)" by (simp add: mgr22_ptlv_sz_def mgr22_tlv_sz_def)
  show "unat (of_nat (mgr22_ptlv_sz + vsi22_ptlv_sz (length (v_fdata v)) (v_fif v)) :: u16)
      = length (mgr22_2tlv v) + length (vsi22_2tlv v stat)"
    using message_length [OF assms, of stat] l
    by (simp add: vdp22_message_def mgr22_ptlv_sz_def mgr22_tlv_sz_def)
qed

lemma vdp22br_payload_ok: "vsi_wire_ok v \<Longrightarrow> vdp22br_payload v = Inr (vdp22_message v (v_status v))"
  unfolding vdp22br_payload_def Let_def vdp22_message_def
  by (rule write_two) (rule payload_sizes, assumption, rule payload_sizes, assumption)

lemma vdp22st_payload_ok:
  assumes "vsi_wire_ok v" "v_oui v = []"
  shows "vdp22st_payload en v = Inr (vdp22_message v (v_hints v))"
proof -
  have "vdp22st_payload en v = bindR (write_bytes (replicate (unat (of_nat (mgr22_ptlv_sz + vsi22_ptlv_sz (length (v_fdata v)) (v_fif v)) :: u16)) 0) 0 (mgr22_2tlv v))
      (\<lambda>b1. write_bytes b1 mgr22_ptlv_sz (vsi22_2tlv v (v_hints v)))"
    by (simp add: vdp22st_payload_def assms(2) oui22_ptlv_sz_def Let_def bindR_def split: sum.splits)
  also have "\<dots> = Inr (vdp22_message v (v_hints v))"
    unfolding vdp22_message_def
    by (rule write_two) (rule payload_sizes [OF assms(1)], rule payload_sizes [OF assms(1)])
  finally show ?thesis .
qed

end
