(* ===== verification/Vdp22_Bridge.thy ===== *)
theory Vdp22_Bridge
  imports Vdp22_Wire
begin

text \<open>
  What the bridge machine does with a VSI: a new request and a further request are answered and the
  VSI waits for the next one; the end of a VSI goes through freed memory.
\<close>

lemma goto_br_eval:
  "goto_br v s = (case br_from s of None \<Rightarrow> Inr (True, set_br s v)
     | Some ss \<Rightarrow> if smi_st (v_smi v) \<in> Br ` ss then Inr (True, set_br s v) else Inl Assert_Failed)"
  by (simp add: goto_br_def vdp22br_change_state_def set_br_def assertR_def split: option.splits)

lemmas br_move_simps = vdp22br_move_state_def goto_br_eval br_from_def

lemma br_loop_step:
  "vdp22br_action d v = Inr (Some v1, xs) \<Longrightarrow> vdp22br_move_state v1 = Inr (True, v2) \<Longrightarrow>
     vdp22br_loop d v evs = vdp22br_loop d v2 (evs @ xs)"
  by (subst vdp22br_loop.simps) simp

lemma br_loop_stop:
  "vdp22br_action d v = Inr (Some v1, xs) \<Longrightarrow> vdp22br_move_state v1 = Inr (False, v2) \<Longrightarrow>
     vdp22br_loop d v evs = Inr (v2, evs @ xs)"
  by (subst vdp22br_loop.simps) simp

lemma br_loop_end: "smi_st (v_smi v) = Br VDP22_BR_END \<Longrightarrow> vdp22br_loop d v evs = Inl Use_After_Free"
  by (subst vdp22br_loop.simps) (simp add: vdp22br_action_def)

lemma set_br_fields [simp]:
  "set_br a (set_br b v) = set_br a v" "kato (v_smi (set_br s v)) = kato (v_smi v)"
  "resp_ok (v_smi (set_br s v)) = resp_ok (v_smi v)" "v_resp_vsi_mode (set_br s v) = v_resp_vsi_mode v"
  "v_cc_vsi_mode (set_br s v) = v_cc_vsi_mode v" "v_vsi_mode (set_br s v) = v_vsi_mode v"
  "v_status (set_br s v) = v_status v" "v_ptr (set_br s v) = v_ptr v" "vsi_wire_ok (set_br s v) = vsi_wire_ok v"
  "vdp22_message (set_br s v) x = vdp22_message v x" "v_flags (set_br s v) = v_flags v"
  by (simp_all add: set_br_def vsi_wire_ok_def vdp22_message_def mgr22_2tlv_def vsi22_2tlv_def no_fdata_def)

text \<open>The answer is out and the keep alive timer runs.\<close>

definition br_waiting :: "vsi22 \<Rightarrow> vsi22" where
  "br_waiting v = set_br VDP22_BR_WAITCMD (v_smi_update (\<lambda>s. s\<lparr>localchg := False, kato := False\<rparr>)
     (v\<lparr>v_flags := v_flags v - {VDP22_BUSY}\<rparr>))"

definition br_answer :: "vdp22 \<Rightarrow> vsi22 \<Rightarrow> vdp22_event list" where
  "br_answer d v = [To_Ecp (vdp_ifname d) (vdp22_message v (v_status v)),
     start_timer vdp22br_kato v (vdp22_timeout d (vdp_rka d))]"

lemma br_reply_wait:
  assumes "smi_st (v_smi v) = Br s" "vdp22br_action d v = bindR (vdp22br_reply d v') (\<lambda>(v1, xs). Inr (Some v1, xs))"
    and "v' = v\<lparr>v_status := st\<rparr>" "s \<in> {VDP22_BR_SEND, VDP22_BR_KEEP, VDP22_BR_ALIVE}" "vsi_wire_ok v"
  shows "vdp22br_loop d v evs = Inr (br_waiting v', evs @ br_answer d v')"
proof -
  let ?r = "v_smi_update (\<lambda>s. s\<lparr>localchg := False\<rparr>) (v'\<lparr>v_flags := v_flags v' - {VDP22_BUSY}\<rparr>)"
  let ?w = "set_br VDP22_BR_WAITCMD ?r"
  have ok: "vsi_wire_ok v'" using assms(3,5) by (simp add: vsi_wire_ok_def)
  have act: "vdp22br_action d v = Inr (Some ?r, [To_Ecp (vdp_ifname d) (vdp22_message v' (v_status v'))])"
    by (simp add: assms(2) vdp22br_reply_def vdp22br_payload_ok [OF ok])
  have "smi_st (v_smi ?r) = Br s" using assms(1,3) by simp
  then have "vdp22br_move_state ?r = Inr (True, ?w)"
    using assms(4) by (elim insertE) (simp_all add: br_move_simps)
  from br_loop_step [OF act this]
  have 1: "vdp22br_loop d v evs = vdp22br_loop d ?w (evs @ [To_Ecp (vdp_ifname d) (vdp22_message v' (v_status v'))])" .
  have act2: "vdp22br_action d ?w = Inr (Some (br_waiting v'), [start_timer vdp22br_kato v' (vdp22_timeout d (vdp_rka d))])"
    by (simp add: vdp22br_action_def vdp22br_start_katimer_def br_waiting_def start_timer_def set_br_def)
  have "vdp22br_move_state (br_waiting v') = Inr (False, br_waiting v')"
    by (simp add: br_waiting_def vdp22br_move_state_def)
  from br_loop_stop [OF act2 this] show ?thesis by (simp add: 1 br_answer_def)
qed

definition br_accept :: "vsi22 \<Rightarrow> vsi22" where
  "br_accept v = v_smi_update (\<lambda>s. s\<lparr>resp_ok := True\<rparr>) (v\<lparr>v_status := VDP22_ACKBIT, v_resp_vsi_mode := VDP22_RESP_SUCCESS\<rparr>)"

definition br_restimer :: "vdp22 \<Rightarrow> vsi22 \<Rightarrow> vdp22_event list" where
  "br_restimer d v = [start_timer vdp22br_resto v (scast (delay (vdp_rwd d))), Stop_Timer vdp22br_resto (v_ptr v)]"

lemma br_process_accepts: "v_vsi_mode v \<noteq> VDP22_DEASSOC \<Longrightarrow> vdp22br_process d v = (br_accept v, br_restimer d v)"
  by (simp add: vdp22br_process_def vdp22br_start_restimer_def vdp22br_resources_def vdp22br_stop_restimer_def br_accept_def
    br_restimer_def make_status_def Let_def)

lemma br_accept_simps [simp]:
  "smi_st (v_smi (br_accept v)) = smi_st (v_smi v)" "vsi_wire_ok (br_accept v) = vsi_wire_ok v" "v_status (br_accept v) = VDP22_ACKBIT"
  "vdp22_message (br_accept v) x = vdp22_message v x" "br_accept (set_br s v) = set_br s (br_accept v)"
  "v_ptr (br_accept v) = v_ptr v"
  by (simp_all add: br_accept_def set_br_def vsi_wire_ok_def vdp22_message_def mgr22_2tlv_def vsi22_2tlv_def no_fdata_def)

lemma br_set_br_simps [simp]:
  "br_waiting (set_br s v) = br_waiting v" "br_answer d (set_br s v) = br_answer d v" "br_restimer d (set_br s v) = br_restimer d v"
  by (simp_all add: br_waiting_def br_answer_def br_restimer_def start_timer_def)
    (simp add: set_br_def)

lemma br_loop_process:
  assumes "smi_st (v_smi v) = Br VDP22_BR_PROCESS" "v_vsi_mode v \<noteq> VDP22_DEASSOC" "vsi_wire_ok v"
  shows "vdp22br_loop d v evs = Inr (br_waiting (br_accept v), evs @ br_restimer d v @ br_answer d (br_accept v))"
proof -
  let ?s = "set_br VDP22_BR_SEND (br_accept v)"
  have "vdp22br_loop d v evs = vdp22br_loop d ?s (evs @ br_restimer d v)"
    by (rule br_loop_step [of d v "br_accept v" "br_restimer d v"])
      (simp_all add: assms vdp22br_action_def br_process_accepts br_move_simps, simp_all add: br_accept_def)
  also have "\<dots> = Inr (br_waiting ?s, (evs @ br_restimer d v) @ br_answer d ?s)"
    using assms(3) by (intro br_reply_wait [of _ VDP22_BR_SEND _ _ VDP22_ACKBIT]) (simp_all add: vdp22br_action_def br_accept_def set_br_def vsi_wire_ok_def)
  finally show ?thesis by simp
qed

lemma br_run_move: "vdp22br_move_state v = Inr (b, v1) \<Longrightarrow> vdp22br_run d v = vdp22br_loop d v1 []"
  by (simp add: vdp22br_run_def)

lemma br_init_simps [simp]:
  "vsi_wire_ok (vdp22br_init v) = vsi_wire_ok v" "v_vsi_mode (vdp22br_init v) = v_vsi_mode v"
  "vdp22_message (vdp22br_init v) x = vdp22_message v x" "v_ptr (vdp22br_init v) = v_ptr v"
  by (simp_all add: vdp22br_init_def vsi_wire_ok_def vdp22_message_def mgr22_2tlv_def vsi22_2tlv_def no_fdata_def)

lemma br_run_begin:
  assumes "smi_st (v_smi v) = Br VDP22_BR_BEGIN" "v_vsi_mode v \<noteq> VDP22_DEASSOC" "vsi_wire_ok v"
  shows "vdp22br_run d v = Inr (br_waiting (br_accept (vdp22br_init v)), br_restimer d v @ br_answer d (br_accept v))"
proof -
  let ?i = "set_br VDP22_BR_INIT v" and ?p = "set_br VDP22_BR_PROCESS (vdp22br_init v)"
  have i: "vdp22br_init (set_br s v) = set_br s (vdp22br_init v)" for s
    by (simp add: vdp22br_init_def set_br_def)
  have "vdp22br_move_state v = Inr (True, ?i)" by (simp add: assms br_move_simps)
  from br_run_move [OF this] have "vdp22br_run d v = vdp22br_loop d ?i []" .
  also have "\<dots> = vdp22br_loop d ?p ([] @ [])"
    by (rule br_loop_step [of d ?i "set_br VDP22_BR_INIT (vdp22br_init v)"]) (simp_all add: vdp22br_action_def i br_move_simps)
  also have "\<dots> = Inr (br_waiting (br_accept ?p), ([] @ []) @ br_restimer d ?p @ br_answer d (br_accept ?p))"
    using assms(2,3) by (intro br_loop_process) simp_all
  finally show ?thesis
    by (simp add: br_restimer_def br_answer_def start_timer_def)
qed

text \<open>A further request in the mode the bridge has confirmed is a keep alive, any other is processed.\<close>

lemma br_run_request:
  assumes "smi_st (v_smi v) = Br VDP22_BR_WAITCMD" "localchg (v_smi v)" "vsi_wire_ok v"
  shows "v_cc_vsi_mode v = v_vsi_mode v \<Longrightarrow>
      vdp22br_run d v = Inr (br_waiting (v\<lparr>v_status := VDP22_ACKBIT\<rparr>), br_answer d (v\<lparr>v_status := VDP22_ACKBIT\<rparr>))"
    and "v_cc_vsi_mode v \<noteq> v_vsi_mode v \<Longrightarrow> v_vsi_mode v \<noteq> VDP22_DEASSOC \<Longrightarrow>
      vdp22br_run d v = Inr (br_waiting (br_accept v), br_restimer d v @ br_answer d (br_accept v))"
proof -
  let ?w = "set_br VDP22_BR_WAITCMD_2 v"
  have "vdp22br_move_state v = Inr (True, ?w)" using assms by (simp add: br_move_simps)
  from br_run_move [OF this] have run: "vdp22br_run d v = vdp22br_loop d ?w []" .
  have act: "vdp22br_action d ?w = Inr (Some ?w, [])" by (simp add: vdp22br_action_def)
  {
    assume "v_cc_vsi_mode v = v_vsi_mode v"
    then have "vdp22br_move_state ?w = Inr (True, set_br VDP22_BR_ALIVE v)" by (simp add: br_move_simps)
    from br_loop_step [OF act this, of "[]"] have "vdp22br_run d v = vdp22br_loop d (set_br VDP22_BR_ALIVE v) []" by (simp add: run)
    also have "\<dots> = Inr (br_waiting ((set_br VDP22_BR_ALIVE v)\<lparr>v_status := VDP22_ACKBIT\<rparr>),
        [] @ br_answer d ((set_br VDP22_BR_ALIVE v)\<lparr>v_status := VDP22_ACKBIT\<rparr>))"
      using assms(3) by (intro br_reply_wait [of _ VDP22_BR_ALIVE _ _ VDP22_ACKBIT]) (simp_all add: vdp22br_action_def vdp22br_sendack_def)
    also have "(set_br VDP22_BR_ALIVE v)\<lparr>v_status := VDP22_ACKBIT\<rparr> = set_br VDP22_BR_ALIVE (v\<lparr>v_status := VDP22_ACKBIT\<rparr>)"
      by (simp add: set_br_def)
    finally show "vdp22br_run d v = Inr (br_waiting (v\<lparr>v_status := VDP22_ACKBIT\<rparr>), br_answer d (v\<lparr>v_status := VDP22_ACKBIT\<rparr>))" by simp
  next
    assume "v_cc_vsi_mode v \<noteq> v_vsi_mode v" and m: "v_vsi_mode v \<noteq> VDP22_DEASSOC"
    then have "vdp22br_move_state ?w = Inr (True, set_br VDP22_BR_PROCESS v)" by (simp add: br_move_simps)
    from br_loop_step [OF act this, of "[]"] have "vdp22br_run d v = vdp22br_loop d (set_br VDP22_BR_PROCESS v) []" by (simp add: run)
    with m assms(3) show "vdp22br_run d v = Inr (br_waiting (br_accept v), br_restimer d v @ br_answer d (br_accept v))"
      by (simp add: br_loop_process)
  }
qed

text \<open>The keep alive timer ends the VSI: it is freed and the loop reads its state once more.\<close>

lemma br_kato_faults:
  assumes "smi_st (v_smi v) = Br VDP22_BR_WAITCMD" "\<not> localchg (v_smi v)" "vsi_wire_ok v"
  shows "vdp22br_handle_kato d v = Inl Use_After_Free"
proof -
  let ?v = "v_smi_update (\<lambda>s. s\<lparr>kato := True\<rparr>) v"
  let ?a = "set_br VDP22_BR_DEASSOCIATED ?v"
  have "vdp22br_move_state ?v = Inr (True, ?a)" using assms by (simp add: br_move_simps)
  from br_run_move [OF this] have run: "vdp22br_handle_kato d v = vdp22br_loop d ?a []" by (simp add: vdp22br_handle_kato_def)
  have ok: "vsi_wire_ok (?a\<lparr>v_vsi_mode := VDP22_DEASSOC, v_status := 0\<rparr>)"
    using assms(3) by (simp add: vsi_wire_ok_def set_br_def)
  then obtain v1 xs where act: "vdp22br_action d ?a = Inr (Some v1, xs)" and st: "smi_st (v_smi v1) = Br VDP22_BR_DEASSOCIATED"
    by (simp add: vdp22br_action_def vdp22br_deassoc_def vdp22br_sendack_def vdp22br_reply_def vdp22br_payload_ok)
  have "vdp22br_move_state v1 = Inr (True, set_br VDP22_BR_END v1)" by (simp add: br_move_simps st)
  from br_loop_step [OF act this] show ?thesis by (simp add: run br_loop_end)
qed

end
