(* ===== verification/Vdp22_Module.thy ===== *)
theory Vdp22_Module
  imports Vdp22_If
begin

text \<open>
  The VDP module, \<open>src/qbg/vdp22.c\<close>: the list of interfaces, requests and status queries of clients,
  the notifications of EVB and ECP, start and stop, and the expiry of timers.  The pending timers of
  VSIs are pairs of a handler and the address it is called with; \<open>vw_inputs\<close> are the interfaces whose
  received message waits to be processed.
\<close>

record vdp22_world =
  vdp22_head :: "vdp22 list"
  vw_timers :: "(vdp22_timer \<times> nat) list"
  vw_inputs :: "string list"
  vw_next :: nat
  vw_out :: "vdp22_event list"

abbreviation (input) EPROTONOSUPPORT :: int where "EPROTONOSUPPORT \<equiv> 93"
abbreviation (input) EOPNOTSUPP :: int where "EOPNOTSUPP \<equiv> 95"
abbreviation (input) sizeof_vdp22 :: nat where "sizeof_vdp22 \<equiv> 1560"
abbreviation (input) sizeof_vdpnl_mac :: nat where "sizeof_vdpnl_mac \<equiv> 24"
abbreviation (input) sizeof_vdpnl_oui_data :: nat where "sizeof_vdpnl_oui_data \<equiv> 228"

text \<open>\<open>eloop_register_timeout\<close> adds an entry, \<open>eloop_cancel_timeout\<close> removes all that match.\<close>

definition emit1 :: "vdp22_event \<Rightarrow> vdp22_world \<Rightarrow> vdp22_world" where
  "emit1 ev w = (case ev of
       Start_Timer h p _ _ \<Rightarrow> w\<lparr>vw_timers := vw_timers w @ [(h, p)]\<rparr>
     | Stop_Timer h p \<Rightarrow> w\<lparr>vw_timers := removeAll (h, p) (vw_timers w)\<rparr>
     | _ \<Rightarrow> w\<lparr>vw_out := vw_out w @ [ev]\<rparr>)"

definition emit :: "vdp22_event list \<Rightarrow> vdp22_world \<Rightarrow> vdp22_world" where
  "emit evs w = fold emit1 evs w"

definition put_if :: "nat \<Rightarrow> vdp22 \<Rightarrow> vdp22_world \<Rightarrow> vdp22_world" where
  "put_if i d w = w\<lparr>vdp22_head := (vdp22_head w)[i := d]\<rparr>"

definition vdp22_findif :: "string \<Rightarrow> vdp22_world \<Rightarrow> nat option" where
  "vdp22_findif name w = find_index (\<lambda>d. strn_eq IFNAMSIZ name (vdp_ifname d)) (vdp22_head w)"

subsection \<open>Notifications\<close>

definition data_from_ecp :: "string \<Rightarrow> u16 \<Rightarrow> bytes \<Rightarrow> vdp22_world \<Rightarrow> (int \<times> vdp22_world) res" where
  "data_from_ecp name len data w = (case vdp22_findif name w of
       None \<Rightarrow> Inr (- ENOENT, w)
     | Some i \<Rightarrow>
         bindR (read_bytes data 0 (unat len)) (\<lambda>bs.
         bindR (write_bytes (vdp_input (vdp22_head w ! i)) 0 bs) (\<lambda>inp.
           Inr (0, (put_if i ((vdp22_head w ! i)\<lparr>vdp_input := inp, vdp_input_len := len\<rparr>) w)
                     \<lparr>vw_inputs := vw_inputs w @ [vdp_ifname (vdp22_head w ! i)]\<rparr>))))"

definition data_from_evb :: "string \<Rightarrow> u8 \<Rightarrow> u8 \<Rightarrow> u8 \<Rightarrow> u8 \<Rightarrow> bool \<Rightarrow> bool \<Rightarrow> vdp22_world \<Rightarrow> int \<times> vdp22_world" where
  "data_from_evb name rka rwd rte retry gpid evb w = (case vdp22_findif name w of
       None \<Rightarrow> (- ENOENT, w)
     | Some i \<Rightarrow> (0, put_if i ((vdp22_head w ! i)\<lparr>vdp_ecp_retries := retry, vdp_ecp_rte := rte, vdp_rka := rka,
         vdp_rwd := rwd, vdp_gpid_on := gpid, vdp_evb_on := evb\<rparr>) w))"

definition vdp22_notify :: "int \<Rightarrow> string \<Rightarrow> qbg22_imm \<Rightarrow> vdp22_world \<Rightarrow> (int \<times> vdp22_world) res" where
  "vdp22_notify sender_id name qbg w = (case qbg of
       EVB22_TO_VDP22 rka rwd rte retry gpid evb \<Rightarrow>
         if sender_id = LLDP_MOD_EVB22 then Inr (data_from_evb name rka rwd rte retry gpid evb w) else Inr (0, w)
     | ECP22_TO_ULP len data \<Rightarrow> if sender_id = LLDP_MOD_ECP22 then data_from_ecp name len data w else Inr (0, w)
     | _ \<Rightarrow> Inr (0, w))"

subsection \<open>Start, stop and removal\<close>

definition vdp22_stop :: "string \<Rightarrow> vdp22_world \<Rightarrow> vdp22_world" where
  "vdp22_stop name w = (case vdp22_findif name w of
       None \<Rightarrow> w | Some i \<Rightarrow> emit (concat (map vdp22_stop_timers (vsi22_que (vdp22_head w ! i)))) w)"

definition vdp22_create :: "vdp22_env \<Rightarrow> string \<Rightarrow> vdp22_role \<Rightarrow> vdp22_world \<Rightarrow> vdp22_world" where
  "vdp22_create en name role w =
     (if \<not> ve_malloc_ok en sizeof_vdp22 then w
      else w\<lparr>vdp22_head := \<lparr>vdp_ifname = take 17 name, vdp_ecp_retries = 0, vdp_ecp_rte = 0, vdp_rwd = 0, vdp_rka = 0,
         vdp_gpid_on = False, vdp_myrole = role, vdp_evb_on = False, vdp_br_down = False, vdp_input_len = 0,
         vdp_input = replicate ETH_DATA_LEN 0, vsi22_que = []\<rparr> # vdp22_head w\<rparr>)"

definition vdp22_start :: "vdp22_env \<Rightarrow> string \<Rightarrow> vdp22_role \<Rightarrow> vdp22_world \<Rightarrow> vdp22_world" where
  "vdp22_start en name role w = (case vdp22_findif name w of
       None \<Rightarrow> vdp22_create en name role w
     | Some i \<Rightarrow>
         let d = vdp22_head w ! i in
         emit (concat (map vdp22_start_localchange_timer (vsi22_que d)))
           (put_if i (d\<lparr>vsi22_que := map (v_smi_update (\<lambda>s. s\<lparr>localchg := True\<rparr>)) (vsi22_que d)\<rparr>) w))"

definition vdp22_free_data :: "vdp22_world \<Rightarrow> vdp22_world" where
  "vdp22_free_data w = w\<lparr>vdp22_head := []\<rparr>"

definition vdp22_register :: "vdp22_env \<Rightarrow> vdp22_world option" where
  "vdp22_register en =
     (if ve_malloc_ok en 40 \<and> ve_malloc_ok en 8
      then Some \<lparr>vdp22_head = [], vw_timers = [], vw_inputs = [], vw_next = 1, vw_out = []\<rparr> else None)"

definition vdp22_query :: "string \<Rightarrow> vdp22_world \<Rightarrow> int" where
  "vdp22_query name w = (if vdp22_findif name w = None then 0 else 1)"

definition vdp22_info :: "string \<Rightarrow> vdp22_world \<Rightarrow> int" where
  "vdp22_info name w = (case vdp22_findif name w of
       None \<Rightarrow> - ENODEV | Some i \<Rightarrow> if vdp_myrole (vdp22_head w ! i) = VDP22_BRIDGE then - EOPNOTSUPP else 0)"

subsection \<open>Requests\<close>

definition check_vsinl :: "vdpnl_vsi \<Rightarrow> bool" where
  "check_vsinl vsi \<longleftrightarrow> check_vsiid (nl_vsi_idfmt vsi) (nl_vsi_uuid vsi) \<and> check_vsirequest (nl_request vsi)
     \<and> check_filterfmt (nl_filter_fmt vsi)"

definition copy_filter :: "u8 \<Rightarrow> vdpnl_mac \<Rightarrow> fid22" where
  "copy_filter fif from = \<lparr>
     fid_grpid = (if fif \<in> {VDP22_FFMT_GROUPMACVID, VDP22_FFMT_GROUPVID} then nm_gpid from else 0),
     fid_mac = (if fif \<in> {VDP22_FFMT_GROUPMACVID, VDP22_FFMT_MACVID} then nm_mac from else replicate 6 0),
     fid_vlan = (if check_filterfmt fif then vdp22_set_vlanid (nm_vlan from) OR vdp22_set_qos (ucast (nm_qos from)) else 0),
     fid_req_pid = 0, fid_req_seq = 0\<rparr>"

text \<open>
  An OUI without a handler leaves its entry cleared.  The allocation of the array is assumed to
  succeed.
\<close>

definition vdpnl_alloc_vsi_oui :: "vdp22_env \<Rightarrow> vdpnl_vsi \<Rightarrow> vdp22_oui_data list" where
  "vdpnl_alloc_vsi_oui en vsi = map (\<lambda>from. case vdp22_get_oui_hndlr en (oui_name from) of
     None \<Rightarrow> \<lparr>oui_name = [], oui_data = []\<rparr> | Some h \<Rightarrow> vdpnl2vsi22_hndlr h from) (nl_oui_list vsi)"

text \<open>Entries behind the 16 bit count are checked and never used again.\<close>

definition vdp22_alloc_vsi_int :: "vdp22_env \<Rightarrow> vdpnl_vsi \<Rightarrow> vdp22 \<Rightarrow> nat \<Rightarrow> bool \<Rightarrow> int \<times> vsi22 option" where
  "vdp22_alloc_vsi_int en vsi d nxt vsinl_chk =
     (let macs = nl_maclist vsi; fif = nl_filter_fmt vsi;
          fs = map (\<lambda>m. (copy_filter fif m)\<lparr>fid_req_pid := nl_req_pid vsi, fid_req_seq := nl_req_seq vsi\<rparr>) macs
      in if vsinl_chk \<and> \<not> check_vsinl vsi then (- EINVAL, None)
         else if \<not> ve_malloc_ok en sizeof_vsi22 \<or> \<not> ve_malloc_ok en (length macs * sizeof_fid22) then (- ENOMEM, None)
         else if \<exists>m \<in> set macs. nm_vlan m = 0 \<and> 1 < length macs \<and> fif = VDP22_FFMT_VID
              \<or> \<not> filter_ok fif (copy_filter fif m) (vdp_gpid_on d) then (- EINVAL, None)
         else (0, Some \<lparr>v_ptr = nxt,
           v_mgrid = (if nl_version2 vsi then nl_vsi_mgrid2 vsi else nl_vsi_mgrid vsi # replicate 15 0),
           v_cc_vsi_mode = VDP22_DEASSOC, v_vsi_mode = nl_request vsi, v_resp_vsi_mode = 0,
           v_status = VDP22_RESP_NONE, v_hints = nl_hints vsi, v_type_id = nl_vsi_typeid vsi,
           v_type_ver = nl_vsi_typeversion vsi, v_vsi_fmt = VDP22_ID_UUID, v_vsi = nl_vsi_uuid vsi, v_fif = fif,
           v_fdata = take (unat (of_nat (length macs) :: u16)) fs, v_oui = vdpnl_alloc_vsi_oui en vsi,
           v_flags = {VDP22_BUSY, VDP22_NLCMD} \<union> (if \<exists>m \<in> set macs. nm_vlan m = 0 then {VDP22_RETURN_VID} else {}),
           v_smi = zero_smi\<rparr>))"

definition vdp22_request :: "vdp22_env \<Rightarrow> vdpnl_vsi \<Rightarrow> bool \<Rightarrow> vdp22_world \<Rightarrow> (int \<times> vdp22_world) res" where
  "vdp22_request en vsi clif w = (case vdp22_findif (nl_ifname vsi) w of
       None \<Rightarrow> Inr (- ENODEV, w)
     | Some i \<Rightarrow>
         let d = vdp22_head w ! i in
         if \<not> vdp_evb_on d then Inr (- EPROTONOSUPPORT, w)
         else if vdp_myrole d = VDP22_BRIDGE then Inr (- EOPNOTSUPP, w)
         else (case vdp22_alloc_vsi_int en (if clif then vsi else vsi\<lparr>nl_request := nl_request vsi + 1\<rparr>) d (vw_next w) True of
             (rc, None) \<Rightarrow> Inr (rc, w)
           | (rc, Some p) \<Rightarrow> bindR (vdp22_addreq en p d) (\<lambda>(rc1, modf, d1, evs).
               Inr (rc1, emit evs ((put_if i d1 w)\<lparr>vw_next := Suc (vw_next w)\<rparr>)))))"

subsection \<open>Status queries\<close>

definition copy_fid1 :: "fid22 \<Rightarrow> vdpnl_mac" where
  "copy_fid1 f = \<lparr>nm_vlan = vdp22_get_vlanid (fid_vlan f), nm_mac = fid_mac f,
     nm_qos = ucast (vdp22_get_qos (fid_vlan f)), nm_changed = True, nm_gpid = fid_grpid f\<rparr>"

text \<open>An array that cannot be allocated is a null pointer, here the empty list; the rest is left as it was.\<close>

definition copy_fid :: "vdp22_env \<Rightarrow> vdpnl_vsi \<Rightarrow> vsi22 \<Rightarrow> vdpnl_vsi" where
  "copy_fid en vsi p =
     (if ve_malloc_ok en (length (v_fdata p) * sizeof_vdpnl_mac)
      then vsi\<lparr>nl_maclist := map copy_fid1 (v_fdata p), nl_filter_fmt := v_fif p\<rparr>
      else vsi\<lparr>nl_maclist := []\<rparr>)"

definition copy_oui :: "vdp22_env \<Rightarrow> vdpnl_vsi \<Rightarrow> vsi22 \<Rightarrow> vdpnl_vsi" where
  "copy_oui en vsi p =
     (if ve_malloc_ok en (length (v_oui p) * sizeof_vdpnl_oui_data)
      then vsi\<lparr>nl_oui_list := map (\<lambda>from. case vdp22_get_oui_hndlr en (oui_name from) of
        None \<Rightarrow> \<lparr>oui_name = [], oui_data = []\<rparr> | Some h \<Rightarrow> vsi2vdpnl_hndlr h from) (v_oui p)\<rparr>
      else vsi\<lparr>nl_oui_list := []\<rparr>)"

definition copy_vsi :: "vdp22_env \<Rightarrow> vdpnl_vsi \<Rightarrow> vsi22 \<Rightarrow> bool \<Rightarrow> vdpnl_vsi \<times> vsi22" where
  "copy_vsi en vsi p clif =
     (let vsi1 = vsi\<lparr>nl_response := ucast (v_status p), nl_vsi_uuid := v_vsi p, nl_request := v_vsi_mode p,
            nl_vsi_typeid := v_type_id p, nl_vsi_typeversion := v_type_ver p, nl_vsi_mgrid2 := v_mgrid p,
            nl_vsi_idfmt := v_vsi_fmt p, nl_hints := v_cc_vsi_mode p\<rparr>;
          p1 = p\<lparr>v_flags := v_flags p - {VDP22_NLCMD}\<rparr>
      in if clif \<or> VDP22_RETURN_VID \<in> v_flags p1
         then (copy_oui en (copy_fid en vsi1 p1) p1, p1\<lparr>v_flags := v_flags p1 - {VDP22_RETURN_VID}\<rparr>)
         else (vsi1, p1))"

definition vdp22_status :: "vdp22_env \<Rightarrow> nat \<Rightarrow> vdpnl_vsi \<Rightarrow> bool \<Rightarrow> vdp22_world \<Rightarrow> int \<times> vdpnl_vsi \<times> vdp22_world" where
  "vdp22_status en number vsi clif w = (case vdp22_findif (nl_ifname vsi) w of
       None \<Rightarrow> (- ENODEV, vsi, w)
     | Some i \<Rightarrow>
         let d = vdp22_head w ! i in
         if number = 0 \<or> number > length (vsi22_que d) then (0, vsi, w)
         else let p = vsi22_que d ! (number - 1); (vsi1, p1) = copy_vsi en vsi p clif in
              (1, vsi1, put_if i (put_vsi (v_ptr p)
                 (if nl_response vsi1 \<noteq> ucast VDP22_RESP_NONE \<and> VDP22_DELETE_ME \<in> v_flags p1 then None else Some p1) d) w))"

subsection \<open>Timers\<close>

definition vdp22_fire :: "vdp22_env \<Rightarrow> vdp22 \<Rightarrow> vdp22_timer \<Rightarrow> vsi22 \<Rightarrow> (vsi22 option \<times> vdp22_event list) res" where
  "vdp22_fire en d h v =
     (let live = (\<lambda>r. bindR r (\<lambda>(v1, evs). Inr (Some v1, evs)))
      in case h of
       vdp22st_kato \<Rightarrow> vdp22st_handle_kato en d v
     | vdp22st_ackto \<Rightarrow> vdp22st_handle_ackto en d v
     | vdp22_localchange \<Rightarrow> vdp22_localchange_handler en d v
     | vdp22br_kato \<Rightarrow> live (vdp22br_handle_kato d v)
     | vdp22br_resto \<Rightarrow> live (vdp22br_handle_resto d v))"

text \<open>The entry leaves the list before its handler is called with the address stored in it.\<close>

definition vdp22_timer_expires :: "vdp22_env \<Rightarrow> vdp22_timer \<Rightarrow> nat \<Rightarrow> vdp22_world \<Rightarrow> vdp22_world res" where
  "vdp22_timer_expires en h p w =
     (let w1 = w\<lparr>vw_timers := remove1 (h, p) (vw_timers w)\<rparr> in
      case find_index (\<lambda>d. \<exists>v \<in> set (vsi22_que d). v_ptr v = p) (vdp22_head w) of
        None \<Rightarrow> Inl Use_After_Free
      | Some i \<Rightarrow> let d = vdp22_head w ! i in
          bindR (derefR (List.find (\<lambda>v. v_ptr v = p) (vsi22_que d))) (\<lambda>v.
          bindR (vdp22_fire en d h v) (\<lambda>(m, evs). Inr (emit evs (put_if i (put_vsi p m d) w1)))))"

definition vdp22_input_expires :: "vdp22_env \<Rightarrow> string \<Rightarrow> vdp22_world \<Rightarrow> vdp22_world res" where
  "vdp22_input_expires en name w =
     (let w1 = w\<lparr>vw_inputs := remove1 name (vw_inputs w)\<rparr> in
      case find_index (\<lambda>d. vdp_ifname d = name) (vdp22_head w) of
        None \<Rightarrow> Inl Use_After_Free
      | Some i \<Rightarrow> bindR (vdp22_ecp22in en (vdp22_head w ! i) (vw_next w)) (\<lambda>(d1, n1, evs).
          Inr (emit evs ((put_if i d1 w1)\<lparr>vw_next := n1\<rparr>))))"

end
