(* ===== verification/Vdp22_Link.thy ===== *)
theory Vdp22_Link
  imports Vdp22_Station Vdp22_Bridge Vdp22_Module
begin

text \<open>
  A station and a bridge together: a request of a client travels to the bridge and its answer back.
\<close>

subsection \<open>The request leaves the station\<close>

lemma message_cong:
  "v_mgrid a = v_mgrid b \<Longrightarrow> v_vsi_mode a = v_vsi_mode b \<Longrightarrow> v_type_id a = v_type_id b \<Longrightarrow> v_type_ver a = v_type_ver b \<Longrightarrow>
   v_vsi_fmt a = v_vsi_fmt b \<Longrightarrow> v_vsi a = v_vsi b \<Longrightarrow> v_fif a = v_fif b \<Longrightarrow>
   map (vsi22_2tlv_fdata (v_fif b)) (v_fdata a) = map (vsi22_2tlv_fdata (v_fif b)) (v_fdata b) \<Longrightarrow>
   vdp22_message a x = vdp22_message b x"
  using map_eq_imp_length_eq [of "vsi22_2tlv_fdata (v_fif b)" "v_fdata a" "vsi22_2tlv_fdata (v_fif b)" "v_fdata b"]
  by (simp add: vdp22_message_def mgr22_2tlv_def vsi22_2tlv_def no_fdata_def)

definition st_sent :: "vsi22 \<Rightarrow> vdp22_states \<Rightarrow> vsi22" where
  "st_sent v w = set_st w (v_smi_update (\<lambda>s. s\<lparr>smi_txmit := True, txmit_error := 0, ackreceived := False,
     acktimeout := False, resp_ok := False, localchg := False\<rparr>) v)"

definition st_sends :: "vdp22 \<Rightarrow> vsi22 \<Rightarrow> vdp22_event list" where
  "st_sends d v = [To_Ecp (vdp_ifname d) (vdp22_message v (v_hints v)), Stop_Timer vdp22st_kato (v_ptr v),
     start_timer vdp22st_ackto v (vdp22_timeout d (vdp_rwd d))]"

lemma send_accepted:
  assumes "vsi_wire_ok v" "v_oui v = []" "ve_to_ecp22 en (vdp_ifname d) (vdp22_message v (v_hints v)) = 0"
  shows "st_send en d v s w = Inr (Some (st_sent v w), st_sends d v)"
proof -
  have p: "vdp22st_payload en (set_st s v) = Inr (vdp22_message v (v_hints v))"
    using vdp22st_payload_ok [of "set_st s v" en] assms(1,2) message_cong [of "set_st s v" v]
    by (simp add: set_st_def vsi_wire_ok_def)
  show ?thesis
    unfolding st_send_def vdp22st_process_def p bindR_Inr Let_def assms(3)
    by (simp add: vdp22st_start_acktimer_def vdp22st_stop_katimer_def st_sent_def st_sends_def start_timer_def)
      (simp add: set_st_def comp_def)
qed

lemma addreq_new:
  assumes "vsi_wire_ok v" "v_oui v = []" "v_vsi_mode v < VDP22_DEASSOC" "vdp22_findvsi d v = None"
    and "ve_to_ecp22 en (vdp_ifname d) (vdp22_message v (v_hints v)) = 0"
  shows "vdp22_addreq en v d = Inr (0, False,
    d\<lparr>vsi22_que := st_sent (v\<lparr>v_status := VDP22_RESP_NONE\<rparr>) VDP22_STATION_PROCWAIT # vsi22_que d\<rparr>, st_sends d v)"
proof -
  let ?b = "v_smi_update (\<lambda>s. s\<lparr>smi_st := St VDP22_BEGIN\<rparr>) v"
  let ?n = "?b\<lparr>v_status := VDP22_RESP_NONE\<rparr>"
  have m: "vdp22_message ?n x = vdp22_message v x" for x by (rule message_cong) simp_all
  have ok: "vsi_wire_ok ?n" using assms(1) by (simp add: vsi_wire_ok_def)
  have "vdp22st_run en (d\<lparr>vsi22_que := ?b # vsi22_que d\<rparr>) ?b
      = Inr (Some (st_sent ?n VDP22_STATION_PROCWAIT), st_sends d ?n)"
    using send_accepted [OF ok, of en "d\<lparr>vsi22_que := ?b # vsi22_que d\<rparr>" VDP22_STATION_PROC VDP22_STATION_PROCWAIT] assms
    by (simp add: vdp22st_run_eq st_resting_def st_spec_def m st_sends_def vdp22_timeout_def)
  moreover have "st_sent ?n w = st_sent (v\<lparr>v_status := VDP22_RESP_NONE\<rparr>) w" for w
    by (simp add: st_sent_def set_st_def)
  moreover have "st_sends d ?n = st_sends d v" by (simp add: st_sends_def m start_timer_def)
  moreover have "v_vsi_mode v \<noteq> VDP22_DEASSOC" "\<not> v_vsi_mode v > VDP22_DEASSOC" "\<not> v_vsi_mode v < VDP22_PREASSOC"
    using assms(1,3) by (auto simp: vsi_wire_ok_def word_less_nat_alt word_le_nat_alt)
  ultimately show ?thesis
    using assms(4) by (simp add: vdp22_addreq_def vdp22_addvsi_def Let_def put_vsi_def)
qed

subsection \<open>The bridge answers\<close>

lemma append_4o_wire: "append_4o (scast (ucast x :: u32)) = append_4o x"
proof -
  have "(ucast (drop_bit k (scast (ucast x :: u32) :: u64)) :: u8) = ucast (drop_bit k x)" if "k \<le> 24" for k
  proof (rule bit_word_eqI)
    fix n :: nat
    assume "n < LENGTH(8)"
    with that have "k + n < 32" "n < 8" by simp_all
    then consider "k + n < 31" "n < 8" | "k + n = 31" "n < 8" by linarith
    then show "bit (ucast (drop_bit k (scast (ucast x :: u32) :: u64)) :: u8) n = bit (ucast (drop_bit k x) :: u8) n"
      by cases (auto simp: bit_simps min_def)
  qed
  from this [of 0] this [of 8] this [of 16] this [of 24] show ?thesis by (simp add: append_4o_def)
qed

lemma wire_fid_bytes: "vsi22_2tlv_fdata fif (wire_fid fif f) = vsi22_2tlv_fdata fif f"
  by (simp add: vsi22_2tlv_fdata_def wire_fid_def append_4o_wire)

lemma wire_message: "vdp22_message (wire_vsi v st) x = vdp22_message v x"
  by (rule message_cong) (simp_all add: wire_vsi_def wire_fid_bytes)

lemma wire_vsi_ok: "vsi_wire_ok v \<Longrightarrow> vsi_wire_ok (wire_vsi v st)"
  by (auto simp: vsi_wire_ok_def wire_vsi_def wire_fid_def)

lemma wire_vsi_equal: "vdp22_vsi_equal (wire_vsi v st) v"
  by (simp add: vdp22_vsi_equal_def wire_vsi_def)

text \<open>The bridge has the VSI, waits for the next request, and its keep alive timer runs.\<close>

definition br_new :: "vsi22 \<Rightarrow> u8 \<Rightarrow> nat \<Rightarrow> vsi22" where
  "br_new v st nxt = br_waiting (br_accept (vdp22br_init ((wire_vsi v st)\<lparr>v_ptr := nxt\<rparr>)))"

lemma station_info_new:
  assumes "vsi_wire_ok v" "v_vsi_mode v \<noteq> VDP22_DEASSOC" "vdp22_findvsi d (wire_vsi v st) = None"
    and "check_vsi v" "fdata_ok d (v_fif v) (map (wire_fid (v_fif v)) (v_fdata v))"
    and "ve_malloc_ok en sizeof_vsi22" "ve_malloc_ok en (length (v_fdata v) * sizeof_fid22)"
  shows "\<exists>evs. vdp22_station_info en d nxt (wire_vsi v st) = Inr (d\<lparr>vsi22_que := br_new v st nxt # vsi22_que d\<rparr>, evs)
    \<and> To_Ecp (vdp_ifname d) (vdp22_message v VDP22_ACKBIT) \<in> set evs"
proof -
  let ?w = "wire_vsi v st"
  let ?c = "?w\<lparr>v_ptr := nxt, v_flags := {}, v_cc_vsi_mode := VDP22_DEASSOC\<rparr>"
  let ?b = "v_smi_update (\<lambda>s. s\<lparr>smi_st := Br VDP22_BR_BEGIN\<rparr>) (?c\<lparr>v_flags := {VDP22_BUSY}\<rparr>)"
  let ?d = "d\<lparr>vsi22_que := ?b # vsi22_que d\<rparr>"
  have copy: "vdp22_copy_vsi en d nxt ?w = Some ?c"
    using assms(4-7) by (simp add: vdp22_copy_vsi_def check_vsi_def wire_vsi_def)
  have "vsi_wire_ok ?b" using wire_vsi_ok [OF assms(1), of st] by (simp add: vsi_wire_ok_def)
  then have run: "vdp22br_run ?d ?b = Inr (br_waiting (br_accept (vdp22br_init ?b)), br_restimer ?d ?b @ br_answer ?d (br_accept ?b))"
    using assms(2) by (intro br_run_begin) (simp_all add: wire_vsi_def)
  have n: "br_waiting (br_accept (vdp22br_init ?b)) = br_new v st nxt"
    by (simp add: br_new_def br_waiting_def br_accept_def vdp22br_init_def set_br_def comp_def)
  have "vdp22_message ?b x = vdp22_message v x" for x
    by (rule trans [OF message_cong wire_message [of v st]]) simp_all
  then have m: "To_Ecp (vdp_ifname d) (vdp22_message v VDP22_ACKBIT) \<in> set (br_answer ?d (br_accept ?b))"
    by (simp add: br_answer_def)
  have "v_vsi_mode ?w \<noteq> VDP22_DEASSOC" using assms(2) by (simp add: wire_vsi_def)
  with assms(3) copy run n m show ?thesis
    by (simp add: vdp22_station_info_def vdp22br_addvsi_def Let_def put_vsi_def)
qed

subsection \<open>The answer reaches the station\<close>

text \<open>Group identifiers survive the way through a signed 32 bit integer.\<close>

definition groups_ok :: "vsi22 \<Rightarrow> bool" where
  "groups_ok v \<longleftrightarrow> (v_fif v \<in> {VDP22_FFMT_GROUPVID, VDP22_FFMT_GROUPMACVID} \<longrightarrow> (\<forall>f \<in> set (v_fdata v). fid_grpid f < 0x80000000))"

lemma wire_fdata_same:
  assumes "groups_ok v"
  shows "list_all2 (\<lambda>p1 p2. cmp_fdata1 p1 p2 (v_fif v)) (v_fdata v) (map (wire_fid (v_fif v)) (v_fdata v))"
  using assms by (auto simp: list.rel_map list.rel_refl_strong cmp_fdata1_def wire_fid_def groups_ok_def scast_ucast_small
    intro!: list.rel_refl_strong)

lemma cpfid_wire:
  "v_fdata from = map (wire_fid fif) (v_fdata hit) \<Longrightarrow> vdp22_cpfid hit from = hit"
proof -
  assume f: "v_fdata from = map (wire_fid fif) (v_fdata hit)"
  have "map2 cpfid_vlan fs (map (wire_fid fif) fs) = fs" "map (fid_vlan \<circ> wire_fid fif) fs = map fid_vlan fs" for fs
    by (induction fs) (simp_all add: cpfid_vlan_def wire_fid_def)
  with f show ?thesis by (simp add: vdp22_cpfid_def no_fdata_def)
qed

text \<open>The waiting VSI with the answer of the bridge put in, and the same VSI at rest again.\<close>

definition st_got :: "vsi22 \<Rightarrow> vsi22 \<Rightarrow> vsi22" where
  "st_got hit v = v_smi_update (\<lambda>s. s\<lparr>ackreceived := True, deassoc := False, acktimeout := False, resp_ok := True\<rparr>)
     (hit\<lparr>v_status := 0, v_resp_vsi_mode := v_vsi_mode v\<rparr>)"

lemma bridge_reply_ack:
  assumes "v_fdata hit = v_fdata v" "v_fif hit = v_fif v" "groups_ok v" "v_vsi_mode v \<noteq> VDP22_DEASSOC"
  shows "bridge_reply hit (wire_vsi v VDP22_ACKBIT) = st_got hit v"
proof -
  have e: "get_error VDP22_ACKBIT = 0" by (simp add: get_error_def)
  let ?h = "v_smi_update (\<lambda>s. s\<lparr>ackreceived := True, deassoc := False, acktimeout := False\<rparr>) (hit\<lparr>v_status := 0\<rparr>)"
  have c: "vdp22_cmp_fdata ?h (wire_vsi v VDP22_ACKBIT) = (True, ?h)"
    using wire_fdata_same [OF assms(3)] assms(1,2) by (simp add: vdp22_cmp_fdata_def no_fdata_def wire_vsi_def)
  have "vdp22_cpfid x (wire_vsi v VDP22_ACKBIT) = x" if "v_fdata x = v_fdata v" for x
    by (rule cpfid_wire [of _ "v_fif v"]) (simp add: wire_vsi_def that)
  with c e assms(1,4) show ?thesis
    by (simp add: bridge_reply_def wire_vsi_def Let_def bad_error_def st_got_def comp_def)
qed

lemma answered_confirms:
  assumes "smi_st (v_smi v) = St VDP22_STATION_PROCWAIT" "txmit_error (v_smi v) = 0" "\<not> acktimeout (v_smi v)"
    and "ackreceived (v_smi v)" "resp_ok (v_smi v)" "v_status v = 0" "v_resp_vsi_mode v \<noteq> VDP22_DEASSOC"
    and "\<not> localchg (v_smi v)" "\<not> deassoc (v_smi v)" "VDP22_DELETE_ME \<notin> v_flags v"
  shows "\<exists>vs evs. vdp22st_run en d v = Inr (Some vs, evs) \<and> v_cc_vsi_mode vs = v_resp_vsi_mode v \<and> v_ptr vs = v_ptr v
    \<and> v_vsi_mode vs = v_vsi_mode v \<and> smi_st (v_smi vs) = St VDP22_WAIT_SYSCMD_2 \<and> v_flags vs = v_flags v - {VDP22_BUSY}
    \<and> start_timer vdp22st_kato v (scast (delay (vdp_rka d))) \<in> set evs"
proof -
  let ?n = "vdp22st_assoc_new v (v_resp_vsi_mode v)"
  have "vdp22st_run en d v = st_confirmed en d v"
    using assms by (simp add: vdp22st_run_eq st_resting_def st_spec_def st_waiting_def st_answered_def bad_error_def keep_error_def)
  also have "\<dots> = prepend (if havepid ?n = 0 then [Clnt_Send (back_nl d ?n 0)] else []) (st_idle en d ?n)"
    using assms(10) by (simp add: st_confirmed_def clntback_shape vdp22st_assoc_new_def vdp22st_assoc_compl_def)
  finally show ?thesis
    using assms(8,9) by (simp add: st_idle_def vdp22st_start_katimer_def vdp22st_assoc_new_def vdp22st_assoc_compl_def set_st_def
      start_timer_def)
qed

subsection \<open>One association\<close>

text \<open>What \<open>data_from_ecp\<close> stores before the message is processed.\<close>

definition stored :: "vdp22 \<Rightarrow> bytes \<Rightarrow> vdp22" where
  "stored d msg = d\<lparr>vdp_input := msg @ drop (length msg) (vdp_input d), vdp_input_len := of_nat (length msg)\<rparr>"

lemma ecp22in_stored:
  assumes "vsi_wire_ok v" "response_ok (vdp_myrole d) st (v_vsi_mode v)"
    and "ends_walk (drop (length (vdp22_message v st)) (vdp_input d))" "\<not> (vdp_myrole d = VDP22_BRIDGE \<and> vdp_br_down d)"
  shows "vdp22_ecp22in en (stored d (vdp22_message v st)) nxt = vdp22_deliver en (stored d (vdp22_message v st)) nxt (wire_vsi v st)"
  using assms by (intro ecp22in_message) (simp_all add: stored_def)

lemma bridge_gets_request:
  assumes "vsi_wire_ok v" "v_vsi_mode v \<noteq> VDP22_DEASSOC" "st AND VDP22_ACKBIT = 0"
    and "vdp_myrole d = VDP22_BRIDGE" "\<not> vdp_br_down d" "vdp22_findvsi d v = None"
    and "ends_walk (drop (length (vdp22_message v st)) (vdp_input d))"
    and "check_vsi v" "fdata_ok d (v_fif v) (map (wire_fid (v_fif v)) (v_fdata v))"
    and "ve_malloc_ok en sizeof_vsi22" "ve_malloc_ok en (length (v_fdata v) * sizeof_fid22)"
  shows "\<exists>d1 evs. vdp22_ecp22in en (stored d (vdp22_message v st)) nxt = Inr (d1, Suc nxt, evs)
    \<and> vsi22_que d1 = br_new v st nxt # vsi22_que d \<and> To_Ecp (vdp_ifname d) (vdp22_message v VDP22_ACKBIT) \<in> set evs"
proof -
  let ?d = "stored d (vdp22_message v st)"
  have "vdp22_findvsi ?d (wire_vsi v st) = None"
    using assms(6) by (simp add: vdp22_findvsi_def stored_def vdp22_vsi_equal_def wire_vsi_def)
  moreover have "fdata_ok ?d (v_fif v) (map (wire_fid (v_fif v)) (v_fdata v))"
    using assms(9) by (simp add: fdata_ok_def stored_def)
  ultimately obtain evs where "vdp22_station_info en ?d nxt (wire_vsi v st) = Inr (?d\<lparr>vsi22_que := br_new v st nxt # vsi22_que ?d\<rparr>, evs)"
      "To_Ecp (vdp_ifname ?d) (vdp22_message v VDP22_ACKBIT) \<in> set evs"
    using station_info_new [OF assms(1,2)] assms(8,10,11) by blast
  moreover have "vdp22_ecp22in en ?d nxt = vdp22_deliver en ?d nxt (wire_vsi v st)"
    using assms by (intro ecp22in_stored) (simp_all add: response_ok_def)
  ultimately show ?thesis using assms(4) by (simp add: vdp22_deliver_def stored_def)
qed

lemma station_gets_answer:
  assumes "vsi_wire_ok v" "v_vsi_mode v \<noteq> VDP22_DEASSOC" "groups_ok v" "VDP22_DELETE_ME \<notin> v_flags v" "\<not> deassoc (v_smi v)"
    and "vdp_myrole d = VDP22_STATION" "vsi22_que d = st_sent (v\<lparr>v_status := s0\<rparr>) VDP22_STATION_PROCWAIT # q"
    and "ends_walk (drop (length (vdp22_message v VDP22_ACKBIT)) (vdp_input d))"
  shows "\<exists>d1 evs vs. vdp22_ecp22in en (stored d (vdp22_message v VDP22_ACKBIT)) nxt = Inr (d1, nxt, evs)
    \<and> vsi22_que d1 = vs # q \<and> v_ptr vs = v_ptr v \<and> v_cc_vsi_mode vs = v_vsi_mode v \<and> v_vsi_mode vs = v_vsi_mode v
    \<and> smi_st (v_smi vs) = St VDP22_WAIT_SYSCMD_2 \<and> VDP22_BUSY \<notin> v_flags vs"
proof -
  let ?d = "stored d (vdp22_message v VDP22_ACKBIT)" and ?w = "wire_vsi v VDP22_ACKBIT"
  let ?h = "st_sent (v\<lparr>v_status := s0\<rparr>) VDP22_STATION_PROCWAIT"
  have find: "vdp22_findvsi ?d ?w = Some ?h"
    using assms(7) by (simp add: vdp22_findvsi_def stored_def vdp22_vsi_equal_def wire_vsi_def st_sent_def set_st_def)
  have reply: "bridge_reply ?h ?w = st_got ?h v"
    using assms(2,3) by (intro bridge_reply_ack) (simp_all add: st_sent_def set_st_def)
  obtain vs evs where run: "vdp22st_run en ?d (st_got ?h v) = Inr (Some vs, evs)"
      "v_cc_vsi_mode vs = v_vsi_mode v" "v_ptr vs = v_ptr v" "v_vsi_mode vs = v_vsi_mode v"
      "smi_st (v_smi vs) = St VDP22_WAIT_SYSCMD_2" "v_flags vs = v_flags v - {VDP22_BUSY}"
    using answered_confirms [of "st_got ?h v" en ?d] assms(2,4) by (auto simp: st_got_def st_sent_def set_st_def)
  have "vdp22_ecp22in en ?d nxt = vdp22_deliver en ?d nxt ?w"
    using assms by (intro ecp22in_stored) (simp_all add: response_ok_def)
  moreover have "v_ptr ?h = v_ptr v" by (simp add: st_sent_def set_st_def)
  ultimately show ?thesis
    using assms(6,7) find reply run
    by (simp add: vdp22_deliver_def vdp22_bridge_info_def put_vsi_def stored_def)
qed

text \<open>A payload ECP passes on is stored and its processing scheduled.\<close>

lemma notify_stores:
  assumes "vdp22_findif name w = Some i" "length msg \<le> length (vdp_input (vdp22_head w ! i))" "length msg < 65536"
  shows "vdp22_notify LLDP_MOD_ECP22 name (ECP22_TO_ULP (of_nat (length msg)) (msg @ pad)) w
    = Inr (0, (put_if i (stored (vdp22_head w ! i) msg) w)\<lparr>vw_inputs := vw_inputs w @ [vdp_ifname (vdp22_head w ! i)]\<rparr>)"
proof -
  have "unat (of_nat (length msg) :: u16) = length msg" using assms(3) by (simp add: unat_of_nat)
  then show ?thesis
    using assms(1,2) by (simp add: vdp22_notify_def data_from_ecp_def read_bytes_def write_bytes_def stored_def)
qed

lemma put_if_head: "i < length (vdp22_head w) \<Longrightarrow> vdp22_head (put_if i d w) ! i = d"
  by (simp add: put_if_def)

lemma ends_walk_fresh: "n + 2 \<le> m \<Longrightarrow> ends_walk (drop n (replicate m 0))"
  by (simp add: ends_walk_def ptlv_type_def be16_def)

end
