(* ===== verification/Vdp22_Life.thy ===== *)
theory Vdp22_Life
  imports Vdp22_Station Vdp22_Wire Vdp22_Module
begin

text \<open>
  The life of one VSI on a station, from the request of an attached client to its end: the timers it
  has running go with its state, no handler fails, and when it is freed no timer is left that would
  call a handler with it.
\<close>

subsection \<open>Timers of one VSI\<close>

definition timers_after1 :: "vdp22_event \<Rightarrow> vdp22_timer list \<Rightarrow> vdp22_timer list" where
  "timers_after1 ev T = (case ev of Start_Timer h _ _ _ \<Rightarrow> T @ [h] | Stop_Timer h _ \<Rightarrow> removeAll h T | _ \<Rightarrow> T)"

definition timers_after :: "vdp22_event list \<Rightarrow> vdp22_timer list \<Rightarrow> vdp22_timer list" where
  "timers_after evs T = fold timers_after1 evs T"

lemma timers_after_simps [simp]:
  "timers_after [] T = T" "timers_after (Start_Timer h p a b # evs) T = timers_after evs (T @ [h])"
  "timers_after (Stop_Timer h p # evs) T = timers_after evs (removeAll h T)" "timers_after (To_Ecp i bs # evs) T = timers_after evs T"
  "timers_after (Nl_Send n # evs) T = timers_after evs T" "timers_after (Clnt_Send n # evs) T = timers_after evs T"
  by (simp_all add: timers_after_def timers_after1_def)

lemma timers_after_append [simp]: "timers_after (a @ b) T = timers_after b (timers_after a T)"
  by (simp add: timers_after_def)

lemma removeAll_only: "set T \<subseteq> {h} \<Longrightarrow> removeAll h T = []"
  by (induction T) auto

subsection \<open>A VSI at rest\<close>

definition st_base :: "vsi22 \<Rightarrow> bool" where
  "st_base v \<longleftrightarrow> vsi_wire_ok v \<and> v_oui v = [] \<and> havepid v = 0"

definition st_ok :: "vsi22 \<Rightarrow> vdp22_timer list \<Rightarrow> bool" where
  "st_ok v T \<longleftrightarrow> st_base v \<and> VDP22_DELETE_ME \<notin> v_flags v \<and> (case smi_st (v_smi v) of
       St VDP22_STATION_PROCWAIT \<Rightarrow> T = [vdp22st_ackto] \<and> txmit_error (v_smi v) = 0 \<and> \<not> ackreceived (v_smi v) \<and> \<not> acktimeout (v_smi v)
     | St VDP22_TXMIT_KAWAIT \<Rightarrow> T = [vdp22st_ackto] \<and> txmit_error (v_smi v) = 0 \<and> \<not> ackreceived (v_smi v) \<and> \<not> acktimeout (v_smi v)
         \<and> (VDP22_BUSY \<in> v_flags v \<longrightarrow> localchg (v_smi v))
     | St VDP22_TXMIT_DEAWAIT \<Rightarrow> T = [vdp22st_ackto] \<and> txmit_error (v_smi v) = 0 \<and> \<not> ackreceived (v_smi v) \<and> \<not> acktimeout (v_smi v)
         \<and> VDP22_BUSY \<in> v_flags v
     | St VDP22_WAIT_SYSCMD_2 \<Rightarrow> T = [vdp22st_kato] \<and> \<not> kato (v_smi v) \<and> \<not> localchg (v_smi v)
         \<and> \<not> deassoc (v_smi v) \<and> VDP22_BUSY \<notin> v_flags v
     | _ \<Rightarrow> False)"

definition settles :: "(vsi22 option \<times> vdp22_event list) res \<Rightarrow> vdp22_timer list \<Rightarrow> bool" where
  "settles r T \<longleftrightarrow> (\<exists>m evs. r = Inr (m, evs) \<and> (case m of None \<Rightarrow> timers_after evs T = [] | Some v \<Rightarrow> st_ok v (timers_after evs T)))"

lemma settles_prepend: "settles r (timers_after a T) \<Longrightarrow> settles (prepend a r) T"
proof -
  assume "settles r (timers_after a T)"
  then obtain m evs where "r = Inr (m, evs)"
      "case m of None \<Rightarrow> timers_after evs (timers_after a T) = [] | Some v \<Rightarrow> st_ok v (timers_after evs (timers_after a T))"
    unfolding settles_def by blast
  then show ?thesis unfolding settles_def by (intro exI [of _ m] exI [of _ "a @ evs"]) (cases m; simp)
qed

lemma base_cong:
  "v_mgrid a = v_mgrid b \<Longrightarrow> v_type_id a = v_type_id b \<Longrightarrow> v_vsi a = v_vsi b \<Longrightarrow> v_fif a = v_fif b \<Longrightarrow> v_fdata a = v_fdata b \<Longrightarrow>
   v_oui a = v_oui b \<Longrightarrow> 0 < v_vsi_mode a \<Longrightarrow> v_vsi_mode a < VDP22_MGRID \<Longrightarrow> st_base b \<Longrightarrow> st_base a"
  by (auto simp: st_base_def vsi_wire_ok_def havepid_def)

lemma base_mode: "st_base v \<Longrightarrow> 0 < v_vsi_mode v \<and> v_vsi_mode v < VDP22_MGRID"
  by (simp add: st_base_def vsi_wire_ok_def)

lemma settles_finish:
  assumes "st_base v" "set T \<subseteq> {vdp22st_kato, vdp22st_ackto}"
  shows "settles (st_finish d v) T"
proof -
  let ?e = "(set_st VDP22_END v)\<lparr>v_vsi_mode := VDP22_DEASSOC, v_cc_vsi_mode := VDP22_DEASSOC,
    v_flags := insert VDP22_DELETE_ME (v_flags v) - {VDP22_BUSY}\<rparr>"
  have p: "havepid ?e = 0" using assms(1) by (auto simp: st_base_def havepid_def set_st_def)
  have "removeAll vdp22st_kato (removeAll vdp22st_ackto T) = []"
    using assms(2) by (intro removeAll_only) auto
  then show ?thesis
    using p by (simp add: st_finish_def vdp22st_end_def Let_def vdp22_nlback_def vdp22_clntback_def vdp22_back_def settles_def
      vdp22st_stop_acktimer_def vdp22st_stop_katimer_def)
qed

lemma send_outcome:
  assumes "st_base v"
  shows "\<exists>v1 evs. vdp22st_process en d (set_st s v) = Inr (v1, evs) \<and> st_base v1 \<and> v_flags v1 = v_flags v
    \<and> (txmit_error (v_smi v1) = 0 \<longrightarrow> \<not> ackreceived (v_smi v1) \<and> \<not> acktimeout (v_smi v1) \<and> \<not> localchg (v_smi v1)
         \<and> timers_after evs T = removeAll vdp22st_kato T @ [vdp22st_ackto])
    \<and> (txmit_error (v_smi v1) \<noteq> 0 \<longrightarrow> timers_after evs T = T)"
proof -
  have "vdp22st_payload en (set_st s v) = Inr (vdp22_message (set_st s v) (v_hints (set_st s v)))"
    using assms by (intro vdp22st_payload_ok) (simp_all add: st_base_def vsi_wire_ok_def set_st_def)
  then show ?thesis
    using assms base_mode [OF assms]
    by (auto simp: vdp22st_process_def Let_def vdp22st_start_acktimer_def vdp22st_stop_katimer_def start_timer_def
      set_st_def intro: base_cong [of _ v])
qed

lemma base_set_st [simp]: "st_base (set_st s v) = st_base v"
  by (simp add: st_base_def vsi_wire_ok_def havepid_def set_st_def)

lemma settles_send:
  assumes "st_base v" "VDP22_DELETE_ME \<notin> v_flags v" "set T \<subseteq> {vdp22st_kato}"
    and "w \<in> {VDP22_STATION_PROCWAIT, VDP22_TXMIT_KAWAIT, VDP22_TXMIT_DEAWAIT}"
    and "w = VDP22_TXMIT_KAWAIT \<Longrightarrow> VDP22_BUSY \<notin> v_flags v" "w = VDP22_TXMIT_DEAWAIT \<Longrightarrow> VDP22_BUSY \<in> v_flags v"
  shows "settles (st_send en d v s w) T"
proof -
  obtain v1 evs where p: "vdp22st_process en d (set_st s v) = Inr (v1, evs)" "st_base v1" "v_flags v1 = v_flags v"
    and z: "txmit_error (v_smi v1) = 0 \<longrightarrow> \<not> ackreceived (v_smi v1) \<and> \<not> acktimeout (v_smi v1) \<and> \<not> localchg (v_smi v1)
         \<and> timers_after evs T = removeAll vdp22st_kato T @ [vdp22st_ackto]"
    and nz: "txmit_error (v_smi v1) \<noteq> 0 \<longrightarrow> timers_after evs T = T"
    using send_outcome [OF assms(1), of en d s T] by blast
  show ?thesis
  proof (cases "txmit_error (v_smi v1) = 0")
    case True
    with z have t: "timers_after evs T = [vdp22st_ackto]" using removeAll_only [OF assms(3)] by simp
    have "st_ok (set_st w v1) [vdp22st_ackto]"
      using assms(4) True z p assms(2,5,6) by (elim insertE) (simp_all add: st_ok_def)
    with True t p(1) show ?thesis by (simp add: st_send_def settles_def)
  next
    case False
    have "settles (st_finish d v1) (timers_after evs T)"
      using False nz assms(3) p(2) by (intro settles_finish) auto
    with False p(1) show ?thesis by (simp add: st_send_def settles_prepend)
  qed
qed

lemma settles_idle:
  assumes "st_base v" "VDP22_DELETE_ME \<notin> v_flags v" "VDP22_BUSY \<in> v_flags v \<longrightarrow> localchg (v_smi v)"
  shows "settles (st_idle en d v) []"
proof -
  obtain v1 evs where k: "vdp22st_start_katimer d v = (v1, evs)" by fastforce
  then have v1: "v1 = v_smi_update (\<lambda>s. s\<lparr>kato := False\<rparr>) v" and t: "timers_after evs [] = [vdp22st_kato]"
    by (auto simp: vdp22st_start_katimer_def start_timer_def)
  have b: "st_base v1" using assms(1) base_mode [OF assms(1)] by (auto simp: v1 intro: base_cong [of _ v])
  have "settles (if localchg (v_smi v1) then st_send en d v1 VDP22_STATION_PROC VDP22_STATION_PROCWAIT
      else if deassoc (v_smi v1) then st_finish d v1
      else Inr (Some (set_st VDP22_WAIT_SYSCMD_2 v1), [])) [vdp22st_kato]"
    using b assms(2,3) settles_send [OF b, of "[vdp22st_kato]" VDP22_STATION_PROCWAIT en d VDP22_STATION_PROC]
      settles_finish [OF b, of "[vdp22st_kato]" d]
    by (auto simp: v1 settles_def st_ok_def)
  then show ?thesis by (simp add: st_idle_def k settles_prepend t)
qed

lemma settles_confirmed:
  assumes "st_base v" "VDP22_DELETE_ME \<notin> v_flags v"
  shows "settles (st_confirmed en d v) []"
proof -
  let ?n = "vdp22st_assoc_new v (v_resp_vsi_mode v)"
  have b: "st_base ?n" using assms(1) base_mode [OF assms(1)]
    by (auto simp: vdp22st_assoc_new_def vdp22st_assoc_compl_def intro: base_cong [of _ v])
  have f: "VDP22_DELETE_ME \<notin> v_flags ?n" "VDP22_BUSY \<notin> v_flags ?n"
    using assms(2) by (simp_all add: vdp22st_assoc_new_def vdp22st_assoc_compl_def)
  have "settles (st_idle en d ?n) []" using b f by (intro settles_idle) auto
  then show ?thesis using f b by (simp add: st_confirmed_def clntback_shape settles_prepend st_base_def)
qed

lemma settles_answered:
  assumes "st_base v" "VDP22_DELETE_ME \<notin> v_flags v"
  shows "settles (st_answered en d v) []"
proof -
  have b: "st_base (vdp22st_assoc_compl v)" using assms(1) base_mode [OF assms(1)]
    by (auto simp: vdp22st_assoc_compl_def intro: base_cong [of _ v])
  have "settles (st_idle en d (vdp22st_assoc_compl v)) []"
    using b assms(2) by (intro settles_idle) (auto simp: vdp22st_assoc_compl_def)
  with settles_finish [OF assms(1), of "[]" d] settles_confirmed [OF assms, of en d] show ?thesis
    by (simp add: st_answered_def)
qed

lemma settles_alive:
  assumes "st_base v" "VDP22_DELETE_ME \<notin> v_flags v" "VDP22_BUSY \<in> v_flags v \<longrightarrow> localchg (v_smi v)"
  shows "settles (st_alive en d v) []"
proof -
  let ?a = "v\<lparr>v_vsi_mode := VDP22_DEASSOC, v_flags := insert VDP22_BUSY (v_flags v)\<rparr>"
  have "st_base ?a" using assms(1) by (auto intro: base_cong [of _ v])
  then have "settles (st_send en d ?a VDP22_TXMIT_DEASSOC VDP22_TXMIT_DEAWAIT) []"
    using assms(2) by (intro settles_send) auto
  with settles_finish [OF assms(1), of "[]" d] settles_idle [OF assms, of en d] show ?thesis
    by (simp add: st_alive_def)
qed

subsection \<open>Events\<close>

lemma st_ok_cases:
  assumes "st_ok v T"
  obtains (proc) "smi_st (v_smi v) = St VDP22_STATION_PROCWAIT" | (alive) "smi_st (v_smi v) = St VDP22_TXMIT_KAWAIT"
    | (dea) "smi_st (v_smi v) = St VDP22_TXMIT_DEAWAIT" | (idle) "smi_st (v_smi v) = St VDP22_WAIT_SYSCMD_2"
  using assms by (auto simp: st_ok_def split: smi_state.splits vdp22_states.splits)

lemma st_ok_resting: "st_ok v T \<Longrightarrow> st_resting v"
  by (erule st_ok_cases) (simp_all add: st_resting_def)

lemma settles_kato:
  assumes "st_ok v T" "vdp22st_kato \<in> set T"
  shows "settles (vdp22st_handle_kato en d v) (remove1 vdp22st_kato T)"
  using assms(1)
proof (cases rule: st_ok_cases)
  case idle
  let ?v = "v_smi_update (\<lambda>s. s\<lparr>kato := True\<rparr>) v"
  have ok: "st_base v" "VDP22_DELETE_ME \<notin> v_flags v" "VDP22_BUSY \<notin> v_flags v" "T = [vdp22st_kato]"
    using assms(1) idle by (simp_all add: st_ok_def)
  have "st_base ?v" using ok(1) base_mode [OF ok(1)] by (auto intro: base_cong [of _ v])
  then have "settles (st_send en d ?v VDP22_TXMIT_KA VDP22_TXMIT_KAWAIT) []"
    using ok by (intro settles_send) auto
  moreover have "vdp22st_handle_kato en d v = st_send en d ?v VDP22_TXMIT_KA VDP22_TXMIT_KAWAIT"
    using idle by (simp add: vdp22st_handle_kato_def vdp22st_run_eq st_resting_def st_spec_def)
  ultimately show ?thesis by (simp add: ok(4))
qed (use assms in \<open>auto simp: st_ok_def\<close>)

lemma settles_ackto:
  assumes "st_ok v T" "vdp22st_ackto \<in> set T"
  shows "settles (vdp22st_handle_ackto en d v) (remove1 vdp22st_ackto T)"
proof -
  let ?v = "v_smi_update (\<lambda>s. s\<lparr>acktimeout := True\<rparr>) v"
  have b: "st_base v" and n: "smi_st (v_smi v) \<noteq> St VDP22_WAIT_SYSCMD_2"
    using assms by (auto simp: st_ok_def)
  have t: "T = [vdp22st_ackto]" and a: "\<not> ackreceived (v_smi v)"
    using assms(1) n by (cases rule: st_ok_cases; simp add: st_ok_def)+
  have "st_resting ?v" using st_ok_resting [OF assms(1)] by (simp add: st_resting_def)
  moreover have "st_spec en d ?v = st_finish d ?v"
    using assms(1) n by (cases rule: st_ok_cases) (simp_all add: st_spec_def st_waiting_def)
  ultimately have "vdp22st_handle_ackto en d v = st_finish d ?v"
    using a by (simp add: vdp22st_handle_ackto_def vdp22st_run_eq)
  moreover have "st_base ?v" using b base_mode [OF b] by (auto intro: base_cong [of _ v])
  ultimately show ?thesis by (simp add: t settles_finish)
qed

text \<open>What an answer leaves of the VSI it is for, whatever the bridge sent.\<close>

lemma bridge_reply_keeps:
  defines "same a b \<equiv> v_mgrid a = v_mgrid b \<and> v_type_id a = v_type_id b \<and> v_vsi a = v_vsi b \<and> v_fif a = v_fif b
    \<and> v_oui a = v_oui b \<and> v_vsi_mode a = v_vsi_mode b \<and> v_flags a \<subseteq> v_flags b \<union> {VDP22_RETURN_VID, VDP22_NOTIFY} \<and> v_flags b \<subseteq> v_flags a
    \<and> length (v_fdata a) = length (v_fdata b) \<and> map fid_mac (v_fdata a) = map fid_mac (v_fdata b)
    \<and> map fid_req_pid (v_fdata a) = map fid_req_pid (v_fdata b)"
  shows "same (bridge_reply v vsip) v \<and> (let s = v_smi (bridge_reply v vsip) in smi_st s = smi_st (v_smi v) \<and> kato s = kato (v_smi v)
    \<and> localchg s = localchg (v_smi v) \<and> txmit_error s = txmit_error (v_smi v) \<and> ackreceived s \<and> \<not> acktimeout s)"
proof -
  have map2: "map fid_mac (map2 cpfid_vlan fs gs) = map fid_mac fs" "map fid_req_pid (map2 cpfid_vlan fs gs) = map fid_req_pid fs"
    if "length fs = length gs" for fs gs
    using that by (induction fs gs rule: list_induct2) (simp_all add: cpfid_vlan_def)
  let ?u = "v_status vsip AND VDP22_ACKBIT = 0 \<and> v_vsi_mode vsip = VDP22_DEASSOC"
  let ?h = "v_smi_update (\<lambda>s. s\<lparr>ackreceived := True, deassoc := ?u, acktimeout := False\<rparr>)
    (v\<lparr>v_status := (if ?u then 0 else get_error (v_status vsip))\<rparr>)"
  obtain b h where c: "vdp22_cmp_fdata ?h vsip = (b, h)" by fastforce
  have h: "b \<Longrightarrow> h = ?h \<and> length (v_fdata v) = length (v_fdata vsip)" "\<not> b \<Longrightarrow> h = ?h \<or> h = ?h\<lparr>v_status := VDP22_RESP_NOADDR\<rparr>"
    using c by (auto simp: vdp22_cmp_fdata_def dest: list_all2_lengthD split: if_splits)
  show ?thesis
  proof (cases b)
    case True
    with h(1) have e: "h = ?h" and l: "length (v_fdata v) = length (v_fdata vsip)" by simp_all
    show ?thesis
      unfolding bridge_reply_def Let_def c same_def prod.case if_P [OF True]
      by (auto simp: e vdp22_cpfid_def no_fdata_def l map2 [OF l, unfolded map_map])
  next
    case False
    with h(2) show ?thesis
      unfolding bridge_reply_def Let_def c same_def prod.case if_not_P [OF False] by auto
  qed
qed

lemma base_reply: "st_base v \<Longrightarrow> st_base (bridge_reply v vsip)"
proof -
  assume b: "st_base v"
  let ?r = "bridge_reply v vsip"
  note k = bridge_reply_keeps [of v vsip, THEN conjunct1]
  have mac: "length (fid_mac f) = 6" if "f \<in> set (v_fdata ?r)" for f
  proof -
    from that k have "fid_mac f \<in> set (map fid_mac (v_fdata v))" by (metis imageI list.set_map)
    with b show ?thesis by (auto simp: st_base_def vsi_wire_ok_def)
  qed
  have "v_fdata ?r = [] \<longleftrightarrow> v_fdata v = []" using k by (metis length_0_conv)
  moreover have "map fid_req_pid (v_fdata ?r) = map fid_req_pid (v_fdata v)" using k by blast
  ultimately have "havepid ?r = havepid v" by (simp add: havepid_def) (metis last_map)
  with b k mac \<open>v_fdata ?r = [] \<longleftrightarrow> v_fdata v = []\<close> show ?thesis by (simp add: st_base_def vsi_wire_ok_def)
qed

lemma settles_reply:
  assumes "st_ok v T"
  shows "settles (vdp22st_run en d (bridge_reply v vsip)) (timers_after (vdp22st_stop_acktimer v) T)"
proof -
  let ?r = "bridge_reply v vsip"
  note k = bridge_reply_keeps [of v vsip, THEN conjunct1] and m = bridge_reply_keeps [of v vsip, THEN conjunct2, unfolded Let_def]
  have b: "st_base ?r" and fl: "VDP22_DELETE_ME \<notin> v_flags ?r" and bu: "VDP22_BUSY \<in> v_flags ?r \<longleftrightarrow> VDP22_BUSY \<in> v_flags v"
    using assms k base_reply by (auto simp: st_ok_def)
  have run: "vdp22st_run en d ?r = st_spec en d ?r"
    using st_ok_resting [OF assms] m by (intro vdp22st_run_eq) (simp add: st_resting_def)
  show ?thesis
    using assms
  proof (cases rule: st_ok_cases)
    case proc
    with assms have "T = [vdp22st_ackto]" "txmit_error (v_smi v) = 0" by (simp_all add: st_ok_def)
    with run m proc settles_answered [OF b fl, of en d] show ?thesis
      by (simp add: st_spec_def st_waiting_def vdp22st_stop_acktimer_def)
  next
    case alive
    with assms have "T = [vdp22st_ackto]" "txmit_error (v_smi v) = 0" "VDP22_BUSY \<in> v_flags v \<longrightarrow> localchg (v_smi v)"
      by (simp_all add: st_ok_def)
    with run m alive bu settles_alive [OF b fl, of en d] show ?thesis
      by (simp add: st_spec_def st_waiting_def vdp22st_stop_acktimer_def)
  next
    case dea
    with assms have "T = [vdp22st_ackto]" "txmit_error (v_smi v) = 0" by (simp_all add: st_ok_def)
    moreover have "st_base (vdp22st_assoc_compl ?r)" using b base_mode [OF b]
      by (auto simp: vdp22st_assoc_compl_def intro: base_cong [of _ ?r])
    ultimately show ?thesis
      using run m dea settles_finish [of "vdp22st_assoc_compl ?r" "[]" d] by (simp add: st_spec_def st_waiting_def vdp22st_stop_acktimer_def)
  next
    case idle
    with assms have "T = [vdp22st_kato]" "\<not> kato (v_smi v)" "\<not> localchg (v_smi v)" "VDP22_BUSY \<notin> v_flags v"
      by (simp_all add: st_ok_def)
    with run m idle b fl bu settles_finish [OF b, of "[vdp22st_kato]" d] show ?thesis
      by (simp add: st_spec_def vdp22st_stop_acktimer_def) (auto simp: settles_def st_ok_def)
  qed
qed

lemma settles_request:
  assumes "st_ok v T" "VDP22_BUSY \<notin> v_flags v" "VDP22_PREASSOC \<le> x" "x \<le> VDP22_DEASSOC"
  shows "\<exists>rc m evs. vdp22_modvsi en d v x = Inr (rc, m, evs) \<and> settles (Inr (m, evs)) T"
proof (cases "v_vsi_mode v > x")
  case True
  with assms(1) show ?thesis by (auto simp: vdp22_modvsi_def settles_def st_ok_def)
next
  case False
  let ?v = "v_smi_update (\<lambda>s. s\<lparr>localchg := True\<rparr>) (v\<lparr>v_vsi_mode := x, v_flags := v_flags v \<union> {VDP22_BUSY, VDP22_NLCMD}\<rparr>)"
  have d: "VDP22_DELETE_ME \<notin> v_flags v" and b: "st_base v" using assms(1) by (simp_all add: st_ok_def)
  have b': "st_base ?v"
    using b assms(3,4) by (auto simp: word_less_nat_alt word_le_nat_alt intro!: base_cong [of _ v])
  have "vdp22st_run en d ?v = st_spec en d ?v"
    using st_ok_resting [OF assms(1)] by (intro vdp22st_run_eq) (simp add: st_resting_def)
  moreover have "settles (st_spec en d ?v) T"
    using assms(1)
  proof (cases rule: st_ok_cases)
    case idle
    with assms(1) have "T = [vdp22st_kato]" "\<not> kato (v_smi v)" by (simp_all add: st_ok_def)
    with idle settles_send [OF b', of T VDP22_STATION_PROCWAIT en d VDP22_STATION_PROC] d show ?thesis
      by (simp add: st_spec_def)
  next
    case dea
    with assms(1,2) show ?thesis by (simp add: st_ok_def)
  next
    case proc
    with assms(1) b' show ?thesis by (simp add: st_spec_def st_waiting_def settles_def st_ok_def)
  next
    case alive
    with assms(1) b' show ?thesis by (simp add: st_spec_def st_waiting_def settles_def st_ok_def)
  qed
  ultimately have s: "settles (vdp22st_run en d ?v) T" by simp
  then obtain m evs where "vdp22st_run en d ?v = Inr (m, evs)" by (auto simp: settles_def)
  with s False d show ?thesis by (simp add: vdp22_modvsi_def)
qed

lemma st_ok_poll: "st_ok v T \<Longrightarrow> copy_vsi en nl v clif = (nl1, v1) \<Longrightarrow> st_ok v1 T"
proof -
  assume ok: "st_ok v T" and c: "copy_vsi en nl v clif = (nl1, v1)"
  then obtain f where v1: "v1 = v\<lparr>v_flags := f\<rparr>" and f: "f \<subseteq> v_flags v" "VDP22_BUSY \<in> f \<longleftrightarrow> VDP22_BUSY \<in> v_flags v"
    by (auto simp: copy_vsi_def Let_def split: if_splits)
  have "st_base v1" using ok base_mode [of v] by (auto simp: st_ok_def v1 intro: base_cong [of _ v])
  then show "st_ok v1 T" using ok f
    by (cases rule: st_ok_cases [OF ok]) (auto simp: v1 st_ok_def)
qed

subsection \<open>Reachable states\<close>

text \<open>
  The states a VSI of an attached client goes through: it is added, its timers expire while they are
  pending, answers of any content arrive for it, and the client asks for a new mode or for its status.
  The settings of the interface may change in between.
\<close>

inductive st_life :: "vdp22_env \<Rightarrow> vsi22 \<Rightarrow> vdp22_timer list \<Rightarrow> bool" for en where
  added: "st_base v \<Longrightarrow> VDP22_DELETE_ME \<notin> v_flags v \<Longrightarrow> smi_st (v_smi v) = St VDP22_BEGIN \<Longrightarrow>
     vdp22st_run en d v = Inr (Some v1, evs) \<Longrightarrow> st_life en v1 (timers_after evs [])"
| kato: "st_life en v T \<Longrightarrow> vdp22st_kato \<in> set T \<Longrightarrow> vdp22st_handle_kato en d v = Inr (Some v1, evs) \<Longrightarrow>
     st_life en v1 (timers_after evs (remove1 vdp22st_kato T))"
| ackto: "st_life en v T \<Longrightarrow> vdp22st_ackto \<in> set T \<Longrightarrow> vdp22st_handle_ackto en d v = Inr (Some v1, evs) \<Longrightarrow>
     st_life en v1 (timers_after evs (remove1 vdp22st_ackto T))"
| reply: "st_life en v T \<Longrightarrow> vdp22st_run en d (bridge_reply v vsip) = Inr (Some v1, evs) \<Longrightarrow>
     st_life en v1 (timers_after evs (timers_after (vdp22st_stop_acktimer v) T))"
| request: "st_life en v T \<Longrightarrow> VDP22_BUSY \<notin> v_flags v \<Longrightarrow> VDP22_PREASSOC \<le> x \<Longrightarrow> x \<le> VDP22_DEASSOC \<Longrightarrow>
     vdp22_modvsi en d v x = Inr (rc, Some v1, evs) \<Longrightarrow> st_life en v1 (timers_after evs T)"
| status: "st_life en v T \<Longrightarrow> copy_vsi en nl v clif = (nl1, v1) \<Longrightarrow> st_life en v1 T"

lemma settles_SomeD: "settles (Inr (Some v, evs)) T \<Longrightarrow> st_ok v (timers_after evs T)"
  by (simp add: settles_def)

lemma settles_added:
  assumes "st_base v" "VDP22_DELETE_ME \<notin> v_flags v" "smi_st (v_smi v) = St VDP22_BEGIN"
  shows "settles (vdp22st_run en d v) []"
proof -
  have "st_base (v\<lparr>v_status := VDP22_RESP_NONE\<rparr>)" using assms(1) base_mode [OF assms(1)] by (auto intro: base_cong [of _ v])
  then have "settles (st_send en d (v\<lparr>v_status := VDP22_RESP_NONE\<rparr>) VDP22_STATION_PROC VDP22_STATION_PROCWAIT) []"
    using assms(2) by (intro settles_send) auto
  then show ?thesis using assms(3) by (simp add: vdp22st_run_eq st_resting_def st_spec_def)
qed

lemma st_life_ok: "st_life en v T \<Longrightarrow> st_ok v T"
proof (induction rule: st_life.induct)
  case (added v d v1 evs)
  then show ?case using settles_added [of v en d] settles_SomeD by simp
next
  case (kato v T d v1 evs)
  then show ?case using settles_kato [of v T en d] settles_SomeD by simp
next
  case (ackto v T d v1 evs)
  then show ?case using settles_ackto [of v T en d] settles_SomeD by simp
next
  case (reply v T d vsip v1 evs)
  then show ?case using settles_reply [of v T en d vsip] settles_SomeD by simp
next
  case (request v T x d rc v1 evs)
  then show ?case using settles_request [of v T x en d] settles_SomeD by fastforce
next
  case (status v T nl clif nl1 v1)
  then show ?case using st_ok_poll by blast
qed

end
