(* ===== verification/Vdp22_Faults.thy ===== *)
theory Vdp22_Faults
  imports Vdp22_Link Vdp22_Life
begin

text \<open>
  Where the VDP code does not do what it means to: the bridge machine never lets a VSI go, a VSI whose
  request timed out stays in the way of its client, group identifiers with the top bit set never match,
  and a message that arrives before the last one was processed replaces it.
\<close>

subsection \<open>The bridge\<close>

definition br_rest :: "vsi22 \<Rightarrow> bool" where
  "br_rest v \<longleftrightarrow> smi_st (v_smi v) = Br VDP22_BR_WAITCMD \<and> \<not> localchg (v_smi v) \<and> VDP22_BUSY \<notin> v_flags v
     \<and> v_cc_vsi_mode v = VDP22_DEASSOC \<and> vsi_wire_ok v"

lemma br_rest_new: "vsi_wire_ok v \<Longrightarrow> br_rest (br_new v st nxt)"
  using wire_vsi_ok [of v st]
  by (simp add: br_rest_def br_new_def br_waiting_def) (simp add: br_accept_def vdp22br_init_def set_br_def vsi_wire_ok_def)

lemma br_rest_waiting:
  "v_cc_vsi_mode w = VDP22_DEASSOC \<Longrightarrow> vsi_wire_ok w \<Longrightarrow> br_rest (br_waiting w)"
  by (simp add: br_rest_def br_waiting_def) (simp add: set_br_def vsi_wire_ok_def)

lemma br_request_kept:
  assumes "br_rest hit" "vdp22_findvsi d vsip = Some hit" "fst (vdp22_cmp_fdata hit vsip)"
    and "0 < v_vsi_mode vsip" "v_vsi_mode vsip < VDP22_MGRID"
  shows "\<exists>v1 evs. vdp22_station_info en d nxt vsip = Inr (put_vsi (v_ptr hit) (Some v1) d, evs) \<and> br_rest v1
    \<and> v_vsi_mode v1 = v_vsi_mode vsip \<and> To_Ecp (vdp_ifname d) (vdp22_message v1 VDP22_ACKBIT) \<in> set evs"
proof -
  let ?v = "v_smi_update (\<lambda>s. s\<lparr>localchg := True\<rparr>) (hit\<lparr>v_vsi_mode := v_vsi_mode vsip\<rparr>)"
  have c: "vdp22_cmp_fdata hit vsip = (True, hit)"
    using assms(3) by (auto simp: vdp22_cmp_fdata_def split: if_splits)
  have b: "VDP22_BUSY \<notin> v_flags hit" and cc: "v_cc_vsi_mode hit = VDP22_DEASSOC" using assms(1) by (simp_all add: br_rest_def)
  have ok: "vsi_wire_ok ?v" using assms(1,4,5) by (simp add: br_rest_def vsi_wire_ok_def)
  have st: "smi_st (v_smi ?v) = Br VDP22_BR_WAITCMD" "localchg (v_smi ?v)" using assms(1) by (simp_all add: br_rest_def)
  have m: "vdp22_message (br_waiting w) x = vdp22_message w x" for w x
    by (rule message_cong) (simp_all add: br_waiting_def set_br_def)
  obtain w evs where "vdp22br_run d ?v = Inr (br_waiting w, evs)" "vsi_wire_ok w" "v_cc_vsi_mode w = VDP22_DEASSOC"
      "v_vsi_mode w = v_vsi_mode vsip" "To_Ecp (vdp_ifname d) (vdp22_message w VDP22_ACKBIT) \<in> set evs"
  proof (cases "v_vsi_mode vsip = VDP22_DEASSOC")
    case True
    show ?thesis
      by (rule that [OF br_run_request(1) [OF st ok]]) (use True cc ok in \<open>simp_all add: br_answer_def vsi_wire_ok_def\<close>)
  next
    case False
    show ?thesis
      by (rule that [OF br_run_request(2) [OF st ok]]) (use False cc ok in \<open>simp_all add: br_answer_def\<close>, simp_all add: br_accept_def)
  qed
  moreover from this have "br_rest (br_waiting w)" using br_rest_waiting [of w] by simp
  moreover have "v_vsi_mode (br_waiting w) = v_vsi_mode w" by (simp add: br_waiting_def)
  ultimately show ?thesis
    using assms(2) b c by (auto simp: vdp22_station_info_def Let_def m)
qed

lemma br_rest_kato: "br_rest v \<Longrightarrow> vdp22br_handle_kato d v = Inl Use_After_Free"
  by (rule br_kato_faults) (simp_all add: br_rest_def)

subsection \<open>A request that timed out\<close>

definition st_dead :: "vsi22 \<Rightarrow> bool" where
  "st_dead v \<longleftrightarrow> VDP22_DELETE_ME \<in> v_flags v \<and> VDP22_BUSY \<notin> v_flags v \<and> v_status v = VDP22_RESP_NONE"

lemma ackto_dead:
  assumes "smi_st (v_smi v) = St VDP22_STATION_PROCWAIT" "\<not> ackreceived (v_smi v)" "v_status v = VDP22_RESP_NONE"
    and "havepid v \<noteq> 0" "VDP22_NOTIFY \<notin> v_flags v"
  shows "\<exists>v1 evs. vdp22st_handle_ackto en d v = Inr (Some v1, evs) \<and> st_dead v1 \<and> (\<forall>x. vdp22_vsi_equal v1 x = vdp22_vsi_equal v x)
    \<and> v_ptr v1 = v_ptr v \<and> v_fdata v1 = v_fdata v"
proof -
  let ?v = "v_smi_update (\<lambda>s. s\<lparr>acktimeout := True\<rparr>) v"
  let ?e = "(set_st VDP22_END ?v)\<lparr>v_vsi_mode := VDP22_DEASSOC, v_cc_vsi_mode := VDP22_DEASSOC,
    v_flags := insert VDP22_DELETE_ME (v_flags v) - {VDP22_BUSY}\<rparr>"
  have p: "havepid ?e \<noteq> 0" using assms(4) by (simp add: havepid_def set_st_def split: if_splits)
  have "vdp22st_handle_ackto en d v = st_finish d ?v"
    using assms(1,2) by (simp add: vdp22st_handle_ackto_def vdp22st_run_eq st_resting_def st_spec_def st_waiting_def)
  also have "\<dots> = Inr (Some ?e, vdp22st_stop_acktimer v @ vdp22st_stop_katimer v)"
    using p assms(5) by (simp add: st_finish_def vdp22st_end_def Let_def vdp22_clntback_def vdp22st_stop_acktimer_def vdp22st_stop_katimer_def)
  finally show ?thesis
    using assms(3) by (simp add: st_dead_def vdp22_vsi_equal_def) (simp add: set_st_def)
qed

lemma upd_vsi_same: "distinct (map v_ptr q) \<Longrightarrow> v \<in> set q \<Longrightarrow> upd_vsi (v_ptr v) (Some v) q = q"
proof (induction q)
  case (Cons u q)
  show ?case
  proof (cases "v_ptr u = v_ptr v")
    case True
    with Cons.prems have "u = v" by (auto simp: image_iff)
    then show ?thesis by simp
  qed (use Cons in auto)
qed simp

lemma dead_refused:
  assumes "st_dead v" "vdp22_findvsi d req = Some v" "fst (vdp22_cmp_fdata v req)" "v_oui req = []"
    and "VDP22_PREASSOC \<le> v_vsi_mode req" "v_vsi_mode req \<le> VDP22_DEASSOC" "distinct (map v_ptr (vsi22_que d))"
  shows "vdp22_addreq en req d = Inr (- ENODEV, True, d, [])"
proof -
  have c: "vdp22_cmp_fdata v req = (True, v)"
    using assms(3) by (auto simp: vdp22_cmp_fdata_def split: if_splits)
  have "v \<in> set (vsi22_que d)" using assms(2) by (auto simp: vdp22_findvsi_def find_Some_iff)
  then have "put_vsi (v_ptr v) (Some v) d = d" using upd_vsi_same [OF assms(7)] by (simp add: put_vsi_def)
  moreover have "\<not> (v_vsi_mode req > VDP22_DEASSOC \<or> v_vsi_mode req < VDP22_PREASSOC)" using assms(5,6) by (auto simp: not_less word_le_nat_alt)
  ultimately show ?thesis
    using assms(1,2,4) c unfolding vdp22_addreq_def by (simp only: if_False) (simp add: vdp22_modoui_def vdp22_modvsi_def st_dead_def)
qed

lemma dead_polled:
  assumes "st_dead v" "vdp22_findif (nl_ifname nl) w = Some i" "0 < n" "n \<le> length (vsi22_que (vdp22_head w ! i))"
    and "vsi22_que (vdp22_head w ! i) ! (n - 1) = v"
  shows "\<exists>nl1 v1. vdp22_status en n nl clif w = (1, nl1, put_if i (put_vsi (v_ptr v) (Some v1) (vdp22_head w ! i)) w) \<and> st_dead v1
    \<and> (\<forall>x. vdp22_vsi_equal v1 x = vdp22_vsi_equal v x) \<and> v_fdata v1 = v_fdata v"
proof -
  obtain nl1 v1 where c: "copy_vsi en nl v clif = (nl1, v1)" by fastforce
  have r: "nl_response nl1 = ucast VDP22_RESP_NONE" and d: "st_dead v1 \<and> (\<forall>x. vdp22_vsi_equal v1 x = vdp22_vsi_equal v x) \<and> v_fdata v1 = v_fdata v"
    using c assms(1) by (auto simp: copy_vsi_def Let_def st_dead_def copy_oui_def copy_fid_def vdp22_vsi_equal_def split: if_splits)
  have "vdp22_status en n nl clif w = (1, nl1, put_if i (put_vsi (v_ptr v) (Some v1) (vdp22_head w ! i)) w)"
    using assms(2-5) c r by (simp add: vdp22_status_def Let_def)
  with d show ?thesis by blast
qed

subsection \<open>Group identifiers\<close>

lemma group_not_same:
  assumes "v_fif v \<in> {VDP22_FFMT_GROUPVID, VDP22_FFMT_GROUPMACVID}" "f \<in> set (v_fdata v)"
    and "0x80000000 \<le> fid_grpid f" "fid_grpid f < 0x100000000"
  shows "\<not> list_all2 (\<lambda>p1 p2. cmp_fdata1 p1 p2 (v_fif v)) (v_fdata v) (map (wire_fid (v_fif v)) (v_fdata v))"
proof
  assume "list_all2 (\<lambda>p1 p2. cmp_fdata1 p1 p2 (v_fif v)) (v_fdata v) (map (wire_fid (v_fif v)) (v_fdata v))"
  then have "cmp_fdata1 f (wire_fid (v_fif v) f) (v_fif v)"
    using assms(2) by (auto simp: list_all2_conv_all_nth in_set_conv_nth)
  then have e: "fid_grpid f = scast (ucast (fid_grpid f) :: u32)"
    using assms(1) by (auto simp: cmp_fdata1_def wire_fid_def)
  have n: "2 ^ 31 \<le> unat (fid_grpid f)" "unat (fid_grpid f) < 2 ^ 32"
    using assms(3,4) by (simp_all add: word_le_nat_alt word_less_nat_alt)
  have t: "take_bit 32 (fid_grpid f) = fid_grpid f" using n(2) by (rule take_bit_word_small)
  then have b: "\<not> bit (fid_grpid f) 32" by (metis bit_take_bit_iff less_irrefl)
  have "unat (fid_grpid f) div 2 ^ 31 = 1" using n by (intro div_nat_eqI) simp_all
  then have "bit (unat (fid_grpid f)) 31" by (simp only: bit_iff_odd) simp
  then have "bit (fid_grpid f) 31" by (simp add: bit_unsigned_iff)
  then have "bit (scast (ucast (fid_grpid f) :: u32) :: u64) 32" by (simp add: bit_simps)
  with e b show False by simp
qed

text \<open>The client is told that the VSI has ended although the bridge granted the request.\<close>

lemma group_answer_ends:
  assumes "vsi_wire_ok v" "\<not> list_all2 (\<lambda>p1 p2. cmp_fdata1 p1 p2 (v_fif v)) (v_fdata v) (map (wire_fid (v_fif v)) (v_fdata v))"
    and "havepid v = 0" "v_vsi_mode v \<noteq> VDP22_DEASSOC" "vsi22_que d = st_sent (v\<lparr>v_status := s0\<rparr>) VDP22_STATION_PROCWAIT # q"
  shows "\<exists>evs. vdp22_bridge_info en d (wire_vsi v VDP22_ACKBIT) = Inr (d\<lparr>vsi22_que := q\<rparr>, evs)"
proof -
  let ?w = "wire_vsi v VDP22_ACKBIT" and ?h = "st_sent (v\<lparr>v_status := s0\<rparr>) VDP22_STATION_PROCWAIT"
  let ?r = "bridge_reply ?h ?w"
  have find: "vdp22_findvsi d ?w = Some ?h"
    using assms(5) by (simp add: vdp22_findvsi_def vdp22_vsi_equal_def wire_vsi_def st_sent_def set_st_def)
  have r: "?r = v_smi_update (\<lambda>s. s\<lparr>ackreceived := True, deassoc := False, acktimeout := False\<rparr>) (?h\<lparr>v_status := VDP22_RESP_NOADDR\<rparr>)"
    using assms(2,4) by (simp add: bridge_reply_def vdp22_cmp_fdata_def wire_vsi_def no_fdata_def st_sent_def set_st_def Let_def)
  have "vdp22st_run en d ?r = st_finish d ?r"
    unfolding r by (subst vdp22st_run_eq) (simp_all add: st_resting_def st_spec_def st_waiting_def st_answered_def st_sent_def set_st_def)
  moreover have "\<exists>evs. st_finish d ?r = Inr (None, evs)"
    using assms(3) unfolding r
    by (simp add: st_finish_def vdp22st_end_def Let_def vdp22_nlback_def vdp22_clntback_def vdp22_back_def havepid_def st_sent_def set_st_def
      split: if_splits)
  ultimately obtain evs where "vdp22st_run en d ?r = Inr (None, evs)" by auto
  with find assms(5) show ?thesis by (simp add: vdp22_bridge_info_def put_vsi_def)
qed

subsection \<open>Two messages\<close>

lemma data_from_ecp_twice:
  assumes "data_from_ecp name n1 b1 w = Inr (0, w1)" "data_from_ecp name n2 b2 w1 = Inr (0, w2)" "n1 \<le> n2"
    and "vdp22_findif name w = Some i"
  shows "\<exists>w3. data_from_ecp name n2 b2 w = Inr (0, w3) \<and> w2 = w3\<lparr>vw_inputs := vw_inputs w @ [vdp_ifname (vdp22_head w ! i), vdp_ifname (vdp22_head w ! i)]\<rparr>"
proof -
  let ?d = "vdp22_head w ! i"
  have i: "i < length (vdp22_head w)" using find_index_Some [of _ "vdp22_head w" i] assms(4) by (simp add: vdp22_findif_def)
  have le: "unat n1 \<le> unat n2" using assms(3) by (simp add: word_le_nat_alt)
  from assms(1) obtain bs1 inp1 where w1: "bs1 = take (unat n1) b1" "unat n1 \<le> length b1" "unat n1 \<le> length (vdp_input ?d)"
      "inp1 = bs1 @ drop (unat n1) (vdp_input ?d)"
      "w1 = (put_if i (?d\<lparr>vdp_input := inp1, vdp_input_len := n1\<rparr>) w)\<lparr>vw_inputs := vw_inputs w @ [vdp_ifname ?d]\<rparr>"
    by (auto simp: data_from_ecp_def assms(4) res_simps min_absorb2)
  have f: "vdp22_findif name w1 = Some i"
    unfolding w1(5) vdp22_findif_def put_if_def using assms(4) i
    by (simp add: vdp22_findif_def find_index_update_other)
  have d1: "vdp22_head w1 ! i = ?d\<lparr>vdp_input := inp1, vdp_input_len := n1\<rparr>" using i by (simp add: w1(5) put_if_def)
  have len: "length inp1 = length (vdp_input ?d)" using w1(1-4) by simp
  have tail: "drop (unat n2) inp1 = drop (unat n2) (vdp_input ?d)" using w1(1-4) le by simp
  show ?thesis
    using assms(2,4) f i len tail
    by (auto simp: data_from_ecp_def d1 res_simps put_if_def w1(5) min_absorb2)
qed

end
