(* ===== verification/Examples.thy ===== *)
theory Examples
  imports Protocol Ecp22_Link Qaz_Link Vdp22_Faults
begin

text \<open>
  A small concrete installation: one interface \<open>eth0\<close> with index 2, no bonds, no configuration
  values, allocations below four gigabytes succeed.  The properties of the root theory are
  applied to it.
\<close>

definition ex_env :: env where
  "ex_env = \<lparr>malloc_ok = (\<lambda>n. n < 2 ^ 32), cfg_int = (\<lambda>_ _ _. None), get_ifidx = (\<lambda>n. if n = ''eth0'' then 2 else 0),
     check_port_dcb_mode = (\<lambda>_. False), get_src_mac_from_bond = (\<lambda>_ _. None), is_bond = (\<lambda>_. False)\<rparr>"

definition ex_host :: host where
  "ex_host = \<lparr>get_mac = (\<lambda>_. [2, 0, 0, 0, 0, 1]), get_ipaddr = (\<lambda>_. None), get_ipaddr6 = (\<lambda>_. None),
     is_tlv_txenabled = (\<lambda>_ _ _. False), get_med_devtype = (\<lambda>_ _. 0), port_known = (\<lambda>i. i = 2), cfg_str = (\<lambda>_ _ _. None)\<rparr>"

definition ex_l2 :: l2_packet_data where
  "ex_l2 = \<lparr>l2_ifname = ''eth0'', perm_mac_addr = [2, 0, 0, 0, 0, 1], curr_mac_addr = [2, 0, 0, 0, 0, 1],
     san_mac_addr = replicate 6 0xff, remote_mac_addr = replicate 6 0, l2_sent = []\<rparr>"

text \<open>
  An agent of the nearest bridge after its start: it transmits every thirty seconds, has its
  full credit, and waits for frames.
\<close>

definition ex_agent :: lldp_agent where
  "ex_agent = zero_agent\<lparr>adminStatus := enabledRxTx, mac_addr := agent_groupmacs NEAREST_BRIDGE,
     rx := (rx zero_agent)\<lparr>rxstate := RX_WAIT_FOR_FRAME\<rparr>,
     tx := (tx zero_agent)\<lparr>txstate := TX_IDLE, txTTL := 120\<rparr>,
     timers := (timers zero_agent)\<lparr>timers_state := TX_TIMER_IDLE, reinitDelay := 2, msgTxHold := 4,
       msgTxInterval := 30, msgFastTx := 1, txFastInit := 4, txCredit := 5, txMaxCredit := 5, txTTR := 30\<rparr>\<rparr>"

definition ex_port :: "lldp_agent list \<Rightarrow> port" where
  "ex_port as = \<lparr>ifindex = 2, hw_resetting = 0, portEnabled = True, prevPortEnabled = True, bond_master = False,
     dormantDelay = 0, agent_head = as, l2 = ex_l2, ifname = ''eth0''\<rparr>"

definition ex_core :: "port list \<Rightarrow> lldpad_world core" where
  "ex_core ps = (start_core ex_env ex_host)\<lparr>porthead := ps\<rparr>"

definition ex_world :: lldpad_world where
  "ex_world = start_world None"

definition ex_l2_init :: "string \<Rightarrow> l2_packet_data option" where
  "ex_l2_init name = (if name = ''eth0'' then Some ex_l2 else None)"

lemma ex_env_ok: "env_ok ex_env" "host_good ex_env ex_host" "l2_ok ex_l2" "l2_good ex_l2_init"
  by (simp_all add: env_ok_def ex_env_def host_good_def ex_host_def l2_ok_def ex_l2_def l2_good_def ex_l2_init_def)

lemma ex_env_sel [simp]: "malloc_ok ex_env n = (n < 4294967296)" "get_ifidx ex_env ''eth0'' = 2"
  by (simp_all add: ex_env_def)

lemma ex_world_inv: "mods_inv ex_env ex_host ex_world" "mand_inv (w_mand ex_world)" "evb22_inv (w_evb22 ex_world)"
  using ex_env_ok by (simp_all add: mods_inv_def ex_world_def start_world_def mand_inv_def evb22_inv_def)

lemma ex_core_sel [simp]:
  "core_env (ex_core ps) = ex_env" "lldp_head (ex_core ps) = lldpad_mods ex_env ex_host" "porthead (ex_core ps) = ps"
  by (simp_all add: ex_core_def start_core_def)

lemma ex_port_sel [simp]:
  "l2 (ex_port as) = ex_l2" "agent_head (ex_port as) = as" "portEnabled (ex_port as)" "ifindex (ex_port as) = 2"
  "ifname (ex_port as) = ''eth0''" "prevPortEnabled (ex_port as)"
  by (simp_all add: ex_port_def)

lemma ex_agent_inv: "agent_inv ex_agent"
  by (simp add: agent_inv_def ex_agent_def zero_agent_def timers_live_def rx_sized_def rx_quiet_def agent_groupmacs_def)

lemma ex_agent_sel [simp]:
  "mac_addr ex_agent = [1, 128, 194, 0, 0, 14]" "framein (rx ex_agent) = None" "\<not> rxInfoAge (rx ex_agent)"
  "msap_info ex_agent = \<lparr>length1 = 0, msap1 = None, length2 = 0, msap2 = None\<rparr>" "\<not> tooManyNghbrs (rx ex_agent)"
  "agenttype ex_agent = NEAREST_BRIDGE" "txCredit (timers ex_agent) = 5" "rxTTL (timers ex_agent) = 0"
  "txTTL (tx ex_agent) = 120" "sizein (rx ex_agent) = 0" "rxstate (rx ex_agent) = RX_WAIT_FOR_FRAME"
  "txstate (tx ex_agent) = TX_IDLE" "adminStatus ex_agent = enabledRxTx" "\<not> rcvFrame (rx ex_agent)"
  "txMaxCredit (timers ex_agent) = 5" "timers_state (timers ex_agent) = TX_TIMER_IDLE" "txTTR (timers ex_agent) = 30"
  by (simp_all add: ex_agent_def zero_agent_def agent_groupmacs_def)

lemma ex_tx_active: "tx_active (ex_port as) ex_agent"
  by (simp add: tx_active_def tx_admin_on_def)

lemma ex_rx_waiting: "rx_waiting (ex_port as) ex_agent"
  by (simp add: rx_waiting_def rx_admin_on_def)

lemma ex_ports_ok: "ports_ok ex_env ex_host (ex_core [ex_port [ex_agent]]) ex_world"
  using ex_env_ok ex_world_inv ex_agent_inv by (simp add: ports_ok_def core_inv_def ports_unique_def port_inv_def)

text \<open>The address of a neighbour and the three mandatory TLVs of its LLDPDU.\<close>

definition ex_tlvs :: "u8 \<Rightarrow> u8 \<Rightarrow> (u8 \<times> bytes) list" where
  "ex_tlvs hi lo = [(1, [4, 2, 0, 0, 0, 0, 7]), (2, [3, 2, 0, 0, 0, 0, 7]), (3, [hi, lo])]"

lemma ex_tlvs_emitted: "emits_list mods_emit (lldpad_mods e h) (ex_tlvs hi lo)" "lldp_frame_size (ex_tlvs hi lo) \<le> ETH_DATA_LEN"
proof -
  have "mand_seq (ex_tlvs hi lo)" by (simp add: mand_seq_def ex_tlvs_def)
  then show "emits_list mods_emit (lldpad_mods e h) (ex_tlvs hi lo)"
    by (simp add: lldpad_mods_def mods_emit_def) (metis append_Nil2)
  show "lldp_frame_size (ex_tlvs hi lo) \<le> ETH_DATA_LEN" by (simp add: ex_tlvs_def lldp_frame_size_def)
qed

definition ex_hdr :: bytes where
  "ex_hdr = eth_header [1, 128, 194, 0, 0, 14] [2, 0, 0, 0, 0, 7]"

text \<open>The agent with a frame it has not processed yet.\<close>

definition ex_rx_agent :: "bytes \<Rightarrow> lldp_agent" where
  "ex_rx_agent buf = rx_update (\<lambda>r. r\<lparr>framein := Some buf, sizein := of_nat (length buf), rcvFrame := True\<rparr>) ex_agent"

lemma ex_rx_agent_sel [simp]:
  "framein (rx (ex_rx_agent buf)) = Some buf" "sizein (rx (ex_rx_agent buf)) = of_nat (length buf)"
  "rxstate (rx (ex_rx_agent buf)) = RX_WAIT_FOR_FRAME" "adminStatus (ex_rx_agent buf) = enabledRxTx"
  "rcvFrame (rx (ex_rx_agent buf))" "\<not> rxInfoAge (rx (ex_rx_agent buf))" "\<not> tooManyNghbrs (rx (ex_rx_agent buf))"
  "msap_info (ex_rx_agent buf) = \<lparr>length1 = 0, msap1 = None, length2 = 0, msap2 = None\<rparr>"
  by (simp_all add: ex_rx_agent_def)

lemma ex_hdr_length [simp]: "length ex_hdr = 14"
  by (simp add: ex_hdr_def eth_header_def)

lemma ex_tlvs_length: "length (tlv_concat (ex_tlvs hi lo)) = 22"
  by (simp add: ex_tlvs_def)

subsection \<open>Data of the modules\<close>

definition ex_mand :: mand_world where
  "ex_mand = \<lparr>mand_head = [(zero_md ''eth0'' NEAREST_BRIDGE)\<lparr>read_shm := True\<rparr>], mand_shm = None, mand_cfg = []\<rparr>"

lemma ex_mand_inv: "mand_inv ex_mand"
  by (simp add: ex_mand_def mand_inv_def md_wf_def zero_md_def)

definition ex_entry :: lldpad_shm_entry where
  "ex_entry = \<lparr>shm_ifname = [], shm_chassisid = replicate 32 0, shm_chassisid_len = 0, shm_portid = replicate 32 0,
     shm_portid_len = 0, shm_st = zero_state, shm_dcbx_mode = 0\<rparr>"

definition ex_tbl :: "nat \<Rightarrow> lldpad_shm_tbl" where
  "ex_tbl n = \<lparr>shm_pid = 1, shm_num_entries = of_nat (n + 65536), shm_ent = replicate 36 ex_entry, shm_rest = []\<rparr>"

lemma ex_tbl_wf: "n \<le> 36 \<Longrightarrow> tbl_wf (ex_tbl n)" "n \<le> 36 \<Longrightarrow> shm_num (ex_tbl n) = n"
proof -
  assume n: "n \<le> 36"
  then have u: "unat (of_nat (n + 65536) :: u32) = n + 65536" by (simp only: unat_of_nat) simp
  show "tbl_wf (ex_tbl n)" using n u unfolding tbl_wf_def ex_tbl_def
    by (intro conjI exI [of _ n]) (simp_all add: entry_wf_def ex_entry_def)
  show "shm_num (ex_tbl n) = n" using n u by (simp add: shm_num_eq ex_tbl_def)
qed

text \<open>An EVB station on the nearest customer bridge, and a TLV of a bridge.\<close>

definition ex_ed :: evb22_data where
  "ex_ed = \<lparr>ed_ifname = ''eth0'', ed_agenttype = NEAREST_CUSTOMER_BRIDGE, txmit = True, vdp_start = False,
     evb_out = zero_evb22_tlv, evb_last = zero_evb22_tlv, evb_policy = zero_evb22_tlv\<lparr>evb_mode := evb_set_evbmode EVB_STATION\<rparr>\<rparr>"

definition ex_evb22 :: evb22_world where
  "ex_evb22 = \<lparr>evb22_head = [ex_ed], evb22_events = []\<rparr>"

lemma ex_evb22_inv: "evb22_inv ex_evb22"
  by (simp add: ex_evb22_def evb22_inv_def ed_wf_def ex_ed_def zero_evb22_tlv_def)

subsection \<open>The running daemon\<close>

definition ex_daemon :: "lldpad_world daemon" where
  "ex_daemon = \<lparr>d_run = Some (Inr (ex_core [ex_port [ex_agent]], ex_world)), d_clock = 0, d_recv = 0\<rparr>"

lemma ex_daemon_up: "daemon_up ex_env ex_host ex_daemon"
  using ex_ports_ok by (simp add: daemon_up_def ex_daemon_def ports_ok_def)

definition ex_round :: sys_round where
  "ex_round = \<lparr>now_before = OS_Time 0 0, now_after = OS_Time 1 0, sel_res = 0, sel_fatal = False,
     sel_ready = (\<lambda>_. {}), sel_signals = []\<rparr>"

subsection \<open>A station of the edge control protocol\<close>

text \<open>As \<open>ecp22_start\<close> leaves it on a port that is up.\<close>

definition ex_ecp :: ecp22 where
  "ex_ecp = \<lparr>ecp_ptr = 0, ecp_l2 = ex_l2, ecp_ifname = ''eth0'',
     ecp_rx = zero_buffer ECP22_RX_WAIT, ecp_tx = (zero_buffer ECP22_TX_WAIT_ONDATA)\<lparr>eb_seqno := 1\<rparr>,
     ecp_stats = zero_stats, inuse = [], isfree = [], freecnt = 0, max_retries = 3, max_rte = 8\<rparr>"

definition ex_ecp_core :: "lldpad_world core" where
  "ex_ecp_core = ex_core [ex_port []]"

definition ex_ecp_net :: ecp_net where
  "ex_ecp_net = \<lparr>na = ex_ecp, nb = ex_ecp, left_a = 0, left_b = 0, submitted = [], delivered = [], lost = False\<rparr>"

lemma ex_ecp_sel [simp]:
  "ecp_l2 ex_ecp = ex_l2" "inuse ex_ecp = []" "\<not> eb_ecpdu_received (ecp_rx ex_ecp)" "eb_state (ecp_rx ex_ecp) = ECP22_RX_WAIT"
  "eb_state (ecp_tx ex_ecp) = ECP22_TX_WAIT_ONDATA" "eb_seqno (ecp_tx ex_ecp) = 1" "ecp_ifname ex_ecp = ''eth0''" "ecp_ptr ex_ecp = 0"
  "max_retries ex_ecp = 3" "\<not> eb_ecpdu_received (ecp_tx ex_ecp)"
  by (simp_all add: ex_ecp_def zero_buffer_def)

lemma ex_ecp_ok: "env_ok (core_env ex_ecp_core)" "ecp_wf ex_ecp" "sender_ok ex_ecp" "ecp_settled ex_ecp_core ex_ecp" "rx_up ex_ecp_core ex_ecp"
  "ecp_port ex_ecp_core ex_ecp = Some 0" "ecp_ok ex_ecp"
  using ex_env_ok(1,3)
  by (simp_all add: ecp_ok_def ecp_wf_def sender_ok_def ex_ecp_def zero_buffer_def ecp_settled_def rx_up_def ex_ecp_core_def
    port_find_by_ifindex_def)

lemma ex_ecp_net_start: "ecp_net_start ex_ecp_core ex_ecp_core ex_ecp_net"
  using ex_ecp_ok by (simp add: ecp_net_start_def ex_ecp_net_def ex_l2_def)

subsection \<open>Two stations of IEEE 802.1Qaz\<close>

definition ex_qaz_host :: qaz_host where
  "ex_qaz_host = \<lparr>get_dcbx_hw = (\<lambda>_. (0, 0)),
     get_ieee_hw = (\<lambda>_. \<lparr>hw_err = 1, hw_ets_cap = Some 8, hw_pfc_cap = Some 8,
       hw_apps = [\<lparr>app_selector = 1, app_priority = 3, app_protocol = 0x8906\<rparr>]\<rparr>),
     dcbx_get_legacy_version = (\<lambda>_. 0), dcbx_tlvs_rxed = (\<lambda>_ _. False), is_tlv_txdisabled = (\<lambda>_ _ _. False),
     is_vlan = (\<lambda>_. False), set_config_ok = (\<lambda>_ _ _. True)\<rparr>"

definition ex_qaz_data :: "bytes \<Rightarrow> u8 \<Rightarrow> ieee8021qaz_tlvs" where
  "ex_qaz_data mac en = (let d = zero_qaz_tlvs ''eth0'' mac in
     d\<lparr>qz_active := True, qz_ets := (qz_ets d)\<lparr>cfgl := (cfgl (qz_ets d))\<lparr>cfg_willing := True\<rparr>\<rparr>,
       qz_pfc := (qz_pfc d)\<lparr>pfc_local := \<lparr>pfc_willing = True, pfc_mbc = False, pfc_cap = 8, pfc_enable = en, pfc_delay = 0\<rparr>\<rparr>\<rparr>)"

definition ex_qaz :: "bytes \<Rightarrow> bytes \<Rightarrow> u8 \<Rightarrow> lldpad_world qaz_station" where
  "ex_qaz mac other en = \<lparr>st_core = ex_core [ex_port [ex_agent]], st_host = ex_host\<lparr>is_tlv_txenabled := (\<lambda>_ _ _. True)\<rparr>,
     st_qaz = ex_qaz_host, st_port = (ex_port [ex_agent])\<lparr>l2 := ex_l2\<lparr>remote_mac_addr := other\<rparr>\<rparr>, st_agent = ex_agent,
     st_world = \<lparr>qaz_head = [ex_qaz_data mac en], qaz_events = []\<rparr>\<rparr>"

definition ex_mac_a :: bytes where
  "ex_mac_a = [2, 0, 0, 0, 0, 1]"

definition ex_mac_b :: bytes where
  "ex_mac_b = [2, 0, 0, 0, 0, 2]"

definition ex_qaz_a :: "lldpad_world qaz_station" where
  "ex_qaz_a = ex_qaz ex_mac_a ex_mac_b 8"

definition ex_qaz_b :: "lldpad_world qaz_station" where
  "ex_qaz_b = ex_qaz ex_mac_b ex_mac_a 16"

lemma ex_qaz_data_sel [simp]:
  "qz_active (ex_qaz_data mac en)" "local_mac (ex_qaz_data mac en) = mac" "pfc_enable (pfc_local (qz_pfc (ex_qaz_data mac en))) = en"
  "pfc_cap (pfc_local (qz_pfc (ex_qaz_data mac en))) = 8" "pfc_willing (pfc_local (qz_pfc (ex_qaz_data mac en)))" "app_head (ex_qaz_data mac en) = []"
  "\<not> remote_param (qz_pfc (ex_qaz_data mac en))" "\<not> pfc_willing (pfc_remote (qz_pfc (ex_qaz_data mac en)))" "qz_ok (ex_qaz_data mac en)"
  "qz_ifname (ex_qaz_data mac en) = ''eth0''"
  by (simp_all add: ex_qaz_data_def Let_def zero_qaz_tlvs_def qz_ok_def etscfg_ok_def etsrec_ok_def)

lemma ex_qaz_sel [simp]:
  "st_name (ex_qaz mac other en) = ''eth0''" "st_env (ex_qaz mac other en) = ex_env" "st_data (ex_qaz mac other en) = ex_qaz_data mac en"
  "remote_mac_addr (l2 (st_port (ex_qaz mac other en))) = other"
  by (simp_all add: ex_qaz_def st_name_def st_env_def st_data_def ieee8021qaz_data_def ex_port_def)

lemma ex_qaz_ok: "station_ok (ex_qaz mac other en)"
  by (simp add: station_ok_def) (simp add: ex_qaz_def ex_qaz_host_def qaz_host_ok_def ex_agent_def zero_agent_def app_ok_def qaz_inv_def
      ieee8021qaz_data_def)

lemma ex_qaz_pair: "station_ok ex_qaz_a" "station_ok ex_qaz_b" "linked ex_qaz_a ex_qaz_b" "unheard ex_qaz_a" "unheard ex_qaz_b"
    "pfc_leads ex_qaz_b ex_qaz_a" "\<not> pfc_leads ex_qaz_a ex_qaz_b" "st_pfc ex_qaz_b = pfc_local (qz_pfc (ex_qaz_data ex_mac_b 16))"
  by (simp_all add: ex_qaz_a_def ex_qaz_b_def ex_qaz_ok linked_def ex_mac_a_def ex_mac_b_def unheard_def pfc_leads_def st_pfc_def)

subsection \<open>A station and a bridge of VDP\<close>

definition ex_vdp_env :: vdp22_env where
  "ex_vdp_env = \<lparr>ve_malloc_ok = (\<lambda>n. n < 2 ^ 32), ve_to_ecp22 = (\<lambda>_ _. 0), vdp22_get_oui_hndlr = (\<lambda>_. None)\<rparr>"

definition ex_vdp :: "vdp22_role \<Rightarrow> vsi22 list \<Rightarrow> vdp22" where
  "ex_vdp role q = \<lparr>vdp_ifname = ''eth0'', vdp_ecp_retries = 3, vdp_ecp_rte = 14, vdp_rwd = 20, vdp_rka = 20, vdp_gpid_on = True,
     vdp_myrole = role, vdp_evb_on = True, vdp_br_down = False, vdp_input_len = 0, vdp_input = replicate 1500 0, vsi22_que = q\<rparr>"

text \<open>A VSI with one filter entry of format \<open>fif\<close>, requested in mode \<open>m\<close> by process \<open>pid\<close> (0 for an attached client).\<close>

definition ex_vsi :: "u8 \<Rightarrow> u8 \<Rightarrow> u64 \<Rightarrow> int \<Rightarrow> vsi22" where
  "ex_vsi m fif grp pid = \<lparr>v_ptr = 1, v_mgrid = 1 # replicate 15 0, v_cc_vsi_mode = VDP22_DEASSOC, v_vsi_mode = m, v_resp_vsi_mode = 0,
     v_status = VDP22_RESP_NONE, v_hints = 0, v_type_id = 100, v_type_ver = 1, v_vsi_fmt = VDP22_ID_UUID, v_vsi = replicate 16 7,
     v_fif = fif, v_fdata = [\<lparr>fid_grpid = grp, fid_mac = [2, 0, 0, 0, 0, 9], fid_vlan = 5, fid_req_pid = pid, fid_req_seq = 0\<rparr>],
     v_oui = [], v_flags = {VDP22_BUSY, VDP22_NLCMD}, v_smi = zero_smi\<rparr>"

lemma ex_vsi_sel [simp]:
  "v_vsi_mode (ex_vsi m fif grp pid) = m" "v_fif (ex_vsi m fif grp pid) = fif" "v_oui (ex_vsi m fif grp pid) = []" "v_hints (ex_vsi m fif grp pid) = 0"
  "v_flags (ex_vsi m fif grp pid) = {VDP22_BUSY, VDP22_NLCMD}" "v_smi (ex_vsi m fif grp pid) = zero_smi" "havepid (ex_vsi m fif grp pid) = pid"
  "v_fdata (ex_vsi m fif grp pid) = [\<lparr>fid_grpid = grp, fid_mac = [2, 0, 0, 0, 0, 9], fid_vlan = 5, fid_req_pid = pid, fid_req_seq = 0\<rparr>]"
  "v_status (ex_vsi m fif grp pid) = VDP22_RESP_NONE"
  by (simp_all add: ex_vsi_def havepid_def)

lemma ex_vdp_sel [simp]:
  "vdp_myrole (ex_vdp role q) = role" "vsi22_que (ex_vdp role q) = q" "vdp_input (ex_vdp role q) = replicate 1500 0" "\<not> vdp_br_down (ex_vdp role q)"
  "vdp_ifname (ex_vdp role q) = ''eth0''" "vdp22_findvsi (ex_vdp role []) v = None" "vdp_gpid_on (ex_vdp role q)"
  by (simp_all add: ex_vdp_def vdp22_findvsi_def)

lemma ex_vdp_env_sel [simp]: "ve_malloc_ok ex_vdp_env n = (n < 4294967296)" "ve_to_ecp22 ex_vdp_env i b = 0"
  by (simp_all add: ex_vdp_env_def)

lemma ex_vsi_ok: "m \<in> {1, 2, 3, 4} \<Longrightarrow> fif \<in> {2, 4} \<Longrightarrow> vsi_wire_ok (ex_vsi m fif grp pid)"
  by (auto simp: vsi_wire_ok_def check_filterfmt_def vsi22_tlv_sz_def vsi22_tlv_fifsz_def vsi22_fdata_sz_def) (auto simp: ex_vsi_def)

lemma ex_message_length: "m \<in> {1, 2, 3, 4} \<Longrightarrow> fif \<in> {2, 4} \<Longrightarrow> length (vdp22_message (ex_vsi m fif grp pid) st) \<le> 57"
  using message_length(1) [OF ex_vsi_ok, of m fif grp pid st]
  by (auto simp: vsi22_ptlv_sz_def vsi22_tlv_sz_def vsi22_tlv_fifsz_def vsi22_fdata_sz_def)

lemma ex_ends: "m \<in> {1, 2, 3, 4} \<Longrightarrow> fif \<in> {2, 4} \<Longrightarrow> ends_walk (drop (length (vdp22_message (ex_vsi m fif grp pid) st)) (replicate 1500 0))"
  using ex_message_length [of m fif grp pid st] by (intro ends_walk_fresh) simp

lemma ex_fdata_ok:
  "check_vsi (ex_vsi 3 2 0 pid)" "fdata_ok (ex_vdp role q) 2 (map (wire_fid 2) (v_fdata (ex_vsi 3 2 0 pid)))" "groups_ok (ex_vsi 3 2 0 pid)"
  by (simp_all add: check_vsi_def check_vsiid_def check_vsirequest_def check_filterfmt_def is_zeroes_def fdata_ok_def filter_ok_def
    check_vid_def check_mac_def is_valid_mac_def wire_fid_def vdp22_get_vlanid_def groups_ok_def Let_def) (simp add: ex_vsi_def)

definition ex_vdp_world :: "vdp22 \<Rightarrow> vdp22_world" where
  "ex_vdp_world d = \<lparr>vdp22_head = [d], vw_timers = [], vw_inputs = [], vw_next = 2, vw_out = []\<rparr>"

end
