(* ===== verification/Spec2Isabelle.thy ===== *)
theory Spec2Isabelle
  imports Examples
begin

text \<open>
  \<^bold>\<open>lldpad\<close>, the daemon of the Link Layer Discovery Protocol (IEEE 802.1AB): a shallow embedding
  of its core and the theorems that make it correct.

  \<^bold>\<open>The program.\<close>  The daemon keeps a list of ports (\<open>src/lldp/ports.c\<close>), each with a layer-2 socket
  (\<open>src/lldp/l2_packet_linux.c\<close>) and a list of agents, one per group address (\<open>src/lldp/agent.c\<close>).
  An agent has a transmit machine and a transmit timer machine (\<open>src/lldp/tx.c\<close>) and a receive
  machine (\<open>src/lldp/rx.c\<close>).  The contents of frames come from modules registered in a list of
  callbacks (\<open>src/include/lldp_mod.h\<close>); the mandatory TLVs (\<open>src/lldp_mand.c\<close>), edge virtual
  bridging (\<open>src/lldp_evb22.c\<close>) and data centre bridging (\<open>src/lldp_8021qaz.c\<close>) are three of them.  EVB
  negotiates the parameters of the edge control protocol (\<open>src/qbg/ecp22.c\<close>), an acknowledged
  transport with its own Ethertype.  It carries the virtual station discovery protocol
  (\<open>src/qbg/vdp22sm.c\<close>, \<open>src/qbg/vdp22.c\<close>), with which a station associates the interfaces of its virtual
  machines (VSIs) at the bridge.  Identifiers survive a restart in a shared memory table
  (\<open>src/lldpad_shm.c\<close>).  Everything is driven by one event loop (\<open>src/eloop.c\<close>): a timeout
  once a second runs the machines and module timers of all agents, a readable socket delivers a
  frame, and commands change ports and agents between two events.

  \<^bold>\<open>Theories and sources.\<close>
  \<^item> \<open>Prelude\<close>: results with faults, bytes and bounds-checked buffers, C string comparison.
  \<^item> \<open>Tlv\<close>: \<open>src/lldp_tlv.c\<close>, packing, appending and unpacking of TLVs.
  \<^item> \<open>Agent_Types\<close>: the structures of \<open>src/lldp/agent.h\<close>, \<open>ports.h\<close>, \<open>mibdata.h\<close>, \<open>states.h\<close> and
    \<open>src/include/lldp_mod.h\<close> as records; the record \<open>env\<close> holds what the core asks the system and
    the configuration.
  \<^item> \<open>Modules\<close>: the contract between the core and a list of modules, the locale \<open>lldp_modules\<close>.
  \<^item> \<open>Tx_Frame\<close>, \<open>Tx\<close>, \<open>Tx_Timers\<close>, \<open>Tx_Safe\<close>: \<open>src/lldp/tx.c\<close>, the frame constructors, the two machines
    and what they send; the locale \<open>lldp_tx_modules\<close> adds that the mandatory TLVs end with the time to
    live.
  \<^item> \<open>Rx\<close>, \<open>Rx_Walk\<close>, \<open>Rx_Machine\<close>: \<open>src/lldp/rx.c\<close>, the reception of a frame, the walk over its TLVs
    and its specification, the machine; the locale \<open>lldp_rx_modules\<close> adds which TLVs modules accept.
  \<^item> \<open>Eloop\<close>: \<open>src/eloop.c\<close>, with the locales \<open>timer_queue\<close> (the contract of the timeout queue) and
    \<open>eloop_handlers\<close> (what the loop needs of the callbacks).
  \<^item> \<open>Agent\<close>, \<open>Ports\<close>: \<open>src/lldp/agent.c\<close> and \<open>src/lldp/ports.c\<close>, the timer and the commands.
  \<^item> \<open>Shm\<close>, \<open>Mand\<close>, \<open>Evb22\<close>: \<open>src/lldpad_shm.c\<close>, \<open>src/lldp_mand.c\<close>, \<open>src/lldp_evb22.c\<close> with the functions of
    \<open>src/lldp_evb22_cmds.c\<close> that read its configuration and the bit fields of
    \<open>src/include/lldp_evb22.h\<close>.
  \<^item> \<open>Ecp22\<close>, \<open>Ecp22_Safe\<close>, \<open>Ecp22_Module\<close>, \<open>Ecp22_Link\<close>: \<open>src/qbg/ecp22.c\<close>, its two machines and what they
    implement, the entry points of the module, and two stations over a lossy link.
  \<^item> \<open>Qaz\<close>, \<open>Qaz_Safe\<close>, \<open>Qaz_Module\<close>, \<open>Qaz_Link\<close>: \<open>src/lldp_8021qaz.c\<close>, its state machines, TLVs and callbacks; the
    round trips of the TLVs and the table of application priorities; the states the module reaches;
    two stations that exchange its TLVs.  What the kernel reports is the record \<open>qaz_host\<close>, what the
    module tells it a list of events.
  \<^item> \<open>Vdp22\<close>, \<open>Vdp22_Sm\<close>, \<open>Vdp22_If\<close>, \<open>Vdp22_Module\<close>: \<open>src/qbg/vdp22sm.c\<close>, \<open>src/qbg/vdp22.c\<close> and \<open>src/qbg/vdp22br.c\<close>, the data,
    TLVs and timers; the machines of station and bridge; requests and received messages; the entry
    points of the module.  \<open>Vdp22_Wire\<close>, \<open>Vdp22_Station\<close>, \<open>Vdp22_Bridge\<close>, \<open>Vdp22_Link\<close>, \<open>Vdp22_Life\<close> and \<open>Vdp22_Faults\<close>
    hold the round trip of messages, the station's diagram, the runs of the bridge, a station and a
    bridge together, the states a VSI reaches, and the defects.  Messages to ECP and to clients and
    started or stopped timers are events.
  \<^item> \<open>Registered\<close>: the list of the first two modules as the daemon registers them; all three module locales
    are interpreted on it, so every lemma of the machines holds of this list.
  \<^item> \<open>Agent_Safe\<close>, \<open>Daemon\<close>, \<open>Ports_Safe\<close>, \<open>System\<close>, \<open>Protocol\<close>: invariants of agents, ports and the daemon; the
    daemon's handlers under the event loop (interpretations of \<open>eloop_handlers\<close>); the transition
    system of all events and commands; the protocol over many seconds and between two agents.
  \<^item> \<open>Examples\<close>: a small installation the theorems are applied to.

  \<^bold>\<open>How the model reads.\<close>  A function of the source is one definition with the same name; helpers
  stand for the body of a loop.  C structures are records, machine integers are words of their
  width, pointers that may be null are options, a block of memory is a list of bytes.  A read or
  write outside a block, a null pointer, a second \<open>free\<close> and a failed \<open>assert\<close> are values of the type
  \<open>fault\<close>, returned on the left of a sum; running off the end of a list is written out, never left
  to an unspecified value.  \<open>malloc\<close> is a predicate on sizes, and both of its answers are modelled.
  The state of all modules is one value that the callbacks pass along.  Frames handed to a socket
  are appended to a history of the port.

  \<^bold>\<open>Loops.\<close>  Loops over lists are recursive functions.  The loops of the three machines, the walk
  over TLVs and the dispatch of sockets are partial functions whose value is \<open>None\<close> when they do
  not end; that they end is proved with a rank that every iteration decreases (\<open>tx_rank\<close>,
  \<open>timers_rank\<close>, \<open>rx_rank\<close>, the offset in the frame, the length of the queue of payloads).  No fuel is used.  The transmit timer machine
  ends because the configured intervals are not zero (\<open>timers_live\<close>, part of the invariant), the walk
  because a received frame is shorter than 65000 bytes (the receive buffer has 2300).  The loops of
  the VDP machines and of its message parser are total functions; their termination proofs use the
  ranks \<open>st_rank\<close> and \<open>br_rank\<close> and the bytes that are left.

  \<^bold>\<open>What is shown.\<close>  C1 to C3: the daemon as a whole is safe in every reachable state and the event
  loop never hangs.  C4 and C8 to C10: the discovery protocol (learning, rate limit, timeliness,
  ageing); C5: delivery over the edge control protocol; C6: agreement on priority flow control; C7:
  association of a virtual station interface between station and bridge.  C11 to C14 and C15 to
  C20: the transmit and receive machines against the standard's diagrams, their termination,
  accepted and refused frames.  C21 and C22: the bytes of frames and TLVs.  C23 to C26: the modules
  and the shared memory table.  C27 to C30: the machines and entry points of the edge control
  protocol.  C31 to C34: the exchange of data centre bridging parameters.  C35 to C40: messages,
  station machine and life of virtual station interfaces.  C14, C20, C26, C30, C33, C34 and C38 to
  C40 show defects of the code.  Theorems without a number (timer machine, event loop, commands,
  overflows in ECP and the shared memory table) complete the sections they stand in.

  \<^bold>\<open>Not modelled.\<close>  The other modules (DCBX, 802.3, basic management, MED, the draft version of
  EVB), the draft versions of VDP and ECP, the control interface and the client programs, netlink
  and the queries of interfaces, the configuration file library, start-up and logging.  Of VDP: the
  text commands and the netlink encoding of its clients, the handlers organisations register for
  their TLVs (parameters of the model) and the faults a build with \<open>BUILD_DEBUG\<close> injects.  The module
  of 802.1Qaz is not part of the list \<open>Registered\<close> because its receive callback may change the
  administrative status of the agent, which the contract \<open>lldp_modules\<close> excludes.  Freeing memory is
  modelled only where a second free or a use after it is possible.  Time spent inside a handler and
  signals delivered during a handler are not modelled; signals arrive while the loop waits.
\<close>

section \<open>The daemon\<close>

text \<open>
  C1.  In every state the daemon reaches by ticks, received frames, port and agent commands and
  interface events, in any order, the invariant of ports, agents and modules holds: interface
  indices are unique, every agent type occurs at most once per port, every agent waits in a
  stable state.  From such a state the timer and every command return without a memory fault
  or a failed assertion.
\<close>

theorem reachable_safe:
  assumes "core_reach en h l2i shm (c, w)" "env_ok en" "host_good en h" "l2_good l2i"
  shows "ports_ok en h c w
     \<and> (\<exists>ps w'. timer_ports c (porthead c) w = Some (Inr (ps, w')))
     \<and> (\<exists>st. set_lldp_agent_admin c name ty v w = Some (Inr st))
     \<and> (\<exists>st. set_lldp_port_enable c name v w = Some (Inr st))
     \<and> (\<exists>rc st. reinit_port c name w = Some (Inr (rc, st)))
     \<and> (\<exists>rc st. lldp_add_agent c name ty w = Inr (rc, st))"
proof -
  have ok: "ports_ok en h c w" using core_reach_ok [OF assms] by simp
  then have "core_inv en h c w" by (simp add: ports_ok_def)
  then have "\<exists>ps w'. timer_ports c (porthead c) w = Some (Inr (ps, w'))"
    using lt.timer_ports_ok [of c en h w "porthead c"] by (auto simp: core_inv_def)
  with ok show ?thesis
    using set_lldp_agent_admin_ok [OF ok, of name ty v] set_lldp_port_enable_ok [OF ok, of name v]
      reinit_port_ok [OF ok, of name] lldp_add_agent_ok [OF ok, of name ty] by blast
qed

theorem reachable_safe_witness:
  "\<exists>c. add_port ex_l2_init (start_core ex_env ex_host) 2 ''eth0'' = (True, c)
     \<and> ports_ok ex_env ex_host c (start_world None)
     \<and> (\<exists>rc st. lldp_add_agent c ''eth0'' NEAREST_BRIDGE (start_world None) = Inr (rc, st))"
proof -
  obtain c where c: "add_port ex_l2_init (start_core ex_env ex_host) 2 ''eth0'' = (True, c)"
    by (simp add: add_port_def start_core_def ex_env_def ex_l2_init_def Let_def)
  then have "core_reach ex_env ex_host ex_l2_init None (c, start_world None)"
    unfolding core_reach_def by (intro r_into_rtranclp core_step.new_port)
  from reachable_safe [OF this ex_env_ok(1,2,4), of "''eth0''" NEAREST_BRIDGE] c show ?thesis by blast
qed



text \<open>
  C3.  When nothing is received the daemon runs for ever: every round of the event loop returns,
  and the state it leaves satisfies the invariant, without any fault.
\<close>

theorem silent_network_no_fault:
  assumes "eloop_inv e" "daemon_up en h d"
  shows "\<exists>b e' d'. eloop_round (lldpad_handlers clock (\<lambda>_. None)) r (e, d) = Some (Inr (b, e', d'))
     \<and> eloop_inv e' \<and> daemon_up en h d'"
  using du.eloop_round_ok [OF assms] by blast

theorem silent_network_no_fault_witness:
  "\<exists>b e' d'. eloop_round (lldpad_handlers (\<lambda>n. OS_Time (int n) 0) (\<lambda>_. None)) ex_round
       (snd (start_lldp_agents ex_env (OS_Time 0 0) (eloop_init 0)), ex_daemon) = Some (Inr (b, e', d'))
     \<and> eloop_inv e' \<and> daemon_up ex_env ex_host d'"
  by (rule silent_network_no_fault)
    (simp_all add: start_lldp_agents_def eloop_inv_init eloop_inv_register_timeout ex_daemon_up)

section \<open>The protocol\<close>

text \<open>
  C4.  From one agent to another: a packet built from the TLVs the modules emit, addressed to
  the group address an agent without a neighbour listens on, is accepted by that agent.  It
  stores the frame, learns the sender's chassis and port identifiers and takes over the time to
  live; a time to live of zero makes it forget the sender at once.
\<close>

theorem receiver_learns_sender:
  assumes "lldp_head c = lldpad_mods e h" "env_ok (core_env c)" "mods_inv e h w"
    and "agent_head q = [b]" "rx_waiting q b" "\<not> rxInfoAge (rx b)" "framein (rx b) = None" "length (mac_addr b) = 6"
      "msap_info b = \<lparr>length1 = 0, msap1 = None, length2 = 0, msap2 = None\<rparr>" "\<not> tooManyNghbrs (rx b)"
    and "emits_list mods_emit (lldpad_mods e' h') ((1, cid) # (2, pid) # (3, [hi, lo]) # us)"
      "lldp_frame_size ((1, cid) # (2, pid) # (3, [hi, lo]) # us) \<le> ETH_DATA_LEN" "length src = 6"
    and "pkt = wire_packet (eth_header (mac_addr b) src) ((1, cid) # (2, pid) # (3, [hi, lo]) # us)"
  shows "\<exists>q' b' w'. rxReceiveFrame c q pkt w = Some (Inr (q', w')) \<and> agent_head q' = [b'] \<and> mods_inv e h w'
     \<and> rxTTL (timers b') = be16 hi lo
     \<and> (if be16 hi lo = 0 then forgotten b'
        else rxstate (rx b') = RX_WAIT_FOR_FRAME \<and> framein (rx b') = Some pkt
          \<and> msap1 (msap_info b') = Some cid \<and> msap2 (msap_info b') = Some pid)"
  by (rule neighbour_learns [OF assms])

theorem receiver_learns_sender_witness:
  "\<exists>q' b' w'. rxReceiveFrame (ex_core [ex_port [ex_agent]]) (ex_port [ex_agent])
       (wire_packet (eth_header (mac_addr ex_agent) [2, 0, 0, 0, 0, 7]) (ex_tlvs 0 120)) ex_world = Some (Inr (q', w'))
     \<and> agent_head q' = [b'] \<and> rxTTL (timers b') = be16 0 120
     \<and> (if be16 0 120 = 0 then forgotten b' else msap1 (msap_info b') = Some [4, 2, 0, 0, 0, 0, 7])"
  using receiver_learns_sender [of "ex_core [ex_port [ex_agent]]" ex_env ex_host ex_world "ex_port [ex_agent]" ex_agent
      ex_env ex_host "[4, 2, 0, 0, 0, 0, 7]" "[3, 2, 0, 0, 0, 0, 7]" 0 120 "[]" "[2, 0, 0, 0, 0, 7]", OF _ _ _ _ _ _ _ _ _ _ _ _ _ refl]
    ex_env_ok ex_world_inv ex_rx_waiting ex_tlvs_emitted(1) [of ex_env ex_host 0 120] ex_tlvs_emitted(2) [of 0 120]
  by (auto simp: ex_tlvs_def split: if_splits)

text \<open>
  C8.  The transmit credit is a token bucket: an agent that transmits sends, over any number of
  seconds, at most one frame per second, and never more frames than its credit plus the
  seconds that passed.
\<close>

theorem transmit_rate_bounded:
  assumes "lldp_head c = lldpad_mods e h" "env_ok (core_env c)" "mods_inv e h w" "l2_ok (l2 p)" "agent_inv a" "tx_active p a"
  shows "\<exists>p' a' w' xs. agent_ticks n c p a w = Some (Inr (p', a', w')) \<and> tx_active p' a'
     \<and> l2_sent (l2 p') = l2_sent (l2 p) @ xs
     \<and> length xs + unat (txCredit (timers a')) \<le> unat (txCredit (timers a)) + n \<and> length xs \<le> n"
  using lt.agent_ticks_active [OF assms, of n] by blast

theorem transmit_rate_bounded_witness:
  "\<exists>p' a' w' xs. agent_ticks 60 (ex_core []) (ex_port []) ex_agent ex_world = Some (Inr (p', a', w')) \<and> tx_active p' a'
     \<and> l2_sent (l2 p') = xs \<and> length xs + unat (txCredit (timers a')) \<le> 65"
  using transmit_rate_bounded [of "ex_core []" ex_env ex_host ex_world "ex_port []" ex_agent 60]
    ex_env_ok ex_world_inv ex_agent_inv ex_tx_active by (auto simp: ex_l2_def)



text \<open>
  C10.  Ageing: without a frame from the neighbour its information is kept for exactly as many
  seconds as its time to live says and deleted in the next one.
\<close>

theorem neighbour_ages_out:
  assumes "lldp_head c = lldpad_mods e h" "env_ok (core_env c)" "mods_inv e h w" "l2_ok (l2 p)" "agent_inv a"
    and "rx_waiting p a" "\<not> rxInfoAge (rx a)" "0 < rxTTL (timers a)"
  shows "(\<exists>p' a' w'. agent_ticks (unat (rxTTL (timers a))) c p a w = Some (Inr (p', a', w'))
        \<and> framein (rx a') = framein (rx a) \<and> rxInfoAge (rx a'))
     \<and> (\<exists>p' a' w'. agent_ticks (unat (rxTTL (timers a)) + 1) c p a w = Some (Inr (p', a', w')) \<and> framein (rx a') = None
        \<and> msap_info a' = \<lparr>length1 = 0, msap1 = None, length2 = 0, msap2 = None\<rparr> \<and> remoteChange (rx a'))"
proof -
  have "0 < unat (rxTTL (timers a))" using assms(8) by (simp add: unat_gt_0 word_gt_0)
  then show ?thesis
    using lt.agent_ticks_ageing [OF assms(1-7) order_refl] lt.agent_ticks_forgets [OF assms] by auto
qed

theorem neighbour_ages_out_witness:
  "\<exists>p' a' w'. agent_ticks (unat (3 :: u16) + 1) (ex_core []) (ex_port []) (timers_update (\<lambda>t. t\<lparr>rxTTL := 3\<rparr>) ex_agent) ex_world
       = Some (Inr (p', a', w')) \<and> framein (rx a') = None \<and> remoteChange (rx a')"
proof -
  let ?a = "timers_update (\<lambda>t. t\<lparr>rxTTL := 3\<rparr>) ex_agent"
  have "agent_inv ?a" "rx_waiting (ex_port []) ?a" using ex_agent_inv ex_rx_waiting [of "[]"]
    by (simp_all add: agent_inv_def timers_live_def rx_sized_def rx_quiet_def rx_waiting_def rx_admin_on_def)
  with neighbour_ages_out [of "ex_core []" ex_env ex_host ex_world "ex_port []" ?a] show ?thesis
    using ex_env_ok ex_world_inv by (simp add: word_gt_0) blast
qed

section \<open>The transmit machines\<close>



text \<open>
  C12.  Whatever the modules do, the loop of the transmit machine ends, and if no call faults it
  ends in a state the machine does not leave by itself.
\<close>

theorem run_tx_sm_terminates:
  "\<exists>r. run_tx_sm c p a w = Some r
     \<and> (case r of Inl e \<Rightarrow> True | Inr (p', a', w') \<Rightarrow> set_tx_state p' a' = Inr (False, p', a'))"
proof -
  obtain r where r: "run_tx_sm c p a w = Some r" using run_tx_sm_returns [of c p a w] by blast
  then show ?thesis using run_tx_sm_stable by (cases r) auto
qed


text \<open>
  One second of the transmit timer machine: it returns to its idle state, the credit grows
  by one up to its maximum, and a due transmission is signalled to the transmit machine.
\<close>

theorem tx_timers_second:
  assumes "portEnabled p" "tx_admin_on a" "timers_state (timers a) = TX_TIMER_IDLE" "timers_live a"
  shows "\<exists>a1. run_tx_timers_sm p (update_tx_timers a) = Some a1 \<and> timers_quiet a1
     \<and> txCredit (timers a1) = (if txCredit (timers a) < txMaxCredit (timers a) then txCredit (timers a) + 1 else txCredit (timers a))
     \<and> (tx_due (update_tx_timers a) \<longrightarrow> txNow (tx a1))"
  using timers_second [OF assms] by blast

theorem tx_timers_second_witness:
  "\<exists>a1. run_tx_timers_sm (ex_port []) (update_tx_timers ex_agent) = Some a1 \<and> timers_quiet a1 \<and> txCredit (timers a1) = 5"
  using tx_timers_second [of "ex_port []" ex_agent] ex_agent_inv
  by (auto simp: tx_admin_on_def agent_inv_def)



section \<open>The receive machine\<close>


text \<open>
  C16.  The receive machine ends on every frame: either the processing of the frame faults, or the
  machine stops in a state it does not leave by itself, and the modules' invariant holds.
\<close>

theorem run_rx_sm_terminates:
  assumes "lldp_head c = lldpad_mods e h" "mods_inv e h w" "rx_sized a"
  shows "(\<exists>f. run_rx_sm c p a w = Some (Inl f))
    \<or> (\<exists>p' a' w'. run_rx_sm c p a w = Some (Inr (p', a', w')) \<and> mods_inv e h w' \<and> set_rx_state p' a' = Inr (False, a'))"
  using lm.run_rx_sm_stable [OF assms] by blast

theorem run_rx_sm_terminates_witness:
  "(\<exists>f. run_rx_sm (ex_core []) (ex_port []) ex_agent ex_world = Some (Inl f))
    \<or> (\<exists>p' a' w'. run_rx_sm (ex_core []) (ex_port []) ex_agent ex_world = Some (Inr (p', a', w'))
        \<and> mods_inv ex_env ex_host w' \<and> set_rx_state p' a' = Inr (False, a'))"
  by (rule run_rx_sm_terminates) (simp_all add: ex_world_inv rx_sized_def)

text \<open>
  C17.  The loop over the TLVs of a well-formed frame, with its offsets, counters and length
  checks on the raw bytes, does what the specification says: it delivers the TLVs that were
  encoded, in order, up to the end TLV.
\<close>

theorem tlv_loop_refines_items:
  assumes "lldp_head c = lldpad_mods e h" "malloc_ok (core_env c) 16" "\<forall>n < 512. malloc_ok (core_env c) n" "mods_inv e h w"
    and "framein (rx a) = Some (pre @ tlv_concat ts @ [0, 0] @ rest)"
    and "unat (sizein (rx a)) = length (pre @ tlv_concat ts @ [0, 0] @ rest)" "rx_sized a"
    and "unat (l_tlv_offset l) = length pre" "l_tlv_cnt l = 0" "wf_lldpdu ts"
  shows "rx_tlv_loop c p l a w = Some (rx_items c p (ts @ [(0, [])]) l a w)"
  using assms by (intro lm.rx_tlv_loop_items [where n = 0]) (auto simp: wf_lldpdu_def)

theorem tlv_loop_refines_items_witness:
  "rx_tlv_loop (ex_core []) (ex_port []) init_locals (ex_rx_agent (ex_hdr @ tlv_concat (ex_tlvs 0 120) @ [0, 0] @ [])) ex_world
     = Some (rx_items (ex_core []) (ex_port []) (ex_tlvs 0 120 @ [(0, [])]) init_locals
         (ex_rx_agent (ex_hdr @ tlv_concat (ex_tlvs 0 120) @ [0, 0] @ [])) ex_world)"
  by (rule tlv_loop_refines_items [of _ ex_env ex_host _ _ ex_hdr _ "[]"])
    (simp_all add: ex_world_inv rx_sized_def ex_tlvs_length init_locals_def wf_lldpdu_def ex_tlvs_def)

text \<open>
  C18.  A well-formed LLDPDU from the known neighbour, or from a first one, in full: the machine
  processes the frame and waits again.  With a time to live the chassis and port identifiers and
  the time to live of the frame are stored; with time to live zero everything known about the
  neighbour is deleted.
\<close>

theorem rx_accepts_well_formed:
  assumes "lldp_head c = lldpad_mods e h" "\<forall>n < 512. malloc_ok (core_env c) n" "mods_inv e h w"
    and "rxstate (rx a) = RX_WAIT_FOR_FRAME" "portEnabled p" "rx_admin_on a" "rcvFrame (rx a)" "\<not> rxInfoAge (rx a)"
    and "framein (rx a) = Some (hdr @ tlv_concat ((1, cid) # (2, pid) # (3, [hi, lo]) # ts) @ [0, 0] @ rest)"
      "length hdr = ETH_HLEN"
    and "unat (sizein (rx a)) = length (hdr @ tlv_concat ((1, cid) # (2, pid) # (3, [hi, lo]) # ts) @ [0, 0] @ rest)"
      "rx_sized a"
    and "length cid < 512" "length pid < 512" "lldpdu_order 3 ts"
      "\<forall>(ty, bs) \<in> set ts. evb22_accepts (wire_tlv ty bs) \<or> ty \<noteq> ORG_SPECIFIC_TLV"
    and "msap_wf (msap_info a)"
    and "msap1 (msap_info a) = None \<and> \<not> tooManyNghbrs (rx a)
      \<or> msap1 (msap_info a) = Some cid \<and> msap2 (msap_info a) = Some pid"
  shows "\<exists>p' a' w'. run_rx_sm c p a w = Some (Inr (p', a', w')) \<and> mods_inv e h w'
     \<and> rxTTL (timers a') = be16 hi lo
     \<and> (if be16 hi lo = 0 then forgotten a'
        else rxstate (rx a') = RX_WAIT_FOR_FRAME \<and> \<not> rcvFrame (rx a') \<and> framein (rx a') = framein (rx a)
          \<and> msap1 (msap_info a') = Some cid \<and> msap2 (msap_info a') = Some pid)"
proof -
  have "\<And>n. n < 512 \<Longrightarrow> malloc_ok (core_env c) n" using assms(2) by blast
  from lr.run_rx_sm_frame [OF assms(1) this assms(3-)] show ?thesis by blast
qed

theorem rx_accepts_well_formed_witness:
  "\<exists>p' a' w'. run_rx_sm (ex_core []) (ex_port []) (ex_rx_agent (ex_hdr @ tlv_concat (ex_tlvs 0 0) @ [0, 0] @ [])) ex_world
      = Some (Inr (p', a', w')) \<and> rxTTL (timers a') = be16 0 0 \<and> (if be16 0 0 = 0 then forgotten a' else False)"
proof -
  let ?a = "ex_rx_agent (ex_hdr @ tlv_concat (ex_tlvs 0 0) @ [0, 0] @ [])"
  have z: "be16 0 0 = 0" by (simp add: be16_def)
  have "rx_sized ?a" "unat (sizein (rx ?a)) = 38" by (simp_all add: rx_sized_def ex_tlvs_length)
  with rx_accepts_well_formed [of "ex_core []" ex_env ex_host ex_world ?a "ex_port []" ex_hdr
      "[4, 2, 0, 0, 0, 0, 7]" "[3, 2, 0, 0, 0, 0, 7]" 0 0 "[]" "[]"] show ?thesis
    using z by (auto simp: ex_world_inv rx_admin_on_def ex_tlvs_def msap_wf_def)
qed

text \<open>
  A frame identical to the stored one only refreshes the time to live and counts; nothing is
  parsed again and no module is called.
\<close>

theorem duplicate_frame_refreshes:
  assumes "agent_head p = a # as" "framein (rx a) = Some buf" "unat (sizein (rx a)) = length buf" "buf \<noteq> []"
  shows "rxReceiveFrame c p buf w = Some (Inr (p\<lparr>agent_head :=
     a\<lparr>timers := (timers a)\<lparr>rxTTL := lastrxTTL (timers a)\<rparr>,
       stats := (stats a)\<lparr>statsFramesInTotal := statsFramesInTotal (stats a) + 1\<rparr>\<rparr> # as\<rparr>, w))"
  using assms by (simp add: rxReceiveFrame_def)

theorem duplicate_frame_refreshes_witness:
  "\<exists>p'. rxReceiveFrame (ex_core []) (ex_port [ex_rx_agent [1, 2, 3]]) [1, 2, 3] ex_world = Some (Inr (p', ex_world))"
  using duplicate_frame_refreshes [of "ex_port [ex_rx_agent [1, 2, 3]]" "ex_rx_agent [1, 2, 3]" "[]" "[1, 2, 3]" "ex_core []" ex_world]
  by simp

text \<open>
  C19.  A frame whose first TLV is not a chassis ID is discarded: it is counted as discarded and as
  erroneous, marked bad, and neither the stored identity of the neighbour, the time to live nor
  any module's data changes.
\<close>

theorem out_of_order_frame_discarded:
  assumes "framein (rx a) = Some buf" "unat (sizein (rx a)) = length buf" "16 \<le> length buf"
    and "malloc_ok (core_env c) 64" "read_be16 buf ETH_HLEN = Inr head" "ucast (drop_bit 9 head) \<noteq> (1 :: u8)"
  shows "\<exists>p' a'. rxProcessFrame c p a w = Some (Inr (p', a', w)) \<and> badFrame (rx a')
     \<and> statsFramesDiscardedTotal (stats a') = statsFramesDiscardedTotal (stats a) + 1
     \<and> statsFramesInErrorsTotal (stats a') = statsFramesInErrorsTotal (stats a) + 1
     \<and> msap_info a' = msap_info a \<and> timers a' = timers a \<and> manifest (rx a') = None"
  by (rule rxProcessFrame_not_chassis [OF assms])

theorem out_of_order_frame_discarded_witness:
  "\<exists>p' a'. rxProcessFrame (ex_core []) (ex_port []) (ex_rx_agent (ex_hdr @ [0x04, 0x01, 0x07])) ex_world
      = Some (Inr (p', a', ex_world)) \<and> badFrame (rx a')"
proof -
  have "read_be16 (ex_hdr @ [0x04, 0x01, 0x07]) 14 = Inr (be16 0x04 0x01)" by (simp add: read_be16_at)
  moreover have "ucast (drop_bit 9 (be16 0x04 0x01)) \<noteq> (1 :: u8)" by (simp add: be16_def)
  ultimately show ?thesis
    using out_of_order_frame_discarded [of "ex_rx_agent (ex_hdr @ [0x04, 0x01, 0x07])" "ex_hdr @ [0x04, 0x01, 0x07]"
        "ex_core []" "be16 0x04 0x01" "ex_port []" ex_world] by auto
qed

text \<open>
  C20.  A frame that ends after the Ethernet header, or one byte later, is not rejected: the loop
  reads the header of the first TLV from beyond the end of the received bytes.
\<close>

theorem header_only_frame_overread:
  assumes "framein (rx a) = Some buf" "unat (sizein (rx a)) = length buf" "length buf = 14 \<or> length buf = 15"
    and "malloc_ok (core_env c) 64"
  shows "rxProcessFrame c p a w = Some (Inl Out_Of_Bounds)"
  by (rule rxProcessFrame_header_only [OF assms])

theorem header_only_frame_overread_witness:
  "rxProcessFrame (ex_core []) (ex_port []) (ex_rx_agent ex_hdr) ex_world = Some (Inl Out_Of_Bounds)"
  by (rule header_only_frame_overread [of _ ex_hdr]) simp_all

section \<open>Frames and TLVs\<close>

text \<open>
  C21.  The constructor of information frames either gives up or produces exactly the specified
  frame: Ethernet header, the modules' TLVs in their order, the end TLV, zero padding to the
  minimum length, and the size it records is the length that has to be sent.
\<close>

theorem info_frame_layout:
  assumes "lldp_head c = lldpad_mods e h" "mods_inv e h w"
    and "malloc_ok (core_env c) ETH_FRAME_LEN" "malloc_ok (core_env c) 16" "malloc_ok (core_env c) 2"
    and "length (frame_hdr c p a) = ETH_HLEN"
  shows "(\<exists>w'. mibConstrInfoLLDPDU c p a w = Inr (False, frame_error a, w') \<and> mods_inv e h w')
    \<or> (\<exists>ts w'. mibConstrInfoLLDPDU c p a w
          = Inr (True, set_out (lldp_frame (frame_hdr c p a) ts) (of_nat (lldp_frame_size ts)) a, w')
        \<and> emits_list mods_emit (lldpad_mods e h) ts \<and> wf_seq ts \<and> lldp_frame_size ts \<le> ETH_DATA_LEN \<and> mods_inv e h w')"
  by (rule lm.mibConstrInfoLLDPDU_spec [OF assms(1-5) _ assms(6)]) (simp add: frame_hdr_def)

theorem info_frame_layout_witness:
  "\<exists>b a' w'. mibConstrInfoLLDPDU (ex_core []) (ex_port []) ex_agent ex_world = Inr (b, a', w') \<and> mods_inv ex_env ex_host w'"
proof -
  have "length (frame_hdr (ex_core []) (ex_port []) ex_agent) = ETH_HLEN"
    by (rule tx_readyD(5)) (rule tx_ready_inv, simp_all add: ex_env_ok)
  from info_frame_layout [OF _ ex_world_inv(1) _ _ _ this] show ?thesis by auto
qed

text \<open>
  The constructor of shutdown frames, with the mandatory module registered: it gives up, or
  the frame holds the mandatory TLVs with time to live zero and nothing else but the end TLV (or
  no TLV at all when the module has no data for the port).
\<close>

theorem shutdown_frame_layout:
  assumes "lldp_head c = lldpad_mods e h" "mods_inv e h w" "tx_ready c p a"
  shows "(\<exists>a' w'. mibConstrShutdownLLDPDU c p a w = Inr (False, a', w') \<and> mods_inv e h w')
    \<or> (\<exists>ts w'. mibConstrShutdownLLDPDU c p a w
          = Inr (True, set_out (lldp_frame (frame_hdr c p a) ts) (of_nat (lldp_frame_size ts)) a, w')
        \<and> (ts = [] \<or> (\<exists>cid pid. ts = [(1, cid), (2, pid), (3, [0, 0])])) \<and> lldp_frame_size ts \<le> ETH_DATA_LEN
        \<and> mods_inv e h w')"
proof -
  have "ts = [] \<or> (\<exists>cid pid. ts = [(1, cid), (2, pid), (3, [0, 0])])"
    if "shutdown_seq mods_emit (lldpad_mods e h) ts" for ts
    using that by (auto simp: shutdown_seq_def mods_emit_def mand_seq_def append_eq_Cons_conv)
  then show ?thesis using lt.mibConstrShutdownLLDPDU_cases [OF assms] by blast
qed

theorem shutdown_frame_layout_witness:
  "\<exists>b a' w'. mibConstrShutdownLLDPDU (ex_core []) (ex_port []) ex_agent ex_world = Inr (b, a', w')"
proof -
  have "tx_ready (ex_core []) (ex_port []) ex_agent" by (rule tx_ready_inv) (simp_all add: ex_env_ok)
  from shutdown_frame_layout [OF _ ex_world_inv(1) this] show ?thesis by auto
qed

text \<open>
  C22.  Packing a well-formed TLV and unpacking the bytes gives the TLV back; the packed form is
  the seven bit type, the nine bit length and the information string.
\<close>

theorem tlv_pack_unpack:
  assumes "wf_tlv t" "\<forall>n \<le> 1000. ok n"
  shows "\<exists>p. pack_tlv ok (Some t) = Inr (Some p) \<and> ptlv_tlv p = Some (tlv_encode (tlv_type t) (tlv_payload t))
     \<and> unpack_tlv ok (Some p) = Inr (Some (t\<lparr>tlv_info := Some (tlv_payload t)\<rparr>))"
proof -
  have l: "unat (tlv_length t) < 512" "tlv_type t < 128" using assms(1) by (simp_all add: wf_tlv_def)
  have "pack_tlv ok (Some t) = Inr (Some \<lparr>ptlv_size = tlv_length t + 2,
      ptlv_tlv = Some (tlv_encode (tlv_type t) (tlv_payload t))\<rparr>)"
    using assms(2) l(1) by (intro pack_tlv_wf [OF assms(1)]) simp_all
  moreover have "unpack_tlv ok (Some \<lparr>ptlv_size = tlv_length t + 2,
      ptlv_tlv = Some (tlv_encode (tlv_type t) (tlv_payload t) @ [])\<rparr>)
      = Inr (Some \<lparr>tlv_type = tlv_type t, tlv_length = of_nat (length (tlv_payload t)), tlv_info = Some (tlv_payload t)\<rparr>)"
    using assms l by (intro unpack_encoded) (simp_all add: wf_tlv_payload)
  ultimately show ?thesis using wf_tlv_of_nat [OF assms(1)] by simp
qed

theorem tlv_pack_unpack_witness:
  "\<exists>p. pack_tlv (\<lambda>_. True) (Some \<lparr>tlv_type = 3, tlv_length = 2, tlv_info = Some [0, 120]\<rparr>) = Inr (Some p)
     \<and> unpack_tlv (\<lambda>_. True) (Some p) = Inr (Some \<lparr>tlv_type = 3, tlv_length = 2, tlv_info = Some [0, 120]\<rparr>)"
proof -
  have "wf_tlv \<lparr>tlv_type = 3, tlv_length = 2, tlv_info = Some [0, 120]\<rparr>" by (simp add: wf_tlv_def)
  from tlv_pack_unpack [OF this, of "\<lambda>_. True"] show ?thesis by (auto simp: tlv_payload_def)
qed

text \<open>
  Appending a TLV to a buffer: when it fits, its encoding is appended to what was there and
  the buffer keeps its length; the used size never exceeds the size of the buffer.
\<close>

theorem pack_tlv_after_appends:
  assumes "wf_tlv t" "\<forall>k \<le> 1000. ok k" "ptlv_tlv m = Some buf" "length buf = n" "n < 65536"
    and "unat (ptlv_size m) + unat (tlv_length t) + 2 \<le> n"
  shows "\<exists>m'. pack_tlv_after ok (Some t) m (int n) = Inr (0, m')
     \<and> mtlv_used m' = mtlv_used m @ tlv_encode (tlv_type t) (tlv_payload t)
     \<and> unat (ptlv_size m') = unat (ptlv_size m) + unat (tlv_length t) + 2 \<and> unat (ptlv_size m') \<le> n
     \<and> (\<exists>buf'. ptlv_tlv m' = Some buf' \<and> length buf' = n)"
proof -
  have "unat (tlv_length t) < 512" using assms(1) by (simp add: wf_tlv_def)
  then have "ok 16" "ok (unat (tlv_length t) + 2)" using assms(2) by simp_all
  from pack_tlv_after_fits [OF assms(1) this assms(3-6)] assms(6) show ?thesis by auto
qed

theorem pack_tlv_after_appends_witness:
  "\<exists>m'. pack_tlv_after (\<lambda>_. True) (Some \<lparr>tlv_type = 3, tlv_length = 2, tlv_info = Some [0, 120]\<rparr>)
      \<lparr>ptlv_size = 0, ptlv_tlv = Some (replicate 6 0)\<rparr> 6 = Inr (0, m') \<and> unat (ptlv_size m') = 4"
  using pack_tlv_after_appends [of "\<lparr>tlv_type = 3, tlv_length = 2, tlv_info = Some [0, 120]\<rparr>" "\<lambda>_. True"
      "\<lparr>ptlv_size = 0, ptlv_tlv = Some (replicate 6 0)\<rparr>" "replicate 6 0" 6] by (auto simp: wf_tlv_def)

section \<open>The modules\<close>



text \<open>
  C24.  Shared memory: what was stored for an interface is read back, unchanged, and the table
  stays well formed.
\<close>

theorem shm_set_get_msap:
  assumes "tbl_wf t" "lldpad_shm_set_msap (Some t) name ty info = (1, Some t')" "length name \<le> 16" "info \<noteq> []"
  shows "tbl_wf t' \<and> lldpad_shm_get_msap (Some t') name ty = Inr (Some info, Some t')"
  by (rule set_get_msap [OF assms])

theorem shm_set_get_msap_witness:
  "\<exists>t'. lldpad_shm_set_msap (Some (ex_tbl 0)) ''eth0'' 1 [4, 2, 0, 0, 0, 0, 1] = (1, Some t')
     \<and> lldpad_shm_get_msap (Some t') ''eth0'' 1 = Inr (Some [4, 2, 0, 0, 0, 0, 1], Some t')"
proof -
  have t: "tbl_wf (ex_tbl 0)" "shm_num (ex_tbl 0) = 0" "shm_attach (ex_tbl 0) = ex_tbl 0"
    using ex_tbl_wf [of 0] tbl_wf_attach by simp_all
  then obtain t' where "lldpad_shm_set_msap (Some (ex_tbl 0)) ''eth0'' 1 [4, 2, 0, 0, 0, 0, 1] = (1, Some t')"
    by (simp add: lldpad_shm_set_msap_def shm_find_def Let_def)
  with shm_set_get_msap [OF t(1) this] show ?thesis by simp
qed

text \<open>
  The lookup of an interface that is not in a full table reads past the end of the table: the
  position is compared with the counter including the version bits, which it never reaches.
\<close>

theorem shm_lookup_past_full_table:
  assumes "tbl_wf t" "shm_find t name = shm_num t" "ty = 1 \<or> ty = 2" "shm_num t = 36"
  shows "lldpad_shm_get_msap (Some t) name ty = Inl Out_Of_Bounds"
  by (rule get_msap_unknown(1) [OF assms])

theorem shm_lookup_past_full_table_witness:
  "lldpad_shm_get_msap (Some (ex_tbl 36)) ''eth0'' 1 = Inl Out_Of_Bounds"
proof -
  have "find_entry ''eth0'' (replicate n ex_entry) = n" for n by (induction n) (simp_all add: ex_entry_def)
  then have "shm_find (ex_tbl 36) ''eth0'' = 36" using ex_tbl_wf(2) [of 36]
    by (simp add: shm_find_def) (simp add: ex_tbl_def del: replicate.simps)
  then show ?thesis using ex_tbl_wf [of 36] by (intro shm_lookup_past_full_table) simp_all
qed

text \<open>
  The conversion of a table in the old layout on first use gives a well-formed table of the
  current version, whatever count the old one claimed.
\<close>

theorem shm_conversion_wf:
  assumes "shm_version t = 0" "length (shm_ent t) = 38" "length (shm_rest t) = 36"
    "\<forall>e \<in> set (shm_ent t) \<union> set (shm_rest t). entry_wf e"
  shows "tbl_wf (shm_attach t) \<and> shm_version (shm_attach t) = 1"
  using attach_wf [OF assms] tbl_wf_num by blast

theorem shm_conversion_wf_witness:
  "tbl_wf (shm_attach \<lparr>shm_pid = 1, shm_num_entries = 38, shm_ent = replicate 38 ex_entry, shm_rest = replicate 36 ex_entry\<rparr>)"
  using shm_conversion_wf [of "\<lparr>shm_pid = 1, shm_num_entries = 38, shm_ent = replicate 38 ex_entry, shm_rest = replicate 36 ex_entry\<rparr>"]
  by (simp add: shm_version_eq entry_wf_def ex_entry_def)

text \<open>
  C25.  EVB: the parameters a station or bridge advertises are the maximum of its own and the
  received ones, field by field (retries, retransmission exponent, reinit wait and keep-alive
  exponents), and its mode is its own.
\<close>

theorem evb_parameters_negotiated:
  fixes ed
  defines "out \<equiv> evb_out (common_tlv ed)" and "recv \<equiv> evb_last ed" and "mine \<equiv> evb_policy ed"
  shows "evb_ex_retries (r_rte out) = max (evb_ex_retries (r_rte mine)) (evb_ex_retries (r_rte recv))
    \<and> evb_ex_rte (r_rte out) = max (evb_ex_rte (r_rte mine)) (evb_ex_rte (r_rte recv))
    \<and> evb_ex_rwd (evb_mode out) = max (evb_ex_rwd (evb_mode mine)) (evb_ex_rwd (evb_mode recv))
    \<and> evb_ex_rka (rl_rka out) = max (evb_ex_rka (rl_rka mine)) (evb_ex_rka (rl_rka recv))
    \<and> evb_ex_evbmode (evb_mode out) = evb_ex_evbmode (evb_mode mine)"
  unfolding out_def recv_def mine_def by (simp only: common_tlv_max simp_thms)

text \<open>
  C26.  An EVB TLV longer than the nine bytes of the record it is copied to overflows that record;
  only a lower bound on its length is checked.
\<close>

theorem evb_tlv_overflow:
  assumes "evb22_inv w" "agenttype a = NEAREST_CUSTOMER_BRIDGE" "evb22_data w (ifname p) (agenttype a) = Some i"
    and "txmit (evb22_head w ! i)" "tlv_type t = ORG_SPECIFIC_TLV" "tlv_info t = Some info"
    and "length info = unat (tlv_length t)" "take 4 info = LLDP_MOD_EVB22_OUI" "9 < unat (tlv_length t)"
  shows "evb22_rchange e p a t w = Inl Out_Of_Bounds"
proof -
  have "ed_wf (evb22_head w ! i)" using evb22_data_wf [OF assms(1,3)] by blast
  then have "copy_last (evb_last (evb22_head w ! i)) info (unat (tlv_length t)) = Inl Out_Of_Bounds"
    using assms(7,9) by (intro copy_last_overflow) (simp_all add: ed_wf_def)
  then show ?thesis using assms by (simp add: evb22_rchange_def read_bytes_def Let_def)
qed

theorem evb_tlv_overflow_witness:
  "evb22_rchange ex_env (ex_port []) (ex_agent\<lparr>agenttype := NEAREST_CUSTOMER_BRIDGE\<rparr>)
     \<lparr>tlv_type = ORG_SPECIFIC_TLV, tlv_length = 10, tlv_info = Some (LLDP_MOD_EVB22_OUI @ replicate 6 0)\<rparr> ex_evb22
   = Inl Out_Of_Bounds"
  by (rule evb_tlv_overflow [OF ex_evb22_inv, where i = 0 and info = "LLDP_MOD_EVB22_OUI @ replicate 6 0"])
    (simp_all add: evb22_data_def ex_evb22_def ex_ed_def LLDP_MOD_EVB22_OUI_def)

text \<open>
  Unregistering the mandatory module frees the data of every interface, each exactly once.
\<close>

theorem mand_unregister_frees_all:
  assumes "mand_inv w"
  shows "\<exists>w'. mand_unregister (Some ns) ps w = Inr w' \<and> mand_head w' = []"
  by (rule mand_unregister_ok [OF assms])

theorem mand_unregister_frees_all_witness:
  "\<exists>w'. mand_unregister (Some [(2, ''eth0'')]) [ex_port [ex_agent]] ex_mand = Inr w' \<and> mand_head w' = []"
  by (rule mand_unregister_frees_all [OF ex_mand_inv])

section \<open>The edge control protocol\<close>

text \<open>
  C5.  Two stations over a link that keeps the order of frames and may lose any of them: what the
  receiver passes on is a part of the payloads queued at the sender, in their order and each at
  most once.  If no request was lost and none is on its way, every payload taken from the queue
  has been passed on.
\<close>

theorem ecp22_delivers_in_order:
  assumes "(ecp_step ca cb)\<^sup>*\<^sup>* s t" "ecp_net_start ca cb s"
  shows "subseq (delivered t) (map (padded \<circ> snd) (submitted t))
     \<and> (\<not> lost t \<and> left_a t = length (sent_log (na t)) \<longrightarrow>
          delivered t = map (padded \<circ> snd) (take (length (submitted t) - length (inuse (na t))) (submitted t)))"
proof -
  have inv: "ecp_net_inv ca cb t" by (rule ecp_run_inv [OF assms(1) start_inv [OF assms(2)]])
  then show ?thesis using ecp_inv_in_order [OF inv] ecp_inv_complete [OF inv] by blast
qed

theorem ecp22_delivers_in_order_witness:
  "\<exists>t. (ecp_step ex_ecp_core ex_ecp_core)\<^sup>*\<^sup>* ex_ecp_net t \<and> submitted t = [(replicate 6 1, [7])] \<and> delivered t = [padded [7]]"
proof -
  let ?c = ex_ecp_core and ?n = "\<lparr>pn_ptlv = Some \<lparr>ptlv_size = 1, ptlv_tlv = Some [7]\<rparr>, pn_subtype = 1, pn_mac = replicate 6 1\<rparr>"
  let ?e = "ex_ecp\<lparr>inuse := [?n]\<rparr>"
  have n: "node_wf ?n" "node_bytes ?n = [7]" by (simp_all add: node_wf_def node_bytes_def)
  have e: "ecp_wf ?e" "ecp_settled ?c ?e" "sender_ok ?e" "\<not> eb_ecpdu_received (ecp_tx ?e)"
    using ex_ecp_ok(2-4) n(1) by (simp_all add: ecp_wf_def ecp_settled_def)
  obtain a evs where a: "ecp22_tx_run_sm ?c ?e = Some (Inr (?c, a, evs))" "length (sent_log a) = 1" "inuse a = []"
    using run_sm_activate [OF ex_ecp_ok(1) e(2,1,3)]
    by (auto simp: tx_ends_def sent_frames_def sender_of_def sender_activate_def Let_def ex_l2_def)
  let ?s = "ex_ecp_net\<lparr>na := a, submitted := [(replicate 6 1, [7])]\<rparr>"
  have "ecp22_add_payload ?c (na ex_ecp_net) ?n = Some (Inr (?c, a, evs))"
    using a(1) e(4) by (simp add: ecp22_add_payload_def ex_ecp_net_def Let_def)
  from ecp_step.submit [OF n(1) this, of ?c] have s1: "ecp_step ?c ?c ex_ecp_net ?s" by (simp add: n(2) ex_ecp_net_def)
  have inv: "ecp_net_inv ?c ?c ?s" by (rule ecp_step_inv [OF s1 start_inv [OF ex_ecp_net_start]])
  obtain f b evs' where f: "sent_log a ! 0 = Some f" "ecp22_rx_receiveframe ?c ex_ecp f = Some (Inr (b, evs'))"
    using ecp_inv_progress(2) [OF inv] a(2) by (auto simp: ex_ecp_net_def)
  let ?t = "?s\<lparr>nb := b, left_a := 1, delivered := passed_on evs'\<rparr>"
  have "ecp_step ?c ?c ?s ?t" using ecp_step.request [of ?s f ?c b evs' ?c] f a(2) by (simp add: ex_ecp_net_def)
  with s1 have run: "(ecp_step ?c ?c)\<^sup>*\<^sup>* ex_ecp_net ?t" by simp
  from ecp22_delivers_in_order [OF run ex_ecp_net_start] a(2,3) have "delivered ?t = [padded [7]]" by (simp add: ex_ecp_net_def)
  then show ?thesis using run by (intro exI [of _ ?t]) (simp add: ex_ecp_net_def)
qed

text \<open>
  C27.  The transmit machine implements a sender without states: whatever the machine was doing,
  a run returns without fault, leaves the sender the specification gives (a frame in flight with
  its number of tries, the waiting payloads, the payloads given up), has sent exactly the frames
  of the specification, and has started one acknowledgement timer per frame.  A port that went
  down starts the sender anew.
\<close>

theorem ecp22_tx_refines_sender:
  assumes "env_ok (core_env c)" "ecp_port c e = Some i" "ecp_wf e" "sender_ok e \<or> eb_state (ecp_tx e) = ECP22_TX_BEGIN"
  shows "\<exists>e'. ecp22_tx_run_sm c e
         = Some (Inr (ecp_seen c e, e', replicate (length (snd (sender_run c e))) (ecp22_tx_start_acktimer e)))
     \<and> sender_of e' = fst (sender_run c e) \<and> sent_log e' = sent_log e @ map Some (snd (sender_run c e))
     \<and> ecp_wf e' \<and> sender_ok e'"
  using run_sm_sender [OF assms] by (auto simp: tx_ends_def sent_frames_def)

theorem ecp22_tx_refines_sender_witness:
  "\<exists>e'. ecp22_tx_run_sm ex_ecp_core ex_ecp = Some (Inr (ecp_seen ex_ecp_core ex_ecp, e', [])) \<and> sender_ok e'"
  using ecp22_tx_refines_sender [OF ex_ecp_ok(1,6,2)] ex_ecp_ok(3)
  by (fastforce simp: sender_run_def Let_def sender_activate_def sender_of_def ecp_down_def ex_ecp_core_def port_find_by_ifindex_def)

text \<open>
  C28.  The receive machine on a request equals one assignment: the frame is kept and counted,
  its number becomes the last one seen, an acknowledgement with the same number is sent, and the
  payload is passed on exactly when the number differs from the last one seen (always for the
  first request after a start).
\<close>

theorem ecp22_request_handled:
  assumes "ecp_wf e" "env_ok (core_env c)" "rx_up c e" "\<not> eb_ecpdu_received (ecp_rx e)" "length buf \<le> ETH_FRAME_LEN"
    "eb_state (ecp_rx e) = ECP22_RX_WAIT \<or> eb_state (ecp_rx e) = ECP22_RX_WAIT2"
    "ecp_header_ok (rx_word (rx_got e buf) 14)" "ecp22_hdr_read_op (rx_word (rx_got e buf) 14) = ECP22_REQUEST"
  shows "ecp22_rx_receiveframe c e buf = Some (Inr (rx_took c (rx_got e buf),
     if rx_seen e = Some (rx_word (rx_got e buf) 16) then []
     else ecp22_to_ulp (ecp22_hdr_read_subtype (rx_word (rx_got e buf) 14)) (rx_got e buf)))"
  by (rule receiveframe_request [OF assms])

theorem ecp22_request_handled_witness:
  "\<exists>e' evs. ecp22_rx_receiveframe ex_ecp_core ex_ecp (ecp_request (replicate 6 1) (replicate 6 2) 5 [7]) = Some (Inr (e', evs))
     \<and> passed_on evs = [padded [7]] \<and> rx_seen e' = Some 5"
proof -
  let ?f = "ecp_request (replicate 6 1) (replicate 6 2) 5 [7]"
  note f = request_frame [of "replicate 6 1" "replicate 6 2" "[7]"]
  from ecp22_request_handled [OF ex_ecp_ok(2,1,5) _ f(1)] f(2-4) show ?thesis
    by (simp add: ecp_words rx_took_def rx_acked_def rx_seen_def)
qed

text \<open>
  C29.  In every state the module reaches by starting and stopping interfaces, timers, received
  frames and notifications, under ports that change in any way, every interface is well formed,
  and the timer of a running interface, a frame of up to 1514 bytes on its socket, and a
  notification are processed without fault.
\<close>

theorem ecp22_reachable_safe:
  assumes "ecp_reach en l2i c w" "env_ok en" "l2_good l2i"
  shows "ecp_world_ok w
     \<and> (\<forall>ptr \<in> set (map ecp_ptr (ecp22_head w)). (\<exists>st. ecp22_ack_timeout_handler c ptr w = Some (Inr st))
         \<and> (\<forall>buf. length buf \<le> ETH_FRAME_LEN \<longrightarrow> (\<exists>w'. ecp22_receive c ptr buf w = Some (Inr w'))))
     \<and> (\<exists>st. ecp22_notify c sender name (EVB22_TO_ECP22 rte retry) w = Some (Inr st))
     \<and> (\<forall>len data. unat len \<le> length data \<longrightarrow> (\<exists>st. ecp22_notify c sender name (VDP22_TO_ECP22 len data) w = Some (Inr st)))"
proof -
  have ok: "env_ok (core_env c)" "ecp_world_ok w" using ecp_reach_ok [OF assms(1,2)] assms(2,3) by (simp_all add: l2_good_def)
  then show ?thesis
    using ack_timeout_ok [OF ok] receive_ok [OF ok] notify_ok [OF ok, of "EVB22_TO_ECP22 rte retry" sender name]
      notify_ok [OF ok, of "VDP22_TO_ECP22 _ _" sender name] by (intro conjI ballI allI impI; fastforce)
qed

theorem ecp22_reachable_safe_witness:
  "\<exists>c w. ecp22_start ex_l2_init ex_ecp_core ''eth0'' \<lparr>ecp22_head = [], ecp22_next = 0, ecp22_events = []\<rparr> = Some (Inr (c, w))
     \<and> ecp_world_ok w"
proof -
  let ?w = "\<lparr>ecp22_head = [], ecp22_next = 0, ecp22_events = []\<rparr>"
  have l2: "\<And>nm l. ex_l2_init nm = Some l \<Longrightarrow> l2_ok l" using ex_env_ok(3) by (auto simp: ex_l2_init_def split: if_splits)
  have w: "ecp_world_ok ?w" by (simp add: ecp_world_ok_def)
  have "ecp22_create (core_env ex_ecp_core) ex_l2_init ''eth0'' ?w \<noteq> None"
    by (simp add: ecp22_create_def ex_l2_init_def ex_ecp_core_def)
  then obtain c w' where st: "ecp22_start ex_l2_init ex_ecp_core ''eth0'' ?w = Some (Inr (c, w'))"
    using start_ok [of ex_ecp_core ?w ex_l2_init "''eth0''"] ex_ecp_ok(1) w l2 by blast
  have "ecp_reach ex_env ex_l2_init ex_ecp_core ?w"
    by (rule ecp_reach.registered) (simp_all add: ecp22_register_def ex_ecp_core_def)
  from ecp_reach.started [OF this st] have "ecp_reach ex_env ex_l2_init c w'" .
  then have "ecp_world_ok w'" using ecp22_reachable_safe [of ex_env ex_l2_init c w'] ex_env_ok(1,4) by blast
  then show ?thesis using st by blast
qed

text \<open>
  A frame longer than the receive buffer of 1514 bytes overflows it: its length is not
  checked before the copy, and the socket delivers up to 2300 bytes.
\<close>

theorem ecp22_long_frame_overflow:
  assumes "ecp_wf e" "ecp_port c e = Some i" "\<not> eb_ecpdu_received (ecp_rx e)" "length buf > ETH_FRAME_LEN"
  shows "ecp22_rx_receiveframe c e buf = Some (Inl Out_Of_Bounds)"
  by (rule receiveframe_overflow [OF assms])

theorem ecp22_long_frame_overflow_witness:
  "ecp22_rx_receiveframe ex_ecp_core ex_ecp (replicate 2300 0) = Some (Inl Out_Of_Bounds)"
  by (rule ecp22_long_frame_overflow [OF ex_ecp_ok(2,6)]) simp_all



section \<open>Data centre bridging\<close>

text \<open>
  C6.  Priority flow control: two stations on one link with different addresses, at least one of them
  willing, start without information about each other.  However their LLDPDUs interleave, no fault
  occurs, and as soon as each has received one from the other both have handed the same set of
  enabled priorities to the kernel, that of the station that leads: the one that is not willing, or
  of two willing ones the one with the higher address.
\<close>

theorem qaz_pfc_agreement:
  assumes "station_ok A" "station_ok B" "linked A B" "pfc_willing (st_pfc A) \<or> pfc_willing (st_pfc B)" "unheard A" "unheard B"
    and "set bs = {True, False}"
  shows "\<exists>A' B'. qaz_run bs A B = Inr (A', B') \<and> kernel_pfc A' = kernel_pfc B'
    \<and> kernel_pfc A' = Some (pfc_enable (st_pfc (if pfc_leads A B then A else B)))"
proof (cases "pfc_leads A B")
  case True
  then have "pfc_inv (pfc_enable (st_pfc A)) False False A B" using assms(1-6) by (simp add: pfc_inv_def)
  from pfc_run_both [OF this, of bs] obtain A' B' where "qaz_run bs A B = Inr (A', B')"
      "kernel_pfc A' = Some (pfc_enable (st_pfc A))" "kernel_pfc B' = Some (pfc_enable (st_pfc A))"
    unfolding assms(7) by blast
  then show ?thesis using True by simp
next
  case False
  then have "pfc_leads B A" using pfc_leads_total [OF assms(3,4)] by simp
  then have "pfc_inv (pfc_enable (st_pfc B)) False False B A" using assms(1-6) by (auto simp: pfc_inv_def linked_def)
  moreover have "False \<in> set (map Not bs)" "True \<in> set (map Not bs)" by (simp_all add: assms(7))
  ultimately obtain B' A' where 1: "qaz_run (map Not bs) B A = Inr (B', A')"
      "kernel_pfc B' = Some (pfc_enable (st_pfc B))" "kernel_pfc A' = Some (pfc_enable (st_pfc B))"
    using pfc_run_both [of _ B A "map Not bs"] by blast
  have "qaz_run bs A B = Inr (A', B')" using 1(1) qaz_run_swap [of bs B A] by (auto simp: bindR_eq_Inr)
  then show ?thesis using 1(2,3) False by simp
qed

theorem qaz_pfc_agreement_witness:
  "\<exists>A' B'. qaz_run [True, False, True] ex_qaz_a ex_qaz_b = Inr (A', B') \<and> kernel_pfc A' = kernel_pfc B' \<and> kernel_pfc A' = Some 16"
  using qaz_pfc_agreement [of ex_qaz_a ex_qaz_b "[True, False, True]"] ex_qaz_pair by (auto simp del: qaz_run.simps)

text \<open>
  C31.  One exchange: a station that takes part sends its TLVs and another receives them.  The receiver hands to the
  kernel the sender's recommendation for transmission selection when it is willing and got one, its own configuration otherwise;
  it remembers the configuration the sender advertises; its table of application priorities becomes the local entries and those the sender
  lists, entries of others are left alone.
\<close>

theorem qaz_exchange_applied:
  assumes "station_ok s" "station_ok r" "apps_known K (app_head (st_data r))"
  shows "\<exists>s' r' evs pfc. qaz_exchange s r = Inr (s', r') \<and> station_ok s' \<and> station_ok r'
    \<and> qaz_events (st_world r') = qaz_events (st_world r) @ evs
    \<and> kernel_hw (st_name r) evs None = Some (if cfg_willing (cfgl (qz_ets (st_data r))) \<and> sends_rec s
        then ets_rec_to_ieee (recl (qz_ets (st_data s))) else ets_cfg_to_ieee (cfgl (qz_ets (st_data r))), pfc)
    \<and> cfgr (qz_ets (st_data r')) = (if sends_cfg s then Some (advertised_cfg (st_data s')) else None)
    \<and> app_table (st_name r) evs K = local_apps (app_head (st_data r)) \<union> set (sent_apps s) \<union> (K - ao_app ` set (app_head (st_data r)))
    \<and> apps_known (app_table (st_name r) evs K) (app_head (st_data r'))"
proof -
  obtain s' r' h evs where x: "qaz_exchange s r = Inr (s', r')" "station_ok s'" "station_ok r'" "same_station s s'"
      "qz_ets (st_data r') = qz_ets (heard s' r)" "qaz_events (st_world r') = qaz_events (st_world r) @ evs"
      "\<forall>k. kernel_hw (st_name r) evs k = Some (oper_ets (heard s' r), oper_pfc (heard s' r))"
      "\<forall>K. apps_known K (app_head (st_data r)) \<longrightarrow>
        app_table (st_name r) evs K = local_apps (app_head (st_data r)) \<union> set (sent_apps s') \<union> (K - ao_app ` set (app_head (st_data r)))
        \<and> apps_known (app_table (st_name r) evs K) (app_head (st_data r'))"
    using exchange_effect [OF assms(1,2)] by blast
  note same = same_station_sends [OF x(4)]
  show ?thesis
    by (rule exI [of _ s'], rule exI [of _ r'], rule exI [of _ evs], rule exI [of _ "oper_pfc (heard s' r)"])
      (use x(1-7) x(8) [rule_format, OF assms(3), THEN conjunct1] x(8) [rule_format, OF assms(3), THEN conjunct2] same in \<open>simp add: heard_ets applied_ets_def\<close>)
qed

theorem qaz_exchange_applied_witness:
  "\<exists>s' r' evs pfc. qaz_exchange ex_qaz_a ex_qaz_b = Inr (s', r') \<and> station_ok s' \<and> station_ok r'
    \<and> qaz_events (st_world r') = qaz_events (st_world ex_qaz_b) @ evs
    \<and> kernel_hw ''eth0'' evs None = Some (ets_rec_to_ieee (recl (qz_ets (ex_qaz_data ex_mac_a 8))), pfc)
    \<and> cfgr (qz_ets (st_data r')) = Some (advertised_cfg (st_data s'))
    \<and> app_table ''eth0'' evs {} = {\<lparr>app_selector = 1, app_priority = 3, app_protocol = 0x8906\<rparr>}
    \<and> apps_known (app_table ''eth0'' evs {}) (app_head (st_data r'))"
proof -
  have "st_name ex_qaz_b = ''eth0''" "st_data ex_qaz_b = ex_qaz_data ex_mac_b 16" "st_data ex_qaz_a = ex_qaz_data ex_mac_a 8"
    "apps_known {} (app_head (st_data ex_qaz_b))" "cfg_willing (cfgl (qz_ets (ex_qaz_data ex_mac_b 16)))"
    "sends_rec ex_qaz_a" "sends_cfg ex_qaz_a" "sent_apps ex_qaz_a = [\<lparr>app_selector = 1, app_priority = 3, app_protocol = 0x8906\<rparr>]"
    by (simp_all add: ex_qaz_b_def ex_qaz_a_def apps_known_def sends_rec_def sends_cfg_def sent_apps_def)
      (simp_all add: ex_qaz_def ex_qaz_host_def ex_qaz_data_def Let_def)
  then show ?thesis
    using qaz_exchange_applied [of ex_qaz_a ex_qaz_b "{}"] ex_qaz_pair(1,2) by (simp add: local_apps_def)
qed



text \<open>
  C33.  The processing of a received ETS configuration or PFC TLV reads its fixed layout although only a
  length of four bytes was checked: a shorter TLV makes it read behind the received bytes at the end of the LLDPDU.
\<close>

theorem qaz_short_tlv_overread:
  assumes "station_ok r" "tlv_type t = ORG_SPECIFIC_TLV" "tlv_info t = Some (QAZ_OUI @ sub # rest)" "unat (tlv_length t) = 4 + length rest"
    and "sub = 9 \<and> length rest < 21 \<or> sub = 11 \<and> length rest < 2"
  shows "qaz_receive [t] r = Inl Out_Of_Bounds"
  using assms by (intro receive_short [of r sub t "QAZ_OUI @ sub # rest"]) (auto simp: is_qaz_def)

theorem qaz_short_tlv_overread_witness:
  "qaz_receive [wire_tlv 127 [0, 0x80, 0xc2, 11]] ex_qaz_a = Inl Out_Of_Bounds"
  by (rule qaz_short_tlv_overread [of _ _ 11 "[]"]) (simp_all add: ex_qaz_pair wire_tlv_def)

text \<open>
  C34.  Of two willing stations the one with the lower address keeps running the priorities of its neighbour after
  an LLDPDU without a PFC TLV, although the neighbour no longer gives any.
\<close>

theorem qaz_pfc_stale_parameters:
  assumes "qz_rx d = Some r" "rx_pfc r = None" "ieee8021qaz_mibUpdateObjects ok d = Inr d'"
    and "pfc_willing (pfc_local (qz_pfc d))" "pfc_willing (pfc_remote (qz_pfc d))" "\<not> cmp_mac_addrs (local_mac d) (remote_mac d)"
  shows "\<not> remote_param (qz_pfc (pfc_sm d')) \<and> pfc_en (oper_pfc (pfc_sm d')) = pfc_enable (pfc_remote (qz_pfc d))"
  using pfc_stale [OF assms] by (simp add: oper_pfc_en oper_enable_def)

theorem qaz_pfc_stale_parameters_witness:
  "\<not> remote_param (qz_pfc (pfc_sm ((ex_qaz_data ex_mac_a 8)\<lparr>remote_mac := ex_mac_b,
     qz_pfc := (qz_pfc (ex_qaz_data ex_mac_a 8))\<lparr>pfc_remote := pfc_local (qz_pfc (ex_qaz_data ex_mac_b 16))\<rparr>\<rparr>)))
   \<and> pfc_en (oper_pfc (pfc_sm ((ex_qaz_data ex_mac_a 8)\<lparr>remote_mac := ex_mac_b,
     qz_pfc := (qz_pfc (ex_qaz_data ex_mac_a 8))\<lparr>pfc_remote := pfc_local (qz_pfc (ex_qaz_data ex_mac_b 16))\<rparr>\<rparr>))) = 16"
proof -
  let ?d = "(ex_qaz_data ex_mac_a 8)\<lparr>remote_mac := ex_mac_b,
     qz_pfc := (qz_pfc (ex_qaz_data ex_mac_a 8))\<lparr>pfc_remote := pfc_local (qz_pfc (ex_qaz_data ex_mac_b 16)), remote_param := True\<rparr>\<rparr>"
  let ?d' = "(ex_qaz_data ex_mac_a 8)\<lparr>remote_mac := ex_mac_b,
     qz_pfc := (qz_pfc (ex_qaz_data ex_mac_a 8))\<lparr>pfc_remote := pfc_local (qz_pfc (ex_qaz_data ex_mac_b 16))\<rparr>\<rparr>"
  have "ieee8021qaz_mibUpdateObjects (\<lambda>_. True) ?d = Inr ?d'"
    by (simp add: ieee8021qaz_mibUpdateObjects_def ex_qaz_data_def Let_def zero_qaz_tlvs_def empty_rx_def ieee8021qaz_app_reset_def)
  then show ?thesis
    using qaz_pfc_stale_parameters [of ?d empty_rx "\<lambda>_. True" ?d']
    by (simp add: empty_rx_def ex_mac_a_def ex_mac_b_def) (simp add: ex_qaz_data_def Let_def zero_qaz_tlvs_def empty_rx_def)
qed

section \<open>The event loop\<close>

text \<open>
  Registering a timeout adds exactly one entry to the queue, due the given time after now, and
  the queue stays sorted by due time.
\<close>

theorem register_timeout_sorted:
  assumes "timeouts_sorted (timeout e)" "ok 48" "0 \<le> usec now"
  shows "\<exists>t e'. eloop_register_timeout ok now secs us h ed ud e = (0, e') \<and> timeouts_sorted (timeout e')
     \<and> mset (timeout e') = add_mset t (mset (timeout e)) \<and> et_handler t = h \<and> time_norm (et_time t)
     \<and> usecs_of (et_time t) = usecs_of now + int secs * 1000000 + int us"
proof -
  have "time_norm (norm_usec (sec now + int secs) (usec now + int us))
      \<and> usecs_of (norm_usec (sec now + int secs) (usec now + int us)) = (sec now + int secs) * 1000000 + (usec now + int us)"
    using assms(3) by (intro norm_usec_spec) simp
  then show ?thesis using assms(1,2)
    by (simp add: eloop_register_timeout_def tq.ok_ins tq.mset_ins usecs_of_def algebra_simps del: norm_usec.simps)
qed

theorem register_timeout_sorted_witness:
  "\<exists>t e'. eloop_register_timeout (\<lambda>_. True) (OS_Time 5 999999) 1 1 timer_handler 0 0 (eloop_init 0) = (0, e')
     \<and> mset (timeout e') = {#t#} \<and> usecs_of (et_time t) = 7000000"
  using register_timeout_sorted [of "eloop_init 0" "\<lambda>_. True" "OS_Time 5 999999" 1 1 timer_handler 0 0]
  by (auto simp: usecs_of_def timeouts_sorted_def)

text \<open>
  The time the event loop passes to select: the wait ends exactly when the first timeout is due,
  or at once when it already is, and no timeout becomes due earlier.
\<close>

theorem select_waits_for_first:
  assumes "timeouts_sorted (timeout e)" "time_norm now" "\<forall>t \<in> set (timeout e). time_norm (et_time t)"
    and "select_timeout now e = Some d"
  shows "0 \<le> usecs_of d \<and> (\<forall>t \<in> set (timeout e). usecs_of now + usecs_of d \<le> max (usecs_of now) (usecs_of (et_time t)))
     \<and> usecs_of now + usecs_of d = max (usecs_of now) (usecs_of (et_time (hd (timeout e))))"
proof -
  obtain t0 ts where q: "timeout e = t0 # ts" and
    d: "d = (if os_time_before now (et_time t0) then os_time_sub (et_time t0) now else OS_Time 0 0)"
    using assms(4) by (auto simp: select_timeout_def split: list.splits)
  have n: "time_norm (et_time t0)" using assms(3) q by simp
  have eq: "usecs_of now + usecs_of d = max (usecs_of now) (usecs_of (et_time t0))"
    using d before_usecs [OF assms(2) n] os_time_sub_spec(2) [OF n assms(2)] by (auto simp: usecs_of_def [of "OS_Time 0 0"])
  have "usecs_of (et_time t0) \<le> usecs_of (et_time t)" if "t \<in> set (timeout e)" for t
    using tq.earliest [of t0 ts t] that assms(1,3) q before_usecs [OF _ n, of "et_time t"]
    by (auto simp: less_eq_os_time_def not_less)
  then show ?thesis using eq q by fastforce
qed

theorem select_waits_for_first_witness:
  "usecs_of (OS_Time 0 400000) \<ge> 0 \<and> select_timeout (OS_Time 0 600000)
      (snd (eloop_register_timeout (\<lambda>_. True) (OS_Time 0 0) 1 0 timer_handler 0 0 (eloop_init 0))) = Some (OS_Time 0 400000)"
proof -
  let ?e = "snd (eloop_register_timeout (\<lambda>_. True) (OS_Time 0 0) 1 0 timer_handler 0 0 (eloop_init 0))"
  have "select_timeout (OS_Time 0 600000) ?e = Some (OS_Time 0 400000)"
    by (simp add: eloop_register_timeout_def select_timeout_def os_time_before_def os_time_sub_def Let_def norm_usec.simps [of 1 0])
  with select_waits_for_first [of ?e "OS_Time 0 600000" "OS_Time 0 400000"] show ?thesis
    by (auto simp: eloop_register_timeout_def timeouts_sorted_def time_norm_def norm_usec.simps [of 1 0])
qed

text \<open>
  Socket tables: registering a socket appends one entry and bounds the highest descriptor,
  unregistering removes the first entry of that descriptor and no other, and both keep the
  invariant of the event loop.
\<close>

theorem sock_register_unregister:
  assumes "eloop_inv e" "eloop_register_sock ok s ty h ed ud e = (0, e')"
  shows "eloop_inv e' \<and> s \<le> max_sock e'
     \<and> socks (eloop_get_sock_table e' ty)
        = socks (eloop_get_sock_table e ty) @ [\<lparr>es_sock = s, es_eloop_data = ed, es_user_data = ud, es_handler = h\<rparr>]
     \<and> eloop_inv (eloop_unregister_sock s ty e')
     \<and> socks (eloop_get_sock_table (eloop_unregister_sock s ty e') ty) = remove_first s (socks (eloop_get_sock_table e' ty))"
proof -
  have i: "eloop_inv e'" using eloop_inv_register_sock [OF assms(1), of ok s ty h ed ud] assms(2) by simp
  have t: "table_ok (eloop_get_sock_table e ty)" "table_ok (eloop_get_sock_table e' ty)"
    using assms(1) i by (simp_all add: eloop_inv_def)
  obtain t' where t': "eloop_sock_table_add_sock ok (eloop_get_sock_table e ty) s h ed ud = (0, t')"
      "e' = (put_sock_table ty t' e)\<lparr>max_sock := max (max_sock e) s\<rparr>"
    using assms(2) by (auto simp: eloop_register_sock_def split: prod.splits if_splits)
  show ?thesis
    using i t' add_sock_spec [OF t(1) t'(1)] remove_sock_spec [OF t(2), of s] eloop_inv_unregister_sock [OF i, of s ty]
    by (simp add: eloop_unregister_sock_def)
qed

theorem sock_register_unregister_witness:
  "\<exists>e'. eloop_register_sock (\<lambda>_. True) 7 EVENT_TYPE_READ l2_packet_receive_handler 2 0 (eloop_init 0) = (0, e')
     \<and> eloop_inv e' \<and> socks (eloop_get_sock_table (eloop_unregister_sock 7 EVENT_TYPE_READ e') EVENT_TYPE_READ) = []"
proof -
  obtain e' where e': "eloop_register_sock (\<lambda>_. True) 7 EVENT_TYPE_READ l2_packet_receive_handler 2 0 (eloop_init 0) = (0, e')"
    by (simp add: eloop_register_sock_def eloop_sock_table_add_sock_def)
  have "socks (empty_table :: lldpad_handler eloop_sock_table) = []" by (simp add: socks_def empty_table_def)
  with sock_register_unregister [OF eloop_inv_init e'] e' show ?thesis by simp
qed

text \<open>
  Destroying a socket table indexes it from one to its count: with a full table the first access
  is past its end.
\<close>

theorem destroy_past_table:
  assumes "sock_count t = length (table t)" "table t \<noteq> []"
  shows "eloop_sock_table_destroy t = Inl Out_Of_Bounds"
  using assms by (cases "length (table t)") (simp_all add: eloop_sock_table_destroy_def)

theorem destroy_past_table_witness:
  "eloop_sock_table_destroy \<lparr>sock_count = 1, table = [\<lparr>es_sock = 7, es_eloop_data = 2, es_user_data = 0,
     es_handler = l2_packet_receive_handler\<rparr>], changed = True\<rparr> = Inl Out_Of_Bounds"
  by (rule destroy_past_table) simp_all

section \<open>Ports and agents\<close>

text \<open>
  Setting the administrative status of an agent returns without a fault, keeps the invariant and
  the set of ports and agents, and the status read back is the one that was set.
\<close>

theorem admin_status_read_back:
  assumes "ports_ok en h c w" "get_ifidx en name \<noteq> 0" "port_find_by_ifindex (porthead c) (get_ifidx en name) = Some i"
    and "get_ifidx en (ifname (porthead c ! i)) = get_ifidx en name" "lldp_agent_find_by_type c name ty = Some ij"
  shows "\<exists>c' w'. set_lldp_agent_admin c name ty admin w = Some (Inr (c', w')) \<and> ports_ok en h c' w'
     \<and> shape c' = shape c \<and> get_lldp_agent_admin c' name ty = admin"
proof -
  have en: "core_env c = en" using assms(1) by (simp add: ports_ok_def core_inv_def)
  then have "lldp_agent_find_by_type c (ifname (porthead c ! i)) ty = Some ij"
    using assms(4,5) by (simp add: lldp_agent_find_by_type_def)
  then obtain c' w' where r: "set_lldp_agent_admin c name ty admin w = Some (Inr (c', w'))" "ports_ok en h c' w'"
      "shape c' = shape c" "adminStatus (agent_at c' ij) = admin"
    using set_lldp_agent_admin_ok [OF assms(1), of name ty admin] assms(2,3) by blast
  moreover have "lldp_agent_find_by_type c' name ty = Some ij"
    using assms(5) unfolding agent_find_shape r(3) .
  ultimately show ?thesis by (simp add: get_lldp_agent_admin_def)
qed

theorem admin_status_read_back_witness:
  "\<exists>c' w'. set_lldp_agent_admin (ex_core [ex_port [ex_agent]]) ''eth0'' NEAREST_BRIDGE disabled ex_world = Some (Inr (c', w'))
     \<and> get_lldp_agent_admin c' ''eth0'' NEAREST_BRIDGE = disabled"
  using admin_status_read_back [OF ex_ports_ok, of "''eth0''" 0 NEAREST_BRIDGE "(0, 0)" disabled]
  by (auto simp: port_find_by_ifindex_def lldp_agent_find_by_type_def)

text \<open>
  Adding an agent succeeds exactly when the port exists and has no agent of that type; then the
  agent is found and is in its initial state, otherwise nothing changes.
\<close>

theorem add_agent_exact:
  assumes "ports_ok en h c w"
  shows "\<exists>rc c' w'. lldp_add_agent c name ty w = Inr (rc, c', w') \<and> ports_ok en h c' w'
     \<and> rc = (if port_find_by_ifindex (porthead c) (get_ifidx en name) \<noteq> None
               \<and> lldp_agent_find_by_type c name ty = None then 0 else - 1)
     \<and> (if rc = 0 then \<exists>ij. lldp_agent_find_by_type c' name ty = Some ij \<and> fresh_agent (agent_at c' ij)
        else c' = c \<and> w' = w)"
  by (rule lldp_add_agent_ok [OF assms])

theorem add_agent_exact_witness:
  "\<exists>c' w'. lldp_add_agent (ex_core [ex_port [ex_agent]]) ''eth0'' NEAREST_CUSTOMER_BRIDGE ex_world = Inr (0, c', w')
     \<and> (\<exists>ij. lldp_agent_find_by_type c' ''eth0'' NEAREST_CUSTOMER_BRIDGE = Some ij \<and> fresh_agent (agent_at c' ij))"
  using add_agent_exact [OF ex_ports_ok, of "''eth0''" NEAREST_CUSTOMER_BRIDGE]
  by (auto simp: port_find_by_ifindex_def lldp_agent_find_by_type_def)

text \<open>
  A port that was added is found under its index, has no agents, and removing it by its name gives
  back the list of ports there was before; interface indices stay unique.
\<close>

theorem add_remove_port:
  assumes "ports_ok en h c w" "l2_good l2i" "add_port l2i c ifidx name = (True, c')"
  shows "ports_ok en h c' w \<and> port_find_by_ifindex (porthead c) ifidx = None
     \<and> port_find_by_ifindex (porthead c') ifidx = Some 0 \<and> agent_head (porthead c' ! 0) = []
     \<and> remove_port c' name = (0, c)"
proof -
  have "\<And>n l. l2i n = Some l \<Longrightarrow> l2_ok l" using assms(2) by (simp add: l2_good_def)
  note add = add_port_ok [OF assms(1) this assms(3)]
  have "remove_port c' name = (0, c)"
    using assms(3) by (auto simp: add_port_def remove_port_def strn_eq_def Let_def split: if_splits option.splits)
  with add show ?thesis by simp
qed

theorem add_remove_port_witness:
  "\<exists>c'. add_port ex_l2_init (ex_core []) 2 ''eth0'' = (True, c') \<and> remove_port c' ''eth0'' = (0, ex_core [])"
proof -
  have ok: "ports_ok ex_env ex_host (ex_core []) ex_world"
    using ex_env_ok ex_world_inv by (simp add: ports_ok_def core_inv_def ports_unique_def)
  obtain c' where "add_port ex_l2_init (ex_core []) 2 ''eth0'' = (True, c')"
    by (simp add: add_port_def ex_l2_init_def Let_def)
  with add_remove_port [OF ok ex_env_ok(4) this] show ?thesis by blast
qed

text \<open>
  A client that asks for the local TLVs gets the TLVs of the last frame that was built, with the
  end TLV and the padding, and not the Ethernet header.
\<close>

theorem local_tlvs_of_last_frame:
  assumes "lldp_agent_find_by_type c name ty = Some ij" "length hdr = ETH_HLEN" "lldp_frame_size ts \<le> ETH_DATA_LEN"
    and "frameout (tx (agent_at c ij)) = Some (lldp_frame hdr ts)"
    and "sizeout (tx (agent_at c ij)) = of_nat (lldp_frame_size ts)"
  shows "get_local_tlvs c name ty = Inr (cmd_success, int (lldp_frame_size ts) - 14,
     tlv_concat ts @ [0, 0] @ replicate (44 - length (tlv_concat ts)) 0)"
  using assms tlvs_of_lldp_frame [OF assms(2,3)] by (simp add: get_local_tlvs_def Let_def)

theorem local_tlvs_of_last_frame_witness:
  "\<exists>bs. get_local_tlvs (ex_core [ex_port [set_out (lldp_frame ex_hdr (ex_tlvs 0 120)) (of_nat (lldp_frame_size (ex_tlvs 0 120))) ex_agent]])
     ''eth0'' NEAREST_BRIDGE = Inr (cmd_success, 46, tlv_concat (ex_tlvs 0 120) @ [0, 0] @ bs)"
proof -
  let ?a = "set_out (lldp_frame ex_hdr (ex_tlvs 0 120)) (of_nat (lldp_frame_size (ex_tlvs 0 120))) ex_agent"
  have f: "lldp_agent_find_by_type (ex_core [ex_port [?a]]) ''eth0'' NEAREST_BRIDGE = Some (0, 0)"
    by (simp add: lldp_agent_find_by_type_def port_find_by_ifindex_def set_out_def)
  have "agent_at (ex_core [ex_port [?a]]) (0, 0) = ?a" by (simp add: agent_at_def)
  moreover have "lldp_frame_size (ex_tlvs 0 120) = 60" by (simp add: lldp_frame_size_def ex_tlvs_length)
  ultimately show ?thesis using local_tlvs_of_last_frame [OF f ex_hdr_length ex_tlvs_emitted(2)] by (simp add: set_out_def)
qed

section \<open>Virtual station interfaces\<close>





text \<open>
  C36.  The loop of the station machine, from any of the states a VSI rests in, does in one run what the
  diagram says: it sends, confirms, keeps, ends or waits, and stops in a resting state.  No
  assertion of a state change fails.
\<close>

theorem vdp22st_run_implements_diagram:
  assumes "st_resting v"
  shows "vdp22st_run en d v = st_spec en d v"
  by (rule vdp22st_run_eq [OF assms])

theorem vdp22st_run_implements_diagram_witness:
  "vdp22st_run ex_vdp_env (ex_vdp VDP22_STATION []) (set_st VDP22_BEGIN (ex_vsi 3 2 0 0))
     = st_spec ex_vdp_env (ex_vdp VDP22_STATION []) (set_st VDP22_BEGIN (ex_vsi 3 2 0 0))"
  by (rule vdp22st_run_implements_diagram) (simp add: st_resting_def)









text \<open>
  A message that ECP delivers before the one before it was processed replaces it in the input buffer:
  the first leaves no trace, and the second is processed twice.
\<close>

theorem vdp22_message_overwritten:
  assumes "vdp22_findif name w = Some i" "data_from_ecp name len1 b1 w = Inr (0, w1)" "data_from_ecp name len2 b2 w1 = Inr (0, w2)"
    and "len1 \<le> len2"
  shows "\<exists>w3. data_from_ecp name len2 b2 w = Inr (0, w3)
     \<and> w2 = w3\<lparr>vw_inputs := vw_inputs w @ [vdp_ifname (vdp22_head w ! i), vdp_ifname (vdp22_head w ! i)]\<rparr>"
  by (rule data_from_ecp_twice [OF assms(2-4,1)])

theorem vdp22_message_overwritten_witness:
  "\<exists>w1 w2 w3. data_from_ecp ''eth0'' 2 [1, 2] (ex_vdp_world (ex_vdp VDP22_STATION [])) = Inr (0, w1)
     \<and> data_from_ecp ''eth0'' 2 [3, 4] w1 = Inr (0, w2)
     \<and> data_from_ecp ''eth0'' 2 [3, 4] (ex_vdp_world (ex_vdp VDP22_STATION [])) = Inr (0, w3)
     \<and> w2 = w3\<lparr>vw_inputs := [''eth0'', ''eth0'']\<rparr>"
proof -
  let ?w = "ex_vdp_world (ex_vdp VDP22_STATION [])"
  have f: "vdp22_findif ''eth0'' ?w = Some 0" by (simp add: vdp22_findif_def ex_vdp_world_def)
  obtain w1 where 1: "data_from_ecp ''eth0'' 2 [1, 2] ?w = Inr (0, w1)" and h: "vdp22_findif ''eth0'' w1 = Some 0" "length (vdp_input (vdp22_head w1 ! 0)) = 1500"
    by (simp add: data_from_ecp_def f read_bytes_def write_bytes_def) (simp add: vdp22_findif_def put_if_def ex_vdp_world_def)
  obtain w2 where 2: "data_from_ecp ''eth0'' 2 [3, 4] w1 = Inr (0, w2)"
    using h by (simp add: data_from_ecp_def read_bytes_def write_bytes_def)
  from vdp22_message_overwritten [OF f 1 2] 1 2 show ?thesis by (simp add: ex_vdp_world_def)
qed

end
